(* ===== verification/Prelude.thy ===== *)
theory Prelude
  imports Main "HOL-Library.AList" "HOL-Library.List_Lexorder" "HOL-Library.Char_ord"
begin

text \<open>
  Shared vocabulary of the development: Go's fixed-width integers and \<open>time.Duration\<close>
  arithmetic, Go errors as values, Go maps that are iterated (association lists), and the
  generic facts on lists that several components use.  Strings are byte strings; ordering on
  them is the lexicographic byte order that Go's \<open>sort.Strings\<close> uses.
\<close>

named_theorems go_arith \<open>facts about Go's wrapping and saturating integers\<close>
named_theorems frame \<open>what an operation leaves unchanged\<close>

section \<open>Fixed-width integers\<close>

text \<open>
  \<open>wrap32\<close> and \<open>wrap64\<close> are the two's complement readings of Go's \<open>int32\<close> and
  \<open>int64\<close> (\<open>int\<close>, \<open>time.Duration\<close>); an arithmetic result is wrapped where the
  source computes it at that width.
\<close>

definition wrap32 :: "int \<Rightarrow> int" where
  "wrap32 x = (x + 2 ^ 31) mod 2 ^ 32 - 2 ^ 31"

definition wrap64 :: "int \<Rightarrow> int" where
  "wrap64 x = (x + 2 ^ 63) mod 2 ^ 64 - 2 ^ 63"

definition sat64 :: "int \<Rightarrow> int" where
  "sat64 x = max (- (2 ^ 63)) (min (2 ^ 63 - 1) x)"

lemma wrap32_id [go_arith]: "- (2 ^ 31) \<le> x \<Longrightarrow> x < 2 ^ 31 \<Longrightarrow> wrap32 x = x"
  by (simp add: wrap32_def)

lemma wrap64_id [go_arith]: "- (2 ^ 63) \<le> x \<Longrightarrow> x < 2 ^ 63 \<Longrightarrow> wrap64 x = x"
  by (simp add: wrap64_def)

lemma sat64_id [go_arith]: "- (2 ^ 63) \<le> x \<Longrightarrow> x < 2 ^ 63 \<Longrightarrow> sat64 x = x"
  by (simp add: sat64_def)

lemma wrap32_bounds: "- (2 ^ 31) \<le> wrap32 x \<and> wrap32 x < 2 ^ 31"
proof -
  have "(x + 2 ^ 31) mod 2 ^ 32 < (2::int) ^ 32" by (rule pos_mod_bound) simp
  moreover have "0 \<le> (x + 2 ^ 31) mod (2::int) ^ 32" by (rule pos_mod_sign) simp
  ultimately show ?thesis by (simp add: wrap32_def)
qed

lemma sat64_bounds: "- (2 ^ 63) \<le> sat64 x \<and> sat64 x < 2 ^ 63"
  by (simp add: sat64_def)

lemma sat64_neg: "x < 0 \<longleftrightarrow> sat64 x < 0"
  by (auto simp: sat64_def)

lemma le_div_int [go_arith]:
  fixes k x n :: int
  assumes "0 < n"
  shows "k \<le> x div n \<longleftrightarrow> k * n \<le> x"
proof
  assume "k \<le> x div n"
  then have "k * n \<le> x div n * n" using assms by (intro mult_right_mono) auto
  then show "k * n \<le> x" using div_mult_mod_eq [of x n] pos_mod_sign [OF assms, of x] by linarith
next
  assume "k * n \<le> x"
  then have "k * n div n \<le> x div n" by (rule zdiv_mono1) (rule assms)
  then show "k \<le> x div n" using assms by simp
qed

section \<open>Errors\<close>

text \<open>
  A Go \<open>error\<close> value.  \<open>Wrap p e\<close> is \<open>fmt.Errorf(p + "%w", e)\<close>; \<open>PlanError e\<close>
  is the wrapper type of \<open>state.AsPlanError\<close>; \<open>Panic\<close> is a run-time panic (index or slice
  out of range) and \<open>Diverges\<close> a loop that does not end, both kept as values so that their
  absence can be proved.
\<close>

datatype api_error = NotFound | ApiFailure string

datatype go_error =
    ErrMsg string
  | ErrCycleDetected
  | ErrTargetNotFound string
  | ApiError api_error
  | Wrap string go_error
  | PlanError go_error
  | Panic
  | Diverges

type_synonym 'a res = "go_error + 'a"

fun err_text :: "go_error \<Rightarrow> string" where
  "err_text (ErrMsg s) = s"
| "err_text ErrCycleDetected = ''cycle detected in dependency graph''"
| "err_text (ErrTargetNotFound t) = ''dependency references unknown target: '' @ t"
| "err_text (ApiError NotFound) = ''not found''"
| "err_text (ApiError (ApiFailure s)) = s"
| "err_text (Wrap p e) = p @ err_text e"
| "err_text (PlanError e) = err_text e"
| "err_text Panic = ''panic''"
| "err_text Diverges = ''diverges''"

text \<open>\<open>errors.As(err, &pe)\<close> with a \<open>*PlanError\<close> target walks the wrapping chain.\<close>

fun is_plan_error :: "go_error \<Rightarrow> bool" where
  "is_plan_error (PlanError e) = True"
| "is_plan_error (Wrap p e) = is_plan_error e"
| "is_plan_error e = False"

fun is_not_found :: "go_error \<Rightarrow> bool" where
  "is_not_found (ApiError NotFound) = True"
| "is_not_found (Wrap p e) = is_not_found e"
| "is_not_found e = False"

section \<open>Lists\<close>

text \<open>Index of the first element that satisfies a predicate (\<open>lo.FindIndexOf\<close>).\<close>

fun find_index :: "('a \<Rightarrow> bool) \<Rightarrow> 'a list \<Rightarrow> nat option" where
  "find_index P [] = None"
| "find_index P (x # xs) = (if P x then Some 0 else map_option Suc (find_index P xs))"

lemma find_index_Some:
  "find_index P xs = Some i \<Longrightarrow> i < length xs \<and> P (xs ! i) \<and> (\<forall>j<i. \<not> P (xs ! j))"
proof (induction xs arbitrary: i)
  case (Cons x xs)
  then show ?case
    by (auto split: if_splits simp: nth_Cons split: nat.splits)
qed simp

lemma find_index_None: "find_index P xs = None \<longleftrightarrow> (\<forall>x \<in> set xs. \<not> P x)"
  by (induction xs) auto

lemma find_Some_iff_mem: "List.find P xs = Some x \<Longrightarrow> x \<in> set xs \<and> P x"
  by (induction xs) (auto split: if_splits)

text \<open>Apply a function to the first element that satisfies a predicate.\<close>

fun update_first :: "('a \<Rightarrow> bool) \<Rightarrow> ('a \<Rightarrow> 'a) \<Rightarrow> 'a list \<Rightarrow> 'a list" where
  "update_first P f [] = []"
| "update_first P f (x # xs) = (if P x then f x # xs else x # update_first P f xs)"

lemma length_update_first [simp]: "length (update_first P f xs) = length xs"
  by (induction xs) auto

lemma map_update_first:
  "(\<And>x. P x \<Longrightarrow> g (f x) = g x) \<Longrightarrow> map g (update_first P f xs) = map g xs"
  by (induction xs) auto

text \<open>Go's \<open>m[k]\<close> on a map that may lack the key, with the zero value as default.\<close>

definition lookup_default :: "'v \<Rightarrow> ('k \<times> 'v) list \<Rightarrow> 'k \<Rightarrow> 'v" where
  "lookup_default d al k = (case map_of al k of None \<Rightarrow> d | Some v \<Rightarrow> v)"

lemma lookup_default_update [simp]:
  "lookup_default d (AList.update k v al) k' = (if k = k' then v else lookup_default d al k')"
  by (simp add: lookup_default_def AList.update_conv)

end
