(* ===== verification/Planner.thy ===== *)
theory Planner
  imports Prelude "HOL-Library.Multiset"
begin

text \<open>
  The execution planner (\<^verbatim>\<open>internal/scheduler/planner.go\<close>): the four strategies that turn a
  list of targets into stages.  \<open>inDegree\<close>, a Go map that is iterated, is an association list;
  the iteration order does not matter because the source sorts what it collects.
\<close>

section \<open>Data\<close>

record Dependency =
  From :: string
  To :: string

record Stage =
  st_Name :: string
  st_Parallel :: bool
  st_MaxConcurrency :: int
  st_Targets :: "string list"

record ExecutionStage =
  xs_Targets :: "string list"
  xs_MaxConcurrency :: int

record ExecutionPlan =
  Stages :: "ExecutionStage list"

section \<open>Strategies\<close>

definition PlanSequential :: "string list \<Rightarrow> ExecutionPlan" where
  "PlanSequential targets =
     \<lparr>Stages = map (\<lambda>t. \<lparr>xs_Targets = [t], xs_MaxConcurrency = 1\<rparr>) targets\<rparr>"

definition PlanParallel :: "string list \<Rightarrow> int \<Rightarrow> ExecutionPlan" where
  "PlanParallel targets maxConcurrency =
     \<lparr>Stages = [\<lparr>xs_Targets = targets,
        xs_MaxConcurrency = (if maxConcurrency \<le> 0 then wrap32 (int (length targets))
                             else maxConcurrency)\<rparr>]\<rparr>"

text \<open>
  \<open>PlanDAG\<close>: validate the edges, count in-degrees, then peel off the nodes of in-degree zero
  level by level.
\<close>

fun validateDeps :: "string list \<Rightarrow> Dependency list \<Rightarrow> go_error option" where
  "validateDeps targets [] = None"
| "validateDeps targets (d # ds) =
     (if From d \<notin> set targets then Some (ErrTargetNotFound (From d))
      else if To d \<notin> set targets then Some (ErrTargetNotFound (To d))
      else validateDeps targets ds)"

text \<open>The adjacency map: the successors of a target, in the order of the dependencies.\<close>

definition adj :: "Dependency list \<Rightarrow> string \<Rightarrow> string list" where
  "adj deps t = map To (filter (\<lambda>d. From d = t) deps)"

definition bumpDegree :: "int \<Rightarrow> string \<Rightarrow> (string \<times> int) list \<Rightarrow> (string \<times> int) list" where
  "bumpDegree k t m = AList.update t (lookup_default 0 m t + k) m"

definition initDegree :: "string list \<Rightarrow> Dependency list \<Rightarrow> (string \<times> int) list" where
  "initDegree targets deps =
     fold (\<lambda>d m. bumpDegree 1 (To d) m) deps
       (fold (\<lambda>t m. AList.update t 0 m) targets [])"

text \<open>Sort the keys of in-degree zero.\<close>

definition readyTargets :: "(string \<times> int) list \<Rightarrow> string list" where
  "readyTargets inDegree = sort (map fst (filter (\<lambda>e. snd e = 0) inDegree))"

text \<open>\<open>delete(inDegree, t)\<close>, then one decrement per outgoing edge of \<open>t\<close>.\<close>

definition removeTarget ::
    "Dependency list \<Rightarrow> string \<Rightarrow> (string \<times> int) list \<Rightarrow> (string \<times> int) list" where
  "removeTarget deps t m = fold (bumpDegree (- 1)) (adj deps t) (AList.delete t m)"

function kahn :: "nat \<Rightarrow> Dependency list \<Rightarrow> int \<Rightarrow> nat \<Rightarrow> (string \<times> int) list \<Rightarrow>
    ExecutionStage list \<Rightarrow> (ExecutionStage list) res" where
  "kahn n deps mc processed inDegree stages =
     (if processed < n then
        (let ready = readyTargets inDegree in
         if ready = [] then Inl ErrCycleDetected
         else kahn n deps mc (processed + length ready)
                (fold (removeTarget deps) ready inDegree)
                (stages @ [\<lparr>xs_Targets = ready,
                   xs_MaxConcurrency = (if mc \<le> 0 then wrap32 (int (length ready)) else mc)\<rparr>]))
      else Inr stages)"
  by pat_completeness auto
termination
  by (relation "measure (\<lambda>(n, deps, mc, processed, inDegree, stages). n - processed)")
    (auto simp: length_greater_0_conv [symmetric] simp del: length_greater_0_conv)

declare kahn.simps [simp del]

definition PlanDAG :: "string list \<Rightarrow> Dependency list \<Rightarrow> int \<Rightarrow> ExecutionPlan res" where
  "PlanDAG targets deps maxConcurrency =
     (case validateDeps targets deps of
        Some e \<Rightarrow> Inl e
      | None \<Rightarrow>
          (case kahn (length targets) deps maxConcurrency 0 (initDegree targets deps) [] of
             Inl e \<Rightarrow> Inl e
           | Inr stages \<Rightarrow> Inr \<lparr>Stages = stages\<rparr>))"

definition stageConcurrency :: "int \<Rightarrow> Stage \<Rightarrow> int" where
  "stageConcurrency globalMax s =
     (if st_MaxConcurrency s \<le> 0 then
        (if st_Parallel s then
           (if globalMax \<le> 0 then wrap32 (int (length (st_Targets s))) else globalMax)
         else 1)
      else st_MaxConcurrency s)"

definition PlanStaged :: "Stage list \<Rightarrow> int \<Rightarrow> ExecutionPlan" where
  "PlanStaged stages globalMax =
     \<lparr>Stages = map (\<lambda>s. \<lparr>xs_Targets = st_Targets s,
        xs_MaxConcurrency = stageConcurrency globalMax s\<rparr>) stages\<rparr>"

definition ValidateDAG :: "string list \<Rightarrow> Dependency list \<Rightarrow> go_error option" where
  "ValidateDAG targets deps =
     (case PlanDAG targets deps 0 of Inl e \<Rightarrow> Some e | Inr _ \<Rightarrow> None)"

section \<open>The level-by-level invariant\<close>

text \<open>Dependencies of \<open>t\<close> whose source is not in \<open>done\<close>.\<close>

definition openDeps :: "Dependency list \<Rightarrow> string set \<Rightarrow> string \<Rightarrow> Dependency list" where
  "openDeps deps A t = filter (\<lambda>d. To d = t \<and> From d \<notin> A) deps"

definition degree_ok ::
    "string set \<Rightarrow> Dependency list \<Rightarrow> string set \<Rightarrow> (string \<times> int) list \<Rightarrow> bool" where
  "degree_ok T deps A m \<longleftrightarrow>
     distinct (map fst m) \<and> fst ` set m = T - A \<and>
     (\<forall>t \<in> T - A. map_of m t = Some (int (length (openDeps deps A t))))"

definition deps_in :: "string set \<Rightarrow> Dependency list \<Rightarrow> bool" where
  "deps_in T deps \<longleftrightarrow> (\<forall>d \<in> set deps. From d \<in> T \<and> To d \<in> T)"

definition down_closed :: "Dependency list \<Rightarrow> string set \<Rightarrow> bool" where
  "down_closed deps A \<longleftrightarrow> (\<forall>d \<in> set deps. To d \<in> A \<longrightarrow> From d \<in> A)"

lemma validateDeps_None: "validateDeps targets deps = None \<longleftrightarrow> deps_in (set targets) deps"
  by (induction deps) (auto simp: deps_in_def)

lemma validateDeps_Some:
  "validateDeps targets deps = Some e \<Longrightarrow>
     \<exists>d \<in> set deps. \<exists>t \<in> {From d, To d}. t \<notin> set targets \<and> e = ErrTargetNotFound t"
  by (induction deps) (auto split: if_splits)

lemma bumpDegree_keys:
  "map fst (bumpDegree c t m) = (if t \<in> fst ` set m then map fst m else map fst m @ [t])"
  by (simp add: bumpDegree_def AList.update_keys)

lemma fold_bumpDegree_keys:
  "set ns \<subseteq> fst ` set m \<Longrightarrow> map fst (fold (bumpDegree c) ns m) = map fst m"
proof (induction ns arbitrary: m)
  case (Cons n ns)
  have eq: "map fst (bumpDegree c n m) = map fst m"
    using Cons.prems by (simp add: bumpDegree_keys)
  then have "fst ` set (bumpDegree c n m) = fst ` set m"
    by (metis list.set_map)
  with Cons show ?case by (simp add: eq)
qed simp

lemma fold_bumpDegree_map_of:
  "map_of m k = Some v \<Longrightarrow>
     map_of (fold (bumpDegree c) ns m) k = Some (v + c * int (count_list ns k))"
proof (induction ns arbitrary: m v)
  case (Cons n ns)
  have "map_of (bumpDegree c n m) k = Some (if n = k then v + c else v)"
    using Cons.prems by (auto simp: bumpDegree_def AList.update_conv' lookup_default_def)
  from Cons.IH [OF this] show ?case by (simp add: algebra_simps)
qed simp

text \<open>The counters start at the number of incoming dependencies.\<close>

lemma zero_map_of:
  "map_of (fold (\<lambda>t m. AList.update t (0::int) m) targets m) t =
     (if t \<in> set targets then Some 0 else map_of m t)"
  by (induction targets arbitrary: m) (auto simp: AList.update_conv')

lemma zero_keys:
  "fst ` set (fold (\<lambda>t m. AList.update t (0::int) m) targets m) = set targets \<union> fst ` set m"
  by (induction targets arbitrary: m) (auto simp: AList.dom_update)

lemma zero_distinct:
  "distinct (map fst m) \<Longrightarrow> distinct (map fst (fold (\<lambda>t m. AList.update t (0::int) m) targets m))"
  by (induction targets arbitrary: m) (auto simp: AList.distinct_update)

lemma count_list_map_filter: "count_list (map f xs) y = length (filter (\<lambda>x. f x = y) xs)"
  by (induction xs) auto

lemma initDegree_ok:
  assumes "deps_in (set targets) deps"
  shows "degree_ok (set targets) deps {} (initDegree targets deps)"
proof -
  let ?z = "fold (\<lambda>t m. AList.update t (0::int) m) targets []"
  have init: "initDegree targets deps = fold (bumpDegree 1) (map To deps) ?z"
    by (simp add: initDegree_def fold_map comp_def)
  have sub: "set (map To deps) \<subseteq> fst ` set ?z"
    using assms by (auto simp: deps_in_def zero_keys)
  from fold_bumpDegree_keys [OF sub, of 1]
  have keys: "map fst (initDegree targets deps) = map fst ?z" by (simp add: init)
  have "map_of (initDegree targets deps) t = Some (int (length (openDeps deps {} t)))"
    if "t \<in> set targets" for t
    using fold_bumpDegree_map_of [of ?z t 0 1 "map To deps"] that
    by (simp add: init zero_map_of openDeps_def count_list_map_filter)
  moreover have "fst ` set (initDegree targets deps) = set targets"
    using keys by (metis list.set_map zero_keys list.set(1) image_empty Un_empty_right)
  moreover have "distinct (map fst (initDegree targets deps))"
    by (simp add: keys zero_distinct)
  ultimately show ?thesis by (simp add: degree_ok_def)
qed

text \<open>Removing one target with no open dependency keeps the counters right.\<close>

lemma openDeps_insert:
  "length (openDeps deps A n) = length (openDeps deps (insert t A) n)
     + (if t \<in> A then 0 else count_list (adj deps t) n)"
  by (induction deps) (auto simp: openDeps_def adj_def)

lemma removeTarget_ok:
  assumes ok: "degree_ok T deps A m" and T: "deps_in T deps" and cl: "down_closed deps A"
    and t: "t \<in> T - A" and zero: "openDeps deps A t = []"
  shows "degree_ok T deps (insert t A) (removeTarget deps t m)"
    and "down_closed deps (insert t A)"
proof -
  have self: "From d \<noteq> t" if "d \<in> set deps" "To d = t" for d
    using zero that t by (auto simp: openDeps_def filter_empty_conv)
  show "down_closed deps (insert t A)"
    using cl zero by (auto simp: down_closed_def openDeps_def filter_empty_conv)
  let ?m = "AList.delete t m"
  have keysD: "fst ` set ?m = T - insert t A"
    using ok arg_cong [OF AList.delete_keys [of t m], of set] by (auto simp: degree_ok_def)
  have adjs: "set (adj deps t) \<subseteq> T - insert t A"
  proof
    fix n assume "n \<in> set (adj deps t)"
    then obtain d where d: "d \<in> set deps" "From d = t" "n = To d" by (auto simp: adj_def)
    then have "To d \<in> T" "To d \<notin> A" "To d \<noteq> t"
      using T cl t self [OF d(1)] by (auto simp: deps_in_def down_closed_def)
    then show "n \<in> T - insert t A" by (simp add: d)
  qed
  have keys: "map fst (removeTarget deps t m) = map fst ?m"
    using fold_bumpDegree_keys [of "adj deps t" ?m] adjs keysD by (simp add: removeTarget_def)
  have "map_of (removeTarget deps t m) n = Some (int (length (openDeps deps (insert t A) n)))"
    if n: "n \<in> T - insert t A" for n
  proof -
    have "map_of ?m n = Some (int (length (openDeps deps A n)))"
      using ok n by (simp add: degree_ok_def AList.delete_conv')
    from fold_bumpDegree_map_of [OF this, of "- 1" "adj deps t"]
    show ?thesis
      using openDeps_insert [of deps A n t] t by (simp add: removeTarget_def)
  qed
  moreover have "fst ` set (removeTarget deps t m) = T - insert t A"
    using keys keysD by (metis list.set_map)
  moreover have "distinct (map fst (removeTarget deps t m))"
    using ok by (simp add: keys degree_ok_def AList.distinct_delete)
  ultimately show "degree_ok T deps (insert t A) (removeTarget deps t m)"
    by (simp add: degree_ok_def)
qed

lemma openDeps_mono_empty: "openDeps deps A t = [] \<Longrightarrow> A \<subseteq> B \<Longrightarrow> openDeps deps B t = []"
  by (auto simp: openDeps_def filter_empty_conv)

lemma removeAll_ok:
  assumes "degree_ok T deps A m" "deps_in T deps" "down_closed deps A" "distinct ts"
    "set ts \<subseteq> T - A" "\<forall>t \<in> set ts. openDeps deps A t = []"
  shows "degree_ok T deps (A \<union> set ts) (fold (removeTarget deps) ts m)
    \<and> down_closed deps (A \<union> set ts)"
  using assms
proof (induction ts arbitrary: A m)
  case (Cons t ts)
  have t: "t \<in> T - A" "openDeps deps A t = []" using Cons.prems by auto
  note step = removeTarget_ok [OF Cons.prems(1-3) t]
  have "degree_ok T deps (insert t A \<union> set ts) (fold (removeTarget deps) ts (removeTarget deps t m))
    \<and> down_closed deps (insert t A \<union> set ts)"
    using Cons.prems by (intro Cons.IH step) (auto intro: openDeps_mono_empty)
  then show ?case by simp
qed simp

lemma set_readyTargets:
  assumes "degree_ok T deps A m"
  shows "set (readyTargets m) = {t \<in> T - A. openDeps deps A t = []}"
    and "distinct (readyTargets m)"
proof -
  have d: "distinct (map fst m)" and k: "fst ` set m = T - A"
    and v: "\<And>t. t \<in> T - A \<Longrightarrow> map_of m t = Some (int (length (openDeps deps A t)))"
    using assms by (auto simp: degree_ok_def)
  have mem: "(t, c) \<in> set m \<longleftrightarrow> t \<in> T - A \<and> c = int (length (openDeps deps A t))" for t c
    using d k v by (metis (no_types, lifting) image_eqI fst_conv map_of_eq_Some_iff option.inject)
  show "set (readyTargets m) = {t \<in> T - A. openDeps deps A t = []}"
    by (auto simp: readyTargets_def image_iff mem Bex_def)
  show "distinct (readyTargets m)"
    using d by (simp add: readyTargets_def distinct_map_filter)
qed

section \<open>What a staged plan promises\<close>

definition stageTargets :: "ExecutionStage list \<Rightarrow> string list" where
  "stageTargets ss = concat (map xs_Targets ss)"

text \<open>\<open>a\<close> runs in a stage strictly before one that runs \<open>b\<close>.\<close>

fun runs_before :: "ExecutionStage list \<Rightarrow> string \<Rightarrow> string \<Rightarrow> bool" where
  "runs_before [] a b = False"
| "runs_before (s # ss) a b =
     (a \<in> set (xs_Targets s) \<and> b \<in> set (stageTargets ss) \<or> runs_before ss a b)"

text \<open>Every target of a stage after the first waits for a target of the stage before.\<close>

fun tight :: "Dependency list \<Rightarrow> ExecutionStage list \<Rightarrow> bool" where
  "tight deps (s # s' # ss) \<longleftrightarrow>
     (\<forall>t \<in> set (xs_Targets s'). \<exists>d \<in> set deps. To d = t \<and> From d \<in> set (xs_Targets s))
     \<and> tight deps (s' # ss)"
| "tight deps ss = True"

definition stage_ok :: "int \<Rightarrow> ExecutionStage \<Rightarrow> bool" where
  "stage_ok mc s \<longleftrightarrow> xs_Targets s \<noteq> [] \<and> sorted (xs_Targets s) \<and>
     xs_MaxConcurrency s = (if mc \<le> 0 then wrap32 (int (length (xs_Targets s))) else mc)"

lemma stageTargets_simps [simp]:
  "stageTargets [] = []"
  "stageTargets (s # ss) = xs_Targets s @ stageTargets ss"
  "stageTargets (ss @ ss') = stageTargets ss @ stageTargets ss'"
  by (simp_all add: stageTargets_def)

lemma runs_before_append:
  "runs_before (ss @ [s]) a b \<longleftrightarrow>
     runs_before ss a b \<or> a \<in> set (stageTargets ss) \<and> b \<in> set (xs_Targets s)"
  by (induction ss) auto

lemma runs_before_mem: "runs_before ss a b \<Longrightarrow> a \<in> set (stageTargets ss) \<and> b \<in> set (stageTargets ss)"
  by (induction ss) auto

lemma runs_before_irrefl: "distinct (stageTargets ss) \<Longrightarrow> \<not> runs_before ss a a"
  by (induction ss) (auto dest: runs_before_mem)

lemma runs_before_trans:
  "distinct (stageTargets ss) \<Longrightarrow> runs_before ss a b \<Longrightarrow> runs_before ss b c \<Longrightarrow> runs_before ss a c"
  by (induction ss) (auto dest: runs_before_mem)

lemma tight_append:
  "ss \<noteq> [] \<Longrightarrow> tight deps (ss @ [s]) \<longleftrightarrow> tight deps ss \<and>
     (\<forall>t \<in> set (xs_Targets s). \<exists>d \<in> set deps. To d = t \<and> From d \<in> set (xs_Targets (last ss)))"
proof (induction deps ss rule: tight.induct)
  case (1 deps s1 s2 ss)
  then show ?case by auto
qed auto

section \<open>The loop keeps its invariant\<close>

definition kahn_inv :: "string list \<Rightarrow> Dependency list \<Rightarrow> int \<Rightarrow> nat \<Rightarrow> (string \<times> int) list \<Rightarrow>
    ExecutionStage list \<Rightarrow> bool" where
  "kahn_inv targets deps mc processed m ss \<longleftrightarrow>
     (let T = set targets; A = set (stageTargets ss) in
      deps_in T deps \<and> degree_ok T deps A m \<and> down_closed deps A \<and> A \<subseteq> T \<and>
      distinct (stageTargets ss) \<and> processed = length (stageTargets ss) \<and>
      (\<forall>d \<in> set deps. To d \<in> A \<longrightarrow> runs_before ss (From d) (To d)) \<and>
      (\<forall>s \<in> set ss. stage_ok mc s) \<and> tight deps ss \<and>
      (ss \<noteq> [] \<longrightarrow> (\<forall>t \<in> T - A. openDeps deps (set (stageTargets (butlast ss))) t \<noteq> [])))"

definition nextStage :: "int \<Rightarrow> (string \<times> int) list \<Rightarrow> ExecutionStage" where
  "nextStage mc m = \<lparr>xs_Targets = readyTargets m,
     xs_MaxConcurrency = (if mc \<le> 0 then wrap32 (int (length (readyTargets m))) else mc)\<rparr>"

lemma kahn_unfold:
  "kahn n deps mc processed m ss =
     (if processed < n then
        (if readyTargets m = [] then Inl ErrCycleDetected
         else kahn n deps mc (processed + length (readyTargets m))
           (fold (removeTarget deps) (readyTargets m) m) (ss @ [nextStage mc m]))
      else Inr ss)"
  by (subst kahn.simps) (simp add: Let_def nextStage_def)

lemma kahn_inv_init:
  "deps_in (set targets) deps \<Longrightarrow> kahn_inv targets deps mc 0 (initDegree targets deps) []"
  by (simp add: kahn_inv_def Let_def initDegree_ok down_closed_def)

lemma kahn_inv_step:
  assumes inv: "kahn_inv targets deps mc processed m ss" and ready: "readyTargets m \<noteq> []"
  shows "kahn_inv targets deps mc (processed + length (readyTargets m))
    (fold (removeTarget deps) (readyTargets m) m) (ss @ [nextStage mc m])"
proof -
  let ?T = "set targets" and ?A = "set (stageTargets ss)" and ?r = "readyTargets m"
  have T: "deps_in ?T deps" and ok: "degree_ok ?T deps ?A m" and cl: "down_closed deps ?A"
    and sub: "?A \<subseteq> ?T" and dist: "distinct (stageTargets ss)"
    and pr: "processed = length (stageTargets ss)"
    and ord: "\<And>d. d \<in> set deps \<Longrightarrow> To d \<in> ?A \<Longrightarrow> runs_before ss (From d) (To d)"
    and stg: "\<And>s. s \<in> set ss \<Longrightarrow> stage_ok mc s" and tg: "tight deps ss"
    and late: "\<And>t. ss \<noteq> [] \<Longrightarrow> t \<in> ?T - ?A \<Longrightarrow>
       openDeps deps (set (stageTargets (butlast ss))) t \<noteq> []"
    using inv by (auto simp: kahn_inv_def Let_def)
  note r = set_readyTargets [OF ok]
  have rA: "set ?r \<subseteq> ?T - ?A" and rz: "\<forall>t \<in> set ?r. openDeps deps ?A t = []"
    by (auto simp: r(1))
  have rem: "degree_ok ?T deps (?A \<union> set ?r) (fold (removeTarget deps) ?r m)"
    "down_closed deps (?A \<union> set ?r)"
    using removeAll_ok [OF ok T cl r(2) rA rz] by auto
  have src: "From d \<in> ?A" if "d \<in> set deps" "To d \<in> set ?r" for d
    using rz that by (auto simp: openDeps_def filter_empty_conv)
  have before: "runs_before (ss @ [nextStage mc m]) (From d) (To d)"
    if "d \<in> set deps" "To d \<in> ?A \<union> set ?r" for d
    using that src ord by (auto simp: runs_before_append nextStage_def)
  have wait: "\<exists>d \<in> set deps. To d = t \<and> From d \<in> set (xs_Targets (last ss))"
    if ss: "ss \<noteq> []" and t: "t \<in> set ?r" for t
  proof -
    have "t \<in> ?T - ?A" using t rA by auto
    from late [OF ss this] obtain d where d: "d \<in> set deps" "To d = t"
      "From d \<notin> set (stageTargets (butlast ss))"
      by (auto simp: openDeps_def filter_empty_conv)
    have "From d \<in> ?A" using src d t by auto
    moreover have "?A = set (stageTargets (butlast ss)) \<union> set (xs_Targets (last ss))"
      using ss by (metis append_butlast_last_id stageTargets_simps set_append append_Nil2)
    ultimately show ?thesis using d by blast
  qed
  have tight': "tight deps (ss @ [nextStage mc m])"
    using tg wait by (cases "ss = []") (auto simp: tight_append nextStage_def)
  have "\<forall>t \<in> ?T - (?A \<union> set ?r). openDeps deps ?A t \<noteq> []" by (auto simp: r(1))
  moreover have "stage_ok mc (nextStage mc m)"
    using ready by (simp add: stage_ok_def nextStage_def) (simp add: readyTargets_def)
  ultimately show ?thesis
    using T rem sub rA dist pr before stg tight' r(2)
    by (auto simp: kahn_inv_def Let_def nextStage_def)
qed

lemma kahn_result:
  "kahn_inv targets deps mc processed m ss \<Longrightarrow>
   (case kahn n deps mc processed m ss of
      Inr ss' \<Rightarrow> \<exists>p m'. kahn_inv targets deps mc p m' ss' \<and> n \<le> p
    | Inl e \<Rightarrow> e = ErrCycleDetected \<and>
        (\<exists>p m' ss'. kahn_inv targets deps mc p m' ss' \<and> p < n \<and> readyTargets m' = []))"
proof (induction n deps mc processed m ss rule: kahn.induct)
  case (1 n deps mc processed m ss)
  consider "\<not> processed < n" | "processed < n" "readyTargets m = []"
    | "processed < n" "readyTargets m \<noteq> []" by blast
  then show ?case
  proof cases
    case 1
    then have "kahn n deps mc processed m ss = Inr ss" by (subst kahn_unfold) simp
    then show ?thesis using "1.prems" 1 by (auto intro: leI)
  next
    case 2
    then have "kahn n deps mc processed m ss = Inl ErrCycleDetected" by (subst kahn_unfold) simp
    then show ?thesis using "1.prems" 2 by auto
  next
    case 3
    have eq: "kahn n deps mc processed m ss =
        kahn n deps mc (processed + length (readyTargets m))
          (fold (removeTarget deps) (readyTargets m) m) (ss @ [nextStage mc m])"
      using 3 by (subst kahn_unfold) simp
    show ?thesis
      using "1.IH" [OF 3(1) refl 3(2)] kahn_inv_step [OF "1.prems" 3(2)]
      by (simp add: eq nextStage_def)
  qed
qed

section \<open>Success and failure of the DAG strategy\<close>

definition dep_edges :: "Dependency list \<Rightarrow> (string \<times> string) set" where
  "dep_edges deps = (\<lambda>d. (From d, To d)) ` set deps"

lemma runs_before_acyclic:
  assumes "distinct (stageTargets ss)" "\<forall>d \<in> set deps. runs_before ss (From d) (To d)"
  shows "acyclic (dep_edges deps)"
proof -
  have "runs_before ss a b" if "(a, b) \<in> (dep_edges deps)\<^sup>+" for a b
    using that
  proof (induction rule: trancl_induct)
    case (base y)
    then show ?case using assms(2) by (auto simp: dep_edges_def)
  next
    case (step y z)
    then have "runs_before ss y z" using assms(2) by (auto simp: dep_edges_def)
    with step.IH assms(1) show ?case by (blast intro: runs_before_trans)
  qed
  then show ?thesis using runs_before_irrefl [OF assms(1)] by (auto simp: acyclic_def)
qed

text \<open>If every remaining node has a remaining predecessor, there is a cycle.\<close>

lemma stuck_cyclic:
  assumes "finite R" "R \<noteq> {}" "\<And>t. t \<in> R \<Longrightarrow> \<exists>u \<in> R. (u, t) \<in> E"
  shows "\<not> acyclic E"
proof
  assume ac: "acyclic E"
  have fin: "finite (E \<inter> R \<times> R)" using assms(1) by simp
  have "wf (E \<inter> R \<times> R)"
    by (rule finite_acyclic_wf [OF fin]) (meson ac acyclic_subset inf_le1)
  from wfE_min [OF this] assms(2) obtain z where "z \<in> R"
    "\<And>y. (y, z) \<in> E \<inter> R \<times> R \<Longrightarrow> y \<notin> R" by (metis all_not_in_conv)
  then show False using assms(3) by blast
qed

lemma PlanDAG_cases:
  assumes "deps_in (set targets) deps"
  obtains (ok) ss p m where "PlanDAG targets deps mc = Inr \<lparr>Stages = ss\<rparr>"
      "kahn_inv targets deps mc p m ss" "length targets \<le> p"
  | (cycle) ss p m where "PlanDAG targets deps mc = Inl ErrCycleDetected"
      "kahn_inv targets deps mc p m ss" "p < length targets" "readyTargets m = []"
proof -
  have v: "validateDeps targets deps = None" using assms by (simp add: validateDeps_None)
  note res = kahn_result [OF kahn_inv_init [OF assms], of mc "length targets"]
  show thesis
  proof (cases "kahn (length targets) deps mc 0 (initDegree targets deps) []")
    case (Inl e)
    then show thesis using res v that(2) by (auto simp: PlanDAG_def)
  next
    case (Inr ss)
    then show thesis using res v that(1) by (auto simp: PlanDAG_def)
  qed
qed

lemma kahn_inv_card:
  assumes "kahn_inv targets deps mc p m ss"
  shows "p = card (set (stageTargets ss))" "set (stageTargets ss) \<subseteq> set targets"
    "p \<le> card (set targets)"
proof -
  show "set (stageTargets ss) \<subseteq> set targets" and "p = card (set (stageTargets ss))"
    using assms by (auto simp: kahn_inv_def Let_def distinct_card)
  then show "p \<le> card (set targets)" by (simp add: card_mono)
qed

lemma kahn_inv_complete:
  assumes inv: "kahn_inv targets deps mc p m ss" and n: "length targets \<le> p"
  shows "distinct targets" "mset (stageTargets ss) = mset targets"
proof -
  note c = kahn_inv_card [OF inv]
  have card: "card (set targets) = length targets" "card (set (stageTargets ss)) = length targets"
    using c n card_length [of targets] by auto
  show d: "distinct targets" using card(1) by (rule card_distinct)
  have "set (stageTargets ss) = set targets"
    using c(2) card by (intro card_subset_eq) auto
  moreover have "distinct (stageTargets ss)" using inv by (simp add: kahn_inv_def Let_def)
  ultimately show "mset (stageTargets ss) = mset targets"
    using d by (simp add: set_eq_iff_mset_eq_distinct)
qed

lemma kahn_inv_stuck:
  assumes inv: "kahn_inv targets deps mc p m ss" and n: "p < length targets"
    and stuck: "readyTargets m = []" and d: "distinct targets"
  shows "\<not> acyclic (dep_edges deps)"
proof (rule stuck_cyclic)
  let ?R = "set targets - set (stageTargets ss)"
  show "finite ?R" by simp
  show "?R \<noteq> {}"
    using kahn_inv_card [OF inv] n d by (metis Diff_eq_empty_iff card_mono distinct_card
        finite_set leD)
  fix t assume t: "t \<in> ?R"
  have ok: "degree_ok (set targets) deps (set (stageTargets ss)) m"
    using inv by (simp add: kahn_inv_def Let_def)
  have "openDeps deps (set (stageTargets ss)) t \<noteq> []"
    using set_readyTargets(1) [OF ok] stuck t by auto
  then obtain dp where "dp \<in> set deps" "To dp = t" "From dp \<notin> set (stageTargets ss)"
    by (auto simp: openDeps_def filter_empty_conv)
  moreover have "From dp \<in> set targets" if "dp \<in> set deps" for dp
    using inv that by (auto simp: kahn_inv_def Let_def deps_in_def)
  ultimately show "\<exists>u \<in> ?R. (u, t) \<in> dep_edges deps"
    by (auto simp: dep_edges_def)
qed

lemma kahn_inv_ordered:
  assumes inv: "kahn_inv targets deps mc p m ss" and n: "length targets \<le> p"
  shows "\<forall>d \<in> set deps. runs_before ss (From d) (To d)" "tight deps ss"
    "\<forall>s \<in> set ss. stage_ok mc s" "distinct (stageTargets ss)"
proof -
  have "set (stageTargets ss) = set targets"
    using kahn_inv_complete(2) [OF inv n] by (metis set_mset_mset)
  then show "\<forall>d \<in> set deps. runs_before ss (From d) (To d)"
    using inv by (auto simp: kahn_inv_def Let_def deps_in_def)
qed (use inv in \<open>auto simp: kahn_inv_def Let_def\<close>)

lemma PlanDAG_invalid: "\<not> deps_in (set targets) deps \<Longrightarrow>
    \<exists>t. t \<notin> set targets \<and> PlanDAG targets deps mc = Inl (ErrTargetNotFound t)"
  using validateDeps_None validateDeps_Some
  by (fastforce simp: PlanDAG_def split: option.splits)

section \<open>Correctness of the planner\<close>

text \<open>
  C3.  A plan that \<open>PlanDAG\<close> returns runs every target exactly once, runs the source of every
  dependency in a strictly earlier stage than its destination, and is as parallel as the
  dependencies allow: a target of a later stage depends on a target of the stage just before.
\<close>

theorem PlanDAG_correct:
  assumes "PlanDAG targets deps mc = Inr plan"
  shows "mset (stageTargets (Stages plan)) = mset targets \<and>
    (\<forall>d \<in> set deps. runs_before (Stages plan) (From d) (To d)) \<and> tight deps (Stages plan)"
proof -
  have v: "deps_in (set targets) deps"
    using assms PlanDAG_invalid by (metis Inl_Inr_False)
  obtain ss p m where "plan = \<lparr>Stages = ss\<rparr>" and inv: "kahn_inv targets deps mc p m ss"
    and n: "length targets \<le> p"
    using PlanDAG_cases [OF v, of mc thesis] assms by auto
  then show ?thesis
    using kahn_inv_complete [OF inv n] kahn_inv_ordered [OF inv n] by auto
qed

definition dep :: "string \<Rightarrow> string \<Rightarrow> Dependency" where
  "dep a b = \<lparr>From = a, To = b\<rparr>"

theorem PlanDAG_correct_witness:
  "\<exists>plan. PlanDAG [''web'', ''db'', ''app''] [dep ''web'' ''app'', dep ''app'' ''db''] 0 = Inr plan
     \<and> mset (stageTargets (Stages plan)) = mset [''web'', ''db'', ''app'']
     \<and> runs_before (Stages plan) ''web'' ''app'' \<and> runs_before (Stages plan) ''app'' ''db''"
proof -
  let ?deps = "[dep ''web'' ''app'', dep ''app'' ''db'']"
  have h: "PlanDAG [''web'', ''db'', ''app''] ?deps 0 = Inr \<lparr>Stages =
      [\<lparr>xs_Targets = [''web''], xs_MaxConcurrency = 1\<rparr>,
       \<lparr>xs_Targets = [''app''], xs_MaxConcurrency = 1\<rparr>,
       \<lparr>xs_Targets = [''db''], xs_MaxConcurrency = 1\<rparr>]\<rparr>"
    by code_simp
  show ?thesis using h PlanDAG_correct [OF h] by (intro exI conjI) (auto simp: dep_def)
qed

text \<open>
  C4.  \<open>PlanDAG\<close> succeeds exactly when every dependency names a target, the target names are
  distinct and the dependencies have no cycle; a repeated target name is reported as a cycle.
\<close>

theorem PlanDAG_total:
  "case PlanDAG targets deps mc of
     Inr plan \<Rightarrow> deps_in (set targets) deps \<and> distinct targets \<and> acyclic (dep_edges deps)
   | Inl e \<Rightarrow> (e = ErrCycleDetected \<and> deps_in (set targets) deps \<and>
                \<not> (distinct targets \<and> acyclic (dep_edges deps)))
             \<or> (\<exists>t. e = ErrTargetNotFound t \<and> t \<notin> set targets \<and> \<not> deps_in (set targets) deps)"
proof (cases "deps_in (set targets) deps")
  case True
  show ?thesis
  proof (rule PlanDAG_cases [OF True, of mc], goal_cases)
    case (1 ss p m)
    note o = kahn_inv_ordered [OF 1(2,3)]
    from 1 True kahn_inv_complete [OF 1(2,3)] runs_before_acyclic [OF o(4,1)]
    show ?thesis by simp
  next
    case (2 ss p m)
    then show ?thesis using True kahn_inv_stuck [OF 2(2-4)] by auto
  qed
next
  case False
  then show ?thesis using PlanDAG_invalid [OF False, of mc] by auto
qed

section \<open>The planner interface\<close>

text \<open>
  What the execution layer relies on, whatever the strategy: a plan that is returned runs each
  requested target once, and every stage has room for at least one job.
\<close>

locale staged_planner =
  fixes plan_of :: "'i \<Rightarrow> ExecutionPlan res"
    and requested :: "'i \<Rightarrow> string list"
    and small :: "'i \<Rightarrow> bool"
  assumes covers: "plan_of i = Inr p \<Longrightarrow> mset (stageTargets (Stages p)) = mset (requested i)"
    and slots: "small i \<Longrightarrow> plan_of i = Inr p \<Longrightarrow> s \<in> set (Stages p) \<Longrightarrow> xs_Targets s \<noteq> [] \<Longrightarrow>
      0 < xs_MaxConcurrency s"
begin

lemma staged_once:
  "plan_of i = Inr p \<Longrightarrow> distinct (requested i) \<Longrightarrow> distinct (stageTargets (Stages p))"
  using covers by (metis mset_eq_imp_distinct_iff)

lemma dispatchable:
  assumes "small i" "plan_of i = Inr p" "t \<in> set (requested i)"
  shows "\<exists>s \<in> set (Stages p). t \<in> set (xs_Targets s) \<and> 0 < xs_MaxConcurrency s"
proof -
  have "t \<in> set (stageTargets (Stages p))"
    using covers [OF assms(2)] assms(3) by (metis set_mset_mset)
  then obtain s where "s \<in> set (Stages p)" "t \<in> set (xs_Targets s)"
    by (auto simp: stageTargets_def)
  then show ?thesis using slots [OF assms(1,2)] by force
qed

end

definition fits32 :: "'a list \<Rightarrow> bool" where
  "fits32 xs \<longleftrightarrow> int (length xs) < 2 ^ 31"

lemma wrap32_length_pos: "fits32 xs \<Longrightarrow> xs \<noteq> [] \<Longrightarrow> 0 < wrap32 (int (length xs))"
  by (simp add: fits32_def wrap32_id)

lemma fits32_part: "length ys \<le> length xs \<Longrightarrow> fits32 xs \<Longrightarrow> fits32 ys"
  by (simp add: fits32_def)

lemma length_stage_le: "s \<in> set ss \<Longrightarrow> length (xs_Targets s) \<le> length (stageTargets ss)"
  by (induction ss) auto

interpretation seq: staged_planner "\<lambda>ts. Inr (PlanSequential ts)" "\<lambda>ts. ts" "\<lambda>_. True"
proof
  have "concat (map (\<lambda>t. [t]) ts) = ts" for ts :: "string list" by (induction ts) auto
  then show "Inr (PlanSequential ts) = Inr p \<Longrightarrow> mset (stageTargets (Stages p)) = mset ts"
    for ts :: "string list" and p
    by (auto simp: PlanSequential_def stageTargets_def comp_def)
qed (auto simp: PlanSequential_def)

interpretation par: staged_planner "\<lambda>(ts, mc). Inr (PlanParallel ts mc)" fst "\<lambda>(ts, mc). fits32 ts"
  by unfold_locales (auto simp: PlanParallel_def wrap32_length_pos)

interpretation staged: staged_planner "\<lambda>(ss, g). Inr (PlanStaged ss g)"
  "\<lambda>(ss, g). concat (map st_Targets ss)" "\<lambda>(ss, g). \<forall>s \<in> set ss. fits32 (st_Targets s)"
  by unfold_locales
    (auto simp: PlanStaged_def stageTargets_def comp_def stageConcurrency_def wrap32_length_pos)

lemma PlanDAG_stage_ok:
  assumes "PlanDAG targets deps mc = Inr p" "s \<in> set (Stages p)"
  shows "stage_ok mc s"
proof -
  have v: "deps_in (set targets) deps"
    using assms(1) PlanDAG_invalid by (metis Inl_Inr_False)
  show ?thesis
    by (rule PlanDAG_cases [OF v, of mc]) (use assms kahn_inv_ordered(3) in auto)
qed

lemma PlanDAG_mset: "PlanDAG targets deps mc = Inr p \<Longrightarrow> mset (stageTargets (Stages p)) = mset targets"
proof -
  assume p: "PlanDAG targets deps mc = Inr p"
  have v: "deps_in (set targets) deps"
    using p PlanDAG_invalid by (metis Inl_Inr_False)
  show ?thesis
    by (rule PlanDAG_cases [OF v, of mc]) (use p kahn_inv_complete(2) in auto)
qed

interpretation dag: staged_planner "\<lambda>(ts, deps, mc). PlanDAG ts deps mc" fst "\<lambda>(ts, deps, mc). fits32 ts"
proof
  fix i :: "string list \<times> Dependency list \<times> int" and p s
  obtain ts deps mc where i: "i = (ts, deps, mc)" by (cases i)
  assume p: "(case i of (ts, deps, mc) \<Rightarrow> PlanDAG ts deps mc) = Inr p"
  then show m: "mset (stageTargets (Stages p)) = mset (fst i)" by (simp add: i PlanDAG_mset)
  assume "case i of (ts, deps, mc) \<Rightarrow> fits32 ts" "s \<in> set (Stages p)" "xs_Targets s \<noteq> []"
  moreover have "length (stageTargets (Stages p)) = length ts"
    using m by (metis i fst_conv size_mset)
  ultimately show "0 < xs_MaxConcurrency s"
    using PlanDAG_stage_ok [of ts deps mc p s] p length_stage_le [of s "Stages p"]
    by (auto simp: i stage_ok_def intro!: wrap32_length_pos elim: fits32_part)
qed

end
