(* ===== verification/GoTime.thy ===== *)
theory GoTime
  imports Prelude
begin

text \<open>
  Go's \<open>time\<close> package as the modelled code uses it.  A \<open>Time\<close> is an instant (nanoseconds
  since the Unix epoch) read in a location; a location is the UTC offset in seconds that the
  time-zone database gives for a Unix second.  Calendar dates are day numbers: the code only
  ever rebuilds a date from the year, month and day of another time, shifted by whole days.
\<close>

type_synonym duration = int
type_synonym location = "int \<Rightarrow> int"

record Time =
  t_ns :: int
  t_loc :: location

abbreviation Second :: duration where "Second \<equiv> 1000000000"
abbreviation Minute :: duration where "Minute \<equiv> 60000000000"
abbreviation Hour :: duration where "Hour \<equiv> 3600000000000"

definition UTC :: location where
  "UTC = (\<lambda>_. 0)"

text \<open>The zero \<open>time.Time\<close>: January 1, year 1, 00:00:00 UTC.\<close>

definition zero_ns :: int where
  "zero_ns = - 62135596800000000000"

definition zeroTime :: Time where
  "zeroTime = \<lparr>t_ns = zero_ns, t_loc = UTC\<rparr>"

definition IsZero :: "Time \<Rightarrow> bool" where
  "IsZero t \<longleftrightarrow> t_ns t = zero_ns"

definition Before :: "Time \<Rightarrow> Time \<Rightarrow> bool" where
  "Before a b \<longleftrightarrow> t_ns a < t_ns b"

definition After :: "Time \<Rightarrow> Time \<Rightarrow> bool" where
  "After a b \<longleftrightarrow> t_ns b < t_ns a"

definition TimeEqual :: "Time \<Rightarrow> Time \<Rightarrow> bool" where
  "TimeEqual a b \<longleftrightarrow> t_ns a = t_ns b"

definition AddDur :: "Time \<Rightarrow> duration \<Rightarrow> Time" where
  "AddDur t d = t\<lparr>t_ns := t_ns t + d\<rparr>"

text \<open>\<open>Sub\<close> saturates at the extreme durations.\<close>

definition SubTime :: "Time \<Rightarrow> Time \<Rightarrow> duration" where
  "SubTime a b = sat64 (t_ns a - t_ns b)"

definition InLoc :: "Time \<Rightarrow> location \<Rightarrow> Time" where
  "InLoc t l = t\<lparr>t_loc := l\<rparr>"

section \<open>Reading the clock in a location\<close>

definition unix_sec :: "Time \<Rightarrow> int" where
  "unix_sec t = t_ns t div Second"

definition local_sec :: "Time \<Rightarrow> int" where
  "local_sec t = unix_sec t + t_loc t (unix_sec t)"

definition day_no :: "Time \<Rightarrow> int" where
  "day_no t = local_sec t div 86400"

definition hour_of :: "Time \<Rightarrow> int" where
  "hour_of t = local_sec t mod 86400 div 3600"

definition minute_of :: "Time \<Rightarrow> int" where
  "minute_of t = local_sec t mod 3600 div 60"

definition second_of :: "Time \<Rightarrow> int" where
  "second_of t = local_sec t mod 60"

definition nanosecond_of :: "Time \<Rightarrow> int" where
  "nanosecond_of t = t_ns t mod Second"

text \<open>Sunday is 0; day 0 of the epoch is a Thursday.\<close>

definition Weekday :: "Time \<Rightarrow> int" where
  "Weekday t = (day_no t + 4) mod 7"

text \<open>
  \<open>time.Date\<close>: the offset is looked up at the wall-clock reading first and, if that lands in
  another zone period, again at the resulting instant.
\<close>

definition DateOn :: "location \<Rightarrow> int \<Rightarrow> int \<Rightarrow> int \<Rightarrow> int \<Rightarrow> int \<Rightarrow> Time" where
  "DateOn l day h m s n =
     (let unix = day * 86400 + h * 3600 + m * 60 + s;
          off = l (unix - l unix)
      in \<lparr>t_ns = (unix - off) * Second + n, t_loc = l\<rparr>)"

definition AddDays :: "Time \<Rightarrow> int \<Rightarrow> Time" where
  "AddDays t k = DateOn (t_loc t) (day_no t + k) (hour_of t) (minute_of t) (second_of t) (nanosecond_of t)"

text \<open>Minutes since local midnight.\<close>

definition minute_of_day :: "Time \<Rightarrow> int" where
  "minute_of_day t = hour_of t * 60 + minute_of t"

section \<open>Facts\<close>

lemma IsZero_zeroTime [simp]: "IsZero zeroTime"
  by (simp add: IsZero_def zeroTime_def)

lemma ns_AddDur [simp]: "t_ns (AddDur t d) = t_ns t + d" "t_loc (AddDur t d) = t_loc t"
  by (simp_all add: AddDur_def)

lemma ns_InLoc [simp]: "t_ns (InLoc t l) = t_ns t" "t_loc (InLoc t l) = l"
  by (simp_all add: InLoc_def)

lemma Weekday_range: "0 \<le> Weekday t \<and> Weekday t < 7"
  by (simp add: Weekday_def)

lemma hour_of_range: "0 \<le> hour_of t \<and> hour_of t < 24"
proof -
  have "0 \<le> local_sec t mod 86400" "local_sec t mod 86400 < 86400" by simp_all
  then show ?thesis unfolding hour_of_def by linarith
qed

lemma minute_of_range: "0 \<le> minute_of t \<and> minute_of t < 60"
proof -
  have "0 \<le> local_sec t mod 3600" "local_sec t mod 3600 < 3600" by simp_all
  then show ?thesis unfolding minute_of_def by linarith
qed

lemma minute_of_day_range: "0 \<le> minute_of_day t \<and> minute_of_day t < 1440"
  using hour_of_range [of t] minute_of_range [of t] unfolding minute_of_day_def by linarith

lemma minute_of_day_eq: "minute_of_day t = local_sec t mod 86400 div 60"
proof -
  have "local_sec t mod 3600 = (local_sec t mod 86400) mod 3600"
    by (simp add: mod_mod_cancel)
  moreover have "x div 3600 * 60 + x mod 3600 div 60 = x div 60" for x :: int
  proof -
    have "x mod 3600 + (x div 3600 * 60) * 60 = x" using div_mult_mod_eq [of x 3600] by linarith
    moreover have "(x mod 3600 + (x div 3600 * 60) * 60) div 60 = x div 3600 * 60 + x mod 3600 div 60"
      by (rule div_mult_self1) simp
    ultimately show ?thesis by simp
  qed
  ultimately show ?thesis by (simp add: minute_of_day_def hour_of_def minute_of_def)
qed

text \<open>In a fixed-offset location \<open>DateOn\<close> is the inverse of the clock reading.\<close>

lemma DateOn_fixed:
  assumes "l = (\<lambda>_. off)" "0 \<le> h" "h < 24" "0 \<le> m" "m < 60"
  shows "day_no (DateOn l day h m 0 0) = day" "minute_of_day (DateOn l day h m 0 0) = h * 60 + m"
proof -
  have "local_sec (DateOn l day h m 0 0) = day * 86400 + (h * 3600 + m * 60)"
    using assms by (simp add: local_sec_def unix_sec_def DateOn_def Let_def)
  moreover have "0 \<le> h * 3600 + m * 60" "h * 3600 + m * 60 < 86400" using assms by linarith+
  ultimately show "day_no (DateOn l day h m 0 0) = day"
    "minute_of_day (DateOn l day h m 0 0) = h * 60 + m"
    using assms by (simp_all add: day_no_def minute_of_day_eq)
qed

lemma loc_DateOn [simp]: "t_loc (DateOn l day h m s n) = l"
  by (simp add: DateOn_def Let_def)

end
