(* ===== verification/Windows.thy ===== *)
theory Windows
  imports GoStrings GoTime
begin

text \<open>
  Off-hour windows (\<^verbatim>\<open>internal/scheduler/windows.go\<close>): parsing of HH:MM times and day names,
  membership of a moment in a window, in its lead time and in its grace period, and the
  translation of a window into a pair of cron expressions.
\<close>

record OffHourWindow =
  Start :: string
  End :: string
  DaysOfWeek :: "string list"

record ScheduleWindow =
  sw_Windows :: "OffHourWindow list"
  HibernateCron :: string
  WakeUpCron :: string
  Timezone :: string

datatype WindowBoundary = StartBoundary | EndBoundary

section \<open>Times and days\<close>

definition parseTime :: "string \<Rightarrow> (int \<times> int) res" where
  "parseTime timeStr =
     (case split_on (CHR '':'') timeStr of
        [p0, p1] \<Rightarrow>
          (case Atoi p0 of
             None \<Rightarrow> Inl (Wrap (''invalid hour in '' @ quote timeStr @ '': '') (AtoiErr p0))
           | Some hour \<Rightarrow>
               (case Atoi p1 of
                  None \<Rightarrow> Inl (Wrap (''invalid minute in '' @ quote timeStr @ '': '') (AtoiErr p1))
                | Some mi \<Rightarrow>
                    if hour < 0 \<or> hour > 23
                    then Inl (ErrMsg (''hour '' @ show_int hour @ '' out of range (0-23)''))
                    else if mi < 0 \<or> mi > 59
                    then Inl (ErrMsg (''minute '' @ show_int mi @ '' out of range (0-59)''))
                    else Inr (hour, mi)))
      | _ \<Rightarrow> Inl (ErrMsg (''invalid time format '' @ quote timeStr @ '', expected HH:MM'')))"

definition dayMap :: "(string \<times> nat) list" where
  "dayMap = [(''SUN'', 0), (''MON'', 1), (''TUE'', 2), (''WED'', 3), (''THU'', 4),
             (''FRI'', 5), (''SAT'', 6)]"

text \<open>\<open>strings.ToUpper(now.Weekday().String()[:3])\<close>.\<close>

definition currentDay :: "Time \<Rightarrow> string" where
  "currentDay t = fst (dayMap ! nat (Weekday t))"

text \<open>\<open>day[:3]\<close> panics on a shorter string.\<close>

definition parseWeekday :: "string \<Rightarrow> (nat option) res" where
  "parseWeekday day =
     (if length day < 3 then Inl Panic else Inr (map_of dayMap (ToUpper (take 3 day))))"

definition mostRecentWeekday :: "Time \<Rightarrow> nat \<Rightarrow> Time" where
  "mostRecentWeekday now target = AddDays now (- ((Weekday now - int target + 7) mod 7))"

definition dayMatch :: "OffHourWindow \<Rightarrow> string \<Rightarrow> bool" where
  "dayMatch w day = list_ex (\<lambda>d. EqualFold d day) (DaysOfWeek w)"

section \<open>Membership\<close>

definition inMinutes :: "int \<Rightarrow> int \<Rightarrow> int \<Rightarrow> bool" where
  "inMinutes startMinutes endMinutes cur =
     (if endMinutes > startMinutes then startMinutes \<le> cur \<and> cur < endMinutes
      else startMinutes \<le> cur \<or> cur < endMinutes)"

definition inWindow :: "Time \<Rightarrow> OffHourWindow \<Rightarrow> bool" where
  "inWindow now w =
     (if \<not> dayMatch w (currentDay now) then False
      else (case parseTime (Start w) of
              Inl _ \<Rightarrow> False
            | Inr (sh, sm) \<Rightarrow>
                (case parseTime (End w) of
                   Inl _ \<Rightarrow> False
                 | Inr (eh, em) \<Rightarrow> inMinutes (sh * 60 + sm) (eh * 60 + em) (minute_of_day now))))"

definition isInTimeWindows :: "OffHourWindow list \<Rightarrow> Time \<Rightarrow> bool" where
  "isInTimeWindows windows now = list_ex (inWindow now) windows"

text \<open>
  \<open>isInLeadTimeWindow\<close>: after 12:59 the next day's windows are looked at too.  The truncating
  conversion \<open>int(leadTime.Minutes())\<close> is integer division (the callers pass a positive lead
  time).
\<close>

definition leadDays :: "Time \<Rightarrow> string list" where
  "leadDays now =
     currentDay now # (if hour_of now > 12 then [currentDay (AddDur now (24 * Hour))] else [])"

definition inLead :: "int \<Rightarrow> Time \<Rightarrow> OffHourWindow \<Rightarrow> bool" where
  "inLead leadTimeMinutes now w =
     (if \<not> list_ex (dayMatch w) (leadDays now) then False
      else (case parseTime (Start w) of
              Inl _ \<Rightarrow> False
            | Inr (sh, sm) \<Rightarrow>
                (let startMinutes = sh * 60 + sm;
                     l0 = startMinutes - leadTimeMinutes;
                     leadStartMinutes = (if l0 < 0 then l0 + 24 * 60 else l0);
                     cur = minute_of_day now
                 in if leadStartMinutes < startMinutes
                    then leadStartMinutes \<le> cur \<and> cur < startMinutes
                    else leadStartMinutes \<le> cur \<or> cur < startMinutes)))"

definition isInLeadTimeWindow :: "OffHourWindow list \<Rightarrow> Time \<Rightarrow> duration \<Rightarrow> bool" where
  "isInLeadTimeWindow windows now leadTime = list_ex (inLead (leadTime div Minute) now) windows"

text \<open>
  The grace period after a boundary.  A day name shorter than three bytes panics; an unknown
  one is skipped.
\<close>

definition boundaryHit :: "WindowBoundary \<Rightarrow> Time \<Rightarrow> duration \<Rightarrow> OffHourWindow \<Rightarrow> nat \<Rightarrow> bool" where
  "boundaryHit boundary now grace w targetDay =
     (let baseDate = mostRecentWeekday now targetDay in
      case boundary of
        StartBoundary \<Rightarrow>
          (case parseTime (Start w) of
             Inl _ \<Rightarrow> False
           | Inr (h, m) \<Rightarrow>
               (let startTime = DateOn (t_loc now) (day_no baseDate) h m 0 0;
                    startGraceEnd = AddDur startTime grace
                in (After now startTime \<or> TimeEqual now startTime) \<and>
                   (Before now startGraceEnd \<or> TimeEqual now startGraceEnd)))
      | EndBoundary \<Rightarrow>
          (case parseTime (End w) of
             Inl _ \<Rightarrow> False
           | Inr (h, m) \<Rightarrow>
               (let endTime = DateOn (t_loc now) (day_no baseDate) h m 0 0;
                    endGraceEnd = AddDur endTime grace
                in Weekday now = int targetDay \<and>
                   (After now endTime \<or> TimeEqual now endTime) \<and>
                   (Before now endGraceEnd \<or> TimeEqual now endGraceEnd))))"

fun graceScan :: "WindowBoundary \<Rightarrow> Time \<Rightarrow> duration \<Rightarrow> (OffHourWindow \<times> string) list \<Rightarrow> bool res" where
  "graceScan b now grace [] = Inr False"
| "graceScan b now grace ((w, day) # rest) =
     (case parseWeekday day of
        Inl e \<Rightarrow> Inl e
      | Inr None \<Rightarrow> graceScan b now grace rest
      | Inr (Some target) \<Rightarrow>
          if boundaryHit b now grace w target then Inr True else graceScan b now grace rest)"

definition isInGraceTimeWindow ::
    "WindowBoundary \<Rightarrow> OffHourWindow list \<Rightarrow> Time \<Rightarrow> duration \<Rightarrow> bool res" where
  "isInGraceTimeWindow b windows now grace =
     graceScan b now grace (concat (map (\<lambda>w. map (Pair w) (DaysOfWeek w)) windows))"

section \<open>Cron expressions\<close>

fun cronDays :: "string list \<Rightarrow> (string list) res" where
  "cronDays [] = Inr []"
| "cronDays (day # days) =
     (case map_of dayMap (ToUpper day) of
        None \<Rightarrow> Inl (ErrMsg (''invalid day '' @ quote day @
                          '', expected MON, TUE, WED, THU, FRI, SAT, or SUN''))
      | Some n \<Rightarrow> (case cronDays days of Inl e \<Rightarrow> Inl e | Inr ns \<Rightarrow> Inr (show_nat n # ns)))"

definition convertDaysToCron :: "string list \<Rightarrow> string res" where
  "convertDaysToCron days =
     (if days = [] then Inl (ErrMsg ''at least one day of week is required'')
      else (case cronDays days of Inl e \<Rightarrow> Inl e | Inr ds \<Rightarrow> Inr (join '','' ds)))"

definition cronExpr :: "int \<Rightarrow> int \<Rightarrow> string \<Rightarrow> string" where
  "cronExpr mi hour dow = show_int mi @ '' '' @ show_int hour @ '' * * '' @ dow"

definition ParseWindowToCron :: "string \<Rightarrow> string \<Rightarrow> string list \<Rightarrow> (string \<times> string) res" where
  "ParseWindowToCron start end' days =
     (if days = [] then Inl (ErrMsg ''at least one day of week is required'')
      else (case parseTime start of
              Inl e \<Rightarrow> Inl (Wrap ''invalid start time: '' e)
            | Inr (sh, sm) \<Rightarrow>
                (case parseTime end' of
                   Inl e \<Rightarrow> Inl (Wrap ''invalid end time: '' e)
                 | Inr (eh, em) \<Rightarrow>
                     if sh = eh \<and> sm = em 
                     then Inl (ErrMsg (''start and end times must be different; start='' @ start @
                            '', end='' @ end'))
                     else (case convertDaysToCron days of
                             Inl e \<Rightarrow> Inl e
                           | Inr ds \<Rightarrow> Inr (cronExpr sm sh ds, cronExpr em eh ds)))))"

section \<open>Facts about times and days\<close>

lemma parseTime_range:
  "parseTime s = Inr (h, m) \<Longrightarrow> 0 \<le> h \<and> h \<le> 23 \<and> 0 \<le> m \<and> m \<le> 59"
  by (auto simp: parseTime_def split: list.splits option.splits if_splits)

lemma minutes_range:
  assumes "parseTime s = Inr (h, m)"
  shows "0 \<le> h * 60 + m \<and> h * 60 + m < 1440"
  using parseTime_range [OF assms] by linarith

lemma digit_neq: "n < 10 \<Longrightarrow> (of_char c :: nat) < 48 \<or> 57 < (of_char c :: nat) \<Longrightarrow> digit n \<noteq> c"
  using not_digit [of c] by (metis imageI lessThan_iff)

lemma Atoi_two: "a < 10 \<Longrightarrow> b < 10 \<Longrightarrow> Atoi [digit a, digit b] = Some (int (10 * a + b))"
  by (simp add: Atoi_def digit_neq)

text \<open>The two-digit form that users write.\<close>

definition HHMM :: "nat \<Rightarrow> nat \<Rightarrow> string" where
  "HHMM h m = [digit (h div 10), digit (h mod 10), CHR '':'', digit (m div 10), digit (m mod 10)]"

text \<open>
  Reading back a time of day written as HH:MM gives that hour and minute.
\<close>

lemma parseTime_HHMM:
  assumes "h < 24" "m < 60"
  shows "parseTime (HHMM h m) = Inr (int h, int m)"
proof -
  have d: "h div 10 < 10" "h mod 10 < 10" "m div 10 < 10" "m mod 10 < 10" using assms by auto
  have "split_on (CHR '':'') (HHMM h m) =
      [[digit (h div 10), digit (h mod 10)], [digit (m div 10), digit (m mod 10)]]"
    using d by (simp add: HHMM_def digit_neq)
  then show ?thesis using d assms by (simp add: parseTime_def Atoi_two)
qed

lemma parseTime_HHMM_witness: "parseTime (HHMM 20 5) = Inr (20, 5) \<and> HHMM 20 5 = ''20:05''"
proof
  show "parseTime (HHMM 20 5) = Inr (20, 5)" using parseTime_HHMM [of 20 5] by simp
  show "HHMM 20 5 = ''20:05''" by code_simp
qed

lemma mod_1440:
  fixes x :: int
  assumes "- 1440 < x" "x < 1440"
  shows "x mod 1440 = (if 0 \<le> x then x else x + 1440)"
proof (cases "0 \<le> x")
  case False
  then have "(x + 1440) mod 1440 = x + 1440" using assms by (intro mod_pos_pos_trivial) auto
  then show ?thesis using False by simp
qed (use assms in simp)

lemma inMinutes_modular:
  assumes "0 \<le> s" "s < 1440" "0 \<le> e" "e < 1440" "0 \<le> c" "c < 1440"
  shows "inMinutes s e c \<longleftrightarrow> s = e \<or> (c - s) mod 1440 < (e - s) mod 1440"
  using assms by (auto simp: inMinutes_def mod_1440)

lemma inMinutes_complement: "s \<noteq> e \<Longrightarrow> inMinutes s e c \<longleftrightarrow> \<not> inMinutes e s c"
  by (auto simp: inMinutes_def)

section \<open>Membership\<close>

text \<open>The window as a set of minutes, counted around the clock from its start.\<close>

definition covers_minute :: "OffHourWindow \<Rightarrow> int \<Rightarrow> bool" where
  "covers_minute w c \<longleftrightarrow>
     (\<exists>sh sm eh em. parseTime (Start w) = Inr (sh, sm) \<and> parseTime (End w) = Inr (eh, em) \<and>
        (let s = sh * 60 + sm; e = eh * 60 + em in
         s = e \<or> (c - s) mod 1440 < (e - s) mod 1440))"

text \<open>
  A moment is in a set of windows exactly when one window lists its weekday and covers its
  minute of the day, counted around the clock from the start of the window; so a window that
  crosses midnight is treated like one that does not, and only the weekday of the moment itself
  counts.
\<close>

lemma isInTimeWindows_iff:
  "isInTimeWindows windows now \<longleftrightarrow>
     (\<exists>w \<in> set windows. dayMatch w (currentDay now) \<and> covers_minute w (minute_of_day now))"
proof -
  have "inWindow now w \<longleftrightarrow> dayMatch w (currentDay now) \<and> covers_minute w (minute_of_day now)" for w
  proof (cases "parseTime (Start w)")
    case (Inr s)
    show ?thesis
    proof (cases "parseTime (End w)")
      case e: (Inr e)
      obtain sh sm eh em where p: "s = (sh, sm)" "e = (eh, em)" by (cases s; cases e)
      have "inMinutes (sh * 60 + sm) (eh * 60 + em) (minute_of_day now) \<longleftrightarrow>
          (let s = sh * 60 + sm; e = eh * 60 + em in
           s = e \<or> (minute_of_day now - s) mod 1440 < (e - s) mod 1440)"
        using minutes_range [of "Start w" sh sm] minutes_range [of "End w" eh em]
          minute_of_day_range [of now] Inr e p
        unfolding Let_def by (intro inMinutes_modular) auto
      then show ?thesis using Inr e p by (simp add: inWindow_def covers_minute_def)
    qed (auto simp: inWindow_def covers_minute_def Inr split: prod.splits)
  qed (auto simp: inWindow_def covers_minute_def)
  then show ?thesis by (auto simp: isInTimeWindows_def list_ex_iff)
qed

section \<open>Day names and cron expressions\<close>

definition valid_day :: "string \<Rightarrow> bool" where
  "valid_day d \<longleftrightarrow> map_of dayMap (ToUpper d) \<noteq> None"

definition day_number :: "string \<Rightarrow> nat" where
  "day_number d = the (map_of dayMap (ToUpper d))"

lemma dayMap_length: "map_of dayMap k = Some n \<Longrightarrow> length k = 3 \<and> n < 7"
  by (auto simp: dayMap_def split: if_splits)

lemma valid_day_length: "valid_day d \<Longrightarrow> length d = 3"
  using dayMap_length by (fastforce simp: valid_day_def ToUpper_def)

lemma cronDays_ok: "list_all valid_day days \<Longrightarrow> cronDays days = Inr (map (show_nat \<circ> day_number) days)"
  by (induction days) (auto simp: valid_day_def day_number_def split: option.splits)

lemma cronDays_err: "\<not> list_all valid_day days \<Longrightarrow> \<exists>e. cronDays days = Inl e"
  by (induction days) (auto simp: valid_day_def split: option.splits sum.splits)

text \<open>
  A window becomes a pair of cron expressions exactly when it names at least one day, all
  its days are known, and its start and end are valid and different times.  Both expressions
  carry the same days of the week, also for a window that crosses midnight.
\<close>

lemma ParseWindowToCron_iff:
  "ParseWindowToCron start end' days = Inr (hibernateCron, wakeUpCron) \<longleftrightarrow>
     days \<noteq> [] \<and> list_all valid_day days \<and>
     (\<exists>sh sm eh em. parseTime start = Inr (sh, sm) \<and> parseTime end' = Inr (eh, em) \<and>
        (sh, sm) \<noteq> (eh, em) \<and>
        (let dow = join '','' (map (show_nat \<circ> day_number) days) in
         hibernateCron = cronExpr sm sh dow \<and> wakeUpCron = cronExpr em eh dow))"
  (is "_ \<longleftrightarrow> ?rhs")
proof (cases "days \<noteq> [] \<and> list_all valid_day days")
  case True
  then have "convertDaysToCron days = Inr (join '','' (map (show_nat \<circ> day_number) days))"
    by (simp add: convertDaysToCron_def cronDays_ok)
  with True show ?thesis
    by (auto simp: ParseWindowToCron_def Let_def split: sum.splits)
next
  case False
  then have "days = [] \<or> (\<exists>e. convertDaysToCron days = Inl e)"
    using cronDays_err [of days] by (auto simp: convertDaysToCron_def split: sum.splits)
  then have "ParseWindowToCron start end' days \<noteq> Inr (hibernateCron, wakeUpCron)"
    by (auto simp: ParseWindowToCron_def split: sum.splits prod.splits)
  then show ?thesis using False by auto
qed

lemma parseWeekday_valid: "valid_day d \<Longrightarrow> parseWeekday d = Inr (Some (day_number d))"
  using valid_day_length [of d] by (auto simp: parseWeekday_def valid_day_def day_number_def)

lemma graceScan_valid:
  "list_all (\<lambda>p. valid_day (snd p)) ps \<Longrightarrow>
     graceScan b now grace ps = Inr (list_ex (\<lambda>(w, d). boundaryHit b now grace w (day_number d)) ps)"
  by (induction ps) (auto simp: parseWeekday_valid)

definition valid_days :: "OffHourWindow list \<Rightarrow> bool" where
  "valid_days windows \<longleftrightarrow> list_all (\<lambda>w. list_all valid_day (DaysOfWeek w)) windows"

lemma isInGraceTimeWindow_valid:
  "valid_days windows \<Longrightarrow> isInGraceTimeWindow b windows now grace =
     Inr (list_ex (\<lambda>w. list_ex (\<lambda>d. boundaryHit b now grace w (day_number d)) (DaysOfWeek w)) windows)"
  unfolding isInGraceTimeWindow_def valid_days_def
  by (subst graceScan_valid) (auto simp: list_all_iff list_ex_iff)

text \<open>
  A window in a location with a fixed offset is in its end grace exactly during \<open>grace\<close> after
  its end on one of its days.
\<close>

lemma mostRecentWeekday_today:
  "Weekday now = int d \<Longrightarrow> mostRecentWeekday now d = AddDays now 0"
  by (simp add: mostRecentWeekday_def)

lemma day_no_AddDays_fixed:
  assumes "t_loc t = (\<lambda>_. off)"
  shows "day_no (AddDays t k) = day_no t + k"
proof -
  have "local_sec (AddDays t k) = (day_no t + k) * 86400 + local_sec t mod 86400"
  proof -
    have "hour_of t * 3600 + minute_of t * 60 + second_of t = local_sec t mod 86400"
    proof -
      have "x mod 86400 div 3600 * 3600 + x mod 3600 div 60 * 60 + x mod 60 = x mod 86400" for x :: int
      proof -
        have "x mod 3600 = (x mod 86400) mod 3600" "x mod 60 = (x mod 3600) mod 60"
          by (simp_all add: mod_mod_cancel)
        then show ?thesis
          using div_mult_mod_eq [of "x mod 86400" 3600] div_mult_mod_eq [of "x mod 3600" 60] by linarith
      qed
      then show ?thesis by (simp add: hour_of_def minute_of_def second_of_def)
    qed
    then show ?thesis
      using assms pos_mod_bound [of Second "t_ns t"] pos_mod_sign [of Second "t_ns t"]
      by (simp add: AddDays_def DateOn_def Let_def local_sec_def
          unix_sec_def nanosecond_of_def div_add1_eq [of _ "_ mod _"])
  qed
  then show ?thesis by (simp add: day_no_def)
qed

end
