(* ===== verification/ApiTypes.thy ===== *)
theory ApiTypes
  imports Planner Windows
begin

text \<open>
  The custom resources (\<^verbatim>\<open>api/v1alpha1\<close>) and the well-known keys and intervals
  (\<^verbatim>\<open>internal/wellknown\<close>).  A string-typed enumeration is a datatype with one constructor
  per constant, one for the empty string where the code distinguishes it, and one for any other
  value.  Pointers are options; a \<open>map[string]string\<close> that is only read and written by key is a
  HOL map.  An embedded \<open>ObjectMeta\<close> contributes the fields the code uses.
\<close>

section \<open>Enumerations\<close>

datatype ExecutionStrategyType =
  StrategySequential | StrategyParallel | StrategyDAG | StrategyStaged | StrategyOther string

datatype BehaviorMode = BehaviorStrict | BehaviorBestEffort | BehaviorOther string

datatype PlanPhase =
    PhaseUnset | PhasePending | PhaseActive | PhaseHibernating | PhaseHibernated | PhaseWakingUp
  | PhaseSuspended | PhaseError | PhaseOther string

datatype PlanOperation = OperationUnset | OperationHibernate | OperationWakeUp | OperationOther string

datatype ExecutionState =
  StatePending | StateRunning | StateCompleted | StateFailed | StateAborted | StateOther string

fun phase_string :: "PlanPhase \<Rightarrow> string" where
  "phase_string PhaseUnset = ''''"
| "phase_string PhasePending = ''Pending''"
| "phase_string PhaseActive = ''Active''"
| "phase_string PhaseHibernating = ''Hibernating''"
| "phase_string PhaseHibernated = ''Hibernated''"
| "phase_string PhaseWakingUp = ''WakingUp''"
| "phase_string PhaseSuspended = ''Suspended''"
| "phase_string PhaseError = ''Error''"
| "phase_string (PhaseOther s) = s"

fun operation_string :: "PlanOperation \<Rightarrow> string" where
  "operation_string OperationUnset = ''''"
| "operation_string OperationHibernate = ''shutdown''"
| "operation_string OperationWakeUp = ''wakeup''"
| "operation_string (OperationOther s) = s"

fun strategy_string :: "ExecutionStrategyType \<Rightarrow> string" where
  "strategy_string StrategySequential = ''Sequential''"
| "strategy_string StrategyParallel = ''Parallel''"
| "strategy_string StrategyDAG = ''DAG''"
| "strategy_string StrategyStaged = ''Staged''"
| "strategy_string (StrategyOther s) = s"

fun state_string :: "ExecutionState \<Rightarrow> string" where
  "state_string StatePending = ''Pending''"
| "state_string StateRunning = ''Running''"
| "state_string StateCompleted = ''Completed''"
| "state_string StateFailed = ''Failed''"
| "state_string StateAborted = ''Aborted''"
| "state_string (StateOther s) = s"

section \<open>HibernatePlan\<close>

record Schedule =
  sc_Timezone :: string
  OffHours :: "OffHourWindow list"

text \<open>The stage of the API type; the planner's own \<open>Stage\<close> has a plain \<open>MaxConcurrency\<close>.\<close>

record api_Stage =
  as_Name :: string
  as_Parallel :: bool
  as_MaxConcurrency :: "int option"
  as_Targets :: "string list"

record ExecutionStrategy =
  es_Type :: ExecutionStrategyType
  es_MaxConcurrency :: "int option"
  Dependencies :: "Dependency list"
  es_Stages :: "api_Stage list"

record Execution =
  Strategy :: ExecutionStrategy

record Behavior =
  Mode :: BehaviorMode
  FailFast :: bool
  Retries :: "int option"

record ConnectorRef =
  cr_Kind :: string
  cr_Name :: string
  cr_Namespace :: string

text \<open>\<open>Parameters\<close> is a pointer to a struct with the raw JSON bytes.\<close>

record Target =
  tgt_Name :: string
  tgt_Type :: string
  tgt_ConnectorRef :: ConnectorRef
  tgt_Parameters :: "string option"

record HibernatePlanSpec =
  sp_Schedule :: Schedule
  sp_Execution :: Execution
  sp_Behavior :: Behavior
  Suspend :: bool
  Targets :: "Target list"

record ExecutionStatus =
  xe_Target :: string
  Executor :: string
  State :: ExecutionState
  StartedAt :: "Time option"
  FinishedAt :: "Time option"
  Attempts :: int
  xe_Message :: string
  JobRef :: string
  LogsRef :: string
  RestoreRef :: string
  ServiceAccountRef :: string
  ConnectorSecretRef :: string
  RestoreConfigMapRef :: string

record TargetExecutionResult =
  tr_Target :: string
  tr_State :: ExecutionState
  tr_Attempts :: int
  ExecutionID :: string
  tr_StartedAt :: "Time option"
  tr_FinishedAt :: "Time option"
  tr_Message :: string

record ExecutionOperationSummary =
  Operation :: PlanOperation
  StartTime :: Time
  EndTime :: "Time option"
  TargetResults :: "TargetExecutionResult list"
  Success :: bool
  os_ErrorMessage :: string

record ExecutionCycle =
  cy_CycleID :: string
  ShutdownExecution :: "ExecutionOperationSummary option"
  WakeupExecution :: "ExecutionOperationSummary option"

record PlanSnapshot =
  sn_CycleID :: string
  ExceptionName :: string
  sn_Targets :: "Target list"
  sn_Execution :: Execution
  sn_Behavior :: Behavior

datatype ExceptionState =
    ExceptionStateUnset | ExceptionStatePending | ExceptionStateActive | ExceptionStateExpired
  | ExceptionStateDetached | ExceptionStateOther string

datatype ExceptionType = ExceptionExtend | ExceptionSuspend | ExceptionReplace | ExceptionOther string

record ExceptionReference =
  er_Name :: string
  er_Type :: ExceptionType
  er_ValidFrom :: Time
  er_ValidUntil :: Time
  er_State :: ExceptionState
  er_AppliedAt :: "Time option"

record HibernatePlanStatus =
  CurrentCycleID :: string
  Phase :: PlanPhase
  LastTransitionTime :: "Time option"
  Executions :: "ExecutionStatus list"
  ObservedGeneration :: int
  RetryCount :: int
  LastRetryTime :: "Time option"
  ErrorMessage :: string
  ExceptionReferences :: "ExceptionReference list"
  AppliedExceptionOverride :: string
  PlanSnapshot :: "PlanSnapshot option"
  CurrentStageIndex :: int
  CurrentOperation :: PlanOperation
  ExecutionHistory :: "ExecutionCycle list"

record HibernatePlan =
  Name :: string
  Namespace :: string
  Generation :: int
  DeletionTimestamp :: "Time option"
  Finalizers :: "string list"
  Labels :: "string \<rightharpoonup> string"
  Annotations :: "string \<rightharpoonup> string"
  Spec :: HibernatePlanSpec
  Status :: HibernatePlanStatus

text \<open>\<open>plan.Annotations[key]\<close>: the empty string when the key is absent.\<close>

definition get_str :: "(string \<rightharpoonup> string) \<Rightarrow> string \<Rightarrow> string" where
  "get_str m k = (case m k of None \<Rightarrow> '''' | Some v \<Rightarrow> v)"

text \<open>The two-sided comparison of \<open>ExceptionReferencesEqual\<close>.\<close>

definition timesEqual :: "Time option \<Rightarrow> Time option \<Rightarrow> bool" where
  "timesEqual a b = (case (a, b) of (None, None) \<Rightarrow> True | (Some x, Some y) \<Rightarrow> TimeEqual x y | _ \<Rightarrow> False)"

definition exceptionReferenceEqual :: "ExceptionReference \<Rightarrow> ExceptionReference \<Rightarrow> bool" where
  "exceptionReferenceEqual a b \<longleftrightarrow>
     er_Name a = er_Name b \<and> er_Type a = er_Type b \<and> er_State a = er_State b \<and>
     TimeEqual (er_ValidFrom a) (er_ValidFrom b) \<and> TimeEqual (er_ValidUntil a) (er_ValidUntil b) \<and>
     timesEqual (er_AppliedAt a) (er_AppliedAt b)"

definition ExceptionReferencesEqual :: "ExceptionReference list \<Rightarrow> ExceptionReference list \<Rightarrow> bool" where
  "ExceptionReferencesEqual a b \<longleftrightarrow> list_all2 exceptionReferenceEqual a b"

section \<open>ScheduleException\<close>

record TargetOverride =
  TargetName :: string
  to_Parameters :: "string option"
  Disabled :: bool

record ExecutionOverride =
  eo_Strategy :: "ExecutionStrategy option"
  eo_Behavior :: "Behavior option"

record PlanReference =
  pr_Name :: string
  pr_Namespace :: string

record ScheduleExceptionSpec =
  PlanRef :: PlanReference
  xs_ValidFrom :: Time
  xs_ValidUntil :: Time
  xs_Type :: ExceptionType
  xs_LeadTime :: string
  xs_Windows :: "OffHourWindow list"
  TargetOverrides :: "TargetOverride list"
  xs_ExecutionOverride :: "ExecutionOverride option"

record ScheduleExceptionStatus =
  xt_State :: ExceptionState
  AppliedAt :: "Time option"
  ExpiredAt :: "Time option"
  DetachedAt :: "Time option"
  xt_Message :: string

record ScheduleException =
  exc_Name :: string
  exc_Namespace :: string
  CreationTimestamp :: Time
  exc_DeletionTimestamp :: "Time option"
  exc_Finalizers :: "string list"
  exc_Labels :: "string \<rightharpoonup> string"
  exc_Spec :: ScheduleExceptionSpec
  exc_Status :: ScheduleExceptionStatus

section \<open>HibernateNotification\<close>

datatype NotificationEvent =
    EventStart | EventSuccess | EventFailure | EventRecovery | EventPhaseChange
  | EventExecutionProgress | EventOther string

fun event_string :: "NotificationEvent \<Rightarrow> string" where
  "event_string EventStart = ''Start''"
| "event_string EventSuccess = ''Success''"
| "event_string EventFailure = ''Failure''"
| "event_string EventRecovery = ''Recovery''"
| "event_string EventPhaseChange = ''PhaseChange''"
| "event_string EventExecutionProgress = ''ExecutionProgress''"
| "event_string (EventOther s) = s"

record ObjectKeyReference =
  okr_Name :: string
  okr_Key :: "string option"

record NotificationSink =
  sk_Name :: string
  sk_Type :: string
  SecretRef :: ObjectKeyReference
  TemplateRef :: "ObjectKeyReference option"

record HibernateNotification =
  hn_Name :: string
  hn_Namespace :: string
  OnEvents :: "NotificationEvent list"
  Sinks :: "NotificationSink list"

section \<open>Well-known keys and values\<close>

abbreviation domain_prefix :: string where "domain_prefix \<equiv> ''hibernator.ardikabs.com/''"

definition AnnotationSuspendedAtPhase :: string where
  "AnnotationSuspendedAtPhase = domain_prefix @ ''suspended-at-phase''"
definition AnnotationPreviousRestoreState :: string where
  "AnnotationPreviousRestoreState = domain_prefix @ ''restore-previous-state''"
definition AnnotationRestoredPrefix :: string where
  "AnnotationRestoredPrefix = domain_prefix @ ''restored-''"
definition AnnotationRetryNow :: string where
  "AnnotationRetryNow = domain_prefix @ ''retry-now''"
definition AnnotationRetryAt :: string where
  "AnnotationRetryAt = domain_prefix @ ''retry-at''"
definition AnnotationSuspendUntil :: string where
  "AnnotationSuspendUntil = domain_prefix @ ''suspend-until''"
definition AnnotationSuspendReason :: string where
  "AnnotationSuspendReason = domain_prefix @ ''suspend-reason''"
definition AnnotationOverrideAction :: string where
  "AnnotationOverrideAction = domain_prefix @ ''override-action''"
definition AnnotationOverridePhaseTarget :: string where
  "AnnotationOverridePhaseTarget = domain_prefix @ ''override-phase-target''"
definition AnnotationOverrideUntil :: string where
  "AnnotationOverrideUntil = domain_prefix @ ''override-until''"
definition AnnotationRestart :: string where
  "AnnotationRestart = domain_prefix @ ''restart''"
definition AnnotationFresh :: string where
  "AnnotationFresh = domain_prefix @ ''fresh''"
definition AnnotationPlan :: string where
  "AnnotationPlan = domain_prefix @ ''plan''"
definition AnnotationTarget :: string where
  "AnnotationTarget = domain_prefix @ ''target''"

definition LabelPlan :: string where "LabelPlan = domain_prefix @ ''plan''"
definition LabelTarget :: string where "LabelTarget = domain_prefix @ ''target''"
definition LabelExecutor :: string where "LabelExecutor = domain_prefix @ ''executor''"
definition LabelExecutionID :: string where "LabelExecutionID = domain_prefix @ ''execution-id''"
definition LabelOperation :: string where "LabelOperation = domain_prefix @ ''operation''"
definition LabelCycleID :: string where "LabelCycleID = domain_prefix @ ''cycle-id''"
definition LabelStaleRunnerJob :: string where "LabelStaleRunnerJob = domain_prefix @ ''stale''"
definition LabelStaleReasonRunnerJob :: string where
  "LabelStaleReasonRunnerJob = domain_prefix @ ''stale-reason''"

definition PlanFinalizerName :: string where "PlanFinalizerName = domain_prefix @ ''finalizer''"

lemmas annotation_defs =
  AnnotationSuspendedAtPhase_def AnnotationPreviousRestoreState_def AnnotationRestoredPrefix_def
  AnnotationRetryNow_def AnnotationRetryAt_def AnnotationSuspendUntil_def AnnotationSuspendReason_def
  AnnotationOverrideAction_def AnnotationOverridePhaseTarget_def AnnotationOverrideUntil_def
  AnnotationRestart_def AnnotationFresh_def

lemmas label_defs =
  LabelPlan_def LabelTarget_def LabelExecutor_def LabelExecutionID_def LabelOperation_def
  LabelCycleID_def LabelStaleRunnerJob_def LabelStaleReasonRunnerJob_def

definition ExecutionIDLogPrefix :: string where "ExecutionIDLogPrefix = ''execution-id://''"
definition RunnerImage :: string where "RunnerImage = ''ghcr.io/ardikabs/hibernator-runner:latest''"
definition StreamTokenAudience :: string where "StreamTokenAudience = ''hibernator-control-plane''"

abbreviation StreamTokenExpirationSeconds :: int where "StreamTokenExpirationSeconds \<equiv> 600"
abbreviation DefaultJobTTLSeconds :: int where "DefaultJobTTLSeconds \<equiv> 3600"
abbreviation DefaultJobBackoffLimit :: int where "DefaultJobBackoffLimit \<equiv> 3"
abbreviation DefaultRecoveryMaxRetryAttempts :: int where "DefaultRecoveryMaxRetryAttempts \<equiv> 3"
abbreviation MaxCycleHistorySize :: nat where "MaxCycleHistorySize \<equiv> 5"

abbreviation RequeueIntervalDuringStage :: duration where "RequeueIntervalDuringStage \<equiv> 10 * Second"
abbreviation RequeueIntervalOnExecution :: duration where "RequeueIntervalOnExecution \<equiv> 10 * Second"
abbreviation RequeueIntervalOnRecoveryError :: duration where "RequeueIntervalOnRecoveryError \<equiv> Minute"
abbreviation RequeueIntervalOnTransientError :: duration where
  "RequeueIntervalOnTransientError \<equiv> 30 * Second"
abbreviation TimeoutTransitionToSuspended :: duration where
  "TimeoutTransitionToSuspended \<equiv> 30 * Minute"

section \<open>Facts\<close>

lemma get_str_upd [simp]: "get_str (m(k \<mapsto> v)) k' = (if k' = k then v else get_str m k')"
  by (simp add: get_str_def)

lemma get_str_del [simp]: "get_str (m(k := None)) k' = (if k' = k then '''' else get_str m k')"
  by (simp add: get_str_def)

lemma get_str_nonempty: "get_str m k = v \<Longrightarrow> v \<noteq> '''' \<Longrightarrow> m k = Some v"
  by (auto simp: get_str_def split: option.splits)

lemma annotations_distinct:
  "distinct [AnnotationSuspendedAtPhase, AnnotationRetryNow, AnnotationRetryAt, AnnotationSuspendUntil,
     AnnotationSuspendReason, AnnotationOverrideAction, AnnotationOverridePhaseTarget,
     AnnotationOverrideUntil, AnnotationRestart, AnnotationFresh]"
  by (simp add: annotation_defs)

lemma labels_distinct:
  "distinct [LabelPlan, LabelTarget, LabelExecutor, LabelExecutionID, LabelOperation, LabelCycleID,
     LabelStaleRunnerJob, LabelStaleReasonRunnerJob]"
  by (simp add: label_defs)

lemma annotations_distinct_rev:
  "distinct [AnnotationFresh, AnnotationRestart, AnnotationOverrideUntil, AnnotationOverridePhaseTarget,
     AnnotationOverrideAction, AnnotationSuspendReason, AnnotationSuspendUntil, AnnotationRetryAt,
     AnnotationRetryNow, AnnotationSuspendedAtPhase]"
  by (simp add: annotation_defs)

lemma labels_distinct_rev:
  "distinct [LabelStaleReasonRunnerJob, LabelStaleRunnerJob, LabelCycleID, LabelOperation, LabelExecutionID,
     LabelExecutor, LabelTarget, LabelPlan]"
  by (simp add: label_defs)

lemmas annotation_neq [simp] =
  annotations_distinct [simplified distinct.simps list.set, simplified]
  annotations_distinct_rev [simplified distinct.simps list.set, simplified]

lemmas label_neq [simp] =
  labels_distinct [simplified distinct.simps list.set, simplified]
  labels_distinct_rev [simplified distinct.simps list.set, simplified]

lemma exceptionReferenceEqual_refl: "exceptionReferenceEqual a a"
  by (simp add: exceptionReferenceEqual_def TimeEqual_def timesEqual_def split: option.splits)

lemma ExceptionReferencesEqual_refl: "ExceptionReferencesEqual a a"
  by (simp add: ExceptionReferencesEqual_def list_all2_same exceptionReferenceEqual_refl)

end
