(* ===== verification/Notify.thy ===== *)
theory Notify
  imports ApiTypes
begin

text \<open>
  Notification hooks of the plan state machine
  (\<^verbatim>\<open>internal/provider/processor/plan/state/state_notify.go\<close>).  A hook is a function of the
  plan it is called with; it yields the requests it submits to the dispatcher, in order, and an
  error.  The connector resources it reads are the two lookup functions of \<open>notify_env\<close>.
\<close>

record ConnectorInfo =
  ci_Kind :: string
  ci_Name :: string
  Provider :: string
  AccountID :: string
  ProjectID :: string
  Region :: string
  ClusterName :: string

record TargetInfo =
  ti_Name :: string
  ti_Executor :: string
  ti_State :: string
  ti_Message :: string
  Connector :: ConnectorInfo

record Payload =
  pl_Name :: string
  pl_Namespace :: string
  pl_Labels :: "string \<rightharpoonup> string"
  pl_Annotations :: "string \<rightharpoonup> string"
  pl_Event :: string
  Timestamp :: Time
  pl_Phase :: string
  PreviousPhase :: string
  pl_Operation :: string
  pl_CycleID :: string
  pl_ErrorMessage :: string
  pl_RetryCount :: int
  pl_Targets :: "TargetInfo list"
  TargetExecution :: "TargetInfo option"

record Request =
  rq_Payload :: Payload
  SinkName :: string
  SinkType :: string
  rq_SecretRef :: ObjectKeyReference
  rq_TemplateRef :: "ObjectKeyReference option"
  NotificationRef :: "string \<times> string"

record AWSConfig =
  AccountId :: string
  aws_Region :: string

record CloudProvider =
  cp_Type :: string
  AWS :: "AWSConfig option"

datatype cluster_kind =
    EKSConfig string string
  | GKEConfig string string string
  | K8SAccess bool
  | NoAccess

record K8SCluster =
  kc_Kind :: cluster_kind
  ProviderRef :: "(string \<times> string) option"

record notify_env =
  hasNotifier :: bool
  Notifications :: "HibernateNotification list"
  getCloudProvider :: "string \<Rightarrow> string \<Rightarrow> CloudProvider option"
  getK8SCluster :: "string \<Rightarrow> string \<Rightarrow> K8SCluster option"
  ne_now :: Time

type_synonym hook = "HibernatePlan \<Rightarrow> Request list \<times> go_error option"

section \<open>Submitting\<close>

definition subscribesToEvent :: "HibernateNotification \<Rightarrow> NotificationEvent \<Rightarrow> bool" where
  "subscribesToEvent notif event \<longleftrightarrow> event \<in> set (OnEvents notif)"

definition sinkRequest :: "HibernateNotification \<Rightarrow> Payload \<Rightarrow> NotificationSink \<Rightarrow> Request" where
  "sinkRequest notif payload sink =
     \<lparr>rq_Payload = payload, SinkName = sk_Name sink, SinkType = sk_Type sink, rq_SecretRef = SecretRef sink,
      rq_TemplateRef = TemplateRef sink, NotificationRef = (hn_Namespace notif, hn_Name notif)\<rparr>"

fun submitSinks :: "HibernateNotification \<Rightarrow> Payload \<Rightarrow> string list \<Rightarrow> NotificationSink list \<Rightarrow> Request list" where
  "submitSinks notif payload done [] = []"
| "submitSinks notif payload done (sink # sinks) =
     (if sk_Name sink \<in> set done then submitSinks notif payload done sinks
      else sinkRequest notif payload sink # submitSinks notif payload (sk_Name sink # done) sinks)"

definition submitForNotification ::
    "HibernateNotification \<Rightarrow> NotificationEvent \<Rightarrow> Payload \<Rightarrow> Request list" where
  "submitForNotification notif event payload =
     (if \<not> subscribesToEvent notif event then [] else submitSinks notif payload [] (Sinks notif))"

section \<open>Payloads\<close>

definition emptyConnector :: ConnectorInfo where
  "emptyConnector = \<lparr>ci_Kind = '''', ci_Name = '''', Provider = '''', AccountID = '''', ProjectID = '''',
     Region = '''', ClusterName = ''''\<rparr>"

text \<open>The map of spec targets by name: a later target with the same name wins.\<close>

definition specTarget :: "HibernatePlan \<Rightarrow> string \<Rightarrow> Target option" where
  "specTarget plan name = List.find (\<lambda>t. tgt_Name t = name) (rev (Targets (Spec plan)))"

definition targetInfo :: "HibernatePlan \<Rightarrow> ExecutionStatus \<Rightarrow> TargetInfo" where
  "targetInfo plan exec =
     \<lparr>ti_Name = xe_Target exec, ti_Executor = Executor exec, ti_State = state_string (State exec),
      ti_Message = xe_Message exec,
      Connector = (case specTarget plan (xe_Target exec) of
        None \<Rightarrow> emptyConnector
      | Some t \<Rightarrow> emptyConnector\<lparr>ci_Kind := cr_Kind (tgt_ConnectorRef t), ci_Name := cr_Name (tgt_ConnectorRef t)\<rparr>)\<rparr>"

definition buildPayload :: "HibernatePlan \<Rightarrow> NotificationEvent \<Rightarrow> Time \<Rightarrow> Payload" where
  "buildPayload plan event now =
     \<lparr>pl_Name = Name plan, pl_Namespace = Namespace plan, pl_Labels = Labels plan,
      pl_Annotations = Annotations plan, pl_Event = event_string event, Timestamp = now,
      pl_Phase = phase_string (Phase (Status plan)), PreviousPhase = '''',
      pl_Operation = operation_string (CurrentOperation (Status plan)),
      pl_CycleID = CurrentCycleID (Status plan), pl_ErrorMessage = ErrorMessage (Status plan),
      pl_RetryCount = RetryCount (Status plan),
      pl_Targets = map (targetInfo plan) (Executions (Status plan)), TargetExecution = None\<rparr>"

definition fromCloudProvider :: "CloudProvider \<Rightarrow> ConnectorInfo \<Rightarrow> ConnectorInfo" where
  "fromCloudProvider cp ci =
     (let ci' = ci\<lparr>Provider := cp_Type cp\<rparr> in
      case AWS cp of None \<Rightarrow> ci' | Some a \<Rightarrow> ci'\<lparr>AccountID := AccountId a, Region := aws_Region a\<rparr>)"

definition fromCluster :: "notify_env \<Rightarrow> string \<Rightarrow> K8SCluster \<Rightarrow> ConnectorInfo \<Rightarrow> ConnectorInfo" where
  "fromCluster env ns kc ci =
     (let ci1 = (case kc_Kind kc of
                   EKSConfig name region \<Rightarrow> ci\<lparr>ClusterName := name, Region := region\<rparr>
                 | GKEConfig name location project \<Rightarrow>
                     ci\<lparr>ClusterName := name, Region := location, ProjectID := project\<rparr>
                 | K8SAccess inCluster \<Rightarrow> ci\<lparr>ClusterName := (if inCluster then ''in-cluster'' else ''remote'')\<rparr>
                 | NoAccess \<Rightarrow> ci)
      in case ProviderRef kc of
           None \<Rightarrow> ci1
         | Some (provNS, provName) \<Rightarrow>
             (case getCloudProvider env (if provNS = '''' then ns else provNS) provName of
                None \<Rightarrow> ci1
              | Some cp \<Rightarrow>
                  (let ci2 = ci1\<lparr>Provider := cp_Type cp\<rparr> in
                   case AWS cp of
                     None \<Rightarrow> ci2
                   | Some a \<Rightarrow> ci2\<lparr>AccountID := AccountId a,
                       Region := (if Region ci2 = '''' then aws_Region a else Region ci2)\<rparr>)))"

definition enrichConnector :: "notify_env \<Rightarrow> string \<Rightarrow> ConnectorInfo \<Rightarrow> ConnectorInfo" where
  "enrichConnector env ns ci =
     (if ci_Kind ci = '''' \<or> ci_Name ci = '''' then ci
      else if ci_Kind ci = ''CloudProvider'' then
        (case getCloudProvider env ns (ci_Name ci) of None \<Rightarrow> ci | Some cp \<Rightarrow> fromCloudProvider cp ci)
      else if ci_Kind ci = ''K8SCluster'' then
        (case getK8SCluster env ns (ci_Name ci) of None \<Rightarrow> ci | Some kc \<Rightarrow> fromCluster env ns kc ci)
      else ci)"

definition enrichConnectorInfo :: "notify_env \<Rightarrow> string \<Rightarrow> TargetInfo list \<Rightarrow> TargetInfo list" where
  "enrichConnectorInfo env ns targets =
     map (\<lambda>t. t\<lparr>Connector := enrichConnector env ns (Connector t)\<rparr>) targets"

section \<open>Hooks\<close>

definition dispatching :: "notify_env \<Rightarrow> bool" where
  "dispatching env \<longleftrightarrow> hasNotifier env \<and> Notifications env \<noteq> []"

definition submitAll :: "notify_env \<Rightarrow> NotificationEvent \<Rightarrow> Payload \<Rightarrow> Request list" where
  "submitAll env event payload =
     concat (map (\<lambda>n. submitForNotification n event payload) (Notifications env))"

definition enriched :: "notify_env \<Rightarrow> HibernatePlan \<Rightarrow> Payload \<Rightarrow> Payload" where
  "enriched env plan p = p\<lparr>pl_Targets := enrichConnectorInfo env (Namespace plan) (pl_Targets p)\<rparr>"

definition notifyHook :: "notify_env \<Rightarrow> NotificationEvent \<Rightarrow> (HibernatePlan \<Rightarrow> Payload) \<Rightarrow> hook option" where
  "notifyHook env event payloadFn =
     (if \<not> dispatching env then None
      else Some (\<lambda>plan. (submitAll env event (enriched env plan (payloadFn plan)), None)))"

definition phaseChangePostHook :: "notify_env \<Rightarrow> PlanPhase \<Rightarrow> hook option" where
  "phaseChangePostHook env previousPhase =
     (if \<not> dispatching env then None
      else Some (\<lambda>plan. (submitAll env EventPhaseChange
             (enriched env plan ((buildPayload plan EventPhaseChange (ne_now env))
                \<lparr>PreviousPhase := phase_string previousPhase\<rparr>)), None)))"

fun runHooks :: "hook list \<Rightarrow> hook" where
  "runHooks [] plan = ([], None)"
| "runHooks (h # hs) plan =
     (case h plan of
        (reqs, Some err) \<Rightarrow> (reqs, Some err)
      | (reqs, None) \<Rightarrow> (case runHooks hs plan of (reqs', err) \<Rightarrow> (reqs @ reqs', err)))"

definition chainHooks :: "hook option list \<Rightarrow> hook option" where
  "chainHooks hooks =
     (case map the (filter (\<lambda>h. h \<noteq> None) hooks) of
        [] \<Rightarrow> None | [h] \<Rightarrow> Some h | hs \<Rightarrow> Some (runHooks hs))"

text \<open>
  \<open>executionProgressPostHook\<close>: one round of submissions for each target whose state differs from
  the snapshot taken before the update.
\<close>

definition progressed :: "(string \<times> ExecutionState) list \<Rightarrow> TargetInfo \<Rightarrow> bool" where
  "progressed prevSnapshot t \<longleftrightarrow>
     (case map_of prevSnapshot (ti_Name t) of None \<Rightarrow> True | Some st \<Rightarrow> state_string st \<noteq> ti_State t)"

definition executionProgressPostHook ::
    "notify_env \<Rightarrow> (string \<times> ExecutionState) list \<Rightarrow> hook option" where
  "executionProgressPostHook env prevSnapshot =
     (if \<not> dispatching env then None
      else Some (\<lambda>plan.
        let payload = enriched env plan (buildPayload plan EventExecutionProgress (ne_now env)) in
        (concat (map (\<lambda>t. submitAll env EventExecutionProgress (payload\<lparr>TargetExecution := Some t\<rparr>))
            (filter (progressed prevSnapshot) (pl_Targets payload))), None)))"

section \<open>Facts\<close>

lemma submitSinks_names:
  "distinct (map SinkName (submitSinks n p done sinks)) \<and>
   set (map SinkName (submitSinks n p done sinks)) = sk_Name ` set sinks - set done"
  by (induction n p "done" sinks rule: submitSinks.induct) (auto simp: sinkRequest_def)

lemma submitSinks_ref:
  "r \<in> set (submitSinks n p done sinks) \<Longrightarrow> NotificationRef r = (hn_Namespace n, hn_Name n) \<and> rq_Payload r = p"
  by (induction n p "done" sinks rule: submitSinks.induct) (auto simp: sinkRequest_def split: if_splits)

text \<open>
  An event reaches every sink of every subscribed notification exactly once per sink name:
  for one notification the submitted requests name each of its sinks once, if it subscribes to
  the event, and nothing is submitted otherwise.
\<close>

lemma submitForNotification_once:
  "distinct (map SinkName (submitForNotification notif event payload)) \<and>
   set (map SinkName (submitForNotification notif event payload)) =
     (if event \<in> set (OnEvents notif) then sk_Name ` set (Sinks notif) else {}) \<and>
   list_all (\<lambda>r. NotificationRef r = (hn_Namespace notif, hn_Name notif) \<and> rq_Payload r = payload)
     (submitForNotification notif event payload)"
  using submitSinks_names [of notif payload "[]" "Sinks notif"] submitSinks_ref [of _ notif payload "[]"]
  by (auto simp: submitForNotification_def subscribesToEvent_def list_all_iff)

lemma runHooks_all:
  "list_all (\<lambda>h. snd (h plan) = None) hs \<Longrightarrow> runHooks hs plan = (concat (map (\<lambda>h. fst (h plan)) hs), None)"
  by (induction hs) (auto split: prod.splits option.splits)

end
