(* ===== verification/Restore.thy ===== *)
theory Restore
  imports ApiTypes
begin

text \<open>
  Restore data (\<^verbatim>\<open>internal/restore\<close>): one ConfigMap per plan with one JSON document per
  target.  A value of the ConfigMap is represented by what \<open>json.Unmarshal\<close> makes of it: the
  decoded document, or an undecodable text.  Encoding truncates times to seconds, as
  \<open>metav1.Time\<close> does.  Go maps are association lists in an arbitrary iteration order.  The
  outcome of each API call is given by \<open>cm_api\<close>.
\<close>

datatype json =
  JNull | JBool bool | JNum string | JStr string | JArr "json list" | JObj "(string \<times> json) list"

record ResourceStatus =
  StaleCount :: int
  LastReportedAt :: "Time option"

record Data =
  rd_Target :: string
  rd_Executor :: string
  Version :: int
  IsLive :: bool
  CycleID :: string
  CreatedAt :: Time
  CapturedAt :: "Time option"
  rd_State :: "(string \<times> json) list"
  rd_Status :: "(string \<times> ResourceStatus) list"

definition zeroData :: Data where
  "zeroData = \<lparr>rd_Target = '''', rd_Executor = '''', Version = 0, IsLive = False, CycleID = '''',
     CreatedAt = zeroTime, CapturedAt = None, rd_State = [], rd_Status = []\<rparr>"

datatype blob = Undecodable string | Encoded Data

record ConfigMap =
  cm_Labels :: "string \<rightharpoonup> string"
  cm_Annotations :: "string \<rightharpoonup> string"
  cm_Data :: "(string \<times> blob) list"

record cm_api =
  get_err :: "api_error option"
  create_err :: "api_error option"
  update_err :: "api_error option"
  patch_err :: "api_error option"
  json_size :: "Data \<Rightarrow> nat"

type_synonym store = "ConfigMap option"

section \<open>JSON and the API\<close>

definition toSeconds :: "Time \<Rightarrow> Time" where
  "toSeconds t = t\<lparr>t_ns := t_ns t div Second * Second\<rparr>"

definition toSecondsPtr :: "Time option \<Rightarrow> Time option" where
  "toSecondsPtr t = (case t of None \<Rightarrow> None | Some x \<Rightarrow> if IsZero x then None else Some (toSeconds x))"

definition Marshal :: "Data \<Rightarrow> blob" where
  "Marshal d = Encoded (d\<lparr>CreatedAt := toSeconds (CreatedAt d), CapturedAt := toSecondsPtr (CapturedAt d),
     rd_Status := map (\<lambda>(k, s). (k, s\<lparr>LastReportedAt := toSecondsPtr (LastReportedAt s)\<rparr>)) (rd_Status d)\<rparr>)"

definition Unmarshal :: "blob \<Rightarrow> Data option" where
  "Unmarshal b = (case b of Undecodable _ \<Rightarrow> None | Encoded d \<Rightarrow> Some d)"

definition cm_get :: "cm_api \<Rightarrow> store \<Rightarrow> api_error + ConfigMap" where
  "cm_get api st =
     (case get_err api of
        Some e \<Rightarrow> Inl e
      | None \<Rightarrow> (case st of None \<Rightarrow> Inl NotFound | Some cm \<Rightarrow> Inr cm))"

definition cm_write :: "api_error option \<Rightarrow> ConfigMap \<Rightarrow> store \<Rightarrow> go_error option \<times> store" where
  "cm_write err cm st = (case err of Some e \<Rightarrow> (Some (ApiError e), st) | None \<Rightarrow> (None, Some cm))"

definition dataKey :: "string \<Rightarrow> string" where
  "dataKey targetName = targetName @ ''.json''"

definition newConfigMap :: "string \<Rightarrow> ConfigMap" where
  "newConfigMap planName =
     \<lparr>cm_Labels = [LabelPlan \<mapsto> planName], cm_Annotations = Map.empty, cm_Data = []\<rparr>"

section \<open>The manager\<close>

text \<open>
  \<open>PrepareRestorePoint\<close>.  The annotation with the previous state holds the encoding of the
  whole data map; that text is \<open>previous\<close>.
\<close>

definition PrepareRestorePoint ::
    "((string \<times> blob) list \<Rightarrow> string) \<Rightarrow> cm_api \<Rightarrow> string \<Rightarrow> store \<Rightarrow> go_error option \<times> store" where
  "PrepareRestorePoint previous api planName st =
     (case cm_get api st of
        Inl NotFound \<Rightarrow> cm_write (create_err api) (newConfigMap planName) st
      | Inl e \<Rightarrow> (Some (Wrap ''get restore configmap: '' (ApiError e)), st)
      | Inr cm \<Rightarrow>
          cm_write (update_err api)
            (cm\<lparr>cm_Annotations := (cm_Annotations cm)(AnnotationPreviousRestoreState \<mapsto>
                  (if previous (cm_Data cm) = '''' then ''n/a'' else previous (cm_Data cm))),
                cm_Data := map (\<lambda>(k, v). (k, case Unmarshal v of
                    Some d \<Rightarrow> Marshal (d\<lparr>IsLive := False\<rparr>) | None \<Rightarrow> Marshal zeroData)) (cm_Data cm)\<rparr>) st)"

definition Load :: "cm_api \<Rightarrow> string \<Rightarrow> store \<Rightarrow> (Data option) res" where
  "Load api targetName st =
     (case cm_get api st of
        Inl NotFound \<Rightarrow> Inr None
      | Inl e \<Rightarrow> Inl (Wrap ''get restore configmap: '' (ApiError e))
      | Inr cm \<Rightarrow>
          (case map_of (cm_Data cm) (dataKey targetName) of
             None \<Rightarrow> Inr None
           | Some b \<Rightarrow> (case Unmarshal b of
                          None \<Rightarrow> Inl (Wrap ''unmarshal restore data: '' (ErrMsg ''invalid JSON''))
                        | Some d \<Rightarrow> Inr (Some d))))"

definition jsonTrue :: "(string \<times> json) list \<Rightarrow> string \<Rightarrow> bool" where
  "jsonTrue m k = (map_of m k = Some (JBool True))"

definition isDemandedState :: "(string \<times> json) list \<Rightarrow> bool" where
  "isDemandedState state = (if jsonTrue state ''wasRunning'' then True
     else if jsonTrue state ''wasScaled'' then True else False)"

definition MarkTargetRestored :: "cm_api \<Rightarrow> string \<Rightarrow> store \<Rightarrow> go_error option \<times> store" where
  "MarkTargetRestored api targetName st =
     (case cm_get api st of
        Inl NotFound \<Rightarrow> (None, st)
      | Inl e \<Rightarrow> (Some (Wrap ''get restore configmap: '' (ApiError e)), st)
      | Inr cm \<Rightarrow>
          (let key = dataKey targetName;
               data = (case map_of (cm_Data cm) key of
                         None \<Rightarrow> cm_Data cm
                       | Some b \<Rightarrow> (case Unmarshal b of
                                      None \<Rightarrow> cm_Data cm
                                    | Some d \<Rightarrow> AList.update key (Marshal (d\<lparr>IsLive := False\<rparr>)) (cm_Data cm)))
           in cm_write (update_err api)
                (cm\<lparr>cm_Annotations := (cm_Annotations cm)(AnnotationRestoredPrefix @ targetName \<mapsto> ''true''),
                    cm_Data := data\<rparr>) st))"

definition MarkAllTargetsRestored :: "cm_api \<Rightarrow> string list \<Rightarrow> store \<Rightarrow> bool res" where
  "MarkAllTargetsRestored api targetNames st =
     (case cm_get api st of
        Inl NotFound \<Rightarrow> Inr True
      | Inl e \<Rightarrow> Inl (Wrap ''get restore configmap: '' (ApiError e))
      | Inr cm \<Rightarrow>
          Inr (list_all (\<lambda>t. get_str (cm_Annotations cm) (AnnotationRestoredPrefix @ t) = ''true'') targetNames))"

definition isRestoredKey :: "string \<Rightarrow> bool" where
  "isRestoredKey key \<longleftrightarrow> length key > length AnnotationRestoredPrefix \<and>
     take (length AnnotationRestoredPrefix) key = AnnotationRestoredPrefix"

definition UnlockRestoreData :: "cm_api \<Rightarrow> store \<Rightarrow> go_error option \<times> store" where
  "UnlockRestoreData api st =
     (case cm_get api st of
        Inl NotFound \<Rightarrow> (None, st)
      | Inl e \<Rightarrow> (Some (Wrap ''get restore configmap: '' (ApiError e)), st)
      | Inr cm \<Rightarrow>
          cm_write (update_err api)
            (cm\<lparr>cm_Annotations := (\<lambda>k. if isRestoredKey k then None else cm_Annotations cm k),
                cm_Data := map (\<lambda>(k, v). (k, case Unmarshal v of
                    None \<Rightarrow> v
                  | Some d \<Rightarrow> if CycleID d \<noteq> '''' then Marshal (d\<lparr>CycleID := ''''\<rparr>) else v)) (cm_Data cm)\<rparr>) st)"

fun scanLive :: "(string \<times> blob) list \<Rightarrow> bool option" where
  "scanLive [] = None"
| "scanLive ((k, v) # rest) =
     (case Unmarshal v of None \<Rightarrow> Some False | Some d \<Rightarrow> if IsLive d then Some True else scanLive rest)"

definition HasRestoreData :: "cm_api \<Rightarrow> store \<Rightarrow> bool res" where
  "HasRestoreData api st =
     (case cm_get api st of
        Inl NotFound \<Rightarrow> Inr False
      | Inl e \<Rightarrow> Inl (Wrap ''get restore configmap: '' (ApiError e))
      | Inr cm \<Rightarrow> Inr (case scanLive (cm_Data cm) of Some b \<Rightarrow> b | None \<Rightarrow> cm_Data cm \<noteq> []))"

section \<open>Saving\<close>

abbreviation MaxConfigMapSize :: nat where "MaxConfigMapSize \<equiv> 900 * 1024"

definition Save :: "cm_api \<Rightarrow> string \<Rightarrow> string \<Rightarrow> Data \<Rightarrow> store \<Rightarrow> go_error option \<times> store" where
  "Save api planName targetName data st =
     (let write = (\<lambda>err cm.
        if json_size api data > MaxConfigMapSize
        then (Some (ErrMsg (''restore data too large ('' @ show_nat (json_size api data) @ '' bytes), max '' @
                 show_nat MaxConfigMapSize)), st)
        else cm_write err (cm\<lparr>cm_Data := AList.update (dataKey targetName) (Marshal data) (cm_Data cm)\<rparr>) st)
      in case cm_get api st of
           Inl NotFound \<Rightarrow> write (create_err api) (newConfigMap planName)
         | Inl e \<Rightarrow> (Some (Wrap ''get restore configmap: '' (ApiError e)), st)
         | Inr cm \<Rightarrow> write (patch_err api) cm)"

record stateMergeContext =
  mc_key :: string
  newValue :: json
  existing :: Data
  incomingStatus :: "(string \<times> ResourceStatus) list"
  isSameCycle :: bool
  mc_now :: Time

definition status_of :: "(string \<times> ResourceStatus) list \<Rightarrow> string \<Rightarrow> ResourceStatus" where
  "status_of m k = lookup_default \<lparr>StaleCount = 0, LastReportedAt = None\<rparr> m k"

definition incomingReport :: "stateMergeContext \<Rightarrow> Time" where
  "incomingReport ctx =
     (case LastReportedAt (status_of (incomingStatus ctx) (mc_key ctx)) of None \<Rightarrow> mc_now ctx | Some t \<Rightarrow> t)"

text \<open>The status of the three strategies that take the new value.\<close>

definition replaceStatus :: "stateMergeContext \<Rightarrow> ResourceStatus" where
  "replaceStatus ctx = \<lparr>StaleCount = 0, LastReportedAt = Some (incomingReport ctx)\<rparr>"

definition preserveStatus :: "stateMergeContext \<Rightarrow> ResourceStatus" where
  "preserveStatus ctx =
     (let old = status_of (rd_Status (existing ctx)) (mc_key ctx)
      in \<lparr>StaleCount = StaleCount old,
          LastReportedAt = (case LastReportedAt old of
            Some t \<Rightarrow> Some t | None \<Rightarrow> Some (incomingReport ctx))\<rparr>)"

datatype stateMergeStrategy =
  differentCycleStrategy | firstReportStrategy | demandedStateStrategy | preserveStateStrategy

fun shouldUseNewValue :: "stateMergeStrategy \<Rightarrow> stateMergeContext \<Rightarrow> bool" where
  "shouldUseNewValue preserveStateStrategy ctx = False"
| "shouldUseNewValue _ ctx = True"

fun setStatus :: "stateMergeStrategy \<Rightarrow> stateMergeContext \<Rightarrow> ResourceStatus" where
  "setStatus preserveStateStrategy ctx = preserveStatus ctx"
| "setStatus _ ctx = replaceStatus ctx"

definition selectStrategy :: "stateMergeContext \<Rightarrow> stateMergeStrategy" where
  "selectStrategy ctx =
     (if \<not> isSameCycle ctx then differentCycleStrategy
      else if LastReportedAt (status_of (rd_Status (existing ctx)) (mc_key ctx)) = None
      then firstReportStrategy
      else (case newValue ctx of
              JObj m \<Rightarrow> if isDemandedState m then demandedStateStrategy else preserveStateStrategy
            | _ \<Rightarrow> preserveStateStrategy))"

definition mergeCtx :: "Data \<Rightarrow> Data \<Rightarrow> bool \<Rightarrow> Time \<Rightarrow> string \<Rightarrow> json \<Rightarrow> stateMergeContext" where
  "mergeCtx ex data same now k v =
     \<lparr>mc_key = k, newValue = v, existing = ex, incomingStatus = rd_Status data, isSameCycle = same,
      mc_now = now\<rparr>"

text \<open>The reported keys: the merged value (absent if there is nothing to preserve) and status.\<close>

definition mergeReported :: "Data \<Rightarrow> Data \<Rightarrow> bool \<Rightarrow> Time \<Rightarrow> string \<Rightarrow> json \<Rightarrow> json option \<times> ResourceStatus" where
  "mergeReported ex data same now k v =
     (let ctx = mergeCtx ex data same now k v; strategy = selectStrategy ctx
      in (if shouldUseNewValue strategy ctx then Some v else map_of (rd_State ex) k,
          setStatus strategy ctx))"

text \<open>A key that was not reported: kept with its status, kept with a higher stale count, or evicted.\<close>

definition handleStale :: "Data \<Rightarrow> int \<Rightarrow> bool \<Rightarrow> string \<Rightarrow> ResourceStatus option" where
  "handleStale ex maxStaleCount same k =
     (let status = status_of (rd_Status ex) k in
      if same \<and> LastReportedAt status \<noteq> None then Some status
      else (let staleCount = StaleCount status + 1
            in if staleCount \<ge> maxStaleCount then None
               else Some \<lparr>StaleCount = staleCount, LastReportedAt = None\<rparr>))"

definition staleKeys :: "Data \<Rightarrow> Data \<Rightarrow> (string \<times> json) list" where
  "staleKeys ex data = filter (\<lambda>(k, v). map_of (rd_State data) k = None) (rd_State ex)"

definition mergedState :: "Data \<Rightarrow> Data \<Rightarrow> int \<Rightarrow> bool \<Rightarrow> Time \<Rightarrow> (string \<times> json) list" where
  "mergedState ex data maxStaleCount same now =
     List.map_filter (\<lambda>(k, v). map_option (Pair k) (fst (mergeReported ex data same now k v))) (rd_State data)
     @ filter (\<lambda>(k, v). handleStale ex maxStaleCount same k \<noteq> None) (staleKeys ex data)"

definition mergedStatus :: "Data \<Rightarrow> Data \<Rightarrow> int \<Rightarrow> bool \<Rightarrow> Time \<Rightarrow> (string \<times> ResourceStatus) list" where
  "mergedStatus ex data maxStaleCount same now =
     map (\<lambda>(k, v). (k, snd (mergeReported ex data same now k v))) (rd_State data)
     @ List.map_filter (\<lambda>(k, v). map_option (Pair k) (handleStale ex maxStaleCount same k)) (staleKeys ex data)"

definition withReports :: "Time \<Rightarrow> Data \<Rightarrow> Data" where
  "withReports now data =
     data\<lparr>CapturedAt := Some now,
       rd_Status := rd_Status data @
         List.map_filter (\<lambda>(k, v). if map_of (rd_Status data) k = None
            then Some (k, \<lparr>StaleCount = 0, LastReportedAt = Some now\<rparr>) else None) (rd_State data)\<rparr>"

definition SaveState :: "cm_api \<Rightarrow> Time \<Rightarrow> string \<Rightarrow> string \<Rightarrow> Data \<Rightarrow> int \<Rightarrow> string \<Rightarrow> store \<Rightarrow>
    go_error option \<times> store" where
  "SaveState api now planName targetName data0 maxStaleCount cycleID st =
     (case Load api targetName st of
        Inl e \<Rightarrow> (Some (Wrap ''load existing restore data: '' e), st)
      | Inr ex \<Rightarrow>
          (let data = withReports now data0 in
           case ex of
             None \<Rightarrow> Save api planName targetName (data\<lparr>CycleID := cycleID\<rparr>) st
           | Some old \<Rightarrow>
               if CycleID old = cycleID \<and> rd_State data = [] then (None, st)
               else
                 (let same = (CycleID old = cycleID) in
                  Save api planName targetName
                    (data\<lparr>IsLive := True, CycleID := cycleID, CreatedAt := CreatedAt old,
                       rd_State := mergedState old data maxStaleCount same now,
                       rd_Status := mergedStatus old data maxStaleCount same now\<rparr>) st)))"


section \<open>Facts about the store\<close>

lemma dataKey_inj [simp]: "dataKey a = dataKey b \<longleftrightarrow> a = b"
  by (simp add: dataKey_def)

lemma Unmarshal_Marshal: "\<exists>d'. Unmarshal (Marshal d) = Some d' \<and> rd_State d' = rd_State d \<and>
    IsLive d' = IsLive d \<and> CycleID d' = CycleID d \<and> rd_Target d' = rd_Target d \<and>
    map fst (rd_Status d') = map fst (rd_Status d)"
  by (auto simp: Unmarshal_def Marshal_def)

lemma Load_update:
  assumes "get_err api = None"
  shows "Load api t (Some (cm\<lparr>cm_Data := AList.update (dataKey u) b (cm_Data cm)\<rparr>)) =
    (if t = u then (case Unmarshal b of
        None \<Rightarrow> Inl (Wrap ''unmarshal restore data: '' (ErrMsg ''invalid JSON'')) | Some d \<Rightarrow> Inr (Some d))
     else Load api t (Some cm))"
  using assms by (simp add: Load_def cm_get_def AList.update_conv)

lemma Load_fresh: "get_err api = None \<Longrightarrow> Load api t (Some (newConfigMap p)) = Inr None"
  by (simp add: Load_def cm_get_def newConfigMap_def)

lemma Load_absent: "get_err api = None \<Longrightarrow> Load api t None = Inr None"
  by (simp add: Load_def cm_get_def)

lemma Save_store:
  assumes "Save api p t d st = (None, st')" "get_err api = None"
  shows "st' = Some ((case st of None \<Rightarrow> newConfigMap p | Some cm \<Rightarrow> cm)
      \<lparr>cm_Data := AList.update (dataKey t) (Marshal d)
         (cm_Data (case st of None \<Rightarrow> newConfigMap p | Some cm \<Rightarrow> cm))\<rparr>)"
  using assms by (cases st) (auto simp: Save_def cm_get_def cm_write_def Let_def split: if_splits option.splits)

lemma Save_Load_other:
  assumes "Save api p t d st = (None, st')" "get_err api = None"
  shows "Load api u st' = (if u = t then Inr (Unmarshal (Marshal d)) else Load api u st)"
proof -
  obtain d' where "Unmarshal (Marshal d) = Some d'" using Unmarshal_Marshal by blast
  then show ?thesis
    using Save_store [OF assms] assms(2)
    by (cases st) (simp_all add: Load_update Load_fresh Load_absent)
qed

text \<open>
  What is saved for a target is what is loaded for it (up to the truncation of times to
  seconds), and saving one target never changes what is loaded for another.
\<close>

lemma Save_Load:
  assumes "Save api planName targetName data st = (None, st')" "get_err api = None"
  shows "Load api targetName st' = Inr (Unmarshal (Marshal data)) \<and>
    (\<exists>d. Unmarshal (Marshal data) = Some d \<and> rd_State d = rd_State data \<and> IsLive d = IsLive data \<and>
       CycleID d = CycleID data) \<and>
    (other = targetName \<or> Load api other st' = Load api other st)"
  using Save_Load_other [OF assms] Unmarshal_Marshal [of data] by auto

definition okApi :: cm_api where
  "okApi = \<lparr>get_err = None, create_err = None, update_err = None, patch_err = None, json_size = (\<lambda>_. 0)\<rparr>"

lemma Save_Load_witness:
  "\<exists>st'. Save okApi ''p'' ''db'' zeroData None = (None, st') \<and>
     Load okApi ''db'' st' = Inr (Unmarshal (Marshal zeroData)) \<and> Load okApi ''eks'' st' = Inr None"
proof -
  obtain st' where s: "Save okApi ''p'' ''db'' zeroData None = (None, st')"
    by (simp add: Save_def okApi_def cm_get_def cm_write_def Let_def)
  then show ?thesis
    using Save_Load [OF s, of "''eks''"] by (auto simp: okApi_def Load_absent)
qed

section \<open>Merging reports\<close>

text \<open>The contract every merge strategy keeps: the resource counts as reported afterwards.\<close>

locale merge_strategy =
  fixes use_new :: "stateMergeContext \<Rightarrow> bool" and set_status :: "stateMergeContext \<Rightarrow> ResourceStatus"
  assumes reported: "LastReportedAt (set_status ctx) \<noteq> None"
    and fresh_count: "use_new ctx \<Longrightarrow> StaleCount (set_status ctx) = 0"
begin

lemma never_first_again:
  "isSameCycle ctx' \<Longrightarrow>
    status_of (rd_Status (existing ctx')) (mc_key ctx') = set_status ctx \<Longrightarrow>
    selectStrategy ctx' \<noteq> firstReportStrategy"
  using reported [of ctx] by (auto simp: selectStrategy_def split: json.splits)

end

interpretation different_cycle: merge_strategy
  "shouldUseNewValue differentCycleStrategy" "setStatus differentCycleStrategy"
  by unfold_locales (simp_all add: replaceStatus_def)

interpretation first_report: merge_strategy
  "shouldUseNewValue firstReportStrategy" "setStatus firstReportStrategy"
  by unfold_locales (simp_all add: replaceStatus_def)

interpretation demanded_state: merge_strategy
  "shouldUseNewValue demandedStateStrategy" "setStatus demandedStateStrategy"
  by unfold_locales (simp_all add: replaceStatus_def)

interpretation preserve_state: merge_strategy
  "shouldUseNewValue preserveStateStrategy" "setStatus preserveStateStrategy"
  by unfold_locales (simp_all add: preserveStatus_def Let_def split: option.splits)

definition demanded :: "json \<Rightarrow> bool" where
  "demanded v = (case v of JObj m \<Rightarrow> isDemandedState m | _ \<Rightarrow> False)"

definition was_reported :: "Data \<Rightarrow> string \<Rightarrow> bool" where
  "was_reported d k \<longleftrightarrow> LastReportedAt (status_of (rd_Status d) k) \<noteq> None"

text \<open>The rules of the merge, as one table over the key.\<close>

definition merged_value :: "Data \<Rightarrow> (string \<times> json) list \<Rightarrow> int \<Rightarrow> bool \<Rightarrow> string \<Rightarrow> json option" where
  "merged_value old new maxStaleCount same k =
     (case map_of new k of
        Some v \<Rightarrow> if same \<and> was_reported old k \<and> \<not> demanded v then map_of (rd_State old) k else Some v
      | None \<Rightarrow>
          if same \<and> was_reported old k \<or> StaleCount (status_of (rd_Status old) k) + 1 < maxStaleCount
          then map_of (rd_State old) k else None)"

lemma map_of_map_filter:
  "distinct (map fst xs) \<Longrightarrow> map_of (List.map_filter (\<lambda>(k, v). map_option (Pair k) (f k v)) xs) k =
     (case map_of xs k of None \<Rightarrow> None | Some v \<Rightarrow> f k v)"
proof (induction xs)
  case (Cons x xs)
  obtain k' v where x: "x = (k', v)" by (cases x)
  have "k' = k \<Longrightarrow> map_of xs k = None" using Cons.prems x by (auto simp: map_of_eq_None_iff)
  then show ?case using Cons x by (auto simp: List.map_filter_def split: option.splits)
qed (simp add: List.map_filter_def)

lemma map_of_filter_key: "map_of (filter (\<lambda>(k, v). P k) xs) k = (if P k then map_of xs k else None)"
  by (induction xs) auto

lemma mergedState_value:
  assumes "distinct (map fst (rd_State data))"
  shows "map_of (mergedState old data m same now) k = merged_value old (rd_State data) m same k"
proof -
  let ?f = "\<lambda>k v. fst (mergeReported old data same now k v)"
  have f: "?f k v = (if same \<and> was_reported old k \<and> \<not> demanded v then map_of (rd_State old) k else Some v)" for v
    by (auto simp: mergeReported_def Let_def selectStrategy_def mergeCtx_def was_reported_def demanded_def
        split: json.splits)
  have st: "handleStale old m same k \<noteq> None \<longleftrightarrow>
      same \<and> was_reported old k \<or> StaleCount (status_of (rd_Status old) k) + 1 < m"
    by (auto simp: handleStale_def was_reported_def Let_def)
  have rep: "map_of (List.map_filter (\<lambda>(k, v). map_option (Pair k) (?f k v)) (rd_State data)) k =
      (case map_of (rd_State data) k of None \<Rightarrow> None | Some v \<Rightarrow> ?f k v)"
    by (rule map_of_map_filter [OF assms])
  have stale: "map_of (filter (\<lambda>(k, v). handleStale old m same k \<noteq> None) (staleKeys old data)) k =
      (if map_of (rd_State data) k = None \<and> handleStale old m same k \<noteq> None then map_of (rd_State old) k else None)"
    unfolding staleKeys_def by (subst map_of_filter_key, subst map_of_filter_key) auto
  show ?thesis
  proof (cases "map_of (rd_State data) k")
    case None
    then show ?thesis
      using rep stale st by (simp add: mergedState_def map_add_def merged_value_def)
  next
    case (Some v)
    then show ?thesis
      using rep stale f by (auto simp: mergedState_def map_add_def merged_value_def split: option.splits)
  qed
qed

text \<open>
  C18.  Saving reported state over existing restore data follows the merge rules key by key.  In
  the same cycle a value that was already reported is kept unless the new one records a running
  or scaled resource; otherwise the new value is taken.  A key that is not reported is kept
  while it was reported in the same cycle or its stale count stays below the limit, and evicted
  otherwise.  The merged document is live and belongs to the new cycle.
\<close>

theorem SaveState_merges:
  assumes "SaveState api now planName targetName data maxStaleCount cycleID st = (None, st')"
    and "get_err api = None" "Load api targetName st = Inr (Some old)"
    and "distinct (map fst (rd_State data))" "CycleID old \<noteq> cycleID \<or> rd_State data \<noteq> []"
  shows "\<exists>d. Load api targetName st' = Inr (Some d) \<and> IsLive d \<and> CycleID d = cycleID \<and>
    (\<forall>k. map_of (rd_State d) k =
       merged_value old (rd_State data) maxStaleCount (CycleID old = cycleID) k)"
proof -
  let ?data = "withReports now data" and ?same = "CycleID old = cycleID"
  let ?m = "?data\<lparr>IsLive := True, CycleID := cycleID, CreatedAt := CreatedAt old,
      rd_State := mergedState old ?data maxStaleCount ?same now,
      rd_Status := mergedStatus old ?data maxStaleCount ?same now\<rparr>"
  have st: "rd_State ?data = rd_State data" by (simp add: withReports_def)
  have "Save api planName targetName ?m st = (None, st')"
    using assms(1,3,5) st by (auto simp: SaveState_def Let_def split: if_splits)
  then have "Load api targetName st' = Inr (Unmarshal (Marshal ?m))"
    using Save_Load_other [OF _ assms(2)] by simp
  moreover obtain d where "Unmarshal (Marshal ?m) = Some d" "rd_State d = rd_State ?m"
     "IsLive d = IsLive ?m" "CycleID d = CycleID ?m" using Unmarshal_Marshal [of ?m] by blast
  moreover have "map_of (rd_State ?m) k = merged_value old (rd_State data) maxStaleCount ?same k" for k
    using mergedState_value [of ?data old maxStaleCount ?same now k] assms(4) st by simp
  ultimately show ?thesis by simp
qed

definition sampleOld :: Data where
  "sampleOld = zeroData\<lparr>CycleID := ''c1'', IsLive := True,
     rd_State := [(''i-1'', JObj [(''wasRunning'', JBool True)]), (''i-2'', JObj [])],
     rd_Status := [(''i-1'', \<lparr>StaleCount = 0, LastReportedAt = Some \<lparr>t_ns = Hour, t_loc = UTC\<rparr>\<rparr>),
                   (''i-2'', \<lparr>StaleCount = 2, LastReportedAt = None\<rparr>)]\<rparr>"

text \<open>
  In the same cycle a second report of a stopped instance keeps the first one, and an instance
  that has been missing for the third time is forgotten.
\<close>

lemma SaveState_merges_witness:
  "\<exists>st' d. SaveState okApi \<lparr>t_ns = 2 * Hour, t_loc = UTC\<rparr> ''p'' ''ec2''
      (zeroData\<lparr>rd_State := [(''i-1'', JObj [(''wasRunning'', JBool False)])]\<rparr>) 3 ''c1''
      (Some ((newConfigMap ''p'')\<lparr>cm_Data := [(dataKey ''ec2'', Encoded sampleOld)]\<rparr>)) = (None, st') \<and>
    Load okApi ''ec2'' st' = Inr (Some d) \<and> IsLive d \<and>
    map_of (rd_State d) ''i-1'' = Some (JObj [(''wasRunning'', JBool True)]) \<and>
    map_of (rd_State d) ''i-2'' = None"
proof -
  let ?now = "\<lparr>t_ns = 2 * Hour, t_loc = UTC\<rparr>"
  let ?data = "zeroData\<lparr>rd_State := [(''i-1'', JObj [(''wasRunning'', JBool False)])]\<rparr>"
  let ?st = "Some ((newConfigMap ''p'')\<lparr>cm_Data := [(dataKey ''ec2'', Encoded sampleOld)]\<rparr>)"
  have load: "Load okApi ''ec2'' ?st = Inr (Some sampleOld)"
    by (simp add: Load_def okApi_def cm_get_def Unmarshal_def)
  then obtain st' where st': "SaveState okApi ?now ''p'' ''ec2'' ?data 3 ''c1'' ?st = (None, st')"
    by (simp add: SaveState_def Let_def Save_def okApi_def cm_get_def cm_write_def withReports_def)
  obtain d where "Load okApi ''ec2'' st' = Inr (Some d)" "IsLive d"
    "\<forall>k. map_of (rd_State d) k = merged_value sampleOld (rd_State ?data) 3 (CycleID sampleOld = ''c1'') k"
    using SaveState_merges [OF st' _ load] by (auto simp: okApi_def)
  then show ?thesis
    using st' by (auto simp: merged_value_def sampleOld_def was_reported_def status_of_def
        lookup_default_def demanded_def isDemandedState_def jsonTrue_def)
qed

section \<open>Completing a cycle\<close>

text \<open>
  A plan has restore data as soon as its ConfigMap holds any decodable document: whether a
  document is live does not matter.
\<close>

lemma HasRestoreData_ignores_liveness:
  assumes "get_err api = None" "list_all (\<lambda>(k, v). Unmarshal v \<noteq> None) (cm_Data cm)"
  shows "HasRestoreData api (Some cm) = Inr (cm_Data cm \<noteq> [])"
proof -
  have "list_all (\<lambda>(k, v). Unmarshal v \<noteq> None) xs \<Longrightarrow> scanLive xs = None \<or> scanLive xs = Some True \<and> xs \<noteq> []" for xs
    by (induction xs rule: scanLive.induct) (auto split: option.splits)
  then show ?thesis using assms by (fastforce simp: HasRestoreData_def cm_get_def split: option.splits)
qed

lemma HasRestoreData_ignores_liveness_witness:
  "HasRestoreData okApi (Some ((newConfigMap ''p'')\<lparr>cm_Data := [(''db.json'', Encoded zeroData)]\<rparr>)) = Inr True \<and>
   \<not> IsLive zeroData"
  using HasRestoreData_ignores_liveness
    [of okApi "(newConfigMap ''p'')\<lparr>cm_Data := [(''db.json'', Encoded zeroData)]\<rparr>"]
  by (simp add: okApi_def Unmarshal_def zeroData_def)

lemma isRestoredKey_prefix: "isRestoredKey (AnnotationRestoredPrefix @ t) \<longleftrightarrow> t \<noteq> ''''"
  by (simp add: isRestoredKey_def)

text \<open>
  Unlocking releases the cycle: afterwards no target counts as restored, and no decodable
  document carries a cycle ID, so that the next hibernation starts a new cycle; the recorded
  state of every document is kept.
\<close>

lemma UnlockRestoreData_releases:
  assumes "UnlockRestoreData api (Some cm) = (None, st')" "get_err api = None" "target \<noteq> ''''"
  shows "MarkAllTargetsRestored api [target] st' = Inr False \<and>
    (case Load api target st' of
       Inr (Some d) \<Rightarrow> CycleID d = '''' \<and>
         (\<exists>old. Load api target (Some cm) = Inr (Some old) \<and> rd_State d = rd_State old \<and> IsLive d = IsLive old)
     | r \<Rightarrow> r = Load api target (Some cm))"
proof -
  let ?g = "\<lambda>v. case Unmarshal v of None \<Rightarrow> v
      | Some d \<Rightarrow> if CycleID d \<noteq> '''' then Marshal (d\<lparr>CycleID := ''''\<rparr>) else v"
  have st': "st' = Some (cm\<lparr>cm_Annotations := (\<lambda>k. if isRestoredKey k then None else cm_Annotations cm k),
      cm_Data := map (\<lambda>(k, v). (k, ?g v)) (cm_Data cm)\<rparr>)"
    using assms(1,2) by (auto simp: UnlockRestoreData_def cm_get_def cm_write_def split: option.splits)
  have m: "map_of (map (\<lambda>(k, v). (k, ?g v)) (cm_Data cm)) k = map_option ?g (map_of (cm_Data cm) k)" for k
    by (simp add: map_of_map)
  have "MarkAllTargetsRestored api [target] st' = Inr False"
    using assms(2,3) by (simp add: st' MarkAllTargetsRestored_def cm_get_def get_str_def isRestoredKey_prefix)
  moreover have "case Load api target st' of
       Inr (Some d) \<Rightarrow> CycleID d = '''' \<and>
         (\<exists>old. Load api target (Some cm) = Inr (Some old) \<and> rd_State d = rd_State old \<and> IsLive d = IsLive old)
     | r \<Rightarrow> r = Load api target (Some cm)"
  proof (cases "map_of (cm_Data cm) (dataKey target)")
    case (Some b)
    then show ?thesis
      using assms(2) m Unmarshal_Marshal
      by (cases b) (auto simp: st' Load_def cm_get_def Unmarshal_def Marshal_def)
  qed (use assms(2) m in \<open>simp add: st' Load_def cm_get_def\<close>)
  ultimately show ?thesis by blast
qed

lemma UnlockRestoreData_releases_witness:
  "\<exists>st'. UnlockRestoreData okApi (Some ((newConfigMap ''p'')\<lparr>cm_Data := [(dataKey ''ec2'', Encoded sampleOld)]\<rparr>))
      = (None, st') \<and> MarkAllTargetsRestored okApi [''ec2''] st' = Inr False"
proof -
  let ?cm = "(newConfigMap ''p'')\<lparr>cm_Data := [(dataKey ''ec2'', Encoded sampleOld)]\<rparr>"
  obtain st' where s: "UnlockRestoreData okApi (Some ?cm) = (None, st')"
    by (simp add: UnlockRestoreData_def okApi_def cm_get_def cm_write_def)
  then show ?thesis using UnlockRestoreData_releases [OF s, of "''ec2''"] by (auto simp: okApi_def)
qed

end
