(* ===== verification/Recovery.thy ===== *)
theory Recovery
  imports ApiTypes
begin

text \<open>
  Error classification and retry policy (\<^verbatim>\<open>internal/recovery/recovery.go\<close>).  Whether an error
  carries an AWS API error code is decided by third-party code, so \<open>apiErrorCode\<close> (the effect
  of \<open>errors.As\<close> with a \<open>smithy.APIError\<close> target) is a parameter.
\<close>

datatype ErrorClassification = ErrorTransient | ErrorPermanent | ErrorExecutionFailed | ErrorUnknown

record ErrorRecoveryStrategy =
  ShouldRetry :: bool
  RetryAfter :: duration
  Classification :: ErrorClassification
  Reason :: string

definition transientAWSErrorCodes :: "string list" where
  "transientAWSErrorCodes = [''Throttling'', ''RequestLimitExceeded'', ''ServiceUnavailable'',
     ''InternalError'', ''RequestTimeout'', ''ProvisionedThroughputExceededException'']"

definition permanentAWSErrorCodes :: "string list" where
  "permanentAWSErrorCodes = [''ResourceNotFoundException'', ''ValidationException'',
     ''InvalidParameterException'', ''AccessDeniedException'', ''UnauthorizedException'',
     ''ResourceAlreadyExistsException'']"

definition executionFailedPatterns :: "string list" where
  "executionFailedPatterns = [''one or more targets in stage'', ''failed to rebuild execution plan'',
     ''failed to create job'', ''cannot execute stage'']"

definition transientPatterns :: "string list" where
  "transientPatterns = [''timeout'', ''connection refused'', ''temporary failure'', ''rate limit'',
     ''throttling'', ''service unavailable'', ''too many requests'', ''deadline exceeded'']"

definition permanentPatterns :: "string list" where
  "permanentPatterns = [''not found'', ''already exists'', ''invalid'', ''forbidden'',
     ''unauthorized'', ''permission denied'']"

definition classifyMessage :: "string \<Rightarrow> ErrorClassification" where
  "classifyMessage errMsg =
     (if list_ex (str_contains errMsg) executionFailedPatterns then ErrorExecutionFailed
      else if list_ex (str_contains errMsg) transientPatterns then ErrorTransient
      else if list_ex (str_contains errMsg) permanentPatterns then ErrorPermanent
      else ErrorUnknown)"

definition ClassifyError :: "(go_error \<Rightarrow> string option) \<Rightarrow> go_error option \<Rightarrow> ErrorClassification" where
  "ClassifyError apiErrorCode err =
     (case err of
        None \<Rightarrow> ErrorUnknown
      | Some e \<Rightarrow>
          (case apiErrorCode e of
             Some code \<Rightarrow>
               (if code \<in> set transientAWSErrorCodes then ErrorTransient
                else if code \<in> set permanentAWSErrorCodes then ErrorPermanent
                else classifyMessage (ToLower (err_text e)))
           | None \<Rightarrow> classifyMessage (ToLower (err_text e))))"

definition maxBackoff :: duration where "maxBackoff = 30 * Minute"
definition baseBackoff :: duration where "baseBackoff = 60 * Second"

fun backoffLoop :: "nat \<Rightarrow> int \<Rightarrow> duration" where
  "backoffLoop 0 multiplier =
     (let backoff = wrap64 (multiplier * baseBackoff)
      in if backoff > maxBackoff then maxBackoff else backoff)"
| "backoffLoop (Suc i) multiplier =
     (let m = wrap64 (multiplier * 2)
      in if wrap64 (m * baseBackoff) \<ge> maxBackoff then maxBackoff else backoffLoop i m)"

definition CalculateBackoff :: "int \<Rightarrow> duration" where
  "CalculateBackoff attempt = backoffLoop (nat attempt) 1"

definition maxRetriesOf :: "HibernatePlan \<Rightarrow> int" where
  "maxRetriesOf plan =
     (case Retries (sp_Behavior (Spec plan)) of None \<Rightarrow> DefaultRecoveryMaxRetryAttempts | Some r \<Rightarrow> r)"

definition DetermineRecoveryStrategy ::
    "(go_error \<Rightarrow> string option) \<Rightarrow> HibernatePlan \<Rightarrow> Time \<Rightarrow> go_error option \<Rightarrow> ErrorRecoveryStrategy" where
  "DetermineRecoveryStrategy apiErrorCode plan now err =
     (let classification = ClassifyError apiErrorCode err;
          maxRetries = maxRetriesOf plan;
          count = RetryCount (Status plan);
          attempt = show_int (wrap32 (count + 1)) @ ''/'' @ show_int maxRetries @ '')''
      in if count \<ge> maxRetries then
           \<lparr>ShouldRetry = False, RetryAfter = 0, Classification = classification,
            Reason = ''max retries ('' @ show_int maxRetries @ '') exceeded''\<rparr>
         else if classification = ErrorPermanent then
           \<lparr>ShouldRetry = False, RetryAfter = 0, Classification = classification,
            Reason = ''error classified as permanent''\<rparr>
         else
           (let backoff = CalculateBackoff count;
                ready = \<lparr>ShouldRetry = True, RetryAfter = 0, Classification = classification,
                  Reason = ''retrying from previous error: '' @
                    (case err of None \<Rightarrow> ''<nil>'' | Some e \<Rightarrow> err_text e) @ '' (attempt '' @ attempt\<rparr>
            in case LastRetryTime (Status plan) of
                 None \<Rightarrow> ready
               | Some t \<Rightarrow>
                   (let elapsed = SubTime now t in
                    if elapsed < backoff then
                      \<lparr>ShouldRetry = True, RetryAfter = wrap64 (backoff - elapsed),
                       Classification = classification,
                       Reason = ''waiting for backoff (attempt '' @ attempt\<rparr>
                    else ready)))"

text \<open>\<open>RecordRetryAttempt\<close> mutates the plan and says whether the attempt was recorded.\<close>

definition RecordRetryAttempt :: "HibernatePlan \<Rightarrow> Time \<Rightarrow> go_error option \<Rightarrow> bool \<times> HibernatePlan" where
  "RecordRetryAttempt plan now err =
     (let st = Status plan;
          recorded = (True, plan\<lparr>Status := st\<lparr>RetryCount := wrap32 (RetryCount st + 1),
             LastRetryTime := Some now,
             ErrorMessage := (case err of Some e \<Rightarrow> err_text e | None \<Rightarrow> ''unknown error'')\<rparr>\<rparr>)
      in case LastRetryTime st of
           None \<Rightarrow> recorded
         | Some t \<Rightarrow>
             if SubTime now t < 5 * Second
             then (False, case err of Some e \<Rightarrow> plan\<lparr>Status := st\<lparr>ErrorMessage := err_text e\<rparr>\<rparr>
                          | None \<Rightarrow> plan)
             else recorded)"

definition ResetRetryState :: "HibernatePlan \<Rightarrow> HibernatePlan" where
  "ResetRetryState plan =
     plan\<lparr>Status := (Status plan)\<lparr>RetryCount := 0, LastRetryTime := None, ErrorMessage := ''''\<rparr>\<rparr>"

section \<open>Backoff\<close>

lemma backoffLoop_small:
  assumes "0 < m" "m * 60 * Second < maxBackoff"
  shows "backoffLoop n m = min (m * 2 ^ n * baseBackoff) maxBackoff"
  using assms
proof (induction n arbitrary: m)
  case 0
  then show ?case by (simp add: baseBackoff_def maxBackoff_def wrap64_id min_def)
next
  case (Suc n)
  have w: "wrap64 (m * 2) = m * 2" "wrap64 (m * 2 * baseBackoff) = m * 2 * baseBackoff"
    using Suc.prems by (simp_all add: wrap64_id baseBackoff_def maxBackoff_def)
  show ?case
  proof (cases "m * 2 * baseBackoff \<ge> maxBackoff")
    case True
    have "m * 2 * baseBackoff \<le> m * 2 * 2 ^ n * baseBackoff"
      using Suc.prems by (simp add: baseBackoff_def)
    then show ?thesis using True w by (simp add: min_def algebra_simps)
  next
    case False
    then show ?thesis
      using Suc.IH [of "m * 2"] Suc.prems w by (simp add: baseBackoff_def algebra_simps)
  qed
qed

text \<open>
  The backoff after any number of attempts is one minute doubled per attempt, capped at
  thirty minutes, for every \<open>int32\<close> count, negative ones included; the 64-bit product never
  overflows on the way.
\<close>

lemma CalculateBackoff_eq: "CalculateBackoff attempt = min (2 ^ nat attempt * Minute) (30 * Minute)"
  using backoffLoop_small [of 1 "nat attempt"]
  by (simp add: CalculateBackoff_def baseBackoff_def maxBackoff_def)

lemma CalculateBackoff_bounds: "Minute \<le> CalculateBackoff attempt \<and> CalculateBackoff attempt \<le> 30 * Minute"
  using backoffLoop_small [of 1 "nat attempt"]
  by (simp add: CalculateBackoff_def baseBackoff_def maxBackoff_def)

section \<open>The decision\<close>

text \<open>
  A failed plan is retried exactly when its retry budget is not used up and its error is
  not classified as permanent.  If it is retried, the wait is what remains of the backoff since
  the last attempt, so it is positive exactly while the backoff is running and never longer than
  thirty minutes (for a last attempt that is not in the future).
\<close>

lemma DetermineRecoveryStrategy_spec:
  "let s = DetermineRecoveryStrategy code plan now err in
    (ShouldRetry s \<longleftrightarrow> RetryCount (Status plan) < maxRetriesOf plan \<and>
       ClassifyError code err \<noteq> ErrorPermanent) \<and>
    (case LastRetryTime (Status plan) of
       None \<Rightarrow> RetryAfter s = 0
     | Some t \<Rightarrow> t_ns now < t_ns t \<or>
         RetryAfter s = (if ShouldRetry s
           then max 0 (CalculateBackoff (RetryCount (Status plan)) - (t_ns now - t_ns t)) else 0) \<and>
         0 \<le> RetryAfter s \<and> RetryAfter s \<le> 30 * Minute)"
proof -
  let ?b = "CalculateBackoff (RetryCount (Status plan))"
  note b = CalculateBackoff_bounds [of "RetryCount (Status plan)", THEN conjunct1]
    CalculateBackoff_bounds [of "RetryCount (Status plan)", THEN conjunct2]
  have sub: "SubTime now t < ?b \<longleftrightarrow> t_ns now - t_ns t < ?b"
    "t_ns now - t_ns t < ?b \<Longrightarrow> SubTime now t = t_ns now - t_ns t"
    if "t_ns t \<le> t_ns now" for t
    using that b by (auto simp: SubTime_def sat64_def min_def)
  show ?thesis
  proof (cases "LastRetryTime (Status plan)")
    case None
    then show ?thesis by (auto simp: DetermineRecoveryStrategy_def Let_def)
  next
    case (Some t)
    show ?thesis
    proof (cases "t_ns t \<le> t_ns now")
      case True
      then show ?thesis
        using Some b sub [OF True] by (auto simp: DetermineRecoveryStrategy_def Let_def wrap64_id max_def)
    qed (use Some in \<open>auto simp: DetermineRecoveryStrategy_def Let_def\<close>)
  qed
qed

section \<open>What the classification sees\<close>

text \<open>
  The failure message of a strict stage lists the failed targets.  It contains none of the
  execution-failure patterns, so the verdict depends on the target names alone.
\<close>

definition stageFailedMessage :: "string list \<Rightarrow> string" where
  "stageFailedMessage failed = ''one or more targets failed: '' @ join '', '' failed"

text \<open>
  A plan that stopped because of a failed target is retried automatically unless the name
  of a failed target happens to contain one of the words that mark permanent errors: the message
  of a strict stage with the single failed target "db" is of unknown class, the one with
  "invalid-test-db" is permanent, and neither is classified as an execution failure.
\<close>

lemma stage_failure_classification:
  "ClassifyError (\<lambda>_. None) (Some (ErrMsg (stageFailedMessage [''db'']))) = ErrorUnknown \<and>
   ClassifyError (\<lambda>_. None) (Some (ErrMsg (stageFailedMessage [''invalid-test-db'']))) = ErrorPermanent"
  by code_simp

end
