(* ===== verification/Slots.thy ===== *)
theory Slots
  imports Prelude
begin

text \<open>
  Delivery slots (\<^verbatim>\<open>pkg/keyedworker/slot.go\<close>, \<^verbatim>\<open>pkg/conflate/conflate.go\<close>): the bounded
  first-in-first-out slot of the status writers and the latest-wins slot of the plan workers.
  First each call as one atomic operation, with the interface as a locale; then the first-in-
  first-out slot again with the separate channel operations of concurrent senders and a receiver.
\<close>

section \<open>The two slots\<close>

record 'v fifoSlot =
  queue :: "'v list"
  bufSize :: nat
  signal :: bool

definition FIFOSlot :: "nat \<Rightarrow> 'v fifoSlot" where
  "FIFOSlot n = \<lparr>queue = [], bufSize = n, signal = False\<rparr>"

definition fifo_Send :: "'v \<Rightarrow> 'v fifoSlot \<Rightarrow> 'v fifoSlot" where
  "fifo_Send v s =
     (if length (queue s) < bufSize s then s\<lparr>queue := queue s @ [v], signal := True\<rparr> else s)"

text \<open>\<open>Recv\<close> takes the head of the queue and re-arms the signal if more is waiting; \<open>None\<close>: it blocks.\<close>

definition fifo_Recv :: "'v fifoSlot \<Rightarrow> ('v \<times> 'v fifoSlot) option" where
  "fifo_Recv s =
     (case queue s of
        [] \<Rightarrow> None
      | v # q \<Rightarrow> Some (v, s\<lparr>queue := q, signal := (if q \<noteq> [] then True else signal s)\<rparr>))"

definition fifo_Len :: "'v fifoSlot \<Rightarrow> nat" where
  "fifo_Len s = length (queue s)"

definition fifo_Drain :: "'v fifoSlot \<Rightarrow> 'v fifoSlot" where
  "fifo_Drain s = s\<lparr>queue := [], signal := False\<rparr>"

text \<open>One turn of a consumer: wait for the signal, then \<open>Recv\<close>.\<close>

definition fifo_take :: "'v fifoSlot \<Rightarrow> ('v \<times> 'v fifoSlot) option" where
  "fifo_take s = (if signal s then fifo_Recv (s\<lparr>signal := False\<rparr>) else None)"

record 'v Pipeline =
  val :: "'v option"
  ready :: bool

definition LatestWinsSlot :: "'v Pipeline" where
  "LatestWinsSlot = \<lparr>val = None, ready = False\<rparr>"

definition conflate_Send :: "'v \<Rightarrow> 'v Pipeline \<Rightarrow> 'v Pipeline" where
  "conflate_Send v p = p\<lparr>val := Some v, ready := True\<rparr>"

definition conflate_Recv :: "'v Pipeline \<Rightarrow> 'v option" where
  "conflate_Recv p = val p"

definition conflate_Len :: "'v Pipeline \<Rightarrow> nat" where
  "conflate_Len p = (if ready p then 1 else 0)"

definition conflate_Drain :: "'v Pipeline \<Rightarrow> 'v Pipeline" where
  "conflate_Drain p = p\<lparr>ready := False\<rparr>"

definition conflate_take :: "'v Pipeline \<Rightarrow> ('v \<times> 'v Pipeline) option" where
  "conflate_take p =
     (if ready p then (case conflate_Recv (p\<lparr>ready := False\<rparr>) of
                         None \<Rightarrow> None | Some v \<Rightarrow> Some (v, p\<lparr>ready := False\<rparr>))
      else None)"

text \<open>The consumer's loop, for at most \<open>n\<close> turns.\<close>

fun takes :: "('s \<Rightarrow> ('v \<times> 's) option) \<Rightarrow> nat \<Rightarrow> 's \<Rightarrow> 'v list \<times> 's" where
  "takes take_one 0 s = ([], s)"
| "takes take_one (Suc n) s =
     (case take_one s of
        None \<Rightarrow> ([], s)
      | Some (v, s') \<Rightarrow> (case takes take_one n s' of (vs, t) \<Rightarrow> (v # vs, t)))"

section \<open>The interface\<close>

locale slot =
  fixes inv :: "'s \<Rightarrow> bool" and pending :: "'s \<Rightarrow> 'v list" and send :: "'v \<Rightarrow> 's \<Rightarrow> 's"
    and take_one :: "'s \<Rightarrow> ('v \<times> 's) option" and len :: "'s \<Rightarrow> nat" and drain :: "'s \<Rightarrow> 's"
  assumes send_inv: "inv s \<Longrightarrow> inv (send v s)"
    and take_inv: "inv s \<Longrightarrow> take_one s = Some (v, s') \<Longrightarrow> inv s'"
    and drain_inv: "inv s \<Longrightarrow> inv (drain s) \<and> pending (drain s) = []"
    and len_pending: "inv s \<Longrightarrow> len s = length (pending s)"
    and take_empty: "inv s \<Longrightarrow> pending s = [] \<Longrightarrow> take_one s = None"
    and take_head: "inv s \<Longrightarrow> pending s = v # vs \<Longrightarrow> \<exists>s'. take_one s = Some (v, s') \<and> pending s' = vs"
begin

lemma takes_all: "inv s \<Longrightarrow> n \<ge> len s \<Longrightarrow> fst (takes take_one n s) = pending s \<and> pending (snd (takes take_one n s)) = []"
proof (induction n arbitrary: s)
  case (Suc n)
  show ?case
  proof (cases "pending s")
    case Nil
    then show ?thesis using Suc.prems take_empty by simp
  next
    case (Cons v vs)
    then obtain s' where s': "take_one s = Some (v, s')" "pending s' = vs" using take_head Suc.prems by blast
    moreover have "inv s'" using take_inv Suc.prems s' by blast
    moreover have "len s' \<le> n" using Suc.prems Cons s' calculation by (simp add: len_pending)
    ultimately show ?thesis using Suc.IH [of s'] Cons by (auto split: prod.splits)
  qed
qed (simp add: len_pending)

lemma sends_inv: "inv s \<Longrightarrow> inv (fold send vs s)"
  by (induction vs arbitrary: s) (auto simp: send_inv)

end

locale queue_slot = slot inv pending send take_one len drain
  for inv :: "'s \<Rightarrow> bool" and pending :: "'s \<Rightarrow> 'v list" and send :: "'v \<Rightarrow> 's \<Rightarrow> 's"
    and take_one :: "'s \<Rightarrow> ('v \<times> 's) option" and len :: "'s \<Rightarrow> nat" and drain :: "'s \<Rightarrow> 's" +
  fixes room :: "'s \<Rightarrow> nat"
  assumes send_queue: "inv s \<Longrightarrow> pending (send v s) = (if 0 < room s then pending s @ [v] else pending s)"
    and send_room: "inv s \<Longrightarrow> room (send v s) = room s - 1"
begin

lemma sends_pending: "inv s \<Longrightarrow> pending (fold send vs s) = pending s @ take (room s) vs"
proof (induction vs arbitrary: s)
  case (Cons v vs)
  then show ?case using Cons.IH [of "send v s"] by (cases "room s") (auto simp: send_inv send_queue send_room)
qed simp

text \<open>What fits is delivered in order; what does not is lost from the end, never from the front.\<close>

lemma delivered: "inv s \<Longrightarrow> pending s = [] \<Longrightarrow>
    fst (takes take_one (length vs) (fold send vs s)) = take (room s) vs"
  using takes_all [OF sends_inv, of s vs "length vs"] by (simp add: len_pending sends_inv sends_pending)

end

locale latest_slot = slot +
  assumes send_latest: "inv s \<Longrightarrow> pending (send v s) = [v]"
begin

lemma sends_latest: "inv s \<Longrightarrow> vs \<noteq> [] \<Longrightarrow> pending (fold send vs s) = [last vs]"
  by (induction vs arbitrary: s rule: rev_induct) (auto simp: send_latest sends_inv)

lemma delivered_latest:
  assumes "inv s" "vs \<noteq> []"
  shows "fst (takes take_one (length vs) (fold send vs s)) = [last vs]"
proof -
  have "len (fold send vs s) \<le> length vs"
    using assms len_pending [OF sends_inv, of s vs] by (simp add: sends_latest Suc_le_eq)
  then show ?thesis using takes_all [OF sends_inv, of s vs "length vs"] assms by (simp add: sends_latest)
qed

end

definition fifo_inv :: "'v fifoSlot \<Rightarrow> bool" where
  "fifo_inv s \<longleftrightarrow> (signal s \<longleftrightarrow> queue s \<noteq> []) \<and> length (queue s) \<le> bufSize s"

definition latest_inv :: "'v Pipeline \<Rightarrow> bool" where
  "latest_inv p \<longleftrightarrow> (ready p \<longrightarrow> val p \<noteq> None)"

definition latest_pending :: "'v Pipeline \<Rightarrow> 'v list" where
  "latest_pending p = (if ready p then [the (val p)] else [])"

interpretation fifo: queue_slot fifo_inv queue fifo_Send fifo_take fifo_Len fifo_Drain
  "\<lambda>s. bufSize s - length (queue s)"
proof unfold_locales
  fix s :: "'v fifoSlot" and v vs
  assume "fifo_inv s" "queue s = v # vs"
  then show "\<exists>s'. fifo_take s = Some (v, s') \<and> queue s' = vs"
    by (simp add: fifo_inv_def fifo_take_def fifo_Recv_def)
qed (auto simp: fifo_inv_def fifo_Send_def fifo_take_def fifo_Recv_def fifo_Len_def fifo_Drain_def
    split: list.splits if_splits)

interpretation latest: latest_slot latest_inv latest_pending conflate_Send conflate_take conflate_Len
  conflate_Drain
proof unfold_locales
  fix s :: "'v Pipeline" and v vs
  assume "latest_inv s" "latest_pending s = v # vs"
  then show "\<exists>s'. conflate_take s = Some (v, s') \<and> latest_pending s' = vs"
    by (intro exI [of _ "s\<lparr>ready := False\<rparr>"])
      (auto simp: latest_inv_def latest_pending_def conflate_take_def conflate_Recv_def split: if_splits)
qed (auto simp: latest_inv_def latest_pending_def conflate_Send_def conflate_take_def conflate_Recv_def
      conflate_Len_def conflate_Drain_def split: if_splits)

text \<open>
  A status writer's slot delivers the first updates that fit, in the order they were sent;
  when the buffer is full it is the newest updates that are dropped.
\<close>

lemma FIFOSlot_delivers:
  "fst (takes fifo_take (length vs) (fold fifo_Send vs (FIFOSlot n))) = take n vs"
  using fifo.delivered [of "FIFOSlot n" vs] by (simp add: fifo_inv_def FIFOSlot_def)

text \<open>
  A plan worker's slot delivers exactly the latest of any non-empty burst of updates, and
  nothing before it.
\<close>

lemma LatestWinsSlot_delivers:
  "fst (takes conflate_take (Suc (length vs)) (fold conflate_Send (vs @ [v]) LatestWinsSlot)) = [v]"
  using latest.delivered_latest [of LatestWinsSlot "vs @ [v]"]
  by (simp add: latest_inv_def LatestWinsSlot_def)

section \<open>Interleaved channel operations\<close>

text \<open>
  \<open>Send\<close> is two channel operations, and so is one turn of the consumer (take the signal, then
  take from the queue; \<open>Recv\<close> re-arms the signal in a third).  \<open>senders\<close> counts the goroutines
  between the two operations of \<open>Send\<close>; the consumer is idle, or holds the signal and is about
  to receive from the queue, or has received a value and not yet looked at the queue's length.
\<close>

datatype consumer = Waiting | Receiving | Rearming

record 'v slot_cfg =
  c_queue :: "'v list"
  c_cap :: nat
  c_signal :: bool
  senders :: nat
  reader :: consumer
  delivered :: "'v list"

inductive slot_step :: "'v slot_cfg \<Rightarrow> 'v slot_cfg \<Rightarrow> bool" where
  enqueue: "length (c_queue c) < c_cap c \<Longrightarrow>
     slot_step c (c\<lparr>c_queue := c_queue c @ [v], senders := Suc (senders c)\<rparr>)"
| drop_new: "length (c_queue c) = c_cap c \<Longrightarrow> slot_step c c"
| raise_signal: "senders c = Suc n \<Longrightarrow> slot_step c (c\<lparr>senders := n, c_signal := True\<rparr>)"
| wake: "reader c = Waiting \<Longrightarrow> c_signal c \<Longrightarrow> slot_step c (c\<lparr>reader := Receiving, c_signal := False\<rparr>)"
| dequeue: "reader c = Receiving \<Longrightarrow> c_queue c = v # q \<Longrightarrow>
     slot_step c (c\<lparr>reader := Rearming, c_queue := q, delivered := delivered c @ [v]\<rparr>)"
| rearm: "reader c = Rearming \<Longrightarrow>
     slot_step c (c\<lparr>reader := Waiting, c_signal := (c_signal c \<or> c_queue c \<noteq> [])\<rparr>)"

definition slot_init :: "nat \<Rightarrow> 'v slot_cfg" where
  "slot_init n = \<lparr>c_queue = [], c_cap = n, c_signal = False, senders = 0, reader = Waiting, delivered = []\<rparr>"

inductive_cases slot_stepE: "slot_step c c'"

inductive slot_reachable :: "nat \<Rightarrow> 'v slot_cfg \<Rightarrow> bool" for n where
  start: "slot_reachable n (slot_init n)"
| step: "slot_reachable n c \<Longrightarrow> slot_step c c' \<Longrightarrow> slot_reachable n c'"

text \<open>
  C39.  No wake-up is lost: whatever the interleaving of senders and consumer, a value in the
  queue is never left without a pending signal, a sender about to raise it, or a consumer on its
  way to look at the queue; and the queue never exceeds its capacity.
\<close>

theorem no_lost_wakeup:
  assumes "slot_reachable n c"
  shows "(c_queue c = [] \<or> c_signal c \<or> senders c > 0 \<or> reader c = Receiving \<or> reader c = Rearming) \<and>
    length (c_queue c) \<le> n"
proof -
  have "c_cap c = n \<and> length (c_queue c) \<le> n \<and>
    (c_queue c = [] \<or> c_signal c \<or> senders c > 0 \<or> reader c = Receiving \<or> reader c = Rearming)"
    using assms
  proof induction
    case (step c c')
    show ?case using step.hyps(2) step.IH by (cases rule: slot_step.cases) auto
  qed (simp add: slot_init_def)
  then show ?thesis by blast
qed

lemma run_send_take:
  fixes v :: 'v
  assumes "0 < n"
  shows "slot_reachable n (slot_init n :: 'v slot_cfg)"
    and "slot_reachable n ((slot_init n :: 'v slot_cfg)\<lparr>c_queue := [v], senders := 1\<rparr>)"
proof -
  show s: "slot_reachable n (slot_init n :: 'v slot_cfg)" by (rule slot_reachable.start)
  show "slot_reachable n ((slot_init n :: 'v slot_cfg)\<lparr>c_queue := [v], senders := 1\<rparr>)"
    using slot_reachable.step [OF s slot_step.enqueue [of "slot_init n" v]] assms
    by (simp add: slot_init_def)
qed

theorem no_lost_wakeup_witness:
  "c_queue ((slot_init 2)\<lparr>c_queue := [7::nat], senders := 1\<rparr>) \<noteq> [] \<and>
   senders ((slot_init 2)\<lparr>c_queue := [7::nat], senders := 1\<rparr>) > 0"
  using no_lost_wakeup [OF run_send_take(2) [of 2 "7::nat"]] by (simp add: slot_init_def)

text \<open>The blocked consumer: it has taken a signal and there is nothing to receive.\<close>

definition blocked :: "'v slot_cfg \<Rightarrow> bool" where
  "blocked c \<longleftrightarrow> reader c = Receiving \<and> c_queue c = [] \<and> senders c = 0 \<and> \<not> c_signal c"

text \<open>
  The consumer can end up blocked in \<open>Recv\<close> on an empty queue: a sender that raises the
  signal after the consumer has already received its value leaves a stale signal behind.  Only
  another send unblocks the consumer.
\<close>

lemma Recv_can_block:
  "\<exists>c :: nat slot_cfg. slot_reachable 2 c \<and> blocked c \<and> delivered c = [1, 2]"
proof -
  define c0 :: "nat slot_cfg" where "c0 = slot_init 2"
  define c1 where "c1 = c0\<lparr>c_queue := [1], senders := 1\<rparr>"
  define c2 where "c2 = c1\<lparr>senders := 0, c_signal := True\<rparr>"
  define c3 where "c3 = c2\<lparr>reader := Receiving, c_signal := False\<rparr>"
  define c4 where "c4 = c3\<lparr>c_queue := [1, 2], senders := 1\<rparr>"
  define c5 where "c5 = c4\<lparr>reader := Rearming, c_queue := [2], delivered := [1]\<rparr>"
  define c6 where "c6 = c5\<lparr>reader := Waiting, c_signal := True\<rparr>"
  define c7 where "c7 = c6\<lparr>reader := Receiving, c_signal := False\<rparr>"
  define c8 where "c8 = c7\<lparr>reader := Rearming, c_queue := [], delivered := [1, 2]\<rparr>"
  define c9 where "c9 = c8\<lparr>reader := Waiting, c_signal := False\<rparr>"
  define c10 where "c10 = c9\<lparr>senders := 0, c_signal := True\<rparr>"
  define c11 where "c11 = c10\<lparr>reader := Receiving, c_signal := False\<rparr>"
  note d = c0_def c1_def c2_def c3_def c4_def c5_def c6_def c7_def c8_def c9_def c10_def c11_def slot_init_def
  have "slot_step c0 c1" using slot_step.enqueue [of c0 1] by (simp add: d)
  moreover have "slot_step c1 c2" using slot_step.raise_signal [of c1 0] by (simp add: d)
  moreover have "slot_step c2 c3" using slot_step.wake [of c2] by (simp add: d)
  moreover have "slot_step c3 c4" using slot_step.enqueue [of c3 2] by (simp add: d)
  moreover have "slot_step c4 c5" using slot_step.dequeue [of c4 1 "[2]"] by (simp add: d)
  moreover have "slot_step c5 c6" using slot_step.rearm [of c5] by (simp add: d)
  moreover have "slot_step c6 c7" using slot_step.wake [of c6] by (simp add: d)
  moreover have "slot_step c7 c8" using slot_step.dequeue [of c7 2 "[]"] by (simp add: d)
  moreover have "slot_step c8 c9" using slot_step.rearm [of c8] by (simp add: d)
  moreover have "slot_step c9 c10" using slot_step.raise_signal [of c9 0] by (simp add: d)
  moreover have "slot_step c10 c11" using slot_step.wake [of c10] by (simp add: d)
  moreover have "slot_reachable 2 c0" unfolding c0_def by (rule slot_reachable.start)
  ultimately have "slot_reachable 2 c11" by (meson slot_reachable.step)
  moreover have "blocked c11" "delivered c11 = [1, 2]" by (simp_all add: d blocked_def)
  ultimately show ?thesis by blast
qed

end
