(* ===== verification/GoParse.thy ===== *)
theory GoParse
  imports GoStrings GoTime
begin

text \<open>
  \<open>time.Parse(time.RFC3339, s)\<close> of the standard library: the general layout parser on the layout
  2006-01-02T15:04:05Z07:00, with the leniencies it has (a one-digit hour, a comma before the
  fraction, an offset of up to 24:60).  Every failure is one error value.
\<close>

definition digit_at :: "string \<Rightarrow> (nat \<times> string) option" where
  "digit_at s = (case s of [] \<Rightarrow> None | c # cs \<Rightarrow>
     (case digit_val c of None \<Rightarrow> None | Some d \<Rightarrow> Some (d, cs)))"

text \<open>\<open>getnum\<close>: two digits, or one when the field is not fixed.\<close>

definition getnum :: "bool \<Rightarrow> string \<Rightarrow> (nat \<times> string) option" where
  "getnum fixed s =
     (case digit_at s of
        None \<Rightarrow> None
      | Some (d, r) \<Rightarrow>
          (case digit_at r of
             None \<Rightarrow> if fixed then None else Some (d, r)
           | Some (e, r') \<Rightarrow> Some (10 * d + e, r')))"

definition getyear :: "string \<Rightarrow> (nat \<times> string) option" where
  "getyear s = (case getnum True s of None \<Rightarrow> None
     | Some (a, r) \<Rightarrow> (case getnum True r of None \<Rightarrow> None | Some (b, r') \<Rightarrow> Some (100 * a + b, r')))"

definition skip_char :: "char \<Rightarrow> string \<Rightarrow> string option" where
  "skip_char c s = (case s of [] \<Rightarrow> None | x # xs \<Rightarrow> if x = c then Some xs else None)"

fun leading_digits :: "string \<Rightarrow> nat list \<times> string" where
  "leading_digits [] = ([], [])"
| "leading_digits (c # cs) =
     (case digit_val c of
        None \<Rightarrow> ([], c # cs)
      | Some d \<Rightarrow> (case leading_digits cs of (ds, r) \<Rightarrow> (d # ds, r)))"

definition fold_digits :: "nat list \<Rightarrow> nat" where
  "fold_digits ds = foldl (\<lambda>a d. 10 * a + d) 0 ds"

text \<open>The fraction after the seconds: at most nine digits count.\<close>

definition getfrac :: "string \<Rightarrow> nat \<times> string" where
  "getfrac s =
     (case s of
        c # r \<Rightarrow>
          (if (c = CHR ''.'' \<or> c = CHR '','') \<and> fst (leading_digits r) \<noteq> [] then
             (case leading_digits r of (ds, r') \<Rightarrow>
                (let ns = take 9 ds in (fold_digits ns * 10 ^ (9 - length ns), r')))
           else (0, s))
      | [] \<Rightarrow> (0, s))"

text \<open>The zone: \<open>Z\<close>, or a signed hh:mm offset in seconds.\<close>

definition getzone :: "string \<Rightarrow> int option" where
  "getzone s =
     (case s of
        [] \<Rightarrow> None
      | c # r \<Rightarrow>
          (if c = CHR ''Z'' then (if r = [] then Some 0 else None)
           else (case getnum True r of
                   None \<Rightarrow> None
                 | Some (hr, r1) \<Rightarrow>
                     (case Option.bind (skip_char (CHR '':'') r1) (getnum True) of
                        None \<Rightarrow> None
                      | Some (mm, r2) \<Rightarrow>
                          if r2 \<noteq> [] \<or> hr > 24 \<or> mm > 60 then None
                          else if c = CHR ''+'' then Some (int ((hr * 60 + mm) * 60))
                          else if c = CHR ''-'' then Some (- int ((hr * 60 + mm) * 60))
                          else None))))"

definition is_leap :: "int \<Rightarrow> bool" where
  "is_leap y \<longleftrightarrow> y mod 4 = 0 \<and> (y mod 100 \<noteq> 0 \<or> y mod 400 = 0)"

definition daysIn :: "nat \<Rightarrow> int \<Rightarrow> nat" where
  "daysIn month year =
     (if month = 2 then (if is_leap year then 29 else 28)
      else if month \<in> {4, 6, 9, 11} then 30 else 31)"

text \<open>Days since 1970-01-01 of a date of the proleptic Gregorian calendar.\<close>

definition civil_day :: "int \<Rightarrow> int \<Rightarrow> int \<Rightarrow> int" where
  "civil_day y m d =
     (let y' = (if m \<le> 2 then y - 1 else y);
          yoe = y' mod 400;
          doy = (153 * (if m > 2 then m - 3 else m + 9) + 2) div 5 + d - 1
      in y' div 400 * 146097 + (yoe * 365 + yoe div 4 - yoe div 100 + doy) - 719468)"

definition ParseRFC3339 :: "string \<Rightarrow> Time res" where
  "ParseRFC3339 s =
     (let fail = Inl (ErrMsg (''parsing time '' @ quote s)) in
      case Option.bind (getyear s) (\<lambda>(year, s1).
           Option.bind (Option.bind (skip_char (CHR ''-'') s1) (getnum True)) (\<lambda>(month, s2).
           Option.bind (Option.bind (skip_char (CHR ''-'') s2) (getnum True)) (\<lambda>(day, s3).
           Option.bind (Option.bind (skip_char (CHR ''T'') s3) (getnum False)) (\<lambda>(hour, s4).
           Option.bind (Option.bind (skip_char (CHR '':'') s4) (getnum True)) (\<lambda>(mi, s5).
           Option.bind (Option.bind (skip_char (CHR '':'') s5) (getnum True)) (\<lambda>(sec, s6).
           case getfrac s6 of (nsec, s7) \<Rightarrow>
           Option.bind (getzone s7) (\<lambda>off.
             if month < 1 \<or> month > 12 \<or> hour > 23 \<or> mi > 59 \<or> sec > 59 \<or> day < 1 \<or>
                day > daysIn month (int year) then None
             else Some \<lparr>t_ns = (civil_day (int year) (int month) (int day) * 86400
                    + int (hour * 3600 + mi * 60 + sec) - off) * Second + int nsec,
                  t_loc = (\<lambda>_. off)\<rparr>)))))))
      of None \<Rightarrow> fail | Some t \<Rightarrow> Inr t)"

lemmas rfc3339_defs =
  ParseRFC3339_def getyear_def getnum_def digit_at_def digit_val_def skip_char_def getfrac_def
  getzone_def civil_day_def daysIn_def is_leap_def Let_def

lemma ParseRFC3339_examples:
  "map_sum id t_ns (ParseRFC3339 ''1970-01-02T00:00:01Z'') = Inr (86401 * Second)"
  "map_sum id t_ns (ParseRFC3339 ''2026-01-15T06:00:00+07:00'') = Inr (1768431600 * Second)"
  "map_sum id t_ns (ParseRFC3339 ''0001-01-01T00:00:00Z'') = Inr zero_ns"
  "isl (ParseRFC3339 ''2026-02-29T06:00:00Z'')"
  by (simp_all add: rfc3339_defs zero_ns_def)

end
