(* ===== verification/Effects.thy ===== *)
theory Effects
  imports Notify Restore Recovery Slots GoParse
begin

text \<open>
  The state and the environment of the plan state machine
  (\<^verbatim>\<open>internal/provider/processor/plan/state\<close>): what a handler can read, what it can change, and
  how its Kubernetes calls can turn out.  One call of a handler sees one clock reading and one
  environment; the outcome of an API call may depend on its arguments.
\<close>

section \<open>Kubernetes objects\<close>

record JobCondition =
  jc_Type :: string
  jc_Status :: string
  jc_LastTransitionTime :: Time

record JobSpec =
  BackoffLimit :: int
  TTLSecondsAfterFinished :: int
  TemplateLabels :: "string \<rightharpoonup> string"
  TemplateAnnotations :: "string \<rightharpoonup> string"
  ServiceAccountName :: string
  Image :: string
  Args :: "string list"
  EnvVars :: "(string \<times> string) list"
  TokenAudience :: string
  TokenExpiration :: int

record Job =
  j_Name :: string
  GenerateName :: string
  j_Namespace :: string
  j_Labels :: "string \<rightharpoonup> string"
  j_Annotations :: "string \<rightharpoonup> string"
  j_Spec :: JobSpec
  Active :: int
  Succeeded :: int
  Failed :: int
  j_StartTime :: "Time option"
  Conditions :: "JobCondition list"

text \<open>A container status: the messages of its current and its last termination.\<close>

record ContainerStatus =
  TerminatedMessage :: "string option"
  LastTerminatedMessage :: "string option"

record Pod =
  p_CreationTimestamp :: Time
  ContainerStatuses :: "ContainerStatus list"

section \<open>Status updates\<close>

text \<open>
  A mutator is a closure: besides the object it is applied to it reads the clock when it runs and
  may read the plan held in memory by the worker.
\<close>

type_synonym mutator = "Time \<Rightarrow> HibernatePlan \<Rightarrow> HibernatePlan \<Rightarrow> HibernatePlan res"

record Update =
  Mutator :: mutator
  PreHook :: "hook option"
  PostHook :: "hook option"

definition with_status :: "(HibernatePlanStatus \<Rightarrow> HibernatePlanStatus) \<Rightarrow> HibernatePlan \<Rightarrow> HibernatePlan" where
  "with_status f p = p\<lparr>Status := f (Status p)\<rparr>"

definition status_mutator :: "(Time \<Rightarrow> HibernatePlanStatus \<Rightarrow> HibernatePlanStatus) \<Rightarrow> mutator" where
  "status_mutator f = (\<lambda>clock live p. Inr (with_status (f clock) p))"

definition status_update :: "(Time \<Rightarrow> HibernatePlanStatus \<Rightarrow> HibernatePlanStatus) \<Rightarrow> hook option \<Rightarrow> Update" where
  "status_update f post = \<lparr>Mutator = status_mutator f, PreHook = None, PostHook = post\<rparr>"

section \<open>Handler results\<close>

record StateResult =
  Requeue :: bool
  RequeueAfter :: duration
  TimeoutAfter :: duration
  DeadlineAfter :: duration

definition noResult :: StateResult where
  "noResult = \<lparr>Requeue = False, RequeueAfter = 0, TimeoutAfter = 0, DeadlineAfter = 0\<rparr>"

definition requeueNow :: StateResult where
  "requeueNow = noResult\<lparr>Requeue := True\<rparr>"

definition requeueAfter :: "duration \<Rightarrow> StateResult" where
  "requeueAfter d = noResult\<lparr>RequeueAfter := d\<rparr>"

section \<open>Environment and world\<close>

record ExecutorInfra =
  ei_RunnerImage :: string
  RunnerServiceAccount :: string
  ControlPlaneEndpoint :: string

text \<open>
  The environment of one call.  \<open>scheduleResult\<close> is \<open>PlanCtx.Schedule\<close> (nil or its
  \<open>ShouldHibernate\<close>).  \<open>PatchPlan\<close> gets the object before and after the change and yields
  the server's response; \<open>cachedJobs\<close> is what the informer cache holds, \<open>listErr\<close> the outcome
  of a direct list.  \<open>ValidateParams\<close> gives the list of validation errors of a target type and
  its raw parameters.
\<close>

record Env =
  now :: Time
  newUUID :: string
  scheduleResult :: "bool option"
  Exceptions :: "ScheduleException list"
  pc_HasRestoreData :: bool
  PatchPlan :: "HibernatePlan \<Rightarrow> HibernatePlan \<Rightarrow> api_error + HibernatePlan"
  listErr :: "api_error option"
  cachedJobs :: "api_error + Job list"
  CreateJob :: "Job \<Rightarrow> api_error + string"
  PatchJob :: "Job \<Rightarrow> api_error option"
  DeleteJob :: "Job \<Rightarrow> api_error option"
  SetControllerReference :: "HibernatePlan \<Rightarrow> Job \<Rightarrow> api_error option"
  Pods :: "Job \<Rightarrow> api_error + Pod list"
  ValidateParams :: "string \<Rightarrow> string \<Rightarrow> string list"
  apiErrorCode :: "go_error \<Rightarrow> string option"
  hasRestoreManager :: bool
  cmApi :: cm_api
  previousState :: "(string \<times> blob) list \<Rightarrow> string"
  infra :: ExecutorInfra
  notify :: notify_env

text \<open>
  The world.  \<open>livePlan\<close> is the plan the worker holds in memory; \<open>planCopy\<close> is the effective
  plan when it is a deep copy rather than the live plan itself; \<open>jobs\<close> are the jobs on the API
  server; \<open>outbox\<close> is the status writer's slot for the plan; \<open>staleMarks\<close> are the jobs for which
  a goroutine that marks them stale has been started; \<open>tracked\<close> says whether the plan is still
  in the watchable map; \<open>panicked\<close> records a run-time panic.
\<close>

record World =
  livePlan :: HibernatePlan
  planCopy :: "HibernatePlan option"
  jobs :: "Job list"
  outbox :: "Update fifoSlot"
  jobMisses :: "string \<rightharpoonup> nat"
  restoreStore :: store
  staleMarks :: "Job list"
  tracked :: bool
  panicked :: bool

abbreviation status :: "World \<Rightarrow> HibernatePlanStatus" where
  "status w \<equiv> Status (livePlan w)"

definition eff :: "World \<Rightarrow> HibernatePlan" where
  "eff w = (case planCopy w of None \<Rightarrow> livePlan w | Some p \<Rightarrow> p)"

definition set_eff :: "HibernatePlan \<Rightarrow> World \<Rightarrow> World" where
  "set_eff p w = (case planCopy w of None \<Rightarrow> w\<lparr>livePlan := p\<rparr> | Some _ \<Rightarrow> w\<lparr>planCopy := Some p\<rparr>)"

text \<open>
  \<open>Updater.Send\<close>: the mutator is applied to the given resource at once (here the live plan), then
  the update is offered to the status writer's slot.  A panic inside the mutator is not recovered on the way
  out of the worker's goroutine, so it ends the process: what the mutator had written to the worker's
  plan before it panicked is gone with the memory, and \<open>panicked\<close> is all that is kept of it.
\<close>

definition Send :: "Env \<Rightarrow> Update \<Rightarrow> World \<Rightarrow> World" where
  "Send e u w =
     (case Mutator u (now e) (livePlan w) (livePlan w) of
        Inl _ \<Rightarrow> w\<lparr>panicked := True\<rparr>
      | Inr p \<Rightarrow> w\<lparr>livePlan := p, outbox := fifo_Send u (outbox w)\<rparr>)"

text \<open>The same with the effective plan as the resource, and with the same reading of a panic.\<close>

definition SendEff :: "Env \<Rightarrow> Update \<Rightarrow> World \<Rightarrow> World" where
  "SendEff e u w =
     (case Mutator u (now e) (livePlan w) (eff w) of
        Inl _ \<Rightarrow> w\<lparr>panicked := True\<rparr>
      | Inr p \<Rightarrow> (set_eff p w)\<lparr>outbox := fifo_Send u (outbox w)\<rparr>)"

text \<open>
  \<open>patchAndPreserveStatus\<close>: the live plan already carries the change; on success it takes the
  server's response but keeps its status, on failure it stays as changed.
\<close>

definition patchAndPreserveStatus :: "Env \<Rightarrow> (HibernatePlan \<Rightarrow> HibernatePlan) \<Rightarrow> World \<Rightarrow> go_error option \<times> World" where
  "patchAndPreserveStatus e f w =
     (let orig = livePlan w; plan = f orig in
      case PatchPlan e orig plan of
        Inl err \<Rightarrow> (Some (ApiError err), w\<lparr>livePlan := plan\<rparr>)
      | Inr resp \<Rightarrow> (None, w\<lparr>livePlan := resp\<lparr>Status := Status plan\<rparr>\<rparr>))"

definition del_annotations :: "string list \<Rightarrow> HibernatePlan \<Rightarrow> HibernatePlan" where
  "del_annotations ks p = p\<lparr>Annotations := (\<lambda>k. if k \<in> set ks then None else Annotations p k)\<rparr>"

abbreviation annotation :: "World \<Rightarrow> string \<Rightarrow> string" where
  "annotation w k \<equiv> get_str (Annotations (livePlan w)) k"

section \<open>Facts\<close>

lemma with_status_simps [simp]:
  "Status (with_status f p) = f (Status p)" "Spec (with_status f p) = Spec p"
  "Annotations (with_status f p) = Annotations p" "Name (with_status f p) = Name p"
  "Namespace (with_status f p) = Namespace p" "Finalizers (with_status f p) = Finalizers p"
  "DeletionTimestamp (with_status f p) = DeletionTimestamp p"
  by (simp_all add: with_status_def)

lemma status_update_simps [simp]:
  "Mutator (status_update f post) t live p = Inr (with_status (f t) p)"
  "PostHook (status_update f post) = post"
  by (simp_all add: status_update_def status_mutator_def)

lemma Send_status_update [simp]:
  "Send e (status_update f post) w =
     w\<lparr>livePlan := with_status (f (now e)) (livePlan w),
       outbox := fifo_Send (status_update f post) (outbox w)\<rparr>"
  by (simp add: Send_def)

lemma del_annotations_simps [simp]:
  "Status (del_annotations ks p) = Status p" "Spec (del_annotations ks p) = Spec p"
  "Annotations (del_annotations ks p) k = (if k \<in> set ks then None else Annotations p k)"
  "DeletionTimestamp (del_annotations ks p) = DeletionTimestamp p"
  by (simp_all add: del_annotations_def)

lemma patch_keeps_status [frame]:
  "(\<And>p. Status (f p) = Status p) \<Longrightarrow> status (snd (patchAndPreserveStatus e f w)) = status w"
  by (simp add: patchAndPreserveStatus_def Let_def split: sum.splits)

lemma patch_frame [frame]:
  "outbox (snd (patchAndPreserveStatus e f w)) = outbox w" "jobs (snd (patchAndPreserveStatus e f w)) = jobs w"
  "panicked (snd (patchAndPreserveStatus e f w)) = panicked w"
  "planCopy (snd (patchAndPreserveStatus e f w)) = planCopy w"
  "jobMisses (snd (patchAndPreserveStatus e f w)) = jobMisses w"
  "restoreStore (snd (patchAndPreserveStatus e f w)) = restoreStore w"
  "staleMarks (snd (patchAndPreserveStatus e f w)) = staleMarks w"
  by (simp_all add: patchAndPreserveStatus_def Let_def split: sum.splits)

end
