(* ===== verification/ExecUtils.thy ===== *)
theory ExecUtils
  imports Effects
begin

text \<open>
  Helpers of the execution handlers (\<^verbatim>\<open>state/utils.go\<close>, \<^verbatim>\<open>pkg/k8sutil/naming.go\<close>): stage
  status, job lookups, operation summaries, the bounded cycle history, and name shortening.
\<close>

section \<open>Stages and targets\<close>

record StageStatus =
  AllTerminal :: bool
  HasRunning :: bool
  HasPending :: bool
  FailedCount :: nat
  CompletedCount :: nat

definition execStates :: "HibernatePlan \<Rightarrow> string \<Rightarrow> ExecutionState option" where
  "execStates plan targetName =
     map_option State (List.find (\<lambda>x. xe_Target x = targetName) (Executions (Status plan)))"

fun stageScan :: "HibernatePlan \<Rightarrow> string list \<Rightarrow> StageStatus \<times> nat \<Rightarrow> StageStatus \<times> nat" where
  "stageScan plan [] acc = acc"
| "stageScan plan (t # ts) (s, terminalCount) =
     stageScan plan ts
       (case execStates plan t of
          None \<Rightarrow> (s\<lparr>HasPending := True\<rparr>, terminalCount)
        | Some StateCompleted \<Rightarrow> (s\<lparr>CompletedCount := Suc (CompletedCount s)\<rparr>, Suc terminalCount)
        | Some StateFailed \<Rightarrow> (s\<lparr>FailedCount := Suc (FailedCount s)\<rparr>, Suc terminalCount)
        | Some StateAborted \<Rightarrow> (s\<lparr>FailedCount := Suc (FailedCount s)\<rparr>, Suc terminalCount)
        | Some StateRunning \<Rightarrow> (s\<lparr>HasRunning := True\<rparr>, terminalCount)
        | Some StatePending \<Rightarrow> (s\<lparr>HasPending := True\<rparr>, terminalCount)
        | Some (StateOther _) \<Rightarrow> (s, terminalCount))"

definition GetStageStatus :: "HibernatePlan \<Rightarrow> ExecutionStage \<Rightarrow> StageStatus" where
  "GetStageStatus plan stage =
     (case stageScan plan (xs_Targets stage)
        (\<lparr>AllTerminal = False, HasRunning = False, HasPending = False, FailedCount = 0, CompletedCount = 0\<rparr>, 0) of
        (s, terminalCount) \<Rightarrow> s\<lparr>AllTerminal := (terminalCount = length (xs_Targets stage))\<rparr>)"

definition FindTarget :: "HibernatePlan \<Rightarrow> string \<Rightarrow> Target option" where
  "FindTarget plan name = List.find (\<lambda>t. tgt_Name t = name) (Targets (Spec plan))"

definition FindTargetType :: "HibernatePlan \<Rightarrow> string \<Rightarrow> string" where
  "FindTargetType plan name = (case FindTarget plan name of None \<Rightarrow> '''' | Some t \<Rightarrow> tgt_Type t)"

definition isJobTerminal :: "Job \<Rightarrow> bool" where
  "isJobTerminal job =
     list_ex (\<lambda>c. jc_Status c = ''True'' \<and> (jc_Type c = ''Complete'' \<or> jc_Type c = ''Failed'')) (Conditions job)"

definition isStale :: "Job \<Rightarrow> bool" where
  "isStale job \<longleftrightarrow> j_Labels job LabelStaleRunnerJob \<noteq> None"

definition occupiesSlot :: "ExecutionStage \<Rightarrow> Job \<Rightarrow> bool" where
  "occupiesSlot stage job \<longleftrightarrow>
     (if isStale job then False else if isJobTerminal job then False
      else get_str (j_Labels job) LabelTarget \<in> set (xs_Targets stage))"

definition CountRunningJobsInStage :: "Job list \<Rightarrow> ExecutionStage \<Rightarrow> nat" where
  "CountRunningJobsInStage js stage = length (filter (occupiesSlot stage) js)"

definition FindExecutionStatus :: "HibernatePlan \<Rightarrow> string \<Rightarrow> string \<Rightarrow> ExecutionStatus option" where
  "FindExecutionStatus plan targetType targetName =
     List.find (\<lambda>x. xe_Target x = targetName \<and> Executor x = targetType) (Executions (Status plan))"

definition isFailedState :: "ExecutionState \<Rightarrow> bool" where
  "isFailedState s \<longleftrightarrow> s = StateFailed \<or> s = StateAborted"

definition isTerminalState :: "ExecutionState \<Rightarrow> bool" where
  "isTerminalState s \<longleftrightarrow> s = StateCompleted \<or> s = StateFailed \<or> s = StateAborted"

definition FindFailedUpstream :: "HibernatePlan \<Rightarrow> string \<Rightarrow> string list" where
  "FindFailedUpstream plan targetName =
     map From (filter (\<lambda>d. To d = targetName \<and>
        (case FindExecutionStatus plan (FindTargetType plan (From d)) (From d) of
           None \<Rightarrow> False | Some x \<Rightarrow> isFailedState (State x)))
       (Dependencies (Strategy (sp_Execution (Spec plan)))))"

definition JobExistsForTarget :: "Job list \<Rightarrow> string \<Rightarrow> PlanOperation \<Rightarrow> string \<Rightarrow> bool" where
  "JobExistsForTarget js targetName operation cycleID =
     list_ex (\<lambda>j. \<not> isStale j \<and> get_str (j_Labels j) LabelTarget = targetName \<and>
        get_str (j_Labels j) LabelOperation = operation_string operation \<and>
        get_str (j_Labels j) LabelCycleID = cycleID) js"

definition FilterJobsForStage :: "Job list \<Rightarrow> ExecutionStage \<Rightarrow> Job list" where
  "FilterJobsForStage js stage = filter (\<lambda>j. get_str (j_Labels j) LabelTarget \<in> set (xs_Targets stage)) js"

section \<open>Summaries and history\<close>

definition addToSummary :: "ExecutionOperationSummary \<Rightarrow> ExecutionStatus \<Rightarrow> ExecutionOperationSummary" where
  "addToSummary s x =
     s\<lparr>Success := (if isFailedState (State x) then False else Success s),
       StartTime := (case StartedAt x of
          None \<Rightarrow> StartTime s
        | Some t \<Rightarrow> if IsZero (StartTime s) \<or> Before t (StartTime s) then t else StartTime s),
       EndTime := (case FinishedAt x of
          None \<Rightarrow> EndTime s
        | Some t \<Rightarrow> (case EndTime s of
             None \<Rightarrow> Some t
           | Some u \<Rightarrow> if IsZero u \<or> After t u then Some t else Some u)),
       TargetResults := TargetResults s @
         [\<lparr>tr_Target = xe_Target x, tr_State = State x, tr_Attempts = Attempts x,
           ExecutionID = TrimPrefix (LogsRef x) ExecutionIDLogPrefix,
           tr_StartedAt = StartedAt x, tr_FinishedAt = FinishedAt x, tr_Message = xe_Message x\<rparr>]\<rparr>"

definition BuildOperationSummary :: "HibernatePlan \<Rightarrow> PlanOperation \<Rightarrow> ExecutionOperationSummary" where
  "BuildOperationSummary plan operation =
     foldl addToSummary
       \<lparr>Operation = operation, StartTime = zeroTime, EndTime = None, TargetResults = [], Success = True,
        os_ErrorMessage = ErrorMessage (Status plan)\<rparr>
       (Executions (Status plan))"

definition IsOperationComplete :: "HibernatePlan \<Rightarrow> bool" where
  "IsOperationComplete plan = list_all (\<lambda>x. isTerminalState (State x)) (Executions (Status plan))"

definition hasExecutionProgress :: "HibernatePlan \<Rightarrow> bool" where
  "hasExecutionProgress plan = list_ex (\<lambda>x. State x \<noteq> StatePending) (Executions (Status plan))"

definition findOrAppendCycle :: "HibernatePlanStatus \<Rightarrow> string \<Rightarrow> nat \<times> HibernatePlanStatus" where
  "findOrAppendCycle st cycleID =
     (case find_index (\<lambda>c. cy_CycleID c = cycleID) (ExecutionHistory st) of
        Some idx \<Rightarrow> (idx, st)
      | None \<Rightarrow>
          (length (ExecutionHistory st),
           st\<lparr>ExecutionHistory := ExecutionHistory st @
             [\<lparr>cy_CycleID = cycleID, ShutdownExecution = None, WakeupExecution = None\<rparr>]\<rparr>))"

definition pruneCycleHistory :: "HibernatePlanStatus \<Rightarrow> HibernatePlanStatus" where
  "pruneCycleHistory st =
     (if length (ExecutionHistory st) > MaxCycleHistorySize
      then st\<lparr>ExecutionHistory := drop (length (ExecutionHistory st) - MaxCycleHistorySize) (ExecutionHistory st)\<rparr>
      else st)"

text \<open>The recording of an operation that the handlers repeat: find the cycle, set its summary, prune.\<close>

definition recordSummary :: "(ExecutionCycle \<Rightarrow> ExecutionCycle) \<Rightarrow> string \<Rightarrow> HibernatePlanStatus \<Rightarrow> HibernatePlanStatus" where
  "recordSummary set_summary cycleID st =
     (case findOrAppendCycle st cycleID of
        (cycleIdx, st') \<Rightarrow>
          pruneCycleHistory (st'\<lparr>ExecutionHistory :=
            (ExecutionHistory st')[cycleIdx := set_summary (ExecutionHistory st' ! cycleIdx)]\<rparr>))"

section \<open>Snapshots\<close>

record executionSnapshot =
  sn_State :: ExecutionState
  sn_Attempts :: int
  sn_Message :: string
  sn_JobRef :: string
  sn_LogsRef :: string

definition snapshotOf :: "ExecutionStatus \<Rightarrow> executionSnapshot" where
  "snapshotOf x = \<lparr>sn_State = State x, sn_Attempts = Attempts x, sn_Message = xe_Message x,
     sn_JobRef = JobRef x, sn_LogsRef = LogsRef x\<rparr>"

text \<open>A later execution of the same target wins.\<close>

definition snapshotExecutionStates :: "ExecutionStatus list \<Rightarrow> (string \<times> executionSnapshot) list" where
  "snapshotExecutionStates execs = rev (map (\<lambda>x. (xe_Target x, snapshotOf x)) execs)"

definition executionStatesEqual :: "(string \<times> executionSnapshot) list \<Rightarrow> ExecutionStatus list \<Rightarrow> bool" where
  "executionStatesEqual prev current =
     (length (remdups (map fst prev)) = length current \<and>
      list_all (\<lambda>x. map_of prev (xe_Target x) = Some (snapshotOf x)) current)"

definition stateSnapshot :: "(string \<times> executionSnapshot) list \<Rightarrow> (string \<times> ExecutionState) list" where
  "stateSnapshot prev = map (\<lambda>(k, s). (k, sn_State s)) prev"

definition ReverseIf :: "bool \<Rightarrow> 'a list \<Rightarrow> 'a list" where
  "ReverseIf condition collection = (if condition then rev collection else collection)"

section \<open>Names\<close>

definition isVowel :: "char \<Rightarrow> bool" where
  "isVowel c \<longleftrightarrow> c = CHR ''a'' \<or> c = CHR ''e'' \<or> c = CHR ''i'' \<or> c = CHR ''o'' \<or> c = CHR ''u''"

definition shortenPart :: "string \<Rightarrow> string" where
  "shortenPart part = (case part of [] \<Rightarrow> [] | c # cs \<Rightarrow> c # filter (\<lambda>x. \<not> isVowel x) cs)"

text \<open>The final slice \<open>res[:maxLen]\<close> panics on a negative length.\<close>

definition ShortenName :: "string \<Rightarrow> int \<Rightarrow> string res" where
  "ShortenName s maxLen =
     (if int (length s) \<le> maxLen then Inr s
      else
        (let res = join ''-'' (map shortenPart (split_on (CHR ''-'') s)) in
         if int (length res) \<le> maxLen then Inr res
         else if maxLen < 0 then Inl Panic
         else Inr (take (nat maxLen) res)))"

section \<open>Facts\<close>

lemma stageScan_counts:
  "stageScan plan ts (s, n) = (s', n') \<Longrightarrow>
     n' = n + length (filter (\<lambda>t. case execStates plan t of None \<Rightarrow> False | Some x \<Rightarrow> isTerminalState x) ts) \<and>
     FailedCount s' = FailedCount s +
       length (filter (\<lambda>t. case execStates plan t of None \<Rightarrow> False | Some x \<Rightarrow> isFailedState x) ts) \<and>
     CompletedCount s' = CompletedCount s + length (filter (\<lambda>t. execStates plan t = Some StateCompleted) ts) \<and>
     (HasRunning s' \<longleftrightarrow> HasRunning s \<or> list_ex (\<lambda>t. execStates plan t = Some StateRunning) ts) \<and>
     (HasPending s' \<longleftrightarrow> HasPending s \<or>
        list_ex (\<lambda>t. execStates plan t = None \<or> execStates plan t = Some StatePending) ts)"
proof (induction ts arbitrary: s n)
  case (Cons t ts)
  show ?case
    using Cons.prems
    by (cases "execStates plan t"; (cases "the (execStates plan t)")?)
      (force dest!: Cons.IH simp: isTerminalState_def isFailedState_def)+
qed simp

lemma GetStageStatus_fields:
  obtains n where
    "n = length (filter (\<lambda>t. case execStates plan t of None \<Rightarrow> False | Some x \<Rightarrow> isTerminalState x) (xs_Targets stage))"
    "AllTerminal (GetStageStatus plan stage) \<longleftrightarrow> n = length (xs_Targets stage)"
    "FailedCount (GetStageStatus plan stage) =
       length (filter (\<lambda>t. case execStates plan t of None \<Rightarrow> False | Some x \<Rightarrow> isFailedState x) (xs_Targets stage))"
    "HasPending (GetStageStatus plan stage) \<longleftrightarrow>
       list_ex (\<lambda>t. execStates plan t = None \<or> execStates plan t = Some StatePending) (xs_Targets stage)"
proof -
  obtain s n where sn: "stageScan plan (xs_Targets stage) (\<lparr>AllTerminal = False, HasRunning = False,
      HasPending = False, FailedCount = 0, CompletedCount = 0\<rparr>, 0) = (s, n)" by fastforce
  from stageScan_counts [OF sn] sn show thesis
    by (intro that [of n]) (simp_all add: GetStageStatus_def)
qed

lemma length_filter_all: "length (filter P xs) = length xs \<longleftrightarrow> list_all P xs"
  using length_filter_less [of _ xs P] by (fastforce simp: list_all_iff)

lemma GetStageStatus_AllTerminal:
  "AllTerminal (GetStageStatus plan stage) \<longleftrightarrow>
     list_all (\<lambda>t. case execStates plan t of None \<Rightarrow> False | Some x \<Rightarrow> isTerminalState x) (xs_Targets stage)"
  by (rule GetStageStatus_fields [of plan stage]) (simp add: length_filter_all)

lemma GetStageStatus_FailedCount:
  "0 < FailedCount (GetStageStatus plan stage) \<longleftrightarrow>
     list_ex (\<lambda>t. case execStates plan t of None \<Rightarrow> False | Some x \<Rightarrow> isFailedState x) (xs_Targets stage)"
  by (rule GetStageStatus_fields [of plan stage]) (auto simp: list_ex_iff filter_empty_conv)

lemma GetStageStatus_HasPending:
  "HasPending (GetStageStatus plan stage) \<longleftrightarrow>
     list_ex (\<lambda>t. execStates plan t = None \<or> execStates plan t = Some StatePending) (xs_Targets stage)"
  by (rule GetStageStatus_fields [of plan stage]) simp

lemma pruneCycleHistory_bound: "length (ExecutionHistory (pruneCycleHistory st)) \<le> MaxCycleHistorySize"
  by (simp add: pruneCycleHistory_def)

lemma pruneCycleHistory_frame [frame, simp]:
  "Phase (pruneCycleHistory st) = Phase st" "CurrentOperation (pruneCycleHistory st) = CurrentOperation st"
  "Executions (pruneCycleHistory st) = Executions st" "CurrentCycleID (pruneCycleHistory st) = CurrentCycleID st"
  "CurrentStageIndex (pruneCycleHistory st) = CurrentStageIndex st"
  "RetryCount (pruneCycleHistory st) = RetryCount st" "ErrorMessage (pruneCycleHistory st) = ErrorMessage st"
  "PlanSnapshot (pruneCycleHistory st) = PlanSnapshot st"
  by (simp_all add: pruneCycleHistory_def)

lemma recordSummary_bound: "length (ExecutionHistory (recordSummary f c st)) \<le> MaxCycleHistorySize"
  by (simp add: recordSummary_def pruneCycleHistory_bound split: prod.splits)

lemma recordSummary_frame [frame, simp]:
  "Phase (recordSummary f c st) = Phase st" "CurrentOperation (recordSummary f c st) = CurrentOperation st"
  "Executions (recordSummary f c st) = Executions st" "CurrentCycleID (recordSummary f c st) = CurrentCycleID st"
  "CurrentStageIndex (recordSummary f c st) = CurrentStageIndex st"
  "RetryCount (recordSummary f c st) = RetryCount st" "ErrorMessage (recordSummary f c st) = ErrorMessage st"
  "PlanSnapshot (recordSummary f c st) = PlanSnapshot st"
  by (simp_all add: recordSummary_def findOrAppendCycle_def split: option.splits)

text \<open>
  Shortening keeps a name within the limit for every limit that is not negative, and leaves
  a name that fits alone.
\<close>

lemma ShortenName_fits:
  "case ShortenName s maxLen of
     Inr r \<Rightarrow> int (length r) \<le> maxLen \<and> (int (length s) > maxLen \<or> r = s)
   | Inl err \<Rightarrow> err = Panic \<and> maxLen < 0"
  by (auto simp: ShortenName_def Let_def)

end
