(* ===== verification/Execution.thy ===== *)
theory Execution
  imports ExecUtils
begin

text \<open>
  Stage execution (\<^verbatim>\<open>state/state.go\<close>, \<^verbatim>\<open>state/state_execution.go\<close>, and the job-miss
  callbacks of \<^verbatim>\<open>plan/worker.go\<close>): the effective plan, the observation of jobs, the
  dispatch of runner jobs, and the walk over the stages.
\<close>

type_synonym outcome = "(StateResult \<times> go_error option) \<times> World"

section \<open>The effective plan\<close>

definition ptrIsZero :: "Time option \<Rightarrow> bool" where
  "ptrIsZero t = (case t of None \<Rightarrow> True | Some x \<Rightarrow> IsZero x)"

definition overrideEligible :: "Env \<Rightarrow> ScheduleException \<Rightarrow> bool" where
  "overrideEligible e exc \<longleftrightarrow>
     xt_State (exc_Status exc) = ExceptionStateActive \<and>
     xs_Type (exc_Spec exc) \<noteq> ExceptionSuspend \<and>
     Before (xs_ValidFrom (exc_Spec exc)) (now e) \<and> Before (now e) (xs_ValidUntil (exc_Spec exc)) \<and>
     ptrIsZero (exc_DeletionTimestamp exc) \<and>
     (TargetOverrides (exc_Spec exc) \<noteq> [] \<or> xs_ExecutionOverride (exc_Spec exc) \<noteq> None)"

definition newerOverride :: "ScheduleException option \<Rightarrow> ScheduleException \<Rightarrow> ScheduleException option" where
  "newerOverride result exc =
     (case result of
        None \<Rightarrow> Some exc
      | Some r \<Rightarrow> if After (CreationTimestamp exc) (CreationTimestamp r) then Some exc else Some r)"

definition findActiveExceptionOverride :: "Env \<Rightarrow> ScheduleException option" where
  "findActiveExceptionOverride e = foldl newerOverride None (filter (overrideEligible e) (Exceptions e))"

text \<open>The target map holds a pointer to the last target of each name.\<close>

definition set_parameters :: "string \<Rightarrow> string \<Rightarrow> Target list \<Rightarrow> Target list" where
  "set_parameters name raw ts =
     rev (update_first (\<lambda>t. tgt_Name t = name) (\<lambda>t. t\<lparr>tgt_Parameters := Some raw\<rparr>) (rev ts))"

definition disableTargets :: "TargetOverride list \<Rightarrow> Target list \<Rightarrow> Target list" where
  "disableTargets ovs ts =
     foldl (\<lambda>acc ov. if Disabled ov then filter (\<lambda>t. tgt_Name t \<noteq> TargetName ov) acc else acc) ts ovs"

definition overrideParameters :: "TargetOverride list \<Rightarrow> Target list \<Rightarrow> Target list" where
  "overrideParameters ovs ts =
     foldl (\<lambda>acc ov. if Disabled ov then acc
              else (case to_Parameters ov of None \<Rightarrow> acc | Some raw \<Rightarrow> set_parameters (TargetName ov) raw acc)) ts ovs"

definition applyOverrides :: "ScheduleExceptionSpec \<Rightarrow> HibernatePlanSpec \<Rightarrow> HibernatePlanSpec" where
  "applyOverrides xs sp =
     (let sp1 = (case xs_ExecutionOverride xs of
                   None \<Rightarrow> sp
                 | Some ov \<Rightarrow>
                     sp\<lparr>sp_Execution := (case eo_Strategy ov of None \<Rightarrow> sp_Execution sp
                           | Some st \<Rightarrow> (sp_Execution sp)\<lparr>Strategy := st\<rparr>),
                        sp_Behavior := (case eo_Behavior ov of None \<Rightarrow> sp_Behavior sp | Some b \<Rightarrow> b)\<rparr>)
      in sp1\<lparr>Targets := overrideParameters (TargetOverrides xs) (disableTargets (TargetOverrides xs) (Targets sp1))\<rparr>)"

definition buildEffectivePlan :: "Env \<Rightarrow> HibernatePlan \<Rightarrow> HibernatePlan option" where
  "buildEffectivePlan e plan =
     (case findActiveExceptionOverride e of
        None \<Rightarrow> None
      | Some exc \<Rightarrow> Some (plan\<lparr>Spec := applyOverrides (exc_Spec exc) (Spec plan)\<rparr>))"

definition lockedSnapshot :: "HibernatePlan \<Rightarrow> PlanSnapshot option" where
  "lockedSnapshot plan =
     (case PlanSnapshot (Status plan) of
        None \<Rightarrow> None
      | Some snap \<Rightarrow> if sn_CycleID snap = CurrentCycleID (Status plan) then Some snap else None)"

text \<open>\<open>effectivePlan\<close>: \<open>None\<close> when it is the plan itself, otherwise the deep copy.\<close>

definition effectivePlan :: "Env \<Rightarrow> HibernatePlan \<Rightarrow> HibernatePlan option" where
  "effectivePlan e plan =
     (case lockedSnapshot plan of
        Some snap \<Rightarrow> Some (plan\<lparr>Spec := (Spec plan)\<lparr>Targets := sn_Targets snap, sp_Execution := sn_Execution snap,
           sp_Behavior := sn_Behavior snap\<rparr>\<rparr>)
      | None \<Rightarrow> buildEffectivePlan e plan)"

section \<open>Status writes shared by the handlers\<close>

definition nextStage :: "Env \<Rightarrow> int \<Rightarrow> World \<Rightarrow> World" where
  "nextStage e nextStageIndex = Send e (status_update (\<lambda>_ st. st\<lparr>CurrentStageIndex := nextStageIndex\<rparr>) None)"

definition eventHook :: "Env \<Rightarrow> NotificationEvent \<Rightarrow> hook option" where
  "eventHook e event = notifyHook (notify e) event (\<lambda>p. buildPayload p event (ne_now (notify e)))"

definition setError :: "Env \<Rightarrow> go_error option \<Rightarrow> World \<Rightarrow> World" where
  "setError e phaseErr w =
     (let errMsg = (case phaseErr of None \<Rightarrow> ''unknown error'' | Some err \<Rightarrow> err_text err);
          previousPhase = Phase (status w)
      in Send e (status_update (\<lambda>clock st. st\<lparr>Phase := PhaseError, LastTransitionTime := Some clock,
             ErrorMessage := errMsg\<rparr>)
           (chainHooks [eventHook e EventFailure, phaseChangePostHook (notify e) previousPhase])) w)"

text \<open>The default \<open>OnError\<close>.\<close>

definition OnError :: "Env \<Rightarrow> go_error \<Rightarrow> World \<Rightarrow> StateResult \<times> World" where
  "OnError e err w =
     (if is_plan_error err then (requeueNow, setError e (Some err) w)
      else (requeueAfter RequeueIntervalOnTransientError, w))"

section \<open>Observing jobs\<close>

definition matchLabels :: "Job \<Rightarrow> (string \<times> string) list \<Rightarrow> bool" where
  "matchLabels job sel = list_all (\<lambda>(k, v). j_Labels job k = Some v) sel"

definition cycleSelector :: "HibernatePlan \<Rightarrow> PlanOperation \<Rightarrow> (string \<times> string) list" where
  "cycleSelector plan operation =
     [(LabelPlan, Name plan), (LabelCycleID, CurrentCycleID (Status plan)),
      (LabelOperation, operation_string operation)]"

definition getCurrentCycleJobs :: "Env \<Rightarrow> HibernatePlan \<Rightarrow> World \<Rightarrow> (Job list) res" where
  "getCurrentCycleJobs e plan w =
     (if CurrentCycleID (Status plan) = '''' \<or> operation_string (CurrentOperation (Status plan)) = '''' then Inr []
      else (case listErr e of
              Some err \<Rightarrow> Inl (ApiError err)
            | None \<Rightarrow> Inr (filter (\<lambda>j. j_Namespace j = Namespace plan \<and>
                matchLabels j (cycleSelector plan (CurrentOperation (Status plan)))) (jobs w))))"

definition containerMessage :: "ContainerStatus \<Rightarrow> string" where
  "containerMessage c =
     (case TerminatedMessage c of
        Some m \<Rightarrow> if m \<noteq> '''' then m else (case LastTerminatedMessage c of None \<Rightarrow> '''' | Some l \<Rightarrow> l)
      | None \<Rightarrow> (case LastTerminatedMessage c of None \<Rightarrow> '''' | Some l \<Rightarrow> l))"

text \<open>Newest pod first; the first non-empty termination message.\<close>

definition getTerminationMessageFromPod :: "Env \<Rightarrow> Job \<Rightarrow> string" where
  "getTerminationMessageFromPod e job =
     (case Pods e job of
        Inl _ \<Rightarrow> ''''
      | Inr pods \<Rightarrow>
          (case List.find (\<lambda>m. m \<noteq> '''') (map containerMessage
              (concat (map ContainerStatuses (sort_key (\<lambda>p. - t_ns (p_CreationTimestamp p)) pods)))) of
             None \<Rightarrow> '''' | Some m \<Rightarrow> m))"

definition GetRestoreConfigMap :: "string \<Rightarrow> string" where
  "GetRestoreConfigMap planName = ''hibernator-restore-'' @ planName"

definition conditionState :: "JobCondition \<Rightarrow> ExecutionState option" where
  "conditionState c =
     (if jc_Type c = ''Complete'' \<and> jc_Status c = ''True'' then Some StateCompleted
      else if jc_Type c = ''Failed'' \<and> jc_Status c = ''True'' then Some StateFailed else None)"

definition jobForExec :: "Job list \<Rightarrow> ExecutionStatus \<Rightarrow> Job option" where
  "jobForExec js x =
     List.find (\<lambda>j. \<not> isStale j \<and> xe_Target x = get_str (j_Labels j) LabelTarget \<and>
        Executor x = get_str (j_Labels j) LabelExecutor) js"

definition observeJob :: "Env \<Rightarrow> HibernatePlan \<Rightarrow> Job \<Rightarrow> ExecutionStatus \<Rightarrow> ExecutionStatus" where
  "observeJob e plan job x =
     (let x1 = (case StartedAt x of Some _ \<Rightarrow> x | None \<Rightarrow> x\<lparr>StartedAt := j_StartTime job\<rparr>);
          x2 = (if Active job > 0 then x1\<lparr>State := StateRunning, xe_Message := ''A '' @
                  operation_string (CurrentOperation (Status plan)) @ '' operation is already in progress''\<rparr> else x1);
          msg = getTerminationMessageFromPod e job;
          x3 = (case List.find (\<lambda>c. conditionState c \<noteq> None) (Conditions job) of
                  None \<Rightarrow> x2
                | Some c \<Rightarrow> x2\<lparr>State := the (conditionState c),
                    xe_Message := (if msg \<noteq> '''' then msg else xe_Message x2),
                    FinishedAt := Some (jc_LastTransitionTime c)\<rparr>)
      in x3\<lparr>LogsRef := (case j_Labels job LabelExecutionID of
               None \<Rightarrow> LogsRef x3 | Some execID \<Rightarrow> ExecutionIDLogPrefix @ execID),
            RestoreConfigMapRef := j_Namespace job @ ''/'' @ GetRestoreConfigMap (Name plan),
            JobRef := j_Namespace job @ ''/'' @ j_Name job,
            Attempts := wrap32 (Failed job + Succeeded job)\<rparr>)"

definition reachedTerminal :: "ExecutionStatus \<Rightarrow> ExecutionStatus \<Rightarrow> bool" where
  "reachedTerminal before after \<longleftrightarrow> State before \<noteq> State after \<and>
     (State after = StateCompleted \<or> State after = StateFailed)"

abbreviation consecutiveJobMissThreshold :: nat where "consecutiveJobMissThreshold \<equiv> 3"

definition trackConsecutiveJobMiss :: "string \<Rightarrow> World \<Rightarrow> bool \<times> World" where
  "trackConsecutiveJobMiss target w =
     (if Phase (status w) \<noteq> PhaseHibernating \<and> Phase (status w) \<noteq> PhaseWakingUp then (False, w)
      else
        (let misses = (case jobMisses w target of None \<Rightarrow> 0 | Some n \<Rightarrow> n) + 1 in
         if misses \<ge> consecutiveJobMissThreshold then (True, w\<lparr>jobMisses := (jobMisses w)(target := None)\<rparr>)
         else (False, w\<lparr>jobMisses := (jobMisses w)(target \<mapsto> misses)\<rparr>)))"

definition resetConsecutiveJobMiss :: "string \<Rightarrow> World \<Rightarrow> World" where
  "resetConsecutiveJobMiss target w = w\<lparr>jobMisses := (jobMisses w)(target := None)\<rparr>"

definition missingJob :: "ExecutionStatus \<Rightarrow> World \<Rightarrow> ExecutionStatus \<times> World" where
  "missingJob x w =
     (if FinishedAt x \<noteq> None \<and> State x = StateRunning then (x\<lparr>State := StateCompleted\<rparr>, w)
      else if FinishedAt x = None \<and> State x = StateRunning then
        (case trackConsecutiveJobMiss (xe_Target x) w of
           (True, w') \<Rightarrow> (x\<lparr>State := StatePending\<rparr>, w')
         | (False, w') \<Rightarrow> (x, w'))
      else (x, w))"

definition observeExec :: "Env \<Rightarrow> HibernatePlan \<Rightarrow> Job list \<Rightarrow> ExecutionStatus \<Rightarrow> World \<Rightarrow> ExecutionStatus \<times> World" where
  "observeExec e plan js x w =
     (case jobForExec js x of
        None \<Rightarrow> missingJob x w
      | Some job \<Rightarrow>
          (let x' = observeJob e plan job x; w1 = resetConsecutiveJobMiss (xe_Target x) w
           in (x', if reachedTerminal x x' then w1\<lparr>staleMarks := staleMarks w1 @ [job]\<rparr> else w1)))"

fun observeExecs :: "Env \<Rightarrow> HibernatePlan \<Rightarrow> Job list \<Rightarrow> ExecutionStatus list \<Rightarrow> World \<Rightarrow>
    ExecutionStatus list \<times> World" where
  "observeExecs e plan js [] w = ([], w)"
| "observeExecs e plan js (x # xs) w =
     (case observeExec e plan js x w of
        (x', w1) \<Rightarrow> (case observeExecs e plan js xs w1 of (xs', w2) \<Rightarrow> (x' # xs', w2)))"

definition updateExecutionStatuses :: "Env \<Rightarrow> Job list \<Rightarrow> World \<Rightarrow> World" where
  "updateExecutionStatuses e js w =
     (let plan = eff w;
          prevSnapshot = snapshotExecutionStates (Executions (Status plan))
      in case observeExecs e plan js (Executions (Status plan)) w of
           (executions, w1) \<Rightarrow>
             (let w2 = set_eff (with_status (\<lambda>st. st\<lparr>Executions := executions\<rparr>) plan) w1 in
              if executionStatesEqual prevSnapshot executions then w2
              else Send e (status_update (\<lambda>_ st. st\<lparr>Executions := executions\<rparr>)
                     (executionProgressPostHook (notify e) (stateSnapshot prevSnapshot))) w2))"

text \<open>The goroutine that marks a job stale.\<close>

definition markJobAsStale :: "Env \<Rightarrow> string \<Rightarrow> World \<Rightarrow> World" where
  "markJobAsStale e jobName w =
     w\<lparr>jobs := map (\<lambda>j. if j_Name j = jobName \<and>
          PatchJob e (j\<lparr>j_Labels := (j_Labels j)(LabelStaleRunnerJob \<mapsto> ''true'',
              LabelStaleReasonRunnerJob \<mapsto> ''terminal-state-reached'')\<rparr>) = None
        then j\<lparr>j_Labels := (j_Labels j)(LabelStaleRunnerJob \<mapsto> ''true'',
              LabelStaleReasonRunnerJob \<mapsto> ''terminal-state-reached'')\<rparr> else j) (jobs w)\<rparr>"

section \<open>The execution plan\<close>

definition deref :: "int option \<Rightarrow> int" where
  "deref p = (case p of None \<Rightarrow> 0 | Some x \<Rightarrow> x)"

definition planStage :: "api_Stage \<Rightarrow> Stage" where
  "planStage s = \<lparr>st_Name = as_Name s, st_Parallel = as_Parallel s,
     st_MaxConcurrency = deref (as_MaxConcurrency s), st_Targets = as_Targets s\<rparr>"

definition planDependency :: "bool \<Rightarrow> Dependency \<Rightarrow> Dependency" where
  "planDependency reverse d =
     \<lparr>From = (if reverse then To d else From d), To = (if reverse then From d else To d)\<rparr>"

definition buildExecutionPlan :: "HibernatePlan \<Rightarrow> bool \<Rightarrow> ExecutionPlan res" where
  "buildExecutionPlan plan reverse =
     (let strategy = Strategy (sp_Execution (Spec plan));
          maxConcurrency = deref (es_MaxConcurrency strategy);
          targets = map tgt_Name (Targets (Spec plan))
      in case es_Type strategy of
           StrategySequential \<Rightarrow> Inr (PlanSequential (ReverseIf reverse targets))
         | StrategyParallel \<Rightarrow> Inr (PlanParallel (ReverseIf reverse targets) maxConcurrency)
         | StrategyStaged \<Rightarrow>
             Inr (PlanStaged (ReverseIf reverse (map planStage (es_Stages strategy))) maxConcurrency)
         | StrategyDAG \<Rightarrow>
             (case PlanDAG targets (map (planDependency reverse) (Dependencies strategy)) maxConcurrency of
                Inl err \<Rightarrow> Inl (Wrap ''build DAG execution plan: '' err)
              | Inr p \<Rightarrow> Inr p)
         | StrategyOther s \<Rightarrow> Inl (ErrMsg (''unknown strategy type: '' @ s)))"

section \<open>Runner jobs\<close>

definition runnerLabels :: "HibernatePlan \<Rightarrow> Target \<Rightarrow> PlanOperation \<Rightarrow> string \<Rightarrow> (string \<rightharpoonup> string)" where
  "runnerLabels plan target operation executionID =
     [LabelCycleID \<mapsto> CurrentCycleID (Status plan), LabelOperation \<mapsto> operation_string operation,
      LabelPlan \<mapsto> Name plan, LabelExecutionID \<mapsto> executionID, LabelExecutor \<mapsto> tgt_Type target,
      LabelTarget \<mapsto> tgt_Name target]"

definition runnerAnnotations :: "HibernatePlan \<Rightarrow> Target \<Rightarrow> (string \<rightharpoonup> string)" where
  "runnerAnnotations plan target = [AnnotationPlan \<mapsto> Name plan, AnnotationTarget \<mapsto> tgt_Name target]"

definition runnerEnv :: "Env \<Rightarrow> HibernatePlan \<Rightarrow> Target \<Rightarrow> string \<Rightarrow> (string \<times> string) list" where
  "runnerEnv e plan target executionID =
     (let endpoint = ControlPlaneEndpoint (infra e); ref = tgt_ConnectorRef target in
      [(''POD_NAMESPACE'', Namespace plan),
       (''HIBERNATOR_EXECUTION_ID'', executionID),
       (''HIBERNATOR_CYCLE_ID'', CurrentCycleID (Status plan)),
       (''HIBERNATOR_CONTROL_PLANE_ENDPOINT'', endpoint),
       (''HIBERNATOR_USE_TLS'', ''false''),
       (''HIBERNATOR_GRPC_ENDPOINT'', endpoint @ '':9444''),
       (''HIBERNATOR_WEBSOCKET_ENDPOINT'', ''ws://'' @ endpoint @ '':8082''),
       (''HIBERNATOR_HTTP_CALLBACK_ENDPOINT'', ''http://'' @ endpoint @ '':8082''),
       (''HIBERNATOR_TARGET_PARAMS'', case tgt_Parameters target of None \<Rightarrow> '''' | Some raw \<Rightarrow> raw),
       (''HIBERNATOR_CONNECTOR_KIND'', cr_Kind ref),
       (''HIBERNATOR_CONNECTOR_NAME'', cr_Name ref),
       (''HIBERNATOR_CONNECTOR_NAMESPACE'', if cr_Namespace ref = '''' then Namespace plan else cr_Namespace ref)])"

definition runnerJob :: "Env \<Rightarrow> HibernatePlan \<Rightarrow> Target \<Rightarrow> PlanOperation \<Rightarrow> string \<Rightarrow> string \<Rightarrow> Job" where
  "runnerJob e plan target operation executionID generateName =
     \<lparr>j_Name = '''', GenerateName = generateName, j_Namespace = Namespace plan,
      j_Labels = runnerLabels plan target operation executionID, j_Annotations = runnerAnnotations plan target,
      j_Spec = \<lparr>BackoffLimit = DefaultJobBackoffLimit, TTLSecondsAfterFinished = DefaultJobTTLSeconds,
        TemplateLabels = runnerLabels plan target operation executionID,
        TemplateAnnotations = runnerAnnotations plan target,
        ServiceAccountName = (if RunnerServiceAccount (infra e) = '''' then ''hibernator-runner''
                              else RunnerServiceAccount (infra e)),
        Image = (if ei_RunnerImage (infra e) = '''' then RunnerImage else ei_RunnerImage (infra e)),
        Args = [''--operation'', operation_string operation, ''--target'', tgt_Name target,
                ''--target-type'', tgt_Type target, ''--plan'', Name plan],
        EnvVars = runnerEnv e plan target executionID,
        TokenAudience = StreamTokenAudience, TokenExpiration = StreamTokenExpirationSeconds\<rparr>,
      Active = 0, Succeeded = 0, Failed = 0, j_StartTime = None, Conditions = []\<rparr>"

definition createRunnerJob :: "Env \<Rightarrow> Target \<Rightarrow> PlanOperation \<Rightarrow> World \<Rightarrow> go_error option \<times> World" where
  "createRunnerJob e target operation w =
     (let plan = eff w;
          ts = show_int (unix_sec (now e));
          baseID = Name plan @ ''-'' @ tgt_Name target
      in case (ShortenName baseID (63 - int (length ts) - 1), ShortenName baseID 50) of
           (Inr short, Inr gen) \<Rightarrow>
             (let job = runnerJob e plan target operation (short @ ''-'' @ ts) (''runner-'' @ gen @ ''-'') in
              case SetControllerReference e plan job of
                Some err \<Rightarrow> (Some (Wrap ''set owner reference: '' (ApiError err)), w)
              | None \<Rightarrow>
                  (case CreateJob e job of
                     Inl err \<Rightarrow> (Some (ApiError err), w)
                   | Inr name \<Rightarrow> (None, w\<lparr>jobs := jobs w @ [job\<lparr>j_Name := name\<rparr>]\<rparr>)))
         | _ \<Rightarrow> (Some Panic, w\<lparr>panicked := True\<rparr>))"

section \<open>Dispatch\<close>

fun validateTargets :: "Env \<Rightarrow> Target list \<Rightarrow> go_error option" where
  "validateTargets e [] = None"
| "validateTargets e (t # ts) =
     (case tgt_Parameters t of
        None \<Rightarrow> validateTargets e ts
      | Some raw \<Rightarrow>
          if raw \<noteq> '''' \<and> ValidateParams e (tgt_Type t) raw \<noteq> []
          then Some (ErrMsg (''target '' @ quote (tgt_Name t) @ '': '' @ join ''; '' (ValidateParams e (tgt_Type t) raw)))
          else validateTargets e ts)"

definition validateRuntimeOverrides :: "Env \<Rightarrow> HibernatePlan \<Rightarrow> go_error option" where
  "validateRuntimeOverrides e plan =
     (case lockedSnapshot plan of
        Some snap \<Rightarrow> validateTargets e (sn_Targets snap)
      | None \<Rightarrow>
          (case List.find (overrideEligible e) (Exceptions e) of
             None \<Rightarrow> None
           | Some _ \<Rightarrow> validateTargets e (Targets (Spec plan))))"

definition showStrings :: "string list \<Rightarrow> string" where
  "showStrings xs = ''['' @ join '' '' xs @ '']''"

definition abortExec :: "string \<Rightarrow> string \<Rightarrow> HibernatePlanStatus \<Rightarrow> HibernatePlanStatus" where
  "abortExec targetName message st =
     st\<lparr>Executions := update_first (\<lambda>x. xe_Target x = targetName)
          (\<lambda>x. x\<lparr>State := StateAborted, xe_Message := message\<rparr>) (Executions st)\<rparr>"

definition pruneTarget :: "Env \<Rightarrow> string \<Rightarrow> string \<Rightarrow> World \<Rightarrow> World" where
  "pruneTarget e targetName message w =
     (let prevSnapshot = snapshotExecutionStates (Executions (Status (eff w)));
          w1 = set_eff (with_status (abortExec targetName message) (eff w)) w
      in SendEff e (status_update (\<lambda>_. abortExec targetName message)
           (executionProgressPostHook (notify e) (stateSnapshot prevSnapshot))) w1)"

definition stageLimit :: "ExecutionStage \<Rightarrow> int" where
  "stageLimit stage =
     (if xs_MaxConcurrency stage \<le> 0 then wrap32 (int (length (xs_Targets stage))) else xs_MaxConcurrency stage)"

definition isStrict :: "HibernatePlan \<Rightarrow> bool" where
  "isStrict plan \<longleftrightarrow> Mode (sp_Behavior (Spec plan)) = BehaviorStrict"

fun dispatchTargets :: "Env \<Rightarrow> PlanOperation \<Rightarrow> Job list \<Rightarrow> nat \<Rightarrow> int \<Rightarrow> string list \<Rightarrow> nat \<Rightarrow> World \<Rightarrow> outcome" where
  "dispatchTargets e operation js runningCount limit [] jobsCreated w =
     ((requeueAfter RequeueIntervalDuringStage, None), w)"
| "dispatchTargets e operation js runningCount limit (targetName # rest) jobsCreated w =
     (let plan = eff w in
      case FindTarget plan targetName of
        None \<Rightarrow> dispatchTargets e operation js runningCount limit rest jobsCreated w
      | Some target \<Rightarrow>
          if (case FindExecutionStatus plan (tgt_Type target) targetName of
                None \<Rightarrow> False | Some x \<Rightarrow> isTerminalState (State x))
          then dispatchTargets e operation js runningCount limit rest jobsCreated w
          else
            (let failedUpstream =
               (if es_Type (Strategy (sp_Execution (Spec plan))) = StrategyDAG
                then FindFailedUpstream plan targetName else [])
             in if failedUpstream \<noteq> [] then
                  (if isStrict plan then
                     ((noResult, Some (PlanError (ErrMsg (''target '' @ quote targetName @
                        '' blocked: upstream dependency '' @ showStrings failedUpstream @ '' failed'')))), w)
                   else dispatchTargets e operation js runningCount limit rest jobsCreated
                     (pruneTarget e targetName (''Aborted: upstream dependency '' @ showStrings failedUpstream @
                        '' failed'') w))
                else if JobExistsForTarget js targetName operation (CurrentCycleID (Status plan))
                then dispatchTargets e operation js runningCount limit rest jobsCreated w
                else if wrap32 (int (runningCount + jobsCreated)) \<ge> limit
                then ((requeueAfter RequeueIntervalDuringStage, None), w)
                else
                  (case createRunnerJob e target operation w of
                     (Some err, w') \<Rightarrow>
                       (if isStrict plan \<and> FailFast (sp_Behavior (Spec plan)) then
                          ((noResult, Some (PlanError (Wrap (''failed to create job for target '' @ targetName @ '': '') err))), w')
                        else dispatchTargets e operation js runningCount limit rest (Suc jobsCreated) w')
                   | (None, w') \<Rightarrow>
                       dispatchTargets e operation js runningCount limit rest (Suc jobsCreated) w')))"

definition executeForStage :: "Env \<Rightarrow> Job list \<Rightarrow> ExecutionStage \<Rightarrow> PlanOperation \<Rightarrow> World \<Rightarrow> outcome" where
  "executeForStage e js stage operation w =
     dispatchTargets e operation js (CountRunningJobsInStage js stage) (stageLimit stage) (xs_Targets stage) 0 w"

section \<open>The walk over the stages\<close>

definition failedIn :: "HibernatePlan \<Rightarrow> ExecutionStage \<Rightarrow> string list" where
  "failedIn plan stage =
     map xe_Target (filter (\<lambda>x. State x = StateFailed \<and> xe_Target x \<in> set (xs_Targets stage))
       (Executions (Status plan)))"

definition atStage :: "Env \<Rightarrow> PlanOperation \<Rightarrow> (World \<Rightarrow> World) \<Rightarrow> Job list \<Rightarrow> ExecutionPlan \<Rightarrow> World \<Rightarrow> outcome" where
  "atStage e operation finalize js execPlan w =
     (let plan = eff w; idx = CurrentStageIndex (Status plan); stages = Stages execPlan in
      if idx \<ge> int (length stages) then ((noResult, None), finalize w)
      else if idx < 0 then ((noResult, Some Panic), w\<lparr>panicked := True\<rparr>)
      else
        (let targetStage = stages ! nat idx; stageStatus = GetStageStatus plan targetStage in
         if AllTerminal stageStatus then
           (if FailedCount stageStatus > 0 \<and> isStrict plan then
              ((noResult, Some (PlanError (ErrMsg (''one or more targets failed: '' @
                 join '', '' (failedIn plan targetStage))))), w)
            else if idx + 1 < int (length stages) then
              executeForStage e js (stages ! nat (idx + 1)) operation (nextStage e (idx + 1) w)
            else ((noResult, None), finalize w))
         else if HasPending stageStatus then executeForStage e js targetStage operation w
         else ((requeueAfter RequeueIntervalDuringStage, None), w)))"

definition execute :: "Env \<Rightarrow> PlanOperation \<Rightarrow> bool \<Rightarrow> (World \<Rightarrow> World) \<Rightarrow> World \<Rightarrow> outcome" where
  "execute e operation reverse finalize w0 =
     (let w1 = w0\<lparr>planCopy := effectivePlan e (livePlan w0)\<rparr>;
          leave = (\<lambda>(r, w). (r, w\<lparr>planCopy := None\<rparr>))
      in leave
          (case getCurrentCycleJobs e (eff w1) w1 of
             Inl err \<Rightarrow> ((noResult, Some err), w1)
           | Inr js \<Rightarrow>
               (let w = updateExecutionStatuses e js w1;
                    invalid = (if CurrentStageIndex (Status (eff w)) = 0
                               then validateRuntimeOverrides e (eff w) else None)
                in case invalid of
                     Some err \<Rightarrow> ((noResult, Some (PlanError (Wrap ''runtime validation failed: '' err))), w)
                   | None \<Rightarrow>
                       (case buildExecutionPlan (eff w) reverse of
                          Inl err \<Rightarrow> ((noResult, Some (PlanError (Wrap ''failed to build execution plan: '' err))), w)
                        | Inr execPlan \<Rightarrow> atStage e operation finalize js execPlan w))))"

section \<open>Draining\<close>

definition inFlight :: "ExecutionStatus \<Rightarrow> bool" where
  "inFlight x \<longleftrightarrow> LogsRef x \<noteq> '''' \<and> FinishedAt x = None"

definition awaitExecutionDrain :: "Env \<Rightarrow> World \<Rightarrow> (bool \<times> StateResult \<times> go_error option) \<times> World" where
  "awaitExecutionDrain e w =
     (case getCurrentCycleJobs e (livePlan w) w of
        Inl err \<Rightarrow> ((False, noResult, Some (Wrap ''failed to get current cycle jobs: '' err)), w)
      | Inr js \<Rightarrow>
          (let w' = updateExecutionStatuses e js w in
           if list_ex inFlight (Executions (status w'))
           then ((False, noResult\<lparr>RequeueAfter := RequeueIntervalOnExecution,
                    TimeoutAfter := TimeoutTransitionToSuspended\<rparr>, None), w')
           else ((True, noResult, None), w')))"

section \<open>What dispatch leaves alone\<close>

lemma eff_simps [simp]:
  "eff (set_eff p w) = p" "jobs (set_eff p w) = jobs w" "outbox (set_eff p w) = outbox w"
  "restoreStore (set_eff p w) = restoreStore w" "jobMisses (set_eff p w) = jobMisses w"
  "eff (w\<lparr>jobs := js\<rparr>) = eff w" "eff (w\<lparr>panicked := b\<rparr>) = eff w" "eff (w\<lparr>outbox := ob\<rparr>) = eff w"
  "planCopy (set_eff p w) = (case planCopy w of None \<Rightarrow> None | Some _ \<Rightarrow> Some p)"
  by (simp_all add: set_eff_def eff_def split: option.splits)

lemma SendEff_status_update [simp]:
  "SendEff e (status_update f post) w =
     (set_eff (with_status (f (now e)) (eff w)) w)\<lparr>outbox := fifo_Send (status_update f post) (outbox w)\<rparr>"
  by (simp add: SendEff_def)

lemma abortExec_frame [simp]:
  "Phase (abortExec t m st) = Phase st" "CurrentOperation (abortExec t m st) = CurrentOperation st"
  "CurrentCycleID (abortExec t m st) = CurrentCycleID st"
  "CurrentStageIndex (abortExec t m st) = CurrentStageIndex st"
  "PlanSnapshot (abortExec t m st) = PlanSnapshot st" "RetryCount (abortExec t m st) = RetryCount st"
  "ExecutionHistory (abortExec t m st) = ExecutionHistory st"
  by (simp_all add: abortExec_def)

text \<open>The part of a plan that dispatch reads besides the executions.\<close>

definition plan_core :: "HibernatePlan \<Rightarrow> _" where
  "plan_core p = (Name p, Namespace p, Spec p, Phase (Status p), CurrentOperation (Status p),
     CurrentCycleID (Status p), CurrentStageIndex (Status p), PlanSnapshot (Status p), RetryCount (Status p),
     ExecutionHistory (Status p))"

lemma plan_core_with_status [simp]:
  "plan_core (with_status (abortExec t m) p) = plan_core p"
  "plan_core (with_status (\<lambda>st. st\<lparr>Executions := xs\<rparr>) p) = plan_core p"
  by (simp_all add: plan_core_def)

lemma pruneTarget_frame [frame]:
  "jobs (pruneTarget e t m w) = jobs w" "plan_core (eff (pruneTarget e t m w)) = plan_core (eff w)"
  "plan_core (livePlan (pruneTarget e t m w)) = plan_core (livePlan w)"
  by (cases "planCopy w"; simp add: pruneTarget_def Let_def set_eff_def eff_def)+

lemma createRunnerJob_frame [frame]:
  "createRunnerJob e t op w = (err, w') \<Longrightarrow>
     livePlan w' = livePlan w \<and> planCopy w' = planCopy w \<and> eff w' = eff w \<and> outbox w' = outbox w"
  by (auto simp: createRunnerJob_def Let_def eff_def split: sum.splits option.splits)

lemma createRunnerJob_jobs:
  assumes "createRunnerJob e t op w = (err, w')"
  shows "(\<exists>job. jobs w' = jobs w @ [job] \<and> err = None \<and>
      j_Labels job = runnerLabels (eff w) t op (the (j_Labels job LabelExecutionID)) \<and>
      j_Namespace job = Namespace (eff w) \<and> Conditions job = []) \<or> (jobs w' = jobs w \<and> err \<noteq> None)"
  using assms
  by (auto simp: createRunnerJob_def Let_def runnerJob_def runnerLabels_def split: sum.splits option.splits)

section \<open>Dispatch\<close>

lemma runnerLabels_simps [simp]:
  "runnerLabels p t op x LabelTarget = Some (tgt_Name t)"
  "runnerLabels p t op x LabelOperation = Some (operation_string op)"
  "runnerLabels p t op x LabelCycleID = Some (CurrentCycleID (Status p))"
  "runnerLabels p t op x LabelPlan = Some (Name p)" "runnerLabels p t op x LabelExecutor = Some (tgt_Type t)"
  "runnerLabels p t op x LabelStaleRunnerJob = None"
  by (simp_all add: runnerLabels_def)

text \<open>A job that a stage may create.\<close>

definition fresh_job :: "HibernatePlan \<Rightarrow> PlanOperation \<Rightarrow> Job list \<Rightarrow> string list \<Rightarrow> Job \<Rightarrow> bool" where
  "fresh_job plan operation js targets j \<longleftrightarrow>
     (\<exists>t. t \<in> set targets \<and> j_Labels j LabelTarget = Some t \<and>
        \<not> JobExistsForTarget js t operation (CurrentCycleID (Status plan))) \<and>
     j_Labels j LabelOperation = Some (operation_string operation) \<and>
     j_Labels j LabelCycleID = Some (CurrentCycleID (Status plan)) \<and>
     j_Labels j LabelPlan = Some (Name plan) \<and> j_Namespace j = Namespace plan \<and>
     \<not> isStale j \<and> \<not> isJobTerminal j"

lemma fresh_job_cong:
  "plan_core p = plan_core q \<Longrightarrow> fresh_job p op js ts j = fresh_job q op js ts j"
  by (simp add: fresh_job_def plan_core_def)

lemma fresh_job_mono: "fresh_job p op js ts j \<Longrightarrow> fresh_job p op js (t # ts) j"
  by (auto simp: fresh_job_def)

lemma FindTarget_name: "FindTarget p n = Some t \<Longrightarrow> tgt_Name t = n"
  by (auto simp: FindTarget_def find_Some_iff)

lemma created_fresh:
  assumes "j_Labels job = runnerLabels p t op x" "FindTarget p n = Some t" "j_Namespace job = Namespace p"
    "Conditions job = []" "\<not> JobExistsForTarget js n op (CurrentCycleID (Status p))"
  shows "fresh_job p op js (n # ts) job"
  using assms FindTarget_name [OF assms(2)] by (simp add: fresh_job_def isStale_def isJobTerminal_def)

text \<open>The invariant of the dispatch loop.\<close>

definition dispatched :: "HibernatePlan \<Rightarrow> PlanOperation \<Rightarrow> Job list \<Rightarrow> nat \<Rightarrow> int \<Rightarrow> string list \<Rightarrow> nat \<Rightarrow>
    World \<Rightarrow> World \<Rightarrow> bool" where
  "dispatched p op js running limit ts created w w' \<longleftrightarrow>
     (\<exists>new. jobs w' = jobs w @ new \<and> list_all (fresh_job p op js ts) new \<and>
        int (length new) \<le> max 0 (limit - int (running + created)) \<and>
        (distinct ts \<longrightarrow> distinct (map (\<lambda>j. the (j_Labels j LabelTarget)) new))) \<and>
     plan_core (eff w') = plan_core (eff w) \<and> plan_core (livePlan w') = plan_core (livePlan w)"

lemma dispatched_refl: "dispatched p op js running limit ts created w w"
  by (auto simp: dispatched_def)

lemma dispatched_skip:
  "dispatched p op js running limit ts created w w' \<Longrightarrow> dispatched p op js running limit (t # ts) created w w'"
  by (auto simp: dispatched_def list_all_iff fresh_job_mono)

lemma dispatched_trans:
  "jobs w1 = jobs w \<Longrightarrow> plan_core (eff w1) = plan_core (eff w) \<Longrightarrow>
   plan_core (livePlan w1) = plan_core (livePlan w) \<Longrightarrow>
   dispatched p op js running limit ts created w1 w' \<Longrightarrow> dispatched p op js running limit ts created w w'"
  by (auto simp: dispatched_def)

lemma dispatched_create:
  assumes "jobs w1 = jobs w @ [job]" "fresh_job p op js (t # ts) job" "j_Labels job LabelTarget = Some t"
    and "eff w1 = eff w" "livePlan w1 = livePlan w" "int (running + created) < limit"
    and "dispatched p op js running limit ts (Suc created) w1 w'"
  shows "dispatched p op js running limit (t # ts) created w w'"
proof -
  obtain new where new: "jobs w' = jobs w1 @ new" "list_all (fresh_job p op js ts) new"
    "int (length new) \<le> max 0 (limit - int (running + Suc created))"
    "distinct ts \<longrightarrow> distinct (map (\<lambda>j. the (j_Labels j LabelTarget)) new)"
    using assms(7) by (auto simp: dispatched_def)
  have "the (j_Labels j LabelTarget) \<in> set ts" if "j \<in> set new" for j
    using new(2) that by (auto simp: list_all_iff fresh_job_def)
  then have "distinct (t # ts) \<longrightarrow> distinct (map (\<lambda>j. the (j_Labels j LabelTarget)) (job # new))"
    using new(4) assms(3) by auto
  moreover have "int (length (job # new)) \<le> max 0 (limit - int (running + created))"
    using new(3) assms(6) by auto
  moreover have "list_all (fresh_job p op js (t # ts)) (job # new)"
    using new(2) assms(2) by (auto simp: list_all_iff fresh_job_mono)
  ultimately show ?thesis using new(1) assms(1,4,5,7) by (auto simp: dispatched_def intro!: exI [of _ "job # new"])
qed

definition same_frame :: "World \<Rightarrow> World \<Rightarrow> bool" where
  "same_frame w w1 \<longleftrightarrow> jobs w1 = jobs w \<and> plan_core (eff w1) = plan_core (eff w) \<and>
     plan_core (livePlan w1) = plan_core (livePlan w)"

lemma same_frame_dispatched: "same_frame w w' \<Longrightarrow> dispatched p op js running limit ts created w w'"
  by (auto simp: same_frame_def dispatched_def)

text \<open>The four things one turn of the loop can do.\<close>

lemma create_cases:
  assumes "createRunnerJob e t op w = (err, w1)" "FindTarget (eff w) n = Some t"
    and "\<not> JobExistsForTarget js n op (CurrentCycleID (Status (eff w)))"
  obtains (failed) "err \<noteq> None" "same_frame w w1"
  | (created) job where "err = None" "jobs w1 = jobs w @ [job]" "\<And>ts. fresh_job (eff w) op js (n # ts) job"
      "j_Labels job LabelTarget = Some n" "eff w1 = eff w" "livePlan w1 = livePlan w"
  using createRunnerJob_jobs [OF assms(1)] createRunnerJob_frame [OF assms(1)]
proof (elim disjE exE conjE)
  fix job assume job: "jobs w1 = jobs w @ [job]" "err = None"
    "j_Labels job = runnerLabels (eff w) t op (the (j_Labels job LabelExecutionID))"
    "j_Namespace job = Namespace (eff w)" "Conditions job = []" "eff w1 = eff w" "livePlan w1 = livePlan w"
  have "j_Labels job LabelTarget = Some n"
    using job(3) FindTarget_name [OF assms(2)] by (metis runnerLabels_simps(1))
  then show thesis using created job created_fresh [OF job(3) assms(2) job(4,5) assms(3)] by blast
qed (use failed in \<open>simp add: same_frame_def\<close>)

lemma dispatch_Cons_cases:
  assumes "dispatchTargets e op js running limit (n # ts) created w = (r, w')"
    and "int (running + created) < 2 ^ 31"
  obtains (stop) "same_frame w w'"
  | (skip) w1 where "same_frame w w1" "dispatchTargets e op js running limit ts created w1 = (r, w')"
  | (failed) w1 where "same_frame w w1" "dispatchTargets e op js running limit ts (Suc created) w1 = (r, w')"
  | (create) w1 job where "dispatchTargets e op js running limit ts (Suc created) w1 = (r, w')"
      "jobs w1 = jobs w @ [job]" "\<And>ts. fresh_job (eff w) op js (n # ts) job" "j_Labels job LabelTarget = Some n"
      "eff w1 = eff w" "livePlan w1 = livePlan w" "int (running + created) < limit"
proof (cases "FindTarget (eff w) n")
  case None
  then show thesis using assms(1) skip [of w] by (simp add: same_frame_def)
next
  case (Some t)
  let ?terminal = "case FindExecutionStatus (eff w) (tgt_Type t) n of None \<Rightarrow> False | Some x \<Rightarrow> isTerminalState (State x)"
  let ?up = "if es_Type (Strategy (sp_Execution (Spec (eff w)))) = StrategyDAG then FindFailedUpstream (eff w) n else []"
  let ?exists = "JobExistsForTarget js n op (CurrentCycleID (Status (eff w)))"
  let ?w1 = "pruneTarget e n (''Aborted: upstream dependency '' @ showStrings ?up @ '' failed'') w"
  have w32: "wrap32 (int (running + created)) = int (running + created)" using assms(2) by (simp add: wrap32_id)
  consider "?terminal" | "\<not> ?terminal" "?up \<noteq> []" "isStrict (eff w)" | "\<not> ?terminal" "?up \<noteq> []" "\<not> isStrict (eff w)"
    | "\<not> ?terminal" "?up = []" "?exists" | "\<not> ?terminal" "?up = []" "\<not> ?exists" "int (running + created) \<ge> limit"
    | "\<not> ?terminal" "?up = []" "\<not> ?exists" "int (running + created) < limit" by linarith
  then show thesis
  proof cases
    case 1
    then have "dispatchTargets e op js running limit ts created w = (r, w')" using assms(1) Some by (simp add: Let_def)
    then show thesis using skip [of w] by (simp add: same_frame_def)
  next
    case 2
    then have "w' = w" using assms(1) Some by (auto simp: Let_def)
    then show thesis using stop by (simp add: same_frame_def)
  next
    case 3
    then have "dispatchTargets e op js running limit ts created ?w1 = (r, w')" using assms(1) Some by (simp add: Let_def)
    then show thesis using skip [of ?w1] by (simp add: same_frame_def pruneTarget_frame)
  next
    case 4
    then have "dispatchTargets e op js running limit ts created w = (r, w')" using assms(1) Some by (simp add: Let_def)
    then show thesis using skip [of w] by (simp add: same_frame_def)
  next
    case 5
    then have "w' = w" using assms(1) Some w32 by (auto simp: Let_def)
    then show thesis using stop by (simp add: same_frame_def)
  next
    case 6
    obtain err w1 where c: "createRunnerJob e t op w = (err, w1)" by fastforce
    from c Some 6(3) show thesis
    proof (cases rule: create_cases)
      case failed
      then have "w' = w1 \<or> dispatchTargets e op js running limit ts (Suc created) w1 = (r, w')"
        using assms(1) Some 6 w32 c by (auto simp: Let_def split: if_splits)
      then show thesis using that(1,3) failed(2) by blast
    next
      case (created job)
      then have "dispatchTargets e op js running limit ts (Suc created) w1 = (r, w')"
        using assms(1) Some 6 w32 c by (simp add: Let_def)
      then show thesis using create created 6(4) by blast
    qed
  qed
qed

lemma dispatchTargets_dispatched:
  assumes "dispatchTargets e op js running limit ts created w = (r, w')"
    and "int (running + created + length ts) < 2 ^ 31" "plan_core (eff w) = plan_core p"
  shows "dispatched p op js running limit ts created w w'"
  using assms
proof (induction ts arbitrary: created w)
  case (Cons n ts)
  have "int (running + created) < 2 ^ 31" using Cons.prems(2) by simp
  with Cons.prems(1) show ?case
  proof (cases rule: dispatch_Cons_cases)
    case (skip w1)
    then have "dispatched p op js running limit ts created w1 w'"
      using Cons.IH Cons.prems by (simp add: same_frame_def)
    from dispatched_skip [OF this] show ?thesis
      using skip(1) dispatched_trans [of w1 w] by (simp add: same_frame_def)
  next
    case (failed w1)
    then have "dispatched p op js running limit ts (Suc created) w1 w'"
      using Cons.IH Cons.prems by (simp add: same_frame_def)
    then have "dispatched p op js running limit ts created w1 w'" by (auto simp: dispatched_def)
    from dispatched_skip [OF this] show ?thesis
      using failed(1) dispatched_trans [of w1 w] by (simp add: same_frame_def)
  next
    case (create w1 job)
    then have "dispatched p op js running limit ts (Suc created) w1 w'" using Cons.IH Cons.prems by simp
    moreover have "fresh_job p op js (n # ts) job" using create(3) fresh_job_cong [OF Cons.prems(3)] by simp
    ultimately show ?thesis using dispatched_create [OF create(2) _ create(4,5,6,7)] by simp
  qed (simp add: same_frame_dispatched)
qed (simp add: dispatched_refl)

text \<open>
  C9.  Executing a stage never exceeds its concurrency limit and never starts a target twice:
  the jobs it adds belong to targets of the stage that have no current job of this operation and
  cycle, there is at most one per target, none is stale, and together with the jobs already
  running there are at most as many as the limit (or none are added).  The stage names each of its
  targets once, which an override with repeated names need not give.
\<close>

theorem executeForStage_dispatch:
  assumes "executeForStage e js stage operation w = (r, w')" "distinct (xs_Targets stage)"
    and "length js + length (xs_Targets stage) < 2 ^ 31"
  shows "\<exists>new. jobs w' = jobs w @ new \<and> list_all (fresh_job (eff w) operation js (xs_Targets stage)) new \<and>
     distinct (map (\<lambda>j. the (j_Labels j LabelTarget)) new) \<and>
     (new = [] \<or> int (CountRunningJobsInStage js stage + length new) \<le> stageLimit stage)"
proof -
  have "CountRunningJobsInStage js stage \<le> length js" by (simp add: CountRunningJobsInStage_def)
  then have "int (CountRunningJobsInStage js stage + 0 + length (xs_Targets stage)) < 2 ^ 31"
    using assms(3) by simp
  from dispatchTargets_dispatched [OF assms(1) [unfolded executeForStage_def] this refl] assms(2)
  show ?thesis by (auto simp: dispatched_def max_def split: if_splits)
qed

section \<open>A small plan to run\<close>

definition emptyStatus :: HibernatePlanStatus where
  "emptyStatus = \<lparr>CurrentCycleID = '''', Phase = PhaseUnset, LastTransitionTime = None, Executions = [],
     ObservedGeneration = 0, RetryCount = 0, LastRetryTime = None, ErrorMessage = '''', ExceptionReferences = [],
     AppliedExceptionOverride = '''', PlanSnapshot = None, CurrentStageIndex = 0, CurrentOperation = OperationUnset,
     ExecutionHistory = []\<rparr>"

definition sampleTarget :: "string \<Rightarrow> Target" where
  "sampleTarget name = \<lparr>tgt_Name = name, tgt_Type = ''noop'',
     tgt_ConnectorRef = \<lparr>cr_Kind = ''CloudProvider'', cr_Name = ''aws'', cr_Namespace = ''''\<rparr>,
     tgt_Parameters = None\<rparr>"

definition pendingExec :: "string \<Rightarrow> ExecutionStatus" where
  "pendingExec name = \<lparr>xe_Target = name, Executor = ''noop'', State = StatePending, StartedAt = None,
     FinishedAt = None, Attempts = 0, xe_Message = '''', JobRef = '''', LogsRef = '''', RestoreRef = '''',
     ServiceAccountRef = '''', ConnectorSecretRef = '''', RestoreConfigMapRef = ''''\<rparr>"

definition sampleSpec :: "Target list \<Rightarrow> HibernatePlanSpec" where
  "sampleSpec ts = \<lparr>sp_Schedule = \<lparr>sc_Timezone = ''UTC'', OffHours = []\<rparr>,
     sp_Execution = \<lparr>Strategy = \<lparr>es_Type = StrategySequential, es_MaxConcurrency = None, Dependencies = [],
       es_Stages = []\<rparr>\<rparr>,
     sp_Behavior = \<lparr>Mode = BehaviorStrict, FailFast = False, Retries = None\<rparr>, Suspend = False, Targets = ts\<rparr>"

definition samplePlan :: "HibernatePlanStatus \<Rightarrow> HibernatePlan" where
  "samplePlan st = \<lparr>Name = ''web'', Namespace = ''prod'', Generation = 1, DeletionTimestamp = None,
     Finalizers = [], Labels = Map.empty, Annotations = Map.empty,
     Spec = sampleSpec [sampleTarget ''db'', sampleTarget ''app''], Status = st\<rparr>"

definition sampleWorld :: "HibernatePlanStatus \<Rightarrow> World" where
  "sampleWorld st = \<lparr>livePlan = samplePlan st, planCopy = None, jobs = [], outbox = FIFOSlot 1000,
     jobMisses = Map.empty, restoreStore = None, staleMarks = [], tracked = True, panicked = False\<rparr>"

definition sampleNow :: Time where "sampleNow = \<lparr>t_ns = 0, t_loc = UTC\<rparr>"

definition sampleEnv :: Env where
  "sampleEnv = \<lparr>now = sampleNow, newUUID = ''abcd1234'', scheduleResult = Some True, Exceptions = [],
     pc_HasRestoreData = False, PatchPlan = (\<lambda>_ p. Inr p), listErr = None, cachedJobs = Inr [],
     CreateJob = (\<lambda>j. Inr (GenerateName j @ ''x'')), PatchJob = (\<lambda>_. None), DeleteJob = (\<lambda>_. None),
     SetControllerReference = (\<lambda>_ _. None), Pods = (\<lambda>_. Inr []), ValidateParams = (\<lambda>_ _. []),
     apiErrorCode = (\<lambda>_. None), hasRestoreManager = True, cmApi = okApi, previousState = (\<lambda>_. ''{}''),
     infra = \<lparr>ei_RunnerImage = '''', RunnerServiceAccount = '''', ControlPlaneEndpoint = ''ctl''\<rparr>,
     notify = \<lparr>hasNotifier = False, Notifications = [], getCloudProvider = (\<lambda>_ _. None),
       getK8SCluster = (\<lambda>_ _. None), ne_now = sampleNow\<rparr>\<rparr>"

lemmas sample_defs = sampleEnv_def sampleWorld_def samplePlan_def sampleSpec_def sampleTarget_def
  emptyStatus_def sampleNow_def

definition dbStage :: ExecutionStage where
  "dbStage = \<lparr>xs_Targets = [''db''], xs_MaxConcurrency = 1\<rparr>"

theorem executeForStage_dispatch_witness:
  "\<exists>r w' j. executeForStage sampleEnv [] dbStage OperationHibernate
      (sampleWorld (emptyStatus\<lparr>CurrentCycleID := ''c1''\<rparr>)) = (r, w') \<and>
     jobs w' = [j] \<and> j_Labels j LabelTarget = Some ''db''"
proof -
  let ?w = "sampleWorld (emptyStatus\<lparr>CurrentCycleID := ''c1''\<rparr>)"
  obtain r w' where run: "executeForStage sampleEnv [] dbStage OperationHibernate ?w = (r, w')" by fastforce
  then have "length (jobs w') = 1"
    by (auto simp: executeForStage_def dbStage_def stageLimit_def CountRunningJobsInStage_def FindTarget_def
        FindExecutionStatus_def JobExistsForTarget_def createRunnerJob_def ShortenName_def wrap32_id eff_def
        unix_sec_def show_int_def show_nat.simps sample_defs Let_def)
  then obtain j where j: "jobs w' = [j]" by (auto simp: length_Suc_conv)
  obtain new where "jobs w' = jobs ?w @ new" "list_all (fresh_job (eff ?w) OperationHibernate [] [''db'']) new"
    using executeForStage_dispatch [OF run] by (auto simp: dbStage_def)
  then have "j_Labels j LabelTarget = Some ''db''"
    using j by (auto simp: sampleWorld_def fresh_job_def)
  then show ?thesis using run j by blast
qed

section \<open>Overrides\<close>

lemma foldl_newerOverride:
  "foldl newerOverride r xs = Some x \<Longrightarrow>
     (x \<in> set xs \<or> r = Some x) \<and> (\<forall>y \<in> set xs \<union> set_option r. t_ns (CreationTimestamp y) \<le> t_ns (CreationTimestamp x))"
proof (induction xs arbitrary: r)
  case (Cons a xs)
  have "t_ns (CreationTimestamp a) \<le> t_ns (CreationTimestamp b)" "\<forall>y \<in> set_option r. t_ns (CreationTimestamp y) \<le> t_ns (CreationTimestamp b)"
    if "newerOverride r a = Some b" for b
    using that by (auto simp: newerOverride_def After_def split: option.splits if_splits)
  moreover have "\<exists>b. newerOverride r a = Some b \<and> (b = a \<or> r = Some b)"
    by (auto simp: newerOverride_def split: option.splits)
  then obtain b where b: "newerOverride r a = Some b" "b = a \<or> r = Some b" by blast
  ultimately show ?case using Cons.IH [of "Some b"] Cons.prems by fastforce
qed simp

lemma foldl_newerOverride_None: "foldl newerOverride r xs = None \<longleftrightarrow> r = None \<and> xs = []"
  by (induction xs arbitrary: r) (auto simp: newerOverride_def split: option.splits)

text \<open>
  The override in force is that of an eligible exception (active, not a suspension, within
  its validity period, not being deleted, with overrides) that no eligible one is newer than; and
  there is one whenever an eligible exception exists.
\<close>

lemma findActiveExceptionOverride_newest:
  "case findActiveExceptionOverride e of
     None \<Rightarrow> \<not> list_ex (overrideEligible e) (Exceptions e)
   | Some exc \<Rightarrow> exc \<in> set (Exceptions e) \<and> overrideEligible e exc \<and>
       list_all (\<lambda>x. t_ns (CreationTimestamp x) \<le> t_ns (CreationTimestamp exc))
         (filter (overrideEligible e) (Exceptions e))"
proof (cases "findActiveExceptionOverride e")
  case None
  then have "filter (overrideEligible e) (Exceptions e) = []"
    using foldl_newerOverride_None [of None] by (simp add: findActiveExceptionOverride_def)
  then show ?thesis using None by (simp add: list_ex_iff filter_empty_conv)
next
  case (Some exc)
  then show ?thesis
    using foldl_newerOverride [of None "filter (overrideEligible e) (Exceptions e)" exc]
    by (simp add: findActiveExceptionOverride_def list_all_iff)
qed

lemma set_disableTargets:
  "set (disableTargets ovs ts) = {t \<in> set ts. \<forall>ov \<in> set ovs. Disabled ov \<longrightarrow> tgt_Name t \<noteq> TargetName ov}"
  unfolding disableTargets_def by (induction ovs arbitrary: ts) auto

lemma names_set_parameters: "map tgt_Name (set_parameters n raw ts) = map tgt_Name ts"
proof -
  have "map tgt_Name (update_first (\<lambda>t. tgt_Name t = n) (\<lambda>t. t\<lparr>tgt_Parameters := Some raw\<rparr>) (rev ts)) = map tgt_Name (rev ts)"
    by (rule map_update_first) simp
  then show ?thesis by (simp add: set_parameters_def rev_map [symmetric])
qed

lemma names_overrideParameters: "map tgt_Name (overrideParameters ovs ts) = map tgt_Name ts"
  unfolding overrideParameters_def
  by (induction ovs arbitrary: ts) (auto simp: names_set_parameters split: option.splits)

text \<open>
  The plan that is executed: with a snapshot of the current cycle it has exactly the
  snapshot's targets, execution and behaviour, whatever the exceptions now say; without one, the
  targets of the effective plan are the plan's own, minus those the override disables.
\<close>

lemma effectivePlan_targets:
  "(case effectivePlan e plan of
      None \<Rightarrow> lockedSnapshot plan = None \<and> findActiveExceptionOverride e = None
    | Some p \<Rightarrow> Status p = Status plan \<and>
        (case lockedSnapshot plan of
           Some snap \<Rightarrow> Targets (Spec p) = sn_Targets snap \<and> sp_Execution (Spec p) = sn_Execution snap \<and>
             sp_Behavior (Spec p) = sn_Behavior snap
         | None \<Rightarrow> (\<exists>exc. findActiveExceptionOverride e = Some exc \<and>
             tgt_Name ` set (Targets (Spec p)) = tgt_Name ` set (Targets (Spec plan))
               - TargetName ` {ov \<in> set (TargetOverrides (exc_Spec exc)). Disabled ov})))"
proof (cases "lockedSnapshot plan")
  case (Some snap)
  then show ?thesis by (simp add: effectivePlan_def)
next
  case None
  have "tgt_Name ` set (overrideParameters ovs (disableTargets ovs ts)) =
      tgt_Name ` set ts - TargetName ` {ov \<in> set ovs. Disabled ov}" for ovs ts
  proof -
    have "tgt_Name ` set (overrideParameters ovs (disableTargets ovs ts)) = tgt_Name ` set (disableTargets ovs ts)"
      using arg_cong [OF names_overrideParameters [of ovs "disableTargets ovs ts"], of set] by simp
    then show ?thesis by (auto simp: set_disableTargets)
  qed
  then show ?thesis using None
    by (auto simp: effectivePlan_def buildEffectivePlan_def applyOverrides_def Let_def split: option.splits)
qed

section \<open>Lost jobs\<close>

fun misses :: "nat \<Rightarrow> string \<Rightarrow> World \<Rightarrow> bool list \<times> World" where
  "misses 0 target w = ([], w)"
| "misses (Suc n) target w =
     (case trackConsecutiveJobMiss target w of
        (lost, w1) \<Rightarrow> (case misses n target w1 of (ls, w2) \<Rightarrow> (lost # ls, w2)))"

text \<open>
  While a plan is executing, a job is declared lost on exactly the third consecutive poll
  that misses it, counting from when it was last seen; the count then starts over.
\<close>

lemma job_lost_on_third_miss:
  assumes "Phase (status w) = PhaseHibernating \<or> Phase (status w) = PhaseWakingUp"
  shows "fst (misses 6 target (resetConsecutiveJobMiss target w)) = [False, False, True, False, False, True]"
  using assms
  by (auto simp: numeral_eq_Suc resetConsecutiveJobMiss_def trackConsecutiveJobMiss_def Let_def)

lemma job_lost_on_third_miss_witness:
  "fst (misses 6 ''db'' (resetConsecutiveJobMiss ''db'' (sampleWorld (emptyStatus\<lparr>Phase := PhaseHibernating\<rparr>)))) =
     [False, False, True, False, False, True]"
  using job_lost_on_third_miss [of "sampleWorld (emptyStatus\<lparr>Phase := PhaseHibernating\<rparr>)" "''db''"]
  by (simp add: sampleWorld_def samplePlan_def)

end
