(* ===== verification/PlanMachine.thy ===== *)
theory PlanMachine
  imports Execution
begin

text \<open>
  The abstract state machine of a plan's status: what the handlers of
  \<^verbatim>\<open>plan/state\<close> promise to do to it in one turn.  The handler theories show that every call
  is such a turn; what a turn may change and the invariants are proved here, by cases on the
  decision it takes.
\<close>

section \<open>What a turn may do\<close>

definition executing :: "PlanPhase \<Rightarrow> bool" where
  "executing phase \<longleftrightarrow> phase = PhaseHibernating \<or> phase = PhaseWakingUp"

definition idle :: "PlanPhase \<Rightarrow> bool" where
  "idle phase \<longleftrightarrow> phase = PhaseActive \<or> phase = PhaseHibernated"

definition pending :: "ExecutionStatus list \<Rightarrow> bool" where
  "pending xs \<longleftrightarrow> list_all (\<lambda>x. State x = StatePending \<and> FinishedAt x = None \<and> LogsRef x = '''') xs"

text \<open>The fields that identify an execution never change while it runs.\<close>

definition same_targets :: "ExecutionStatus list \<Rightarrow> ExecutionStatus list \<Rightarrow> bool" where
  "same_targets xs ys \<longleftrightarrow> map xe_Target xs = map xe_Target ys \<and> map Executor xs = map Executor ys"

text \<open>
  While it executes an operation the plan makes progress: the executions of its targets are
  refreshed and the stage index advances by at most one.
\<close>

definition works :: "HibernatePlanStatus \<Rightarrow> HibernatePlanStatus \<Rightarrow> bool" where
  "works st st' \<longleftrightarrow> executing (Phase st) \<and> (\<exists>xs i. same_targets xs (Executions st) \<and>
     (i = CurrentStageIndex st \<or> i = CurrentStageIndex st + 1) \<and>
     st' = st\<lparr>Executions := xs, CurrentStageIndex := i\<rparr>)"

text \<open>
  The summary of an operation says of every target how it ended; it is recorded in the cycle
  under the operation's direction.
\<close>

definition targetResult :: "ExecutionStatus \<Rightarrow> TargetExecutionResult" where
  "targetResult x = \<lparr>tr_Target = xe_Target x, tr_State = State x, tr_Attempts = Attempts x,
     ExecutionID = TrimPrefix (LogsRef x) ExecutionIDLogPrefix,
     tr_StartedAt = StartedAt x, tr_FinishedAt = FinishedAt x, tr_Message = xe_Message x\<rparr>"

definition summary_of :: "HibernatePlanStatus \<Rightarrow> ExecutionOperationSummary \<Rightarrow> bool" where
  "summary_of st s \<longleftrightarrow> TargetResults s = map targetResult (Executions st) \<and>
     (Success s \<longleftrightarrow> list_all (\<lambda>x. \<not> isFailedState (State x)) (Executions st))"

definition recorded :: "HibernatePlanStatus \<Rightarrow> HibernatePlanStatus \<Rightarrow> bool" where
  "recorded st st' \<longleftrightarrow> (\<exists>s. summary_of st s \<and> st' = recordSummary
     (\<lambda>c. if Phase st = PhaseHibernating then c\<lparr>ShutdownExecution := Some s\<rparr> else c\<lparr>WakeupExecution := Some s\<rparr>)
     (CurrentCycleID st) st)"

text \<open>A retry returns failed executions to Pending and leaves the others as they are.\<close>

definition reset_failed :: "ExecutionStatus \<Rightarrow> ExecutionStatus \<Rightarrow> bool" where
  "reset_failed x y \<longleftrightarrow> y = x \<or> State x = StateFailed \<and> (\<exists>m. y = x\<lparr>State := StatePending, xe_Message := m\<rparr>)"

text \<open>The decisions a turn can take, each with its guard and all it changes.\<close>

inductive decides :: "HibernatePlanStatus \<Rightarrow> HibernatePlanStatus \<Rightarrow> bool" where
  start_hibernation:
    "idle (Phase st) \<Longrightarrow> pending xs \<Longrightarrow> st' = st\<lparr>Phase := PhaseHibernating, CurrentCycleID := c, CurrentStageIndex := 0,
       CurrentOperation := OperationHibernate, Executions := xs, AppliedExceptionOverride := x,
       LastTransitionTime := t, PlanSnapshot := snap\<rparr> \<Longrightarrow>
     snap = PlanSnapshot st \<and> x = '''' \<or> (\<exists>s. snap = Some s \<and> sn_CycleID s = c \<and> ExceptionName s = x \<and> x \<noteq> '''' \<and>
       map xe_Target xs = map tgt_Name (sn_Targets s)) \<Longrightarrow> decides st st'"
| start_wakeup:
    "idle (Phase st) \<Longrightarrow> pending xs \<Longrightarrow> st' = st\<lparr>Phase := PhaseWakingUp, CurrentStageIndex := 0,
       CurrentOperation := OperationWakeUp, Executions := xs, LastTransitionTime := t\<rparr> \<Longrightarrow>
     (\<And>s. PlanSnapshot st = Some s \<Longrightarrow> sn_CycleID s = CurrentCycleID st \<Longrightarrow> map xe_Target xs = map tgt_Name (sn_Targets s)) \<Longrightarrow>
     decides st st'"
| finish:
    "executing (Phase st) \<Longrightarrow> list_all (\<lambda>x. isTerminalState (State x)) (Executions st) \<Longrightarrow> recorded st st1 \<Longrightarrow>
     phase' = (if Phase st = PhaseHibernating then PhaseHibernated else PhaseActive) \<Longrightarrow>
     st' = st1\<lparr>Phase := phase', LastTransitionTime := t, RetryCount := 0, LastRetryTime := None, ErrorMessage := ''''\<rparr> \<Longrightarrow>
     decides st st'"
| fail:
    "executing (Phase st) \<Longrightarrow> st1 = st \<or> recorded st st1 \<Longrightarrow>
     st' = st1\<lparr>Phase := PhaseError, LastTransitionTime := t, ErrorMessage := msg\<rparr> \<Longrightarrow> decides st st'"
| suspend:
    "Phase st \<noteq> PhaseSuspended \<Longrightarrow> st' = st\<lparr>Phase := PhaseSuspended, ErrorMessage := '''', LastTransitionTime := t\<rparr> \<Longrightarrow>
     decides st st'"
| resume:
    "Phase st = PhaseSuspended \<Longrightarrow> idle phase' \<or> executing phase' \<Longrightarrow>
     st' = st\<lparr>Phase := phase', LastTransitionTime := t\<rparr> \<Longrightarrow> decides st st'"
| resume_failed:
    "Phase st = PhaseSuspended \<Longrightarrow> phase' = (if CurrentOperation st = OperationWakeUp then PhaseHibernated else PhaseActive) \<Longrightarrow>
     st' = st\<lparr>Phase := phase', RetryCount := 0, ErrorMessage := '''', LastRetryTime := None, LastTransitionTime := t\<rparr> \<Longrightarrow>
     decides st st'"
| reset_retries:
    "Phase st = PhaseError \<Longrightarrow> st' = st\<lparr>RetryCount := 0, LastRetryTime := None\<rparr> \<Longrightarrow> decides st st'"
| retry:
    "Phase st = PhaseError \<Longrightarrow> executing phase' \<Longrightarrow>
     (CurrentOperation st = OperationHibernate \<Longrightarrow> phase' = PhaseHibernating) \<Longrightarrow>
     (CurrentOperation st = OperationWakeUp \<Longrightarrow> phase' = PhaseWakingUp) \<Longrightarrow>
     list_all2 reset_failed (Executions st) xs \<Longrightarrow>
     st' = st\<lparr>RetryCount := wrap32 (RetryCount st + 1), LastRetryTime := t, ErrorMessage := msg, Executions := xs,
       Phase := phase'\<rparr> \<Longrightarrow> decides st st'"
| retry_too_soon:
    "Phase st = PhaseError \<Longrightarrow> st' = st\<lparr>ErrorMessage := msg\<rparr> \<Longrightarrow> decides st st'"

inductive_cases decides_cases: "decides st st'"

text \<open>
  A turn: some progress if the plan executes an operation, then at most one decision.  Nothing
  follows the decision.
\<close>

definition works_eq :: "HibernatePlanStatus \<Rightarrow> HibernatePlanStatus \<Rightarrow> bool" where
  "works_eq st st' \<longleftrightarrow> st' = st \<or> works st st'"

definition takes_turn :: "HibernatePlanStatus \<Rightarrow> HibernatePlanStatus \<Rightarrow> bool" where
  "takes_turn st st' \<longleftrightarrow> (\<exists>st1. works_eq st st1 \<and> (st' = st1 \<or> decides st1 st'))"

lemma works_eq_refl [simp]: "works_eq st st" by (simp add: works_eq_def)

lemma takes_turn_refl [simp]: "takes_turn st st" unfolding takes_turn_def by (rule exI [of _ st]) simp

lemma decides_turn: "decides st st' \<Longrightarrow> takes_turn st st'"
  unfolding takes_turn_def by (rule exI [of _ st]) simp

lemma works_eq_turn: "works_eq st st' \<Longrightarrow> takes_turn st st'" by (auto simp: takes_turn_def)

lemma works_eq_decides: "works_eq st st1 \<Longrightarrow> decides st1 st' \<Longrightarrow> takes_turn st st'" by (auto simp: takes_turn_def)

lemma works_eq_frame:
  assumes "works_eq st st'"
  shows "Phase st' = Phase st" "CurrentOperation st' = CurrentOperation st" "CurrentCycleID st' = CurrentCycleID st"
    "ExecutionHistory st' = ExecutionHistory st" "RetryCount st' = RetryCount st" "PlanSnapshot st' = PlanSnapshot st"
    "same_targets (Executions st') (Executions st)"
  using assms by (auto simp: works_eq_def works_def same_targets_def)

section \<open>Phases\<close>

text \<open>The edges of the phase diagram.\<close>

fun phase_edge :: "PlanPhase \<Rightarrow> PlanPhase \<Rightarrow> bool" where
  "phase_edge PhaseActive q = (q = PhaseHibernating \<or> q = PhaseWakingUp \<or> q = PhaseSuspended)"
| "phase_edge PhaseHibernated q = (q = PhaseHibernating \<or> q = PhaseWakingUp \<or> q = PhaseSuspended)"
| "phase_edge PhaseHibernating q = (q = PhaseHibernated \<or> q = PhaseError \<or> q = PhaseSuspended)"
| "phase_edge PhaseWakingUp q = (q = PhaseActive \<or> q = PhaseError \<or> q = PhaseSuspended)"
| "phase_edge PhaseSuspended q = (idle q \<or> executing q)"
| "phase_edge PhaseError q = (executing q \<or> q = PhaseSuspended)"
| "phase_edge _ q = (q = PhaseSuspended)"

lemma executing_cases: "executing p \<Longrightarrow> (p = PhaseHibernating \<Longrightarrow> R) \<Longrightarrow> (p = PhaseWakingUp \<Longrightarrow> R) \<Longrightarrow> R"
  by (auto simp: executing_def)

lemma idle_cases: "idle p \<Longrightarrow> (p = PhaseActive \<Longrightarrow> R) \<Longrightarrow> (p = PhaseHibernated \<Longrightarrow> R) \<Longrightarrow> R"
  by (auto simp: idle_def)

lemma recorded_frame:
  assumes "recorded st st'"
  shows "Phase st' = Phase st" "CurrentCycleID st' = CurrentCycleID st" "CurrentOperation st' = CurrentOperation st"
    "Executions st' = Executions st" "CurrentStageIndex st' = CurrentStageIndex st" "PlanSnapshot st' = PlanSnapshot st"
    "RetryCount st' = RetryCount st"
  using assms by (auto simp: recorded_def)

lemma decides_phase_edge: "decides st st' \<Longrightarrow> Phase st' = Phase st \<or> phase_edge (Phase st) (Phase st')"
proof (induction rule: decides.induct)
  case (suspend st st' t)
  then show ?case by (cases "Phase st") auto
qed (auto elim!: executing_cases idle_cases simp: executing_def idle_def)

text \<open>One turn is at most one edge of the diagram.\<close>

lemma takes_turn_phase_edge:
  assumes "takes_turn st st'"
  shows "Phase st' = Phase st \<or> phase_edge (Phase st) (Phase st')"
proof -
  obtain st1 where "works_eq st st1" "st' = st1 \<or> decides st1 st'" using assms by (auto simp: takes_turn_def)
  then show ?thesis using decides_phase_edge [of st1 st'] works_eq_frame(1) [of st st1] by auto
qed

section \<open>Invariants\<close>

text \<open>
  The history is bounded and has one entry per cycle; the stage index is never negative.
\<close>

definition status_inv :: "HibernatePlanStatus \<Rightarrow> bool" where
  "status_inv st \<longleftrightarrow> length (ExecutionHistory st) \<le> MaxCycleHistorySize \<and>
     distinct (map cy_CycleID (ExecutionHistory st)) \<and> CurrentStageIndex st \<ge> 0"

lemma recordSummary_distinct:
  assumes "distinct (map cy_CycleID (ExecutionHistory st))" "\<And>c. cy_CycleID (f c) = cy_CycleID c"
  shows "distinct (map cy_CycleID (ExecutionHistory (recordSummary f cid st)))"
proof -
  obtain i st' where fa: "findOrAppendCycle st cid = (i, st')" by fastforce
  then have d: "distinct (map cy_CycleID (ExecutionHistory st'))" "i < length (ExecutionHistory st')"
    using assms(1) by (auto simp: findOrAppendCycle_def find_index_None dest: find_index_Some split: option.splits)
  have "map cy_CycleID ((ExecutionHistory st')[i := f (ExecutionHistory st' ! i)]) = map cy_CycleID (ExecutionHistory st')"
    using d(2) assms(2) by (simp add: map_update) (metis list_update_id nth_map)
  then show ?thesis using d(1) fa
    by (simp add: recordSummary_def pruneCycleHistory_def drop_map [symmetric] distinct_drop)
qed

lemma recorded_inv: "recorded st st' \<Longrightarrow> status_inv st \<Longrightarrow> status_inv st'"
  by (auto simp: recorded_def status_inv_def recordSummary_bound intro!: recordSummary_distinct)

lemma status_inv_cong:
  "ExecutionHistory st' = ExecutionHistory st \<Longrightarrow> CurrentStageIndex st' = CurrentStageIndex st \<Longrightarrow> status_inv st' = status_inv st"
  by (simp add: status_inv_def)

lemma decides_status_inv: "decides st st' \<Longrightarrow> status_inv st \<Longrightarrow> status_inv st'"
proof (induction rule: decides.induct)
  case (finish st st1 phase' st' t)
  then show ?case using recorded_inv status_inv_cong [of st' st1] by simp
next
  case (fail st st1 st' t msg)
  then show ?case using recorded_inv status_inv_cong [of st' st1] by auto
qed (auto simp: status_inv_def)

lemma works_eq_status_inv: "works_eq st st' \<Longrightarrow> status_inv st \<Longrightarrow> status_inv st'"
  by (auto simp: works_eq_def works_def status_inv_def)

lemma takes_turn_status_inv: "takes_turn st st' \<Longrightarrow> status_inv st \<Longrightarrow> status_inv st'"
  using works_eq_status_inv decides_status_inv by (auto simp: takes_turn_def)

section \<open>Recording an operation\<close>

lemma recordSummary_entry:
  assumes "length (ExecutionHistory st) \<le> MaxCycleHistorySize" "\<And>c. cy_CycleID (f c) = cy_CycleID c"
  shows "\<exists>c. cy_CycleID c = cid \<and> f c \<in> set (ExecutionHistory (recordSummary f cid st))"
proof -
  obtain i st' where fa: "findOrAppendCycle st cid = (i, st')" by fastforce
  let ?h = "ExecutionHistory st'" and ?f = "f (ExecutionHistory st' ! i)"
  have h: "i < length ?h" "cy_CycleID (?h ! i) = cid" "length ?h \<le> 5 \<or> (i = 5 \<and> length ?h = 6)"
    using fa assms(1) by (auto simp: findOrAppendCycle_def dest: find_index_Some split: option.splits)
  from h(3) have "?f \<in> set (ExecutionHistory (recordSummary f cid st))"
  proof
    assume "length ?h \<le> 5"
    then show ?thesis using fa h(1) by (simp add: recordSummary_def pruneCycleHistory_def set_update_memI)
  next
    assume l: "i = 5 \<and> length ?h = 6"
    then have "drop 1 (?h[i := ?f]) ! 4 = ?f" "4 < length (drop 1 (?h[i := ?f]))" by simp_all
    then have "?f \<in> set (drop 1 (?h[i := ?f]))" using nth_mem by metis
    then show ?thesis using fa l by (simp add: recordSummary_def pruneCycleHistory_def)
  qed
  then show ?thesis using h(2) by blast
qed

lemma foldl_addToSummary:
  "TargetResults (foldl addToSummary s xs) = TargetResults s @ map targetResult xs \<and>
   (Success (foldl addToSummary s xs) \<longleftrightarrow> Success s \<and> list_all (\<lambda>x. \<not> isFailedState (State x)) xs)"
  by (induction xs arbitrary: s) (auto simp: addToSummary_def targetResult_def)

lemma BuildOperationSummary_results: "summary_of (Status p) (BuildOperationSummary p op)"
  by (simp add: BuildOperationSummary_def summary_of_def foldl_addToSummary)

lemma foldl_addToSummary_operation: "Operation (foldl addToSummary s xs) = Operation s"
  by (induction xs arbitrary: s) (simp_all add: addToSummary_def)

lemma BuildOperationSummary_operation: "Operation (BuildOperationSummary p op) = op"
  by (simp add: BuildOperationSummary_def foldl_addToSummary_operation)

lemma recordSummary_upd:
  "recordSummary f c (st\<lparr>Phase := p, LastTransitionTime := t\<rparr>) = (recordSummary f c st)\<lparr>Phase := p, LastTransitionTime := t\<rparr>"
  by (simp add: recordSummary_def findOrAppendCycle_def pruneCycleHistory_def split: option.splits)

text \<open>An operation ends only when every target is done.\<close>

definition ended :: "HibernatePlanStatus \<Rightarrow> bool" where
  "ended st \<longleftrightarrow> list_all (\<lambda>x. isTerminalState (State x)) (Executions st) \<and> RetryCount st = 0 \<and>
     LastRetryTime st = None \<and> ErrorMessage st = '''' \<and>
     (\<exists>c s. c \<in> set (ExecutionHistory st) \<and> cy_CycleID c = CurrentCycleID st \<and> summary_of st s \<and>
        (if Phase st = PhaseHibernated then ShutdownExecution c = Some s else WakeupExecution c = Some s))"

lemma decides_ended:
  assumes "decides st st'" "executing (Phase st)" "idle (Phase st')" "status_inv st"
  shows "Phase st' = (if Phase st = PhaseHibernating then PhaseHibernated else PhaseActive) \<and> ended st'"
  using assms
proof (induction rule: decides.induct)
  case (finish st st1 phase' st' t)
  obtain s where s: "summary_of st s" and st1: "st1 = recordSummary
      (\<lambda>c. if Phase st = PhaseHibernating then c\<lparr>ShutdownExecution := Some s\<rparr> else c\<lparr>WakeupExecution := Some s\<rparr>)
      (CurrentCycleID st) st" (is "_ = recordSummary ?f _ _")
    using finish.hyps(3) by (auto simp: recorded_def)
  have "length (ExecutionHistory st) \<le> MaxCycleHistorySize" using finish.prems by (simp add: status_inv_def)
  moreover have "cy_CycleID (?f c) = cy_CycleID c" for c by simp
  ultimately obtain c where c: "cy_CycleID c = CurrentCycleID st" "?f c \<in> set (ExecutionHistory st1)"
    using recordSummary_entry [of st ?f "CurrentCycleID st"] st1 by blast
  have "summary_of st' s" "CurrentCycleID st' = CurrentCycleID st" "ExecutionHistory st' = ExecutionHistory st1"
    using s finish.hyps(5) recorded_frame [OF finish.hyps(3)] by (auto simp: summary_of_def)
  then show ?case using c finish.hyps(1,2,4,5) recorded_frame(4) [OF finish.hyps(3)]
    unfolding ended_def by (auto intro!: exI [of _ "?f c"] exI [of _ s])
qed (auto simp: executing_def idle_def)

lemma takes_turn_ended:
  assumes "takes_turn st st'" "executing (Phase st)" "idle (Phase st')" "status_inv st"
  shows "Phase st' = (if Phase st = PhaseHibernating then PhaseHibernated else PhaseActive) \<and> ended st'"
proof -
  obtain st1 where st1: "works_eq st st1" "st' = st1 \<or> decides st1 st'" using assms by (auto simp: takes_turn_def)
  have "status_inv st1" using takes_turn_status_inv [OF works_eq_turn [OF st1(1)] assms(4)] .
  then show ?thesis using st1 works_eq_frame(1) [OF st1(1)] decides_ended [of st1 st'] assms(2,3)
    by (auto simp: executing_def idle_def)
qed

text \<open>A retry is counted and goes back to the operation that failed.\<close>

lemma takes_turn_retried:
  assumes "takes_turn st st'" "Phase st = PhaseError" "executing (Phase st')"
  shows "RetryCount st' = wrap32 (RetryCount st + 1)"
    "CurrentOperation st = OperationHibernate \<Longrightarrow> Phase st' = PhaseHibernating"
    "CurrentOperation st = OperationWakeUp \<Longrightarrow> Phase st' = PhaseWakingUp"
    "list_all2 reset_failed (Executions st) (Executions st')"
proof -
  have "decides st st'"
    using assms by (auto simp: takes_turn_def works_eq_def works_def executing_def)
  then have "RetryCount st' = wrap32 (RetryCount st + 1) \<and>
      (CurrentOperation st = OperationHibernate \<longrightarrow> Phase st' = PhaseHibernating) \<and>
      (CurrentOperation st = OperationWakeUp \<longrightarrow> Phase st' = PhaseWakingUp) \<and>
      list_all2 reset_failed (Executions st) (Executions st')"
    using assms(2,3) by (cases rule: decides_cases) (auto simp: executing_def idle_def)
  then show "RetryCount st' = wrap32 (RetryCount st + 1)"
    "CurrentOperation st = OperationHibernate \<Longrightarrow> Phase st' = PhaseHibernating"
    "CurrentOperation st = OperationWakeUp \<Longrightarrow> Phase st' = PhaseWakingUp"
    "list_all2 reset_failed (Executions st) (Executions st')" by blast+
qed

text \<open>Only the start of an operation replaces the operation and its targets, only that of a hibernation the cycle.\<close>

definition same_cycle :: "HibernatePlanStatus \<Rightarrow> HibernatePlanStatus \<Rightarrow> bool" where
  "same_cycle st st' \<longleftrightarrow> CurrentCycleID st' = CurrentCycleID st \<and> PlanSnapshot st' = PlanSnapshot st \<and>
     AppliedExceptionOverride st' = AppliedExceptionOverride st"

definition same_operation :: "HibernatePlanStatus \<Rightarrow> HibernatePlanStatus \<Rightarrow> bool" where
  "same_operation st st' \<longleftrightarrow> same_cycle st st' \<and> CurrentOperation st' = CurrentOperation st \<and>
     same_targets (Executions st') (Executions st)"

lemma recordSummary_override [simp]: "AppliedExceptionOverride (recordSummary f c st) = AppliedExceptionOverride st"
  by (simp add: recordSummary_def findOrAppendCycle_def pruneCycleHistory_def split: option.splits)

lemma recorded_same_operation: "recorded st st' \<Longrightarrow> same_operation st st'"
  by (auto simp: recorded_def same_operation_def same_cycle_def same_targets_def)

lemma reset_failed_targets: "list_all2 reset_failed xs ys \<Longrightarrow> same_targets ys xs"
  by (induction rule: list_all2_induct) (auto simp: same_targets_def reset_failed_def)

lemma decides_same_operation:
  "decides st st' \<Longrightarrow> \<not> (idle (Phase st) \<and> executing (Phase st')) \<Longrightarrow> same_operation st st'"
proof (induction rule: decides.induct)
  case (finish st st1 phase' st' t)
  then show ?case using recorded_same_operation [OF finish.hyps(3)]
    by (simp add: same_operation_def same_cycle_def)
next
  case (fail st st1 st' t msg)
  then show ?case using recorded_same_operation [of st st1]
    by (auto simp: same_operation_def same_cycle_def same_targets_def)
next
  case (retry st phase' xs st' t msg)
  then show ?case using reset_failed_targets by (simp add: same_operation_def same_cycle_def)
qed (auto simp: same_operation_def same_cycle_def same_targets_def executing_def)

lemma decides_same_cycle:
  "decides st st' \<Longrightarrow> \<not> (idle (Phase st) \<and> Phase st' = PhaseHibernating) \<Longrightarrow> same_cycle st st'"
  using decides_same_operation [of st st']
  by (cases "idle (Phase st) \<and> executing (Phase st')")
    (auto simp: same_operation_def same_cycle_def executing_def idle_def elim!: decides_cases)

lemma works_eq_same_operation: "works_eq st st' \<Longrightarrow> same_operation st st'"
  by (auto simp: works_eq_def works_def same_operation_def same_cycle_def same_targets_def)

lemma same_operation_trans: "same_operation st st1 \<Longrightarrow> same_operation st1 st' \<Longrightarrow> same_operation st st'"
  by (simp add: same_operation_def same_cycle_def same_targets_def)

lemma takes_turn_same_operation:
  assumes "takes_turn st st'" "\<not> (idle (Phase st) \<and> executing (Phase st'))"
  shows "same_operation st st'"
proof -
  obtain st1 where st1: "works_eq st st1" "st' = st1 \<or> decides st1 st'" using assms by (auto simp: takes_turn_def)
  then show ?thesis
    using works_eq_same_operation [OF st1(1)] works_eq_frame(1) [OF st1(1)] decides_same_operation [of st1 st'] assms(2)
    by (auto intro: same_operation_trans)
qed

lemma takes_turn_same_cycle:
  assumes "takes_turn st st'" "\<not> (idle (Phase st) \<and> Phase st' = PhaseHibernating)"
  shows "same_cycle st st'"
proof -
  obtain st1 where st1: "works_eq st st1" "st' = st1 \<or> decides st1 st'" using assms by (auto simp: takes_turn_def)
  then show ?thesis
    using works_eq_same_operation [OF st1(1)] works_eq_frame(1) [OF st1(1)] decides_same_cycle [of st1 st'] assms(2)
    by (auto simp: same_operation_def same_cycle_def)
qed

text \<open>
  The targets of a cycle that was started under an override are those of its snapshot, for both
  operations and until another hibernation starts.
\<close>

definition locked :: "PlanSnapshot \<Rightarrow> HibernatePlanStatus \<Rightarrow> bool" where
  "locked s st \<longleftrightarrow> PlanSnapshot st = Some s \<and> sn_CycleID s = CurrentCycleID st \<and>
     map xe_Target (Executions st) = map tgt_Name (sn_Targets s)"

lemma takes_turn_locked:
  assumes "takes_turn st st'" "\<not> (idle (Phase st) \<and> Phase st' = PhaseHibernating)" "locked s st"
  shows "locked s st'"
proof (cases "idle (Phase st) \<and> executing (Phase st')")
  case False
  then show ?thesis using takes_turn_same_operation [OF assms(1) False] assms(3)
    by (simp add: locked_def same_operation_def same_cycle_def same_targets_def)
next
  case True
  then have "decides st st'"
    using assms(1) by (auto simp: takes_turn_def works_eq_def works_def executing_def idle_def)
  then show ?thesis using True assms(2,3)
    by (cases rule: decides_cases) (auto simp: locked_def idle_def executing_def)
qed

section \<open>Execution\<close>

text \<open>A status change that only refreshes the executions.\<close>

definition observes :: "HibernatePlanStatus \<Rightarrow> HibernatePlanStatus \<Rightarrow> bool" where
  "observes st st' \<longleftrightarrow> (\<exists>xs. same_targets xs (Executions st) \<and> st' = st\<lparr>Executions := xs\<rparr>)"

lemma same_targets_refl [simp]: "same_targets xs xs" by (simp add: same_targets_def)

lemma same_targets_trans: "same_targets xs ys \<Longrightarrow> same_targets ys zs \<Longrightarrow> same_targets xs zs"
  by (simp add: same_targets_def)

lemma observes_refl [simp]: "observes st st"
  unfolding observes_def by (rule exI [of _ "Executions st"]) simp

lemma observes_trans: "observes st st' \<Longrightarrow> observes st' st'' \<Longrightarrow> observes st st''"
  by (auto simp: observes_def same_targets_def)

lemma observes_upd: "same_targets xs (Executions st) \<Longrightarrow> observes st (st\<lparr>Executions := xs\<rparr>)"
  by (auto simp: observes_def)

lemma observes_frame:
  assumes "observes st st'"
  shows "Phase st' = Phase st" "CurrentOperation st' = CurrentOperation st" "CurrentCycleID st' = CurrentCycleID st"
    "CurrentStageIndex st' = CurrentStageIndex st" "ExecutionHistory st' = ExecutionHistory st"
    "RetryCount st' = RetryCount st" "PlanSnapshot st' = PlanSnapshot st"
  using assms by (auto simp: observes_def)

lemma observes_works:
  assumes "observes st st'" "executing (Phase st)"
  shows "works_eq st st'"
proof -
  obtain xs where "same_targets xs (Executions st)" "st' = st\<lparr>Executions := xs\<rparr>" using assms(1) by (auto simp: observes_def)
  then have "works st st'" using assms(2) unfolding works_def
    by (intro conjI exI [of _ xs] exI [of _ "CurrentStageIndex st"]) simp_all
  then show ?thesis by (simp add: works_eq_def)
qed

lemma observes_then_works:
  assumes "observes st st1" "works_eq st1 st'" "executing (Phase st)"
  shows "works_eq st st'"
  using assms(2) unfolding works_eq_def [of st1]
proof
  assume "st' = st1"
  then show ?thesis using observes_works [OF assms(1,3)] by simp
next
  assume "works st1 st'"
  then obtain xs i where w: "same_targets xs (Executions st1)" "i = CurrentStageIndex st1 \<or> i = CurrentStageIndex st1 + 1"
      "st' = st1\<lparr>Executions := xs, CurrentStageIndex := i\<rparr>"
    by (auto simp: works_def)
  then have "same_targets xs (Executions st)" "i = CurrentStageIndex st \<or> i = CurrentStageIndex st + 1"
    "st' = st\<lparr>Executions := xs, CurrentStageIndex := i\<rparr>"
    using assms(1) by (auto simp: observes_def same_targets_def)
  then have "works st st'" using assms(3) unfolding works_def by blast
  then show ?thesis by (simp add: works_eq_def)
qed

lemma works_then_observes:
  assumes "works st st1" "observes st1 st'"
  shows "works st st'"
  using assms unfolding observes_def works_def same_targets_def by force

lemma observeJob_ids [simp]:
  "xe_Target (observeJob e p j x) = xe_Target x" "Executor (observeJob e p j x) = Executor x"
  by (simp_all add: observeJob_def Let_def split: option.splits)

lemma missingJob_ids:
  "missingJob x w = (x', w') \<Longrightarrow> xe_Target x' = xe_Target x \<and> Executor x' = Executor x \<and> livePlan w' = livePlan w \<and>
     planCopy w' = planCopy w"
  by (auto simp: missingJob_def trackConsecutiveJobMiss_def Let_def split: if_splits prod.splits bool.splits)

lemma observeExec_ids:
  "observeExec e p js x w = (x', w') \<Longrightarrow> xe_Target x' = xe_Target x \<and> Executor x' = Executor x \<and>
     livePlan w' = livePlan w \<and> planCopy w' = planCopy w"
  by (auto simp: observeExec_def Let_def resetConsecutiveJobMiss_def missingJob_ids split: option.splits)

lemma observeExecs_ids:
  "observeExecs e p js xs w = (xs', w') \<Longrightarrow> same_targets xs' xs \<and> livePlan w' = livePlan w \<and> planCopy w' = planCopy w"
proof (induction xs arbitrary: w xs' w')
  case (Cons x xs)
  obtain x1 w1 where 1: "observeExec e p js x w = (x1, w1)" by fastforce
  obtain xs2 w2 where 2: "observeExecs e p js xs w1 = (xs2, w2)" by fastforce
  show ?case using Cons.IH [OF 2] Cons.prems observeExec_ids [OF 1] 1 2 by (auto simp: same_targets_def)
qed (simp add: same_targets_def)

definition synced :: "World \<Rightarrow> bool" where
  "synced w \<longleftrightarrow> same_targets (Executions (Status (eff w))) (Executions (status w))"

lemma with_status_id [simp]: "with_status (\<lambda>st. st) p = p" by (simp add: with_status_def)

lemma updateExecutionStatuses_observes:
  assumes "synced w"
  shows "observes (status w) (status (updateExecutionStatuses e js w)) \<and> synced (updateExecutionStatuses e js w)"
proof -
  obtain xs w1 where o: "observeExecs e (eff w) js (Executions (Status (eff w))) w = (xs, w1)" by fastforce
  note ids = observeExecs_ids [OF o]
  have st: "same_targets xs (Executions (status w))" using ids assms same_targets_trans by (auto simp: synced_def)
  let ?w2 = "set_eff (with_status (\<lambda>st. st\<lparr>Executions := xs\<rparr>) (eff w)) w1"
  have eff: "Executions (Status (eff ?w2)) = xs" "status ?w2 = status w \<or> status ?w2 = (status w)\<lparr>Executions := xs\<rparr>"
    using ids by (cases "planCopy w"; simp add: set_eff_def eff_def)+
  then have w2: "observes (status w) (status ?w2)" "synced ?w2"
    using st by (auto simp: observes_upd synced_def same_targets_def)
  then have "observes (status ?w2) ((status ?w2)\<lparr>Executions := xs\<rparr>)"
    using st eff(1) by (auto simp: synced_def intro!: observes_upd)
  then have "observes (status w) ((status ?w2)\<lparr>Executions := xs\<rparr>)" using w2(1) observes_trans by blast
  moreover have "synced (?w2\<lparr>livePlan := with_status (\<lambda>st. st\<lparr>Executions := xs\<rparr>) (livePlan ?w2), outbox := ob\<rparr>)" for ob
    using eff(1) by (simp add: synced_def eff_def split: option.splits)
  ultimately show ?thesis using w2
    by (simp add: updateExecutionStatuses_def Let_def o)
qed

lemma same_targets_abort [simp]: "same_targets (Executions (abortExec t m st)) (Executions st)"
  by (simp add: same_targets_def abortExec_def map_update_first)

lemma observes_abort [simp]: "observes st (abortExec t m st)"
  unfolding observes_def by (rule exI [of _ "Executions (abortExec t m st)"]) (simp add: abortExec_def same_targets_def map_update_first)

lemma pruneTarget_observes:
  assumes "synced w"
  shows "observes (status w) (status (pruneTarget e t m w)) \<and> synced (pruneTarget e t m w)"
proof (cases "planCopy w")
  case None
  then have "status (pruneTarget e t m w) = abortExec t m (abortExec t m (status w))" "eff (pruneTarget e t m w) = livePlan (pruneTarget e t m w)"
    by (simp_all add: pruneTarget_def Let_def set_eff_def eff_def)
  then show ?thesis using observes_trans [OF observes_abort observes_abort] by (simp add: synced_def)
next
  case (Some p)
  then have "livePlan (pruneTarget e t m w) = livePlan w"
    "Status (eff (pruneTarget e t m w)) = abortExec t m (abortExec t m (Status p))"
    by (simp_all add: pruneTarget_def Let_def set_eff_def eff_def)
  moreover have "same_targets (Executions (abortExec t m (abortExec t m (Status p)))) (Executions (status w))"
    using assms Some same_targets_trans [OF same_targets_trans [OF same_targets_abort same_targets_abort]]
    by (simp add: synced_def eff_def)
  ultimately show ?thesis by (simp add: synced_def)
qed

lemma createRunnerJob_synced:
  "createRunnerJob e t op w = (err, w') \<Longrightarrow> synced w \<Longrightarrow> status w' = status w \<and> synced w'"
  by (auto simp: synced_def dest!: createRunnerJob_frame)

lemma dispatchTargets_observes:
  "dispatchTargets e op js running limit ts created w = (r, w') \<Longrightarrow> synced w \<Longrightarrow> observes (status w) (status w')"
proof (induction ts arbitrary: created w)
  case (Cons n ts)
  note step = Cons.prems(1) [simplified]
  show ?case
  proof (cases "FindTarget (eff w) n")
    case None
    then show ?thesis using step Cons.IH [OF _ Cons.prems(2)] by simp
  next
    case (Some t)
    obtain err w1 where c: "createRunnerJob e t op w = (err, w1)" by fastforce
    note cs = createRunnerJob_synced [OF c Cons.prems(2)]
    have prune: "observes (status w) (status w')"
      if "dispatchTargets e op js running limit ts created (pruneTarget e n m w) = (r, w')" for m
      using Cons.IH [OF that] pruneTarget_observes [OF Cons.prems(2)] observes_trans by blast
    have create: "observes (status w) (status w')"
      if "dispatchTargets e op js running limit ts k w1 = (r, w')" for k
      using Cons.IH [OF that] cs by simp
    note skip = Cons.IH [OF _ Cons.prems(2)]
    show ?thesis
      using step Some c cs(1) prune create skip
      by (auto simp: Let_def split: if_splits option.splits)
  qed
qed simp

definition aligned :: "World \<Rightarrow> bool" where
  "aligned w \<longleftrightarrow> synced w \<and> CurrentStageIndex (Status (eff w)) = CurrentStageIndex (status w)"

lemma effectivePlan_status: "effectivePlan e plan = Some p \<Longrightarrow> Status p = Status plan"
  by (auto simp: effectivePlan_def buildEffectivePlan_def split: option.splits)

lemma effectivePlan_aligned: "aligned (w\<lparr>planCopy := effectivePlan e (livePlan w)\<rparr>)"
  by (auto simp: aligned_def synced_def eff_def effectivePlan_status split: option.splits)

lemma updateExecutionStatuses_index:
  "CurrentStageIndex (Status (eff (updateExecutionStatuses e js w))) = CurrentStageIndex (Status (eff w))"
proof -
  obtain xs w1 where o: "observeExecs e (eff w) js (Executions (Status (eff w))) w = (xs, w1)" by fastforce
  let ?w2 = "set_eff (with_status (\<lambda>st. st\<lparr>Executions := xs\<rparr>) (eff w)) w1"
  have "eff (?w2\<lparr>livePlan := with_status (\<lambda>st. st\<lparr>Executions := xs\<rparr>) (livePlan ?w2), outbox := ob\<rparr>) =
      with_status (\<lambda>st. st\<lparr>Executions := xs\<rparr>) (eff w)" for ob
    by (cases "planCopy w1") (simp_all add: eff_def set_eff_def with_status_def)
  then show ?thesis by (simp add: updateExecutionStatuses_def Let_def o)
qed

lemma updateExecutionStatuses_aligned:
  assumes "aligned w"
  shows "observes (status w) (status (updateExecutionStatuses e js w)) \<and> aligned (updateExecutionStatuses e js w)"
  using assms updateExecutionStatuses_observes [of w e js] updateExecutionStatuses_index [of e js w]
  by (auto simp: aligned_def observes_frame)

section \<open>Finalisers\<close>

text \<open>
  What \<open>execute\<close> relies on in the closure it is given: it completes the operation when all
  executions are terminal, and otherwise does nothing.
\<close>

locale finalizer =
  fixes finalize :: "Env \<Rightarrow> World \<Rightarrow> World" and phase :: PlanPhase and done_phase :: PlanPhase
  assumes executing_phase: "executing phase"
    and incomplete: "\<not> IsOperationComplete (livePlan w) \<Longrightarrow> finalize e w = w"
    and completes: "Phase (status w) = phase \<Longrightarrow> IsOperationComplete (livePlan w) \<Longrightarrow>
          decides (status w) (status (finalize e w)) \<and> Phase (status (finalize e w)) = done_phase \<and>
          Executions (status (finalize e w)) = Executions (status w)"
begin

lemma next_stage_works:
  assumes ph: "Phase (status w) = phase" and "synced w"
    and "executeForStage e js stage op (nextStage e (CurrentStageIndex (status w) + 1) w) = (r, w')"
  shows "works_eq (status w) (status w')"
proof -
  let ?w1 = "nextStage e (CurrentStageIndex (status w) + 1) w"
  have s1: "status ?w1 = (status w)\<lparr>CurrentStageIndex := CurrentStageIndex (status w) + 1\<rparr>"
    by (simp add: nextStage_def)
  have m: "works (status w) (status ?w1)"
    using executing_phase ph s1
    by (auto simp: works_def intro!: exI [of _ "Executions (status w)"] exI [of _ "CurrentStageIndex (status w) + 1"])
  have "synced ?w1"
    using assms(2) s1 by (simp add: synced_def nextStage_def eff_def split: option.splits)
  then have o: "observes (status ?w1) (status w')"
    using assms(3) dispatchTargets_observes unfolding executeForStage_def by blast
  then show ?thesis using works_then_observes [OF m o] by (simp add: works_eq_def)
qed

lemma stage_works:
  assumes ph: "Phase (status w) = phase" and "synced w" and "executeForStage e js stage op w = (r, w')"
  shows "works_eq (status w) (status w')"
proof -
  have o: "observes (status w) (status w')"
    using assms(2,3) dispatchTargets_observes unfolding executeForStage_def by blast
  then show ?thesis using observes_works [OF o] executing_phase ph by simp
qed

text \<open>
  Either the operation goes on in its phase, or after some progress it is finished: without an
  error and with every execution terminal.
\<close>

definition settled :: "StateResult \<times> go_error option \<Rightarrow> HibernatePlanStatus \<Rightarrow> World \<Rightarrow> bool" where
  "settled r st w \<longleftrightarrow> works_eq st (status w) \<or>
     snd r = None \<and> Phase (status w) = done_phase \<and> list_all (\<lambda>x. isTerminalState (State x)) (Executions (status w)) \<and>
     (\<exists>st1. works_eq st st1 \<and> decides st1 (status w))"

lemma settled_turn: "settled r st w \<Longrightarrow> takes_turn st (status w)"
  by (auto simp: settled_def takes_turn_def)

lemma finalize_settled: "Phase (status w) = phase \<Longrightarrow> snd r = None \<Longrightarrow> settled r (status w) (finalize e w)"
  using incomplete [of w e] completes [of w e]
  by (cases "IsOperationComplete (livePlan w)") (auto simp: settled_def IsOperationComplete_def)

lemma observes_settled:
  assumes "observes st st1" "settled r st1 w" "executing (Phase st)"
  shows "settled r st w"
  using assms(2) observes_then_works [OF assms(1) _ assms(3)] by (auto simp: settled_def)

lemma atStage_settled:
  assumes ph: "Phase (status w) = phase" and al: "aligned w" and run: "atStage e op (finalize e) js ep w = (r, w')"
  shows "settled r (status w) w'"
proof -
  let ?idx = "CurrentStageIndex (status w)"
  have idx: "CurrentStageIndex (Status (eff w)) = ?idx" and sy: "synced w" using al by (auto simp: aligned_def)
  consider "w' = finalize e w" "snd r = None" | "status w' = status w"
    | stage where "executeForStage e js stage op (nextStage e (?idx + 1) w) = (r, w')"
    | stage where "executeForStage e js stage op w = (r, w')"
    using run by (auto simp: atStage_def Let_def idx split: if_splits)
  then show ?thesis
  proof cases
    case 1
    then show ?thesis using finalize_settled ph by simp
  next
    case 2
    then show ?thesis by (simp add: settled_def)
  next
    case 3
    then show ?thesis using next_stage_works [OF ph sy] by (auto simp: settled_def)
  next
    case 4
    then show ?thesis using stage_works [OF ph sy] by (auto simp: settled_def)
  qed
qed

text \<open>
  A call that reports no error either asks to be polled again, or finished the operation, or
  found the stages done while an execution that belongs to none of them is not.
\<close>

definition polled :: "StateResult \<times> go_error option \<Rightarrow> World \<Rightarrow> bool" where
  "polled r w \<longleftrightarrow> snd r \<noteq> None \<or> RequeueAfter (fst r) = RequeueIntervalDuringStage \<or>
     fst r = noResult \<and> (Phase (status w) = done_phase \<or> \<not> IsOperationComplete (livePlan w))"

lemma dispatchTargets_polled: "dispatchTargets e op js running limit ts created w = (r, w') \<Longrightarrow> polled r w'"
proof (induction ts arbitrary: created w)
  case (Cons n ts)
  then show ?case
    by (auto simp: Let_def polled_def requeueAfter_def noResult_def split: option.splits if_splits prod.splits)
qed (auto simp: polled_def requeueAfter_def noResult_def)

lemma finalize_polled:
  assumes "Phase (status w) = phase"
  shows "polled (noResult, None) (finalize e w)"
  using assms incomplete [of w e] completes [of w e]
  by (cases "IsOperationComplete (livePlan w)") (auto simp: polled_def)

lemma atStage_polled:
  assumes "Phase (status w) = phase" "atStage e op (finalize e) js ep w = (r, w')"
  shows "polled r w'"
proof -
  have "polled (requeueAfter RequeueIntervalDuringStage, None) w" by (simp add: polled_def requeueAfter_def)
  moreover have "polled (noResult, Some x) v" for x v by (simp add: polled_def)
  ultimately show ?thesis using assms finalize_polled
    by (auto simp: atStage_def Let_def executeForStage_def dest: dispatchTargets_polled split: if_splits)
qed

lemma polled_copy [simp]: "polled r (w\<lparr>planCopy := c\<rparr>) = polled r w" by (simp add: polled_def)

lemma execute_polled:
  assumes ph: "Phase (status w) = phase" and run: "execute e op backwards (finalize e) w = (r, w')"
  shows "polled r w'"
proof -
  let ?w1 = "w\<lparr>planCopy := effectivePlan e (livePlan w)\<rparr>"
  have "Phase (status (updateExecutionStatuses e js ?w1)) = phase" for js
    using updateExecutionStatuses_aligned [OF effectivePlan_aligned [of e w], of e js] observes_frame(1) ph by auto
  from atStage_polled [OF this] show ?thesis
    using run by (cases r) (auto simp: execute_def Let_def polled_def [of "(noResult, Some x)" for x]
        split: sum.splits option.splits prod.splits if_splits)
qed

lemma execute_settled:
  assumes ph: "Phase (status w) = phase" and run: "execute e op backwards (finalize e) w = (r, w')"
  shows "settled r (status w) w'"
proof -
  let ?w1 = "w\<lparr>planCopy := effectivePlan e (livePlan w)\<rparr>"
  have "aligned ?w1" by (rule effectivePlan_aligned)
  from updateExecutionStatuses_aligned [OF this]
  have o: "observes (status w) (status (updateExecutionStatuses e js ?w1))" "aligned (updateExecutionStatuses e js ?w1)" for js
    by auto
  note ph2 = observes_frame(1) [OF o(1)]
  have ex: "executing (Phase (status w))" using ph executing_phase by simp
  consider "status w' = status w" | js where "status w' = status (updateExecutionStatuses e js ?w1)"
    | js ep w2 where "atStage e op (finalize e) js ep (updateExecutionStatuses e js ?w1) = (r, w2)" "status w' = status w2"
    using run by (auto simp: execute_def Let_def split: sum.splits option.splits prod.splits if_splits)
  then show ?thesis
  proof cases
    case 1
    then show ?thesis by (simp add: settled_def)
  next
    case (2 js)
    then show ?thesis using observes_works [OF o(1) ex, of js] by (simp add: settled_def)
  next
    case (3 js ep w2)
    have "settled r (status (updateExecutionStatuses e js ?w1)) w2"
      using atStage_settled [OF _ o(2) 3(1)] ph ph2 [of js] by simp
    from observes_settled [OF o(1) this ex] show ?thesis using 3(2) by (simp add: settled_def)
  qed
qed

end

section \<open>Honest responses\<close>

text \<open>Nobody else edits the annotations of the plan while it is patched.\<close>

definition keeps_annotations :: "Env \<Rightarrow> bool" where
  "keeps_annotations e \<longleftrightarrow> (\<forall>orig plan resp. PatchPlan e orig plan = Inr resp \<longrightarrow> Annotations resp = Annotations plan)"

end
