(* ===== verification/IdleStates.thy ===== *)
theory IdleStates
  imports PlanMachine
begin

text \<open>
  The handlers of the idle phases (\<^verbatim>\<open>state_idle.go\<close>, \<^verbatim>\<open>state_override.go\<close>,
  \<^verbatim>\<open>state_restart.go\<close>): the schedule-driven one, the manual override and the one-shot
  restart, with the two transitions they share.
\<close>

section \<open>Transitions out of the idle phases\<close>

definition pendingExecution :: "string \<Rightarrow> Target \<Rightarrow> ExecutionStatus" where
  "pendingExecution message t =
     \<lparr>xe_Target = tgt_Name t, Executor = tgt_Type t, State = StatePending, StartedAt = None, FinishedAt = None,
      Attempts = 0, xe_Message = message, JobRef = '''', LogsRef = '''', RestoreRef = '''',
      ServiceAccountRef = '''', ConnectorSecretRef = '''', RestoreConfigMapRef = ''''\<rparr>"

definition liveCycleID :: "Env \<Rightarrow> store \<Rightarrow> Target \<Rightarrow> string" where
  "liveCycleID e st target =
     (case Load (cmApi e) (tgt_Name target) st of
        Inr (Some data) \<Rightarrow> if IsLive data then CycleID data else ''''
      | _ \<Rightarrow> '''')"

definition getExistingCycleIDForHibernation :: "Env \<Rightarrow> World \<Rightarrow> string" where
  "getExistingCycleIDForHibernation e w =
     (if \<not> hasRestoreManager e then ''''
      else (case List.find (\<lambda>t. liveCycleID e (restoreStore w) t \<noteq> '''') (Targets (Spec (livePlan w))) of
              None \<Rightarrow> ''''
            | Some t \<Rightarrow> liveCycleID e (restoreStore w) t))"

definition cycleIDFor :: "Env \<Rightarrow> bool \<Rightarrow> World \<Rightarrow> string" where
  "cycleIDFor e fresh w =
     (if fresh \<or> getExistingCycleIDForHibernation e w = '''' then newUUID e
      else getExistingCycleIDForHibernation e w)"

definition transitionHook :: "Env \<Rightarrow> NotificationEvent \<Rightarrow> PlanPhase \<Rightarrow> hook option" where
  "transitionHook e event previousPhase =
     chainHooks [eventHook e event, phaseChangePostHook (notify e) previousPhase]"

definition transitionToHibernating :: "Env \<Rightarrow> bool \<Rightarrow> World \<Rightarrow> outcome" where
  "transitionToHibernating e fresh w =
     (let plan = livePlan w;
          cycleID = cycleIDFor e fresh w;
          effective = (case buildEffectivePlan e plan of None \<Rightarrow> plan | Some ep \<Rightarrow> ep);
          appliedExceptionName = (case buildEffectivePlan e plan of
             None \<Rightarrow> ''''
           | Some _ \<Rightarrow> (case findActiveExceptionOverride e of None \<Rightarrow> '''' | Some exc \<Rightarrow> exc_Name exc));
          executions = map (pendingExecution ''Target pending hibernation'') (Targets (Spec effective));
          transition = now e
      in ((requeueNow, None),
          Send e (status_update (\<lambda>_ st. st\<lparr>Phase := PhaseHibernating, CurrentCycleID := cycleID,
              CurrentStageIndex := 0, CurrentOperation := OperationHibernate, Executions := executions,
              AppliedExceptionOverride := appliedExceptionName, LastTransitionTime := Some transition,
              PlanSnapshot := (if appliedExceptionName \<noteq> ''''
                then Some \<lparr>sn_CycleID = cycleID, ExceptionName = appliedExceptionName,
                       sn_Targets = Targets (Spec effective), sn_Execution = sp_Execution (Spec effective),
                       sn_Behavior = sp_Behavior (Spec effective)\<rparr>
                else PlanSnapshot st)\<rparr>)
            (transitionHook e EventStart (Phase (Status plan)))) w))"

definition transitionToWakingUp :: "Env \<Rightarrow> World \<Rightarrow> outcome" where
  "transitionToWakingUp e w =
     (let plan = livePlan w;
          targetList = (case lockedSnapshot plan of Some snap \<Rightarrow> sn_Targets snap | None \<Rightarrow> Targets (Spec plan));
          executions = map (pendingExecution ''Target pending wakeup'') targetList;
          transition = now e
      in ((requeueNow, None),
          Send e (status_update (\<lambda>_ st. st\<lparr>Phase := PhaseWakingUp, CurrentStageIndex := 0,
              CurrentOperation := OperationWakeUp, Executions := executions, LastTransitionTime := Some transition\<rparr>)
            (transitionHook e EventStart (Phase (Status plan)))) w))"

section \<open>Schedule-driven\<close>

definition idle_Handle :: "Env \<Rightarrow> World \<Rightarrow> outcome" where
  "idle_Handle e w =
     (case scheduleResult e of
        None \<Rightarrow> ((noResult, None), w)
      | Some shouldHibernate \<Rightarrow>
          (case Phase (status w) of
             PhaseActive \<Rightarrow> if shouldHibernate then transitionToHibernating e False w else ((noResult, None), w)
           | PhaseHibernated \<Rightarrow>
               if \<not> shouldHibernate \<and> pc_HasRestoreData e then transitionToWakingUp e w else ((noResult, None), w)
           | _ \<Rightarrow> ((noResult, None), w)))"

section \<open>Manual override\<close>

abbreviation OverridePhaseTargetHibernate :: string where "OverridePhaseTargetHibernate \<equiv> ''hibernate''"
abbreviation OverridePhaseTargetWakeup :: string where "OverridePhaseTargetWakeup \<equiv> ''wakeup''"

definition consume :: "Env \<Rightarrow> string \<Rightarrow> World \<Rightarrow> (bool \<times> go_error option) \<times> World" where
  "consume e key w =
     (if annotation w key \<noteq> ''true'' then ((False, None), w)
      else (case patchAndPreserveStatus e (del_annotations [key]) w of
              (Some err, w') \<Rightarrow> ((False, Some (Wrap (''failed to consume '' @ key @ '' annotation: '') err)), w')
            | (None, w') \<Rightarrow> ((True, None), w')))"

definition consumeRestart :: "Env \<Rightarrow> World \<Rightarrow> (bool \<times> go_error option) \<times> World" where
  "consumeRestart e = consume e AnnotationRestart"

definition consumeFresh :: "Env \<Rightarrow> World \<Rightarrow> go_error option \<times> World" where
  "consumeFresh e w = (case consume e AnnotationFresh w of ((_, err), w') \<Rightarrow> (err, w'))"

definition initStateResult :: "Env \<Rightarrow> World \<Rightarrow> StateResult" where
  "initStateResult e w =
     (case Annotations (livePlan w) AnnotationOverrideUntil of
        None \<Rightarrow> noResult
      | Some deadlineStr \<Rightarrow>
          (case ParseRFC3339 deadlineStr of
             Inl _ \<Rightarrow> noResult
           | Inr deadline \<Rightarrow> noResult\<lparr>DeadlineAfter := SubTime deadline (now e)\<rparr>))"

text \<open>The steps that end every override-driven transition: consume \<open>fresh\<close>, then transition.\<close>

definition consumeFreshThen :: "Env \<Rightarrow> StateResult \<Rightarrow> (World \<Rightarrow> outcome) \<Rightarrow> World \<Rightarrow> outcome" where
  "consumeFreshThen e res transition w =
     (case consumeFresh e w of (Some err, w') \<Rightarrow> ((res, Some err), w') | (None, w') \<Rightarrow> transition w')"

definition override_Handle :: "Env \<Rightarrow> World \<Rightarrow> outcome" where
  "override_Handle e w =
     (let target = annotation w AnnotationOverridePhaseTarget;
          fresh = (annotation w AnnotationFresh = ''true'');
          res = initStateResult e w
      in if target = OverridePhaseTargetHibernate then
           (case Phase (status w) of
              PhaseActive \<Rightarrow> consumeFreshThen e res (transitionToHibernating e fresh) w
            | PhaseHibernated \<Rightarrow>
                (case consumeRestart e w of
                   ((_, Some err), w') \<Rightarrow> ((res, Some err), w')
                 | ((True, None), w') \<Rightarrow> consumeFreshThen e res (transitionToHibernating e fresh) w'
                 | ((False, None), w') \<Rightarrow> ((res, None), w'))
            | _ \<Rightarrow> ((res, None), w))
         else if target = OverridePhaseTargetWakeup then
           (case Phase (status w) of
              PhaseHibernated \<Rightarrow>
                if pc_HasRestoreData e then consumeFreshThen e res (transitionToWakingUp e) w
                else ((res, None), w)
            | PhaseActive \<Rightarrow>
                (case consumeRestart e w of
                   ((_, Some err), w') \<Rightarrow> ((res, Some err), w')
                 | ((True, None), w') \<Rightarrow>
                     if pc_HasRestoreData e then consumeFreshThen e res (transitionToWakingUp e) w'
                     else ((res, None), w')
                 | ((False, None), w') \<Rightarrow> ((res, None), w'))
            | _ \<Rightarrow> ((res, None), w))
         else ((res, None), w))"

definition override_OnDeadline :: "Env \<Rightarrow> World \<Rightarrow> outcome" where
  "override_OnDeadline e w =
     (case patchAndPreserveStatus e
        (del_annotations [AnnotationOverrideAction, AnnotationOverridePhaseTarget, AnnotationOverrideUntil]) w of
        (err, w') \<Rightarrow> ((noResult, err), w'))"

section \<open>Restart\<close>

definition restart_Handle :: "Env \<Rightarrow> World \<Rightarrow> outcome" where
  "restart_Handle e w =
     (let operation = CurrentOperation (status w); fresh = (annotation w AnnotationFresh = ''true'') in
      case patchAndPreserveStatus e (del_annotations [AnnotationRestart, AnnotationFresh]) w of
        (Some err, w') \<Rightarrow>
          ((noResult, Some (Wrap (''failed to consume '' @ AnnotationRestart @ '' annotation: '') err)), w')
      | (None, w') \<Rightarrow>
          (case operation of
             OperationHibernate \<Rightarrow>
               if Phase (status w') \<noteq> PhaseHibernated then ((noResult, None), w')
               else transitionToHibernating e fresh w'
           | OperationWakeUp \<Rightarrow>
               if Phase (status w') \<noteq> PhaseActive \<or> \<not> pc_HasRestoreData e then ((noResult, None), w')
               else transitionToWakingUp e w'
           | _ \<Rightarrow> ((noResult, None), w')))"

section \<open>What the handlers do to the status\<close>

lemma pending_map [simp]: "pending (map (pendingExecution m) ts)"
  by (simp add: pending_def list_all_iff pendingExecution_def)

lemma transitionToHibernating_decides:
  "idle (Phase (status w)) \<Longrightarrow> decides (status w) (status (snd (transitionToHibernating e fresh w)))"
  by (rule decides.start_hibernation)
    (auto simp: transitionToHibernating_def Let_def comp_def pendingExecution_def split: option.splits)

lemma transitionToWakingUp_decides:
  "idle (Phase (status w)) \<Longrightarrow> decides (status w) (status (snd (transitionToWakingUp e w)))"
  by (rule decides.start_wakeup)
    (auto simp: transitionToWakingUp_def lockedSnapshot_def Let_def comp_def pendingExecution_def split: option.splits)

lemmas transition_turn = transitionToHibernating_decides [THEN decides_turn] transitionToWakingUp_decides [THEN decides_turn]

lemma consume_status [frame]: "status (snd (consume e k w)) = status w"
  using patch_keeps_status [of "del_annotations [k]" e w] by (auto simp: consume_def split: prod.splits option.splits)

lemma consumeRestart_status: "consumeRestart e w = (r, w') \<Longrightarrow> status w' = status w"
  using consume_status [of e AnnotationRestart w] by (simp add: consumeRestart_def)

lemma consumeFreshThen_turn:
  assumes "\<And>w'. status w' = status w \<Longrightarrow> takes_turn (status w') (status (snd (transition w')))"
  shows "takes_turn (status w) (status (snd (consumeFreshThen e res transition w)))"
  using assms consume_status [of e AnnotationFresh w]
  by (auto simp: consumeFreshThen_def consumeFresh_def split: prod.splits option.splits)

lemma idle_Handle_turn: "takes_turn (status w) (status (snd (idle_Handle e w)))"
  by (auto simp: idle_Handle_def idle_def intro!: transition_turn split: option.splits PlanPhase.splits)

lemma override_Handle_turn: "takes_turn (status w) (status (snd (override_Handle e w)))"
proof -
  let ?fresh = "annotation w AnnotationFresh = ''true''"
  have hib: "takes_turn (status w') (status (snd (consumeFreshThen e res (transitionToHibernating e ?fresh) w')))"
    if "idle (Phase (status w'))" for w' res
    using that by (intro consumeFreshThen_turn transition_turn) simp
  have wake: "takes_turn (status w') (status (snd (consumeFreshThen e res (transitionToWakingUp e) w')))"
    if "idle (Phase (status w'))" for w' res
    using that by (intro consumeFreshThen_turn transition_turn) simp
  obtain b err w1 where c: "consumeRestart e w = ((b, err), w1)" by (metis prod.collapse)
  then have s: "status w1 = status w" by (rule consumeRestart_status)
  show ?thesis
    using hib [of w] wake [of w] hib [of w1] wake [of w1]
    by (cases "Phase (status w)"; cases b; cases err) (auto simp: override_Handle_def Let_def c s idle_def)
qed

lemma restart_Handle_turn: "takes_turn (status w) (status (snd (restart_Handle e w)))"
proof -
  obtain err w1 where p: "patchAndPreserveStatus e (del_annotations [AnnotationRestart, AnnotationFresh]) w = (err, w1)"
    by fastforce
  then have s: "status w1 = status w"
    using patch_keeps_status [of "del_annotations [AnnotationRestart, AnnotationFresh]" e w] by simp
  show ?thesis
    using transition_turn [of w1 e] s
    by (auto simp: restart_Handle_def Let_def p idle_def split: option.splits PlanOperation.splits)
qed

section \<open>Properties\<close>

text \<open>
  A hibernation that starts under an exception's override locks the intent of the cycle: the
  snapshot has the targets, the execution strategy and the behaviour of that override, and there
  is one pending execution for each of its targets.
\<close>

lemma transitionToHibernating_locks:
  assumes "findActiveExceptionOverride e = Some exc" "exc_Name exc \<noteq> ''''"
  shows "\<exists>s. locked s (status (snd (transitionToHibernating e fresh w))) \<and> ExceptionName s = exc_Name exc \<and>
    sn_Targets s = Targets (applyOverrides (exc_Spec exc) (Spec (livePlan w))) \<and>
    sn_Execution s = sp_Execution (applyOverrides (exc_Spec exc) (Spec (livePlan w))) \<and>
    sn_Behavior s = sp_Behavior (applyOverrides (exc_Spec exc) (Spec (livePlan w))) \<and>
    pending (Executions (status (snd (transitionToHibernating e fresh w))))"
  using assms
  by (simp add: transitionToHibernating_def buildEffectivePlan_def Let_def locked_def pendingExecution_def comp_def
      pending_def list_all_iff)

lemma locked_effectivePlan:
  assumes "locked s (Status plan)"
  shows "effectivePlan e plan = Some (plan\<lparr>Spec := (Spec plan)\<lparr>Targets := sn_Targets s, sp_Execution := sn_Execution s,
    sp_Behavior := sn_Behavior s\<rparr>\<rparr>)"
  using assms by (simp add: effectivePlan_def lockedSnapshot_def locked_def)

definition sampleOverride :: ScheduleException where
  "sampleOverride = \<lparr>exc_Name = ''no-db'', exc_Namespace = ''prod'', CreationTimestamp = sampleNow,
     exc_DeletionTimestamp = None, exc_Finalizers = [], exc_Labels = Map.empty,
     exc_Spec = \<lparr>PlanRef = \<lparr>pr_Name = ''web'', pr_Namespace = ''prod''\<rparr>,
       xs_ValidFrom = sampleNow\<lparr>t_ns := - 1\<rparr>, xs_ValidUntil = sampleNow\<lparr>t_ns := 1\<rparr>, xs_Type = ExceptionExtend,
       xs_LeadTime = '''', xs_Windows = [],
       TargetOverrides = [\<lparr>TargetName = ''db'', to_Parameters = None, Disabled = True\<rparr>], xs_ExecutionOverride = None\<rparr>,
     exc_Status = \<lparr>xt_State = ExceptionStateActive, AppliedAt = None, ExpiredAt = None, DetachedAt = None,
       xt_Message = ''''\<rparr>\<rparr>"

lemma sampleOverride_active:
  "findActiveExceptionOverride (sampleEnv\<lparr>Exceptions := [sampleOverride]\<rparr>) = Some sampleOverride"
  by (simp add: findActiveExceptionOverride_def overrideEligible_def newerOverride_def ptrIsZero_def sampleOverride_def
      Before_def sampleEnv_def sampleNow_def)

lemma del_annotations_patch:
  assumes "keeps_annotations e" "patchAndPreserveStatus e (del_annotations ks) w = (err, w')" "k \<in> set ks"
  shows "Annotations (livePlan w') k = None"
  using assms by (auto simp: patchAndPreserveStatus_def Let_def keeps_annotations_def split: sum.splits)

lemma transitions_annotations [simp]:
  "Annotations (livePlan (snd (transitionToHibernating e fresh w))) = Annotations (livePlan w)"
  "Annotations (livePlan (snd (transitionToWakingUp e w))) = Annotations (livePlan w)"
  by (simp_all add: transitionToHibernating_def transitionToWakingUp_def Let_def)

lemma transitions_phase [simp]:
  "Phase (status (snd (transitionToHibernating e fresh w))) = PhaseHibernating"
  "Phase (status (snd (transitionToWakingUp e w))) = PhaseWakingUp"
  by (simp_all add: transitionToHibernating_def transitionToWakingUp_def Let_def)

text \<open>
  A restart is one-shot: whatever its outcome, the worker's plan no longer carries the
  restart and fresh annotations; and it re-runs the operation that the plan last ran, from the
  idle phase that operation ends in, or nothing.
\<close>

lemma restart_is_one_shot:
  assumes "keeps_annotations e" "restart_Handle e w = (r, w')"
  shows "Annotations (livePlan w') AnnotationRestart = None \<and> Annotations (livePlan w') AnnotationFresh = None \<and>
    (Phase (status w') = Phase (status w) \<or>
     CurrentOperation (status w) = OperationHibernate \<and> Phase (status w) = PhaseHibernated \<and> Phase (status w') = PhaseHibernating \<or>
     CurrentOperation (status w) = OperationWakeUp \<and> Phase (status w) = PhaseActive \<and> pc_HasRestoreData e \<and>
       Phase (status w') = PhaseWakingUp)"
proof -
  let ?ks = "[AnnotationRestart, AnnotationFresh]" and ?fresh = "annotation w AnnotationFresh = ''true''"
  obtain err w1 where p: "patchAndPreserveStatus e (del_annotations ?ks) w = (err, w1)" by fastforce
  have s: "status w1 = status w" using patch_keeps_status [of "del_annotations ?ks" e w] p by simp
  have a: "Annotations (livePlan w1) AnnotationRestart = None" "Annotations (livePlan w1) AnnotationFresh = None"
    using del_annotations_patch [OF assms(1) p] by simp_all
  consider "w' = w1"
    | "transitionToHibernating e ?fresh w1 = (r, w')" "CurrentOperation (status w) = OperationHibernate"
        "Phase (status w) = PhaseHibernated"
    | "transitionToWakingUp e w1 = (r, w')" "CurrentOperation (status w) = OperationWakeUp"
        "Phase (status w) = PhaseActive" "pc_HasRestoreData e"
    using assms(2) p s
    by (cases err; cases "CurrentOperation (status w)") (auto simp: restart_Handle_def Let_def split: if_splits)
  then show ?thesis
  proof cases
    case 2
    then have "w' = snd (transitionToHibernating e ?fresh w1)" by simp
    then show ?thesis using a 2(2,3) by simp
  next
    case 3
    then have "w' = snd (transitionToWakingUp e w1)" by simp
    then show ?thesis using a 3(2,3,4) by simp
  qed (use a s in simp)
qed

lemma restart_is_one_shot_witness:
  "\<exists>r w'. restart_Handle sampleEnv (sampleWorld (emptyStatus\<lparr>Phase := PhaseHibernated, CurrentOperation := OperationHibernate\<rparr>)) =
     (r, w') \<and> Phase (status w') = PhaseHibernating \<and> Annotations (livePlan w') AnnotationRestart = None"
proof -
  let ?w = "sampleWorld (emptyStatus\<lparr>Phase := PhaseHibernated, CurrentOperation := OperationHibernate\<rparr>)"
  obtain r w' where run: "restart_Handle sampleEnv ?w = (r, w')" by fastforce
  then have "w' = snd (restart_Handle sampleEnv ?w)" by simp
  also have "Phase (status (snd (restart_Handle sampleEnv ?w))) = PhaseHibernating"
    by (simp add: restart_Handle_def Let_def patchAndPreserveStatus_def sampleEnv_def sampleWorld_def samplePlan_def)
  finally show ?thesis
    using run restart_is_one_shot [OF _ run] by (auto simp: keeps_annotations_def sampleEnv_def)
qed

text \<open>
  A snapshot can outlive the exception it was taken from.  When a hibernation is started
  again in a cycle that still has live restore data, and no override is active any more, the
  plan is executed with the targets of the old snapshot while the executions are those of the
  plan itself: a target that the snapshot does not have gets an execution that no stage runs.
\<close>

lemma stale_snapshot_reused:
  assumes "findActiveExceptionOverride e = None" "PlanSnapshot (status w) = Some snap"
    and "getExistingCycleIDForHibernation e w = sn_CycleID snap" "sn_CycleID snap \<noteq> ''''"
  shows "\<exists>p. effectivePlan e' (livePlan (snd (transitionToHibernating e False w))) = Some p \<and>
    Targets (Spec p) = sn_Targets snap \<and> AppliedExceptionOverride (Status p) = '''' \<and>
    map xe_Target (Executions (Status p)) = map tgt_Name (Targets (Spec (livePlan w)))"
  using assms
  by (simp add: transitionToHibernating_def effectivePlan_def lockedSnapshot_def buildEffectivePlan_def Let_def
      cycleIDFor_def pendingExecution_def comp_def)

definition staleWorld :: World where
  "staleWorld = (sampleWorld (emptyStatus\<lparr>Phase := PhaseActive, CurrentCycleID := ''c1'',
       PlanSnapshot := Some \<lparr>sn_CycleID = ''c1'', ExceptionName = ''no-db'', sn_Targets = [sampleTarget ''app''],
         sn_Execution = sp_Execution (sampleSpec []), sn_Behavior = sp_Behavior (sampleSpec [])\<rparr>\<rparr>))
     \<lparr>restoreStore := Some \<lparr>cm_Labels = Map.empty, cm_Annotations = Map.empty, cm_Data = [(''app.json'', Encoded sampleOld)]\<rparr>\<rparr>"

lemma stale_snapshot_reused_witness:
  "\<exists>p. effectivePlan sampleEnv (livePlan (snd (transitionToHibernating sampleEnv False staleWorld))) = Some p \<and>
     map tgt_Name (Targets (Spec p)) = [''app''] \<and> map xe_Target (Executions (Status p)) = [''db'', ''app'']"
proof -
  let ?snap = "the (PlanSnapshot (status staleWorld))"
  have "getExistingCycleIDForHibernation sampleEnv staleWorld = ''c1''"
    by (simp add: getExistingCycleIDForHibernation_def staleWorld_def liveCycleID_def Load_def cm_get_def okApi_def dataKey_def
        Unmarshal_def sampleOld_def zeroData_def sample_defs)
  moreover have "findActiveExceptionOverride sampleEnv = None" by (simp add: findActiveExceptionOverride_def sampleEnv_def)
  ultimately show ?thesis
    using stale_snapshot_reused [of sampleEnv staleWorld ?snap sampleEnv]
    by (auto simp: staleWorld_def sampleWorld_def samplePlan_def sampleSpec_def sampleTarget_def)
qed

end
