(* ===== verification/ExecStates.thy ===== *)
theory ExecStates
  imports PlanMachine
begin

text \<open>
  The handlers of the executing phases (\<^verbatim>\<open>state_hibernating.go\<close>,
  \<^verbatim>\<open>state_wakingup.go\<close>).
\<close>

section \<open>Hibernating\<close>

definition completed :: "PlanPhase \<Rightarrow> (ExecutionCycle \<Rightarrow> ExecutionCycle) \<Rightarrow> string \<Rightarrow> Time \<Rightarrow>
    HibernatePlanStatus \<Rightarrow> HibernatePlanStatus" where
  "completed phase set_summary cycleID clock st =
     (recordSummary set_summary cycleID (st\<lparr>Phase := phase, LastTransitionTime := Some clock\<rparr>))
       \<lparr>RetryCount := 0, LastRetryTime := None, ErrorMessage := ''''\<rparr>"

definition mismatch :: "World \<Rightarrow> go_error" where
  "mismatch w = PlanError (ErrMsg (''mismatch between phase and operation: phase='' @ phase_string (Phase (status w)) @
     '' operation='' @ operation_string (CurrentOperation (status w))))"

definition hibernating_finalize :: "Env \<Rightarrow> World \<Rightarrow> World" where
  "hibernating_finalize e w =
     (let plan = livePlan w in
      if \<not> IsOperationComplete plan then w
      else
        (let summary = BuildOperationSummary plan OperationHibernate; cycleID = CurrentCycleID (Status plan) in
         Send e (status_update (\<lambda>clock. completed PhaseHibernated (\<lambda>c. c\<lparr>ShutdownExecution := Some summary\<rparr>) cycleID clock)
           (chainHooks [eventHook e EventSuccess, phaseChangePostHook (notify e) (Phase (Status plan))])) w))"

definition hibernating_Handle :: "Env \<Rightarrow> World \<Rightarrow> outcome" where
  "hibernating_Handle e w =
     (if CurrentOperation (status w) \<noteq> OperationHibernate then ((noResult, Some (mismatch w)), w)
      else execute e OperationHibernate False (hibernating_finalize e) w)"

text \<open>The partial history that both \<open>OnError\<close> overrides write before the default handling.\<close>

definition recordPartial :: "Env \<Rightarrow> PlanOperation \<Rightarrow> (ExecutionOperationSummary \<Rightarrow> ExecutionCycle \<Rightarrow> ExecutionCycle) \<Rightarrow>
    go_error \<Rightarrow> World \<Rightarrow> World" where
  "recordPartial e operation set_summary err w =
     (let plan = livePlan w in
      if is_plan_error err \<and> hasExecutionProgress plan then
        (let summary = BuildOperationSummary plan operation; cycleID = CurrentCycleID (Status plan) in
         Send e (status_update (\<lambda>_. recordSummary (set_summary summary) cycleID) None) w)
      else w)"

definition hibernating_OnError :: "Env \<Rightarrow> go_error \<Rightarrow> World \<Rightarrow> StateResult \<times> World" where
  "hibernating_OnError e err w =
     OnError e err (recordPartial e OperationHibernate (\<lambda>s c. c\<lparr>ShutdownExecution := Some s\<rparr>) err w)"

section \<open>WakingUp\<close>

definition postWakeupCleanup :: "Env \<Rightarrow> World \<Rightarrow> World" where
  "postWakeupCleanup e w =
     (let plan = livePlan w in
      case MarkAllTargetsRestored (cmApi e) (map tgt_Name (Targets (Spec plan))) (restoreStore w) of
        Inl _ \<Rightarrow> w
      | Inr restored \<Rightarrow>
          if \<not> restored then w
          else
            (case UnlockRestoreData (cmApi e) (restoreStore w) of
               (Some _, st) \<Rightarrow> w\<lparr>restoreStore := st\<rparr>
             | (None, st) \<Rightarrow>
                 (let w1 = w\<lparr>restoreStore := st\<rparr> in
                  if Annotations plan AnnotationSuspendedAtPhase = None then w1
                  else snd (patchAndPreserveStatus e (del_annotations [AnnotationSuspendedAtPhase]) w1))))"

definition wakingUp_finalize :: "Env \<Rightarrow> World \<Rightarrow> World" where
  "wakingUp_finalize e w =
     (let plan = livePlan w in
      if \<not> IsOperationComplete plan then w
      else
        (let summary = BuildOperationSummary plan OperationWakeUp; cycleID = CurrentCycleID (Status plan) in
         postWakeupCleanup e
           (Send e (status_update (\<lambda>clock. completed PhaseActive (\<lambda>c. c\<lparr>WakeupExecution := Some summary\<rparr>) cycleID clock)
             (chainHooks [eventHook e EventSuccess, phaseChangePostHook (notify e) (Phase (Status plan))])) w)))"

definition wakingUp_Handle :: "Env \<Rightarrow> World \<Rightarrow> outcome" where
  "wakingUp_Handle e w =
     (if CurrentOperation (status w) \<noteq> OperationWakeUp then ((noResult, Some (mismatch w)), w)
      else execute e OperationWakeUp True (wakingUp_finalize e) w)"

definition wakingUp_OnError :: "Env \<Rightarrow> go_error \<Rightarrow> World \<Rightarrow> StateResult \<times> World" where
  "wakingUp_OnError e err w =
     OnError e err (recordPartial e OperationWakeUp (\<lambda>s c. c\<lparr>WakeupExecution := Some s\<rparr>) err w)"

section \<open>The finalisers keep their contract\<close>

lemma completed_simps [simp]:
  "Phase (completed ph f c t st) = ph" "Executions (completed ph f c t st) = Executions st"
  "CurrentCycleID (completed ph f c t st) = CurrentCycleID st" "RetryCount (completed ph f c t st) = 0"
  "ErrorMessage (completed ph f c t st) = ''''" "CurrentOperation (completed ph f c t st) = CurrentOperation st"
  by (simp_all add: completed_def)

lemma completed_decides:
  assumes "IsOperationComplete p" "executing (Phase (Status p))" "summary_of (Status p) sm"
    "f = (\<lambda>c. if Phase (Status p) = PhaseHibernating then c\<lparr>ShutdownExecution := Some sm\<rparr> else c\<lparr>WakeupExecution := Some sm\<rparr>)"
    "ph = (if Phase (Status p) = PhaseHibernating then PhaseHibernated else PhaseActive)"
  shows "decides (Status p) (completed ph f (CurrentCycleID (Status p)) t (Status p))"
proof (rule decides.finish)
  show "recorded (Status p) (recordSummary f (CurrentCycleID (Status p)) (Status p))"
    using assms(3,4) by (auto simp: recorded_def)
  show "completed ph f (CurrentCycleID (Status p)) t (Status p) = (recordSummary f (CurrentCycleID (Status p)) (Status p))
      \<lparr>Phase := ph, LastTransitionTime := Some t, RetryCount := 0, LastRetryTime := None, ErrorMessage := ''''\<rparr>"
    by (simp add: completed_def recordSummary_upd)
qed (use assms in \<open>simp_all add: IsOperationComplete_def\<close>)

lemma postWakeupCleanup_status [frame]: "status (postWakeupCleanup e w) = status w"
proof -
  have "status (snd (patchAndPreserveStatus e (del_annotations ks) w')) = status w'" for ks w'
    by (rule patch_keeps_status) simp
  then show ?thesis by (auto simp: postWakeupCleanup_def Let_def split: sum.splits prod.splits option.splits)
qed

interpretation hib: finalizer hibernating_finalize PhaseHibernating PhaseHibernated
proof
  show "executing PhaseHibernating" by (simp add: executing_def)
qed (auto simp: hibernating_finalize_def Let_def executing_def BuildOperationSummary_results
    intro!: completed_decides)

interpretation wake: finalizer wakingUp_finalize PhaseWakingUp PhaseActive
proof
  show "executing PhaseWakingUp" by (simp add: executing_def)
qed (auto simp: wakingUp_finalize_def Let_def executing_def postWakeupCleanup_status BuildOperationSummary_results
    intro!: completed_decides)

section \<open>What the handlers do to the status\<close>

lemma hibernating_Handle_settled:
  assumes "Phase (status w) = PhaseHibernating" "hibernating_Handle e w = (r, w')"
  shows "hib.settled r (status w) w'"
proof (cases "CurrentOperation (status w) = OperationHibernate")
  case True
  then show ?thesis using assms hib.execute_settled [OF assms(1)] by (simp add: hibernating_Handle_def)
qed (use assms in \<open>auto simp: hibernating_Handle_def hib.settled_def\<close>)

lemma wakingUp_Handle_settled:
  assumes "Phase (status w) = PhaseWakingUp" "wakingUp_Handle e w = (r, w')"
  shows "wake.settled r (status w) w'"
proof (cases "CurrentOperation (status w) = OperationWakeUp")
  case True
  then show ?thesis using assms wake.execute_settled [OF assms(1)] by (simp add: wakingUp_Handle_def)
qed (use assms in \<open>auto simp: wakingUp_Handle_def wake.settled_def\<close>)

lemma hibernating_Handle_turn:
  "Phase (status w) = PhaseHibernating \<Longrightarrow> takes_turn (status w) (status (snd (hibernating_Handle e w)))"
  using hibernating_Handle_settled [of w e] hib.settled_turn by (metis prod.collapse)

lemma wakingUp_Handle_turn:
  "Phase (status w) = PhaseWakingUp \<Longrightarrow> takes_turn (status w) (status (snd (wakingUp_Handle e w)))"
  using wakingUp_Handle_settled [of w e] wake.settled_turn by (metis prod.collapse)

lemma setError_status:
  "status (setError e err w) = (status w)\<lparr>Phase := PhaseError, LastTransitionTime := Some (now e),
     ErrorMessage := (case err of None \<Rightarrow> ''unknown error'' | Some x \<Rightarrow> err_text x)\<rparr>"
  by (simp add: setError_def Let_def)

lemma OnError_keeps: "\<not> is_plan_error err \<Longrightarrow> status (snd (OnError e err w)) = status w"
  by (simp add: OnError_def)

lemma recordPartial_cases:
  obtains "status (recordPartial e op f err w) = status w"
  | "status (recordPartial e op f err w) =
       recordSummary (f (BuildOperationSummary (livePlan w) op)) (CurrentCycleID (status w)) (status w)"
  by (cases "is_plan_error err \<and> hasExecutionProgress (livePlan w)") (auto simp: recordPartial_def Let_def)

lemma exec_OnError_decides:
  assumes "is_plan_error err"
  shows "Phase (status w) = PhaseHibernating \<Longrightarrow> decides (status w) (status (snd (hibernating_OnError e err w)))"
    "Phase (status w) = PhaseWakingUp \<Longrightarrow> decides (status w) (status (snd (wakingUp_OnError e err w)))"
proof -
  have fail: "decides (status w) (status (snd (OnError e err w')))"
    if "executing (Phase (status w))" "status w' = status w \<or> recorded (status w) (status w')" for w'
    using that assms by (intro decides.fail [of _ "status w'"]) (auto simp: OnError_def setError_status)
  show "decides (status w) (status (snd (hibernating_OnError e err w)))" if "Phase (status w) = PhaseHibernating"
    unfolding hibernating_OnError_def
    by (rule fail, use that in \<open>simp add: executing_def\<close>,
        rule recordPartial_cases [of e OperationHibernate "\<lambda>s c. c\<lparr>ShutdownExecution := Some s\<rparr>" err w])
      (use that BuildOperationSummary_results in \<open>auto simp: recorded_def\<close>)
  show "decides (status w) (status (snd (wakingUp_OnError e err w)))" if "Phase (status w) = PhaseWakingUp"
    unfolding wakingUp_OnError_def
    by (rule fail, use that in \<open>simp add: executing_def\<close>,
        rule recordPartial_cases [of e OperationWakeUp "\<lambda>s c. c\<lparr>WakeupExecution := Some s\<rparr>" err w])
      (use that BuildOperationSummary_results in \<open>auto simp: recorded_def\<close>)
qed

section \<open>Properties\<close>

text \<open>
  A call of the handler leaves the Hibernating phase for Hibernated only, without an error, and
  only when every target of the plan has reached a terminal state.
\<close>

lemma shutdown_completes_when_terminal:
  assumes "Phase (status w) = PhaseHibernating" "hibernating_Handle e w = (r, w')" "Phase (status w') \<noteq> PhaseHibernating"
  shows "Phase (status w') = PhaseHibernated \<and> snd r = None \<and>
    list_all (\<lambda>x. isTerminalState (State x)) (Executions (status w'))"
  using hibernating_Handle_settled [OF assms(1,2)] works_eq_frame(1) [of "status w" "status w'"] assms(1,3)
  by (auto simp: hib.settled_def)

text \<open>
  A wake-up in progress is never forgotten silently: a call that reports no error either
  asks to be polled again after ten seconds, or has moved the plan to Active, or leaves it with a
  target that is not terminal although all stages are done.
\<close>

lemma wakeup_polled_until_done:
  assumes "Phase (status w) = PhaseWakingUp" "wakingUp_Handle e w = ((r, None), w')"
  shows "RequeueAfter r = RequeueIntervalDuringStage \<or>
    r = noResult \<and> (Phase (status w') = PhaseActive \<or> \<not> IsOperationComplete (livePlan w'))"
  using assms wake.execute_polled [OF assms(1), of e OperationWakeUp True "(r, None)" w']
  by (auto simp: wakingUp_Handle_def wake.polled_def split: if_splits)

text \<open>A plan whose only target is done, and one whose only target is pending.\<close>

definition doneExec :: ExecutionStatus where
  "doneExec = (pendingExec ''db'')\<lparr>State := StateCompleted, FinishedAt := Some sampleNow\<rparr>"

definition onePlan :: "HibernatePlanStatus \<Rightarrow> World" where
  "onePlan st = (sampleWorld st)\<lparr>livePlan := (samplePlan st)\<lparr>Spec := sampleSpec [sampleTarget ''db'']\<rparr>\<rparr>"

lemma execute_onePlan:
  assumes "Executions st = [doneExec]" "CurrentStageIndex st = 0" "PlanSnapshot st = None"
    and "CurrentOperation st = OperationHibernate \<or> CurrentOperation st = OperationWakeUp"
  shows "execute sampleEnv op backwards fin (onePlan st) = ((noResult, None), (fin (onePlan st))\<lparr>planCopy := None\<rparr>)"
proof -
  let ?w = "onePlan st"
  have copy: "?w\<lparr>planCopy := effectivePlan sampleEnv (livePlan ?w)\<rparr> = ?w" "planCopy ?w = None"
    using assms(3) by (simp_all add: onePlan_def effectivePlan_def lockedSnapshot_def buildEffectivePlan_def
        findActiveExceptionOverride_def sampleEnv_def sampleWorld_def samplePlan_def)
  have st: "status ?w = st" "jobs ?w = []" "Spec (livePlan ?w) = sampleSpec [sampleTarget ''db'']" "eff ?w = livePlan ?w"
    by (simp_all add: onePlan_def samplePlan_def sampleWorld_def eff_def)
  have jobs: "getCurrentCycleJobs sampleEnv (eff ?w) ?w = Inr []"
    using st by (simp add: getCurrentCycleJobs_def sampleEnv_def)
  have "set_eff (with_status (\<lambda>s. s\<lparr>Executions := [doneExec]\<rparr>) (livePlan ?w)) ?w = ?w"
    using assms(1) st copy(2) by (simp add: set_eff_def with_status_def)
  then have upd: "updateExecutionStatuses sampleEnv [] ?w = ?w"
    using assms(1) st
    by (simp add: updateExecutionStatuses_def Let_def observeExec_def jobForExec_def missingJob_def doneExec_def pendingExec_def
        executionStatesEqual_def snapshotExecutionStates_def snapshotOf_def)
  have "AllTerminal (GetStageStatus (livePlan ?w) \<lparr>xs_Targets = [''db''], xs_MaxConcurrency = 1\<rparr>)"
    "\<not> 0 < FailedCount (GetStageStatus (livePlan ?w) \<lparr>xs_Targets = [''db''], xs_MaxConcurrency = 1\<rparr>)"
    using assms(1) st
    by (simp_all add: GetStageStatus_AllTerminal GetStageStatus_FailedCount execStates_def doneExec_def pendingExec_def
        isTerminalState_def isFailedState_def)
  then show ?thesis using copy jobs upd st assms(2,3)
    by (simp add: execute_def Let_def validateRuntimeOverrides_def lockedSnapshot_def sampleEnv_def buildExecutionPlan_def
        sampleSpec_def sampleTarget_def PlanSequential_def ReverseIf_def atStage_def)
qed

definition shutdownStatus :: HibernatePlanStatus where
  "shutdownStatus = emptyStatus\<lparr>Phase := PhaseHibernating, CurrentOperation := OperationHibernate,
     CurrentCycleID := ''c1'', Executions := [doneExec]\<rparr>"

definition wakeupStatus :: HibernatePlanStatus where
  "wakeupStatus = emptyStatus\<lparr>Phase := PhaseWakingUp, CurrentOperation := OperationWakeUp,
     CurrentCycleID := ''c1'', Executions := [doneExec]\<rparr>"

lemma onePlan_status [simp]: "status (onePlan st) = st" by (simp add: onePlan_def samplePlan_def)

lemma shutdown_completes_when_terminal_witness:
  "\<exists>r w'. hibernating_Handle sampleEnv (onePlan shutdownStatus) = (r, w') \<and> Phase (status w') = PhaseHibernated \<and>
     list_all (\<lambda>x. isTerminalState (State x)) (Executions (status w'))"
proof -
  have c: "IsOperationComplete (livePlan (onePlan shutdownStatus))"
    by (simp add: IsOperationComplete_def shutdownStatus_def doneExec_def isTerminalState_def)
  obtain r w' where run: "hibernating_Handle sampleEnv (onePlan shutdownStatus) = (r, w')" by fastforce
  then have "w' = (hibernating_finalize sampleEnv (onePlan shutdownStatus))\<lparr>planCopy := None\<rparr>"
    by (simp add: hibernating_Handle_def execute_onePlan shutdownStatus_def emptyStatus_def)
  then have "Phase (status w') = PhaseHibernated" using c by (simp add: hibernating_finalize_def Let_def)
  then show ?thesis using run shutdown_completes_when_terminal [OF _ run] by (auto simp: shutdownStatus_def)
qed

lemma wakeup_polled_until_done_witness:
  "\<exists>w'. wakingUp_Handle sampleEnv (onePlan wakeupStatus) = ((noResult, None), w') \<and> Phase (status w') = PhaseActive"
proof -
  let ?w' = "(wakingUp_finalize sampleEnv (onePlan wakeupStatus))\<lparr>planCopy := None\<rparr>"
  have run: "wakingUp_Handle sampleEnv (onePlan wakeupStatus) = ((noResult, None), ?w')"
    by (simp add: wakingUp_Handle_def execute_onePlan wakeupStatus_def emptyStatus_def)
  have c: "IsOperationComplete (livePlan (onePlan wakeupStatus))"
    by (simp add: IsOperationComplete_def wakeupStatus_def doneExec_def isTerminalState_def)
  then have "IsOperationComplete (livePlan ?w')"
    by (simp add: wakingUp_finalize_def Let_def IsOperationComplete_def postWakeupCleanup_status)
  then show ?thesis using run wakeup_polled_until_done [OF _ run]
    by (auto simp: wakeupStatus_def noResult_def)
qed

section \<open>The history\<close>

lemma completed_inv:
  assumes "status_inv st" "\<And>c. cy_CycleID (f c) = cy_CycleID c"
  shows "status_inv (completed ph f cid t st)"
  using assms by (auto simp: completed_def status_inv_def recordSummary_bound recordSummary_distinct)

lemma recordSummary_others:
  assumes "\<And>c. cy_CycleID (f c) = cy_CycleID c" "c \<in> set (ExecutionHistory (recordSummary f cid st))" "cy_CycleID c \<noteq> cid"
  shows "c \<in> set (ExecutionHistory st)"
proof -
  obtain i st' where fa: "findOrAppendCycle st cid = (i, st')" by fastforce
  let ?h = "ExecutionHistory st'"
  have i: "i < length ?h" "cy_CycleID (?h ! i) = cid"
      and old: "\<And>c. c \<in> set ?h \<Longrightarrow> cy_CycleID c \<noteq> cid \<Longrightarrow> c \<in> set (ExecutionHistory st)"
    using fa by (auto simp: findOrAppendCycle_def dest: find_index_Some split: option.splits)
  have "c \<in> set (?h[i := f (?h ! i)])"
    using assms(2) fa by (auto simp: recordSummary_def pruneCycleHistory_def dest: in_set_dropD split: if_splits)
  then have "c = f (?h ! i) \<or> c \<in> set ?h" using set_update_subset_insert by fastforce
  then show ?thesis using assms(1,3) i(2) old by auto
qed

text \<open>
  C11.  Finishing a shutdown records it.  The plan is Hibernated since now; the history has an
  entry of the current cycle whose shutdown summary has one result per target, with the target's
  final state, attempts, times, message and execution identifier, and is successful exactly when
  no target failed or was aborted; the entries of other cycles are as they were (the oldest may
  have been pruned); retry count, last retry time and error message are cleared; and the status
  invariant is kept.
\<close>

theorem shutdown_recorded:
  assumes "status_inv (status w)" "IsOperationComplete (livePlan w)" "status (hibernating_finalize e w) = st'"
  shows "status_inv st' \<and> Phase st' = PhaseHibernated \<and> LastTransitionTime st' = Some (now e) \<and>
    RetryCount st' = 0 \<and> LastRetryTime st' = None \<and> ErrorMessage st' = '''' \<and> Executions st' = Executions (status w) \<and>
    (\<exists>c s. c \<in> set (ExecutionHistory st') \<and> cy_CycleID c = CurrentCycleID (status w) \<and>
       ShutdownExecution c = Some s \<and> Operation s = OperationHibernate \<and>
       TargetResults s = map (\<lambda>x. \<lparr>tr_Target = xe_Target x, tr_State = State x, tr_Attempts = Attempts x,
         ExecutionID = TrimPrefix (LogsRef x) ExecutionIDLogPrefix, tr_StartedAt = StartedAt x,
         tr_FinishedAt = FinishedAt x, tr_Message = xe_Message x\<rparr>) (Executions (status w)) \<and>
       (Success s \<longleftrightarrow> list_all (\<lambda>x. State x \<noteq> StateFailed \<and> State x \<noteq> StateAborted) (Executions (status w)))) \<and>
    (\<forall>c. c \<in> set (ExecutionHistory st') \<and> cy_CycleID c \<noteq> CurrentCycleID (status w) \<longrightarrow> c \<in> set (ExecutionHistory (status w)))"
proof -
  let ?s = "BuildOperationSummary (livePlan w) OperationHibernate"
  let ?f = "\<lambda>c. c\<lparr>ShutdownExecution := Some ?s\<rparr>" and ?cid = "CurrentCycleID (status w)"
  let ?st = "(status w)\<lparr>Phase := PhaseHibernated, LastTransitionTime := Some (now e)\<rparr>"
  have st: "st' = completed PhaseHibernated ?f ?cid (now e) (status w)"
    using assms(2,3) by (simp add: hibernating_finalize_def Let_def)
  have h: "ExecutionHistory st' = ExecutionHistory (recordSummary ?f ?cid ?st)" by (simp add: st completed_def)
  obtain c where c: "cy_CycleID c = ?cid" "?f c \<in> set (ExecutionHistory st')"
    using recordSummary_entry [of ?st ?f ?cid] assms(1) h by (auto simp: status_inv_def)
  have s: "TargetResults ?s = map targetResult (Executions (status w)) \<and> Operation ?s = OperationHibernate \<and>
      (Success ?s \<longleftrightarrow> list_all (\<lambda>x. State x \<noteq> StateFailed \<and> State x \<noteq> StateAborted) (Executions (status w)))"
    using BuildOperationSummary_results [of "livePlan w" OperationHibernate]
    by (simp add: summary_of_def isFailedState_def BuildOperationSummary_operation)
  have "\<exists>c s. c \<in> set (ExecutionHistory st') \<and> cy_CycleID c = ?cid \<and> ShutdownExecution c = Some s \<and>
      Operation s = OperationHibernate \<and> TargetResults s = map targetResult (Executions (status w)) \<and>
      (Success s \<longleftrightarrow> list_all (\<lambda>x. State x \<noteq> StateFailed \<and> State x \<noteq> StateAborted) (Executions (status w)))"
    using c s by (intro exI [of _ "?f c"] exI [of _ ?s]) simp
  moreover have "\<forall>c. c \<in> set (ExecutionHistory st') \<and> cy_CycleID c \<noteq> ?cid \<longrightarrow> c \<in> set (ExecutionHistory (status w))"
    using recordSummary_others [of ?f _ ?cid ?st] h by auto
  moreover have "status_inv st' \<and> Phase st' = PhaseHibernated \<and> LastTransitionTime st' = Some (now e) \<and>
      RetryCount st' = 0 \<and> LastRetryTime st' = None \<and> ErrorMessage st' = '''' \<and> Executions st' = Executions (status w)"
    using completed_inv [OF assms(1), of ?f PhaseHibernated ?cid "now e"]
    by (simp add: st) (simp add: completed_def recordSummary_upd)
  ultimately show ?thesis unfolding targetResult_def by blast
qed

theorem shutdown_recorded_witness:
  "\<exists>c s. c \<in> set (ExecutionHistory (status (hibernating_finalize sampleEnv (onePlan shutdownStatus)))) \<and>
     cy_CycleID c = ''c1'' \<and> ShutdownExecution c = Some s \<and> map tr_State (TargetResults s) = [StateCompleted] \<and> Success s"
proof -
  have "status_inv shutdownStatus" "IsOperationComplete (livePlan (onePlan shutdownStatus))"
    by (simp_all add: status_inv_def IsOperationComplete_def shutdownStatus_def doneExec_def isTerminalState_def emptyStatus_def)
  then have "\<exists>c s. c \<in> set (ExecutionHistory (status (hibernating_finalize sampleEnv (onePlan shutdownStatus)))) \<and>
      cy_CycleID c = CurrentCycleID shutdownStatus \<and> ShutdownExecution c = Some s \<and>
      map tr_State (TargetResults s) = map State (Executions shutdownStatus) \<and>
      (Success s \<longleftrightarrow> list_all (\<lambda>x. State x \<noteq> StateFailed \<and> State x \<noteq> StateAborted) (Executions shutdownStatus))"
    using shutdown_recorded [of "onePlan shutdownStatus" sampleEnv, OF _ _ refl] by fastforce
  then show ?thesis by (simp add: shutdownStatus_def doneExec_def)
qed

section \<open>The order of the stages\<close>

text \<open>The jobs that one call adds all belong to targets of one stage.\<close>

definition adds_jobs_of :: "ExecutionStage \<Rightarrow> World \<Rightarrow> World \<Rightarrow> bool" where
  "adds_jobs_of stage w w' \<longleftrightarrow> (\<exists>new. jobs w' = jobs w @ new \<and>
     list_all (\<lambda>j. list_ex (\<lambda>t. j_Labels j LabelTarget = Some t) (xs_Targets stage)) new)"

lemma executeForStage_adds:
  assumes "executeForStage e js stage op w = (r, w')" "length js + length (xs_Targets stage) < 2 ^ 31"
  shows "adds_jobs_of stage w w'"
proof -
  have "CountRunningJobsInStage js stage \<le> length js" by (simp add: CountRunningJobsInStage_def)
  then have "int (CountRunningJobsInStage js stage + 0 + length (xs_Targets stage)) < 2 ^ 31" using assms(2) by simp
  from dispatchTargets_dispatched [OF assms(1) [unfolded executeForStage_def] this refl]
  obtain new where "jobs w' = jobs w @ new" "list_all (fresh_job (eff w) op js (xs_Targets stage)) new"
    by (auto simp: dispatched_def)
  then show ?thesis unfolding adds_jobs_of_def by (intro exI [of _ new]) (auto simp: list_all_iff list_ex_iff fresh_job_def)
qed

text \<open>
  C8.  Stages run in order: a call adds jobs for the current stage only, or for the next one,
  and for the next one only if every target of the current stage is in a terminal state, and in
  strict mode only if none of them failed.
\<close>

theorem stages_in_order:
  assumes "atStage e op finalize js ep w = (r, w')" "jobs (finalize w) = jobs w"
    and "idx = CurrentStageIndex (Status (eff w))" "0 \<le> idx" "idx < int (length (Stages ep))"
    and "list_all (\<lambda>s. length js + length (xs_Targets s) < 2 ^ 31) (Stages ep)"
  shows "adds_jobs_of (Stages ep ! nat idx) w w' \<or>
    idx + 1 < int (length (Stages ep)) \<and> adds_jobs_of (Stages ep ! nat (idx + 1)) w w' \<and>
    AllTerminal (GetStageStatus (eff w) (Stages ep ! nat idx)) \<and>
    (isStrict (eff w) \<longrightarrow> FailedCount (GetStageStatus (eff w) (Stages ep ! nat idx)) = 0)"
proof -
  let ?stage = "Stages ep ! nat idx" and ?next = "Stages ep ! nat (idx + 1)"
  let ?w1 = "nextStage e (idx + 1) w"
  have none: "adds_jobs_of ?stage w v" if "jobs v = jobs w" for v using that by (simp add: adds_jobs_of_def)
  have small: "length js + length (xs_Targets s) < 2 ^ 31" if "s \<in> set (Stages ep)" for s
    using assms(6) that by (auto simp: list_all_iff)
  consider "jobs w' = jobs w" | "executeForStage e js ?stage op w = (r, w')"
    | "executeForStage e js ?next op ?w1 = (r, w')" "AllTerminal (GetStageStatus (eff w) ?stage)"
        "isStrict (eff w) \<longrightarrow> FailedCount (GetStageStatus (eff w) ?stage) = 0" "idx + 1 < int (length (Stages ep))"
    using assms(1-5) by (auto simp: atStage_def Let_def split: if_splits)
  then show ?thesis
  proof cases
    case 1
    then show ?thesis using none by simp
  next
    case 2
    then show ?thesis using executeForStage_adds small assms(4,5) by simp
  next
    case 3
    then have "adds_jobs_of ?next ?w1 w'" using executeForStage_adds small assms(4) by simp
    moreover have "jobs ?w1 = jobs w" by (simp add: nextStage_def)
    ultimately show ?thesis using 3 by (simp add: adds_jobs_of_def)
  qed
qed

theorem stages_in_order_witness:
  "adds_jobs_of dbStage (sampleWorld (emptyStatus\<lparr>CurrentCycleID := ''c1''\<rparr>))
     (snd (atStage sampleEnv OperationHibernate id [] \<lparr>Stages = [dbStage]\<rparr> (sampleWorld (emptyStatus\<lparr>CurrentCycleID := ''c1''\<rparr>))))"
proof -
  let ?w = "sampleWorld (emptyStatus\<lparr>CurrentCycleID := ''c1''\<rparr>)"
  obtain r w' where run: "atStage sampleEnv OperationHibernate id [] \<lparr>Stages = [dbStage]\<rparr> ?w = (r, w')" by fastforce
  have "CurrentStageIndex (Status (eff ?w)) = 0" by (simp add: eff_def sampleWorld_def samplePlan_def emptyStatus_def)
  then show ?thesis using stages_in_order [OF run _ refl] run by (simp add: dbStage_def)
qed

text \<open>
  Aborting a target of a plan that runs under an override is forgotten: the abort is
  recorded in the copy of the plan and offered to the status writer, but the worker's own plan
  is unchanged, so the next call finds the target as it was.
\<close>

lemma prune_under_override_forgotten:
  assumes "planCopy w = Some p" "execStates p target = Some StatePending"
  shows "livePlan (pruneTarget e target message w) = livePlan w \<and>
    execStates (eff (pruneTarget e target message w)) target = Some StateAborted"
proof -
  have find: "List.find (\<lambda>x. xe_Target x = t) (update_first (\<lambda>x. xe_Target x = t) f xs) =
      map_option f (List.find (\<lambda>x. xe_Target x = t) xs)" if "\<And>x. xe_Target (f x) = xe_Target x" for t f xs
    using that by (induction xs) auto
  have "execStates (with_status (abortExec target message) q) target = Some StateAborted"
    if "execStates q target = Some s" for q s
    using that find [of "\<lambda>x. x\<lparr>State := StateAborted, xe_Message := message\<rparr>" target "Executions (Status q)"]
    by (auto simp: execStates_def abortExec_def)
  from this [OF this [OF assms(2)]] show ?thesis
    using assms(1) by (simp add: pruneTarget_def Let_def set_eff_def eff_def)
qed

lemma prune_under_override_forgotten_witness:
  "execStates (livePlan (pruneTarget sampleEnv ''db'' ''m''
     ((sampleWorld (emptyStatus\<lparr>Executions := [pendingExec ''db'']\<rparr>))
       \<lparr>planCopy := Some (samplePlan (emptyStatus\<lparr>Executions := [pendingExec ''db'']\<rparr>))\<rparr>))) ''db'' = Some StatePending"
proof -
  let ?st = "emptyStatus\<lparr>Executions := [pendingExec ''db'']\<rparr>"
  have x: "execStates (samplePlan ?st) ''db'' = Some StatePending"
    by (simp add: execStates_def samplePlan_def pendingExec_def)
  then show ?thesis
    using prune_under_override_forgotten [of "(sampleWorld ?st)\<lparr>planCopy := Some (samplePlan ?st)\<rparr>" "samplePlan ?st"]
    by (simp add: sampleWorld_def)
qed

end
