(* ===== verification/SuspendStates.thy ===== *)
theory SuspendStates
  imports PlanMachine
begin

text \<open>
  Suspension and resumption (\<^verbatim>\<open>state_pre_suspension.go\<close>, \<^verbatim>\<open>state_suspended.go\<close>).
\<close>

section \<open>Entering the suspended phase\<close>

definition isInExecutingPhase :: "World \<Rightarrow> bool" where
  "isInExecutingPhase w \<longleftrightarrow> Phase (status w) = PhaseHibernating \<or> Phase (status w) = PhaseWakingUp"

definition recordSuspension :: "HibernatePlan \<Rightarrow> HibernatePlan" where
  "recordSuspension plan =
     plan\<lparr>Spec := (Spec plan)\<lparr>Suspend := True\<rparr>,
          Annotations := (Annotations plan)(AnnotationSuspendedAtPhase \<mapsto> phase_string (Phase (Status plan)))\<rparr>"

definition performSuspension :: "Env \<Rightarrow> World \<Rightarrow> outcome" where
  "performSuspension e w =
     (case patchAndPreserveStatus e recordSuspension w of
        (Some err, w') \<Rightarrow> ((noResult, Some (Wrap ''failed to record suspended-at-phase annotation: '' err)), w')
      | (None, w') \<Rightarrow>
          ((requeueNow, None),
           Send e (status_update (\<lambda>clock st. st\<lparr>Phase := PhaseSuspended, ErrorMessage := '''',
               LastTransitionTime := Some clock\<rparr>) None) w'))"

definition preSuspension_Handle :: "Env \<Rightarrow> World \<Rightarrow> outcome" where
  "preSuspension_Handle e w =
     (if isInExecutingPhase w then
        (case awaitExecutionDrain e w of
           ((_, result, Some err), w') \<Rightarrow> ((result, Some err), w')
         | ((False, result, None), w') \<Rightarrow> ((result, None), w')
         | ((True, _, None), w') \<Rightarrow> performSuspension e w')
      else performSuspension e w)"

definition preSuspension_OnDeadline :: "Env \<Rightarrow> World \<Rightarrow> outcome" where
  "preSuspension_OnDeadline e w = performSuspension e w"

section \<open>Resuming\<close>

definition cleanupSuspensionAnnotations :: "Env \<Rightarrow> World \<Rightarrow> World" where
  "cleanupSuspensionAnnotations e w =
     (if Annotations (livePlan w) AnnotationSuspendedAtPhase = None \<and>
         Annotations (livePlan w) AnnotationSuspendReason = None then w
      else snd (patchAndPreserveStatus e (del_annotations [AnnotationSuspendedAtPhase, AnnotationSuspendReason]) w))"

text \<open>\<open>None\<close> when the plan was not suspended in this way (\<open>handled\<close> is false).\<close>

definition resumeFromError :: "Env \<Rightarrow> World \<Rightarrow> outcome option" where
  "resumeFromError e w =
     (if annotation w AnnotationSuspendedAtPhase \<noteq> phase_string PhaseError then None
      else
        (let targetPhase = (if CurrentOperation (status w) = OperationWakeUp then PhaseHibernated else PhaseActive);
             transition = now e;
             w1 = Send e (status_update (\<lambda>_ st. st\<lparr>Phase := targetPhase, RetryCount := 0, ErrorMessage := '''',
                    LastRetryTime := None, LastTransitionTime := Some transition\<rparr>) None) w
         in Some ((requeueNow, None), cleanupSuspensionAnnotations e w1)))"

definition resumeFromExecution :: "Env \<Rightarrow> World \<Rightarrow> outcome option" where
  "resumeFromExecution e w =
     (let suspendedAtPhase = annotation w AnnotationSuspendedAtPhase in
      if suspendedAtPhase \<noteq> phase_string PhaseHibernating \<and> suspendedAtPhase \<noteq> phase_string PhaseWakingUp then None
      else (case scheduleResult e of
              None \<Rightarrow> None
            | Some shouldHibernate \<Rightarrow>
                (let targetPhase = (if suspendedAtPhase = phase_string PhaseHibernating
                       then (if shouldHibernate then PhaseHibernating else PhaseActive)
                       else (if \<not> shouldHibernate then PhaseWakingUp else PhaseHibernated));
                     transition = now e;
                     w1 = Send e (status_update (\<lambda>_ st. st\<lparr>Phase := targetPhase,
                            LastTransitionTime := Some transition\<rparr>) None) w
                 in Some ((requeueNow, None), cleanupSuspensionAnnotations e w1))))"

definition shouldForceWakeUpOnResume :: "Env \<Rightarrow> World \<Rightarrow> bool" where
  "shouldForceWakeUpOnResume e w =
     (let suspendedAtPhase = annotation w AnnotationSuspendedAtPhase in
      if suspendedAtPhase = '''' \<or> suspendedAtPhase = phase_string PhaseActive \<or>
         suspendedAtPhase = phase_string PhaseError then False
      else if \<not> pc_HasRestoreData e then False
      else (case scheduleResult e of None \<Rightarrow> False | Some shouldHibernate \<Rightarrow> \<not> shouldHibernate))"

text \<open>Changes the phase in memory only: no update is sent to the status writer.\<close>

definition forceWakeUpOnResume :: "Env \<Rightarrow> World \<Rightarrow> outcome" where
  "forceWakeUpOnResume e w =
     ((requeueNow, None),
      cleanupSuspensionAnnotations e
        (w\<lparr>livePlan := with_status (\<lambda>st. st\<lparr>Phase := PhaseHibernated\<rparr>) (livePlan w)\<rparr>))"

definition resume :: "Env \<Rightarrow> World \<Rightarrow> outcome" where
  "resume e w =
     (case resumeFromError e w of
        Some r \<Rightarrow> r
      | None \<Rightarrow>
          (case resumeFromExecution e w of
             Some r \<Rightarrow> r
           | None \<Rightarrow>
               if shouldForceWakeUpOnResume e w then forceWakeUpOnResume e w
               else ((requeueNow, None),
                     cleanupSuspensionAnnotations e
                       (Send e (status_update (\<lambda>clock st. st\<lparr>Phase := PhaseActive,
                           LastTransitionTime := Some clock\<rparr>) None) w))))"

definition revokeSuspension :: "HibernatePlan \<Rightarrow> HibernatePlan" where
  "revokeSuspension plan =
     del_annotations [AnnotationSuspendUntil] (plan\<lparr>Spec := (Spec plan)\<lparr>Suspend := False\<rparr>\<rparr>)"

definition resumeUnlessSuspended :: "Env \<Rightarrow> World \<Rightarrow> outcome" where
  "resumeUnlessSuspended e w =
     (if Suspend (Spec (livePlan w)) then ((noResult, None), w) else resume e w)"

definition suspended_Handle :: "Env \<Rightarrow> World \<Rightarrow> outcome" where
  "suspended_Handle e w =
     (case Annotations (livePlan w) AnnotationSuspendUntil of
        None \<Rightarrow> resumeUnlessSuspended e w
      | Some suspendUntilStr \<Rightarrow>
          (case ParseRFC3339 suspendUntilStr of
             Inl err \<Rightarrow> ((noResult, Some err), w)
           | Inr deadline \<Rightarrow>
               if \<not> After (now e) deadline
               then ((noResult\<lparr>DeadlineAfter := SubTime deadline (now e)\<rparr>, None), w)
               else (case patchAndPreserveStatus e revokeSuspension w of
                       (Some err, w') \<Rightarrow> ((noResult, Some err), w')
                     | (None, w') \<Rightarrow> resumeUnlessSuspended e w')))"

definition suspended_OnDeadline :: "Env \<Rightarrow> World \<Rightarrow> outcome" where
  "suspended_OnDeadline e w =
     (case patchAndPreserveStatus e revokeSuspension w of
        (Some err, w') \<Rightarrow> ((noResult, Some err), w')
      | (None, w') \<Rightarrow> resume e w')"

section \<open>What the handlers do to the status\<close>

lemma cleanup_status [frame]: "status (cleanupSuspensionAnnotations e w) = status w"
proof -
  have "status (snd (patchAndPreserveStatus e (del_annotations ks) w)) = status w" for ks
    by (rule patch_keeps_status) simp
  then show ?thesis by (simp add: cleanupSuspensionAnnotations_def)
qed

lemma performSuspension_decides:
  assumes "Phase (status w) \<noteq> PhaseSuspended"
  shows "status (snd (performSuspension e w)) = status w \<or> decides (status w) (status (snd (performSuspension e w)))"
proof -
  have "status (snd (patchAndPreserveStatus e recordSuspension w)) = status w"
    by (rule patch_keeps_status) (simp add: recordSuspension_def)
  moreover have "decides (status w) ((status w)\<lparr>Phase := PhaseSuspended, ErrorMessage := '''', LastTransitionTime := t\<rparr>)" for t
    using assms by (intro decides.suspend) auto
  ultimately show ?thesis by (auto simp: performSuspension_def split: prod.splits option.splits)
qed

lemma awaitExecutionDrain_observes:
  assumes "awaitExecutionDrain e w = (r, w')" "planCopy w = None"
  shows "observes (status w) (status w')"
proof -
  have "synced w" using assms(2) by (simp add: synced_def eff_def)
  from updateExecutionStatuses_observes [OF this] show ?thesis
    using assms(1) by (auto simp: awaitExecutionDrain_def Let_def split: sum.splits if_splits)
qed

lemma preSuspension_Handle_turn:
  assumes "Phase (status w) \<noteq> PhaseSuspended" "planCopy w = None"
  shows "takes_turn (status w) (status (snd (preSuspension_Handle e w)))"
proof (cases "isInExecutingPhase w")
  case True
  obtain d res err w1 where a: "awaitExecutionDrain e w = ((d, res, err), w1)" by (metis prod.collapse)
  note o = awaitExecutionDrain_observes [OF a assms(2)]
  have wk: "works_eq (status w) (status w1)"
    using True observes_works [OF o] by (simp add: isInExecutingPhase_def executing_def)
  then have "takes_turn (status w) (status (snd (performSuspension e w1)))"
    using performSuspension_decides [of w1 e] observes_frame(1) [OF o] assms(1)
    by (auto intro: works_eq_turn works_eq_decides)
  then show ?thesis using True a works_eq_turn [OF wk]
    by (cases err; cases d) (auto simp: preSuspension_Handle_def)
qed (use assms performSuspension_decides [of w e] in \<open>auto simp: preSuspension_Handle_def intro: decides_turn\<close>)

lemma resume_decides:
  assumes "Phase (status w) = PhaseSuspended"
  shows "decides (status w) (status (snd (resume e w)))"
proof -
  have "decides (status w) ((status w)\<lparr>Phase := ph, LastTransitionTime := t\<rparr>)" if "idle ph \<or> executing ph" for ph t
    using assms that by (intro decides.resume) auto
  moreover have "decides (status w) ((status w)\<lparr>Phase := if CurrentOperation (status w) = OperationWakeUp then PhaseHibernated
       else PhaseActive, RetryCount := 0, ErrorMessage := '''', LastRetryTime := None, LastTransitionTime := t\<rparr>)" for t
    using assms by (intro decides.resume_failed) auto
  moreover have "decides (status w) ((status w)\<lparr>Phase := PhaseHibernated\<rparr>)"
    using assms by (intro decides.resume [of _ PhaseHibernated _ "LastTransitionTime (status w)"]) (auto simp: idle_def)
  ultimately show ?thesis
    by (auto simp: resume_def resumeFromError_def resumeFromExecution_def forceWakeUpOnResume_def Let_def cleanup_status
        idle_def executing_def split: option.splits)
qed

lemma revoke_status: "status (snd (patchAndPreserveStatus e revokeSuspension w)) = status w"
  by (rule patch_keeps_status) (simp add: revokeSuspension_def)

lemma suspended_turn:
  assumes "Phase (status w) = PhaseSuspended"
  shows "takes_turn (status w) (status (snd (suspended_Handle e w)))"
    "takes_turn (status w) (status (snd (suspended_OnDeadline e w)))"
proof -
  obtain err w1 where p: "patchAndPreserveStatus e revokeSuspension w = (err, w1)" by fastforce
  then have s: "status w1 = status w" using revoke_status [of e w] by simp
  note r = decides_turn [OF resume_decides [OF assms, of e]] resume_decides [of w1 e, THEN decides_turn]
  show "takes_turn (status w) (status (snd (suspended_Handle e w)))"
    using r assms s p by (auto simp: suspended_Handle_def resumeUnlessSuspended_def split: option.splits sum.splits)
  show "takes_turn (status w) (status (snd (suspended_OnDeadline e w)))"
    using r assms s p by (auto simp: suspended_OnDeadline_def split: option.splits)
qed

text \<open>
  A suspended plan goes back to an operation only if it was suspended in the middle of it, as
  the annotation says, and the schedule still asks for it.
\<close>

definition resumes_operation :: "Env \<Rightarrow> World \<Rightarrow> World \<Rightarrow> bool" where
  "resumes_operation e w w' \<longleftrightarrow> (executing (Phase (status w')) \<longrightarrow>
     annotation w AnnotationSuspendedAtPhase = phase_string (Phase (status w')) \<and>
     scheduleResult e = Some (Phase (status w') = PhaseHibernating))"

lemma resume_operation: "resumes_operation e w (snd (resume e w))"
  by (auto simp: resumes_operation_def resume_def resumeFromError_def resumeFromExecution_def forceWakeUpOnResume_def
      Let_def cleanup_status executing_def split: option.splits if_splits)

lemma suspended_operation:
  assumes "keeps_annotations e" "Phase (status w) = PhaseSuspended"
  shows "resumes_operation e w (snd (suspended_Handle e w))" "resumes_operation e w (snd (suspended_OnDeadline e w))"
proof -
  obtain err w1 where p: "patchAndPreserveStatus e revokeSuspension w = (err, w1)" by fastforce
  have "Annotations (livePlan w1) AnnotationSuspendedAtPhase = Annotations (livePlan w) AnnotationSuspendedAtPhase"
    using p assms(1)
    by (auto simp: patchAndPreserveStatus_def Let_def keeps_annotations_def revokeSuspension_def split: sum.splits)
  then have r: "resumes_operation e w (snd (resume e w1))"
    using resume_operation [of e w1] by (simp add: resumes_operation_def get_str_def)
  have kept: "resumes_operation e w v" if "status v = status w" for v
    using that assms(2) by (simp add: resumes_operation_def executing_def)
  have s: "status w1 = status w" using p revoke_status [of e w] by simp
  show "resumes_operation e w (snd (suspended_Handle e w))"
    using p r resume_operation [of e w] kept [OF s] kept [OF refl]
    by (auto simp: suspended_Handle_def resumeUnlessSuspended_def split: option.splits sum.splits)
  show "resumes_operation e w (snd (suspended_OnDeadline e w))"
    using p r kept [OF s] by (auto simp: suspended_OnDeadline_def split: option.splits)
qed

section \<open>Properties\<close>

lemma awaitExecutionDrain_drained:
  "awaitExecutionDrain e w = ((True, r, err), w') \<Longrightarrow> \<not> list_ex inFlight (Executions (status w'))"
  by (auto simp: awaitExecutionDrain_def Let_def split: sum.splits if_splits)

lemma performSuspension_executions: "Executions (status (snd (performSuspension e w))) = Executions (status w)"
proof -
  have "status (snd (patchAndPreserveStatus e recordSuspension w)) = status w"
    by (rule patch_keeps_status) (simp add: recordSuspension_def)
  then show ?thesis by (auto simp: performSuspension_def split: prod.splits option.splits)
qed

lemma preSuspension_drained:
  assumes "planCopy w = None" "isInExecutingPhase w" "preSuspension_Handle e w = (r, w')"
    and "Phase (status w') = PhaseSuspended"
  shows "\<not> list_ex inFlight (Executions (status w'))"
proof -
  obtain d res err w1 where a: "awaitExecutionDrain e w = ((d, res, err), w1)" by (metis prod.collapse)
  have ph: "Phase (status w1) \<noteq> PhaseSuspended"
    using observes_frame(1) [OF awaitExecutionDrain_observes [OF a assms(1)]] assms(2) by (auto simp: isInExecutingPhase_def)
  have "d" "err = None" "w' = snd (performSuspension e w1)"
    using assms(2,3,4) a ph by (auto simp: preSuspension_Handle_def split: option.splits bool.splits)
  then show ?thesis using awaitExecutionDrain_drained [of e w res None w1] a by (simp add: performSuspension_executions)
qed

lemma performSuspension_phase:
  "Phase (status (snd (performSuspension e w))) = Phase (status w) \<or> Phase (status (snd (performSuspension e w))) = PhaseSuspended"
proof -
  have "status (snd (patchAndPreserveStatus e recordSuspension w)) = status w"
    by (rule patch_keeps_status) (simp add: recordSuspension_def)
  then show ?thesis by (auto simp: performSuspension_def split: prod.splits option.splits)
qed

lemma preSuspension_phase:
  assumes "planCopy w = None" "preSuspension_Handle e w = (r, w')"
  shows "Phase (status w') = Phase (status w) \<or> Phase (status w') = PhaseSuspended"
proof -
  obtain d res err w1 where a: "awaitExecutionDrain e w = ((d, res, err), w1)" by (metis prod.collapse)
  have "Phase (status w1) = Phase (status w)" using observes_frame(1) [OF awaitExecutionDrain_observes [OF a assms(1)]] .
  moreover have "w' = w1 \<or> w' = snd (performSuspension e w1) \<or> w' = snd (performSuspension e w)"
    using assms(2) a by (auto simp: preSuspension_Handle_def split: if_splits option.splits bool.splits)
  ultimately show ?thesis using performSuspension_phase [of e w1] performSuspension_phase [of e w] by auto
qed

text \<open>
  C12.  A plan that is executing is suspended only after it has drained: when the handler (not
  its timeout) has written the Suspended phase, no target has a job dispatched and unfinished.
\<close>

theorem suspension_waits_for_drain:
  assumes "planCopy w = None" "isInExecutingPhase w" "preSuspension_Handle e w = (r, w')"
    and "Phase (status w') = PhaseSuspended"
  shows "\<not> list_ex inFlight (Executions (status w'))"
  using preSuspension_drained [OF assms] .

lemma cleanup_annotations:
  assumes "keeps_annotations e"
  shows "Annotations (livePlan (cleanupSuspensionAnnotations e w)) AnnotationSuspendedAtPhase = None"
  using assms by (auto simp: cleanupSuspensionAnnotations_def patchAndPreserveStatus_def Let_def keeps_annotations_def
      split: sum.splits)

lemma performSuspension_world:
  assumes "keeps_annotations e" "Phase (status w) \<noteq> PhaseSuspended" "performSuspension e w = (r, w')"
    and "Phase (status w') = PhaseSuspended"
  shows "annotation w' AnnotationSuspendedAtPhase = phase_string (Phase (status w))"
    "status w' = (status w)\<lparr>Phase := PhaseSuspended, ErrorMessage := '''', LastTransitionTime := Some (now e)\<rparr>"
  using assms
  by (auto simp: performSuspension_def patchAndPreserveStatus_def Let_def keeps_annotations_def recordSuspension_def
      get_str_def split: sum.splits)

text \<open>
  C13.  Suspending a plan in the middle of an operation and resuming it while the schedule still
  asks for that operation continues it where it stopped: phase, operation, cycle, stage,
  executions, snapshot, history and retry state are as they were, and the annotations of the
  suspension are gone.
\<close>

theorem suspend_resume_continues:
  assumes "keeps_annotations e1" "keeps_annotations e2" "isInExecutingPhase w"
    and "performSuspension e1 w = (r1, w1)" "Phase (status w1) = PhaseSuspended"
    and "scheduleResult e2 = Some (Phase (status w) = PhaseHibernating)" "resume e2 w1 = (r2, w2)"
  shows "status w2 = (status w)\<lparr>ErrorMessage := '''', LastTransitionTime := Some (now e2)\<rparr> \<and>
    Annotations (livePlan w2) AnnotationSuspendedAtPhase = None \<and> r2 = (requeueNow, None)"
proof -
  have ph: "Phase (status w) \<noteq> PhaseSuspended" using assms(3) by (auto simp: isInExecutingPhase_def)
  note w1 = performSuspension_world [OF assms(1) ph assms(4,5)]
  let ?w = "Send e2 (status_update (\<lambda>_ st. st\<lparr>Phase := Phase (status w), LastTransitionTime := Some (now e2)\<rparr>) None) w1"
  have "w2 = cleanupSuspensionAnnotations e2 ?w" "r2 = (requeueNow, None)"
    using assms(3,6,7) w1(1)
    by (auto simp: resume_def resumeFromError_def resumeFromExecution_def Let_def isInExecutingPhase_def split: if_splits)
  then show ?thesis using cleanup_annotations [OF assms(2), of ?w] w1(2) by (simp add: cleanup_status)
qed

lemma keeps_annotations_sample: "keeps_annotations sampleEnv" "keeps_annotations (sampleEnv\<lparr>scheduleResult := s\<rparr>)"
  by (simp_all add: keeps_annotations_def sampleEnv_def)

lemma updateExecutionStatuses_empty: "planCopy w = None \<Longrightarrow> Executions (status w) = [] \<Longrightarrow>
    updateExecutionStatuses e [] w = w"
  by (simp add: updateExecutionStatuses_def Let_def eff_def set_eff_def with_status_def executionStatesEqual_def
      snapshotExecutionStates_def)

theorem suspension_waits_for_drain_witness:
  "\<exists>r w'. preSuspension_Handle sampleEnv (sampleWorld (emptyStatus\<lparr>Phase := PhaseHibernating\<rparr>)) = (r, w') \<and>
     Phase (status w') = PhaseSuspended \<and> \<not> list_ex inFlight (Executions (status w'))"
proof -
  let ?w = "sampleWorld (emptyStatus\<lparr>Phase := PhaseHibernating\<rparr>)"
  have st: "status ?w = emptyStatus\<lparr>Phase := PhaseHibernating\<rparr>" "planCopy ?w = None"
    by (simp_all add: sampleWorld_def samplePlan_def)
  obtain r w' where run: "preSuspension_Handle sampleEnv ?w = (r, w')" by fastforce
  have "getCurrentCycleJobs sampleEnv (livePlan ?w) ?w = Inr []" using st by (simp add: getCurrentCycleJobs_def emptyStatus_def)
  then have "awaitExecutionDrain sampleEnv ?w = ((True, noResult, None), ?w)"
    using st updateExecutionStatuses_empty [of ?w sampleEnv] by (simp add: awaitExecutionDrain_def emptyStatus_def)
  then have "w' = snd (performSuspension sampleEnv ?w)"
    using run st by (simp add: preSuspension_Handle_def isInExecutingPhase_def)
  then have "Phase (status w') = PhaseSuspended"
    by (simp add: performSuspension_def patchAndPreserveStatus_def Let_def sampleEnv_def split: sum.splits)
  then show ?thesis
    using run suspension_waits_for_drain [OF st(2) _ run] st by (auto simp: isInExecutingPhase_def)
qed

theorem suspend_resume_continues_witness:
  "\<exists>r1 w1 r2 w2. performSuspension sampleEnv (sampleWorld (emptyStatus\<lparr>Phase := PhaseHibernating, CurrentStageIndex := 3\<rparr>)) = (r1, w1) \<and>
     Phase (status w1) = PhaseSuspended \<and> resume sampleEnv w1 = (r2, w2) \<and>
     Phase (status w2) = PhaseHibernating \<and> CurrentStageIndex (status w2) = 3"
proof -
  let ?w = "sampleWorld (emptyStatus\<lparr>Phase := PhaseHibernating, CurrentStageIndex := 3\<rparr>)"
  have st: "status ?w = emptyStatus\<lparr>Phase := PhaseHibernating, CurrentStageIndex := 3\<rparr>"
    by (simp add: sampleWorld_def samplePlan_def)
  obtain r1 w1 where 1: "performSuspension sampleEnv ?w = (r1, w1)" by fastforce
  then have ph: "Phase (status w1) = PhaseSuspended"
    by (auto simp: performSuspension_def patchAndPreserveStatus_def Let_def sampleEnv_def split: sum.splits)
  obtain r2 w2 where 2: "resume sampleEnv w1 = (r2, w2)" by fastforce
  have "scheduleResult sampleEnv = Some (Phase (status ?w) = PhaseHibernating)" using st by (simp add: sampleEnv_def)
  from suspend_resume_continues [OF keeps_annotations_sample(1) keeps_annotations_sample(1) _ 1 ph this 2]
  show ?thesis using 1 2 ph st by (auto simp: isInExecutingPhase_def)
qed

end
