(* ===== verification/RecoveryStates.thy ===== *)
theory RecoveryStates
  imports PlanMachine
begin

text \<open>
  Error recovery (\<^verbatim>\<open>state_recovery.go\<close>) and the plan's lifecycle
  (\<^verbatim>\<open>state_lifecycle.go\<close>).
\<close>

section \<open>Recovery\<close>

definition lastError :: "World \<Rightarrow> go_error option" where
  "lastError w = (if ErrorMessage (status w) = '''' then None else Some (ErrMsg (ErrorMessage (status w))))"

definition handleManualRetry :: "Env \<Rightarrow> World \<Rightarrow> outcome option" where
  "handleManualRetry e w =
     (if Annotations (livePlan w) AnnotationRetryNow \<noteq> Some ''true'' then None
      else Some
        (case patchAndPreserveStatus e (del_annotations [AnnotationRetryNow]) w of
           (Some _, w') \<Rightarrow> ((requeueAfter RequeueIntervalOnRecoveryError, None), w')
         | (None, w') \<Rightarrow>
             ((requeueNow, None),
              Send e (status_update (\<lambda>_ st. st\<lparr>RetryCount := 0, LastRetryTime := None\<rparr>) None) w')))"

definition determineRetryOperation :: "Env \<Rightarrow> World \<Rightarrow> PlanOperation" where
  "determineRetryOperation e w =
     (let operation = CurrentOperation (status w) in
      if operation_string operation = ''''
      then (if scheduleResult e = Some True then OperationHibernate else OperationWakeUp)
      else operation)"

definition clearRetryAtAnnotation :: "Env \<Rightarrow> World \<Rightarrow> World" where
  "clearRetryAtAnnotation e w =
     (if Annotations (livePlan w) AnnotationRetryAt = None then w
      else snd (patchAndPreserveStatus e (del_annotations [AnnotationRetryAt]) w))"

definition relabelled :: "string \<Rightarrow> Job \<Rightarrow> Job" where
  "relabelled reason job =
     job\<lparr>j_Labels := (j_Labels job)(LabelStaleRunnerJob \<mapsto> ''true'', LabelStaleReasonRunnerJob \<mapsto> reason)\<rparr>"

fun relabelJobs :: "Env \<Rightarrow> Job list \<Rightarrow> World \<Rightarrow> World" where
  "relabelJobs e [] w = w"
| "relabelJobs e (job # rest) w =
     (if j_Labels job LabelStaleRunnerJob \<noteq> None \<or> Failed job = 0 then relabelJobs e rest w
      else (case PatchJob e (relabelled ''retry-recovery'' job) of
              Some _ \<Rightarrow> w
            | None \<Rightarrow> relabelJobs e rest
                (w\<lparr>jobs := map (\<lambda>j. if j_Name j = j_Name job \<and> j_Namespace j = j_Namespace job
                     then relabelled ''retry-recovery'' j else j) (jobs w)\<rparr>)))"

definition relabelStaleFailedJobs :: "Env \<Rightarrow> PlanOperation \<Rightarrow> World \<Rightarrow> World" where
  "relabelStaleFailedJobs e operation w =
     (case cachedJobs e of
        Inl _ \<Rightarrow> w
      | Inr js \<Rightarrow> relabelJobs e (filter (\<lambda>j. j_Namespace j = Namespace (livePlan w) \<and>
            matchLabels j (cycleSelector (livePlan w) operation)) js) w)"

definition resetForRetry :: "string list \<Rightarrow> ExecutionStatus \<Rightarrow> ExecutionStatus" where
  "resetForRetry targets x =
     (if xe_Target x \<in> set targets \<and> State x = StateFailed
      then x\<lparr>State := StatePending, xe_Message := ''Execution state reset for retry after failure''\<rparr> else x)"

text \<open>The mutator of \<open>handleRetry\<close> indexes the stages with the stage index of the worker's plan.\<close>

definition retryMutator :: "ExecutionPlan \<Rightarrow> PlanPhase \<Rightarrow> go_error option \<Rightarrow> mutator" where
  "retryMutator execPlan targetPhase lastErr clock live p =
     (let err = (case lastErr of None \<Rightarrow> ErrMsg ''unknown error (no error message in status)'' | Some x \<Rightarrow> x);
          idx = CurrentStageIndex (Status live)
      in case RecordRetryAttempt p clock (Some err) of
           (False, p') \<Rightarrow> Inr p'
         | (True, p') \<Rightarrow>
             if idx < 0 \<or> idx \<ge> int (length (Stages execPlan)) then Inl Panic
             else Inr (with_status (\<lambda>st. st\<lparr>Executions :=
                 map (resetForRetry (xs_Targets (Stages execPlan ! nat idx))) (Executions st),
                 Phase := targetPhase\<rparr>) p'))"

definition retryUpdate :: "Env \<Rightarrow> ExecutionPlan \<Rightarrow> PlanOperation \<Rightarrow> PlanPhase \<Rightarrow> PlanPhase \<Rightarrow> go_error option \<Rightarrow> Update" where
  "retryUpdate e execPlan operation currentPhase targetPhase lastErr =
     \<lparr>Mutator = retryMutator execPlan targetPhase lastErr,
      PreHook = notifyHook (notify e) EventRecovery (\<lambda>p. (buildPayload p EventRecovery (ne_now (notify e)))
        \<lparr>pl_Phase := phase_string targetPhase, pl_Operation := operation_string operation\<rparr>),
      PostHook = phaseChangePostHook (notify e) currentPhase\<rparr>"

definition handleRetry :: "Env \<Rightarrow> go_error option \<Rightarrow> World \<Rightarrow> outcome" where
  "handleRetry e lastErr w =
     (let plan = livePlan w;
          operation = determineRetryOperation e w;
          effective = (case effectivePlan e plan of None \<Rightarrow> plan | Some p \<Rightarrow> p)
      in case buildExecutionPlan effective (operation = OperationWakeUp) of
           Inl err \<Rightarrow> ((noResult, Some err), w)
         | Inr execPlan \<Rightarrow>
             (let w1 = relabelStaleFailedJobs e operation w;
                  targetPhase = (if operation = OperationHibernate then PhaseHibernating else PhaseWakingUp)
              in ((requeueNow, None),
                  Send e (retryUpdate e execPlan operation (Phase (Status plan)) targetPhase lastErr) w1)))"

definition recovery_Handle :: "Env \<Rightarrow> World \<Rightarrow> outcome" where
  "recovery_Handle e w =
     (let lastErr = lastError w;
          strategy = DetermineRecoveryStrategy (apiErrorCode e) (livePlan w) (now e) lastErr
      in if \<not> ShouldRetry strategy then
           (case handleManualRetry e w of Some r \<Rightarrow> r | None \<Rightarrow> ((noResult, None), w))
         else if RetryAfter strategy > 0 then ((requeueAfter (RetryAfter strategy), None), w)
         else handleRetry e lastErr (clearRetryAtAnnotation e w))"

section \<open>Lifecycle\<close>

text \<open>\<open>state.Patch\<close> without preservation: the plan takes the whole response of the server.\<close>

definition patchPlan :: "Env \<Rightarrow> (HibernatePlan \<Rightarrow> HibernatePlan) \<Rightarrow> World \<Rightarrow> go_error option \<times> World" where
  "patchPlan e f w =
     (let orig = livePlan w; plan = f orig in
      case PatchPlan e orig plan of
        Inl err \<Rightarrow> (Some (ApiError err), w\<lparr>livePlan := plan\<rparr>)
      | Inr resp \<Rightarrow> (None, w\<lparr>livePlan := resp\<rparr>))"

fun deleteJobs :: "Env \<Rightarrow> Job list \<Rightarrow> World \<Rightarrow> go_error option \<times> World" where
  "deleteJobs e [] w = (None, w)"
| "deleteJobs e (job # rest) w =
     (case DeleteJob e job of
        Some NotFound \<Rightarrow> deleteJobs e rest w
      | Some err \<Rightarrow> (Some (ApiError err), w)
      | None \<Rightarrow> deleteJobs e rest
          (w\<lparr>jobs := filter (\<lambda>j. \<not> (j_Name j = j_Name job \<and> j_Namespace j = j_Namespace job)) (jobs w)\<rparr>))"

definition handleDelete :: "Env \<Rightarrow> World \<Rightarrow> outcome" where
  "handleDelete e w =
     (case cachedJobs e of
        Inl err \<Rightarrow> ((noResult, Some (ApiError err)), w)
      | Inr js \<Rightarrow>
          (case deleteJobs e (filter (\<lambda>j. j_Namespace j = Namespace (livePlan w) \<and>
              matchLabels j [(LabelPlan, Name (livePlan w))]) js) w of
             (Some err, w1) \<Rightarrow> ((noResult, Some err), w1)
           | (None, w1) \<Rightarrow>
               if PlanFinalizerName \<in> set (Finalizers (livePlan w1)) then
                 (case patchPlan e (\<lambda>p. p\<lparr>Finalizers := filter (\<lambda>f. f \<noteq> PlanFinalizerName) (Finalizers p)\<rparr>) w1 of
                    (Some err, w2) \<Rightarrow>
                      if is_not_found err then ((noResult, None), w2\<lparr>tracked := False\<rparr>)
                      else ((noResult, Some err), w2)
                  | (None, w2) \<Rightarrow> ((noResult, None), w2\<lparr>tracked := False\<rparr>))
               else ((noResult, None), w1\<lparr>tracked := False\<rparr>)))"

definition initialise :: "Env \<Rightarrow> World \<Rightarrow> outcome" where
  "initialise e w =
     (if Phase (status w) = PhaseUnset then
        (let w1 = Send e (status_update (\<lambda>_ st. st\<lparr>Phase := PhaseActive,
                    ObservedGeneration := Generation (livePlan w)\<rparr>) None) w;
             w2 = w1\<lparr>restoreStore := snd (PrepareRestorePoint (previousState e) (cmApi e) (Name (livePlan w1))
                    (restoreStore w1))\<rparr>
         in ((requeueNow, None), w2))
      else ((noResult, None), w))"

definition lifecycle_handle :: "Env \<Rightarrow> World \<Rightarrow> outcome" where
  "lifecycle_handle e w =
     (if PlanFinalizerName \<in> set (Finalizers (livePlan w)) then initialise e w
      else (case patchPlan e (\<lambda>p. p\<lparr>Finalizers := Finalizers p @ [PlanFinalizerName]\<rparr>) w of
              (Some err, w') \<Rightarrow> ((noResult, Some err), w')
            | (None, w') \<Rightarrow> initialise e w'))"

definition lifecycle_Handle :: "Env \<Rightarrow> bool \<Rightarrow> World \<Rightarrow> outcome" where
  "lifecycle_Handle e delete w = (if delete then handleDelete e w else lifecycle_handle e w)"

section \<open>What the handlers do to the status\<close>

lemma relabelJobs_frame [frame]:
  "livePlan (relabelJobs e js w) = livePlan w" "outbox (relabelJobs e js w) = outbox w"
  by (induction e js w rule: relabelJobs.induct) (auto split: option.splits)

lemma relabelStaleFailedJobs_frame [frame]:
  "livePlan (relabelStaleFailedJobs e op w) = livePlan w" "outbox (relabelStaleFailedJobs e op w) = outbox w"
  by (simp_all add: relabelStaleFailedJobs_def frame split: sum.splits)

lemma clearRetryAt_status [frame]: "status (clearRetryAtAnnotation e w) = status w"
proof -
  have "status (snd (patchAndPreserveStatus e (del_annotations ks) w)) = status w" for ks
    by (rule patch_keeps_status) simp
  then show ?thesis by (simp add: clearRetryAtAnnotation_def)
qed

text \<open>The three outcomes of the retry mutator.\<close>

lemma retryMutator_cases:
  assumes "retryMutator ep ph lastErr t live p = r"
  obtains (index) "r = Inl Panic" "CurrentStageIndex (Status live) < 0 \<or> CurrentStageIndex (Status live) \<ge> int (length (Stages ep))"
  | (too_soon) t0 where "LastRetryTime (Status p) = Some t0" "SubTime t t0 < 5 * Second"
      "r = Inr (p\<lparr>Status := (Status p)\<lparr>ErrorMessage := (case lastErr of
          None \<Rightarrow> ''unknown error (no error message in status)'' | Some x \<Rightarrow> err_text x)\<rparr>\<rparr>)"
  | (recorded) "r = Inr (p\<lparr>Status := (Status p)\<lparr>RetryCount := wrap32 (RetryCount (Status p) + 1), LastRetryTime := Some t,
          ErrorMessage := (case lastErr of None \<Rightarrow> ''unknown error (no error message in status)'' | Some x \<Rightarrow> err_text x),
          Executions := map (resetForRetry (xs_Targets (Stages ep ! nat (CurrentStageIndex (Status live))))) (Executions (Status p)),
          Phase := ph\<rparr>\<rparr>)"
      "0 \<le> CurrentStageIndex (Status live)" "CurrentStageIndex (Status live) < int (length (Stages ep))"
proof (cases "\<exists>t0. LastRetryTime (Status p) = Some t0 \<and> SubTime t t0 < 5 * Second")
  case True
  then obtain t0 where t0: "LastRetryTime (Status p) = Some t0" "SubTime t t0 < 5 * Second" by blast
  show thesis
    by (rule too_soon [OF t0])
      (use assms t0 in \<open>simp add: retryMutator_def RecordRetryAttempt_def Let_def split: option.splits\<close>)
next
  case False
  let ?err = "case lastErr of None \<Rightarrow> ErrMsg ''unknown error (no error message in status)'' | Some x \<Rightarrow> x"
  have txt_eq: "err_text ?err = (case lastErr of None \<Rightarrow> ''unknown error (no error message in status)'' | Some x \<Rightarrow> err_text x)"
    by (simp split: option.splits)
  have rec: "RecordRetryAttempt p t (Some ?err) = (True, p\<lparr>Status := (Status p)\<lparr>RetryCount := wrap32 (RetryCount (Status p) + 1),
      LastRetryTime := Some t, ErrorMessage := err_text ?err\<rparr>\<rparr>)"
    using False by (cases "LastRetryTime (Status p)") (simp_all add: RecordRetryAttempt_def Let_def)
  show thesis
  proof (cases "CurrentStageIndex (Status live) < 0 \<or> CurrentStageIndex (Status live) \<ge> int (length (Stages ep))")
    case True
    with assms rec show thesis by (intro index) (simp_all add: retryMutator_def Let_def)
  next
    case False
    show thesis
      by (rule recorded) (use assms rec False in \<open>simp_all add: retryMutator_def Let_def with_status_def txt_eq\<close>)
  qed
qed

lemma same_targets_reset [simp]: "same_targets (map (resetForRetry ts) xs) xs"
  by (simp add: same_targets_def resetForRetry_def)

lemma reset_failed_map: "list_all2 reset_failed xs (map (resetForRetry ts) xs)"
  by (induction xs) (auto simp: reset_failed_def resetForRetry_def)

lemma handleRetry_turn:
  assumes "Phase (status w) = PhaseError"
  shows "takes_turn (status w) (status (snd (handleRetry e lastErr w)))"
proof -
  have send: "takes_turn (status w) (status (Send e (retryUpdate e ep op ph0 ph lastErr) w1))"
    if "livePlan w1 = livePlan w" "executing ph" "CurrentOperation (status w) = OperationHibernate \<Longrightarrow> ph = PhaseHibernating"
      "CurrentOperation (status w) = OperationWakeUp \<Longrightarrow> ph = PhaseWakingUp" for ep op ph0 ph w1
    using refl [of "retryMutator ep ph lastErr (now e) (livePlan w) (livePlan w)"]
  proof (cases rule: retryMutator_cases)
    case index
    then show ?thesis using that by (simp add: Send_def retryUpdate_def)
  next
    case (too_soon t0)
    then show ?thesis using that assms by (auto simp: Send_def retryUpdate_def intro!: decides_turn decides.retry_too_soon)
  next
    case recorded
    then show ?thesis using that assms
      by (auto simp: Send_def retryUpdate_def reset_failed_map intro!: decides_turn decides.retry)
  qed
  define op where "op = determineRetryOperation e w"
  define ph where "ph = (if op = OperationHibernate then PhaseHibernating else PhaseWakingUp)"
  have turn: "takes_turn (status w) (status (Send e (retryUpdate e ep op (Phase (status w)) ph lastErr) (relabelStaleFailedJobs e op w)))" for ep
    by (rule send) (simp_all add: frame executing_def determineRetryOperation_def Let_def op_def ph_def)
  have "status (snd (handleRetry e lastErr w)) = status w \<or> (\<exists>ep. snd (handleRetry e lastErr w) =
      Send e (retryUpdate e ep op (Phase (status w)) ph lastErr) (relabelStaleFailedJobs e op w))"
    unfolding handleRetry_def Let_def op_def [symmetric] ph_def [symmetric] by (auto split: sum.split)
  with turn show ?thesis by auto
qed

lemma recovery_Handle_turn:
  assumes "Phase (status w) = PhaseError"
  shows "takes_turn (status w) (status (snd (recovery_Handle e w)))"
proof -
  obtain err w1 where p: "patchAndPreserveStatus e (del_annotations [AnnotationRetryNow]) w = (err, w1)" by fastforce
  then have s: "status w1 = status w" using patch_keeps_status [of "del_annotations [AnnotationRetryNow]" e w] by simp
  have "decides (status w) ((status w)\<lparr>RetryCount := 0, LastRetryTime := None\<rparr>)"
    using assms by (intro decides.reset_retries) auto
  moreover have "takes_turn (status w) (status (snd (handleRetry e l (clearRetryAtAnnotation e w))))" for l
    using handleRetry_turn [of "clearRetryAtAnnotation e w" e l] assms by (simp add: clearRetryAt_status)
  ultimately show ?thesis using s p
    by (auto simp: recovery_Handle_def handleManualRetry_def Let_def intro: decides_turn split: option.splits)
qed

text \<open>Initialisation: from the unset phase to Active, unless the server reports a phase already.\<close>

lemma initialise_status:
  "status (snd (initialise e w)) = (if Phase (status w) = PhaseUnset
     then (status w)\<lparr>Phase := PhaseActive, ObservedGeneration := Generation (livePlan w)\<rparr> else status w)"
  by (simp add: initialise_def Let_def)

section \<open>Properties\<close>

lemma Send_retry_phase:
  assumes "Phase (status (Send e (retryUpdate e ep op ph0 ph l) w)) \<noteq> Phase (status w)"
  shows "RetryCount (status (Send e (retryUpdate e ep op ph0 ph l) w)) = wrap32 (RetryCount (status w) + 1)"
    "CurrentOperation (status (Send e (retryUpdate e ep op ph0 ph l) w)) = CurrentOperation (status w)"
    "Phase (status (Send e (retryUpdate e ep op ph0 ph l) w)) = ph"
  using refl [of "retryMutator ep ph l (now e) (livePlan w) (livePlan w)"]
  by (cases rule: retryMutator_cases; use assms in \<open>auto simp: Send_def retryUpdate_def\<close>)+

lemma handleRetry_phase:
  assumes "Phase (status (snd (handleRetry e l w))) \<noteq> Phase (status w)"
  shows "RetryCount (status (snd (handleRetry e l w))) = wrap32 (RetryCount (status w) + 1)"
    "CurrentOperation (status (snd (handleRetry e l w))) = CurrentOperation (status w)"
    "Phase (status (snd (handleRetry e l w))) =
       (if determineRetryOperation e w = OperationHibernate then PhaseHibernating else PhaseWakingUp)"
  using assms Send_retry_phase [of e _ _ _ _ _ "relabelStaleFailedJobs e (determineRetryOperation e w) w"]
  by (auto simp: handleRetry_def Let_def frame split: sum.splits)

lemma recovery_retries:
  assumes "Phase (status (snd (recovery_Handle e w))) \<noteq> Phase (status w)" "Phase (status w) = PhaseError"
  obtains "ShouldRetry (DetermineRecoveryStrategy (apiErrorCode e) (livePlan w) (now e) (lastError w))"
    "RetryAfter (DetermineRecoveryStrategy (apiErrorCode e) (livePlan w) (now e) (lastError w)) \<le> 0"
    "snd (recovery_Handle e w) = snd (handleRetry e (lastError w) (clearRetryAtAnnotation e w))"
proof -
  let ?s = "DetermineRecoveryStrategy (apiErrorCode e) (livePlan w) (now e) (lastError w)"
  have "Phase (status (snd r)) = Phase (status w)" if "handleManualRetry e w = Some r" for r
    using that patch_keeps_status [of "del_annotations [AnnotationRetryNow]" e w]
    by (auto simp: handleManualRetry_def split: if_splits prod.splits option.splits)
  then have "ShouldRetry ?s" "\<not> RetryAfter ?s > 0"
    using assms(1) by (auto simp: recovery_Handle_def Let_def split: if_splits option.splits)
  then show thesis using that by (simp add: recovery_Handle_def Let_def)
qed

text \<open>
  C14.  The retry budget: a plan leaves the Error phase by itself only while its retry count is
  below the limit and the error is not permanent, one attempt is counted, and the count stays
  within the limit.
\<close>

theorem retry_within_budget:
  assumes "Phase (status w) = PhaseError" "recovery_Handle e w = (r, w')" "Phase (status w') \<noteq> PhaseError"
    and "0 \<le> RetryCount (status w)" "maxRetriesOf (livePlan w) < 2 ^ 31"
  shows "RetryCount (status w') = RetryCount (status w) + 1 \<and> RetryCount (status w') \<le> maxRetriesOf (livePlan w) \<and>
    ClassifyError (apiErrorCode e) (lastError w) \<noteq> ErrorPermanent \<and>
    (Phase (status w') = PhaseHibernating \<or> Phase (status w') = PhaseWakingUp)"
proof -
  have diff: "Phase (status (snd (recovery_Handle e w))) \<noteq> Phase (status w)" using assms by simp
  from recovery_retries [OF diff assms(1)] have
    s: "ShouldRetry (DetermineRecoveryStrategy (apiErrorCode e) (livePlan w) (now e) (lastError w))" and
    h: "snd (recovery_Handle e w) = snd (handleRetry e (lastError w) (clearRetryAtAnnotation e w))" by blast+
  from s have b: "RetryCount (status w) < maxRetriesOf (livePlan w)" "ClassifyError (apiErrorCode e) (lastError w) \<noteq> ErrorPermanent"
    by (auto simp: DetermineRecoveryStrategy_def Let_def split: if_splits)
  have "Phase (status (snd (handleRetry e (lastError w) (clearRetryAtAnnotation e w)))) \<noteq> Phase (status (clearRetryAtAnnotation e w))"
    using diff h by (simp add: frame)
  from handleRetry_phase [OF this] have "RetryCount (status w') = wrap32 (RetryCount (status w) + 1)"
    "Phase (status w') = PhaseHibernating \<or> Phase (status w') = PhaseWakingUp"
    using h assms(2) by (auto simp: frame split: if_splits)
  then show ?thesis using b assms(4,5) by (simp add: wrap32_id)
qed

definition errorStatus :: "PlanOperation \<Rightarrow> HibernatePlanStatus" where
  "errorStatus op = emptyStatus\<lparr>Phase := PhaseError, CurrentOperation := op, ErrorMessage := ''boom''\<rparr>"

lemma boom_unknown: "ClassifyError (apiErrorCode sampleEnv) (Some (ErrMsg ''boom'')) = ErrorUnknown"
  by (simp add: ClassifyError_def sampleEnv_def classifyMessage_def ToLower_def to_lower_def executionFailedPatterns_def
      transientPatterns_def permanentPatterns_def)

lemma recovery_sample:
  "snd (recovery_Handle sampleEnv (sampleWorld (errorStatus op))) =
     snd (handleRetry sampleEnv (Some (ErrMsg ''boom'')) (sampleWorld (errorStatus op)))"
proof -
  let ?w = "sampleWorld (errorStatus op)"
  have l: "lastError ?w = Some (ErrMsg ''boom'')" by (simp add: lastError_def sampleWorld_def samplePlan_def errorStatus_def)
  have "ShouldRetry (DetermineRecoveryStrategy (apiErrorCode sampleEnv) (livePlan ?w) (now sampleEnv) (lastError ?w))"
    "RetryAfter (DetermineRecoveryStrategy (apiErrorCode sampleEnv) (livePlan ?w) (now sampleEnv) (lastError ?w)) = 0"
    using boom_unknown
    by (simp_all only: l) (simp_all add: DetermineRecoveryStrategy_def Let_def maxRetriesOf_def sampleWorld_def samplePlan_def sampleSpec_def
        errorStatus_def emptyStatus_def)
  moreover have "clearRetryAtAnnotation sampleEnv ?w = ?w"
    by (simp add: clearRetryAtAnnotation_def sampleWorld_def samplePlan_def)
  ultimately show ?thesis by (simp add: recovery_Handle_def Let_def l)
qed

lemma handleRetry_sample:
  assumes "op = OperationHibernate \<or> op = OperationUnset"
  shows "Phase (status (snd (handleRetry sampleEnv l (sampleWorld (errorStatus op))))) = PhaseHibernating"
  using assms
  by (auto simp: handleRetry_def Let_def determineRetryOperation_def effectivePlan_def lockedSnapshot_def buildEffectivePlan_def
      findActiveExceptionOverride_def buildExecutionPlan_def relabelStaleFailedJobs_def Send_def retryUpdate_def retryMutator_def
      RecordRetryAttempt_def PlanSequential_def ReverseIf_def errorStatus_def sample_defs)

theorem retry_within_budget_witness:
  "\<exists>r w'. recovery_Handle sampleEnv (sampleWorld (errorStatus OperationHibernate)) = (r, w') \<and>
     Phase (status w') = PhaseHibernating \<and> RetryCount (status w') = 1"
proof -
  let ?w = "sampleWorld (errorStatus OperationHibernate)"
  obtain r w' where run: "recovery_Handle sampleEnv ?w = (r, w')" by fastforce
  then have ph: "Phase (status w') = PhaseHibernating"
    using recovery_sample [of OperationHibernate] handleRetry_sample [of OperationHibernate] by simp
  have st: "status ?w = errorStatus OperationHibernate" "maxRetriesOf (livePlan ?w) = 3"
    by (simp_all add: maxRetriesOf_def sampleWorld_def samplePlan_def sampleSpec_def)
  have "RetryCount (status w') = 1"
    using retry_within_budget [OF _ run] ph st by (simp add: errorStatus_def emptyStatus_def)
  then show ?thesis using run ph by blast
qed

end
