(* ===== verification/Machine.thy ===== *)
theory Machine
  imports IdleStates ExecStates SuspendStates RecoveryStates
begin

text \<open>
  The state machine as the worker drives it (\<^verbatim>\<open>gates.go\<close>, \<^verbatim>\<open>state_selection.go\<close>,
  the \<open>Handler\<close> interface of \<^verbatim>\<open>state.go\<close>).
\<close>

section \<open>Selecting a handler\<close>

text \<open>The handler types; \<open>LifecycleState\<close> carries its \<open>delete\<close> field.\<close>

datatype Handler =
    LifecycleState bool | PreSuspensionState | IdleState | OverrideActionState | RestartState
  | HibernatingState | WakingUpState | SuspendedState | RecoveryState

definition deletionGate :: "World \<Rightarrow> Handler option" where
  "deletionGate w =
     (if \<not> ptrIsZero (DeletionTimestamp (livePlan w)) then Some (LifecycleState True) else None)"

definition checkAutoSuspendAnnotation :: "Env \<Rightarrow> World \<Rightarrow> Handler option" where
  "checkAutoSuspendAnnotation e w =
     (case Annotations (livePlan w) AnnotationSuspendUntil of
        None \<Rightarrow> None
      | Some until \<Rightarrow>
          (case ParseRFC3339 until of
             Inl _ \<Rightarrow> None
           | Inr deadline \<Rightarrow> if Before (now e) deadline then Some PreSuspensionState else None))"

definition suspensionGate :: "Env \<Rightarrow> World \<Rightarrow> Handler option" where
  "suspensionGate e w =
     (if Phase (status w) = PhaseSuspended then None
      else if Suspend (Spec (livePlan w)) then Some PreSuspensionState
      else checkAutoSuspendAnnotation e w)"

definition runPrePhaseGates :: "Env \<Rightarrow> World \<Rightarrow> Handler option" where
  "runPrePhaseGates e w =
     (case deletionGate w of Some h \<Rightarrow> Some h | None \<Rightarrow> suspensionGate e w)"

definition selectIdleHandler :: "World \<Rightarrow> Handler" where
  "selectIdleHandler w =
     (if annotation w AnnotationOverrideAction = ''true'' then OverrideActionState
      else if annotation w AnnotationRestart = ''true'' then RestartState
      else IdleState)"

definition selectHandler :: "Env \<Rightarrow> World \<Rightarrow> Handler option" where
  "selectHandler e w =
     (case runPrePhaseGates e w of
        Some h \<Rightarrow> Some h
      | None \<Rightarrow>
          (case Phase (status w) of
             PhaseUnset \<Rightarrow> Some (LifecycleState False)
           | PhaseActive \<Rightarrow> Some (selectIdleHandler w)
           | PhaseHibernated \<Rightarrow> Some (selectIdleHandler w)
           | PhaseHibernating \<Rightarrow> Some HibernatingState
           | PhaseWakingUp \<Rightarrow> Some WakingUpState
           | PhaseSuspended \<Rightarrow> Some SuspendedState
           | PhaseError \<Rightarrow> Some RecoveryState
           | _ \<Rightarrow> None))"

section \<open>The interface of a handler\<close>

fun Handle :: "Env \<Rightarrow> Handler \<Rightarrow> World \<Rightarrow> outcome" where
  "Handle e (LifecycleState delete) w = lifecycle_Handle e delete w"
| "Handle e PreSuspensionState w = preSuspension_Handle e w"
| "Handle e IdleState w = idle_Handle e w"
| "Handle e OverrideActionState w = override_Handle e w"
| "Handle e RestartState w = restart_Handle e w"
| "Handle e HibernatingState w = hibernating_Handle e w"
| "Handle e WakingUpState w = wakingUp_Handle e w"
| "Handle e SuspendedState w = suspended_Handle e w"
| "Handle e RecoveryState w = recovery_Handle e w"

fun OnDeadline :: "Env \<Rightarrow> Handler \<Rightarrow> World \<Rightarrow> outcome" where
  "OnDeadline e PreSuspensionState w = preSuspension_OnDeadline e w"
| "OnDeadline e OverrideActionState w = override_OnDeadline e w"
| "OnDeadline e SuspendedState w = suspended_OnDeadline e w"
| "OnDeadline e _ w = ((noResult, None), w)"

fun handler_OnError :: "Env \<Rightarrow> Handler \<Rightarrow> go_error \<Rightarrow> World \<Rightarrow> StateResult \<times> World" where
  "handler_OnError e HibernatingState err w = hibernating_OnError e err w"
| "handler_OnError e WakingUpState err w = wakingUp_OnError e err w"
| "handler_OnError e _ err w = OnError e err w"

section \<open>Errors\<close>

text \<open>Only the executing phases report plan-level errors.\<close>

definition plan_errors :: "Handler \<Rightarrow> bool" where
  "plan_errors h \<longleftrightarrow> h = HibernatingState \<or> h = WakingUpState"

lemma transitions_no_error [simp]:
  "snd (fst (transitionToHibernating e fresh w)) = None" "snd (fst (transitionToWakingUp e w)) = None"
  by (simp_all add: transitionToHibernating_def transitionToWakingUp_def Let_def)

lemma patch_error: "patchAndPreserveStatus e f w = (Some err, w') \<Longrightarrow> \<not> is_plan_error err"
  by (auto simp: patchAndPreserveStatus_def Let_def split: sum.splits)

lemma consume_error: "consume e k w = ((b, Some err), w') \<Longrightarrow> \<not> is_plan_error err"
  by (auto simp: consume_def dest: patch_error split: if_splits prod.splits option.splits)

lemma consumeFreshThen_error:
  "snd (fst (consumeFreshThen e res transition w)) = Some err \<Longrightarrow> (\<And>w'. snd (fst (transition w')) = None) \<Longrightarrow>
     \<not> is_plan_error err"
  by (auto simp: consumeFreshThen_def consumeFresh_def dest: consume_error split: prod.splits option.splits)

lemma ParseRFC3339_error: "ParseRFC3339 s = Inl err \<Longrightarrow> \<not> is_plan_error err"
  by (auto simp: ParseRFC3339_def Let_def split: option.splits if_splits)

lemma resume_no_error: "snd (fst (resume e w)) = None"
  by (simp add: resume_def resumeFromError_def resumeFromExecution_def forceWakeUpOnResume_def Let_def split: option.splits)

lemma kahn_error: "kahn n deps mc processed m ss = Inl err \<Longrightarrow> err = ErrCycleDetected"
proof (induction n deps mc processed m ss rule: kahn.induct)
  case (1 n deps mc processed m ss)
  show ?case
    using "1.prems" "1.IH" by (subst (asm) kahn.simps) (auto simp: Let_def split: if_splits)
qed

lemma validateDeps_error: "validateDeps ts ds = Some err \<Longrightarrow> \<not> is_plan_error err"
  by (induction ds) (auto split: if_splits)

lemma PlanDAG_error: "PlanDAG ts ds mc = Inl err \<Longrightarrow> \<not> is_plan_error err"
  by (auto simp: PlanDAG_def dest: kahn_error validateDeps_error split: option.splits sum.splits)

lemma buildExecutionPlan_error: "buildExecutionPlan p b = Inl err \<Longrightarrow> \<not> is_plan_error err"
  by (auto simp: buildExecutionPlan_def Let_def dest: PlanDAG_error split: ExecutionStrategyType.splits sum.splits)

lemma override_error:
  assumes "snd (fst (override_Handle e w)) = Some err"
  shows "\<not> is_plan_error err"
proof -
  obtain b ce w1 where c: "consumeRestart e w = ((b, ce), w1)" by (metis prod.collapse)
  show ?thesis
    using assms c by (auto simp: override_Handle_def Let_def consumeRestart_def
        dest: consumeFreshThen_error consume_error split: if_splits PlanPhase.splits option.splits bool.splits)
qed

lemma restart_error: "snd (fst (restart_Handle e w)) = Some err \<Longrightarrow> \<not> is_plan_error err"
  by (auto simp: restart_Handle_def Let_def dest!: patch_error split: prod.splits option.splits PlanOperation.splits if_splits)

lemma performSuspension_error: "snd (fst (performSuspension e w)) = Some err \<Longrightarrow> \<not> is_plan_error err"
  by (auto simp: performSuspension_def dest!: patch_error split: prod.splits option.splits)

lemma getCurrentCycleJobs_error: "getCurrentCycleJobs e p w = Inl err \<Longrightarrow> \<not> is_plan_error err"
  by (auto simp: getCurrentCycleJobs_def split: if_splits option.splits)

lemma preSuspension_error:
  assumes "snd (fst (preSuspension_Handle e w)) = Some err"
  shows "\<not> is_plan_error err"
proof -
  obtain d res ce w1 where a: "awaitExecutionDrain e w = ((d, res, ce), w1)" by (metis prod.collapse)
  then have "\<not> is_plan_error x" if "ce = Some x" for x
    using that getCurrentCycleJobs_error by (auto simp: awaitExecutionDrain_def Let_def split: sum.splits if_splits)
  then show ?thesis using assms a performSuspension_error
    by (auto simp: preSuspension_Handle_def split: if_splits option.splits bool.splits)
qed

lemma suspended_error:
  "snd (fst (suspended_Handle e w)) = Some err \<Longrightarrow> \<not> is_plan_error err"
  "snd (fst (suspended_OnDeadline e w)) = Some err \<Longrightarrow> \<not> is_plan_error err"
  by (auto simp: suspended_Handle_def suspended_OnDeadline_def resumeUnlessSuspended_def resume_no_error
      dest: ParseRFC3339_error patch_error split: option.splits sum.splits prod.splits if_splits)

lemma recovery_error: "snd (fst (recovery_Handle e w)) = Some err \<Longrightarrow> \<not> is_plan_error err"
  by (auto simp: recovery_Handle_def handleManualRetry_def handleRetry_def Let_def dest: buildExecutionPlan_error
      split: option.splits sum.splits prod.splits if_splits)

end
