(* ===== verification/Worker.thy ===== *)
theory Worker
  imports Machine
begin

text \<open>
  The plan worker (\<^verbatim>\<open>plan/worker.go\<close>) and its timers (\<^verbatim>\<open>plan/timer.go\<close>): one
  turn of the state machine, the bounded chain of turns that follows a \<open>Requeue\<close>, the merge of
  a fresh delivery into the optimistic state, and the timer directives.
\<close>

section \<open>Timers\<close>

text \<open>
  A \<open>Schedule\<close> is armed with a duration or not.  The delivery of timer events is the run-time's;
  what the worker does on each of them is below.
\<close>

record TimerSet =
  Requeue_t :: "duration option"
  Timeout_t :: "duration option"
  Deadline_t :: "duration option"
  Inactivity_t :: "duration option"

abbreviation inactivityTimeout :: duration where "inactivityTimeout \<equiv> 30 * Minute"

definition StartTimers :: TimerSet where
  "StartTimers = \<lparr>Requeue_t = None, Timeout_t = None, Deadline_t = None, Inactivity_t = Some inactivityTimeout\<rparr>"

definition ResetTimers :: "TimerSet \<Rightarrow> TimerSet" where
  "ResetTimers ts = ts\<lparr>Requeue_t := None, Timeout_t := None, Deadline_t := None\<rparr>"

definition Cleanup :: "TimerSet \<Rightarrow> TimerSet" where
  "Cleanup ts = (ResetTimers ts)\<lparr>Inactivity_t := None\<rparr>"

definition SetTimeout :: "duration \<Rightarrow> TimerSet \<Rightarrow> TimerSet" where
  "SetTimeout d ts = (if Timeout_t ts = None then ts\<lparr>Timeout_t := Some d\<rparr> else ts)"

definition ApplyTimers :: "StateResult \<Rightarrow> TimerSet \<Rightarrow> TimerSet" where
  "ApplyTimers result ts =
     (let ts1 = ts\<lparr>Requeue_t := if RequeueAfter result > 0 then Some (RequeueAfter result) else None\<rparr>;
          ts2 = (if TimeoutAfter result > 0 then SetTimeout (TimeoutAfter result) ts1 else ts1\<lparr>Timeout_t := None\<rparr>)
      in ts2\<lparr>Deadline_t := if DeadlineAfter result > 0 then Some (DeadlineAfter result) else None\<rparr>)"

definition KeepAlive :: "TimerSet \<Rightarrow> TimerSet" where
  "KeepAlive ts =
     (let deadlineDur = (case Deadline_t ts of None \<Rightarrow> 0 | Some d \<Rightarrow> d);
          d = (if deadlineDur > inactivityTimeout then wrap64 (deadlineDur + inactivityTimeout) else inactivityTimeout)
      in if Inactivity_t ts \<noteq> None then ts\<lparr>Inactivity_t := Some d\<rparr> else ts)"

section \<open>Handling\<close>

text \<open>One call of a handler, with its error forwarded to \<open>OnError\<close>.\<close>

definition turn :: "Env \<Rightarrow> bool \<Rightarrow> World \<Rightarrow> StateResult option \<times> World" where
  "turn e onDeadline w =
     (case selectHandler e w of
        None \<Rightarrow> (None, w)
      | Some h \<Rightarrow>
          (case (if onDeadline then OnDeadline e h w else Handle e h w) of
             ((result, None), w1) \<Rightarrow> (Some result, w1)
           | ((_, Some err), w1) \<Rightarrow> (case handler_OnError e h err w1 of (result, w2) \<Rightarrow> (Some result, w2))))"

abbreviation maxHandleDepth :: nat where "maxHandleDepth \<equiv> 5"

text \<open>
  \<open>handleWithDepth\<close>: every nested call sees its own environment (clock reading and API outcomes),
  taken from \<open>es\<close> by depth.
\<close>

function handleWithDepth :: "(nat \<Rightarrow> Env) \<Rightarrow> bool \<Rightarrow> nat \<Rightarrow> World \<times> TimerSet \<Rightarrow> World \<times> TimerSet" where
  "handleWithDepth es onDeadline depth (w, ts) =
     (if depth \<ge> maxHandleDepth then (w, ts)
      else (case turn (es depth) onDeadline w of
              (None, w1) \<Rightarrow> (w1, ts)
            | (Some result, w1) \<Rightarrow>
                if Requeue result then handleWithDepth es False (depth + 1) (w1, ResetTimers ts)
                else (w1, ApplyTimers result ts)))"
  by pat_completeness auto
termination
  by (relation "measure (\<lambda>(es, onDeadline, depth, s). maxHandleDepth - depth)") auto

declare handleWithDepth.simps [simp del]

definition handle :: "(nat \<Rightarrow> Env) \<Rightarrow> bool \<Rightarrow> World \<times> TimerSet \<Rightarrow> World \<times> TimerSet" where
  "handle es onDeadline s = handleWithDepth es onDeadline 0 s"

text \<open>
  \<open>mergeIncoming\<close>: the optimistic status is carried over onto the delivered plan; without a
  cached plan the delivery is taken as it is.
\<close>

definition mergeIncoming :: "HibernatePlan option \<Rightarrow> HibernatePlan \<Rightarrow> HibernatePlan" where
  "mergeIncoming cached incoming =
     (case cached of None \<Rightarrow> incoming | Some plan \<Rightarrow> incoming\<lparr>Status := Status plan\<rparr>)"

section \<open>One turn refines the machine\<close>

lemma select_phase:
  assumes "selectHandler e w = Some h"
  shows "h = PreSuspensionState \<Longrightarrow> Phase (status w) \<noteq> PhaseSuspended"
    "h = HibernatingState \<Longrightarrow> Phase (status w) = PhaseHibernating"
    "h = WakingUpState \<Longrightarrow> Phase (status w) = PhaseWakingUp"
    "h = SuspendedState \<Longrightarrow> Phase (status w) = PhaseSuspended"
    "h = RecoveryState \<Longrightarrow> Phase (status w) = PhaseError"
    "h = LifecycleState True \<Longrightarrow> \<not> ptrIsZero (DeletionTimestamp (livePlan w))"
    "h = LifecycleState False \<Longrightarrow> Phase (status w) = PhaseUnset"
  using assms
  by (auto simp: selectHandler_def runPrePhaseGates_def deletionGate_def suspensionGate_def
      checkAutoSuspendAnnotation_def selectIdleHandler_def split: option.splits if_splits PlanPhase.splits sum.splits)

lemma select_hibernating:
  assumes "Phase (status w) = PhaseHibernating" "ptrIsZero (DeletionTimestamp (livePlan w))"
  shows "selectHandler e w = Some HibernatingState \<or> selectHandler e w = Some PreSuspensionState"
proof -
  have "checkAutoSuspendAnnotation e w = None \<or> checkAutoSuspendAnnotation e w = Some PreSuspensionState"
    by (auto simp: checkAutoSuspendAnnotation_def split: option.splits sum.splits)
  then show ?thesis using assms
    by (auto simp: selectHandler_def runPrePhaseGates_def deletionGate_def suspensionGate_def)
qed

lemma Handle_turn:
  assumes "selectHandler e w = Some h" "planCopy w = None" "\<And>b. h \<noteq> LifecycleState b"
  shows "takes_turn (status w) (status (snd (Handle e h w)))"
  using select_phase [OF assms(1)]
proof (cases h)
  case (LifecycleState b)
  then show ?thesis using assms(3) by blast
qed (simp_all add: assms(2) idle_Handle_turn override_Handle_turn restart_Handle_turn hibernating_Handle_turn
      wakingUp_Handle_turn suspended_turn recovery_Handle_turn preSuspension_Handle_turn)

lemma OnDeadline_turn:
  assumes "selectHandler e w = Some h"
  shows "takes_turn (status w) (status (snd (OnDeadline e h w)))"
proof -
  have "status (snd (override_OnDeadline e w)) = status w"
    using patch_keeps_status [of "del_annotations [AnnotationOverrideAction, AnnotationOverridePhaseTarget, AnnotationOverrideUntil]" e w]
    by (auto simp: override_OnDeadline_def split: prod.splits)
  moreover have "takes_turn (status w) (status (snd (performSuspension e w)))" if "Phase (status w) \<noteq> PhaseSuspended"
    using performSuspension_decides [OF that, of e] by (auto intro: decides_turn)
  ultimately show ?thesis using select_phase [OF assms]
    by (cases h) (simp_all add: suspended_turn preSuspension_OnDeadline_def)
qed

text \<open>
  Only the handlers of the executing phases report plan-level errors, and they do so before
  they have taken a decision.
\<close>

lemma Handle_errors:
  assumes "selectHandler e w = Some h" "Handle e h w = ((r, Some err), w1)" "\<And>b. h \<noteq> LifecycleState b" "is_plan_error err"
  shows "works_eq (status w) (status w1) \<and>
    (h = HibernatingState \<and> Phase (status w) = PhaseHibernating \<or> h = WakingUpState \<and> Phase (status w) = PhaseWakingUp)"
proof -
  have fe: "snd (fst (Handle e h w)) = Some err" using assms(2) by simp
  show ?thesis
  proof (cases h)
    case (LifecycleState b)
    then show ?thesis using assms(3) by blast
  next
    case IdleState
    then show ?thesis using fe by (auto simp: idle_Handle_def split: option.splits PlanPhase.splits if_splits)
  next
    case HibernatingState
    note ph = select_phase(2) [OF assms(1) HibernatingState]
    have "hibernating_Handle e w = ((r, Some err), w1)" using assms(2) HibernatingState by simp
    from hibernating_Handle_settled [OF ph this] show ?thesis using ph HibernatingState by (simp add: hib.settled_def)
  next
    case WakingUpState
    note ph = select_phase(3) [OF assms(1) WakingUpState]
    have "wakingUp_Handle e w = ((r, Some err), w1)" using assms(2) WakingUpState by simp
    from wakingUp_Handle_settled [OF ph this] show ?thesis using ph WakingUpState by (simp add: wake.settled_def)
  qed (use fe assms(4) override_error restart_error preSuspension_error suspended_error recovery_error in auto)
qed

lemma OnDeadline_errors: "OnDeadline e h w = ((r, Some err), w1) \<Longrightarrow> \<not> is_plan_error err"
  using performSuspension_error [of e w err] suspended_error(2) [of e w err]
  by (cases h) (auto simp: preSuspension_OnDeadline_def override_OnDeadline_def dest: patch_error split: prod.splits)

lemma handler_OnError_keeps: "\<not> is_plan_error err \<Longrightarrow> status (snd (handler_OnError e h err w)) = status w"
  by (cases h) (simp_all add: hibernating_OnError_def wakingUp_OnError_def recordPartial_def OnError_def Let_def)

lemma OnError_turn:
  assumes "selectHandler e w = Some h" "Handle e h w = ((r, Some err), w1)" "\<And>b. h \<noteq> LifecycleState b" "planCopy w = None"
  shows "takes_turn (status w) (status (snd (handler_OnError e h err w1)))"
proof (cases "is_plan_error err")
  case True
  note he = Handle_errors [OF assms(1-3) True]
  then have "decides (status w1) (status (snd (handler_OnError e h err w1)))"
    using exec_OnError_decides [OF True, of w1 e] works_eq_frame(1) [of "status w" "status w1"] by auto
  then show ?thesis using he works_eq_decides by blast
next
  case False
  then show ?thesis using handler_OnError_keeps [OF False, of e h w1] Handle_turn [OF assms(1,4,3)] assms(2) by simp
qed

lemma turn_takes_turn:
  assumes "planCopy w = None" "Phase (status w) \<noteq> PhaseUnset" "ptrIsZero (DeletionTimestamp (livePlan w))"
  shows "takes_turn (status w) (status (snd (turn e onDeadline w)))"
proof (cases "selectHandler e w")
  case (Some h)
  have nl: "h \<noteq> LifecycleState b" for b using select_phase(6,7) [OF Some] assms(2,3) by (cases b) auto
  let ?call = "if onDeadline then OnDeadline e h w else Handle e h w"
  obtain r err w1 where call: "?call = ((r, err), w1)" by (metis prod.collapse)
  have t: "takes_turn (status w) (status w1)"
    using call Handle_turn [OF Some assms(1) nl] OnDeadline_turn [OF Some] by (cases onDeadline) auto
  have e: "takes_turn (status w) (status (snd (handler_OnError e h x w1)))" if "err = Some x" for x
  proof (cases onDeadline)
    case True
    then show ?thesis using call that t OnDeadline_errors handler_OnError_keeps by simp
  next
    case False
    then show ?thesis using call that OnError_turn [OF Some _ nl assms(1)] by simp
  qed
  from t e show ?thesis
    by (cases err) (auto simp: turn_def Some call split: prod.splits)
qed (simp add: turn_def)

section \<open>The chain of turns\<close>

lemma deleteJobs_frame [frame]:
  "livePlan (snd (deleteJobs e js w)) = livePlan w" "planCopy (snd (deleteJobs e js w)) = planCopy w"
  by (induction e js w rule: deleteJobs.induct) (auto split: option.splits api_error.splits)

lemma deleteJobs_error: "fst (deleteJobs e js w) = Some err \<Longrightarrow> \<not> is_plan_error err"
  by (induction e js w rule: deleteJobs.induct) (auto split: option.splits api_error.splits)

text \<open>
  The worker takes a status from outside in two places only: the first delivery, and the response
  to a patch of the plan's finalizers.  The plan the server returns there has a good status.
\<close>

definition sound_responses :: "Env \<Rightarrow> bool" where
  "sound_responses e \<longleftrightarrow> (\<forall>orig fs resp. PatchPlan e orig (orig\<lparr>Finalizers := fs\<rparr>) = Inr resp \<longrightarrow> status_inv (Status resp))"

lemma patchPlan_inv:
  assumes "sound_responses e" "status_inv (status w)" "f = (\<lambda>p. p\<lparr>Finalizers := g p\<rparr>)" "patchPlan e f w = (err, w')"
  shows "status_inv (status w')" "planCopy w' = planCopy w" "err = Some x \<Longrightarrow> \<not> is_plan_error x"
  using assms by (auto simp: patchPlan_def Let_def sound_responses_def split: sum.splits)

lemma initialise_inv: "status_inv (status w) \<Longrightarrow> status_inv (status (snd (initialise e w)))"
  by (simp add: initialise_status) (simp add: status_inv_def)

lemma initialise_frame: "planCopy (snd (initialise e w)) = planCopy w" "snd (fst (initialise e w)) = None"
  by (simp_all add: initialise_def Let_def)

lemma lifecycle_inv:
  assumes "sound_responses e" "status_inv (status w)"
  shows "status_inv (status (snd (lifecycle_Handle e b w))) \<and> planCopy (snd (lifecycle_Handle e b w)) = planCopy w \<and>
    (\<forall>err. snd (fst (lifecycle_Handle e b w)) = Some err \<longrightarrow> \<not> is_plan_error err)"
proof (cases b)
  case True
  let ?f = "\<lambda>p. p\<lparr>Finalizers := filter (\<lambda>f. f \<noteq> PlanFinalizerName) (Finalizers p)\<rparr>"
  have "?thesis" if "cachedJobs e = Inr js" for js
  proof -
    let ?js = "filter (\<lambda>j. j_Namespace j = Namespace (livePlan w) \<and> matchLabels j [(LabelPlan, Name (livePlan w))]) js"
    obtain derr w1 where d: "deleteJobs e ?js w = (derr, w1)" by fastforce
    have fr: "status w1 = status w" "planCopy w1 = planCopy w" "\<And>x. derr = Some x \<Longrightarrow> \<not> is_plan_error x"
      using d deleteJobs_frame [of e ?js w] deleteJobs_error [of e ?js w] by auto
    obtain perr w2 where p: "patchPlan e ?f w1 = (perr, w2)" by fastforce
    note pi = patchPlan_inv [OF assms(1) _ _ p]
    show ?thesis using that True d fr p pi assms(2)
      by (cases derr; cases perr) (auto simp: lifecycle_Handle_def handleDelete_def)
  qed
  then show ?thesis using True assms(2) by (cases "cachedJobs e") (auto simp: lifecycle_Handle_def handleDelete_def)
next
  case False
  obtain perr w1 where p: "patchPlan e (\<lambda>p. p\<lparr>Finalizers := Finalizers p @ [PlanFinalizerName]\<rparr>) w = (perr, w1)" by fastforce
  have pi: "status_inv (status w1)" "planCopy w1 = planCopy w" "\<And>x. perr = Some x \<Longrightarrow> \<not> is_plan_error x"
    using patchPlan_inv [OF assms _ p] by auto
  show ?thesis using False p pi assms(2) initialise_inv initialise_frame
    by (cases perr) (auto simp: lifecycle_Handle_def lifecycle_handle_def)
qed

lemma execute_planCopy [frame]: "planCopy (snd (execute e op b f w)) = None"
  by (simp add: execute_def Let_def split: sum.splits option.splits prod.splits)

lemma transitions_planCopy [frame]:
  "planCopy (snd (transitionToHibernating e fresh w)) = planCopy w" "planCopy (snd (transitionToWakingUp e w)) = planCopy w"
  by (simp_all add: transitionToHibernating_def transitionToWakingUp_def Let_def)

lemma consume_planCopy [frame]: "planCopy (snd (consume e k w)) = planCopy w"
  using patch_frame(4) [of e "del_annotations [k]" w] by (auto simp: consume_def split: prod.splits option.splits)

lemma consumeFreshThen_planCopy:
  "(\<And>w'. planCopy (snd (transition w')) = planCopy w') \<Longrightarrow>
     planCopy (snd (consumeFreshThen e res transition w)) = planCopy w"
  using consume_planCopy [of e AnnotationFresh w]
  by (auto simp: consumeFreshThen_def consumeFresh_def split: prod.splits option.splits)

lemma override_planCopy: "planCopy (snd (override_Handle e w)) = planCopy w"
proof -
  obtain b ce w1 where c: "consumeRestart e w = ((b, ce), w1)" by (metis prod.collapse)
  then have "planCopy w1 = planCopy w" using consume_planCopy [of e AnnotationRestart w] by (simp add: consumeRestart_def)
  then show ?thesis using c consumeFreshThen_planCopy transitions_planCopy
    by (simp add: override_Handle_def Let_def split: PlanPhase.splits option.splits bool.splits)
qed

lemma restart_planCopy: "planCopy (snd (restart_Handle e w)) = planCopy w"
  using patch_frame(4) [of e "del_annotations [AnnotationRestart, AnnotationFresh]" w]
  by (auto simp: restart_Handle_def Let_def transitions_planCopy split: prod.splits option.splits PlanOperation.splits)

lemma performSuspension_planCopy: "planCopy (snd (performSuspension e w)) = planCopy w"
  using patch_frame(4) [of e recordSuspension w] by (auto simp: performSuspension_def split: prod.splits option.splits)

lemma updateExecutionStatuses_planCopy: "planCopy w = None \<Longrightarrow> planCopy (updateExecutionStatuses e js w) = None"
proof -
  assume n: "planCopy w = None"
  obtain xs w1 where o: "observeExecs e (eff w) js (Executions (Status (eff w))) w = (xs, w1)" by fastforce
  show ?thesis using observeExecs_ids [OF o] n by (simp add: updateExecutionStatuses_def Let_def o)
qed

lemma preSuspension_planCopy: "planCopy w = None \<Longrightarrow> planCopy (snd (preSuspension_Handle e w)) = None"
proof -
  assume n: "planCopy w = None"
  obtain d res ce w1 where a: "awaitExecutionDrain e w = ((d, res, ce), w1)" by (metis prod.collapse)
  then have "planCopy w1 = None"
    using n updateExecutionStatuses_planCopy by (auto simp: awaitExecutionDrain_def Let_def split: sum.splits if_splits)
  then show ?thesis using a n performSuspension_planCopy
    by (auto simp: preSuspension_Handle_def split: option.splits bool.splits)
qed

lemma cleanup_planCopy: "planCopy (cleanupSuspensionAnnotations e w) = planCopy w"
  by (simp add: cleanupSuspensionAnnotations_def patch_frame)

lemma resume_planCopy: "planCopy (snd (resume e w)) = planCopy w"
  by (simp add: resume_def resumeFromError_def resumeFromExecution_def forceWakeUpOnResume_def Let_def cleanup_planCopy
      split: option.splits)

lemma suspended_planCopy:
  "planCopy (snd (suspended_Handle e w)) = planCopy w" "planCopy (snd (suspended_OnDeadline e w)) = planCopy w"
proof -
  obtain err w1 where p: "patchAndPreserveStatus e revokeSuspension w = (err, w1)" by fastforce
  then have "planCopy w1 = planCopy w" using patch_frame(4) [of e revokeSuspension w] by simp
  then show "planCopy (snd (suspended_Handle e w)) = planCopy w" "planCopy (snd (suspended_OnDeadline e w)) = planCopy w"
    using p resume_planCopy
    by (auto simp: suspended_Handle_def suspended_OnDeadline_def resumeUnlessSuspended_def split: option.splits sum.splits)
qed

lemma relabelJobs_planCopy: "planCopy (relabelJobs e js w) = planCopy w"
  by (induction e js w rule: relabelJobs.induct) (auto split: option.splits)

lemma Send_planCopy: "planCopy (Send e u w) = planCopy w"
  by (simp add: Send_def split: sum.splits)

lemma handleRetry_planCopy: "planCopy (snd (handleRetry e l w)) = planCopy w"
  by (simp add: handleRetry_def Let_def Send_planCopy relabelStaleFailedJobs_def relabelJobs_planCopy split: sum.splits)

lemma manualRetry_planCopy: "handleManualRetry e w = Some r \<Longrightarrow> planCopy (snd r) = planCopy w"
  using patch_frame(4) [of e "del_annotations [AnnotationRetryNow]" w]
  by (auto simp: handleManualRetry_def Send_planCopy simp del: Send_status_update split: if_splits prod.splits option.splits)

lemma recovery_planCopy: "planCopy (snd (recovery_Handle e w)) = planCopy w"
  using manualRetry_planCopy [of e w]
  by (simp add: recovery_Handle_def Let_def handleRetry_planCopy clearRetryAtAnnotation_def patch_frame split: option.splits)

lemmas planCopy_frames = override_planCopy restart_planCopy preSuspension_planCopy suspended_planCopy recovery_planCopy
  performSuspension_planCopy

lemma Handle_planCopy:
  assumes "planCopy w = None" "\<And>b. h \<noteq> LifecycleState b"
  shows "planCopy (snd (Handle e h w)) = None"
proof (cases h)
  case (LifecycleState b)
  then show ?thesis using assms(2) by blast
next
  case IdleState
  then show ?thesis using assms(1)
    by (simp add: idle_Handle_def transitions_planCopy split: option.splits PlanPhase.splits)
next
  case HibernatingState
  then show ?thesis using assms(1) by (simp add: hibernating_Handle_def execute_planCopy)
next
  case WakingUpState
  then show ?thesis using assms(1) by (simp add: wakingUp_Handle_def execute_planCopy)
qed (use assms(1) planCopy_frames in auto)

lemma OnDeadline_planCopy: "planCopy w = None \<Longrightarrow> planCopy (snd (OnDeadline e h w)) = None"
proof -
  have "planCopy (snd (override_OnDeadline e w)) = planCopy w"
    using patch_frame(4) [of e "del_annotations [AnnotationOverrideAction, AnnotationOverridePhaseTarget, AnnotationOverrideUntil]" w]
    by (auto simp: override_OnDeadline_def split: prod.splits)
  then show "planCopy w = None \<Longrightarrow> planCopy (snd (OnDeadline e h w)) = None"
    by (cases h) (simp_all add: preSuspension_OnDeadline_def planCopy_frames)
qed

lemma handler_OnError_planCopy: "planCopy (snd (handler_OnError e h err w)) = planCopy w"
  by (cases h) (simp_all add: hibernating_OnError_def wakingUp_OnError_def recordPartial_def OnError_def setError_def Let_def)

lemma turn_inv:
  assumes "planCopy w = None" "status_inv (status w)" "sound_responses e"
  shows "status_inv (status (snd (turn e onDeadline w))) \<and> planCopy (snd (turn e onDeadline w)) = None"
proof (cases "selectHandler e w")
  case (Some h)
  let ?call = "if onDeadline then OnDeadline e h w else Handle e h w"
  obtain r err w1 where call: "?call = ((r, err), w1)" by (metis prod.collapse)
  have "status_inv (status w1) \<and> planCopy w1 = None \<and>
      (\<forall>x. err = Some x \<longrightarrow> status_inv (status (snd (handler_OnError e h x w1))))"
  proof (cases onDeadline)
    case True
    then show ?thesis
      using call OnDeadline_planCopy [OF assms(1), of e h] OnDeadline_errors handler_OnError_keeps
        takes_turn_status_inv [OF OnDeadline_turn [OF Some] assms(2)] by auto
  next
    case False
    show ?thesis
    proof (cases "\<exists>b. h = LifecycleState b")
      case True
      then obtain b where "h = LifecycleState b" by blast
      then show ?thesis using call False lifecycle_inv [OF assms(3,2), of b] assms(1) OnError_keeps by auto
    next
      case nl: False
      then show ?thesis
        using call False Handle_planCopy [OF assms(1), of h e] OnError_turn [OF Some _ _ assms(1)]
          takes_turn_status_inv [OF _ assms(2)] Handle_turn [OF Some assms(1)] by auto
    qed
  qed
  then show ?thesis using handler_OnError_planCopy [of e h "the err" w1]
    by (cases err) (auto simp: turn_def Some call split: prod.splits)
qed (use assms in \<open>simp add: turn_def\<close>)

lemma handleWithDepth_inv:
  assumes "\<And>d. sound_responses (es d)" "planCopy w = None" "status_inv (status w)"
  shows "status_inv (status (fst (handleWithDepth es onDeadline depth (w, ts)))) \<and>
    planCopy (fst (handleWithDepth es onDeadline depth (w, ts))) = None"
  using assms
proof (induction es onDeadline depth "(w, ts)" arbitrary: w ts rule: handleWithDepth.induct)
  case (1 es onDeadline depth w ts)
  obtain r w1 where t: "turn (es depth) onDeadline w = (r, w1)" by fastforce
  then have inv: "status_inv (status w1)" "planCopy w1 = None"
    using turn_inv [OF "1.prems"(2,3,1), of depth onDeadline] by simp_all
  show ?case
  proof (cases "\<exists>res. r = Some res \<and> Requeue res \<and> depth < maxHandleDepth")
    case True
    then obtain res where res: "r = Some res" "Requeue res" "\<not> depth \<ge> maxHandleDepth" by auto
    have "handleWithDepth es onDeadline depth (w, ts) = handleWithDepth es False (depth + 1) (w1, ResetTimers ts)"
      using t res by (subst handleWithDepth.simps) simp
    then show ?thesis using "1.hyps" [OF res(3) t [symmetric] res(1) res(2) "1.prems"(1)] inv by simp
  next
    case False
    then show ?thesis
      using t inv "1.prems"(2,3) handleWithDepth.simps [of es onDeadline depth w ts] by (cases r) (auto split: if_splits)
  qed
qed

section \<open>Properties\<close>

text \<open>A turn on a plan whose only target is done.\<close>

lemma shutdown_turn: "\<exists>r w'. turn sampleEnv False (onePlan shutdownStatus) = (r, w') \<and> Phase (status w') = PhaseHibernated"
proof -
  let ?w = "onePlan shutdownStatus"
  have "selectHandler sampleEnv ?w = Some HibernatingState"
    by (simp add: selectHandler_def runPrePhaseGates_def deletionGate_def suspensionGate_def checkAutoSuspendAnnotation_def
        ptrIsZero_def get_str_def onePlan_def shutdownStatus_def sample_defs)
  moreover have "hibernating_Handle sampleEnv ?w = ((noResult, None), (hibernating_finalize sampleEnv ?w)\<lparr>planCopy := None\<rparr>)"
    by (simp add: hibernating_Handle_def execute_onePlan shutdownStatus_def emptyStatus_def)
  moreover have "IsOperationComplete (livePlan ?w)"
    by (simp add: IsOperationComplete_def shutdownStatus_def doneExec_def isTerminalState_def)
  then have "Phase (status (hibernating_finalize sampleEnv ?w)) = PhaseHibernated"
    by (simp add: hibernating_finalize_def Let_def)
  ultimately show ?thesis by (simp add: turn_def)
qed

lemma suspended_turn_operation:
  assumes "Phase (status w) = PhaseSuspended" "ptrIsZero (DeletionTimestamp (livePlan w))" "keeps_annotations e"
    and "turn e onDeadline w = (r, w')"
  shows "resumes_operation e w w'"
proof -
  have kept: "resumes_operation e w v" if "status v = status w" for v
    using that assms(1) by (simp add: resumes_operation_def executing_def)
  have sel: "selectHandler e w = Some SuspendedState"
    using assms(1,2) by (auto simp: selectHandler_def runPrePhaseGates_def deletionGate_def suspensionGate_def)
  let ?call = "if onDeadline then OnDeadline e SuspendedState w else Handle e SuspendedState w"
  obtain res err w1 where call: "?call = ((res, err), w1)" by (metis prod.collapse)
  have "resumes_operation e w w1"
    using call suspended_operation [OF assms(3,1)] by (cases onDeadline) auto
  moreover have "\<not> is_plan_error x" if "err = Some x" for x
    using call that suspended_error [of e w x] by (cases onDeadline) auto
  moreover have "status w' = status w1"
    using assms(4) sel call calculation(2)
    by (cases err) (auto simp: turn_def dest: OnError_keeps [of _ e w1] split: prod.splits)
  ultimately show ?thesis by (simp add: resumes_operation_def)
qed

text \<open>
  C1.  Refinement: whatever the API server answers, one turn of the worker (handler selection,
  then Handle or OnDeadline, then OnError) on an initialised plan that is not being deleted is one
  turn of the abstract machine: some progress of the executions if an operation runs, then at most
  one decision.  So
  the phase stays or follows one edge of the phase diagram;
  an operation ends (Hibernating to Hibernated, WakingUp to Active) only with every target in a
  terminal state, its summary in the history and the retry state cleared;
  a plan leaves Error for an operation only with one more attempt counted, for the operation that
  failed, with only failed executions reset;
  the operation and its targets are replaced only when an idle plan starts one, the cycle, its
  snapshot and its override only when it starts a hibernation;
  a suspended plan goes back to an operation only if its annotation names it and the schedule still
  asks for it (provided that nobody else edits the annotations meanwhile);
  and the status invariant is kept.
\<close>

theorem turn_refines_machine:
  assumes "planCopy w = None" "Phase (status w) \<noteq> PhaseUnset" "ptrIsZero (DeletionTimestamp (livePlan w))"
    and "turn e onDeadline w = (r, w')" "status_inv (status w)"
  shows "takes_turn (status w) (status w') \<and>
    (Phase (status w') = Phase (status w) \<or> phase_edge (Phase (status w)) (Phase (status w'))) \<and>
    (executing (Phase (status w)) \<and> idle (Phase (status w')) \<longrightarrow>
       Phase (status w') = (if Phase (status w) = PhaseHibernating then PhaseHibernated else PhaseActive) \<and> ended (status w')) \<and>
    (Phase (status w) = PhaseError \<and> executing (Phase (status w')) \<longrightarrow>
       RetryCount (status w') = wrap32 (RetryCount (status w) + 1) \<and>
       (CurrentOperation (status w) = OperationHibernate \<longrightarrow> Phase (status w') = PhaseHibernating) \<and>
       (CurrentOperation (status w) = OperationWakeUp \<longrightarrow> Phase (status w') = PhaseWakingUp) \<and>
       list_all2 reset_failed (Executions (status w)) (Executions (status w'))) \<and>
    (\<not> (idle (Phase (status w)) \<and> executing (Phase (status w'))) \<longrightarrow> same_operation (status w) (status w')) \<and>
    (\<not> (idle (Phase (status w)) \<and> Phase (status w') = PhaseHibernating) \<longrightarrow> same_cycle (status w) (status w')) \<and>
    (keeps_annotations e \<and> Phase (status w) = PhaseSuspended \<longrightarrow> resumes_operation e w w') \<and>
    status_inv (status w')"
proof -
  have t: "takes_turn (status w) (status w')" using turn_takes_turn [OF assms(1-3), of e onDeadline] assms(4) by simp
  show ?thesis
    using t takes_turn_phase_edge [OF t] takes_turn_ended [OF t _ _ assms(5)] takes_turn_retried [OF t]
      takes_turn_same_operation [OF t] takes_turn_same_cycle [OF t] takes_turn_status_inv [OF t assms(5)]
      suspended_turn_operation [OF _ assms(3) _ assms(4)]
    by blast
qed

theorem turn_refines_machine_witness:
  "\<exists>r w'. turn sampleEnv False (onePlan shutdownStatus) = (r, w') \<and> Phase (status w') = PhaseHibernated \<and>
     phase_edge PhaseHibernating PhaseHibernated \<and> ended (status w')"
proof -
  let ?w = "onePlan shutdownStatus"
  have w: "Phase (status ?w) = PhaseHibernating" "planCopy ?w = None" "ptrIsZero (DeletionTimestamp (livePlan ?w))"
      "status_inv (status ?w)"
    by (simp_all add: onePlan_def sampleWorld_def samplePlan_def ptrIsZero_def shutdownStatus_def status_inv_def emptyStatus_def)
  obtain r w' where run: "turn sampleEnv False ?w = (r, w')" "Phase (status w') = PhaseHibernated"
    using shutdown_turn by blast
  then have "ended (status w')"
    using turn_refines_machine [OF w(2) _ w(3) run(1) w(4)] w(1) by (auto simp: executing_def idle_def)
  then show ?thesis using run by auto
qed

text \<open>
  C10.  How a shutdown ends.  A turn on a plan in Hibernating that is not being deleted leaves it
  in Hibernating, Hibernated, Error or Suspended: in Hibernated only by a call of the hibernating
  handler, without an error and with every target terminal; in Error only if that handler reported
  a plan-level error; in Suspended only by the suspension handler, and unless its timeout has
  fired only when no target has a job dispatched and unfinished.
\<close>

theorem shutdown_ends:
  assumes "planCopy w = None" "Phase (status w) = PhaseHibernating" "ptrIsZero (DeletionTimestamp (livePlan w))"
    and "turn e onDeadline w = (r, w')"
  shows "Phase (status w') \<in> {PhaseHibernating, PhaseHibernated, PhaseError, PhaseSuspended} \<and>
    (Phase (status w') = PhaseHibernated \<longrightarrow> selectHandler e w = Some HibernatingState \<and> \<not> onDeadline \<and>
       (\<exists>res. hibernating_Handle e w = ((res, None), w')) \<and>
       list_all (\<lambda>x. State x = StateCompleted \<or> State x = StateFailed \<or> State x = StateAborted) (Executions (status w'))) \<and>
    (Phase (status w') = PhaseError \<longrightarrow> selectHandler e w = Some HibernatingState \<and>
       (\<exists>res err w1. hibernating_Handle e w = ((res, Some err), w1) \<and> is_plan_error err)) \<and>
    (Phase (status w') = PhaseSuspended \<longrightarrow> selectHandler e w = Some PreSuspensionState \<and>
       (onDeadline \<or> \<not> list_ex inFlight (Executions (status w'))))"
proof -
  have edge: "Phase (status w') \<in> {PhaseHibernating, PhaseHibernated, PhaseError, PhaseSuspended}"
    using takes_turn_phase_edge [OF turn_takes_turn [OF assms(1) _ assms(3), of e onDeadline]] assms(2,4) by auto
  have kept: ?thesis if "status w' = status w" using that assms(2) edge by simp
  consider (2) "selectHandler e w = Some HibernatingState" | (3) "selectHandler e w = Some PreSuspensionState"
    using select_hibernating [OF assms(2,3)] by blast
  then show ?thesis
  proof cases
    case 2
    show ?thesis
    proof (cases onDeadline)
      case True
      then have "w' = w" using 2 assms(4) by (simp add: turn_def)
      then show ?thesis using kept by blast
    next
      case False
      obtain res err w1 where h: "hibernating_Handle e w = ((res, err), w1)" by (metis prod.collapse)
      have works: "Phase (status w1) = PhaseHibernating" if "err = Some x" for x
        using hibernating_Handle_settled [OF assms(2) h] that works_eq_frame(1) assms(2) by (fastforce simp: hib.settled_def)
      show ?thesis
      proof (cases err)
        case None
        then have "w' = w1" using 2 False h assms(4) by (simp add: turn_def)
        then show ?thesis
          using None h 2 False assms(2) shutdown_completes_when_terminal [OF assms(2) h] edge
          by (auto simp: isTerminalState_def)
      next
        case (Some x)
        then have w': "w' = snd (handler_OnError e HibernatingState x w1)"
          using 2 False h assms(4) by (auto simp: turn_def split: prod.splits)
        then have "Phase (status w') = PhaseError \<and> is_plan_error x \<or> Phase (status w') = PhaseHibernating"
          using works [OF Some] handler_OnError_keeps [of x e HibernatingState w1]
          by (cases "is_plan_error x") (auto simp: hibernating_OnError_def OnError_def setError_status)
        then show ?thesis using 2 h Some by auto
      qed
    qed
  next
    case 3
    obtain res err w1 where h: "(if onDeadline then performSuspension e w else preSuspension_Handle e w) = ((res, err), w1)"
      by (metis prod.collapse)
    have "\<not> is_plan_error x" if "err = Some x" for x
      using that h preSuspension_error [of e w x] performSuspension_error [of e w x] by (cases onDeadline) auto
    then have s: "status w' = status w1"
      using 3 h assms(4)
      by (cases err) (auto simp: turn_def preSuspension_OnDeadline_def dest: OnError_keeps [of _ e w1] split: prod.splits if_splits)
    have "Phase (status w1) = PhaseHibernating \<or> Phase (status w1) = PhaseSuspended"
      using h assms(2) preSuspension_phase [OF assms(1)] performSuspension_phase [of e w] by (cases onDeadline) auto
    moreover have "\<not> list_ex inFlight (Executions (status w1))" if "Phase (status w1) = PhaseSuspended" "\<not> onDeadline"
      using preSuspension_drained [OF assms(1)] that h assms(2) by (auto simp: isInExecutingPhase_def)
    ultimately show ?thesis using s 3 by auto
  qed
qed

theorem shutdown_ends_witness:
  "\<exists>r w'. turn sampleEnv False (onePlan shutdownStatus) = (r, w') \<and> Phase (status w') = PhaseHibernated \<and>
     selectHandler sampleEnv (onePlan shutdownStatus) = Some HibernatingState"
proof -
  let ?w = "onePlan shutdownStatus"
  have w: "Phase (status ?w) = PhaseHibernating" "planCopy ?w = None" "ptrIsZero (DeletionTimestamp (livePlan ?w))"
    by (simp_all add: onePlan_def sampleWorld_def samplePlan_def ptrIsZero_def shutdownStatus_def)
  obtain r w' where run: "turn sampleEnv False ?w = (r, w')" "Phase (status w') = PhaseHibernated"
    using shutdown_turn by blast
  then show ?thesis using shutdown_ends [OF w(2,1,3) run(1)] by blast
qed

text \<open>
  What can happen to the worker's plan in the course of a cycle: turns that do not start another
  hibernation, deliveries of a changed plan, and changes of jobs, restore data and status writer.
\<close>

inductive cycle_step :: "World \<Rightarrow> World \<Rightarrow> bool" where
  turned: "turn e onDeadline w = (r, w') \<Longrightarrow> ptrIsZero (DeletionTimestamp (livePlan w)) \<Longrightarrow>
    \<not> (idle (Phase (status w)) \<and> Phase (status w') = PhaseHibernating) \<Longrightarrow> cycle_step w w'"
| delivered: "cycle_step w (w\<lparr>livePlan := mergeIncoming (Some (livePlan w)) p\<rparr>)"
| elsewhere: "cycle_step w (w\<lparr>jobs := js, restoreStore := rs, outbox := q\<rparr>)"

lemma turn_planCopy:
  assumes "planCopy w = None" "Phase (status w) \<noteq> PhaseUnset" "ptrIsZero (DeletionTimestamp (livePlan w))"
  shows "planCopy (snd (turn e onDeadline w)) = None"
proof (cases "selectHandler e w")
  case (Some h)
  have nl: "h \<noteq> LifecycleState b" for b using select_phase(6,7) [OF Some] assms(2,3) by (cases b) auto
  obtain res err w1 where call: "(if onDeadline then OnDeadline e h w else Handle e h w) = ((res, err), w1)"
    by (metis prod.collapse)
  have "planCopy w1 = None"
    using call Handle_planCopy [OF assms(1) nl, of e] OnDeadline_planCopy [OF assms(1), of e h] by (cases onDeadline) auto
  then show ?thesis using handler_OnError_planCopy [of e h "the err" w1]
    by (cases err) (auto simp: turn_def Some call split: prod.splits)
qed (simp add: turn_def assms(1))

lemma cycle_step_locked:
  assumes "cycle_step w w'" "planCopy w = None" "Phase (status w) \<noteq> PhaseUnset" "locked s (status w)"
  shows "planCopy w' = None \<and> Phase (status w') \<noteq> PhaseUnset \<and> locked s (status w')"
  using assms
proof (induction rule: cycle_step.induct)
  case (turned e onDeadline w r w')
  have t: "takes_turn (status w) (status w')"
    using turn_takes_turn [OF turned.prems(1,2) turned.hyps(2), of e onDeadline] turned.hyps(1) by simp
  have "Phase (status w') \<noteq> PhaseUnset"
    using takes_turn_phase_edge [OF t] turned.prems(2) by (cases "Phase (status w)") (auto simp: idle_def executing_def)
  then show ?case
    using turn_planCopy [OF turned.prems(1,2) turned.hyps(2), of e onDeadline] turned.hyps(1)
      takes_turn_locked [OF t turned.hyps(3) turned.prems(3)] by simp
qed (simp_all add: mergeIncoming_def)

lemma cycle_steps_locked:
  assumes "cycle_step\<^sup>*\<^sup>* w w'" "planCopy w = None" "Phase (status w) \<noteq> PhaseUnset" "locked s (status w)"
  shows "planCopy w' = None \<and> Phase (status w') \<noteq> PhaseUnset \<and> locked s (status w')"
  using assms by (induction rule: rtranclp_induct) (auto dest: cycle_step_locked)

text \<open>
  C15.  The intent of a cycle is locked.  Once a hibernation has started under the override of a
  named exception, then after any sequence of turns, deliveries of a changed plan and changes in
  the cluster, as long as no other hibernation is started and the plan is not being deleted, and
  whatever becomes of the exceptions: the plan that is executed has the targets, the execution
  strategy and the behaviour of that override on the spec the hibernation was started with, and
  there is one execution for each of its targets.
\<close>

theorem cycle_intent_locked:
  assumes "findActiveExceptionOverride e = Some exc" "exc_Name exc \<noteq> ''''" "planCopy w = None"
    and "transitionToHibernating e fresh w = (r, w1)" "cycle_step\<^sup>*\<^sup>* w1 w2"
  shows "\<exists>p. effectivePlan e' (livePlan w2) = Some p \<and>
    Targets (Spec p) = Targets (applyOverrides (exc_Spec exc) (Spec (livePlan w))) \<and>
    sp_Execution (Spec p) = sp_Execution (applyOverrides (exc_Spec exc) (Spec (livePlan w))) \<and>
    sp_Behavior (Spec p) = sp_Behavior (applyOverrides (exc_Spec exc) (Spec (livePlan w))) \<and>
    map xe_Target (Executions (status w2)) = map tgt_Name (Targets (Spec p))"
proof -
  have w1: "w1 = snd (transitionToHibernating e fresh w)" using assms(4) by simp
  obtain s where s: "locked s (status w1)" "sn_Targets s = Targets (applyOverrides (exc_Spec exc) (Spec (livePlan w)))"
      "sn_Execution s = sp_Execution (applyOverrides (exc_Spec exc) (Spec (livePlan w)))"
      "sn_Behavior s = sp_Behavior (applyOverrides (exc_Spec exc) (Spec (livePlan w)))"
    using transitionToHibernating_locks [OF assms(1,2), of fresh w] w1 by blast
  have "locked s (status w2)"
    using cycle_steps_locked [OF assms(5)] s(1) assms(3) by (simp add: w1 transitions_planCopy)
  then show ?thesis using s locked_effectivePlan [of s "livePlan w2" e'] by (simp add: locked_def)
qed

theorem cycle_intent_locked_witness:
  "\<exists>p. effectivePlan sampleEnv (livePlan ((snd (transitionToHibernating (sampleEnv\<lparr>Exceptions := [sampleOverride]\<rparr>) False
       (sampleWorld (emptyStatus\<lparr>Phase := PhaseActive\<rparr>))))
       \<lparr>livePlan := mergeIncoming (Some (livePlan (snd (transitionToHibernating (sampleEnv\<lparr>Exceptions := [sampleOverride]\<rparr>) False
         (sampleWorld (emptyStatus\<lparr>Phase := PhaseActive\<rparr>)))))) ((samplePlan emptyStatus)\<lparr>Spec := sampleSpec []\<rparr>)\<rparr>)) = Some p \<and>
     map tgt_Name (Targets (Spec p)) = [''app'']"
proof -
  let ?e = "sampleEnv\<lparr>Exceptions := [sampleOverride]\<rparr>" and ?w = "sampleWorld (emptyStatus\<lparr>Phase := PhaseActive\<rparr>)"
  obtain r w1 where start: "transitionToHibernating ?e False ?w = (r, w1)" by fastforce
  let ?w2 = "w1\<lparr>livePlan := mergeIncoming (Some (livePlan w1)) ((samplePlan emptyStatus)\<lparr>Spec := sampleSpec []\<rparr>)\<rparr>"
  have "map tgt_Name (Targets (applyOverrides (exc_Spec sampleOverride) (Spec (samplePlan st)))) = [''app'']" for st
    by (simp add: applyOverrides_def overrideParameters_def disableTargets_def sampleOverride_def Let_def samplePlan_def
        sampleSpec_def sampleTarget_def)
  moreover have "cycle_step\<^sup>*\<^sup>* w1 ?w2" by (intro r_into_rtranclp cycle_step.delivered)
  ultimately show ?thesis
    using cycle_intent_locked [OF sampleOverride_active _ _ start, of ?w2 sampleEnv] start
    by (auto simp: sampleOverride_def sampleWorld_def)
qed

text \<open>
  Over the whole chain of turns that an event can set off, at most five of them and each
  with its own clock and API outcomes, the status invariant is kept: the history has at most five
  cycles, one per cycle identifier, and the stage index is never negative; and the worker is left
  with the plan itself, not with a copy.
\<close>

lemma handle_keeps_invariant:
  assumes "\<And>d. sound_responses (es d)" "planCopy w = None" "status_inv (status w)"
    and "handle es onDeadline (w, ts) = (w', ts')"
  shows "status_inv (status w') \<and> planCopy w' = None"
  using handleWithDepth_inv [of es w onDeadline 0 ts] assms by (simp add: handle_def)

lemma handle_keeps_invariant_witness:
  "\<exists>w' ts'. handle (\<lambda>_. sampleEnv\<lparr>PatchPlan := (\<lambda>_ p. Inr (p\<lparr>Status := emptyStatus\<rparr>))\<rparr>) False
      (sampleWorld emptyStatus, StartTimers) = (w', ts') \<and> status_inv (status w')"
proof -
  let ?e = "sampleEnv\<lparr>PatchPlan := (\<lambda>_ p. Inr (p\<lparr>Status := emptyStatus\<rparr>))\<rparr>"
  have inv: "status_inv emptyStatus" by (simp add: status_inv_def emptyStatus_def)
  then have "sound_responses ?e" by (simp add: sound_responses_def)
  then show ?thesis
    using handle_keeps_invariant [of "\<lambda>_. ?e" "sampleWorld emptyStatus" False StartTimers] inv
    by (cases "handle (\<lambda>_. ?e) False (sampleWorld emptyStatus, StartTimers)")
      (auto simp: sampleWorld_def samplePlan_def)
qed

text \<open>
  The fallback of the recovery handler for a plan without a current operation leads
  nowhere: it picks an operation from the schedule and moves the plan to the matching executing
  phase, but does not set the operation, so the next call of the handler of that phase fails
  with a plan-level error and changes nothing else.
\<close>

lemma retry_without_operation_fails:
  assumes "Phase (status w) = PhaseError" "CurrentOperation (status w) = OperationUnset"
    and "recovery_Handle e w = (r, w')" "Phase (status w') \<noteq> PhaseError"
  shows "\<exists>err. Handle e' (if Phase (status w') = PhaseHibernating then HibernatingState else WakingUpState) w' =
    ((noResult, Some err), w') \<and> is_plan_error err"
proof -
  have diff: "Phase (status (snd (recovery_Handle e w))) \<noteq> Phase (status w)" using assms by simp
  from recovery_retries [OF diff assms(1)] have
    h: "snd (recovery_Handle e w) = snd (handleRetry e (lastError w) (clearRetryAtAnnotation e w))" by blast
  then have "CurrentOperation (status w') = OperationUnset"
    using handleRetry_phase(2) [of e "lastError w" "clearRetryAtAnnotation e w"] diff assms(2,3) by (simp add: clearRetryAt_status)
  then show ?thesis by (simp add: hibernating_Handle_def wakingUp_Handle_def mismatch_def)
qed

lemma retry_without_operation_fails_witness:
  "\<exists>r w' err. recovery_Handle sampleEnv (sampleWorld (errorStatus OperationUnset)) = (r, w') \<and>
     Handle sampleEnv HibernatingState w' = ((noResult, Some err), w') \<and> is_plan_error err"
proof -
  let ?w = "sampleWorld (errorStatus OperationUnset)"
  obtain r w' where run: "recovery_Handle sampleEnv ?w = (r, w')" by fastforce
  then have ph: "Phase (status w') = PhaseHibernating"
    using recovery_sample [of OperationUnset] handleRetry_sample [of OperationUnset] by simp
  then show ?thesis
    using retry_without_operation_fails [OF _ _ run, of sampleEnv] run
    by (auto simp: sampleWorld_def samplePlan_def errorStatus_def)
qed

end
