(* ===== verification/StatusWriter.thy ===== *)
theory StatusWriter
  imports Worker
begin

text \<open>
  The status writer (\<^verbatim>\<open>processor/status/processor.go\<close>): it takes the updates of a plan
  from their slot in order and applies each to a fresh copy of the object on the API server.  How
  often a conflicting write is retried, and what each API call answers, are parameters.
\<close>

section \<open>Equality of statuses\<close>






section \<open>Applying one update\<close>








section \<open>Statuses up to time stamps\<close>

definition untimedSummary :: "ExecutionOperationSummary \<Rightarrow> ExecutionOperationSummary" where
  "untimedSummary s = s\<lparr>StartTime := zeroTime, EndTime := None,
     TargetResults := map (\<lambda>r. r\<lparr>tr_StartedAt := None, tr_FinishedAt := None\<rparr>) (TargetResults s)\<rparr>"

definition untimedCycle :: "ExecutionCycle \<Rightarrow> ExecutionCycle" where
  "untimedCycle c = c\<lparr>ShutdownExecution := map_option untimedSummary (ShutdownExecution c),
     WakeupExecution := map_option untimedSummary (WakeupExecution c)\<rparr>"

text \<open>The reference to the restore data is not compared when a worker looks for news of its jobs.\<close>

definition untimedExec :: "ExecutionStatus \<Rightarrow> ExecutionStatus" where
  "untimedExec x = x\<lparr>StartedAt := None, FinishedAt := None, RestoreConfigMapRef := ''''\<rparr>"

definition untimed :: "HibernatePlanStatus \<Rightarrow> HibernatePlanStatus" where
  "untimed st = st\<lparr>LastTransitionTime := None, LastRetryTime := None, Executions := map untimedExec (Executions st),
     ExceptionReferences := map (\<lambda>r. r\<lparr>er_ValidFrom := zeroTime, er_ValidUntil := zeroTime, er_AppliedAt := None\<rparr>)
       (ExceptionReferences st),
     ExecutionHistory := map untimedCycle (ExecutionHistory st)\<rparr>"




section \<open>The writer follows the worker\<close>

text \<open>
  An update respects time stamps: applied at different times to statuses that differ in time
  stamps only, it gives statuses that differ in time stamps only; and its pre-hook does not veto.
\<close>

definition time_respecting :: "Update \<Rightarrow> bool" where
  "time_respecting u \<longleftrightarrow> (\<forall>h p. PreHook u = Some h \<longrightarrow> snd (h p) = None) \<and>
     (\<forall>c1 c2 l1 l2 p1 p2. untimed (Status p1) = untimed (Status p2) \<longrightarrow>
        (\<exists>q1 q2. Mutator u c1 l1 p1 = Inr q1 \<and> Mutator u c2 l2 p2 = Inr q2 \<and>
           untimed (Status q1) = untimed (Status q2)))"






text \<open>What the updates of a list make of a status, up to time stamps.\<close>

fun leads :: "Update list \<Rightarrow> HibernatePlanStatus \<Rightarrow> HibernatePlanStatus \<Rightarrow> bool" where
  "leads [] st st' \<longleftrightarrow> untimed st' = untimed st"
| "leads (u # us) st st' \<longleftrightarrow>
     time_respecting u \<and> (\<exists>c l p q. Status p = st \<and> Mutator u c l p = Inr q \<and> leads us (Status q) st')"




section \<open>What the handlers report\<close>

text \<open>
  Every change a call has made to the status of the worker's plan, up to time stamps, has been
  offered to the status writer.
\<close>

definition reported :: "World \<Rightarrow> World \<Rightarrow> bool" where
  "reported w w' \<longleftrightarrow> (\<exists>us. outbox w' = fold fifo_Send us (outbox w) \<and> leads us (status w) (status w'))"




lemma reported_cong: "livePlan v = livePlan w \<Longrightarrow> outbox v = outbox w \<Longrightarrow> reported w w' = reported v w'"
  by (simp add: reported_def)



















section \<open>Executing handlers\<close>










section \<open>Turns\<close>




















text \<open>
  The retry update is an exception: its mutator also reads the stage index of the worker's
  plan when the writer runs it.  If the worker has moved on to the next stage by then, the writer
  resets the failed targets of that stage instead, and the stored status differs from the
  worker's in more than time stamps.
\<close>

lemma retry_update_reads_worker_plan:
  "\<not> time_respecting (retryUpdate e \<lparr>Stages = [\<lparr>xs_Targets = [''db''], xs_MaxConcurrency = 1\<rparr>,
      \<lparr>xs_Targets = [''app''], xs_MaxConcurrency = 1\<rparr>]\<rparr> op ph0 ph err)"
proof
  let ?ep = "\<lparr>Stages = [\<lparr>xs_Targets = [''db''], xs_MaxConcurrency = 1\<rparr>, \<lparr>xs_Targets = [''app''], xs_MaxConcurrency = 1\<rparr>]\<rparr>"
  let ?p = "samplePlan (emptyStatus\<lparr>Executions := [(pendingExec ''db'')\<lparr>State := StateFailed\<rparr>]\<rparr>)"
  let ?live = "\<lambda>i. samplePlan (emptyStatus\<lparr>CurrentStageIndex := i\<rparr>)"
  assume "time_respecting (retryUpdate e ?ep op ph0 ph err)"
  then have all: "\<exists>q1 q2. retryMutator ?ep ph err c l1 p = Inr q1 \<and> retryMutator ?ep ph err c l2 p = Inr q2 \<and>
      untimed (Status q1) = untimed (Status q2)" for c l1 l2 p
    by (simp add: time_respecting_def retryUpdate_def)
  obtain q1 q2 where q: "retryMutator ?ep ph err sampleNow (?live 0) ?p = Inr q1"
      "retryMutator ?ep ph err sampleNow (?live 1) ?p = Inr q2" "untimed (Status q1) = untimed (Status q2)"
    using all [of sampleNow "?live 0" ?p "?live 1"] by blast
  from q(1,2) have "map State (Executions (Status q1)) = [StatePending]" "map State (Executions (Status q2)) = [StateFailed]"
    by (auto simp: retryMutator_def RecordRetryAttempt_def Let_def samplePlan_def emptyStatus_def resetForRetry_def pendingExec_def
        split: option.splits)
  moreover have "map State (Executions (untimed st)) = map State (Executions st)" for st
    by (simp add: untimed_def untimedExec_def)
  ultimately show False using q(3) by (metis ExecutionState.distinct(5) list.inject)
qed

end
