(* ===== verification/Timers.thy ===== *)
theory Timers
  imports Prelude
begin

text \<open>
  The timers of a worker as a transition system (\<^verbatim>\<open>plan/timer.go\<close>): the worker arms and disarms
  four schedules, the run-time lets them fire, and the goroutine of \<open>loop\<close> multiplexes their
  channels into a channel of one callback.  Go evaluates the channels of a \<open>select\<close> once, on
  entry; here they are evaluated one after the other, so that an \<open>Arm\<close> may fall between two
  evaluations.  A timer object has an identity: arming a schedule makes a new one.
\<close>

datatype timer_name = TRequeue | TTimeout | TDeadline | TInactivity

abbreviation allTimers :: "timer_name list" where "allTimers \<equiv> [TRequeue, TTimeout, TDeadline, TInactivity]"

text \<open>A timer is running, has put its tick into its channel, or the tick has been taken.\<close>

datatype tick = Running | Fired | Spent

text \<open>Where the goroutine is: evaluating channels, blocked in the select, in \<open>send\<close>, or returned.\<close>

datatype loop_pc =
    Evaluating "timer_name list" "timer_name \<rightharpoonup> nat"
  | Selecting "timer_name \<rightharpoonup> nat"
  | Sending timer_name
  | Returned

record timer_sys =
  sched :: "timer_name \<rightharpoonup> nat \<times> tick"
  nextId :: nat
  out :: "timer_name option"
  notified :: bool
  mustPoke :: bool
  pc :: loop_pc

definition ArmTimer :: "timer_name \<Rightarrow> timer_sys \<Rightarrow> timer_sys" where
  "ArmTimer k s = s\<lparr>sched := (sched s)(k \<mapsto> (nextId s, Running)), nextId := Suc (nextId s)\<rparr>"

definition DisarmTimer :: "timer_name \<Rightarrow> timer_sys \<Rightarrow> timer_sys" where
  "DisarmTimer k s = s\<lparr>sched := (sched s)(k := None)\<rparr>"

text \<open>\<open>Reset\<close> of an armed schedule keeps the timer object; \<open>KeepAlive\<close> calls it only then.\<close>

definition ResetTimer :: "timer_name \<Rightarrow> timer_sys \<Rightarrow> timer_sys" where
  "ResetTimer k s =
     (case sched s k of
        Some (i, _) \<Rightarrow> s\<lparr>sched := (sched s)(k \<mapsto> (i, Running))\<rparr>
      | None \<Rightarrow> ArmTimer k s)"

definition IsArmed :: "timer_name \<Rightarrow> timer_sys \<Rightarrow> bool" where
  "IsArmed k s \<longleftrightarrow> sched s k \<noteq> None"

definition KeepAliveTimer :: "timer_sys \<Rightarrow> timer_sys" where
  "KeepAliveTimer s = (if IsArmed TInactivity s then ResetTimer TInactivity s else s)"

text \<open>\<open>send\<close>: the new callback is dropped when one is waiting.\<close>

definition sendCallback :: "timer_name \<Rightarrow> timer_sys \<Rightarrow> timer_sys" where
  "sendCallback k s = (case out s of None \<Rightarrow> s\<lparr>out := Some k\<rparr> | Some _ \<Rightarrow> s)"

definition NewTimerSet :: timer_sys where
  "NewTimerSet = \<lparr>sched = Map.empty, nextId = 0, out = None, notified = False, mustPoke = False, pc = Evaluating allTimers Map.empty\<rparr>"

definition StartSys :: timer_sys where
  "StartSys = ArmTimer TInactivity NewTimerSet"

text \<open>
  The steps.  Those of the worker (\<open>set\<close>, \<open>setTimeout\<close>, \<open>stop\<close>, \<open>disarm\<close>, \<open>keepAlive\<close>,
  \<open>take\<close>) wait for a pending \<open>poke\<close>, which follows an \<open>Arm\<close> on the same goroutine.
\<close>

inductive timer_step :: "timer_sys \<Rightarrow> timer_sys \<Rightarrow> bool" where
  fire: "sched s k = Some (i, Running) \<Longrightarrow> timer_step s (s\<lparr>sched := (sched s)(k \<mapsto> (i, Fired))\<rparr>)"
| eval: "pc s = Evaluating (k # ks) m \<Longrightarrow> timer_step s (s\<lparr>pc := Evaluating ks (m(k := map_option fst (sched s k)))\<rparr>)"
| block: "pc s = Evaluating [] m \<Longrightarrow> timer_step s (s\<lparr>pc := Selecting m\<rparr>)"
| renotice: "pc s = Selecting m \<Longrightarrow> notified s \<Longrightarrow> timer_step s (s\<lparr>notified := False, pc := Evaluating allTimers Map.empty\<rparr>)"
| receive: "pc s = Selecting m \<Longrightarrow> m k = Some i \<Longrightarrow> sched s k = Some (i, Fired) \<Longrightarrow>
    timer_step s (s\<lparr>sched := (sched s)(k \<mapsto> (i, Spent)), pc := Sending k\<rparr>)"
| send: "pc s = Sending k \<Longrightarrow> timer_step s ((sendCallback k s)\<lparr>pc := Evaluating allTimers Map.empty\<rparr>)"
| set: "\<not> mustPoke s \<Longrightarrow> k \<in> {TRequeue, TDeadline} \<Longrightarrow> timer_step s ((ArmTimer k s)\<lparr>mustPoke := True\<rparr>)"
| setTimeout: "\<not> mustPoke s \<Longrightarrow> \<not> IsArmed TTimeout s \<Longrightarrow> timer_step s ((ArmTimer TTimeout s)\<lparr>mustPoke := True\<rparr>)"
| poke: "mustPoke s \<Longrightarrow> timer_step s (s\<lparr>mustPoke := False, notified := True\<rparr>)"
| stop: "\<not> mustPoke s \<Longrightarrow> timer_step s ((DisarmTimer k s)\<lparr>mustPoke := True\<rparr>)"
| disarm: "\<not> mustPoke s \<Longrightarrow> timer_step s (DisarmTimer k s)"
| keepAlive: "\<not> mustPoke s \<Longrightarrow> timer_step s (KeepAliveTimer s)"
| take: "\<not> mustPoke s \<Longrightarrow> out s = Some k \<Longrightarrow> timer_step s ((DisarmTimer k s)\<lparr>out := None\<rparr>)"
| cancel: "pc s = Selecting m \<Longrightarrow> timer_step s (s\<lparr>pc := Returned\<rparr>)"

inductive reachable :: "timer_sys \<Rightarrow> bool" where
  start: "reachable StartSys"
| step: "reachable s \<Longrightarrow> timer_step s s' \<Longrightarrow> reachable s'"

section \<open>No armed timer is out of sight\<close>

text \<open>The goroutine has timer \<open>i\<close> of schedule \<open>k\<close> in its select, or will evaluate its channel again.\<close>

definition inSight :: "timer_sys \<Rightarrow> timer_name \<Rightarrow> nat \<Rightarrow> bool" where
  "inSight s k i \<longleftrightarrow> mustPoke s \<or> notified s \<or>
     (case pc s of
        Evaluating ks m \<Rightarrow> k \<in> set ks \<or> m k = Some i
      | Selecting m \<Rightarrow> m k = Some i
      | Sending _ \<Rightarrow> True
      | Returned \<Rightarrow> True)"

definition timers_ok :: "timer_sys \<Rightarrow> bool" where
  "timers_ok s \<longleftrightarrow> (\<forall>k i t. sched s k = Some (i, t) \<longrightarrow> inSight s k i)"

lemma all_timers: "k \<in> set allTimers"
  by (cases k) auto

lemma timers_ok_step:
  assumes "timers_ok s" "timer_step s s'"
  shows "timers_ok s'"
  using assms(2,1)
proof (induction rule: timer_step.induct)
  case (eval s k ks m)
  then show ?case by (auto simp: timers_ok_def inSight_def)
next
  case (renotice s m)
  then show ?case using all_timers by (auto simp: timers_ok_def inSight_def)
next
  case (send s k)
  then show ?case using all_timers by (auto simp: timers_ok_def inSight_def sendCallback_def split: option.splits)
qed (auto simp: timers_ok_def inSight_def ArmTimer_def DisarmTimer_def KeepAliveTimer_def ResetTimer_def IsArmed_def
      split: option.splits loop_pc.splits if_splits)

lemma reachable_ok: "reachable s \<Longrightarrow> timers_ok s"
proof (induction rule: reachable.induct)
  case start
  then show ?case using all_timers by (auto simp: timers_ok_def inSight_def StartSys_def ArmTimer_def NewTimerSet_def)
next
  case (step s s')
  then show ?case using timers_ok_step by blast
qed

section \<open>A fired timer is taken\<close>

text \<open>A step of the goroutine, other than its return, or the poke it is owed.\<close>

definition loop_step :: "timer_sys \<Rightarrow> timer_sys \<Rightarrow> bool" where
  "loop_step s s' \<longleftrightarrow> timer_step s s' \<and> pc s' \<noteq> Returned \<and> (pc s' \<noteq> pc s \<or> mustPoke s \<and> \<not> mustPoke s')"

definition current :: "timer_sys \<Rightarrow> timer_name \<rightharpoonup> nat" where
  "current s k = map_option fst (sched s k)"

lemma evaluate_all:
  "pc s = Evaluating ks m \<Longrightarrow> loop_step\<^sup>*\<^sup>* s (s\<lparr>pc := Selecting (\<lambda>k. if k \<in> set ks then current s k else m k)\<rparr>)"
proof (induction ks arbitrary: s m)
  case Nil
  then have "loop_step s (s\<lparr>pc := Selecting m\<rparr>)" using block [OF Nil] by (simp add: loop_step_def)
  then show ?case by simp
next
  case (Cons k ks)
  let ?s = "s\<lparr>pc := Evaluating ks (m(k := map_option fst (sched s k)))\<rparr>"
  have "loop_step s ?s" using eval [OF Cons.prems] Cons.prems by (simp add: loop_step_def)
  moreover have "loop_step\<^sup>*\<^sup>* ?s (?s\<lparr>pc := Selecting (\<lambda>k'. if k' \<in> set ks then current ?s k' else (m(k := map_option fst (sched s k))) k')\<rparr>)"
    by (rule Cons.IH [of ?s "m(k := map_option fst (sched s k))"]) (simp add: fun_upd_def)
  moreover have "(\<lambda>k'. if k' \<in> set ks then current ?s k' else (m(k := map_option fst (sched s k))) k') =
      (\<lambda>k'. if k' \<in> set (k # ks) then current s k' else m k')"
    by (auto simp: fun_eq_iff current_def)
  ultimately show ?case by (simp only:) (simp add: converse_rtranclp_into_rtranclp)
qed

lemma evaluate_fresh:
  assumes "pc s = Evaluating allTimers m"
  shows "loop_step\<^sup>*\<^sup>* s (s\<lparr>pc := Selecting (current s)\<rparr>)"
proof -
  have "(\<lambda>k. if k \<in> set allTimers then current s k else m k) = current s" by (simp only: all_timers if_True)
  then show ?thesis using evaluate_all [OF assms] by simp
qed

lemma taken_from_select:
  assumes "pc s = Selecting m" "m k = Some i" "sched s k = Some (i, Fired)"
  shows "\<exists>s'. loop_step\<^sup>*\<^sup>* s s' \<and> pc s' = Sending k"
  using receive [OF assms] assms by (intro exI conjI) (rule r_into_rtranclp, auto simp: loop_step_def)

lemma taken_from_evaluate:
  assumes "pc s = Evaluating allTimers m" "sched s k = Some (i, Fired)"
  shows "\<exists>s'. loop_step\<^sup>*\<^sup>* s s' \<and> pc s' = Sending k"
proof -
  let ?t = "s\<lparr>pc := Selecting (current s)\<rparr>"
  have "\<exists>s'. loop_step\<^sup>*\<^sup>* ?t s' \<and> pc s' = Sending k"
    by (rule taken_from_select [of _ "current s" _ i]) (simp_all add: assms(2) current_def)
  then show ?thesis using evaluate_fresh [OF assms(1)] by (blast intro: rtranclp_trans)
qed

text \<open>
  C40.  The poke protocol loses no timer: in every reachable state, whatever the interleaving of
  arming, firing and evaluating, a timer that has fired is taken by the goroutine by its own
  steps alone.
\<close>

theorem fired_timer_taken:
  assumes "reachable s" "sched s k = Some (i, Fired)" "pc s \<noteq> Returned"
  shows "\<exists>s'. loop_step\<^sup>*\<^sup>* s s' \<and> pc s' = Sending k"
proof -
  define s1 where "s1 = (if mustPoke s then s\<lparr>mustPoke := False, notified := True\<rparr> else s)"
  have p: "loop_step\<^sup>*\<^sup>* s s1"
    using poke [of s] assms(3) by (auto simp: s1_def loop_step_def)
  have s1: "sched s1 = sched s" "pc s1 = pc s" "\<not> mustPoke s1" by (simp_all add: s1_def)
  have sight: "inSight s1 k i"
    using reachable_ok [OF assms(1)] assms(2) by (auto simp: timers_ok_def inSight_def s1_def)
  have renoticed: "\<exists>s'. loop_step\<^sup>*\<^sup>* t s' \<and> pc s' = Sending k"
    if "pc t = Selecting m" "sched t k = Some (i, Fired)" "notified t \<or> m k = Some i" for t m
  proof (cases "m k = Some i")
    case True
    then show ?thesis using taken_from_select that by blast
  next
    case False
    let ?t = "t\<lparr>notified := False, pc := Evaluating allTimers Map.empty\<rparr>"
    have "loop_step t ?t" using renotice [OF that(1)] that False by (simp add: loop_step_def)
    then show ?thesis using taken_from_evaluate [of ?t Map.empty k i] that(2)
      by (auto dest: converse_rtranclp_into_rtranclp)
  qed
  have "\<exists>s'. loop_step\<^sup>*\<^sup>* s1 s' \<and> pc s' = Sending k"
  proof (cases "pc s1")
    case (Evaluating ks m)
    let ?t = "s1\<lparr>pc := Selecting (\<lambda>k. if k \<in> set ks then current s1 k else m k)\<rparr>"
    have "\<exists>s'. loop_step\<^sup>*\<^sup>* ?t s' \<and> pc s' = Sending k"
    proof (rule renoticed)
      show "pc ?t = Selecting (\<lambda>k. if k \<in> set ks then current s1 k else m k)" by simp
      show "sched ?t k = Some (i, Fired)" using s1 assms(2) by simp
      show "notified ?t \<or> (if k \<in> set ks then current s1 k else m k) = Some i"
        using sight Evaluating s1 assms(2) by (auto simp: inSight_def current_def)
    qed
    then show ?thesis using evaluate_all [OF Evaluating] by (blast intro: rtranclp_trans)
  next
    case (Selecting m)
    then show ?thesis using renoticed [OF Selecting] sight s1 assms(2) by (auto simp: inSight_def)
  next
    case (Sending j)
    let ?t = "(sendCallback j s1)\<lparr>pc := Evaluating allTimers Map.empty\<rparr>"
    have "loop_step s1 ?t" using send [OF Sending] Sending by (simp add: loop_step_def)
    moreover have "sched ?t k = Some (i, Fired)" using s1 assms(2) by (simp add: sendCallback_def split: option.splits)
    ultimately show ?thesis using taken_from_evaluate [of ?t Map.empty k i]
      by (auto dest: converse_rtranclp_into_rtranclp)
  next
    case Returned
    then show ?thesis using s1 assms(3) by simp
  qed
  then show ?thesis using p by (blast intro: rtranclp_trans)
qed

theorem fired_timer_taken_witness:
  "\<exists>s'. loop_step\<^sup>*\<^sup>* (StartSys\<lparr>sched := [TInactivity \<mapsto> (0, Fired)]\<rparr>) s' \<and> pc s' = Sending TInactivity"
proof -
  have "timer_step StartSys (StartSys\<lparr>sched := [TInactivity \<mapsto> (0, Fired)]\<rparr>)"
    using fire [of StartSys TInactivity 0] by (simp add: StartSys_def ArmTimer_def NewTimerSet_def)
  then have "reachable (StartSys\<lparr>sched := [TInactivity \<mapsto> (0, Fired)]\<rparr>)"
    using reachable.start reachable.step by blast
  then show ?thesis
    by (rule fired_timer_taken [of _ _ 0]) (simp_all add: StartSys_def ArmTimer_def NewTimerSet_def)
qed

section \<open>A dropped callback\<close>

lemma reachable_loop: "reachable s \<Longrightarrow> loop_step\<^sup>*\<^sup>* s s' \<Longrightarrow> reachable s'"
  by (rotate_tac 1, induction rule: rtranclp_induct) (auto simp: loop_step_def intro: reachable.step)

text \<open>
  When a second timer fires before the worker has taken the callback of the first, its callback is
  dropped, but its schedule still counts as armed.
\<close>

lemma timeout_callback_lost:
  "\<exists>s. reachable s \<and> IsArmed TTimeout s \<and> (\<exists>i. sched s TTimeout = Some (i, Spent)) \<and> out s = Some TRequeue \<and>
     pc s = Evaluating allTimers Map.empty"
proof -
  let ?all = "Evaluating allTimers Map.empty"
  define s0 where "s0 = \<lparr>sched = [TInactivity \<mapsto> (0, Running), TRequeue \<mapsto> (1, Fired), TTimeout \<mapsto> (2, Fired)], nextId = 3,
    out = None, notified = True, mustPoke = False, pc = ?all\<rparr>"
  have r0: "reachable s0"
  proof -
    have 1: "reachable ((ArmTimer TRequeue StartSys)\<lparr>mustPoke := True\<rparr>)"
      by (rule reachable.step [OF reachable.start timer_step.set]) (simp_all add: StartSys_def ArmTimer_def NewTimerSet_def)
    note 2 = reachable.step [OF 1 timer_step.poke, simplified]
    note 3 = reachable.step [OF 2 timer_step.setTimeout, unfolded IsArmed_def, simplified, OF _]
    have 4: "reachable \<lparr>sched = [TInactivity \<mapsto> (0, Running), TRequeue \<mapsto> (1, Running), TTimeout \<mapsto> (2, Running)], nextId = 3,
        out = None, notified = True, mustPoke = True, pc = ?all\<rparr>"
      using 3 by (simp add: StartSys_def ArmTimer_def NewTimerSet_def numeral_2_eq_2 numeral_3_eq_3)
    note 5 = reachable.step [OF 4 timer_step.poke, simplified]
    note 6 = reachable.step [OF 5 timer_step.fire [where k = TRequeue and i = 1], simplified]
    note 7 = reachable.step [OF 6 timer_step.fire [where k = TTimeout and i = 2], simplified]
    then show ?thesis by (simp add: s0_def fun_upd_twist)
  qed
  have select: "reachable (s\<lparr>pc := Selecting (current s)\<rparr>)" if "reachable s" "pc s = ?all" for s
    using reachable_loop [OF that(1) evaluate_fresh [OF that(2)]] .
  let ?s1 = "s0\<lparr>sched := (sched s0)(TRequeue \<mapsto> (1, Spent)), pc := Sending TRequeue\<rparr>"
  have "timer_step (s0\<lparr>pc := Selecting (current s0)\<rparr>) ?s1"
    using timer_step.receive [of "s0\<lparr>pc := Selecting (current s0)\<rparr>" "current s0" TRequeue 1]
    by (simp add: s0_def current_def)
  then have r1: "reachable ?s1" using reachable.step [OF select [OF r0]] by (simp add: s0_def)
  let ?s2 = "?s1\<lparr>out := Some TRequeue, pc := ?all\<rparr>"
  have r2: "reachable ?s2"
    using reachable.step [OF r1 timer_step.send [of _ TRequeue]] by (simp add: s0_def sendCallback_def)
  let ?s3 = "?s2\<lparr>sched := (sched ?s2)(TTimeout \<mapsto> (2, Spent)), pc := Sending TTimeout\<rparr>"
  have "timer_step (?s2\<lparr>pc := Selecting (current ?s2)\<rparr>) ?s3"
    using timer_step.receive [of "?s2\<lparr>pc := Selecting (current ?s2)\<rparr>" "current ?s2" TTimeout 2]
    by (simp add: s0_def current_def)
  then have r3: "reachable ?s3" using reachable.step [OF select [OF r2]] by (simp add: s0_def)
  have "reachable (?s3\<lparr>pc := ?all\<rparr>)"
    using reachable.step [OF r3 timer_step.send [of _ TTimeout]] by (simp add: s0_def sendCallback_def)
  then show ?thesis by (intro exI [of _ "?s3\<lparr>pc := ?all\<rparr>"]) (simp add: s0_def IsArmed_def)
qed

text \<open>
  From there the timeout never comes: until the worker stops the timeout, which a phase that waits
  for it does not, no step arms it again or brings its callback back.
\<close>

definition timeoutLost :: "timer_sys \<Rightarrow> bool" where
  "timeoutLost s \<longleftrightarrow> (\<exists>i. sched s TTimeout = Some (i, Spent)) \<and> out s \<noteq> Some TTimeout \<and> pc s \<noteq> Sending TTimeout"

lemma timeout_stays_lost:
  assumes "timeoutLost s" "timer_step s s'" "IsArmed TTimeout s'"
  shows "timeoutLost s'"
  using assms(2,1,3)
  by (induction rule: timer_step.induct)
    (auto simp: timeoutLost_def IsArmed_def ArmTimer_def DisarmTimer_def KeepAliveTimer_def ResetTimer_def sendCallback_def
      split: option.splits if_splits)

end
