(* ===== verification/WorkerLoop.thy ===== *)
theory WorkerLoop
  imports Worker Timers
begin

text \<open>
  The life of a plan worker (\<^verbatim>\<open>run\<close> in \<^verbatim>\<open>plan/worker.go\<close>): one event after the other, a
  delivery from the coordinator, the callback of a timer or the end of the context, from the first
  delivery until the worker stops itself.  Between two events the cluster moves on its own.
\<close>

section \<open>The event loop\<close>

text \<open>
  \<open>cached\<close> says that \<open>cachedCtx\<close> is not nil; its plan is the live plan of the world.  The
  environments of an event are those of the chain of turns it sets off.
\<close>

record WorkerState =
  cached :: bool
  world :: World
  timers :: TimerSet
  alive :: bool

datatype worker_event =
    Delivered "HibernatePlan option" "nat \<Rightarrow> Env"
  | Callback timer_name "nat \<Rightarrow> Env"
  | ContextDone
  | Elsewhere "Job list" store "Update fifoSlot"

definition newWorker :: "World \<Rightarrow> WorkerState" where
  "newWorker w = \<lparr>cached = False, world = w, timers = StartTimers, alive = True\<rparr>"

definition handleCached :: "(nat \<Rightarrow> Env) \<Rightarrow> bool \<Rightarrow> WorkerState \<Rightarrow> WorkerState" where
  "handleCached es onDeadline s =
     (if cached s
      then (case handle es onDeadline (world s, timers s) of (w, ts) \<Rightarrow> s\<lparr>world := w, timers := ts\<rparr>)
      else s)"

definition keepAlive :: "WorkerState \<Rightarrow> WorkerState" where
  "keepAlive s = s\<lparr>timers := KeepAlive (timers s)\<rparr>"

text \<open>The deferred \<open>Stop\<close> of the timers.\<close>

definition stopWorker :: "WorkerState \<Rightarrow> WorkerState" where
  "stopWorker s = s\<lparr>timers := Cleanup (timers s), alive := False\<rparr>"

text \<open>The closures that \<open>loop\<close> hands over, with the hooks of \<open>run\<close>.\<close>

definition onCallback :: "timer_name \<Rightarrow> (nat \<Rightarrow> Env) \<Rightarrow> WorkerState \<Rightarrow> WorkerState" where
  "onCallback k es s =
     (case k of
        TRequeue \<Rightarrow> keepAlive (handleCached es False (s\<lparr>timers := (timers s)\<lparr>Requeue_t := None\<rparr>\<rparr>))
      | TTimeout \<Rightarrow> keepAlive (handleCached es True (s\<lparr>timers := (timers s)\<lparr>Timeout_t := None\<rparr>\<rparr>))
      | TDeadline \<Rightarrow> keepAlive (handleCached es True (s\<lparr>timers := (timers s)\<lparr>Deadline_t := None\<rparr>\<rparr>))
      | TInactivity \<Rightarrow> stopWorker (s\<lparr>timers := (timers s)\<lparr>Inactivity_t := None\<rparr>\<rparr>))"

definition onDelivery :: "HibernatePlan \<Rightarrow> (nat \<Rightarrow> Env) \<Rightarrow> WorkerState \<Rightarrow> WorkerState" where
  "onDelivery p es s =
     (let plan = mergeIncoming (if cached s then Some (livePlan (world s)) else None) p
      in keepAlive (handleCached es False (s\<lparr>cached := True, world := (world s)\<lparr>livePlan := plan\<rparr>\<rparr>)))"

definition onEvent :: "worker_event \<Rightarrow> WorkerState \<Rightarrow> WorkerState" where
  "onEvent ev s =
     (if \<not> alive s then s
      else (case ev of
              Delivered None _ \<Rightarrow> s
            | Delivered (Some p) es \<Rightarrow> onDelivery p es s
            | Callback k es \<Rightarrow> onCallback k es s
            | ContextDone \<Rightarrow> stopWorker s
            | Elsewhere js st q \<Rightarrow> s\<lparr>world := (world s)\<lparr>jobs := js, restoreStore := st, outbox := q\<rparr>\<rparr>))"

definition runWorker :: "worker_event list \<Rightarrow> WorkerState \<Rightarrow> WorkerState" where
  "runWorker evs s = fold onEvent evs s"

section \<open>The timers of a living worker\<close>

text \<open>
  A living worker has its inactivity timer, and it does not end before a deadline that is set;
  a worker that has stopped has no timer left.
\<close>

definition covered :: "TimerSet \<Rightarrow> bool" where
  "covered ts \<longleftrightarrow> (\<exists>i. Inactivity_t ts = Some i \<and>
     (\<forall>d. Deadline_t ts = Some d \<and> d + inactivityTimeout < 2 ^ 63 \<longrightarrow> d \<le> i))"

definition noTimers :: TimerSet where
  "noTimers = \<lparr>Requeue_t = None, Timeout_t = None, Deadline_t = None, Inactivity_t = None\<rparr>"

lemma handle_inactivity: "Inactivity_t (snd (handle es onDeadline (w, ts))) = Inactivity_t ts"
proof -
  have "Inactivity_t (snd (handleWithDepth es onDeadline depth (w, ts))) = Inactivity_t ts" for depth
  proof (induction es onDeadline depth "(w, ts)" arbitrary: w ts rule: handleWithDepth.induct)
    case (1 es onDeadline depth w ts)
    obtain r w1 where t: "turn (es depth) onDeadline w = (r, w1)" by fastforce
    show ?case
    proof (cases r)
      case None
      then show ?thesis using t by (subst handleWithDepth.simps) simp
    next
      case (Some res)
      show ?thesis using t Some "1.hyps" [OF _ t [symmetric] Some]
        by (subst handleWithDepth.simps) (auto simp: ApplyTimers_def SetTimeout_def ResetTimers_def Let_def)
    qed
  qed
  then show ?thesis by (simp add: handle_def)
qed

lemma covered_KeepAlive: "Inactivity_t ts \<noteq> None \<Longrightarrow> covered (KeepAlive ts)"
  by (auto simp: covered_def KeepAlive_def Let_def wrap64_id split: option.splits)

lemma Cleanup_noTimers: "Cleanup ts = noTimers"
  by (simp add: Cleanup_def ResetTimers_def noTimers_def)

lemma handleCached_frame [simp]:
  "cached (handleCached es b s) = cached s" "alive (handleCached es b s) = alive s"
  "Inactivity_t (timers (handleCached es b s)) = Inactivity_t (timers s)"
  using handle_inactivity [of es b "world s" "timers s"] by (auto simp: handleCached_def split: prod.splits)

lemma onEvent_timers:
  assumes "if alive s then covered (timers s) else timers s = noTimers"
  shows "if alive (onEvent ev s) then covered (timers (onEvent ev s)) else timers (onEvent ev s) = noTimers"
proof (cases "alive s")
  case True
  then have "Inactivity_t (timers s) \<noteq> None" using assms by (auto simp: covered_def)
  then show ?thesis using assms True
    by (auto simp: onEvent_def onDelivery_def onCallback_def keepAlive_def stopWorker_def covered_KeepAlive Cleanup_noTimers Let_def
        split: worker_event.split option.split timer_name.split)
qed (use assms in \<open>simp add: onEvent_def\<close>)

section \<open>The status over a whole life\<close>

text \<open>
  The statuses that come from outside: that of the first plan delivered, and those in the
  responses to finalizer patches.
\<close>

fun first_delivery :: "worker_event list \<Rightarrow> HibernatePlan option" where
  "first_delivery [] = None"
| "first_delivery (Delivered (Some p) es # evs) = Some p"
| "first_delivery (_ # evs) = first_delivery evs"

fun good_answers :: "worker_event \<Rightarrow> bool" where
  "good_answers (Delivered (Some p) es) \<longleftrightarrow> (\<forall>d. sound_responses (es d))"
| "good_answers (Callback _ es) \<longleftrightarrow> (\<forall>d. sound_responses (es d))"
| "good_answers _ \<longleftrightarrow> True"

definition worker_inv :: "WorkerState \<Rightarrow> bool" where
  "worker_inv s \<longleftrightarrow> planCopy (world s) = None \<and> (cached s \<longrightarrow> status_inv (status (world s))) \<and>
     (if alive s then covered (timers s) else timers s = noTimers)"

lemma handleCached_inv:
  assumes "\<And>d. sound_responses (es d)" "planCopy (world s) = None" "cached s \<Longrightarrow> status_inv (status (world s))"
  shows "planCopy (world (handleCached es b s)) = None"
    "cached s \<Longrightarrow> status_inv (status (world (handleCached es b s)))"
  using handleWithDepth_inv [of es "world s" b 0 "timers s"] assms
  by (auto simp: handleCached_def handle_def split: prod.splits)

lemma handleCached_first [simp]: "\<not> cached s \<Longrightarrow> handleCached es b s = s"
  by (simp add: handleCached_def)

lemma worker_inv_event:
  assumes "worker_inv s" "good_answers ev" "\<And>p es. ev = Delivered (Some p) es \<Longrightarrow> cached s \<or> status_inv (Status p)"
  shows "worker_inv (onEvent ev s)"
proof -
  have "planCopy (world (onEvent ev s)) = None \<and> (cached (onEvent ev s) \<longrightarrow> status_inv (status (world (onEvent ev s))))"
  proof (cases "alive s")
    case True
    then show ?thesis
      using assms
      by (cases ev rule: good_answers.cases)
        (auto simp: worker_inv_def onEvent_def onDelivery_def onCallback_def keepAlive_def stopWorker_def mergeIncoming_def Let_def
          handleCached_inv split: timer_name.split)
  qed (use assms in \<open>simp add: onEvent_def worker_inv_def\<close>)
  then show ?thesis using onEvent_timers [of s ev] assms(1) by (simp add: worker_inv_def)
qed

lemma cached_event: "cached s \<Longrightarrow> cached (onEvent ev s)"
  by (cases ev rule: good_answers.cases)
    (auto simp: onEvent_def onDelivery_def onCallback_def keepAlive_def stopWorker_def Let_def split: timer_name.split)

lemma delivered_event: "alive s \<Longrightarrow> cached (onEvent (Delivered (Some p) es) s)"
  by (simp add: onEvent_def onDelivery_def keepAlive_def Let_def)

lemma dead_run: "\<not> alive s \<Longrightarrow> runWorker evs s = s"
  by (induction evs) (simp_all add: runWorker_def onEvent_def)

lemma worker_inv_run:
  assumes "worker_inv s" "list_all good_answers evs" "cached s \<or> (\<forall>p. first_delivery evs = Some p \<longrightarrow> status_inv (Status p))"
  shows "worker_inv (runWorker evs s)"
  using assms
proof (induction evs arbitrary: s)
  case (Cons ev evs)
  have step: "runWorker (ev # evs) s = runWorker evs (onEvent ev s)" by (simp add: runWorker_def)
  show ?case
  proof (cases "alive s")
    case True
    have "worker_inv (onEvent ev s)"
      using worker_inv_event [OF Cons.prems(1), of ev] Cons.prems(2,3) by (cases ev rule: good_answers.cases) auto
    moreover have "cached (onEvent ev s) \<or> (\<forall>p. first_delivery evs = Some p \<longrightarrow> status_inv (Status p))"
      using Cons.prems(3) cached_event [of s ev] delivered_event [OF True] by (cases ev rule: good_answers.cases) auto
    ultimately show ?thesis using Cons.IH Cons.prems(2) step by simp
  next
    case False
    then show ?thesis using Cons.prems(1) by (simp add: dead_run)
  qed
qed (simp add: runWorker_def)

text \<open>
  C2.  Over the whole life of a worker, for every sequence of deliveries, timer callbacks and
  changes in the cluster.  The worker takes a status from outside only with the first delivery and
  with the API server's answers to its finalizer patches; provided that these statuses are good,
  whatever later deliveries carry and whatever the server answers to any other request: the status
  of the worker's plan is good (a history of at most five cycles, one per cycle identifier, and a
  stage index that is not negative), the worker is never left with a copy of the plan, a living
  worker has its inactivity timer and cannot time out before a pending deadline, unless the sum of
  that deadline and the inactivity timeout exceeds a signed 64-bit duration, and a worker that has
  stopped has no timer left.
\<close>

theorem worker_life:
  assumes "planCopy w = None" "\<And>p. first_delivery evs = Some p \<Longrightarrow> status_inv (Status p)" "list_all good_answers evs"
    and "s = runWorker evs (newWorker w)"
  shows "planCopy (world s) = None \<and> (cached s \<longrightarrow> status_inv (status (world s))) \<and>
    (alive s \<longrightarrow> (\<exists>i. Inactivity_t (timers s) = Some i \<and>
       (\<forall>d. Deadline_t (timers s) = Some d \<and> d + inactivityTimeout < 2 ^ 63 \<longrightarrow> d \<le> i))) \<and>
    (\<not> alive s \<longrightarrow> timers s = noTimers)"
proof -
  have "worker_inv (newWorker w)"
    using assms(1) by (simp add: worker_inv_def newWorker_def StartTimers_def covered_def)
  then have "worker_inv s" using worker_inv_run assms(2,3,4) by blast
  then show ?thesis by (auto simp: worker_inv_def covered_def split: if_splits)
qed

text \<open>
  The bound on the deadline is needed: the distance to a deadline centuries away saturates at the
  largest duration, and the sum wraps to a negative inactivity timeout, which fires at once.
\<close>

lemma far_deadline_times_out:
  assumes "Inactivity_t ts \<noteq> None" "Deadline_t ts = Some d" "2 ^ 63 \<le> d + inactivityTimeout" "d < 2 ^ 63"
  shows "\<exists>i. Inactivity_t (KeepAlive ts) = Some i \<and> i < 0"
proof -
  let ?x = "d + inactivityTimeout + 2 ^ 63"
  have "?x mod 2 ^ 64 = (?x - 2 ^ 64) mod 2 ^ 64" by (rule minus_mod_self2 [symmetric])
  also have "\<dots> = ?x - 2 ^ 64" using assms(3,4) by (intro mod_pos_pos_trivial) simp_all
  finally have "wrap64 (d + inactivityTimeout) = d + inactivityTimeout - 2 ^ 64" by (simp add: wrap64_def)
  then show ?thesis using assms by (simp add: KeepAlive_def Let_def)
qed

theorem worker_life_witness:
  "\<exists>s. s = runWorker [Delivered (Some (samplePlan emptyStatus)) (\<lambda>_. sampleEnv\<lparr>PatchPlan := (\<lambda>_ p. Inr (p\<lparr>Status := emptyStatus\<rparr>))\<rparr>),
       Callback TInactivity (\<lambda>_. sampleEnv\<lparr>PatchPlan := (\<lambda>_ p. Inr (p\<lparr>Status := emptyStatus\<rparr>))\<rparr>)]
       (newWorker (sampleWorld emptyStatus)) \<and>
     cached s \<and> status_inv (status (world s)) \<and> \<not> alive s \<and> timers s = noTimers"
proof -
  let ?es = "\<lambda>_::nat. sampleEnv\<lparr>PatchPlan := (\<lambda>_ p. Inr (p\<lparr>Status := emptyStatus\<rparr>))\<rparr>"
  let ?evs = "[Delivered (Some (samplePlan emptyStatus)) ?es, Callback TInactivity ?es]"
  let ?s = "runWorker ?evs (newWorker (sampleWorld emptyStatus))"
  have inv: "status_inv emptyStatus" by (simp add: status_inv_def emptyStatus_def)
  then have "list_all good_answers ?evs" by (simp add: sound_responses_def samplePlan_def)
  then have "(cached ?s \<longrightarrow> status_inv (status (world ?s))) \<and> (\<not> alive ?s \<longrightarrow> timers ?s = noTimers)"
    using worker_life [of "sampleWorld emptyStatus" ?evs ?s] inv by (simp add: sampleWorld_def samplePlan_def)
  moreover have "cached ?s \<and> \<not> alive ?s"
    by (simp add: runWorker_def onEvent_def onDelivery_def onCallback_def keepAlive_def stopWorker_def newWorker_def Let_def)
  ultimately show ?thesis by blast
qed

section \<open>Delivered statuses\<close>

text \<open>An event with another status in the delivered plan.\<close>

fun restatus :: "(HibernatePlan \<Rightarrow> HibernatePlanStatus) \<Rightarrow> worker_event \<Rightarrow> worker_event" where
  "restatus f (Delivered (Some p) es) = Delivered (Some (p\<lparr>Status := f p\<rparr>)) es"
| "restatus f ev = ev"

lemma restatus_event: "cached s \<Longrightarrow> onEvent (restatus f ev) s = onEvent ev s"
  by (cases ev rule: good_answers.cases) (simp_all add: onEvent_def onDelivery_def mergeIncoming_def)

text \<open>
  Only the first delivery decides on the status: whatever statuses the later ones carry, stale,
  corrected by the reconciler or edited by hand, the worker lives the same life.
\<close>

lemma delivered_statuses_ignored:
  "cached s \<Longrightarrow> runWorker (map (restatus f) evs) s = runWorker evs s"
  by (induction evs arbitrary: s) (simp_all add: runWorker_def restatus_event cached_event)

end
