(* ===== verification/Schedule.thy ===== *)
theory Schedule
  imports ApiTypes
begin

text \<open>
  The schedule evaluator (\<^verbatim>\<open>internal/scheduler/schedule.go\<close> and \<^verbatim>\<open>evaluate.go\<close>).  The cron
  parser and the schedules it returns are third-party code, and the time-zone database is data:
  both are fields of the evaluator.  A cron schedule is its \<open>Next\<close> function.  One evaluation
  reads the clock once.
\<close>

record Exception =
  ex_Type :: ExceptionType
  ValidFrom :: Time
  ValidUntil :: Time
  LeadTime :: duration
  ex_Windows :: "OffHourWindow list"

type_synonym cron_Schedule = "Time \<Rightarrow> Time"

record ScheduleEvaluator =
  Now :: Time
  parser :: "string \<Rightarrow> cron_Schedule res"
  LoadLocation :: "string \<Rightarrow> location res"
  scheduleBuffer :: duration

record EvaluationResult =
  ShouldHibernate :: bool
  NextHibernateTime :: Time
  NextWakeUpTime :: Time
  CurrentState :: string
  InGracePeriod :: bool
  GracePeriodEnd :: Time

section \<open>One window\<close>

text \<open>
  The loop of \<open>findLastOccurrence\<close>: step through the occurrences up to now and keep the last.
  It ends only if the schedule moves forward; \<open>None\<close> is a loop that does not end.
\<close>

partial_function (option) scanOccurrences ::
    "cron_Schedule \<Rightarrow> Time \<Rightarrow> Time \<Rightarrow> Time \<Rightarrow> Time option" where
  "scanOccurrences sched now lastOccurrence current =
     (if Before current now \<or> TimeEqual current now
      then scanOccurrences sched now current (sched current)
      else Some lastOccurrence)"

definition findLastOccurrence :: "cron_Schedule \<Rightarrow> Time \<Rightarrow> Time option" where
  "findLastOccurrence sched now =
     (case scanOccurrences sched now zeroTime (sched (AddDur now (- 24 * Hour))) of
        None \<Rightarrow> None
      | Some lastOccurrence \<Rightarrow>
          if IsZero lastOccurrence
          then scanOccurrences sched now lastOccurrence (sched (AddDur now (- 7 * 24 * Hour)))
          else Some lastOccurrence)"

definition stateName :: "bool \<Rightarrow> string" where
  "stateName shouldHibernate = (if shouldHibernate then ''hibernated'' else ''active'')"

text \<open>
  The decision of \<open>eval\<close> once the four occurrences are known: which boundary came last, then the
  grace periods.
\<close>

definition evalGrace :: "ScheduleEvaluator \<Rightarrow> OffHourWindow list \<Rightarrow> Time \<Rightarrow> Time \<Rightarrow> Time \<Rightarrow> Time \<Rightarrow> Time \<Rightarrow>
    EvaluationResult res" where
  "evalGrace e windows localNow lastHibernate lastWakeUp nextHibernate nextWakeUp =
     (let shouldHibernate = After lastHibernate lastWakeUp;
          plain = \<lparr>ShouldHibernate = shouldHibernate, NextHibernateTime = nextHibernate,
             NextWakeUpTime = nextWakeUp, CurrentState = stateName shouldHibernate,
             InGracePeriod = False, GracePeriodEnd = zeroTime\<rparr>;
          isContinuous = \<not> Before (AddDur lastWakeUp (scheduleBuffer e)) lastHibernate
      in if scheduleBuffer e > 0 then
           (if shouldHibernate \<and> \<not> isContinuous then
              (case isInGraceTimeWindow StartBoundary windows localNow (scheduleBuffer e) of
                 Inl err \<Rightarrow> Inl err
               | Inr True \<Rightarrow>
                   (let gracePeriodEnd = AddDur lastHibernate (scheduleBuffer e)
                    in Inr (plain\<lparr>ShouldHibernate := False, CurrentState := stateName False,
                         InGracePeriod := True, GracePeriodEnd := gracePeriodEnd,
                         NextHibernateTime := (if Before gracePeriodEnd nextHibernate
                                               then gracePeriodEnd else nextHibernate)\<rparr>))
               | Inr False \<Rightarrow> Inr plain)
            else if \<not> shouldHibernate then
              (case isInGraceTimeWindow EndBoundary windows localNow (scheduleBuffer e) of
                 Inl err \<Rightarrow> Inl err
               | Inr True \<Rightarrow>
                   (let gracePeriodEnd = AddDur lastWakeUp (scheduleBuffer e)
                    in Inr (plain\<lparr>ShouldHibernate := True, CurrentState := stateName True,
                         InGracePeriod := True, GracePeriodEnd := gracePeriodEnd,
                         NextWakeUpTime := (if Before gracePeriodEnd nextWakeUp
                                            then gracePeriodEnd else nextWakeUp)\<rparr>))
               | Inr False \<Rightarrow> Inr plain)
            else Inr plain)
         else Inr plain)"

definition eval_window :: "ScheduleEvaluator \<Rightarrow> ScheduleWindow \<Rightarrow> EvaluationResult res" where
  "eval_window e window =
     (case LoadLocation e (Timezone window) of
        Inl err \<Rightarrow> Inl (Wrap (''invalid timezone '' @ Timezone window @ '': '') err)
      | Inr l \<Rightarrow>
          (let localNow = InLoc (Now e) l in
           case parser e (HibernateCron window) of
             Inl err \<Rightarrow> Inl (Wrap (''invalid hibernate cron '' @ quote (HibernateCron window) @ '': '') err)
           | Inr hibernateSched \<Rightarrow>
               (case parser e (WakeUpCron window) of
                  Inl err \<Rightarrow> Inl (Wrap (''invalid wakeUp cron '' @ quote (WakeUpCron window) @ '': '') err)
                | Inr wakeUpSched \<Rightarrow>
                    (case findLastOccurrence hibernateSched localNow of
                       None \<Rightarrow> Inl Diverges
                     | Some lastHibernate \<Rightarrow>
                         (case findLastOccurrence wakeUpSched localNow of
                            None \<Rightarrow> Inl Diverges
                          | Some lastWakeUp \<Rightarrow>
                              evalGrace e (sw_Windows window) localNow lastHibernate lastWakeUp
                                (hibernateSched localNow) (wakeUpSched localNow))))))"

definition NextRequeueTime :: "ScheduleEvaluator \<Rightarrow> EvaluationResult \<Rightarrow> duration" where
  "NextRequeueTime e result =
     (let safetyBuffer = 10 * Second in
      if InGracePeriod result then
        (let d = SubTime (GracePeriodEnd result) (Now e);
             d' = (if d < 0 then 0 else d)
         in wrap64 (d' + safetyBuffer))
      else
        (let nextEvent = (if ShouldHibernate result then NextWakeUpTime result
                          else NextHibernateTime result);
             d = SubTime nextEvent (Now e);
             d' = (if d < 0 then Minute else d)
         in wrap64 (wrap64 (d' + scheduleBuffer e) + safetyBuffer)))"

section \<open>Several windows\<close>

definition earlierTime :: "Time \<Rightarrow> Time \<Rightarrow> Time" where
  "earlierTime a b =
     (if IsZero a then b else if IsZero b then a else if Before a b then a else b)"

definition combineResults :: "EvaluationResult \<Rightarrow> EvaluationResult \<Rightarrow> EvaluationResult" where
  "combineResults combined result =
     (let should = ShouldHibernate combined \<or> ShouldHibernate result in
      \<lparr>ShouldHibernate = should,
       NextHibernateTime = earlierTime (NextHibernateTime combined) (NextHibernateTime result),
       NextWakeUpTime = earlierTime (NextWakeUpTime combined) (NextWakeUpTime result),
       CurrentState = (if should then ''hibernated'' else CurrentState combined),
       InGracePeriod = InGracePeriod combined \<or> InGracePeriod result,
       GracePeriodEnd =
         (if InGracePeriod result \<and> \<not> IsZero (GracePeriodEnd result) then
            (if IsZero (GracePeriodEnd combined) then GracePeriodEnd result
             else earlierTime (GracePeriodEnd combined) (GracePeriodEnd result))
          else GracePeriodEnd combined)\<rparr>)"

definition evalOne :: "ScheduleEvaluator \<Rightarrow> string \<Rightarrow> OffHourWindow \<Rightarrow> EvaluationResult res" where
  "evalOne e timezone w =
     (case ParseWindowToCron (Start w) (End w) (DaysOfWeek w) of
        Inl err \<Rightarrow> Inl (Wrap ''convert window to cron: '' err)
      | Inr (hibernateCron, wakeUpCron) \<Rightarrow>
          eval_window e \<lparr>sw_Windows = [w], HibernateCron = hibernateCron, WakeUpCron = wakeUpCron,
             Timezone = timezone\<rparr>)"

fun evalLoop :: "ScheduleEvaluator \<Rightarrow> string \<Rightarrow> EvaluationResult option \<Rightarrow> OffHourWindow list \<Rightarrow>
    (EvaluationResult option) res" where
  "evalLoop e timezone combined [] = Inr combined"
| "evalLoop e timezone combined (w # ws) =
     (case evalOne e timezone w of
        Inl err \<Rightarrow> Inl err
      | Inr result \<Rightarrow>
          evalLoop e timezone
            (Some (case combined of None \<Rightarrow> result | Some c \<Rightarrow> combineResults c result)) ws)"

definition noWindows :: EvaluationResult where
  "noWindows = \<lparr>ShouldHibernate = False, NextHibernateTime = zeroTime, NextWakeUpTime = zeroTime,
     CurrentState = ''active'', InGracePeriod = False, GracePeriodEnd = zeroTime\<rparr>"

definition evaluateWindows ::
    "ScheduleEvaluator \<Rightarrow> OffHourWindow list \<Rightarrow> string \<Rightarrow> EvaluationResult res" where
  "evaluateWindows e windows timezone =
     (if windows = [] then Inr noWindows
      else (case evalLoop e timezone None windows of
              Inl err \<Rightarrow> Inl err
            | Inr None \<Rightarrow> Inl Panic
            | Inr (Some r) \<Rightarrow> Inr r))"


section \<open>Exceptions\<close>

definition isExceptionActive :: "ScheduleEvaluator \<Rightarrow> Exception \<Rightarrow> bool" where
  "isExceptionActive e exc \<longleftrightarrow> \<not> Before (Now e) (ValidFrom exc) \<and> \<not> After (Now e) (ValidUntil exc)"

text \<open>The list holds pointers, so an entry may be nil.\<close>

fun filterActive :: "ScheduleEvaluator \<Rightarrow> Exception option list \<Rightarrow> Exception list" where
  "filterActive e [] = []"
| "filterActive e (None # excs) = filterActive e excs"
| "filterActive e (Some exc # excs) =
     (if isExceptionActive e exc then exc # filterActive e excs else filterActive e excs)"

definition mergeInto :: "Exception \<Rightarrow> Exception \<Rightarrow> Exception" where
  "mergeInto merged m =
     merged\<lparr>ValidFrom := (if Before (ValidFrom m) (ValidFrom merged) then ValidFrom m else ValidFrom merged),
       ValidUntil := (if After (ValidUntil m) (ValidUntil merged) then ValidUntil m else ValidUntil merged),
       ex_Windows := ex_Windows merged @ ex_Windows m,
       LeadTime := (if LeadTime m > LeadTime merged then LeadTime m else LeadTime merged)\<rparr>"

definition mergeByType :: "Exception list \<Rightarrow> ExceptionType \<Rightarrow> Exception option" where
  "mergeByType exceptions t =
     (case filter (\<lambda>exc. ex_Type exc = t) exceptions of
        [] \<Rightarrow> None
      | [m] \<Rightarrow> Some m
      | m # ms \<Rightarrow>
          Some (foldl mergeInto
            \<lparr>ex_Type = t, ValidFrom = ValidFrom m, ValidUntil = ValidUntil m, LeadTime = 0,
             ex_Windows = []\<rparr> (m # ms)))"

definition applyExtend ::
    "ScheduleEvaluator \<Rightarrow> EvaluationResult \<Rightarrow> OffHourWindow list \<Rightarrow> string \<Rightarrow> EvaluationResult res" where
  "applyExtend e base exceptionWindows timezone =
     (case evaluateWindows e exceptionWindows timezone of
        Inl err \<Rightarrow> Inl (Wrap ''evaluate exception windows: '' err)
      | Inr exception \<Rightarrow>
          (let shouldHibernate = ShouldHibernate base \<or> ShouldHibernate exception in
           Inr \<lparr>ShouldHibernate = shouldHibernate,
             NextHibernateTime = earlierTime (NextHibernateTime base) (NextHibernateTime exception),
             NextWakeUpTime =
               (if \<not> IsZero (NextWakeUpTime base) \<and> isInTimeWindows exceptionWindows (NextWakeUpTime base)
                then NextWakeUpTime exception
                else earlierTime (NextWakeUpTime base) (NextWakeUpTime exception)),
             CurrentState = stateName shouldHibernate,
             InGracePeriod = InGracePeriod base \<or> InGracePeriod exception,
             GracePeriodEnd =
               (if InGracePeriod base \<and> InGracePeriod exception
                then earlierTime (GracePeriodEnd base) (GracePeriodEnd exception)
                else if InGracePeriod base then GracePeriodEnd base
                else if InGracePeriod exception then GracePeriodEnd exception
                else zeroTime)\<rparr>))"

text \<open>
  \<open>findNextSuspensionStart\<close>: the earliest start among the windows of today that have not
  begun and the windows of tomorrow.
\<close>

definition considerStart :: "Time \<Rightarrow> int \<Rightarrow> Time \<Rightarrow> OffHourWindow \<Rightarrow> Time" where
  "considerStart now daysAhead nextStart w =
     (let checkDay = AddDays now daysAhead in
      if \<not> dayMatch w (currentDay checkDay) then nextStart
      else (case parseTime (Start w) of
              Inl _ \<Rightarrow> nextStart
            | Inr (sh, sm) \<Rightarrow>
                (let startTime = DateOn (t_loc now) (day_no checkDay) sh sm 0 0 in
                 if daysAhead = 0 \<and> sh * 60 + sm \<le> minute_of_day now then nextStart
                 else if IsZero nextStart \<or> Before startTime nextStart then startTime
                 else nextStart)))"

definition findNextSuspensionStart :: "OffHourWindow list \<Rightarrow> Time \<Rightarrow> Time" where
  "findNextSuspensionStart windows now =
     foldl (considerStart now 1) (foldl (considerStart now 0) zeroTime windows) windows"

definition windowEnd :: "Time \<Rightarrow> OffHourWindow \<Rightarrow> Time" where
  "windowEnd now w =
     (case (parseTime (Start w), parseTime (End w)) of
        (Inr (sh, sm), Inr (eh, em)) \<Rightarrow>
          (let startMinutes = sh * 60 + sm; endMinutes = eh * 60 + em;
               endTime = DateOn (t_loc now) (day_no now) eh em 0 0
           in if endMinutes \<le> startMinutes \<and> startMinutes \<le> minute_of_day now
              then AddDur endTime (24 * Hour) else endTime)
      | _ \<Rightarrow> zeroTime)"

definition findSuspensionEnd :: "OffHourWindow list \<Rightarrow> Time \<Rightarrow> Time" where
  "findSuspensionEnd windows now =
     (case List.find (inWindow now) windows of None \<Rightarrow> zeroTime | Some w \<Rightarrow> windowEnd now w)"

text \<open>The rest of \<open>applySuspend\<close> once the three memberships are known.\<close>

definition suspendResult :: "EvaluationResult \<Rightarrow> OffHourWindow list \<Rightarrow> Time \<Rightarrow> bool \<Rightarrow> bool \<Rightarrow> bool \<Rightarrow>
    EvaluationResult" where
  "suspendResult base windows localNow inSuspensionWindow inSuspensionGrace inLeadTimeWindow =
     (let nextSuspStart = findNextSuspensionStart windows localNow;
          clusterWakesBeforeSusp = (\<not> IsZero nextSuspStart \<and> \<not> IsZero (NextWakeUpTime base) \<and>
            \<not> After (NextWakeUpTime base) nextSuspStart);
          shouldHibernate =
            (if inSuspensionWindow \<or> inSuspensionGrace then False
             else if inLeadTimeWindow \<and> \<not> ShouldHibernate base then ShouldHibernate base
             else if inLeadTimeWindow \<and> ShouldHibernate base
             then (if \<not> clusterWakesBeforeSusp then False else ShouldHibernate base)
             else ShouldHibernate base);
          suspensionEnd = findSuspensionEnd windows localNow;
          nextHibernate1 =
            (if (inSuspensionWindow \<or> inLeadTimeWindow \<or> inSuspensionGrace) \<and>
                \<not> IsZero suspensionEnd \<and> After suspensionEnd localNow \<and>
                (Before suspensionEnd (NextHibernateTime base) \<or> IsZero (NextHibernateTime base))
             then suspensionEnd else NextHibernateTime base);
          nextHibernate2 =
            (if \<not> shouldHibernate \<and> \<not> IsZero nextHibernate1 \<and> isInTimeWindows windows nextHibernate1 \<and>
                \<not> IsZero (findSuspensionEnd windows nextHibernate1)
             then findSuspensionEnd windows nextHibernate1 else nextHibernate1);
          nextWakeUp =
            (if shouldHibernate \<and> \<not> IsZero nextSuspStart
             then earlierTime (NextWakeUpTime base) nextSuspStart else NextWakeUpTime base)
      in \<lparr>ShouldHibernate = shouldHibernate, NextHibernateTime = nextHibernate2,
          NextWakeUpTime = nextWakeUp, CurrentState = stateName shouldHibernate,
          InGracePeriod = inSuspensionGrace, GracePeriodEnd = GracePeriodEnd base\<rparr>)"

definition applySuspend ::
    "ScheduleEvaluator \<Rightarrow> EvaluationResult \<Rightarrow> Exception \<Rightarrow> string \<Rightarrow> EvaluationResult res" where
  "applySuspend e base exception timezone =
     (case LoadLocation e timezone of
        Inl err \<Rightarrow> Inl (Wrap (''invalid timezone '' @ timezone @ '': '') err)
      | Inr l \<Rightarrow>
          (let localNow = InLoc (Now e) l; windows = ex_Windows exception in
           if windows = [] then Inr base
           else
             (let inSuspensionWindow = isInTimeWindows windows localNow;
                  grace = (if \<not> inSuspensionWindow \<and> scheduleBuffer e > 0
                           then isInGraceTimeWindow EndBoundary windows localNow (scheduleBuffer e)
                           else Inr False);
                  inLeadTimeWindow = (LeadTime exception > 0 \<and>
                     isInLeadTimeWindow windows localNow (LeadTime exception))
              in case grace of
                   Inl err \<Rightarrow> Inl err
                 | Inr inSuspensionGrace \<Rightarrow>
                     Inr (suspendResult base windows localNow inSuspensionWindow inSuspensionGrace
                            inLeadTimeWindow))))"

section \<open>The pipeline\<close>

type_synonym evaluationStep = "EvaluationResult option \<Rightarrow> (EvaluationResult option) res"

definition evaluateWhen :: "bool \<Rightarrow> evaluationStep \<Rightarrow> evaluationStep" where
  "evaluateWhen active fn = (if active then fn else Inr)"

fun runStages :: "EvaluationResult option \<Rightarrow> evaluationStep list \<Rightarrow> (EvaluationResult option) res" where
  "runStages result [] = Inr result"
| "runStages result (stage # stages) =
     (case stage result of Inl err \<Rightarrow> Inl err | Inr r \<Rightarrow> runStages r stages)"

definition runEvaluationPipeline :: "evaluationStep list \<Rightarrow> (EvaluationResult option) res" where
  "runEvaluationPipeline stages = runStages None stages"

text \<open>A stage that dereferences its input panics on nil.\<close>

definition onResult :: "(EvaluationResult \<Rightarrow> EvaluationResult res) \<Rightarrow> evaluationStep" where
  "onResult f prev =
     (case prev of None \<Rightarrow> Inl Panic
      | Some r \<Rightarrow> (case f r of Inl err \<Rightarrow> Inl err | Inr r' \<Rightarrow> Inr (Some r')))"

definition Evaluate :: "ScheduleEvaluator \<Rightarrow> OffHourWindow list \<Rightarrow> string \<Rightarrow> Exception option list \<Rightarrow>
    (EvaluationResult option) res" where
  "Evaluate e baseWindows timezone exceptions =
     (let activeExceptions = filterActive e exceptions;
          rep = mergeByType activeExceptions ExceptionReplace;
          ext = mergeByType activeExceptions ExceptionExtend;
          sus = mergeByType activeExceptions ExceptionSuspend
      in runEvaluationPipeline
           [\<lambda>_. (case evaluateWindows e (case rep of None \<Rightarrow> baseWindows | Some r \<Rightarrow> ex_Windows r) timezone of
                   Inl err \<Rightarrow> Inl err | Inr r \<Rightarrow> Inr (Some r)),
            evaluateWhen (ext \<noteq> None) (onResult (\<lambda>r. applyExtend e r (ex_Windows (the ext)) timezone)),
            evaluateWhen (sus \<noteq> None) (onResult (\<lambda>r. applySuspend e r (the sus) timezone))])"


section \<open>The last occurrence of a cron schedule\<close>

text \<open>
  What the cron library documents of \<open>Next\<close>: it reads the schedule in the location of the given
  time, and gives the first activation instant strictly after it, in the same location.  \<open>occ\<close> is
  the set of activation instants in the location \<open>loc\<close>; times of other locations are not
  constrained.
\<close>

definition fires :: "(int \<Rightarrow> int) \<Rightarrow> int set \<Rightarrow> cron_Schedule \<Rightarrow> bool" where
  "fires loc occ sched \<longleftrightarrow>
     (\<forall>t. t_loc t = loc \<longrightarrow> t_loc (sched t) = loc \<and> t_ns (sched t) \<in> occ \<and> t_ns t < t_ns (sched t) \<and>
          (\<forall>x\<in>occ. t_ns t < x \<longrightarrow> t_ns (sched t) \<le> x))"

text \<open>The latest activation in a half-open interval, or the given default if there is none.\<close>

definition latest_in :: "int set \<Rightarrow> int \<Rightarrow> int \<Rightarrow> int \<Rightarrow> int \<Rightarrow> bool" where
  "latest_in occ a b dflt x \<longleftrightarrow>
     (if \<exists>y\<in>occ. a < y \<and> y \<le> b then x \<in> occ \<and> a < x \<and> x \<le> b \<and> (\<forall>y\<in>occ. y \<le> b \<longrightarrow> y \<le> x)
      else x = dflt)"

lemma scanOccurrences_latest:
  assumes "fires loc occ sched" "t_loc cur = loc" "t_ns cur \<in> occ" "a < t_ns cur" "\<forall>x\<in>occ. a < x \<longrightarrow> t_ns cur \<le> x"
  shows "\<exists>r. scanOccurrences sched now dflt cur = Some r \<and> latest_in occ a (t_ns now) (t_ns dflt) (t_ns r)"
  using assms(2-)
proof (induction "nat (t_ns now - t_ns cur + 1)" arbitrary: cur dflt a rule: less_induct)
  case less
  show ?case
  proof (cases "t_ns cur \<le> t_ns now")
    case True
    have nx: "t_loc (sched cur) = loc" "t_ns (sched cur) \<in> occ" "t_ns cur < t_ns (sched cur)"
      "\<forall>x\<in>occ. t_ns cur < x \<longrightarrow> t_ns (sched cur) \<le> x"
      using assms(1) less.prems(1) by (auto simp: fires_def)
    have "nat (t_ns now - t_ns (sched cur) + 1) < nat (t_ns now - t_ns cur + 1)"
      using True nx(3) by linarith
    from less(1) [OF this nx] obtain r where
      r: "scanOccurrences sched now cur (sched cur) = Some r"
         "latest_in occ (t_ns cur) (t_ns now) (t_ns cur) (t_ns r)" by blast
    have "latest_in occ a (t_ns now) (t_ns dflt) (t_ns r)"
      using r(2) less.prems True by (fastforce simp: latest_in_def not_le split: if_splits)
    moreover have "scanOccurrences sched now dflt cur = Some r"
      using r(1) True by (subst scanOccurrences.simps) (auto simp: Before_def TimeEqual_def)
    ultimately show ?thesis by blast
  next
    case False
    then have "\<not> (\<exists>y\<in>occ. a < y \<and> y \<le> t_ns now)" using less.prems by fastforce
    then show ?thesis
      using False by (subst scanOccurrences.simps) (auto simp: Before_def TimeEqual_def latest_in_def)
  qed
qed

lemma findLastOccurrence_latest:
  assumes "fires (t_loc now) occ sched" "zero_ns \<le> t_ns now - 7 * 24 * Hour"
  shows "\<exists>r. findLastOccurrence sched now = Some r \<and>
     latest_in occ (t_ns now - 7 * 24 * Hour) (t_ns now) zero_ns (t_ns r)"
proof -
  have nx: "t_loc (sched t) = t_loc now" "t_ns (sched t) \<in> occ" "t_ns t < t_ns (sched t)"
    "\<forall>x\<in>occ. t_ns t < x \<longrightarrow> t_ns (sched t) \<le> x" if "t_loc t = t_loc now" for t
    using assms(1) that by (auto simp: fires_def)
  have loc: "t_loc (AddDur now d) = t_loc now" for d by (simp add: AddDur_def)
  obtain r where r: "scanOccurrences sched now zeroTime (sched (AddDur now (- 24 * Hour))) = Some r"
    "latest_in occ (t_ns (AddDur now (- 24 * Hour))) (t_ns now) (t_ns zeroTime) (t_ns r)"
    using scanOccurrences_latest [OF assms(1) nx [OF loc]] by blast
  obtain r' where r': "scanOccurrences sched now r (sched (AddDur now (- 7 * 24 * Hour))) = Some r'"
    "latest_in occ (t_ns (AddDur now (- 7 * 24 * Hour))) (t_ns now) (t_ns r) (t_ns r')"
    using scanOccurrences_latest [OF assms(1) nx [OF loc]] by blast
  show ?thesis
  proof (cases "IsZero r")
    case True
    then have "findLastOccurrence sched now = Some r'" using r(1) r'(1) by (simp add: findLastOccurrence_def)
    then show ?thesis using r'(2) True by (simp add: IsZero_def)
  next
    case False
    then have "findLastOccurrence sched now = Some r" using r(1) by (simp add: findLastOccurrence_def)
    moreover have "latest_in occ (t_ns now - 7 * 24 * Hour) (t_ns now) zero_ns (t_ns r)"
      using r(2) False by (auto simp: latest_in_def IsZero_def zeroTime_def split: if_splits)
    ultimately show ?thesis by blast
  qed
qed

text \<open>
  C19.  The search for the last occurrence ends, and gives the latest activation of the schedule
  in the past seven days, up to and including the present; if there is none it gives the zero
  time.  (The cron library is represented by its documented contract.)
\<close>

theorem findLastOccurrence_correct:
  assumes "fires (t_loc now) occ sched" "zero_ns \<le> t_ns now - 7 * 24 * Hour"
  shows "\<exists>r. findLastOccurrence sched now = Some r \<and>
     (if \<exists>y\<in>occ. t_ns now - 7 * 24 * Hour < y \<and> y \<le> t_ns now
      then t_ns r \<in> occ \<and> t_ns r \<le> t_ns now \<and> (\<forall>y\<in>occ. y \<le> t_ns now \<longrightarrow> y \<le> t_ns r)
      else IsZero r)"
proof -
  obtain r where "findLastOccurrence sched now = Some r"
     "latest_in occ (t_ns now - 7 * 24 * Hour) (t_ns now) zero_ns (t_ns r)"
    using findLastOccurrence_latest [OF assms] by blast
  then show ?thesis by (intro exI [of _ r]) (auto simp: latest_in_def IsZero_def split: if_splits)
qed

text \<open>A schedule that fires every day at a given instant of the (UTC) day.\<close>

definition daily :: "int \<Rightarrow> cron_Schedule" where
  "daily a t = t\<lparr>t_ns := ((t_ns t - a) div (24 * Hour) + 1) * (24 * Hour) + a\<rparr>"

lemma daily_fires: "fires loc {k * (24 * Hour) + a | k. True} (daily a)"
proof -
  have "x < (x div n + 1) * n" if "0 < n" for x n :: int
    using div_mult_mod_eq [of x n] pos_mod_bound [OF that, of x] unfolding distrib_right by linarith
  then have later: "t_ns t < t_ns (daily a t)" for t
    using diff_less_eq [of "t_ns t" a] by (simp add: daily_def diff_less_eq)
  have first: "t_ns (daily a t) \<le> k * (24 * Hour) + a" if "t_ns t < k * (24 * Hour) + a" for t k
  proof -
    have "(t_ns t - a) div (24 * Hour) < k" using that by (simp add: int_div_less_self zdiv_mono1 div_less_iff_less_mult)
    then show ?thesis by (simp add: daily_def)
  qed
  show ?thesis unfolding fires_def
  proof (intro allI conjI ballI impI)
    fix t
    show "t_ns (daily a t) \<in> {k * (24 * Hour) + a | k. True}"
      by (auto simp: daily_def intro!: exI [of _ "(t_ns t - a) div (24 * Hour) + 1"])
    show "t_loc t = loc \<Longrightarrow> t_loc (daily a t) = loc" by (simp add: daily_def)
  qed (use later first in auto)
qed

lemma findLastOccurrence_correct_witness:
  "\<exists>r. findLastOccurrence (daily (6 * Hour)) \<lparr>t_ns = 20 * (24 * Hour) + 7 * Hour, t_loc = UTC\<rparr> = Some r \<and>
     t_ns r = 20 * (24 * Hour) + 6 * Hour"
proof -
  let ?occ = "{k * (24 * Hour) + 6 * Hour | k. True}"
  let ?now = "\<lparr>t_ns = 20 * (24 * Hour) + 7 * Hour, t_loc = UTC\<rparr>"
  obtain r where r: "findLastOccurrence (daily (6 * Hour)) ?now = Some r"
    "if \<exists>y\<in>?occ. t_ns ?now - 7 * 24 * Hour < y \<and> y \<le> t_ns ?now
      then t_ns r \<in> ?occ \<and> t_ns r \<le> t_ns ?now \<and> (\<forall>y\<in>?occ. y \<le> t_ns ?now \<longrightarrow> y \<le> t_ns r) else IsZero r"
    using findLastOccurrence_correct [OF daily_fires, of ?now "6 * Hour"] by (auto simp: zero_ns_def)
  have i: "20 * (24 * Hour) + 6 * Hour \<in> ?occ" by blast
  have "\<exists>y\<in>?occ. t_ns ?now - 7 * 24 * Hour < y \<and> y \<le> t_ns ?now"
    by (rule bexI [OF _ i]) simp
  then have "t_ns r \<in> ?occ" "t_ns r \<le> t_ns ?now" "20 * (24 * Hour) + 6 * Hour \<le> t_ns r"
    using r(2) i by auto
  then have "t_ns r = 20 * (24 * Hour) + 6 * Hour" by fastforce
  then show ?thesis using r(1) by blast
qed


section \<open>One window against the clock\<close>

text \<open>
  The activation instants of the cron expression "m h * * days" in a location with a fixed
  offset: that minute on every listed weekday.
\<close>

definition cron_instants :: "int \<Rightarrow> string list \<Rightarrow> int \<Rightarrow> int \<Rightarrow> int set" where
  "cron_instants off days h m =
     {(d * 86400 + (h * 60 + m) * 60 - off) * Second | d.
        list_ex (\<lambda>s. int (day_number s) = (d + 4) mod 7) days}"

text \<open>
  The cron parser understands the expressions the code generates for a window: given times in the
  location of the window, the schedule fires at that location's instants.
\<close>

definition cron_contract :: "ScheduleEvaluator \<Rightarrow> int \<Rightarrow> string list \<Rightarrow> int \<Rightarrow> int \<Rightarrow> bool" where
  "cron_contract e off days h m \<longleftrightarrow>
     (\<exists>sched. parser e (cronExpr m h (join '','' (map (show_nat \<circ> day_number) days))) = Inr sched \<and>
        fires (\<lambda>_. off) (cron_instants off days h m) sched)"

lemma currentDay_number: "map_of dayMap (currentDay t) = Some (nat (Weekday t))"
proof -
  have "nat (Weekday t) \<in> {0, 1, 2, 3, 4, 5, 6}" using Weekday_range [of t] by auto
  then show ?thesis unfolding currentDay_def by (auto simp: dayMap_def)
qed

lemma to_upper_day: "map_of dayMap k = Some n \<Longrightarrow> ToUpper k = k"
  by (auto simp: dayMap_def ToUpper_def to_upper_def split: if_splits)

lemma dayMap_inj: "map_of dayMap k = Some n \<Longrightarrow> map_of dayMap k' = Some n \<Longrightarrow> k = k'"
  by (auto simp: dayMap_def split: if_splits)

lemma EqualFold_day:
  assumes "valid_day d"
  shows "EqualFold d (currentDay t) \<longleftrightarrow> int (day_number d) = Weekday t"
proof -
  have c: "map_of dayMap (currentDay t) = Some (nat (Weekday t))" by (rule currentDay_number)
  obtain n where n: "map_of dayMap (ToUpper d) = Some n" using assms by (auto simp: valid_day_def)
  have "EqualFold d (currentDay t) \<longleftrightarrow> ToUpper d = currentDay t"
    using to_upper_day [OF c] by (simp add: EqualFold_def)
  also have "\<dots> \<longleftrightarrow> n = nat (Weekday t)" using n c dayMap_inj by fastforce
  finally show ?thesis using n Weekday_range [of t] by (auto simp: day_number_def)
qed

lemma dayMatch_number:
  "list_all valid_day (DaysOfWeek w) \<Longrightarrow>
     dayMatch w (currentDay t) \<longleftrightarrow> list_ex (\<lambda>s. int (day_number s) = Weekday t) (DaysOfWeek w)"
  by (auto simp: dayMatch_def list_ex_iff list_all_iff EqualFold_day)

definition clock_minute :: "Time \<Rightarrow> int" where
  "clock_minute t = day_no t * 1440 + minute_of_day t"

lemma instant_le:
  assumes "t_loc n = (\<lambda>_. off)"
  shows "(d * 86400 + m * 60 - off) * Second \<le> t_ns n \<longleftrightarrow> d * 1440 + m \<le> clock_minute n"
proof -
  have "(d * 86400 + m * 60 - off) * Second \<le> t_ns n \<longleftrightarrow> d * 86400 + m * 60 - off \<le> t_ns n div Second"
    by (simp add: le_div_int)
  also have "\<dots> \<longleftrightarrow> (d * 1440 + m) * 60 \<le> local_sec n"
    using assms by (simp add: local_sec_def unix_sec_def algebra_simps)
  also have "\<dots> \<longleftrightarrow> d * 1440 + m \<le> local_sec n div 60" by (simp add: le_div_int)
  also have "local_sec n div 60 = clock_minute n"
  proof -
    have "(local_sec n mod 86400 + local_sec n div 86400 * 1440 * 60) div 60 =
        local_sec n div 86400 * 1440 + local_sec n mod 86400 div 60"
      by (rule div_mult_self1) simp
    moreover have "local_sec n mod 86400 + local_sec n div 86400 * 1440 * 60 = local_sec n"
      using div_mult_mod_eq [of "local_sec n" 86400] by linarith
    ultimately show ?thesis by (simp add: clock_minute_def day_no_def minute_of_day_eq)
  qed
  finally show ?thesis .
qed

text \<open>
  Which boundary of a window within one day came last: the comparison of the two cron schedules
  agrees with the clock.
\<close>

lemma last_boundary:
  assumes loc: "t_loc n = (\<lambda>_. off)" and z: "z \<le> a" "a \<le> t_ns n - 24 * Hour"
    and se: "0 \<le> sh * 60 + sm" "sh * 60 + sm < eh * 60 + em" "eh * 60 + em < 1440"
    and h: "latest_in (cron_instants off days sh sm) a (t_ns n) z hib"
    and w: "latest_in (cron_instants off days eh em) a (t_ns n) z wake"
  shows "wake < hib \<longleftrightarrow>
     list_ex (\<lambda>s. int (day_number s) = Weekday n) days \<and>
     sh * 60 + sm \<le> minute_of_day n \<and> minute_of_day n < eh * 60 + em" (is "_ \<longleftrightarrow> ?in")
proof
  let ?i = "\<lambda>d h m. (d * 86400 + (h * 60 + m) * 60 - off) * Second"
  let ?on = "\<lambda>d. list_ex (\<lambda>s. int (day_number s) = (d + 4) mod 7) days"
  have le: "?i d h m \<le> t_ns n \<longleftrightarrow> d * 1440 + (h * 60 + m) \<le> day_no n * 1440 + minute_of_day n" for d h m
    using instant_le [OF loc, of d "h * 60 + m"] by (simp add: clock_minute_def)
  have mem: "x \<in> cron_instants off days h m \<longleftrightarrow> (\<exists>d. ?on d \<and> x = ?i d h m)" for x h m
    by (auto simp: cron_instants_def)
  note r = minute_of_day_range [of n, THEN conjunct1] minute_of_day_range [of n, THEN conjunct2]
  show ?in if "wake < hib"
  proof (rule ccontr)
    assume out: "\<not> ?in"
    have "z \<le> wake" using w z by (auto simp: latest_in_def split: if_splits)
    then have hib: "hib \<in> cron_instants off days sh sm" "a < hib" "hib \<le> t_ns n"
      using h \<open>wake < hib\<close> by (auto simp: latest_in_def split: if_splits)
    then obtain d where d: "?on d" "hib = ?i d sh sm" using mem by blast
    have "d * 1440 + (sh * 60 + sm) \<le> day_no n * 1440 + minute_of_day n" using hib(3) d(2) le by simp
    then have "d * 1440 + (eh * 60 + em) \<le> day_no n * 1440 + minute_of_day n"
      using out d(1) se r by (cases "d = day_no n") (auto simp: Weekday_def)
    then have "?i d eh em \<le> t_ns n" using le by blast
    moreover have "hib < ?i d eh em" using d(2) se by simp
    ultimately have "?i d eh em \<le> wake"
      using w hib(2) d(1) mem [of "?i d eh em" eh em] by (force simp: latest_in_def split: if_splits)
    then show False using \<open>hib < ?i d eh em\<close> \<open>wake < hib\<close> by linarith
  qed
  show "wake < hib" if i: ?in
  proof -
    let ?t = "?i (day_no n) sh sm"
    have "\<not> ?i (day_no n + 1) sh sm \<le> t_ns n" unfolding le using se(1) r by (simp add: distrib_right)
    then have "a < ?t" using z(2) by (simp add: algebra_simps)
    moreover have "?t \<le> t_ns n" using i le by simp
    moreover have "?t \<in> cron_instants off days sh sm" using i mem by (auto simp: Weekday_def)
    ultimately have hib: "?t \<le> hib" using h by (auto simp: latest_in_def split: if_splits)
    show ?thesis
    proof (cases "wake = z")
      case False
      then obtain d where d: "wake = ?i d eh em" "wake \<le> t_ns n"
        using w mem by (auto simp: latest_in_def split: if_splits)
      then have "d * 1440 + (eh * 60 + em) \<le> day_no n * 1440 + minute_of_day n" using le by blast
      then have "d + 1 \<le> day_no n" using i se r by linarith
      then have "d * 86400 + (eh * 60 + em) * 60 < day_no n * 86400 + (sh * 60 + sm) * 60" using se by (simp add: algebra_simps)
      then have "wake < ?t" unfolding d(1) by (intro mult_strict_right_mono) auto
      then show ?thesis using hib by linarith
    qed (use z \<open>a < ?t\<close> hib in linarith)
  qed
qed


text \<open>
  C7.  For a window that starts and ends on the same day, in a location with a fixed offset (no
  daylight saving) and with a schedule buffer of zero, comparing the last activations of the two generated cron
  expressions says "hibernate" exactly when the present moment is inside the window.
\<close>

theorem evalOne_agrees_with_window:
  assumes "LoadLocation e timezone = Inr (\<lambda>_. off)"
    and "cron_contract e off (DaysOfWeek w) sh sm \<and> cron_contract e off (DaysOfWeek w) eh em"
    and "DaysOfWeek w \<noteq> []" "list_all valid_day (DaysOfWeek w)"
    and "parseTime (Start w) = Inr (sh, sm)" "parseTime (End w) = Inr (eh, em)"
    and "sh * 60 + sm < eh * 60 + em"
    and "scheduleBuffer e = 0" "zero_ns \<le> t_ns (Now e) - 7 * 24 * Hour"
  shows "\<exists>r. evalOne e timezone w = Inr r \<and>
     (ShouldHibernate r \<longleftrightarrow> isInTimeWindows [w] (InLoc (Now e) (\<lambda>_. off)))"
proof -
  let ?now = "InLoc (Now e) (\<lambda>_. off)" and ?days = "DaysOfWeek w"
  let ?dow = "join '','' (map (show_nat \<circ> day_number) ?days)"
  note s = parseTime_range [OF assms(5)] and t = parseTime_range [OF assms(6)]
  have cron: "ParseWindowToCron (Start w) (End w) ?days = Inr (cronExpr sm sh ?dow, cronExpr em eh ?dow)"
    using assms(3-7) by (auto simp: ParseWindowToCron_def convertDaysToCron_def cronDays_ok)
  obtain hs ws where sched: "parser e (cronExpr sm sh ?dow) = Inr hs" "parser e (cronExpr em eh ?dow) = Inr ws"
    "fires (t_loc ?now) (cron_instants off ?days sh sm) hs" "fires (t_loc ?now) (cron_instants off ?days eh em) ws"
    using assms(2) by (auto simp: cron_contract_def InLoc_def)
  have z: "zero_ns \<le> t_ns ?now - 7 * 24 * Hour" using assms(9) by simp
  obtain hib wake where last: "findLastOccurrence hs ?now = Some hib" "findLastOccurrence ws ?now = Some wake"
    "latest_in (cron_instants off ?days sh sm) (t_ns ?now - 7 * 24 * Hour) (t_ns ?now) zero_ns (t_ns hib)"
    "latest_in (cron_instants off ?days eh em) (t_ns ?now - 7 * 24 * Hour) (t_ns ?now) zero_ns (t_ns wake)"
    using findLastOccurrence_latest [OF sched(3) z] findLastOccurrence_latest [OF sched(4) z] by blast
  obtain r where r: "evalOne e timezone w = Inr r" "ShouldHibernate r = After hib wake"
    using cron sched last(1,2) assms(1,8) by (simp add: evalOne_def eval_window_def evalGrace_def Let_def)
  have "After hib wake \<longleftrightarrow> list_ex (\<lambda>s. int (day_number s) = Weekday ?now) ?days \<and>
     sh * 60 + sm \<le> minute_of_day ?now \<and> minute_of_day ?now < eh * 60 + em"
    unfolding After_def
    by (rule last_boundary [OF _ z _ _ _ _ last(3,4)]) (use s t assms(7) in auto)
  also have "\<dots> \<longleftrightarrow> isInTimeWindows [w] ?now"
    using assms(4-7) by (simp add: isInTimeWindows_def inWindow_def inMinutes_def dayMatch_number)
  finally show ?thesis using r by blast
qed


definition allDays :: "string list" where
  "allDays = [''SUN'', ''MON'', ''TUE'', ''WED'', ''THU'', ''FRI'', ''SAT'']"

definition dailyEvaluator :: "Time \<Rightarrow> ScheduleEvaluator" where
  "dailyEvaluator now =
     \<lparr>Now = now,
      parser = (\<lambda>s. if s = ''0 6 * * 0,1,2,3,4,5,6'' then Inr (daily (6 * Hour))
                    else if s = ''30 8 * * 0,1,2,3,4,5,6'' then Inr (daily (8 * Hour + 30 * Minute))
                    else Inl (ErrMsg ''bad expression'')),
      LoadLocation = (\<lambda>_. Inr UTC), scheduleBuffer = 0\<rparr>"

lemma allDays_facts:
  "list_all valid_day allDays" "map day_number allDays = [0, 1, 2, 3, 4, 5, 6]" "allDays \<noteq> []"
  by code_simp+

lemma cron_instants_allDays:
  "cron_instants 0 allDays h m = {k * (24 * Hour) + (h * Hour + m * Minute) | k. True}"
proof -
  have "list_ex (\<lambda>s. int (day_number s) = (d + 4) mod 7) allDays" for d
  proof -
    have "(d + 4) mod 7 \<in> {0, 1, 2, 3, 4, 5, 6}" by auto
    then have "list_ex (\<lambda>n. int n = (d + 4) mod 7) (map day_number allDays)"
      unfolding allDays_facts by auto
    then show ?thesis by (simp add: list.pred_map list_ex_iff)
  qed
  then show ?thesis by (auto simp: cron_instants_def algebra_simps intro: exI)
qed

lemma daily_cron_contract:
  assumes "parser e (cronExpr m h ''0,1,2,3,4,5,6'') = Inr (daily (h * Hour + m * Minute))"
  shows "cron_contract e 0 allDays h m"
proof -
  have "join '','' (map (show_nat \<circ> day_number) allDays) = ''0,1,2,3,4,5,6''" by code_simp
  then show ?thesis
    using assms daily_fires unfolding cron_contract_def cron_instants_allDays by auto
qed

theorem evalOne_agrees_with_window_witness:
  "\<exists>r. evalOne (dailyEvaluator \<lparr>t_ns = 20 * (24 * Hour) + 7 * Hour, t_loc = UTC\<rparr>) ''UTC''
        \<lparr>Start = ''06:00'', End = ''08:30'', DaysOfWeek = allDays\<rparr> = Inr r \<and> ShouldHibernate r"
proof -
  let ?now = "\<lparr>t_ns = 20 * (24 * Hour) + 7 * Hour, t_loc = UTC\<rparr>"
  let ?w = "\<lparr>Start = ''06:00'', End = ''08:30'', DaysOfWeek = allDays\<rparr>"
  have e: "cronExpr 0 6 ''0,1,2,3,4,5,6'' = ''0 6 * * 0,1,2,3,4,5,6''"
    "cronExpr 30 8 ''0,1,2,3,4,5,6'' = ''30 8 * * 0,1,2,3,4,5,6''" by code_simp+
  have "cron_contract (dailyEvaluator ?now) 0 allDays 6 0" "cron_contract (dailyEvaluator ?now) 0 allDays 8 30"
    by (rule daily_cron_contract; simp add: e dailyEvaluator_def)+
  moreover have "parseTime ''06:00'' = Inr (6, 0)" "parseTime ''08:30'' = Inr (8, 30)" by code_simp+
  moreover have "isInTimeWindows [?w] (InLoc ?now UTC)" by code_simp
  ultimately show ?thesis
    using evalOne_agrees_with_window [of "dailyEvaluator ?now" "''UTC''" 0 ?w 6 0 8 30] allDays_facts
    by (simp add: dailyEvaluator_def UTC_def zero_ns_def)
qed


section \<open>Combining windows\<close>

text \<open>
  The contract of a minimum over times in which the zero time means "no event": the clients only
  rely on these laws.
\<close>

locale earliest_event =
  fixes mn :: "Time \<Rightarrow> Time \<Rightarrow> Time"
  assumes zero_left: "IsZero a \<Longrightarrow> mn a b = b"
    and zero_right: "\<not> IsZero a \<Longrightarrow> IsZero b \<Longrightarrow> mn a b = a"
    and least: "\<not> IsZero a \<Longrightarrow> \<not> IsZero b \<Longrightarrow> mn a b \<in> {a, b} \<and> t_ns (mn a b) = min (t_ns a) (t_ns b)"
begin

lemma IsZero_mn: "IsZero (mn a b) \<longleftrightarrow> IsZero a \<and> IsZero b"
  using zero_left [of a b] zero_right [of a b] least [of a b]
  by (cases "IsZero a"; cases "IsZero b") auto

lemma mn_le: "\<not> IsZero a \<Longrightarrow> t_ns (mn a b) \<le> t_ns a" "\<not> IsZero b \<Longrightarrow> t_ns (mn a b) \<le> t_ns b"
  using zero_left [of a b] zero_right [of a b] least [of a b] by (cases "IsZero a"; cases "IsZero b"; auto)+

lemma mn_one_of: "mn a b = a \<or> mn a b = b"
  using zero_left [of a b] zero_right [of a b] least [of a b] by auto

text \<open>The minimum of a list of events: zero exactly when no event is set, else the earliest.\<close>

lemma foldl_mn:
  "IsZero (foldl mn a ts) \<longleftrightarrow> IsZero a \<and> list_all IsZero ts"
  "foldl mn a ts \<in> set (a # ts)"
  "\<not> IsZero t \<Longrightarrow> t \<in> set (a # ts) \<Longrightarrow> t_ns (foldl mn a ts) \<le> t_ns t"
proof -
  show "IsZero (foldl mn a ts) \<longleftrightarrow> IsZero a \<and> list_all IsZero ts"
    by (induction ts arbitrary: a) (auto simp: IsZero_mn)
  show "foldl mn a ts \<in> set (a # ts)"
  proof (induction ts arbitrary: a)
    case (Cons x xs)
    then show ?case using mn_one_of [of a x] Cons [of "mn a x"] by (metis foldl_Cons insert_iff list.set(2))
  qed simp
  show "t_ns (foldl mn a ts) \<le> t_ns t" if "\<not> IsZero t" "t \<in> set (a # ts)"
    using that
  proof (induction ts arbitrary: a t)
    case (Cons x xs)
    show ?case
    proof (cases "t \<in> set xs")
      case False
      then have t: "t = a \<or> t = x" using Cons.prems by auto
      then have "\<not> IsZero (mn a x)" "t_ns (mn a x) \<le> t_ns t"
        using Cons.prems(1) mn_le [of a x] mn_le [of x a] by (auto simp: IsZero_mn)
      then show ?thesis using Cons.IH [of "mn a x" "mn a x"] by auto
    qed (use Cons in auto)
  qed simp
qed

end

interpretation earlier: earliest_event earlierTime
  by unfold_locales (auto simp: earlierTime_def Before_def min_def)

lemma evalLoop_combines:
  assumes "evalLoop e tz c ws = Inr r"
  shows "\<exists>rs. list_all2 (\<lambda>w r. evalOne e tz w = Inr r) ws rs \<and>
     r = (case c of None \<Rightarrow> (case rs of [] \<Rightarrow> None | x # xs \<Rightarrow> Some (foldl combineResults x xs))
          | Some x \<Rightarrow> Some (foldl combineResults x rs))"
  using assms
proof (induction ws arbitrary: c)
  case Nil
  then show ?case by (auto split: option.splits)
next
  case (Cons w ws)
  then obtain x where x: "evalOne e tz w = Inr x" by (auto split: sum.splits)
  from Cons.IH [of "Some (case c of None \<Rightarrow> x | Some y \<Rightarrow> combineResults y x)"] Cons.prems x
  obtain rs where "list_all2 (\<lambda>w r. evalOne e tz w = Inr r) ws rs"
    "r = Some (foldl combineResults (case c of None \<Rightarrow> x | Some y \<Rightarrow> combineResults y x) rs)" by auto
  then show ?case using x by (intro exI [of _ "x # rs"]) (auto split: option.splits)
qed

lemma evaluateWindows_combines:
  assumes "evaluateWindows e ws tz = Inr r" "ws \<noteq> []"
  shows "\<exists>x xs. list_all2 (\<lambda>w r. evalOne e tz w = Inr r) ws (x # xs) \<and> r = foldl combineResults x xs"
proof -
  obtain rs where "list_all2 (\<lambda>w r. evalOne e tz w = Inr r) ws rs"
    "Some r = (case rs of [] \<Rightarrow> None | x # xs \<Rightarrow> Some (foldl combineResults x xs))"
    using assms evalLoop_combines [of e tz None ws "Some r"]
    by (auto simp: evaluateWindows_def split: sum.splits option.splits)
  then show ?thesis by (auto split: list.splits)
qed

lemma foldl_combine:
  "ShouldHibernate (foldl combineResults x xs) \<longleftrightarrow> list_ex ShouldHibernate (x # xs)"
  "InGracePeriod (foldl combineResults x xs) \<longleftrightarrow> list_ex InGracePeriod (x # xs)"
  "NextHibernateTime (foldl combineResults x xs) =
     foldl earlierTime (NextHibernateTime x) (map NextHibernateTime xs)"
  "NextWakeUpTime (foldl combineResults x xs) = foldl earlierTime (NextWakeUpTime x) (map NextWakeUpTime xs)"
  by (induction xs arbitrary: x) (auto simp: combineResults_def Let_def)


definition window_on :: "ScheduleEvaluator \<Rightarrow> string \<Rightarrow> OffHourWindow \<Rightarrow> bool" where
  "window_on e timezone w = (case evalOne e timezone w of Inl _ \<Rightarrow> False | Inr r \<Rightarrow> ShouldHibernate r)"

lemma evaluateWindows_union:
  assumes "evaluateWindows e ws tz = Inr r"
  shows "ShouldHibernate r \<longleftrightarrow> list_ex (window_on e tz) ws"
proof (cases "ws = []")
  case False
  then obtain x xs where x: "list_all2 (\<lambda>w r. evalOne e tz w = Inr r) ws (x # xs)"
    "r = foldl combineResults x xs" using evaluateWindows_combines [OF assms] by blast
  have "list_all2 (\<lambda>w r. evalOne e tz w = Inr r) ws rs \<Longrightarrow>
      list_ex ShouldHibernate rs \<longleftrightarrow> list_ex (window_on e tz) ws" for rs
    by (induction rule: list_all2_induct) (auto simp: window_on_def)
  from this [OF x(1)] show ?thesis using x(2) by (simp add: foldl_combine)
qed (use assms in \<open>auto simp: evaluateWindows_def noWindows_def\<close>)

section \<open>Merging exceptions\<close>

definition of_type :: "ExceptionType \<Rightarrow> Exception list \<Rightarrow> Exception list" where
  "of_type t excs = filter (\<lambda>exc. ex_Type exc = t) excs"

definition windows_of :: "ExceptionType \<Rightarrow> Exception list \<Rightarrow> OffHourWindow list" where
  "windows_of t excs = concat (map ex_Windows (of_type t excs))"

lemma foldl_mergeInto:
  "ex_Windows (foldl mergeInto m ms) = ex_Windows m @ concat (map ex_Windows ms)"
  "ex_Type (foldl mergeInto m ms) = ex_Type m"
  "LeadTime (foldl mergeInto m ms) = Max (set (LeadTime m # map LeadTime ms))"
  "t_ns (ValidFrom (foldl mergeInto m ms)) = Min (set (t_ns (ValidFrom m) # map (t_ns \<circ> ValidFrom) ms))"
  "t_ns (ValidUntil (foldl mergeInto m ms)) = Max (set (t_ns (ValidUntil m) # map (t_ns \<circ> ValidUntil) ms))"
proof (induction ms arbitrary: m)
  case (Cons x xs)
  {
    case 3
    show ?case using Cons.IH(3) [of "mergeInto m x"]
      by (cases "xs = []") (auto simp: mergeInto_def max_def)
  next
    case 4
    show ?case using Cons.IH(4) [of "mergeInto m x"]
      by (cases "xs = []") (auto simp: mergeInto_def Before_def min_def)
  next
    case 5
    show ?case using Cons.IH(5) [of "mergeInto m x"]
      by (cases "xs = []") (auto simp: mergeInto_def After_def max_def)
  }
qed (auto simp: mergeInto_def)

lemma mergeByType_None: "mergeByType excs t = None \<longleftrightarrow> of_type t excs = []"
  by (auto simp: mergeByType_def of_type_def split: list.splits)

lemma mergeByType_windows: "mergeByType excs t = Some m \<Longrightarrow> ex_Windows m = windows_of t excs"
  unfolding mergeByType_def windows_of_def of_type_def
  by (auto split: list.splits simp: foldl_mergeInto simp del: foldl_Cons)

lemma set_filterActive: "exc \<in> set (filterActive e excs) \<longleftrightarrow> Some exc \<in> set excs \<and> isExceptionActive e exc"
  by (induction e excs rule: filterActive.induct) auto

text \<open>
  Merging the exceptions of a type concatenates their windows in order, widens the validity
  period to the earliest start and the latest end, and takes the longest lead time (for a single
  exception, its own; never below zero for several); it gives nothing exactly when there is none.
\<close>

lemma mergeByType_widest:
  "(case mergeByType excs t of
      None \<Rightarrow> of_type t excs = []
    | Some m \<Rightarrow> of_type t excs \<noteq> [] \<and> ex_Type m = t \<and> ex_Windows m = windows_of t excs \<and>
        t_ns (ValidFrom m) = Min (set (map (t_ns \<circ> ValidFrom) (of_type t excs))) \<and>
        t_ns (ValidUntil m) = Max (set (map (t_ns \<circ> ValidUntil) (of_type t excs))) \<and>
        LeadTime m = (if length (of_type t excs) = 1 then LeadTime (hd (of_type t excs))
                      else Max (insert 0 (set (map LeadTime (of_type t excs))))))"
proof -
  have ty: "x \<in> set (of_type t excs) \<Longrightarrow> ex_Type x = t" for x by (simp add: of_type_def)
  show ?thesis
  proof (cases "of_type t excs" rule: remdups_adj.cases)
    case (2 x)
    then show ?thesis using ty by (simp add: mergeByType_def windows_of_def of_type_def [symmetric])
  next
    case (3 x y xs)
    then show ?thesis
      by (auto simp: mergeByType_def windows_of_def of_type_def [symmetric] foldl_mergeInto
          simp del: foldl_Cons)
  qed (simp add: mergeByType_def of_type_def [symmetric])
qed


section \<open>The pipeline with exceptions\<close>

text \<open>
  The abstract rule: replacement windows (or else the base) together with the extension windows
  ask for hibernation.
\<close>

definition hibernation_windows :: "ScheduleEvaluator \<Rightarrow> OffHourWindow list \<Rightarrow> Exception option list \<Rightarrow>
    OffHourWindow list" where
  "hibernation_windows e baseWindows exceptions =
     (let act = filterActive e exceptions in
      (if of_type ExceptionReplace act = [] then baseWindows else windows_of ExceptionReplace act)
      @ windows_of ExceptionExtend act)"

definition suspension_windows :: "ScheduleEvaluator \<Rightarrow> Exception option list \<Rightarrow> OffHourWindow list" where
  "suspension_windows e exceptions = windows_of ExceptionSuspend (filterActive e exceptions)"

lemma windows_of_Nil: "of_type t excs = [] \<Longrightarrow> windows_of t excs = []"
  by (simp add: windows_of_def)

lemma applyExtend_or:
  assumes "applyExtend e b ws tz = Inr r"
  shows "ShouldHibernate r \<longleftrightarrow> ShouldHibernate b \<or> list_ex (window_on e tz) ws"
    and "CurrentState r = stateName (ShouldHibernate r)"
  using assms evaluateWindows_union [of e ws tz]
  by (auto simp: applyExtend_def Let_def split: sum.splits)

text \<open>The pipeline in two halves: the hibernation side, then the carve-out.\<close>

lemma Evaluate_split:
  assumes "Evaluate e bw tz excs = Inr r"
  obtains r1 r2 where "r = Some r2" "ShouldHibernate r1 \<longleftrightarrow> list_ex (window_on e tz) (hibernation_windows e bw excs)"
    "case mergeByType (filterActive e excs) ExceptionSuspend of None \<Rightarrow> r2 = r1
     | Some s \<Rightarrow> applySuspend e r1 s tz = Inr r2"
proof -
  let ?act = "filterActive e excs"
  let ?bw = "case mergeByType ?act ExceptionReplace of None \<Rightarrow> bw | Some m \<Rightarrow> ex_Windows m"
  have bw: "?bw = (if of_type ExceptionReplace ?act = [] then bw else windows_of ExceptionReplace ?act)"
    using mergeByType_None [of ?act ExceptionReplace]
    by (auto split: option.splits simp: mergeByType_windows)
  obtain r0 where r0: "evaluateWindows e ?bw tz = Inr r0"
    using assms by (auto simp: Evaluate_def runEvaluationPipeline_def Let_def split: sum.splits)
  obtain r1 where r1: "ShouldHibernate r1 \<longleftrightarrow> list_ex (window_on e tz) (hibernation_windows e bw excs)"
    "evaluateWhen (mergeByType ?act ExceptionSuspend \<noteq> None)
       (onResult (\<lambda>r. applySuspend e r (the (mergeByType ?act ExceptionSuspend)) tz)) (Some r1) = Inr r"
  proof (cases "mergeByType ?act ExceptionExtend")
    case None
    then have "windows_of ExceptionExtend ?act = []" by (simp add: mergeByType_None windows_of_Nil)
    then show thesis
      using assms r0 None that [of r0] evaluateWindows_union [OF r0] bw
      by (auto simp: Evaluate_def runEvaluationPipeline_def Let_def evaluateWhen_def hibernation_windows_def
          split: sum.splits)
  next
    case (Some m)
    then obtain r1 where r1: "applyExtend e r0 (windows_of ExceptionExtend ?act) tz = Inr r1"
      using assms r0 mergeByType_windows [OF Some]
      by (auto simp: Evaluate_def runEvaluationPipeline_def Let_def evaluateWhen_def onResult_def
          split: sum.splits)
    then have "ShouldHibernate r1 \<longleftrightarrow> list_ex (window_on e tz) (hibernation_windows e bw excs)"
      using evaluateWindows_union [OF r0] bw by (simp add: applyExtend_or hibernation_windows_def Let_def)
    then show thesis
      using that [of r1] assms r0 r1 Some mergeByType_windows [OF Some]
      by (auto simp: Evaluate_def runEvaluationPipeline_def Let_def evaluateWhen_def onResult_def
          split: sum.splits)
  qed
  then show thesis
    using that by (cases "mergeByType ?act ExceptionSuspend")
      (auto simp: evaluateWhen_def onResult_def split: sum.splits)
qed


lemma applySuspend_never_adds:
  "applySuspend e b exc tz = Inr r \<Longrightarrow> ShouldHibernate r \<Longrightarrow> ShouldHibernate b"
  by (auto simp: applySuspend_def suspendResult_def Let_def split: sum.splits if_splits)

lemma applySuspend_inside:
  "applySuspend e b exc tz = Inr r \<Longrightarrow> LoadLocation e tz = Inr l \<Longrightarrow>
     isInTimeWindows (ex_Windows exc) (InLoc (Now e) l) \<Longrightarrow> \<not> ShouldHibernate r"
  by (auto simp: applySuspend_def suspendResult_def Let_def isInTimeWindows_def split: sum.splits if_splits)

lemma applySuspend_empty: "applySuspend e b exc tz = Inr r \<Longrightarrow> ex_Windows exc = [] \<Longrightarrow> r = b"
  by (auto simp: applySuspend_def Let_def split: sum.splits)

text \<open>
  C5.  A successful evaluation says "hibernate" only if one of the windows in force does: the
  base windows, or those of the active replace exceptions instead, together with those of the
  active extend exceptions.  Without an active suspension window it says so exactly then, and
  inside an active suspension window it never does.
\<close>

theorem Evaluate_hibernates:
  assumes "Evaluate e baseWindows timezone exceptions = Inr r"
  shows "\<exists>r'. r = Some r' \<and>
     (ShouldHibernate r' \<longrightarrow> list_ex (window_on e timezone) (hibernation_windows e baseWindows exceptions)) \<and>
     (suspension_windows e exceptions = [] \<longrightarrow>
        (ShouldHibernate r' \<longleftrightarrow> list_ex (window_on e timezone) (hibernation_windows e baseWindows exceptions))) \<and>
     (\<forall>l. LoadLocation e timezone = Inr l \<and> isInTimeWindows (suspension_windows e exceptions) (InLoc (Now e) l)
        \<longrightarrow> \<not> ShouldHibernate r')"
proof -
  obtain r1 r2 where r: "r = Some r2"
    "ShouldHibernate r1 \<longleftrightarrow> list_ex (window_on e timezone) (hibernation_windows e baseWindows exceptions)"
    "case mergeByType (filterActive e exceptions) ExceptionSuspend of None \<Rightarrow> r2 = r1
     | Some s \<Rightarrow> applySuspend e r1 s timezone = Inr r2"
    using Evaluate_split [OF assms] by metis
  show ?thesis
  proof (cases "mergeByType (filterActive e exceptions) ExceptionSuspend")
    case None
    then have "suspension_windows e exceptions = []"
      by (simp add: suspension_windows_def mergeByType_None windows_of_Nil)
    then show ?thesis using r None by (auto simp: isInTimeWindows_def)
  next
    case (Some s)
    then have "ex_Windows s = suspension_windows e exceptions"
      by (simp add: suspension_windows_def mergeByType_windows)
    then show ?thesis
      using r Some applySuspend_never_adds applySuspend_inside applySuspend_empty by fastforce
  qed
qed

theorem Evaluate_hibernates_witness:
  "let now = \<lparr>t_ns = 20 * (24 * Hour) + 7 * Hour, t_loc = UTC\<rparr>;
       e = dailyEvaluator now;
       keepAwake = \<lparr>ex_Type = ExceptionSuspend, ValidFrom = now, ValidUntil = now, LeadTime = 0,
         ex_Windows = [\<lparr>Start = ''06:45'', End = ''08:00'', DaysOfWeek = allDays\<rparr>]\<rparr>
   in \<exists>r. Evaluate e [] ''UTC'' [Some keepAwake] = Inr (Some r) \<and> \<not> ShouldHibernate r"
proof -
  let ?now = "\<lparr>t_ns = 20 * (24 * Hour) + 7 * Hour, t_loc = UTC\<rparr>"
  let ?e = "dailyEvaluator ?now"
  let ?x = "\<lparr>ex_Type = ExceptionSuspend, ValidFrom = ?now, ValidUntil = ?now, LeadTime = 0,
         ex_Windows = [\<lparr>Start = ''06:45'', End = ''08:00'', DaysOfWeek = allDays\<rparr>]\<rparr>"
  have act: "filterActive ?e [Some ?x] = [?x]"
    by (simp add: isExceptionActive_def dailyEvaluator_def Before_def After_def)
  then have w: "suspension_windows ?e [Some ?x] = ex_Windows ?x"
    by (simp add: suspension_windows_def windows_of_def of_type_def)
  have l: "LoadLocation ?e ''UTC'' = Inr UTC" "Now ?e = ?now" "scheduleBuffer ?e = 0" by (simp_all add: dailyEvaluator_def)
  obtain r where r: "Evaluate ?e [] ''UTC'' [Some ?x] = Inr r"
    using act l by (simp add: Evaluate_def runEvaluationPipeline_def mergeByType_def evaluateWhen_def Let_def
        evaluateWindows_def onResult_def applySuspend_def)
  moreover have "isInTimeWindows (ex_Windows ?x) (InLoc ?now UTC)" by code_simp
  ultimately show ?thesis using Evaluate_hibernates [OF r] w l unfolding Let_def by auto
qed

section \<open>The evaluation always returns\<close>

definition forward :: "cron_Schedule \<Rightarrow> bool" where
  "forward sched \<longleftrightarrow> (\<forall>t. t_ns t < t_ns (sched t))"

lemma scanOccurrences_returns: "forward sched \<Longrightarrow> \<exists>r. scanOccurrences sched now dflt cur = Some r"
proof (induction "nat (t_ns now - t_ns cur + 1)" arbitrary: cur dflt rule: less_induct)
  case less
  show ?case
  proof (cases "t_ns cur \<le> t_ns now")
    case True
    have "t_ns cur < t_ns (sched cur)" using less.prems by (simp add: forward_def)
    then have "nat (t_ns now - t_ns (sched cur) + 1) < nat (t_ns now - t_ns cur + 1)"
      using True by linarith
    from less.hyps [OF this less.prems] show ?thesis
      using True by (subst scanOccurrences.simps) (auto simp: Before_def TimeEqual_def)
  qed (subst scanOccurrences.simps, auto simp: Before_def TimeEqual_def)
qed

lemma findLastOccurrence_returns:
  assumes "forward sched"
  shows "\<exists>r. findLastOccurrence sched now = Some r"
proof -
  obtain r where "scanOccurrences sched now zeroTime (sched (AddDur now (- 24 * Hour))) = Some r"
    using scanOccurrences_returns [OF assms] by blast
  then show ?thesis
    using scanOccurrences_returns [OF assms] by (simp add: findLastOccurrence_def)
qed

lemma ParseWindowToCron_valid: "ParseWindowToCron s t days = Inr c \<Longrightarrow> list_all valid_day days"
  using cronDays_err [of days]
  by (auto simp: ParseWindowToCron_def convertDaysToCron_def split: sum.splits if_splits prod.splits)

text \<open>A window the evaluator can work with: it converts, and the cron library accepts the result.\<close>

definition window_ok :: "ScheduleEvaluator \<Rightarrow> OffHourWindow \<Rightarrow> bool" where
  "window_ok e w \<longleftrightarrow> (\<exists>hc wc hs ws. ParseWindowToCron (Start w) (End w) (DaysOfWeek w) = Inr (hc, wc) \<and>
     parser e hc = Inr hs \<and> parser e wc = Inr ws \<and> forward hs \<and> forward ws)"

lemma evalOne_returns:
  assumes "window_ok e w" "LoadLocation e tz = Inr l"
  shows "\<exists>r. evalOne e tz w = Inr r"
proof -
  obtain hc wc hs ws where c: "ParseWindowToCron (Start w) (End w) (DaysOfWeek w) = Inr (hc, wc)"
     "parser e hc = Inr hs" "parser e wc = Inr ws" "forward hs" "forward ws"
    using assms(1) by (auto simp: window_ok_def)
  obtain lh lw where last: "findLastOccurrence hs (InLoc (Now e) l) = Some lh"
     "findLastOccurrence ws (InLoc (Now e) l) = Some lw"
    using findLastOccurrence_returns c(4,5) by metis
  have "valid_days [w]" using ParseWindowToCron_valid [OF c(1)] by (simp add: valid_days_def)
  then have "\<exists>r. evalGrace e [w] (InLoc (Now e) l) lh lw nh nw = Inr r" for nh nw
    by (auto simp: evalGrace_def Let_def isInGraceTimeWindow_valid split: bool.splits)
  then show ?thesis using c last assms(2) by (simp add: evalOne_def eval_window_def Let_def)
qed

lemma evalLoop_returns:
  "list_all (window_ok e) ws \<Longrightarrow> LoadLocation e tz = Inr l \<Longrightarrow> \<exists>r. evalLoop e tz c ws = Inr r"
proof (induction ws arbitrary: c)
  case (Cons w ws)
  then show ?case using evalOne_returns [of e w tz l] by auto
qed simp

lemma evalLoop_Some: "evalLoop e tz (Some c) ws = Inr r \<Longrightarrow> r \<noteq> None"
  by (induction ws arbitrary: c) (auto split: sum.splits)

lemma evaluateWindows_returns:
  assumes "list_all (window_ok e) ws" "LoadLocation e tz = Inr l"
  shows "\<exists>r. evaluateWindows e ws tz = Inr r"
proof (cases ws)
  case (Cons w ws')
  obtain r where "evalLoop e tz None ws = Inr r" using evalLoop_returns [OF assms] by blast
  moreover have "r \<noteq> None" using calculation Cons evalLoop_Some by (auto split: sum.splits)
  ultimately show ?thesis using Cons by (auto simp: evaluateWindows_def split: option.splits)
qed (simp add: evaluateWindows_def)


lemma applySuspend_returns:
  "LoadLocation e tz = Inr l \<Longrightarrow> valid_days (ex_Windows exc) \<Longrightarrow> \<exists>r. applySuspend e b exc tz = Inr r"
  by (auto simp: applySuspend_def Let_def isInGraceTimeWindow_valid)

text \<open>
  C6.  With a known time zone, windows that convert to accepted cron expressions, and known day
  names in the suspension windows, the evaluation always ends with a result: no error, no panic
  on a day name, no endless search.
\<close>

theorem Evaluate_returns:
  assumes "LoadLocation e timezone = Inr l"
    and "list_all (window_ok e) (hibernation_windows e baseWindows exceptions)"
    and "valid_days (suspension_windows e exceptions)"
  shows "\<exists>r. Evaluate e baseWindows timezone exceptions = Inr (Some r)"
proof -
  let ?act = "filterActive e exceptions"
  let ?bw = "case mergeByType ?act ExceptionReplace of None \<Rightarrow> baseWindows | Some m \<Rightarrow> ex_Windows m"
  have bw: "?bw = (if of_type ExceptionReplace ?act = [] then baseWindows else windows_of ExceptionReplace ?act)"
    using mergeByType_None [of ?act ExceptionReplace]
    by (auto split: option.splits simp: mergeByType_windows)
  have ok: "list_all (window_ok e) ?bw" "list_all (window_ok e) (windows_of ExceptionExtend ?act)"
    using assms(2) unfolding bw by (auto simp: hibernation_windows_def Let_def)
  obtain r0 where r0: "evaluateWindows e ?bw timezone = Inr r0"
    using evaluateWindows_returns [OF ok(1) assms(1)] by blast
  obtain r1 where r1: "evaluateWhen (mergeByType ?act ExceptionExtend \<noteq> None)
      (onResult (\<lambda>r. applyExtend e r (ex_Windows (the (mergeByType ?act ExceptionExtend))) timezone)) (Some r0)
      = Inr (Some r1)"
    using evaluateWindows_returns [OF ok(2) assms(1)] mergeByType_windows [of ?act ExceptionExtend]
    by (cases "mergeByType ?act ExceptionExtend")
      (auto simp: evaluateWhen_def onResult_def applyExtend_def Let_def)
  obtain r2 where r2: "evaluateWhen (mergeByType ?act ExceptionSuspend \<noteq> None)
      (onResult (\<lambda>r. applySuspend e r (the (mergeByType ?act ExceptionSuspend)) timezone)) (Some r1)
      = Inr (Some r2)"
  proof (cases "mergeByType ?act ExceptionSuspend")
    case None
    then show thesis using that [of r1] by (simp add: evaluateWhen_def)
  next
    case (Some m)
    then obtain r where "applySuspend e r1 m timezone = Inr r"
      using applySuspend_returns [OF assms(1)] assms(3) mergeByType_windows [OF Some]
      by (metis suspension_windows_def)
    then show thesis using Some that [of r] by (simp add: evaluateWhen_def onResult_def)
  qed
  show ?thesis
    using r0 r1 r2 by (simp add: Evaluate_def runEvaluationPipeline_def Let_def)
qed

lemma daily_forward: "forward (daily a)"
  using daily_fires [of _ a] by (auto simp: forward_def fires_def)

theorem Evaluate_returns_witness:
  "\<exists>r. Evaluate (dailyEvaluator \<lparr>t_ns = 20 * (24 * Hour) + 7 * Hour, t_loc = UTC\<rparr>)
     [\<lparr>Start = ''06:00'', End = ''08:30'', DaysOfWeek = allDays\<rparr>] ''UTC'' [None] = Inr (Some r)"
proof (rule Evaluate_returns)
  let ?e = "dailyEvaluator \<lparr>t_ns = 20 * (24 * Hour) + 7 * Hour, t_loc = UTC\<rparr>"
  show "LoadLocation ?e ''UTC'' = Inr UTC" by (simp add: dailyEvaluator_def)
  have "ParseWindowToCron ''06:00'' ''08:30'' allDays =
      Inr (''0 6 * * 0,1,2,3,4,5,6'', ''30 8 * * 0,1,2,3,4,5,6'')" by code_simp
  then show "list_all (window_ok ?e) (hibernation_windows ?e
      [\<lparr>Start = ''06:00'', End = ''08:30'', DaysOfWeek = allDays\<rparr>] [None])"
    by (simp add: hibernation_windows_def windows_of_def of_type_def window_ok_def dailyEvaluator_def daily_forward)
  show "valid_days (suspension_windows ?e [None])"
    by (simp add: suspension_windows_def windows_of_def of_type_def valid_days_def)
qed

section \<open>The requeue interval\<close>

definition nextEventTime :: "EvaluationResult \<Rightarrow> Time" where
  "nextEventTime r = (if InGracePeriod r then GracePeriodEnd r
     else if ShouldHibernate r then NextWakeUpTime r else NextHibernateTime r)"

text \<open>
  The requeue interval is at least the ten-second safety margin, and a controller that
  waits for it wakes up after the event it waits for (as long as the interval fits into a
  \<open>time.Duration\<close>).
\<close>

lemma NextRequeueTime_after_event:
  assumes "0 \<le> scheduleBuffer e" "scheduleBuffer e < 2 ^ 61"
    and "t_ns (nextEventTime r) - t_ns (Now e) < 2 ^ 61"
  shows "10 * Second \<le> NextRequeueTime e r \<and>
    t_ns (nextEventTime r) + 10 * Second \<le> t_ns (AddDur (Now e) (NextRequeueTime e r))"
proof -
  let ?d = "t_ns (nextEventTime r) - t_ns (Now e)"
  have s: "SubTime (nextEventTime r) (Now e) = ?d \<or> ?d < 0 \<and> SubTime (nextEventTime r) (Now e) < 0"
    using assms(3) by (auto simp: SubTime_def sat64_def)
  show ?thesis
  proof (cases "InGracePeriod r")
    case True
    then have "NextRequeueTime e r = (if ?d < 0 then 0 else ?d) + 10 * Second"
      using s assms(3) by (auto simp: NextRequeueTime_def nextEventTime_def Let_def wrap64_id)
    then show ?thesis by auto
  next
    case False
    then have "NextRequeueTime e r = (if ?d < 0 then Minute else ?d) + scheduleBuffer e + 10 * Second"
      using s assms by (auto simp: NextRequeueTime_def nextEventTime_def Let_def wrap64_id)
    then show ?thesis using assms(1) by auto
  qed
qed

lemma NextRequeueTime_after_event_witness:
  "10 * Second \<le> NextRequeueTime (dailyEvaluator \<lparr>t_ns = 0, t_loc = UTC\<rparr>)
     (noWindows\<lparr>NextHibernateTime := \<lparr>t_ns = Hour, t_loc = UTC\<rparr>\<rparr>)"
  using NextRequeueTime_after_event [of "dailyEvaluator \<lparr>t_ns = 0, t_loc = UTC\<rparr>"
      "noWindows\<lparr>NextHibernateTime := \<lparr>t_ns = Hour, t_loc = UTC\<rparr>\<rparr>"]
  by (simp add: dailyEvaluator_def nextEventTime_def noWindows_def)

end
