(* ===== verification/Requeue.thy ===== *)
theory Requeue
  imports Schedule
begin

text \<open>
  Time-based re-enqueuing: the next event and the active exceptions that the reconciler computes
  (\<^verbatim>\<open>internal/provider/provider.go\<close>) and the boundary the requeue processor waits for
  (\<^verbatim>\<open>processor/requeue/processor.go\<close>).
\<close>

abbreviation safetyBuffer :: duration where "safetyBuffer \<equiv> 10 * Second"

definition computeNextEvent :: "ScheduleEvaluator \<Rightarrow> EvaluationResult \<Rightarrow> Time" where
  "computeNextEvent e result =
     (if InGracePeriod result then AddDur (GracePeriodEnd result) safetyBuffer
      else (let nextEvent = (if ShouldHibernate result then NextWakeUpTime result else NextHibernateTime result)
            in AddDur nextEvent (wrap64 (scheduleBuffer e + safetyBuffer))))"

text \<open>
  Newest first.  \<open>sort.Slice\<close> does not promise an order among exceptions created at the same
  instant; the model keeps their order in the list.
\<close>

definition filterActiveExceptions :: "Time \<Rightarrow> ScheduleException list \<Rightarrow> ScheduleException list" where
  "filterActiveExceptions now allExceptions =
     sort_key (\<lambda>exc. - t_ns (CreationTimestamp exc))
       (filter (\<lambda>exc. After now (xs_ValidFrom (exc_Spec exc)) \<and> Before now (xs_ValidUntil (exc_Spec exc)) \<and>
          (case exc_DeletionTimestamp exc of None \<Rightarrow> True | Some t \<Rightarrow> IsZero t)) allExceptions)"

definition minTime :: "Time \<Rightarrow> Time \<Rightarrow> Time" where
  "minTime a b = (if IsZero a then b else if IsZero b then a else if Before a b then a else b)"

definition futureBoundary :: "Time \<Rightarrow> Time \<Rightarrow> Time \<Rightarrow> Time" where
  "futureBoundary now earliest t = (if \<not> IsZero t \<and> Before now t then minTime earliest t else earliest)"

definition exceptionBoundaries :: "Time \<Rightarrow> Time \<Rightarrow> ScheduleException \<Rightarrow> Time" where
  "exceptionBoundaries now earliest exc =
     futureBoundary now (futureBoundary now earliest (xs_ValidFrom (exc_Spec exc))) (xs_ValidUntil (exc_Spec exc))"

text \<open>The schedule evaluation of the plan context contributes its \<open>NextEvent\<close>, if there is one.\<close>

definition computeBoundary :: "Time \<Rightarrow> Time option \<Rightarrow> ScheduleException list \<Rightarrow> Time \<times> bool" where
  "computeBoundary now schedule exceptions =
     (let start = (case schedule of None \<Rightarrow> zeroTime | Some nextEvent \<Rightarrow> if IsZero nextEvent then zeroTime else nextEvent);
          earliest = foldl (exceptionBoundaries now) start exceptions
      in (earliest, \<not> IsZero earliest))"

text \<open>What the processor does on an update: nothing, an immediate enqueue, or a timer.\<close>

datatype requeue_action = NoTimer | EnqueueNow | StartTimer duration

definition onPlanUpdate :: "Time \<Rightarrow> Time option \<Rightarrow> ScheduleException list \<Rightarrow> requeue_action" where
  "onPlanUpdate now schedule exceptions =
     (case computeBoundary now schedule exceptions of
        (_, False) \<Rightarrow> NoTimer
      | (boundary, True) \<Rightarrow>
          (let d = SubTime boundary now in if d \<le> 0 then EnqueueNow else StartTimer d))"

section \<open>Facts\<close>

interpretation soonest: earliest_event minTime
  by unfold_locales (auto simp: minTime_def Before_def min_def)

lemma zeroTime_zero [simp]: "IsZero zeroTime" by (simp add: IsZero_def zeroTime_def)

text \<open>The instants that count: the next event, and every future end of a validity period.\<close>

definition boundaries :: "Time \<Rightarrow> ScheduleException list \<Rightarrow> Time list" where
  "boundaries now exceptions = filter (\<lambda>t. \<not> IsZero t \<and> Before now t)
     (concat (map (\<lambda>exc. [xs_ValidFrom (exc_Spec exc), xs_ValidUntil (exc_Spec exc)]) exceptions))"

lemma computeBoundary_foldl:
  "foldl (exceptionBoundaries now) start exceptions = foldl minTime start (boundaries now exceptions)"
  by (induction exceptions arbitrary: start) (auto simp: boundaries_def exceptionBoundaries_def futureBoundary_def)

text \<open>
  The boundary is the earliest of the next schedule event and all future starts and ends
  of exceptions, and there is none exactly when there is no such instant.
\<close>

lemma computeBoundary_earliest:
  "let ts = (case schedule of None \<Rightarrow> [] | Some t \<Rightarrow> if IsZero t then [] else [t]) @ boundaries now exceptions in
   case computeBoundary now schedule exceptions of
     (boundary, ok) \<Rightarrow> (ok \<longleftrightarrow> ts \<noteq> []) \<and>
       (if ok then boundary \<in> set ts \<and> list_all (\<lambda>t. t_ns boundary \<le> t_ns t) ts else IsZero boundary)"
proof -
  let ?bs = "boundaries now exceptions"
  let ?start = "case schedule of None \<Rightarrow> zeroTime | Some t \<Rightarrow> if IsZero t then zeroTime else t"
  have nz: "list_all (\<lambda>t. \<not> IsZero t) ?bs" by (simp add: boundaries_def list_all_iff)
  have fold: "fst (computeBoundary now schedule exceptions) = foldl minTime ?start ?bs"
    "snd (computeBoundary now schedule exceptions) = (\<not> IsZero (foldl minTime ?start ?bs))"
    by (simp_all add: computeBoundary_def Let_def computeBoundary_foldl)
  have le: "t_ns (foldl minTime ?start ?bs) \<le> t_ns t" if "t \<in> set (?start # ?bs)" "\<not> IsZero t" for t
    using that by (rule soonest.foldl_mn(3) [rotated])
  have none: "list_all IsZero ?bs \<longleftrightarrow> ?bs = []" using nz by (cases ?bs) auto
  show ?thesis
    using fold le none nz soonest.foldl_mn(1) [of ?start ?bs] soonest.foldl_mn(2) [of ?start ?bs]
    by (cases "computeBoundary now schedule exceptions")
      (auto simp: Let_def list_all_iff split: option.splits if_splits)
qed

text \<open>
  A schedule evaluation without a next event is not recognised as such: the buffer is added
  to the zero time, so the boundary is in the year one, the plan is enqueued at once, and the
  future boundaries of its exceptions are not waited for.
\<close>

lemma zero_event_hides_boundaries:
  assumes "0 \<le> scheduleBuffer e" "scheduleBuffer e \<le> Hour" "IsZero (nextEventTime r)" "zero_ns + 2 * Hour \<le> t_ns now"
  shows "onPlanUpdate now (Some (computeNextEvent e r)) exceptions = EnqueueNow"
proof -
  let ?t = "computeNextEvent e r"
  have t: "zero_ns < t_ns ?t" "t_ns ?t \<le> zero_ns + 2 * Hour"
    using assms(1-3) by (auto simp: computeNextEvent_def nextEventTime_def AddDur_def IsZero_def Let_def wrap64_id
        split: if_splits)
  then have nz: "\<not> IsZero ?t" by (simp add: IsZero_def)
  have "\<not> IsZero (foldl minTime ?t (boundaries now exceptions))"
    "t_ns (foldl minTime ?t (boundaries now exceptions)) \<le> t_ns ?t"
    using nz soonest.foldl_mn(1) [of ?t] soonest.foldl_mn(3) [OF nz, of ?t] by auto
  then show ?thesis
    using nz t assms(4)
    by (auto simp: onPlanUpdate_def computeBoundary_def computeBoundary_foldl Let_def SubTime_def sat64_def)
qed

lemma zero_event_hides_boundaries_witness:
  "onPlanUpdate \<lparr>t_ns = 0, t_loc = UTC\<rparr>
     (Some (computeNextEvent (dailyEvaluator \<lparr>t_ns = 0, t_loc = UTC\<rparr>)
        (suspendResult noWindows [] \<lparr>t_ns = 0, t_loc = UTC\<rparr> False True False))) [] = EnqueueNow"
proof (rule zero_event_hides_boundaries)
  show "IsZero (nextEventTime (suspendResult noWindows [] \<lparr>t_ns = 0, t_loc = UTC\<rparr> False True False))"
    by (simp add: nextEventTime_def suspendResult_def noWindows_def Let_def)
qed (simp_all add: dailyEvaluator_def zero_ns_def)

end
