(* ===== verification/RequeueTimers.thy ===== *)
theory RequeueTimers
  imports Requeue
begin

text \<open>
  The timers of the requeue processor as a transition system (\<open>Start\<close> in
  \<^verbatim>\<open>processor/requeue/processor.go\<close>): the subscription handler runs serially and keeps one
  timer entry per plan; every timer has a goroutine that enqueues the plan when the timer
  fires and ends when its context is cancelled.
\<close>

section \<open>Processor and goroutines\<close>

record waiter =
  w_plan :: string
  w_due :: int
  w_fired :: bool
  w_cancelled :: bool

text \<open>
  \<open>entries\<close> is the map \<open>timers\<close>; an entry names its goroutine, which owns timer and context.
  \<open>waiters\<close> are the goroutines that have not returned; \<open>enqueued\<close> is the log of \<open>Enqueue\<close>
  calls, the newest first, with the time of the call.
\<close>

record requeue_sys =
  now_t :: Time
  entries :: "string \<rightharpoonup> nat"
  waiters :: "nat \<rightharpoonup> waiter"
  nextWaiter :: nat
  enqueued :: "(string \<times> Time) list"

abbreviation requeueStart :: "Time \<Rightarrow> requeue_sys" where
  "requeueStart t \<equiv> \<lparr>now_t = t, entries = Map.empty, waiters = Map.empty, nextWaiter = 0, enqueued = []\<rparr>"

definition cancelWaiter :: "nat \<Rightarrow> requeue_sys \<Rightarrow> requeue_sys" where
  "cancelWaiter g s = s\<lparr>waiters := (waiters s)(g := map_option (\<lambda>w. w\<lparr>w_cancelled := True\<rparr>) (waiters s g))\<rparr>"

definition dropEntry :: "string \<Rightarrow> requeue_sys \<Rightarrow> requeue_sys" where
  "dropEntry key s =
     (case entries s key of None \<Rightarrow> s | Some g \<Rightarrow> (cancelWaiter g s)\<lparr>entries := (entries s)(key := None)\<rparr>)"

definition Enqueue :: "string \<Rightarrow> requeue_sys \<Rightarrow> requeue_sys" where
  "Enqueue key s = s\<lparr>enqueued := (key, now_t s) # enqueued s\<rparr>"

definition startWaiter :: "string \<Rightarrow> duration \<Rightarrow> requeue_sys \<Rightarrow> requeue_sys" where
  "startWaiter key d s =
     s\<lparr>entries := (entries s)(key \<mapsto> nextWaiter s),
       waiters := (waiters s)(nextWaiter s \<mapsto> \<lparr>w_plan = key, w_due = t_ns (now_t s) + d, w_fired = False, w_cancelled = False\<rparr>),
       nextWaiter := Suc (nextWaiter s)\<rparr>"

text \<open>The handler; \<open>None\<close> is the deletion of the plan.\<close>

definition onUpdate :: "string \<Rightarrow> (Time option \<times> ScheduleException list) option \<Rightarrow> requeue_sys \<Rightarrow> requeue_sys" where
  "onUpdate key value s =
     (let s1 = dropEntry key s in
      case value of
        None \<Rightarrow> s1
      | Some (schedule, exceptions) \<Rightarrow>
          (case onPlanUpdate (now_t s1) schedule exceptions of
             NoTimer \<Rightarrow> s1
           | EnqueueNow \<Rightarrow> Enqueue key s1
           | StartTimer d \<Rightarrow> startWaiter key d s1))"

text \<open>
  \<open>Stop\<close> may come too late for a timer, so a cancelled goroutine may still find its timer fired,
  and of two ready cases the select takes either.
\<close>

inductive requeue_step :: "requeue_sys \<Rightarrow> requeue_sys \<Rightarrow> bool" where
  update: "requeue_step s (onUpdate key value s)"
| clock: "t_ns (now_t s) \<le> t_ns t \<Longrightarrow> requeue_step s (s\<lparr>now_t := t\<rparr>)"
| expire: "waiters s g = Some w \<Longrightarrow> w_due w \<le> t_ns (now_t s) \<Longrightarrow>
    requeue_step s (s\<lparr>waiters := (waiters s)(g \<mapsto> w\<lparr>w_fired := True\<rparr>)\<rparr>)"
| expired: "waiters s g = Some w \<Longrightarrow> w_fired w \<Longrightarrow>
    requeue_step s (Enqueue (w_plan w) (s\<lparr>waiters := (waiters s)(g := None)\<rparr>))"
| cancelled: "waiters s g = Some w \<Longrightarrow> w_cancelled w \<Longrightarrow> requeue_step s (s\<lparr>waiters := (waiters s)(g := None)\<rparr>)"

section \<open>One goroutine per plan\<close>

text \<open>
  A goroutine whose context is not cancelled is the one of its plan's entry; identities are fresh.
\<close>

definition requeue_inv :: "requeue_sys \<Rightarrow> bool" where
  "requeue_inv s \<longleftrightarrow>
     (\<forall>g w. waiters s g = Some w \<longrightarrow> g < nextWaiter s \<and> (\<not> w_cancelled w \<longrightarrow> entries s (w_plan w) = Some g)) \<and>
     (\<forall>key g. entries s key = Some g \<longrightarrow> g < nextWaiter s \<and> (\<forall>w. waiters s g = Some w \<longrightarrow> w_plan w = key))"

lemma requeue_invD:
  assumes "requeue_inv s"
  shows "waiters s g = Some w \<Longrightarrow> g < nextWaiter s" "waiters s g = Some w \<Longrightarrow> \<not> w_cancelled w \<Longrightarrow> entries s (w_plan w) = Some g"
    "entries s key = Some g \<Longrightarrow> g < nextWaiter s" "entries s key = Some g \<Longrightarrow> waiters s g = Some w \<Longrightarrow> w_plan w = key"
  using assms by (auto simp: requeue_inv_def)

lemma requeue_invI:
  assumes "\<And>g w. waiters s g = Some w \<Longrightarrow> g < nextWaiter s"
    and "\<And>g w. waiters s g = Some w \<Longrightarrow> \<not> w_cancelled w \<Longrightarrow> entries s (w_plan w) = Some g"
    and "\<And>key g. entries s key = Some g \<Longrightarrow> g < nextWaiter s"
    and "\<And>key g w. entries s key = Some g \<Longrightarrow> waiters s g = Some w \<Longrightarrow> w_plan w = key"
  shows "requeue_inv s"
  using assms by (simp add: requeue_inv_def)

lemma dropEntry_waiter:
  "waiters (dropEntry key s) g = Some w \<Longrightarrow>
     \<exists>w0. waiters s g = Some w0 \<and> w_plan w = w_plan w0 \<and> w_due w = w_due w0 \<and> w_fired w = w_fired w0 \<and>
       (if entries s key = Some g then w_cancelled w else w = w0)"
  by (auto simp: dropEntry_def cancelWaiter_def split: option.splits if_splits)

lemma dropEntry_entries: "entries (dropEntry key s) = (entries s)(key := None)"
  by (auto simp: dropEntry_def cancelWaiter_def fun_upd_idem split: option.splits)

lemma dropEntry_frame [simp]:
  "now_t (dropEntry key s) = now_t s" "nextWaiter (dropEntry key s) = nextWaiter s" "enqueued (dropEntry key s) = enqueued s"
  by (simp_all add: dropEntry_def cancelWaiter_def split: option.splits)

lemma dropEntry_inv:
  assumes inv: "requeue_inv s"
  shows "requeue_inv (dropEntry key s)"
proof (rule requeue_invI)
  fix g w
  assume w: "waiters (dropEntry key s) g = Some w"
  show "g < nextWaiter (dropEntry key s)" using dropEntry_waiter [OF w] requeue_invD(1) [OF inv] by (auto split: if_splits)
  assume "\<not> w_cancelled w"
  then show "entries (dropEntry key s) (w_plan w) = Some g"
    using dropEntry_waiter [OF w] requeue_invD(2) [OF inv] by (fastforce simp: dropEntry_entries split: if_splits)
next
  fix key' g
  assume e: "entries (dropEntry key s) key' = Some g"
  then show "g < nextWaiter (dropEntry key s)" using requeue_invD(3) [OF inv] by (auto simp: dropEntry_entries split: if_splits)
  fix w
  assume "waiters (dropEntry key s) g = Some w"
  then show "w_plan w = key'"
    using dropEntry_waiter [of key s g w] e requeue_invD(4) [OF inv] by (auto simp: dropEntry_entries split: if_splits)
qed

lemma startWaiter_inv:
  assumes inv: "requeue_inv s" and none: "entries s key = None"
  shows "requeue_inv (startWaiter key d s)"
proof (rule requeue_invI)
  fix g w
  assume w: "waiters (startWaiter key d s) g = Some w"
  show "g < nextWaiter (startWaiter key d s)"
    using w requeue_invD(1) [OF inv, of g] by (auto simp: startWaiter_def less_SucI split: if_splits)
  assume "\<not> w_cancelled w"
  then show "entries (startWaiter key d s) (w_plan w) = Some g"
    using w none requeue_invD(2) [OF inv, of g w] by (auto simp: startWaiter_def split: if_splits)
next
  fix key' g
  assume e: "entries (startWaiter key d s) key' = Some g"
  then show "g < nextWaiter (startWaiter key d s)"
    using requeue_invD(3) [OF inv, of key' g] by (auto simp: startWaiter_def split: if_splits)
  fix w
  assume "waiters (startWaiter key d s) g = Some w"
  then show "w_plan w = key'"
    using e requeue_invD(3) [OF inv, of key' g] requeue_invD(4) [OF inv, of key' g w] by (auto simp: startWaiter_def split: if_splits)
qed

lemma Enqueue_inv: "requeue_inv (Enqueue key s) = requeue_inv s"
  by (simp add: requeue_inv_def Enqueue_def)

lemma onUpdate_inv: "requeue_inv s \<Longrightarrow> requeue_inv (onUpdate key value s)"
  by (simp add: onUpdate_def Let_def Enqueue_inv dropEntry_inv startWaiter_inv dropEntry_entries
      split: option.split prod.split requeue_action.split)

lemma waiters_inv:
  assumes "requeue_inv s"
    and "\<And>g w. ws g = Some w \<Longrightarrow> \<exists>w0. waiters s g = Some w0 \<and> w_plan w = w_plan w0 \<and> (w_cancelled w0 \<longrightarrow> w_cancelled w)"
  shows "requeue_inv (s\<lparr>waiters := ws\<rparr>)"
  using assms(1) by (intro requeue_invI) (auto dest!: assms(2) simp: requeue_inv_def)

lemma requeue_inv_step: "requeue_step s s' \<Longrightarrow> requeue_inv s \<Longrightarrow> requeue_inv s'"
proof (induction rule: requeue_step.induct)
  case (update s key "value")
  then show ?case by (rule onUpdate_inv)
next
  case (clock s t)
  then show ?case by (simp add: requeue_inv_def)
qed (auto simp: Enqueue_inv intro!: waiters_inv split: if_splits)

lemma requeue_inv_reachable: "requeue_step\<^sup>*\<^sup>* (requeueStart t) s \<Longrightarrow> requeue_inv s"
  by (induction rule: rtranclp_induct) (auto intro: requeue_inv_step, simp add: requeue_inv_def)

section \<open>No boundary is missed\<close>

text \<open>As long as \<open>g\<close> is the goroutine of the plan's entry, it waits for its time or has enqueued the plan.\<close>

definition served_or_waits :: "string \<Rightarrow> nat \<Rightarrow> int \<Rightarrow> requeue_sys \<Rightarrow> bool" where
  "served_or_waits key g due s \<longleftrightarrow>
     (\<exists>t. (key, t) \<in> set (enqueued s) \<and> due \<le> t_ns t) \<or>
     (\<exists>w. waiters s g = Some w \<and> w_plan w = key \<and> w_due w = due \<and> \<not> w_cancelled w \<and> (w_fired w \<longrightarrow> due \<le> t_ns (now_t s)))"

lemma onUpdate_keeps_entry:
  assumes "requeue_inv s" "g < nextWaiter s" "entries (onUpdate key' value s) key = Some g"
  shows "key' \<noteq> key \<and> entries s key = Some g \<and> waiters (onUpdate key' value s) g = waiters s g \<and>
    set (enqueued s) \<subseteq> set (enqueued (onUpdate key' value s))"
proof -
  have *: "key' \<noteq> key \<and> entries s key = Some g"
    using assms(2,3) by (auto simp: onUpdate_def Let_def Enqueue_def startWaiter_def dropEntry_entries
        split: option.splits prod.splits requeue_action.splits if_splits)
  moreover have "waiters (dropEntry key' s) g = waiters s g"
    using * requeue_invD(4) [OF assms(1), of key' g] requeue_invD(4) [OF assms(1), of key g]
    by (cases "waiters s g") (auto simp: dropEntry_def cancelWaiter_def split: option.splits)
  ultimately show ?thesis using assms(2)
    by (auto simp: onUpdate_def Let_def Enqueue_def startWaiter_def split: option.splits prod.splits requeue_action.splits)
qed

lemma onUpdate_frame: "now_t (onUpdate key value s) = now_t s" "nextWaiter s \<le> nextWaiter (onUpdate key value s)"
  by (auto simp: onUpdate_def Let_def Enqueue_def startWaiter_def split: option.splits prod.splits requeue_action.splits)

lemma served_or_waits_step:
  assumes "requeue_step s s'" "requeue_inv s" "g < nextWaiter s" "entries s key = Some g \<Longrightarrow> served_or_waits key g due s"
  shows "g < nextWaiter s' \<and> (entries s' key = Some g \<longrightarrow> served_or_waits key g due s')"
  using assms
proof (induction rule: requeue_step.induct)
  case (update s key' "value")
  then show ?case
    using onUpdate_keeps_entry [of s g key' "value" key] onUpdate_frame(1) [of key' "value" s] onUpdate_frame(2) [of s key' "value"]
    by (auto simp: served_or_waits_def)
next
  case (clock s t)
  then show ?case by (force simp: served_or_waits_def)
next
  case (expire s h w)
  then show ?case by (cases "h = g") (force simp: served_or_waits_def)+
next
  case (expired s h w)
  then show ?case by (cases "h = g") (auto simp: served_or_waits_def Enqueue_def)
next
  case (cancelled s h w)
  then show ?case by (cases "h = g") (force simp: served_or_waits_def)+
qed

lemma served_or_waits_run:
  assumes "requeue_step\<^sup>*\<^sup>* s s'" "requeue_inv s" "g < nextWaiter s" "served_or_waits key g due s"
  shows "requeue_inv s' \<and> g < nextWaiter s' \<and> (entries s' key = Some g \<longrightarrow> served_or_waits key g due s')"
  using assms
proof (induction rule: rtranclp_induct)
  case (step s1 s2)
  then show ?case using served_or_waits_step [OF step(2)] requeue_inv_step [OF step(2)] by blast
qed simp

text \<open>
  The steps of goroutine \<open>g\<close> on its own: its timer fires, and it takes the tick, enqueues its
  plan and returns.  No update and no other goroutine takes part, and no time passes.
\<close>

inductive waiter_step :: "nat \<Rightarrow> requeue_sys \<Rightarrow> requeue_sys \<Rightarrow> bool" for g where
  fires: "waiters s g = Some w \<Longrightarrow> \<not> w_fired w \<Longrightarrow> w_due w \<le> t_ns (now_t s) \<Longrightarrow>
    waiter_step g s (s\<lparr>waiters := (waiters s)(g \<mapsto> w\<lparr>w_fired := True\<rparr>)\<rparr>)"
| returns: "waiters s g = Some w \<Longrightarrow> w_fired w \<Longrightarrow>
    waiter_step g s (Enqueue (w_plan w) (s\<lparr>waiters := (waiters s)(g := None)\<rparr>))"

lemma waiter_step_requeue: "waiter_step g s s' \<Longrightarrow> requeue_step s s'"
  by (induction rule: waiter_step.induct) (auto intro: requeue_step.intros)

lemma waiter_step_frame: "waiter_step g s s' \<Longrightarrow> now_t s' = now_t s \<and> entries s' = entries s"
  by (induction rule: waiter_step.induct) (simp_all add: Enqueue_def)

lemma waiter_steps_frame: "(waiter_step g)\<^sup>*\<^sup>* s s' \<Longrightarrow> requeue_step\<^sup>*\<^sup>* s s' \<and> now_t s' = now_t s \<and> entries s' = entries s"
  by (induction rule: rtranclp_induct) (auto dest: waiter_step_requeue waiter_step_frame intro: rtranclp.rtrancl_into_rtrancl)

lemma waiter_ready: "waiters s g = Some w \<Longrightarrow> w_due w \<le> t_ns (now_t s) \<Longrightarrow> \<exists>s'. waiter_step g s s'"
  by (cases "w_fired w") (blast intro: waiter_step.intros)+

lemma waiter_ends: "\<exists>s'. (waiter_step g)\<^sup>*\<^sup>* s s' \<and> \<not> (\<exists>x. waiter_step g s' x)"
proof -
  define left :: "requeue_sys \<Rightarrow> nat" where
    "left s = (case waiters s g of None \<Rightarrow> 0 | Some w \<Rightarrow> (if w_fired w then 1 else 2))" for s
  have dec: "left y < left x" if "waiter_step g x y" for x y
    using that by (induction rule: waiter_step.induct) (simp_all add: left_def Enqueue_def)
  show ?thesis
  proof (induction "left s" arbitrary: s rule: less_induct)
    case less
    show ?case
    proof (cases "\<exists>x. waiter_step g s x")
      case True
      then obtain x where x: "waiter_step g s x" by blast
      from less [OF dec [OF x]] show ?thesis using x by (meson converse_rtranclp_into_rtranclp)
    qed blast
  qed
qed

text \<open>
  C16.  No boundary is missed.  When an update of a plan announces a boundary in the future, less
  than the largest duration away, and no newer update of the plan replaces its timer, then,
  whatever else happens in between, once the clock has reached the boundary: the steps of that
  timer's goroutine alone, without any other event and without more time passing, come to an end,
  and wherever they end the plan has been enqueued at or after the boundary.
\<close>

theorem boundary_not_missed:
  assumes "requeue_step\<^sup>*\<^sup>* (requeueStart t0) s" "computeBoundary (now_t s) schedule exceptions = (boundary, True)"
    and "t_ns (now_t s) < t_ns boundary" "t_ns boundary < t_ns (now_t s) + 2 ^ 63"
    and "requeue_step\<^sup>*\<^sup>* (onUpdate key (Some (schedule, exceptions)) s) s'"
    and "entries (onUpdate key (Some (schedule, exceptions)) s) key = Some g" "entries s' key = Some g"
    and "t_ns boundary \<le> t_ns (now_t s')"
  shows "(\<exists>s''. (waiter_step g)\<^sup>*\<^sup>* s' s'' \<and> \<not> (\<exists>x. waiter_step g s'' x)) \<and>
    (\<forall>s''. (waiter_step g)\<^sup>*\<^sup>* s' s'' \<and> \<not> (\<exists>x. waiter_step g s'' x) \<longrightarrow>
       now_t s'' = now_t s' \<and> (\<exists>t. (key, t) \<in> set (enqueued s'') \<and> t_ns boundary \<le> t_ns t))"
proof -
  let ?u = "onUpdate key (Some (schedule, exceptions)) s"
  have inv: "requeue_inv s" using requeue_inv_reachable assms(1) by blast
  have u: "?u = startWaiter key (t_ns boundary - t_ns (now_t s)) (dropEntry key s)"
    using assms(2-4) by (simp add: onUpdate_def onPlanUpdate_def Let_def SubTime_def sat64_def)
  then have g: "g = nextWaiter s" using assms(6) by (simp add: startWaiter_def)
  have "served_or_waits key g (t_ns boundary) ?u" "g < nextWaiter ?u"
    by (simp_all add: u g served_or_waits_def startWaiter_def)
  then have run: "served_or_waits key g (t_ns boundary) s''"
    if "requeue_step\<^sup>*\<^sup>* ?u s''" "entries s'' key = Some g" for s''
    using served_or_waits_run [OF that(1) onUpdate_inv [OF inv]] that(2) by auto
  have "now_t s'' = now_t s' \<and> (\<exists>t. (key, t) \<in> set (enqueued s'') \<and> t_ns boundary \<le> t_ns t)"
    if st: "(waiter_step g)\<^sup>*\<^sup>* s' s''" and stuck: "\<not> (\<exists>x. waiter_step g s'' x)" for s''
  proof -
    note f = waiter_steps_frame [OF st]
    have "served_or_waits key g (t_ns boundary) s''" using run [OF rtranclp_trans [OF assms(5)]] f assms(7) by simp
    then show ?thesis using f stuck waiter_ready [of s'' g] assms(8) by (auto simp: served_or_waits_def)
  qed
  then show ?thesis using waiter_ends by blast
qed

theorem boundary_not_missed_witness:
  "\<exists>s g. requeue_step\<^sup>*\<^sup>* (requeueStart \<lparr>t_ns = 0, t_loc = UTC\<rparr>) s \<and> now_t s = \<lparr>t_ns = 5, t_loc = UTC\<rparr> \<and>
     enqueued s = [] \<and> (\<exists>s'. (waiter_step g)\<^sup>*\<^sup>* s s' \<and> (\<exists>t. (''default/web'', t) \<in> set (enqueued s') \<and> 5 \<le> t_ns t))"
proof -
  let ?t = "\<lparr>t_ns = 5, t_loc = UTC\<rparr>"
  let ?s = "requeueStart \<lparr>t_ns = 0, t_loc = UTC\<rparr>"
  let ?u = "onUpdate ''default/web'' (Some (Some ?t, [])) ?s"
  let ?v = "?u\<lparr>now_t := ?t\<rparr>"
  have b: "computeBoundary (now_t ?s) (Some ?t) [] = (?t, True)"
    by (simp add: computeBoundary_def IsZero_def zero_ns_def)
  have u: "?u = startWaiter ''default/web'' 5 ?s"
    using b by (simp add: onUpdate_def onPlanUpdate_def dropEntry_def Let_def SubTime_def sat64_def)
  have "requeue_step ?u ?v" by (rule requeue_step.clock) (simp add: onUpdate_frame)
  then have r: "requeue_step\<^sup>*\<^sup>* ?u ?v" "requeue_step\<^sup>*\<^sup>* ?s ?v"
    using converse_rtranclp_into_rtranclp [of requeue_step, OF requeue_step.update] by blast+
  have e: "entries ?u ''default/web'' = Some 0" "entries ?v ''default/web'' = Some 0" "enqueued ?v = []"
    by (simp_all add: u startWaiter_def)
  obtain s' where "(waiter_step 0)\<^sup>*\<^sup>* ?v s'" "\<exists>t. (''default/web'', t) \<in> set (enqueued s') \<and> 5 \<le> t_ns t"
    using boundary_not_missed [OF rtranclp.rtrancl_refl [of _ ?s] b _ _ r(1) e(1,2)] by auto
  then show ?thesis using r(2) e(3) by (intro exI [of _ ?v] exI [of _ 0]) auto
qed

text \<open>A plan has at most one goroutine whose context is not cancelled, that of its entry.\<close>

lemma one_waiter_per_plan:
  assumes "requeue_step\<^sup>*\<^sup>* (requeueStart t0) s" "waiters s g = Some w" "waiters s h = Some v" "w_plan w = w_plan v"
    and "\<not> w_cancelled w" "\<not> w_cancelled v"
  shows "g = h \<and> entries s (w_plan w) = Some g"
proof -
  note entry = requeue_invD(2) [OF requeue_inv_reachable [OF assms(1)]]
  show ?thesis using entry [OF assms(2,5)] entry [OF assms(3,6)] assms(4) by simp
qed

end
