(* ===== verification/GoGlob.thy ===== *)
theory GoGlob
  imports GoStrings
begin

text \<open>
  Go's \<open>path.Match\<close> on byte strings: shell patterns with stars, question marks, character
  classes and escapes, where no wildcard matches a slash.  The value None is
  \<open>ErrBadPattern\<close>.  The matcher checks the syntax of every chunk it reaches even after the
  match has failed, so a pattern is malformed or not whatever the name is.
\<close>

definition getEsc :: "string \<Rightarrow> (char \<times> string) option" where
  "getEsc chunk =
     (case chunk of
        [] \<Rightarrow> None
      | c # r \<Rightarrow>
          if c = CHR ''-'' \<or> c = CHR '']'' then None
          else if c = CHR 0x5C then
            (case r of [] \<Rightarrow> None | d # r' \<Rightarrow> if r' = [] then None else Some (d, r'))
          else if r = [] then None else Some (c, r))"

lemma getEsc_length: "getEsc s = Some (c, t) \<Longrightarrow> length t < length s"
  by (auto simp: getEsc_def split: list.splits if_splits)

text \<open>The ranges of a character class, up to and including the closing bracket.\<close>

function classRanges :: "bool \<Rightarrow> char \<Rightarrow> bool \<Rightarrow> string \<Rightarrow> (bool \<times> string) option" where
  "classRanges some r matched chunk =
     (if chunk \<noteq> [] \<and> hd chunk = CHR '']'' \<and> some then Some (matched, tl chunk)
      else (case getEsc chunk of
              None \<Rightarrow> None
            | Some (lo, ch) \<Rightarrow>
                (if hd ch = CHR ''-'' then
                   (case getEsc (tl ch) of
                      None \<Rightarrow> None
                    | Some (hi, ch') \<Rightarrow> classRanges True r (matched \<or> lo \<le> r \<and> r \<le> hi) ch')
                 else classRanges True r (matched \<or> r = lo) ch)))"
  by pat_completeness auto
termination
  by (relation "measure (\<lambda>(some, r, matched, chunk). length chunk)") (fastforce dest: getEsc_length)+

declare classRanges.simps [simp del]

lemma classRanges_length: "classRanges some r m s = Some (b, t) \<Longrightarrow> length t < length s"
proof (induction some r m s rule: classRanges.induct)
  case (1 some r m s)
  show ?case
    using "1.prems" "1.IH" getEsc_length [of s] getEsc_length [of "tl _"]
    by (subst (asm) classRanges.simps) (fastforce split: if_splits option.splits prod.splits)
qed

text \<open>Whether a class is well formed does not depend on the byte it is matched with.\<close>

lemma classRanges_shape:
  "map_option snd (classRanges some r m s) = map_option snd (classRanges some r' m' s)"
proof (induction some r m s arbitrary: m' rule: classRanges.induct)
  case (1 some r m s)
  show ?case
    by (subst (1 2) classRanges.simps) (auto simp: "1.IH" split: option.splits)
qed

function matchChunk :: "bool \<Rightarrow> string \<Rightarrow> string \<Rightarrow> (string option) option" where
  "matchChunk failed0 chunk s =
     (case chunk of
        [] \<Rightarrow> Some (if failed0 then None else Some s)
      | c # ch \<Rightarrow>
          (let failed = (failed0 \<or> s = []);
               s' = (if failed then s else tl s)
           in if c = CHR ''['' then
                (let negated = (ch \<noteq> [] \<and> hd ch = CHR ''^'') in
                 case classRanges False (if failed then CHR 0x00 else hd s) False
                        (if negated then tl ch else ch) of
                   None \<Rightarrow> None
                 | Some (matched, ch') \<Rightarrow> matchChunk (failed \<or> matched = negated) ch' s')
              else if c = CHR ''?'' then matchChunk (failed \<or> hd s = CHR ''/'') ch s'
              else if c = CHR 0x5C then
                (case ch of
                   [] \<Rightarrow> None
                 | d # ch' \<Rightarrow> matchChunk (failed \<or> d \<noteq> hd s) ch' s')
              else matchChunk (failed \<or> c \<noteq> hd s) ch s'))"
  by pat_completeness auto
termination
proof (relation "measure (\<lambda>(failed, chunk, s). length chunk)", goal_cases)
  case (2 failed0 chunk s c ch failed s' negated a m ch')
  then show ?case using classRanges_length by (fastforce split: if_splits)
qed auto

declare matchChunk.simps [simp del]

fun scan :: "bool \<Rightarrow> string \<Rightarrow> string \<times> string" where
  "scan inrange [] = ([], [])"
| "scan inrange [c] = (if c = CHR ''*'' \<and> \<not> inrange then ([], [c]) else ([c], []))"
| "scan inrange (c # d # ds) =
     (if c = CHR 0x5C then (case scan inrange ds of (a, b) \<Rightarrow> (c # d # a, b))
      else if c = CHR ''*'' \<and> \<not> inrange then ([], c # d # ds)
      else (case scan (c = CHR ''['' \<or> inrange \<and> c \<noteq> CHR '']'') (d # ds) of (a, b) \<Rightarrow> (c # a, b)))"

definition scanChunk :: "string \<Rightarrow> bool \<times> string \<times> string" where
  "scanChunk pattern =
     (let p = dropWhile (\<lambda>c. c = CHR ''*'') pattern in (p \<noteq> pattern, scan False p))"

lemma scan_append: "fst (scan b s) @ snd (scan b s) = s"
  by (induction b s rule: scan.induct) (auto split: prod.splits)

lemma scan_progress: "s \<noteq> [] \<Longrightarrow> hd s \<noteq> CHR ''*'' \<Longrightarrow> length (snd (scan False s)) < length s"
proof -
  assume s: "s \<noteq> []" "hd s \<noteq> CHR ''*''"
  have "fst (scan False s) \<noteq> []"
    using s by (cases "(False, s)" rule: scan.cases) (auto split: prod.splits)
  then have "0 < length (fst (scan False s))" by simp
  then show ?thesis using arg_cong [OF scan_append [of False s], of length]
    by (simp only: length_append)
qed

lemma scanChunk_length: "p \<noteq> [] \<Longrightarrow> scanChunk p = (star, chunk, rest) \<Longrightarrow> length rest < length p"
proof -
  assume p: "p \<noteq> []" and "scanChunk p = (star, chunk, rest)"
  then have r: "rest = snd (scan False (dropWhile (\<lambda>c. c = CHR ''*'') p))"
    by (auto simp: scanChunk_def Let_def)
  let ?q = "dropWhile (\<lambda>c. c = CHR ''*'') p"
  have le: "length ?q \<le> length p" by (rule length_dropWhile_le)
  show ?thesis
  proof (cases "?q = []")
    case False
    then show ?thesis using r le scan_progress [OF False] hd_dropWhile [OF False] by auto
  next
    case True
    then show ?thesis unfolding r True using p by simp
  qed
qed

text \<open>The rest of a pattern is syntactically valid.\<close>

function restValid :: "string \<Rightarrow> bool" where
  "restValid pattern =
     (if pattern = [] then True
      else (case scanChunk pattern of (star, chunk, rest) \<Rightarrow>
              matchChunk False chunk [] \<noteq> None \<and> restValid rest))"
  by pat_completeness auto
termination
  by (relation "measure length") (auto dest: scanChunk_length [OF _ sym])

declare restValid.simps [simp del]

text \<open>After a star: the first later position at which the chunk matches.\<close>

fun skipMatch :: "string \<Rightarrow> bool \<Rightarrow> string \<Rightarrow> (string option) option" where
  "skipMatch chunk isLast [] = Some None"
| "skipMatch chunk isLast (c # name) =
     (if c = CHR ''/'' then Some None
      else (case matchChunk False chunk name of
              None \<Rightarrow> None
            | Some None \<Rightarrow> skipMatch chunk isLast name
            | Some (Some t) \<Rightarrow> if isLast \<and> t \<noteq> [] then skipMatch chunk isLast name else Some (Some t)))"

function path_Match :: "string \<Rightarrow> string \<Rightarrow> bool option" where
  "path_Match pattern name =
     (if pattern = [] then Some (name = [])
      else (case scanChunk pattern of (star, chunk, rest) \<Rightarrow>
        if star \<and> chunk = [] then Some (CHR ''/'' \<notin> set name)
        else (case matchChunk False chunk name of
                None \<Rightarrow> None
              | Some here \<Rightarrow>
                  if here \<noteq> None \<and> (the here = [] \<or> rest \<noteq> []) then path_Match rest (the here)
                  else (case (if star then skipMatch chunk (rest = []) name else Some None) of
                          None \<Rightarrow> None
                        | Some (Some t) \<Rightarrow> path_Match rest t
                        | Some None \<Rightarrow> if restValid rest then Some False else None))))"
  by pat_completeness auto
termination
  by (relation "measure (\<lambda>(p, n). length p)") (auto dest: scanChunk_length [OF _ sym])

declare path_Match.simps [simp del]

section \<open>A pattern is malformed independently of the name\<close>

lemma matchChunk_Cons: "matchChunk f (c # ch) s =
  (let failed = (f \<or> s = []); s' = (if failed then s else tl s)
   in if c = CHR ''['' then
        (let negated = (ch \<noteq> [] \<and> hd ch = CHR ''^'') in
         case classRanges False (if failed then CHR 0x00 else hd s) False
                (if negated then tl ch else ch) of
           None \<Rightarrow> None
         | Some (matched, ch') \<Rightarrow> matchChunk (failed \<or> matched = negated) ch' s')
      else if c = CHR ''?'' then matchChunk (failed \<or> hd s = CHR ''/'') ch s'
      else if c = CHR 0x5C then
        (case ch of [] \<Rightarrow> None | d # ch' \<Rightarrow> matchChunk (failed \<or> d \<noteq> hd s) ch' s')
      else matchChunk (failed \<or> c \<noteq> hd s) ch s')"
  by (subst matchChunk.simps) simp

lemma same_snd_Some: "map_option snd a = map_option snd b \<Longrightarrow> a = Some (m, r) \<Longrightarrow> \<exists>m'. b = Some (m', r)"
  by (cases b) auto

lemma same_snd_None: "map_option snd a = map_option snd b \<Longrightarrow> a = None \<Longrightarrow> b = None"
  by (cases b) auto

lemma matchChunk_error_iff: "matchChunk f chunk s = None \<longleftrightarrow> matchChunk g chunk s' = None"
proof (induction f chunk s arbitrary: g s' rule: matchChunk.induct)
  case (1 f chunk s)
  show ?case
  proof (cases chunk)
    case (Cons c ch)
    let ?neg = "ch \<noteq> [] \<and> hd ch = CHR ''^''"
    let ?cl = "\<lambda>f s. classRanges False (if f \<or> s = [] then CHR 0x00 else hd s) False
                 (if ?neg then tl ch else ch)"
    consider (cl) "c = CHR ''[''" | (any) "c = CHR ''?''" | (esc) "c = CHR 0x5C"
      | (lit) "c \<noteq> CHR ''[''" "c \<noteq> CHR ''?''" "c \<noteq> CHR 0x5C" by blast
    then show ?thesis
    proof cases
      case cl
      have unf: "matchChunk f (c # ch) s = (case ?cl f s of None \<Rightarrow> None | Some (matched, ch') \<Rightarrow>
          matchChunk ((f \<or> s = []) \<or> matched = ?neg) ch' (if f \<or> s = [] then s else tl s))" for f s
        unfolding matchChunk_Cons Let_def if_P [OF cl] ..
      have sh: "map_option snd (?cl f s) = map_option snd (?cl g s')" by (rule classRanges_shape)
      show ?thesis
      proof (cases "?cl f s")
        case None
        show ?thesis unfolding Cons unf None same_snd_None [OF sh None] by (simp only: option.case)
      next
        case (Some mr)
        obtain m r where mr: "mr = (m, r)" by (cases mr)
        obtain m' where s': "?cl g s' = Some (m', r)"
          using same_snd_Some [OF sh Some [unfolded mr]] by blast
        have "matchChunk ((f \<or> s = []) \<or> m = ?neg) r (if f \<or> s = [] then s else tl s) = None \<longleftrightarrow>
            matchChunk ((g \<or> s' = []) \<or> m' = ?neg) r (if g \<or> s' = [] then s' else tl s') = None"
          using "1.IH"(1) [OF Cons refl refl cl refl Some [unfolded mr] refl] .
        then show ?thesis unfolding Cons unf Some mr s' by (simp only: option.case prod.case)
      qed
    next
      case any
      then show ?thesis using "1.IH"(2) [OF Cons refl refl] unfolding Cons
        by (simp add: matchChunk_Cons Let_def)
    next
      case esc
      show ?thesis
      proof (cases ch)
        case Nil
        then show ?thesis unfolding Cons esc by (simp add: matchChunk_Cons Let_def)
      next
        case d: (Cons d ch')
        have "matchChunk ((f \<or> s = []) \<or> d \<noteq> hd s) ch' (if f \<or> s = [] then s else tl s) = None \<longleftrightarrow>
            matchChunk ((g \<or> s' = []) \<or> d \<noteq> hd s') ch' (if g \<or> s' = [] then s' else tl s') = None"
          by (rule "1.IH"(3) [OF Cons refl refl _ _ esc d]) (simp_all add: esc)
        then show ?thesis unfolding Cons d using esc by (simp add: matchChunk_Cons Let_def)
      qed
    next
      case lit
      then show ?thesis using "1.IH"(4) [OF Cons refl refl] unfolding Cons
        by (simp add: matchChunk_Cons Let_def)
    qed
  qed (simp add: matchChunk.simps)
qed

lemma skipMatch_error: "matchChunk False chunk [] \<noteq> None \<Longrightarrow> skipMatch chunk isLast name \<noteq> None"
proof (induction chunk isLast name rule: skipMatch.induct)
  case (2 chunk isLast c name)
  then obtain o' where "matchChunk False chunk name = Some o'"
    by (metis matchChunk_error_iff not_Some_eq)
  with 2 show ?case by (auto split: option.splits)
qed simp

lemma scanChunk_star_end: "scanChunk p = (star, [], rest) \<Longrightarrow> rest = []"
proof -
  assume "scanChunk p = (star, [], rest)"
  then have s: "scan False (dropWhile (\<lambda>c. c = CHR ''*'') p) = ([], rest)"
    by (auto simp: scanChunk_def Let_def)
  show ?thesis
  proof (cases "dropWhile (\<lambda>c. c = CHR ''*'') p = []")
    case False
    then show ?thesis
      using s scan_progress [OF False] hd_dropWhile [OF False]
        scan_append [of False "dropWhile (\<lambda>c. c = CHR ''*'') p"] by auto
  next
    case True
    then show ?thesis using s unfolding True by simp
  qed
qed

lemma path_Match_error_iff: "path_Match p name = None \<longleftrightarrow> \<not> restValid p"
proof (induction p name rule: path_Match.induct)
  case (1 p name)
  obtain star chunk rest where sc: "scanChunk p = (star, chunk, rest)" by (metis prod_cases3)
  show ?case
  proof (cases "p = [] \<or> star \<and> chunk = []")
    case True
    then show ?thesis
      using sc scanChunk_star_end [of p star rest] matchChunk.simps [of False "[]" "[]"]
        restValid.simps [of "[]"] restValid.simps [of p] path_Match.simps [of p name]
      by auto
  next
    case False
    show ?thesis
    proof (cases "matchChunk False chunk []")
      case None
      then have "matchChunk False chunk name = None" using matchChunk_error_iff by blast
      then show ?thesis using sc False None restValid.simps [of p] path_Match.simps [of p name] by auto
    next
      case (Some x)
      then have m: "matchChunk False chunk name \<noteq> None"
        by (metis matchChunk_error_iff option.distinct(1))
      then obtain here where h: "matchChunk False chunk name = Some here" by auto
      have k: "skipMatch chunk (rest = []) name \<noteq> None" by (rule skipMatch_error) (simp add: Some)
      have v: "restValid p \<longleftrightarrow> restValid rest"
        using False sc Some restValid.simps [of p] by auto
      have IH1: "here \<noteq> None \<Longrightarrow> the here = [] \<or> rest \<noteq> [] \<Longrightarrow>
          path_Match rest (the here) = None \<longleftrightarrow> \<not> restValid rest"
        using "1.IH"(1) sc False h by auto
      have IH2: "\<not> (here \<noteq> None \<and> (the here = [] \<or> rest \<noteq> [])) \<Longrightarrow>
          (if star then skipMatch chunk (rest = []) name else Some None) = Some (Some t) \<Longrightarrow>
          path_Match rest t = None \<longleftrightarrow> \<not> restValid rest" for t
        using "1.IH"(2) sc False h by auto
      have eq: "path_Match p name =
          (if here \<noteq> None \<and> (the here = [] \<or> rest \<noteq> []) then path_Match rest (the here)
           else (case (if star then skipMatch chunk (rest = []) name else Some None) of
                   None \<Rightarrow> None
                 | Some (Some t) \<Rightarrow> path_Match rest t
                 | Some None \<Rightarrow> if restValid rest then Some False else None))"
        using path_Match.simps [of p name] sc False h by auto
      have "(if star then skipMatch chunk (rest = []) name else Some None) \<noteq> None" using k by auto
      then show ?thesis unfolding eq v using IH1 IH2
        by (cases "if star then skipMatch chunk (rest = []) name else Some None")
          (auto split: option.splits simp del: not_None_eq)
    qed
  qed
qed

lemma path_Match_error_name: "path_Match p name = None \<longleftrightarrow> path_Match p name' = None"
  by (simp add: path_Match_error_iff)

lemma path_Match_examples:
  "path_Match ''web-*'' ''web-01'' = Some True"
  "path_Match ''w?b[0-9]'' ''web7'' = Some True"
  "path_Match ''*'' ''a/b'' = Some False"
  "path_Match ''[a'' ''x'' = None"
  by code_simp+

end
