(* ===== verification/FieldErr.thy ===== *)
theory FieldErr
  imports GoGlob
begin

text \<open>
  Field errors of the admission checks, as data (kind, path, detail; the reported value is left
  out), and the tag selectors of \<^verbatim>\<open>pkg/awsutil\<close> with their validation and their matching.
  A Go map is an association list in its iteration order.
\<close>

datatype ErrorType =
  FieldRequired | FieldInvalid | FieldNotSupported | FieldDuplicate | FieldForbidden | FieldNotFound
| FieldInternal

record FieldError =
  fe_Type :: ErrorType
  fe_Path :: string
  fe_Detail :: string

definition fieldError :: "ErrorType \<Rightarrow> string \<Rightarrow> string \<Rightarrow> FieldError" where
  "fieldError k p d = \<lparr>fe_Type = k, fe_Path = p, fe_Detail = d\<rparr>"

definition child :: "string \<Rightarrow> string \<Rightarrow> string" where
  "child p c = p @ ''.'' @ c"

definition index :: "string \<Rightarrow> nat \<Rightarrow> string" where
  "index p i = p @ ''['' @ show_nat i @ '']''"

section \<open>Tag selectors\<close>

record TagSelectorRequirement =
  tr_Key :: string
  tr_Operator :: string
  Values :: "string list"

record TagSelector =
  MatchTags :: "(string \<times> string) list"
  MatchExpressions :: "TagSelectorRequirement list"

definition matchTag :: "(string \<times> string) list \<Rightarrow> string \<times> string \<Rightarrow> bool" where
  "matchTag resourceTags kv =
     (case map_of resourceTags (fst kv) of
        None \<Rightarrow> False
      | Some resourceValue \<Rightarrow> \<not> (snd kv \<noteq> '''' \<and> resourceValue \<noteq> snd kv))"

text \<open>A pattern error counts as no match.\<close>

definition globMatches :: "string list \<Rightarrow> string \<Rightarrow> bool" where
  "globMatches patterns v = list_ex (\<lambda>p. path_Match p v = Some True) patterns"

definition matchExpression :: "(string \<times> string) list \<Rightarrow> TagSelectorRequirement \<Rightarrow> bool" where
  "matchExpression resourceTags expr =
     (let rv = map_of resourceTags (tr_Key expr); op = tr_Operator expr in
      if op = ''In'' then (case rv of None \<Rightarrow> False | Some v \<Rightarrow> v \<in> set (Values expr))
      else if op = ''NotIn'' then (case rv of None \<Rightarrow> True | Some v \<Rightarrow> v \<notin> set (Values expr))
      else if op = ''Exists'' then rv \<noteq> None
      else if op = ''DoesNotExist'' then rv = None
      else if op = ''Matches'' then (case rv of None \<Rightarrow> False | Some v \<Rightarrow> globMatches (Values expr) v)
      else if op = ''NotMatches'' then (case rv of None \<Rightarrow> True | Some v \<Rightarrow> \<not> globMatches (Values expr) v)
      else False)"

definition Match :: "(string \<times> string) list \<Rightarrow> TagSelector option \<Rightarrow> bool" where
  "Match resourceTags selector =
     (case selector of
        None \<Rightarrow> True
      | Some sel \<Rightarrow> list_all (matchTag resourceTags) (MatchTags sel) \<and>
                   list_all (matchExpression resourceTags) (MatchExpressions sel))"

definition validateExpression :: "TagSelectorRequirement \<Rightarrow> string \<Rightarrow> FieldError list" where
  "validateExpression expr fldPath =
     (let op = tr_Operator expr in
      (if tr_Key expr = '''' then [fieldError FieldRequired (child fldPath ''key'') ''''] else []) @
      (if op \<in> {''In'', ''NotIn'', ''Matches'', ''NotMatches''} then
         (if Values expr = [] then [fieldError FieldRequired (child fldPath ''values'')
            (''operator '' @ quote op @ '' requires at least one value'')] else [])
       else if op \<in> {''Exists'', ''DoesNotExist''} then
         (if Values expr \<noteq> [] then [fieldError FieldForbidden (child fldPath ''values'')
            (''operator '' @ quote op @ '' does not accept values'')] else [])
       else [fieldError FieldNotSupported (child fldPath ''operator'') op]) @
      (if op = ''Matches'' \<or> op = ''NotMatches'' then
         concat (map (\<lambda>(i, p). if path_Match p '''' = None
           then [fieldError FieldInvalid (index (child fldPath ''values'') i)
                   ''invalid glob pattern: syntax error in pattern''] else [])
           (enumerate 0 (Values expr)))
       else []))"

definition ValidateTagSelector :: "TagSelector option \<Rightarrow> string \<Rightarrow> FieldError list" where
  "ValidateTagSelector selector fldPath =
     (case selector of
        None \<Rightarrow> []
      | Some sel \<Rightarrow> concat (map (\<lambda>(i, e). validateExpression e (index (child fldPath ''matchExpressions'') i))
                     (enumerate 0 (MatchExpressions sel))))"

definition ToTagSelector :: "(string \<times> string) list \<Rightarrow> TagSelector option" where
  "ToTagSelector tags = (if tags = [] then None else Some \<lparr>MatchTags = tags, MatchExpressions = []\<rparr>)"

section \<open>What a valid selector guarantees\<close>

lemma enumerate_all: "(\<forall>(i, x) \<in> set (enumerate n xs). P x) \<longleftrightarrow> (\<forall>x \<in> set xs. P x)"
proof -
  have "snd ` set (enumerate n xs) = set xs" by (metis list.set_map map_snd_enumerate)
  then show ?thesis by (force simp: split_def)
qed

lemma concat_enumerate_Nil:
  assumes "\<And>i x. f i x = [] \<longleftrightarrow> P x"
  shows "concat (map (\<lambda>(i, x). f i x) (enumerate n xs)) = [] \<longleftrightarrow> (\<forall>x \<in> set xs. P x)"
proof (induction xs arbitrary: n)
  case (Cons x xs)
  then show ?case by (simp add: assms)
qed simp

definition requirement_ok :: "TagSelectorRequirement \<Rightarrow> bool" where
  "requirement_ok e \<longleftrightarrow> tr_Key e \<noteq> '''' \<and>
     (tr_Operator e \<in> {''In'', ''NotIn'', ''Matches'', ''NotMatches''} \<and> Values e \<noteq> [] \<or>
      tr_Operator e \<in> {''Exists'', ''DoesNotExist''} \<and> Values e = []) \<and>
     (tr_Operator e \<in> {''Matches'', ''NotMatches''} \<longrightarrow> (\<forall>p \<in> set (Values e). restValid p))"

lemma validateExpression_ok: "validateExpression e p = [] \<longleftrightarrow> requirement_ok e"
proof -
  have "(\<forall>x \<in> set (enumerate 0 (Values e)). (case x of (i, q) \<Rightarrow> if path_Match q '''' = None
      then [fieldError FieldInvalid (index (child p ''values'') i)
              ''invalid glob pattern: syntax error in pattern''] else []) = [])
    \<longleftrightarrow> (\<forall>q \<in> set (Values e). restValid q)"
    using enumerate_all [where P = restValid and xs = "Values e" and n = 0]
    by (auto simp: path_Match_error_iff split: prod.splits)
  then show ?thesis
    by (auto simp: validateExpression_def requirement_ok_def Let_def)
qed

lemma ValidateTagSelector_ok:
  "ValidateTagSelector (Some sel) p = [] \<longleftrightarrow> (\<forall>e \<in> set (MatchExpressions sel). requirement_ok e)"
  unfolding ValidateTagSelector_def
  using enumerate_all [where P = requirement_ok and xs = "MatchExpressions sel" and n = 0]
  by (auto simp: validateExpression_ok)

text \<open>
  A validated selector never meets a malformed pattern at match time: the pattern error that the
  matcher discards cannot occur, so each pair of opposite operators really is a complement on
  resources that carry the key.
\<close>

lemma validated_glob_total:
  assumes "ValidateTagSelector (Some sel) p = []" "e \<in> set (MatchExpressions sel)"
    "tr_Operator e \<in> {''Matches'', ''NotMatches''}" "q \<in> set (Values e)"
  shows "path_Match q v \<noteq> None"
  using assms by (auto simp: ValidateTagSelector_ok requirement_ok_def path_Match_error_iff)

definition negate :: "TagSelectorRequirement \<Rightarrow> TagSelectorRequirement" where
  "negate e = e\<lparr>tr_Operator := the (map_of [(''In'', ''NotIn''), (''NotIn'', ''In''), (''Exists'', ''DoesNotExist''),
     (''DoesNotExist'', ''Exists''), (''Matches'', ''NotMatches''), (''NotMatches'', ''Matches'')] (tr_Operator e))\<rparr>"

text \<open>
  A tag requirement and its opposite (In and NotIn, Exists and DoesNotExist, Matches and
  NotMatches) that both pass validation select complementary sets of resources, whatever
  the tags are.
\<close>

lemma negated_requirement_complement:
  assumes "validateExpression e p = []"
  shows "matchExpression tags (negate e) \<longleftrightarrow> \<not> matchExpression tags e"
proof -
  have "tr_Operator e \<in> {''In'', ''NotIn'', ''Matches'', ''NotMatches'', ''Exists'', ''DoesNotExist''}"
    using assms by (auto simp: validateExpression_ok requirement_ok_def)
  then show ?thesis
    by (elim insertE emptyE) (auto simp: matchExpression_def negate_def Let_def split: option.splits)
qed

lemma negated_requirement_complement_witness:
  "matchExpression [(''env'', ''web-1'')] \<lparr>tr_Key = ''env'', tr_Operator = ''Matches'', Values = [''web-*'']\<rparr> \<and>
   \<not> matchExpression [(''env'', ''web-1'')] (negate \<lparr>tr_Key = ''env'', tr_Operator = ''Matches'', Values = [''web-*'']\<rparr>)"
proof -
  let ?e = "\<lparr>tr_Key = ''env'', tr_Operator = ''Matches'', Values = [''web-*'']\<rparr>"
  have v: "validateExpression ?e ''selector'' = []" by code_simp
  have m: "matchExpression [(''env'', ''web-1'')] ?e" by code_simp
  show ?thesis using m negated_requirement_complement [OF v, of "[(''env'', ''web-1'')]"] by simp
qed

lemma Match_ToTagSelector:
  "Match tags (ToTagSelector legacy) \<longleftrightarrow> (\<forall>kv \<in> set legacy. matchTag tags kv)"
  by (auto simp: Match_def ToTagSelector_def list_all_iff)

end
