(* ===== verification/GoDuration.thy ===== *)
theory GoDuration
  imports GoParse
begin

text \<open>
  Go's \<open>time.ParseDuration\<close>: a signed sequence of decimal numbers with unit suffixes, as a count
  of nanoseconds.  The fraction of a unit is truncated exactly here; the library computes it in
  floating point, which can differ from it by one nanosecond.  The unsigned 64-bit accumulators
  are integers with the overflow tests written out.
\<close>

definition unitMap :: "(string \<times> int) list" where
  "unitMap = [(''ns'', 1), (''us'', 1000), ([CHR 0xC2, CHR 0xB5, CHR ''s''], 1000),
     ([CHR 0xCE, CHR 0xBC, CHR ''s''], 1000), (''ms'', 1000000), (''s'', 1000000000),
     (''m'', 60000000000), (''h'', 3600000000000)]"

definition isUnitChar :: "char \<Rightarrow> bool" where
  "isUnitChar c \<longleftrightarrow> c \<noteq> CHR ''.'' \<and> digit_val c = None"

text \<open>The fraction: digits past the point where the accumulator would overflow are dropped.\<close>

fun fractionDigits :: "int \<Rightarrow> int \<Rightarrow> nat list \<Rightarrow> int \<times> int" where
  "fractionDigits x scale [] = (x, scale)"
| "fractionDigits x scale (d # ds) =
     (if x > (2 ^ 63 - 1) div 10 \<or> 10 * x + int d > 2 ^ 63 then (x, scale)
      else fractionDigits (10 * x + int d) (10 * scale) ds)"

text \<open>One number and its unit: the nanoseconds and the rest of the string.\<close>

definition durationTerm :: "string \<Rightarrow> (int \<times> string) option" where
  "durationTerm s =
     (case leading_digits s of (ds, s1) \<Rightarrow>
      (case (if s1 \<noteq> [] \<and> hd s1 = CHR ''.'' then leading_digits (tl s1) else ([], s1)) of (fs, s2) \<Rightarrow>
       (let v = foldl (\<lambda>a d. 10 * a + int d) 0 ds; u = takeWhile isUnitChar s2; s3 = dropWhile isUnitChar s2 in
        if v > 2 ^ 63 \<or> ds = [] \<and> fs = [] \<or> u = [] then None
        else (case map_of unitMap u of
                None \<Rightarrow> None
              | Some un \<Rightarrow>
                  (let (f, scale) = fractionDigits 0 1 fs; v' = v * un + f * un div scale in
                   if v > 2 ^ 63 div un \<or> v' > 2 ^ 63 then None else Some (v', s3))))))"

lemma leading_digits_length: "length (snd (leading_digits s)) \<le> length s"
  by (induction s) (auto split: option.splits prod.splits)

lemma durationTerm_length:
  assumes "durationTerm s = Some (v, r)"
  shows "length r < length s"
proof -
  obtain ds s1 where l1: "leading_digits s = (ds, s1)" by fastforce
  obtain fs s2 where l2: "(if s1 \<noteq> [] \<and> hd s1 = CHR ''.'' then leading_digits (tl s1) else ([], s1)) = (fs, s2)"
    by fastforce
  have "length s2 \<le> length s"
    using l1 l2 leading_digits_length [of s] leading_digits_length [of "tl s1"]
    by (cases s1) (auto split: if_splits)
  moreover have "takeWhile isUnitChar s2 \<noteq> []" "r = dropWhile isUnitChar s2"
    using assms l1 l2 by (auto simp: durationTerm_def Let_def split: if_splits option.splits prod.splits)
  moreover have "length (takeWhile isUnitChar s2) + length (dropWhile isUnitChar s2) = length s2"
    by (metis length_append takeWhile_dropWhile_id)
  ultimately show ?thesis by (cases "takeWhile isUnitChar s2") auto
qed

function durationTerms :: "int \<Rightarrow> string \<Rightarrow> int option" where
  "durationTerms d s =
     (if s = [] then Some d
      else (case durationTerm s of
              None \<Rightarrow> None
            | Some (v, r) \<Rightarrow> if d + v > 2 ^ 63 then None else durationTerms (d + v) r))"
  by pat_completeness auto
termination
  by (relation "measure (\<lambda>(d, s). length s)") (auto dest: durationTerm_length)

declare durationTerms.simps [simp del]

definition ParseDuration :: "string \<Rightarrow> duration res" where
  "ParseDuration orig =
     (let (neg, s) = split_sign orig; fail = Inl (ErrMsg (''time: invalid duration '' @ quote orig)) in
      if s = ''0'' then Inr 0
      else if s = '''' then fail
      else (case durationTerms 0 s of
              None \<Rightarrow> fail
            | Some d \<Rightarrow> if neg then Inr (- d)
                        else if d > 2 ^ 63 - 1 then fail else Inr d))"

lemma durationTerms_bound: "durationTerms d s = Some r \<Longrightarrow> d \<le> 2 ^ 63 \<Longrightarrow> r \<le> 2 ^ 63"
proof (induction d s rule: durationTerms.induct)
  case (1 d s)
  show ?case
  proof (cases "s = []")
    case False
    then obtain v t where "durationTerm s = Some (v, t)" "\<not> d + v > 2 ^ 63"
        "durationTerms (d + v) t = Some r"
      using "1.prems"(1) by (subst (asm) durationTerms.simps) (auto split: option.splits if_splits)
    with 1 False show ?thesis by auto
  qed (use 1 durationTerms.simps [of d s] in simp)
qed

lemma fractionDigits_nonneg:
  "0 \<le> x \<Longrightarrow> 0 < sc \<Longrightarrow> fractionDigits x sc ds = (f, sc') \<Longrightarrow> 0 \<le> f \<and> 0 < sc'"
  by (induction x sc ds rule: fractionDigits.induct) (auto split: if_splits)

lemma digits_nonneg: "0 \<le> (a::int) \<Longrightarrow> 0 \<le> foldl (\<lambda>a d. 10 * a + int d) a ds"
  by (induction ds arbitrary: a) auto

lemma unit_pos: "map_of unitMap u = Some w \<Longrightarrow> 0 < w"
  by (auto simp: unitMap_def split: if_splits)

lemma durationTerm_nonneg: "durationTerm s = Some (v, r) \<Longrightarrow> 0 \<le> v"
  using digits_nonneg [of 0 "fst (leading_digits s)"]
  by (auto simp: durationTerm_def Let_def split: prod.splits if_splits option.splits
      intro!: add_nonneg_nonneg mult_nonneg_nonneg pos_imp_zdiv_nonneg_iff [THEN iffD2]
      dest: unit_pos fractionDigits_nonneg [of 0 1, simplified] less_imp_le)

lemma durationTerms_nonneg: "durationTerms d s = Some r \<Longrightarrow> 0 \<le> d \<Longrightarrow> 0 \<le> r"
proof (induction d s rule: durationTerms.induct)
  case (1 d s)
  show ?case
  proof (cases "s = []")
    case False
    then obtain v t where v: "durationTerm s = Some (v, t)" "\<not> d + v > 2 ^ 63"
        "durationTerms (d + v) t = Some r"
      using "1.prems"(1) by (subst (asm) durationTerms.simps) (auto split: option.splits if_splits)
    with 1 False show ?thesis using durationTerm_nonneg [OF v(1)] by auto
  qed (use 1 durationTerms.simps [of d s] in simp)
qed

text \<open>A parsed duration fits Go's 64-bit \<open>time.Duration\<close>.\<close>

lemma ParseDuration_range:
  assumes "ParseDuration s = Inr d"
  shows "- (2 ^ 63) \<le> d \<and> d < 2 ^ 63"
proof -
  obtain neg r where p: "split_sign s = (neg, r)" by fastforce
  show ?thesis
  proof (cases "durationTerms 0 r")
    case (Some e)
    then show ?thesis
      using assms p durationTerms_bound [OF Some] durationTerms_nonneg [OF Some]
      by (auto simp: ParseDuration_def Let_def split: if_splits)
  qed (use assms p in \<open>auto simp: ParseDuration_def Let_def split: if_splits\<close>)
qed

lemma ParseDuration_examples:
  "ParseDuration ''15m30s'' = Inr (15 * Minute + 30 * Second)"
  "ParseDuration ''1.5h'' = Inr (90 * Minute)"
  "ParseDuration ''-250ms'' = Inr (- 250000000)"
  "isl (ParseDuration ''5'')" "isl (ParseDuration ''5 m'')" "ParseDuration ''0'' = Inr 0"
  by code_simp+

end
