(* ===== verification/ExecParams.thy ===== *)
theory ExecParams
  imports FieldErr GoDuration
begin

text \<open>
  Executor parameters and their validation (\<^verbatim>\<open>pkg/executorparams\<close>).  Decoding of the raw JSON
  into each parameter struct, the Kubernetes label-selector validation and the rendering of a
  field error as text are parameters of the model (a record of functions); everything else is
  written out.  A Go map is an association list in its iteration order.
\<close>

section \<open>Parameter types\<close>

record AwaitCompletion =
  Enabled :: bool
  ac_Timeout :: string

record EC2Selector =
  e2_Tags :: "(string \<times> string) list"
  e2_TagSelector :: "TagSelector option"
  e2_InstanceIDs :: "string list"

record EC2Parameters =
  e2_Selector :: EC2Selector
  e2_AwaitCompletion :: AwaitCompletion

record RDSSelector =
  rd_Tags :: "(string \<times> string) list"
  rd_ExcludeTags :: "(string \<times> string) list"
  rd_TagSelector :: "TagSelector option"
  InstanceIds :: "string list"
  ClusterIds :: "string list"
  IncludeAll :: bool
  DiscoverInstances :: bool
  DiscoverClusters :: bool

record RDSParameters =
  SnapshotBeforeStop :: bool
  rd_Selector :: RDSSelector
  rd_AwaitCompletion :: AwaitCompletion

record EKSParameters =
  ClusterName :: string
  NodeGroups :: "string list"
  ek_AwaitCompletion :: AwaitCompletion

record LabelSelectorRequirement =
  lr_Key :: string
  lr_Operator :: string
  lr_Values :: "string list"

record LabelSelector =
  ls_MatchLabels :: "(string \<times> string) list"
  ls_MatchExpressions :: "LabelSelectorRequirement list"

record KarpenterParameters =
  ka_NodePools :: "string list"
  NodeSelector :: "LabelSelector option"
  ka_AwaitCompletion :: AwaitCompletion

record GKEParameters =
  gk_NodePools :: "string list"

record CloudSQLParameters =
  InstanceName :: string
  Project :: string

record NamespaceSelector =
  Literals :: "string list"
  ns_Selector :: "(string \<times> string) list"

record WorkloadScalerParameters =
  IncludedGroups :: "string list"
  ws_Namespace :: NamespaceSelector
  WorkloadSelector :: "LabelSelector option"
  ws_AwaitCompletion :: AwaitCompletion

record NoOpParameters =
  RandomDelaySeconds :: int
  FailureMode :: string
  FailureMessage :: string

text \<open>
  What validation calls outside the repository: the JSON decoder at each type (a decoding error
  is its text; at the type of a raw map, the keys in iteration order), the label-selector check
  of the Kubernetes libraries, and the text of a field error.
\<close>

record ParamLibs =
  decodeMap :: "string \<Rightarrow> (string list) res"
  decodeEC2 :: "string \<Rightarrow> EC2Parameters res"
  decodeRDS :: "string \<Rightarrow> RDSParameters res"
  decodeEKS :: "string \<Rightarrow> EKSParameters res"
  decodeKarpenter :: "string \<Rightarrow> KarpenterParameters res"
  decodeGKE :: "string \<Rightarrow> GKEParameters res"
  decodeCloudSQL :: "string \<Rightarrow> CloudSQLParameters res"
  decodeWorkloadScaler :: "string \<Rightarrow> WorkloadScalerParameters res"
  labelSelectorErrors :: "LabelSelector \<Rightarrow> string option"
  errorText :: "FieldError \<Rightarrow> string"

section \<open>Results\<close>

record Result =
  Errors :: "string list"
  Warnings :: "string list"

definition emptyResult :: Result where "emptyResult = \<lparr>Errors = [], Warnings = []\<rparr>"

definition HasErrors :: "Result \<Rightarrow> bool" where "HasErrors r \<longleftrightarrow> Errors r \<noteq> []"

definition Merge :: "Result \<Rightarrow> Result option \<Rightarrow> Result" where
  "Merge r other =
     (case other of
        None \<Rightarrow> r
      | Some o' \<Rightarrow> \<lparr>Errors = Errors r @ Errors o', Warnings = Warnings r @ Warnings o'\<rparr>)"

definition AddError :: "string \<Rightarrow> Result \<Rightarrow> Result" where
  "AddError msg r = r\<lparr>Errors := Errors r @ [msg]\<rparr>"

definition AddWarning :: "string \<Rightarrow> Result \<Rightarrow> Result" where
  "AddWarning msg r = r\<lparr>Warnings := Warnings r @ [msg]\<rparr>"

text \<open>A guarded statement of a validator body.\<close>

definition whenP :: "bool \<Rightarrow> (Result \<Rightarrow> Result) \<Rightarrow> Result \<Rightarrow> Result" where
  "whenP c f r = (if c then f r else r)"

section \<open>Validators\<close>

definition validateWaitTimeout :: "string \<Rightarrow> go_error option" where
  "validateWaitTimeout timeout =
     (if timeout = '''' then None
      else (case ParseDuration timeout of Inl e \<Rightarrow> Some e | Inr _ \<Rightarrow> None))"

definition checkAwait :: "AwaitCompletion \<Rightarrow> Result \<Rightarrow> Result" where
  "checkAwait a r =
     (if Enabled a \<and> ac_Timeout a \<noteq> '''' then
        (case validateWaitTimeout (ac_Timeout a) of
           Some e \<Rightarrow> AddError (''awaitCompletion.timeout has invalid duration format: '' @ err_text e) r
         | None \<Rightarrow> r)
      else r)"

definition validateLabelSelector :: "ParamLibs \<Rightarrow> LabelSelector option \<Rightarrow> string option" where
  "validateLabelSelector L ls = (case ls of None \<Rightarrow> None | Some s \<Rightarrow> labelSelectorErrors L s)"

definition checkLabelSelector :: "ParamLibs \<Rightarrow> string \<Rightarrow> LabelSelector option \<Rightarrow> Result \<Rightarrow> Result" where
  "checkLabelSelector L what ls r =
     (case validateLabelSelector L ls of
        Some e \<Rightarrow> AddError (what @ '' validation failed: '' @ e) r
      | None \<Rightarrow> r)"

definition hasTagSelector :: "TagSelector option \<Rightarrow> bool" where
  "hasTagSelector t = (case t of None \<Rightarrow> False | Some s \<Rightarrow> MatchTags s \<noteq> [] \<or> MatchExpressions s \<noteq> [])"

definition checkTagSelector :: "ParamLibs \<Rightarrow> TagSelector option \<Rightarrow> Result \<Rightarrow> Result" where
  "checkTagSelector L t r =
     fold (\<lambda>e. AddError (''selector.tagSelector: '' @ errorText L e))
       (ValidateTagSelector t ''selector.tagSelector'') r"

text \<open>The shape every validator shares: absent parameters, undecodable JSON, then the checks.\<close>

definition withParams ::
    "(string \<Rightarrow> 'p res) \<Rightarrow> Result \<Rightarrow> string \<Rightarrow> ('p \<Rightarrow> Result \<Rightarrow> Result) \<Rightarrow> Result" where
  "withParams decode absent params body =
     (if params = [] then absent
      else (case decode params of
              Inl e \<Rightarrow> AddError (''invalid JSON format: '' @ err_text e) emptyResult
            | Inr p \<Rightarrow> body p emptyResult))"

definition validateEC2Params :: "ParamLibs \<Rightarrow> string \<Rightarrow> Result" where
  "validateEC2Params L params =
     withParams (decodeEC2 L)
       (AddError ''parameters required: either selector.tags, selector.tagSelector, or selector.instanceIds must be specified'' emptyResult)
       params
       (\<lambda>p r.
          let sel = e2_Selector p;
              hasTS = hasTagSelector (e2_TagSelector sel);
              hasTags = (e2_Tags sel \<noteq> []);
              hasInstanceIDs = (e2_InstanceIDs sel \<noteq> []);
              r1 = whenP (\<not> hasTags \<and> \<not> hasTS \<and> \<not> hasInstanceIDs)
                (AddError ''either selector.tags, selector.tagSelector, or selector.instanceIds must be specified'') r;
              r2 = whenP (hasTags \<and> hasInstanceIDs)
                (AddError ''selector.tags and selector.instanceIds are mutually exclusive (both are server-side filters)'') r1;
              r3 = whenP (hasTags \<and> hasTS)
                (AddError ''selector.tags and selector.tagSelector are mutually exclusive'') r2;
              r4 = checkTagSelector L (e2_TagSelector sel) r3
          in checkAwait (e2_AwaitCompletion p) r4)"

definition methodCount :: "RDSSelector \<Rightarrow> nat" where
  "methodCount sel =
     (if rd_Tags sel \<noteq> [] \<or> rd_ExcludeTags sel \<noteq> [] \<or> hasTagSelector (rd_TagSelector sel) then 1 else 0) +
     (if InstanceIds sel \<noteq> [] \<or> ClusterIds sel \<noteq> [] then 1 else 0) +
     (if IncludeAll sel then 1 else 0)"

definition validateRDSParams :: "ParamLibs \<Rightarrow> string \<Rightarrow> Result" where
  "validateRDSParams L params =
     withParams (decodeRDS L)
       (AddError ''parameters required: selector must specify at least one selection method'' emptyResult)
       params
       (\<lambda>p r.
          let sel = rd_Selector p;
              hasTS = hasTagSelector (rd_TagSelector sel);
              hasSelection = (rd_Tags sel \<noteq> [] \<or> rd_ExcludeTags sel \<noteq> [] \<or> hasTS \<or> InstanceIds sel \<noteq> [] \<or>
                ClusterIds sel \<noteq> [] \<or> IncludeAll sel);
              r1 = whenP (\<not> hasSelection)
                (AddError ''selector must specify at least one of: tags, excludeTags, tagSelector, instanceIds, clusterIds, or includeAll'') r;
              r2 = whenP (methodCount sel > 1)
                (AddError ''selector must use only one method: either (tags/excludeTags/tagSelector), (instanceIds/clusterIds), or includeAll'') r1;
              r3 = whenP (rd_Tags sel \<noteq> [] \<and> rd_ExcludeTags sel \<noteq> [])
                (AddError ''selector.tags and selector.excludeTags are mutually exclusive'') r2;
              r4 = whenP (hasTS \<and> (rd_Tags sel \<noteq> [] \<or> rd_ExcludeTags sel \<noteq> []))
                (AddError ''selector.tagSelector is mutually exclusive with selector.tags and selector.excludeTags'') r3;
              r5 = checkTagSelector L (rd_TagSelector sel) r4;
              isDynamicDiscovery = (rd_Tags sel \<noteq> [] \<or> rd_ExcludeTags sel \<noteq> [] \<or> hasTS \<or> IncludeAll sel);
              isIntentBased = (InstanceIds sel \<noteq> [] \<or> ClusterIds sel \<noteq> []);
              r6 = whenP (isIntentBased \<and> (DiscoverInstances sel \<or> DiscoverClusters sel))
                (AddWarning ''discoverInstances and discoverClusters are ignored when using explicit instanceIds or clusterIds'') r5;
              r7 = whenP (isDynamicDiscovery \<and> \<not> DiscoverInstances sel \<and> \<not> DiscoverClusters sel)
                (AddError ''at least one of discoverInstances or discoverClusters must be explicitly set to true for dynamic discovery (tags/excludeTags/tagSelector/includeAll)'') r6
          in checkAwait (rd_AwaitCompletion p) r7)"

definition validateEKSParams :: "ParamLibs \<Rightarrow> string \<Rightarrow> Result" where
  "validateEKSParams L params =
     withParams (decodeEKS L) (AddError ''parameters required: clusterName must be specified'' emptyResult) params
       (\<lambda>p r. checkAwait (ek_AwaitCompletion p)
          (whenP (ClusterName p = '''') (AddError ''clusterName is required'') r))"

definition validateKarpenterParams :: "ParamLibs \<Rightarrow> string \<Rightarrow> Result" where
  "validateKarpenterParams L params =
     withParams (decodeKarpenter L) emptyResult params
       (\<lambda>p r.
          let hasNodePools = (ka_NodePools p \<noteq> []);
              hasNodeSelector = (case NodeSelector p of None \<Rightarrow> False
                | Some s \<Rightarrow> ls_MatchLabels s \<noteq> [] \<or> ls_MatchExpressions s \<noteq> []);
              r1 = whenP (hasNodePools \<and> hasNodeSelector)
                (AddError ''nodePools and nodeSelector are mutually exclusive'') r;
              r2 = checkLabelSelector L ''nodeSelector'' (NodeSelector p) r1
          in checkAwait (ka_AwaitCompletion p) r2)"

definition validateGKEParams :: "ParamLibs \<Rightarrow> string \<Rightarrow> Result" where
  "validateGKEParams L params =
     withParams (decodeGKE L) (AddError ''parameters required: nodePools must be specified'' emptyResult) params
       (\<lambda>p r. whenP (gk_NodePools p = []) (AddError ''nodePools must be specified and non-empty'') r)"

definition validateCloudSQLParams :: "ParamLibs \<Rightarrow> string \<Rightarrow> Result" where
  "validateCloudSQLParams L params =
     withParams (decodeCloudSQL L)
       (AddError ''parameters required: instanceName and project must be specified'' emptyResult) params
       (\<lambda>p r. whenP (Project p = '''') (AddError ''project must be specified'')
          (whenP (InstanceName p = '''') (AddError ''instanceName must be specified'') r))"

definition validateWorkloadScalerParams :: "ParamLibs \<Rightarrow> string \<Rightarrow> Result" where
  "validateWorkloadScalerParams L params =
     withParams (decodeWorkloadScaler L)
       (AddError ''parameters required: namespace must be specified'' emptyResult) params
       (\<lambda>p r.
          let ns = ws_Namespace p;
              r1 = whenP (Literals ns = [] \<and> ns_Selector ns = [])
                (AddError ''namespace must specify either literals or selector'') r;
              r2 = whenP (Literals ns \<noteq> [] \<and> ns_Selector ns \<noteq> [])
                (AddError ''namespace.literals and namespace.selector are mutually exclusive'') r1;
              r3 = checkLabelSelector L ''workloadSelector'' (WorkloadSelector p) r2
          in checkAwait (ws_AwaitCompletion p) r3)"

section \<open>The registry\<close>

text \<open>The entries that the package's \<open>init\<close> registers.\<close>

definition registry :: "ParamLibs \<Rightarrow> (string \<times> (string list \<times> (string \<Rightarrow> Result))) list" where
  "registry L =
     [(''ec2'', ([''selector'', ''awaitCompletion''], validateEC2Params L)),
      (''rds'', ([''selector'', ''snapshotBeforeStop'', ''awaitCompletion''], validateRDSParams L)),
      (''eks'', ([''clusterName'', ''nodeGroups'', ''awaitCompletion''], validateEKSParams L)),
      (''karpenter'', ([''nodePools'', ''awaitCompletion''], validateKarpenterParams L)),
      (''gke'', ([''nodePools''], validateGKEParams L)),
      (''cloudsql'', ([''instanceName'', ''project''], validateCloudSQLParams L)),
      (''workloadscaler'', ([''includedGroups'', ''namespace'', ''workloadSelector'', ''awaitCompletion''],
         validateWorkloadScalerParams L))]"

definition checkUnknownFields :: "ParamLibs \<Rightarrow> string \<Rightarrow> string list \<Rightarrow> string \<Rightarrow> string list" where
  "checkUnknownFields L params knownFields executorType =
     (if params = [] then []
      else (case decodeMap L params of
              Inl e \<Rightarrow> []
            | Inr rawMap \<Rightarrow>
                map (\<lambda>f. ''unknown parameter '' @ quote f @ '' for executor type '' @ quote executorType @
                       '' (known parameters: '' @ join '', '' knownFields @ '')'')
                  (filter (\<lambda>f. f \<notin> set knownFields) rawMap)))"

definition ValidateParams :: "ParamLibs \<Rightarrow> string \<Rightarrow> string \<Rightarrow> Result option" where
  "ValidateParams L executorType params =
     (case map_of (registry L) executorType of
        None \<Rightarrow> None
      | Some (knownFields, validator) \<Rightarrow>
          (let result = (if knownFields \<noteq> [] \<and> params \<noteq> []
                 then emptyResult\<lparr>Warnings := checkUnknownFields L params knownFields executorType\<rparr>
                 else emptyResult)
           in Some (Merge result (Some (validator params)))))"

definition IsRegistered :: "ParamLibs \<Rightarrow> string \<Rightarrow> bool" where
  "IsRegistered L executorType \<longleftrightarrow> map_of (registry L) executorType \<noteq> None"

definition RegisteredTypes :: "ParamLibs \<Rightarrow> string list" where
  "RegisteredTypes L = sort (map fst (registry L))"

section \<open>Errors of a validator body\<close>

named_theorems no_errors \<open>when a validation step adds no error\<close>

lemma emptyResult_sel [no_errors, simp]: "Errors emptyResult = []" "Warnings emptyResult = []"
  by (simp_all add: emptyResult_def)

lemma AddError_Errors [no_errors, simp]: "Errors (AddError m r) = Errors r @ [m]"
  by (simp add: AddError_def)

lemma AddWarning_Errors [no_errors, simp]: "Errors (AddWarning m r) = Errors r"
  by (simp add: AddWarning_def)

lemma whenP_AddError [no_errors]: "Errors (whenP c (AddError m) r) = [] \<longleftrightarrow> \<not> c \<and> Errors r = []"
  by (simp add: whenP_def)

lemma whenP_AddWarning [no_errors]: "Errors (whenP c (AddWarning m) r) = Errors r"
  by (simp add: whenP_def)

definition await_ok :: "AwaitCompletion \<Rightarrow> bool" where
  "await_ok a \<longleftrightarrow> (Enabled a \<and> ac_Timeout a \<noteq> '''' \<longrightarrow> (\<exists>d. ParseDuration (ac_Timeout a) = Inr d))"

lemma checkAwait_ok [no_errors]: "Errors (checkAwait a r) = [] \<longleftrightarrow> await_ok a \<and> Errors r = []"
  by (auto simp: checkAwait_def validateWaitTimeout_def await_ok_def split: sum.splits option.splits)

lemma fold_AddError: "Errors (fold (\<lambda>e. AddError (f e)) es r) = Errors r @ map f es"
  by (induction es arbitrary: r) auto

lemma checkTagSelector_ok [no_errors]:
  "Errors (checkTagSelector L t r) = [] \<longleftrightarrow>
     (\<forall>s e. t = Some s \<longrightarrow> e \<in> set (MatchExpressions s) \<longrightarrow> requirement_ok e) \<and> Errors r = []"
  unfolding checkTagSelector_def fold_AddError
  by (cases t) (auto simp: ValidateTagSelector_ok ValidateTagSelector_def [of None])

lemma checkLabelSelector_ok [no_errors]:
  "Errors (checkLabelSelector L what ls r) = [] \<longleftrightarrow> validateLabelSelector L ls = None \<and> Errors r = []"
  by (auto simp: checkLabelSelector_def split: option.splits)

lemma withParams_ok:
  "Errors (withParams decode absent params body) = [] \<longleftrightarrow>
     (if params = [] then Errors absent = []
      else \<exists>p. decode params = Inr p \<and> Errors (body p emptyResult) = [])"
  by (auto simp: withParams_def split: sum.splits)

section \<open>What is accepted\<close>

lemma ValidateParams_errors:
  "(\<exists>r. ValidateParams L t params = Some r \<and> Errors r = es) \<longleftrightarrow>
   (\<exists>known v. map_of (registry L) t = Some (known, v) \<and> Errors (v params) = es)"
  by (auto simp: ValidateParams_def Merge_def Let_def split: option.splits)

definition accepts :: "ParamLibs \<Rightarrow> string \<Rightarrow> string \<Rightarrow> bool" where
  "accepts L t params \<longleftrightarrow> (\<exists>r. ValidateParams L t params = Some r \<and> \<not> HasErrors r)"

lemma accepts_iff: "accepts L t params \<longleftrightarrow>
    (\<exists>known v. map_of (registry L) t = Some (known, v) \<and> Errors (v params) = [])"
  using ValidateParams_errors [of L t params "[]"] by (simp add: accepts_def HasErrors_def)

text \<open>The ways an RDS selector can name its resources.\<close>

definition rds_sources :: "RDSSelector \<Rightarrow> bool list" where
  "rds_sources sel = [rd_Tags sel \<noteq> [], rd_ExcludeTags sel \<noteq> [], hasTagSelector (rd_TagSelector sel),
     InstanceIds sel \<noteq> [] \<or> ClusterIds sel \<noteq> [], IncludeAll sel]"

definition rds_selector_ok :: "RDSSelector \<Rightarrow> bool" where
  "rds_selector_ok sel \<longleftrightarrow> count_list (rds_sources sel) True = 1 \<and>
     (InstanceIds sel = [] \<and> ClusterIds sel = [] \<longrightarrow> DiscoverInstances sel \<or> DiscoverClusters sel) \<and>
     (\<forall>s e. rd_TagSelector sel = Some s \<longrightarrow> e \<in> set (MatchExpressions s) \<longrightarrow> requirement_ok e)"

text \<open>
  RDS parameters are accepted exactly when they decode, the selector uses exactly one of
  its five ways of naming resources (tags, excluded tags, a tag selector, explicit identifiers,
  everything), every way but explicit identifiers enables at least one kind of resource, the
  expressions of the tag selector are well formed and the wait timeout, if one applies, is a
  duration.
\<close>

lemma rds_accepted_iff:
  "accepts L ''rds'' params \<longleftrightarrow>
     params \<noteq> [] \<and> (\<exists>p. decodeRDS L params = Inr p \<and> rds_selector_ok (rd_Selector p) \<and>
                         await_ok (rd_AwaitCompletion p))"
proof -
  have sel: "((rd_Tags s \<noteq> [] \<or> rd_ExcludeTags s \<noteq> [] \<or> hasTagSelector (rd_TagSelector s) \<or> InstanceIds s \<noteq> [] \<or>
        ClusterIds s \<noteq> [] \<or> IncludeAll s) \<and> \<not> methodCount s > 1 \<and>
      \<not> (rd_Tags s \<noteq> [] \<and> rd_ExcludeTags s \<noteq> []) \<and>
      \<not> (hasTagSelector (rd_TagSelector s) \<and> (rd_Tags s \<noteq> [] \<or> rd_ExcludeTags s \<noteq> [])) \<and>
      \<not> ((rd_Tags s \<noteq> [] \<or> rd_ExcludeTags s \<noteq> [] \<or> hasTagSelector (rd_TagSelector s) \<or> IncludeAll s) \<and>
         \<not> DiscoverInstances s \<and> \<not> DiscoverClusters s)) \<longleftrightarrow>
      count_list (rds_sources s) True = 1 \<and>
      (InstanceIds s = [] \<and> ClusterIds s = [] \<longrightarrow> DiscoverInstances s \<or> DiscoverClusters s)" for s
    by (cases "rd_Tags s = []"; cases "rd_ExcludeTags s = []"; cases "hasTagSelector (rd_TagSelector s)";
        cases "IncludeAll s") (auto simp: methodCount_def rds_sources_def)
  note alt = rds_selector_ok_def [unfolded conj_assoc [symmetric], folded sel [unfolded conj_assoc [symmetric]]]
  have "Errors (validateRDSParams L params) = [] \<longleftrightarrow> params \<noteq> [] \<and> (\<exists>p. decodeRDS L params = Inr p \<and>
      rds_selector_ok (rd_Selector p) \<and> await_ok (rd_AwaitCompletion p))"
    unfolding validateRDSParams_def withParams_ok Let_def no_errors alt by auto
  then show ?thesis by (simp add: accepts_iff registry_def)
qed

lemma ec2_accepted_iff:
  "accepts L ''ec2'' params \<longleftrightarrow>
     params \<noteq> [] \<and> (\<exists>p. decodeEC2 L params = Inr p \<and>
       (let sel = e2_Selector p; ts = hasTagSelector (e2_TagSelector sel) in
        (if e2_Tags sel \<noteq> [] then e2_InstanceIDs sel = [] \<and> \<not> ts else e2_InstanceIDs sel \<noteq> [] \<or> ts) \<and>
        (\<forall>s e. e2_TagSelector sel = Some s \<longrightarrow> e \<in> set (MatchExpressions s) \<longrightarrow> requirement_ok e)) \<and>
       await_ok (e2_AwaitCompletion p))"
  unfolding accepts_iff registry_def
  by (auto simp: validateEC2Params_def withParams_ok Let_def no_errors)

lemma workloadscaler_accepted_iff:
  "accepts L ''workloadscaler'' params \<longleftrightarrow>
     params \<noteq> [] \<and> (\<exists>p. decodeWorkloadScaler L params = Inr p \<and>
       (Literals (ws_Namespace p) = []) \<noteq> (ns_Selector (ws_Namespace p) = []) \<and>
       validateLabelSelector L (WorkloadSelector p) = None \<and> await_ok (ws_AwaitCompletion p))"
  unfolding accepts_iff registry_def
  by (auto simp: validateWorkloadScalerParams_def withParams_ok Let_def no_errors)

text \<open>
  Unknown parameters never block: the fields that are present only add warnings.  The Karpenter
  entry does not list its own field nodeSelector, so every object that uses it is warned about
  an unknown parameter.
\<close>

lemma karpenter_nodeSelector_unknown:
  assumes "params \<noteq> []" "decodeMap L params = Inr rawMap" "''nodeSelector'' \<in> set rawMap"
    "ValidateParams L ''karpenter'' params = Some r"
  shows "''unknown parameter '' @ quote ''nodeSelector'' @ '' for executor type '' @ quote ''karpenter'' @
    '' (known parameters: nodePools, awaitCompletion)'' \<in> set (Warnings r)"
  using assms by (auto simp: ValidateParams_def registry_def checkUnknownFields_def Merge_def Let_def)

end
