(* ===== verification/PlanWebhook.thy ===== *)
theory PlanWebhook
  imports ExecParams Execution
begin

text \<open>
  The admission checks of HibernatePlan and CloudProvider objects
  (\<^verbatim>\<open>internal/validationwebhook/hibernateplan_validator.go\<close>,
  \<^verbatim>\<open>cloudprovider_validator.go\<close>).  A check returns its field errors and its warnings; the
  object is admitted when there is no error.  The keys of a Go map are a list in the map's
  iteration order, which the language leaves open: the facts about the dependency check hold for
  every such list.
\<close>

type_synonym verdict = "FieldError list \<times> string list"

section \<open>Schedule\<close>

text \<open>The regular expression of a time of day, anchored at both ends.\<close>

definition hourPart :: "string \<Rightarrow> bool" where
  "hourPart h =
     (case h of
        [c] \<Rightarrow> digit_val c \<noteq> None
      | [c, d] \<Rightarrow> (case (digit_val c, digit_val d) of
                    (Some a, Some b) \<Rightarrow> a \<le> 1 \<or> a = 2 \<and> b \<le> 3
                  | _ \<Rightarrow> False)
      | _ \<Rightarrow> False)"

definition minutePart :: "string \<Rightarrow> bool" where
  "minutePart m =
     (case m of
        [c, d] \<Rightarrow> (case (digit_val c, digit_val d) of (Some a, Some b) \<Rightarrow> a \<le> 5 | _ \<Rightarrow> False)
      | _ \<Rightarrow> False)"

definition timePattern :: "string \<Rightarrow> bool" where
  "timePattern s = (case split_on (CHR '':'') s of [h, m] \<Rightarrow> hourPart h \<and> minutePart m | _ \<Rightarrow> False)"

definition validDays :: "string list" where
  "validDays = [''MON'', ''TUE'', ''WED'', ''THU'', ''FRI'', ''SAT'', ''SUN'']"

text \<open>
  \<open>parseTimeValues\<close>: two colon-separated parts, then \<open>fmt.Sscanf\<close> with two decimal verbs, each of
  which skips blanks, takes an optional sign and at least one digit.
\<close>

definition scanInt :: "string \<Rightarrow> (int \<times> string) option" where
  "scanInt s =
     (let (neg, r) = split_sign (dropWhile (\<lambda>c. c = CHR '' '' \<or> c = CHR 0x09) s);
          (ds, rest) = leading_digits r;
          v = foldl (\<lambda>a d. 10 * a + int d) 0 ds
      in if ds = [] \<or> (if neg then v > 2 ^ 63 else v \<ge> 2 ^ 63) then None
         else Some (if neg then - v else v, rest))"

definition parseTimeValues :: "string \<Rightarrow> (int \<times> int) option" where
  "parseTimeValues timeStr =
     (if length (split_on (CHR '':'') timeStr) \<noteq> 2 then None
      else Option.bind (scanInt timeStr) (\<lambda>(hour, r).
           Option.bind (skip_char (CHR '':'') r) (\<lambda>r1.
           Option.bind (scanInt r1) (\<lambda>(mi, r2). Some (hour, mi)))))"

definition gapWarning :: "nat \<Rightarrow> OffHourWindow \<Rightarrow> string list" where
  "gapWarning i w =
     (if Start w \<noteq> '''' \<and> End w \<noteq> '''' \<and> Start w \<noteq> End w then
        (case (parseTimeValues (Start w), parseTimeValues (End w)) of
           (Some (startHour, startMin), Some (endHour, endMin)) \<Rightarrow>
             (let startMinutes = wrap64 (wrap64 (startHour * 60) + startMin);
                  endMinutes = wrap64 (wrap64 (endHour * 60) + endMin);
                  gap = (if endMinutes \<ge> startMinutes then wrap64 (endMinutes - startMinutes)
                         else wrap64 (wrap64 (1440 - startMinutes) + endMinutes))
              in if gap > 0 \<and> gap \<le> 1
                 then [''offHours['' @ show_nat i @ '']: detected wakeup window within 1 minute gap from hibernation (start='' @
                       Start w @ '', end='' @ End w @ ''). If the intention is to apply full-day wakeup operation, '' @
                       ''consider using ScheduleException with type=Suspend, start=00:00, end=23:59'']
                 else [])
         | _ \<Rightarrow> [])
      else [])"

definition timeErrors :: "string \<Rightarrow> string \<Rightarrow> string \<Rightarrow> string \<Rightarrow> FieldError list" where
  "timeErrors path what example t =
     (if t = '''' then [fieldError FieldRequired (child path what) (what @ '' time is required'')]
      else if \<not> timePattern t
      then [fieldError FieldInvalid (child path what) (''must be in HH:MM format (e.g., '' @ example @ '')'')]
      else [])"

definition windowErrors :: "string \<Rightarrow> OffHourWindow \<Rightarrow> FieldError list" where
  "windowErrors path w =
     timeErrors path ''start'' ''20:00'' (Start w) @
     timeErrors path ''end'' ''06:00'' (End w) @
     (if Start w \<noteq> '''' \<and> End w \<noteq> '''' \<and> Start w = End w
      then [fieldError FieldInvalid (child path ''start'')
              ''start and end times must be different; a hibernation window requires a clear shutdown (start) and wakeup (end) schedule'']
      else []) @
     (if DaysOfWeek w = [] then [fieldError FieldRequired (child path ''daysOfWeek'') ''at least one day is required'']
      else []) @
     concat (map (\<lambda>(j, day). if ToUpper day \<notin> set validDays
        then [fieldError FieldNotSupported (index (child path ''daysOfWeek'') j) day] else [])
        (enumerate 0 (DaysOfWeek w)))"

definition hpv_validateSchedule :: "HibernatePlan \<Rightarrow> verdict" where
  "hpv_validateSchedule plan =
     (let schedule = sp_Schedule (Spec plan); path = ''spec.schedule'' in
      ((if sc_Timezone schedule = '''' then [fieldError FieldRequired (child path ''timezone'') ''timezone is required''] else []) @
       (if OffHours schedule = [] then [fieldError FieldRequired (child path ''offHours'') ''at least one off-hour window is required'']
        else []) @
       concat (map (\<lambda>(i, w). windowErrors (index (child path ''offHours'') i) w) (enumerate 0 (OffHours schedule))),
       concat (map (\<lambda>(i, w). gapWarning i w) (enumerate 0 (OffHours schedule)))))"

section \<open>Targets\<close>

definition validTypes :: "string list" where
  "validTypes = [''ec2'', ''eks'', ''rds'', ''karpenter'', ''workloadscaler'', ''gke'', ''cloudsql'', ''noop'']"

definition connectorErrors :: "string \<Rightarrow> Target \<Rightarrow> FieldError list" where
  "connectorErrors path t =
     (let kind = cr_Kind (tgt_ConnectorRef t) in
      if kind = '''' then [fieldError FieldRequired (child path ''connectorRef.kind'') ''connector kind is required'']
      else if kind \<noteq> ''CloudProvider'' \<and> kind \<noteq> ''K8SCluster''
      then [fieldError FieldNotSupported (child path ''connectorRef.kind'') kind] else []) @
     (if cr_Name (tgt_ConnectorRef t) = ''''
      then [fieldError FieldRequired (child path ''connectorRef.name'') ''connector name is required''] else [])"

definition paramsVerdict :: "ParamLibs \<Rightarrow> string \<Rightarrow> Target \<Rightarrow> verdict" where
  "paramsVerdict L path t =
     (let paramsRaw = (case tgt_Parameters t of None \<Rightarrow> [] | Some raw \<Rightarrow> raw) in
      case ExecParams.ValidateParams L (tgt_Type t) paramsRaw of
        None \<Rightarrow> ([], [])
      | Some result \<Rightarrow> (map (fieldError FieldInvalid (child path ''parameters'')) (Errors result),
                        map (\<lambda>m. ''target '' @ quote (tgt_Name t) @ '': '' @ m) (Warnings result)))"

definition targetVerdict :: "ParamLibs \<Rightarrow> nat \<Rightarrow> (string \<times> nat) list \<Rightarrow> Target \<Rightarrow> verdict" where
  "targetVerdict L i seen t =
     (let path = index ''spec.targets'' i; (perrs, pwarns) = paramsVerdict L path t in
      ((case map_of seen (tgt_Name t) of
          None \<Rightarrow> []
        | Some prevIdx \<Rightarrow> [fieldError FieldDuplicate (child path ''name'')
            (''target name '' @ quote (tgt_Name t) @ '' already defined at index '' @ show_nat prevIdx)]) @
       connectorErrors path t @
       (if tgt_Type t \<notin> set validTypes then [fieldError FieldNotSupported (child path ''type'') (tgt_Type t)] else []) @
       perrs, pwarns))"

fun scanTargets :: "ParamLibs \<Rightarrow> nat \<Rightarrow> (string \<times> nat) list \<Rightarrow> Target list \<Rightarrow> verdict" where
  "scanTargets L i seen [] = ([], [])"
| "scanTargets L i seen (t # ts) =
     (let (errs, warns) = targetVerdict L i seen t;
          (errs', warns') = scanTargets L (Suc i) (AList.update (tgt_Name t) i seen) ts
      in (errs @ errs', warns @ warns'))"

definition hpv_validateTargets :: "ParamLibs \<Rightarrow> HibernatePlan \<Rightarrow> verdict" where
  "hpv_validateTargets L plan = scanTargets L 0 [] (Targets (Spec plan))"

section \<open>Strategy\<close>

text \<open>The checks on one dependency; a dependency with an error adds no edge.\<close>

definition depErrors :: "string list \<Rightarrow> string \<Rightarrow> Dependency \<Rightarrow> FieldError list" where
  "depErrors targetNames path d =
     (if From d \<notin> set targetNames then [fieldError FieldInvalid (child path ''from'')
        (''target '' @ quote (From d) @ '' not found in spec.targets'')]
      else if To d \<notin> set targetNames then [fieldError FieldInvalid (child path ''to'')
        (''target '' @ quote (To d) @ '' not found in spec.targets'')]
      else if From d = To d then [fieldError FieldInvalid path ''target cannot depend on itself'']
      else [])"

text \<open>\<open>graph[node]\<close>, and the in-degrees: an edge leads from the target of a dependency to its source.\<close>

definition dependents :: "Dependency list \<Rightarrow> string \<Rightarrow> string list" where
  "dependents deps node = map From (filter (\<lambda>d. To d = node) deps)"

definition inDegrees :: "string list \<Rightarrow> Dependency list \<Rightarrow> (string \<times> int) list" where
  "inDegrees targetNames deps =
     fold (\<lambda>d m. bumpDegree 1 (From d) m) deps (map (\<lambda>n. (n, 0)) targetNames)"

text \<open>The inner loop over the neighbours of a node.\<close>

fun relax :: "string list \<Rightarrow> string list \<Rightarrow> (string \<times> int) list \<Rightarrow> string list \<times> (string \<times> int) list" where
  "relax [] pendingQ inDegree = (pendingQ, inDegree)"
| "relax (n # ns) pendingQ inDegree =
     (let m = bumpDegree (- 1) n inDegree in
      relax ns (if lookup_default 0 m n = 0 then pendingQ @ [n] else pendingQ) m)"

text \<open>A node whose in-degree is positive is still to be queued.\<close>

definition pending :: "(string \<times> int) list \<Rightarrow> string set" where
  "pending m = {k. lookup_default 0 m k > 0}"

lemma finite_pending [simp]: "finite (pending m)"
proof (rule finite_subset)
  show "pending m \<subseteq> fst ` set m"
  proof
    fix k assume "k \<in> pending m"
    then have "map_of m k \<noteq> None" by (auto simp: pending_def lookup_default_def split: option.splits)
    then show "k \<in> fst ` set m" by (simp add: map_of_eq_None_iff)
  qed
qed simp

lemma lookup_bumpDegree: "lookup_default 0 (bumpDegree k n m) t = lookup_default 0 m t + (if t = n then k else 0)"
  by (simp add: bumpDegree_def)

lemma relax_measure:
  "relax ns q m = (q', m') \<Longrightarrow> length q' + card (pending m') \<le> length q + card (pending m)"
proof (induction ns q m rule: relax.induct)
  case (2 n ns q m)
  let ?m = "bumpDegree (- 1) n m" and ?q = "if lookup_default 0 (bumpDegree (- 1) n m) n = 0 then q @ [n] else q"
  have p: "pending ?m = (if lookup_default 0 m n = 1 then pending m - {n} else pending m)"
    by (auto simp: pending_def lookup_bumpDegree)
  have "length ?q + card (pending ?m) \<le> length q + card (pending m)"
  proof (cases "lookup_default 0 m n = 1")
    case True
    then have "n \<in> pending m" by (simp add: pending_def)
    then have "0 < card (pending m)" by (auto simp: card_gt_0_iff)
    with \<open>n \<in> pending m\<close> True show ?thesis by (simp add: p lookup_bumpDegree)
  qed (simp add: p lookup_bumpDegree)
  moreover have "length q' + card (pending m') \<le> length ?q + card (pending ?m)"
    using 2 by (simp add: Let_def)
  ultimately show ?case by simp
qed simp

function visitAll :: "Dependency list \<Rightarrow> string list \<Rightarrow> (string \<times> int) list \<Rightarrow> nat \<Rightarrow> nat" where
  "visitAll deps pendingQ inDegree visited =
     (case pendingQ of
        [] \<Rightarrow> visited
      | node # q1 \<Rightarrow>
          (case relax (dependents deps node) q1 inDegree of
             (q2, inDegree2) \<Rightarrow> visitAll deps q2 inDegree2 (visited + 1)))"
  by pat_completeness auto
termination
  by (relation "measure (\<lambda>(deps, pendingQ, m, visited). length pendingQ + card (pending m))")
    (fastforce dest!: relax_measure [OF sym])+

declare visitAll.simps [simp del]

definition hpv_validateDAG :: "HibernatePlan \<Rightarrow> string list \<Rightarrow> verdict" where
  "hpv_validateDAG plan targetNames =
     (let deps = Dependencies (Strategy (sp_Execution (Spec plan)));
          path = ''spec.execution.strategy.dependencies'';
          errs = concat (map (\<lambda>(i, d). depErrors targetNames (index path i) d) (enumerate 0 deps));
          inDegree = inDegrees targetNames deps;
          pendingQ = map fst (filter (\<lambda>e. snd e = 0) inDegree);
          cycleErrs = (if errs = [] \<and> visitAll deps pendingQ inDegree 0 \<noteq> length targetNames
            then [fieldError FieldInvalid path ''dependency graph contains a cycle''] else []);
          referenced = concat (map (\<lambda>d. [From d, To d]) deps)
      in (errs @ cycleErrs,
          map (\<lambda>n. ''target '' @ quote n @ '' has no dependencies defined; it will run at the first stage'')
            (filter (\<lambda>n. n \<notin> set referenced \<and> deps \<noteq> []) targetNames)))"

text \<open>The stages: names seen so far with their index, targets assigned so far with their stage.\<close>

fun scanStageTargets ::
    "string list \<Rightarrow> string \<Rightarrow> string \<Rightarrow> nat \<Rightarrow> (string \<times> string) list \<Rightarrow> string list \<Rightarrow>
     FieldError list \<times> (string \<times> string) list" where
  "scanStageTargets targetNames stageName path j assigned [] = ([], assigned)"
| "scanStageTargets targetNames stageName path j assigned (t # ts) =
     (let errs = (if t \<notin> set targetNames then [fieldError FieldInvalid (index path j)
                    (''target '' @ quote t @ '' not found in spec.targets'')] else []) @
                 (case map_of assigned t of
                    None \<Rightarrow> []
                  | Some prevStage \<Rightarrow> [fieldError FieldDuplicate (index path j)
                      (''target '' @ quote t @ '' already assigned to stage '' @ quote prevStage)]);
          (errs', assigned') = scanStageTargets targetNames stageName path (Suc j)
             (AList.update t stageName assigned) ts
      in (errs @ errs', assigned'))"

fun scanStages ::
    "string list \<Rightarrow> nat \<Rightarrow> (string \<times> nat) list \<Rightarrow> (string \<times> string) list \<Rightarrow> api_Stage list \<Rightarrow>
     FieldError list \<times> (string \<times> string) list" where
  "scanStages targetNames i stageNames assigned [] = ([], assigned)"
| "scanStages targetNames i stageNames assigned (s # ss) =
     (let path = index ''spec.execution.strategy.stages'' i;
          nameErrs = (case map_of stageNames (as_Name s) of
              None \<Rightarrow> []
            | Some prevIdx \<Rightarrow> [fieldError FieldDuplicate (child path ''name'')
                (''stage name '' @ quote (as_Name s) @ '' already defined at index '' @ show_nat prevIdx)]);
          emptyErrs = (if as_Targets s = [] then [fieldError FieldRequired (child path ''targets'')
                ''stage must have at least one target''] else []);
          (terrs, assigned1) = scanStageTargets targetNames (as_Name s) (child path ''targets'') 0 assigned (as_Targets s);
          (errs', assigned2) = scanStages targetNames (Suc i) (AList.update (as_Name s) i stageNames) assigned1 ss
      in (nameErrs @ emptyErrs @ terrs @ errs', assigned2))"

definition hpv_validateStaged :: "HibernatePlan \<Rightarrow> string list \<Rightarrow> FieldError list" where
  "hpv_validateStaged plan targetNames =
     (let stages = es_Stages (Strategy (sp_Execution (Spec plan))); path = ''spec.execution.strategy.stages'' in
      if stages = [] then [fieldError FieldRequired path ''at least one stage is required for Staged strategy'']
      else (let (errs, assigned) = scanStages targetNames 0 [] [] stages in
            errs @ map (\<lambda>n. fieldError FieldInvalid path (''target '' @ quote n @ '' is not assigned to any stage''))
                     (filter (\<lambda>n. map_of assigned n = None) targetNames)))"

definition hpv_validateStrategy :: "HibernatePlan \<Rightarrow> verdict" where
  "hpv_validateStrategy plan =
     (let targetNames = remdups (map tgt_Name (Targets (Spec plan))) in
      case es_Type (Strategy (sp_Execution (Spec plan))) of
        StrategyDAG \<Rightarrow> hpv_validateDAG plan targetNames
      | StrategyStaged \<Rightarrow> (hpv_validateStaged plan targetNames, [])
      | StrategyParallel \<Rightarrow> ([], [])
      | StrategySequential \<Rightarrow> ([], [])
      | StrategyOther s \<Rightarrow> ([fieldError FieldNotSupported ''spec.execution.strategy.type'' s], []))"

section \<open>Admission\<close>

definition hpv_validate :: "ParamLibs \<Rightarrow> HibernatePlan \<Rightarrow> verdict" where
  "hpv_validate L plan =
     (let (e1, w1) = hpv_validateSchedule plan;
          (e2, w2) = hpv_validateTargets L plan;
          (e3, w3) = hpv_validateStrategy plan
      in (e1 @ e2 @ e3, w1 @ w2 @ w3))"

definition hpv_ValidateCreate :: "ParamLibs \<Rightarrow> HibernatePlan \<Rightarrow> verdict" where
  "hpv_ValidateCreate L plan = hpv_validate L plan"

definition hpv_ValidateUpdate :: "ParamLibs \<Rightarrow> HibernatePlan \<Rightarrow> HibernatePlan \<Rightarrow> verdict" where
  "hpv_ValidateUpdate L oldPlan newPlan =
     (if Phase (Status oldPlan) \<noteq> PhaseActive \<and> Phase (Status oldPlan) \<noteq> PhaseSuspended \<and>
         Phase (Status oldPlan) \<noteq> PhaseError \<and> Targets (Spec oldPlan) \<noteq> Targets (Spec newPlan)
      then ([fieldError FieldForbidden ''spec.targets''
              (''targets cannot be modified while plan is in '' @ phase_string (Phase (Status oldPlan)) @
               '' phase; wait for Active, Suspended, or Error phase'')], [])
      else hpv_validate L newPlan)"

definition admitted :: "verdict \<Rightarrow> bool" where
  "admitted v \<longleftrightarrow> fst v = []"

section \<open>CloudProvider\<close>

record AWSConfig =
  AccountId :: string
  Region :: string
  AssumeRoleArn :: string
  auth_ServiceAccount :: bool
  auth_Static :: "ObjectKeyReference option"

datatype CloudProviderType = CloudProviderAWS | CloudProviderOther string

record CloudProvider =
  cp_Type :: CloudProviderType
  cp_AWS :: "AWSConfig option"

definition cpv_validate :: "CloudProvider \<Rightarrow> FieldError list" where
  "cpv_validate cp =
     (if cp_Type cp = CloudProviderAWS then
        (case cp_AWS cp of
           None \<Rightarrow> [fieldError FieldRequired ''spec.aws'' (''spec.aws is required when type is '' @ [CHR 0x27] @ ''aws'' @ [CHR 0x27])]
         | Some aws \<Rightarrow>
             if \<not> auth_ServiceAccount aws \<and> auth_Static aws = None
             then [fieldError FieldRequired ''spec.aws.auth''
                ''at least one authentication method must be specified: spec.aws.auth.serviceAccount or spec.aws.auth.static'']
             else [])
      else [])"

section \<open>The dependency check accepts exactly the acyclic graphs\<close>

text \<open>Dependencies of \<open>t\<close> on targets that are not visited yet.\<close>

definition openDegree :: "Dependency list \<Rightarrow> string list \<Rightarrow> string \<Rightarrow> nat" where
  "openDegree deps P t = length (filter (\<lambda>d. From d = t \<and> To d \<notin> set P) deps)"

lemma openDegree_visit:
  "x \<notin> set P \<Longrightarrow> openDegree deps P t = openDegree deps (P @ [x]) t + count_list (dependents deps x) t"
  by (induction deps) (auto simp: openDegree_def dependents_def)

lemma relax_lookup:
  "relax ns q m = (q', m') \<Longrightarrow> lookup_default 0 m' t = lookup_default 0 m t - int (count_list ns t)"
  by (induction ns q m rule: relax.induct) (auto simp: Let_def lookup_bumpDegree)

lemma relax_queue:
  "relax ns q m = (q', m') \<Longrightarrow>
     \<exists>zs. q' = q @ zs \<and> distinct zs \<and> set zs = {t. lookup_default 0 m t > 0 \<and> lookup_default 0 m' t \<le> 0}"
proof (induction ns q m rule: relax.induct)
  case (2 n ns q m)
  let ?m = "bumpDegree (- 1) n m" and ?q = "if lookup_default 0 (bumpDegree (- 1) n m) n = 0 then q @ [n] else q"
  have r: "relax ns ?q ?m = (q', m')" using "2.prems" by (simp add: Let_def)
  from "2.IH" [OF refl r] obtain zs where zs: "q' = ?q @ zs" "distinct zs"
      "set zs = {t. lookup_default 0 ?m t > 0 \<and> lookup_default 0 m' t \<le> 0}" by auto
  note l = relax_lookup [OF r]
  show ?case
  proof (cases "lookup_default 0 m n = 1")
    case True
    then have "set (n # zs) = {t. lookup_default 0 m t > 0 \<and> lookup_default 0 m' t \<le> 0}"
      using zs(3) by (auto simp: lookup_bumpDegree l split: if_splits)
    moreover have "distinct (n # zs)" using zs(2,3) True by (auto simp: lookup_bumpDegree)
    ultimately show ?thesis using zs(1) True
      by (intro exI [of _ "n # zs"]) (simp add: lookup_bumpDegree)
  next
    case False
    then have "set zs = {t. lookup_default 0 m t > 0 \<and> lookup_default 0 m' t \<le> 0}"
      unfolding zs(3) by (intro Collect_cong) (auto simp: lookup_bumpDegree)
    then show ?thesis using zs(1,2) False by (intro exI [of _ zs]) (simp add: lookup_bumpDegree)
  qed
qed auto

definition single :: "string \<Rightarrow> ExecutionStage" where
  "single t = \<lparr>xs_Targets = [t], xs_MaxConcurrency = 1\<rparr>"

lemma stageTargets_single [simp]: "stageTargets (map single P) = P"
  by (induction P) (simp_all add: single_def)

definition visit_inv :: "string list \<Rightarrow> Dependency list \<Rightarrow> string list \<Rightarrow> string list \<Rightarrow> (string \<times> int) list \<Rightarrow> bool" where
  "visit_inv names deps P q m \<longleftrightarrow>
     deps_in (set names) deps \<and> distinct (P @ q) \<and> set (P @ q) \<subseteq> set names \<and>
     (\<forall>t. lookup_default 0 m t = int (openDegree deps P t)) \<and>
     (\<forall>t \<in> set names. t \<in> set (P @ q) \<longleftrightarrow> openDegree deps P t = 0) \<and>
     (\<forall>d \<in> set deps. From d \<in> set P \<longrightarrow> runs_before (map single P) (To d) (From d))"

lemma visit_inv_step:
  assumes inv: "visit_inv names deps P (x # q) m" and r: "relax (dependents deps x) q m = (q', m')"
  shows "visit_inv names deps (P @ [x]) q' m'"
proof -
  have x: "x \<notin> set P" "x \<in> set names" using inv by (auto simp: visit_inv_def)
  have l: "lookup_default 0 m t = int (openDegree deps P t)" for t using inv by (simp add: visit_inv_def)
  have l': "lookup_default 0 m' t = int (openDegree deps (P @ [x]) t)" for t
    using relax_lookup [OF r, of t] openDegree_visit [OF x(1), of deps t] l by simp
  obtain zs where zs: "q' = q @ zs" "distinct zs"
      "set zs = {t. openDegree deps P t > 0 \<and> openDegree deps (P @ [x]) t = 0}"
    using relax_queue [OF r] by (auto simp: l l')
  have zn: "set zs \<subseteq> set names"
  proof
    fix t assume "t \<in> set zs"
    then have "openDegree deps P t > 0" using zs(3) by simp
    then obtain d where "d \<in> set deps" "From d = t" by (auto simp: openDegree_def filter_empty_conv)
    then show "t \<in> set names" using inv by (auto simp: visit_inv_def deps_in_def)
  qed
  have zq: "openDegree deps P t = 0" if "t \<in> set (P @ x # q)" for t
    using that inv by (auto simp: visit_inv_def)
  have le: "openDegree deps (P @ [x]) t \<le> openDegree deps P t" for t
    using openDegree_visit [OF x(1), of deps t] by simp
  have dist: "distinct ((P @ [x]) @ q')"
    using inv zs zq by (auto simp: visit_inv_def)
  have run: "runs_before (map single (P @ [x])) (To d) (From d)"
    if "d \<in> set deps" "From d \<in> set (P @ [x])" for d
  proof (cases "From d = x")
    case True
    have "openDegree deps P x = 0" using zq by simp
    then have "To d \<in> set P" using that True by (auto simp: openDegree_def filter_empty_conv)
    then show ?thesis by (simp add: runs_before_append single_def [of x] True)
  qed (use that inv in \<open>auto simp: visit_inv_def runs_before_append\<close>)
  have mem: "t \<in> set ((P @ [x]) @ q') \<longleftrightarrow> openDegree deps (P @ [x]) t = 0" if "t \<in> set names" for t
  proof
    assume "t \<in> set ((P @ [x]) @ q')"
    then consider "t \<in> set (P @ x # q)" | "t \<in> set zs" unfolding zs(1) by auto
    then show "openDegree deps (P @ [x]) t = 0"
    proof cases
      case 1
      then show ?thesis using zq [OF 1] le [of t] by simp
    qed (simp add: zs(3))
  next
    assume o: "openDegree deps (P @ [x]) t = 0"
    show "t \<in> set ((P @ [x]) @ q')"
    proof (cases "openDegree deps P t = 0")
      case True
      then have "t \<in> set (P @ x # q)" using inv that by (simp add: visit_inv_def)
      then show ?thesis using zs(1) by auto
    qed (use o zs in auto)
  qed
  have "deps_in (set names) deps" "set ((P @ [x]) @ q') \<subseteq> set names"
    using inv zn zs(1) by (auto simp: visit_inv_def)
  then show ?thesis unfolding visit_inv_def using l' dist run mem by blast
qed

lemma visitAll_end:
  "visit_inv names deps P q m \<Longrightarrow>
     \<exists>P' m'. visit_inv names deps P' [] m' \<and> visitAll deps q m (length P) = length P'"
proof (induction "length q + card (pending m)" arbitrary: P q m rule: less_induct)
  case less
  show ?case
  proof (cases q)
    case Nil
    then show ?thesis using less.prems by (auto simp: visitAll.simps)
  next
    case (Cons x q1)
    obtain q2 m2 where r: "relax (dependents deps x) q1 m = (q2, m2)" by fastforce
    have "length q2 + card (pending m2) < length q + card (pending m)"
      using relax_measure [OF r] Cons by simp
    moreover note visit_inv_step [OF less.prems [unfolded Cons] r]
    moreover have "visitAll deps q m (length P) = visitAll deps q2 m2 (length (P @ [x]))"
      by (subst visitAll.simps) (simp add: Cons r)
    ultimately show ?thesis using less.hyps by metis
  qed
qed

lemma visit_inv_complete:
  assumes inv: "visit_inv names deps P [] m" and n: "distinct names"
  shows "length P = length names \<longleftrightarrow> acyclic (dep_edges deps)"
proof
  assume len: "length P = length names"
  have "set P = set names"
    using inv len n by (intro card_subset_eq) (auto simp: visit_inv_def distinct_card)
  then have "\<forall>d \<in> set (map (planDependency True) deps). runs_before (map single P) (From d) (To d)"
    using inv by (auto simp: visit_inv_def planDependency_def deps_in_def)
  then have "acyclic (dep_edges (map (planDependency True) deps))"
    using inv by (intro runs_before_acyclic) (auto simp: visit_inv_def)
  moreover have "dep_edges (map (planDependency True) deps) = (dep_edges deps)\<inverse>"
    by (force simp: dep_edges_def planDependency_def)
  ultimately show "acyclic (dep_edges deps)" by (simp add: acyclic_converse)
next
  assume ac: "acyclic (dep_edges deps)"
  show "length P = length names"
  proof (rule ccontr)
    assume neq: "length P \<noteq> length names"
    have "set P \<noteq> set names"
      using neq inv n distinct_card [of P] distinct_card [of names] by (auto simp: visit_inv_def)
    then have ne: "set names - set P \<noteq> {}" using inv by (auto simp: visit_inv_def)
    have "\<exists>u \<in> set names - set P. (u, t) \<in> (dep_edges deps)\<inverse>" if t: "t \<in> set names - set P" for t
    proof -
      have "openDegree deps P t \<noteq> 0" using inv t by (auto simp: visit_inv_def)
      then obtain d where "d \<in> set deps" "From d = t" "To d \<notin> set P"
        by (auto simp: openDegree_def filter_empty_conv)
      moreover have "To d \<in> set names" using inv \<open>d \<in> set deps\<close> by (auto simp: visit_inv_def deps_in_def)
      ultimately show ?thesis by (auto simp: dep_edges_def)
    qed
    from stuck_cyclic [OF _ ne this] ac show False by (simp add: acyclic_converse)
  qed
qed

lemma inDegrees_facts:
  assumes d: "deps_in (set names) deps" and n: "distinct names"
  shows "map fst (inDegrees names deps) = names"
    "lookup_default 0 (inDegrees names deps) t = int (openDegree deps [] t)"
proof -
  let ?z = "map (\<lambda>n. (n, 0::int)) names"
  have init: "inDegrees names deps = fold (bumpDegree 1) (map From deps) ?z"
    by (simp add: inDegrees_def fold_map comp_def)
  have "set (map From deps) \<subseteq> fst ` set ?z" using d by (force simp: deps_in_def)
  from fold_bumpDegree_keys [OF this, of 1]
  show keys: "map fst (inDegrees names deps) = names" by (simp add: init comp_def)
  have z: "map_of ?z t = (if t \<in> set names then Some 0 else None)" by (induction names) auto
  show "lookup_default 0 (inDegrees names deps) t = int (openDegree deps [] t)"
  proof (cases "t \<in> set names")
    case True
    then have "map_of (inDegrees names deps) t = Some (int (count_list (map From deps) t))"
      using fold_bumpDegree_map_of [of ?z t 0 1 "map From deps"] z by (simp add: init)
    then show ?thesis by (simp add: lookup_default_def openDegree_def count_list_map_filter)
  next
    case False
    then have "map_of (inDegrees names deps) t = None"
      using keys by (metis list.set_map map_of_eq_None_iff)
    moreover have "filter (\<lambda>d. From d = t) deps = []"
      using False d by (auto simp: deps_in_def filter_empty_conv)
    ultimately show ?thesis by (simp add: lookup_default_def openDegree_def)
  qed
qed

lemma visit_inv_init:
  assumes d: "deps_in (set names) deps" and n: "distinct names"
  shows "visit_inv names deps [] (map fst (filter (\<lambda>e. snd e = 0) (inDegrees names deps))) (inDegrees names deps)"
proof -
  let ?m = "inDegrees names deps" and ?q = "map fst (filter (\<lambda>e. snd e = 0) (inDegrees names deps))"
  note f = inDegrees_facts [OF d n]
  have dk: "distinct (map fst ?m)" using f(1) n by simp
  have "t \<in> set ?q \<longleftrightarrow> openDegree deps [] t = 0" if "t \<in> set names" for t
  proof -
    have "t \<in> fst ` set ?m" using that f(1) by (metis list.set_map)
    then obtain v where v: "(t, v) \<in> set ?m" by force
    then have "v = int (openDegree deps [] t)" using f(2) [of t] dk by (simp add: lookup_default_def)
    moreover have "(t, 0) \<in> set ?m \<longleftrightarrow> v = 0" using v dk by (metis map_of_is_SomeI option.inject)
    ultimately show ?thesis by force
  qed
  moreover have "fst ` set ?m = set names" using f(1) by (metis list.set_map)
  then have "set ?q \<subseteq> set names" by auto
  moreover have "distinct ?q" using dk by (simp add: distinct_map_filter)
  ultimately show ?thesis using d f(2) by (simp add: visit_inv_def)
qed

lemma depErrors_ok:
  "concat (map (\<lambda>(i, d). depErrors names (index path i) d) (enumerate 0 deps)) = [] \<longleftrightarrow>
     deps_in (set names) deps \<and> (\<forall>d \<in> set deps. From d \<noteq> To d)"
proof -
  have "depErrors names p d = [] \<longleftrightarrow> From d \<in> set names \<and> To d \<in> set names \<and> From d \<noteq> To d" for p d
    by (simp add: depErrors_def)
  from concat_enumerate_Nil [where f = "\<lambda>i. depErrors names (index path i)", OF this]
  show ?thesis by (auto simp: deps_in_def)
qed

lemma acyclic_no_self:
  assumes "acyclic (dep_edges deps)" "d \<in> set deps"
  shows "From d \<noteq> To d"
proof
  assume "From d = To d"
  moreover have "(From d, To d) \<in> dep_edges deps" using assms(2) by (auto simp: dep_edges_def)
  ultimately show False using assms(1) by (auto simp: acyclic_def)
qed

lemma PlanDAG_succeeds:
  "(\<exists>p. PlanDAG targets deps mc = Inr p) \<longleftrightarrow>
     deps_in (set targets) deps \<and> distinct targets \<and> acyclic (dep_edges deps)"
proof (cases "deps_in (set targets) deps")
  case True
  show ?thesis
  proof (rule PlanDAG_cases [OF True, of mc], goal_cases)
    case (1 ss p m)
    note o = kahn_inv_ordered [OF 1(2,3)]
    from 1 True kahn_inv_complete [OF 1(2,3)] runs_before_acyclic [OF o(4,1)] show ?thesis by simp
  next
    case (2 ss p m)
    then show ?thesis using True kahn_inv_stuck [OF 2(2-4)] by auto
  qed
next
  case False
  then show ?thesis using PlanDAG_invalid [OF False, of mc] by auto
qed

lemma validateDAG_iff:
  assumes "distinct names"
  shows "fst (hpv_validateDAG plan names) = [] \<longleftrightarrow>
    deps_in (set names) (Dependencies (Strategy (sp_Execution (Spec plan)))) \<and>
    acyclic (dep_edges (Dependencies (Strategy (sp_Execution (Spec plan)))))"
proof -
  let ?deps = "Dependencies (Strategy (sp_Execution (Spec plan)))"
  have "visitAll ?deps (map fst (filter (\<lambda>e. snd e = 0) (inDegrees names ?deps))) (inDegrees names ?deps) 0 =
      length names \<longleftrightarrow> acyclic (dep_edges ?deps)" if d: "deps_in (set names) ?deps"
  proof -
    obtain P' m' where "visit_inv names ?deps P' [] m'" "visitAll ?deps
        (map fst (filter (\<lambda>e. snd e = 0) (inDegrees names ?deps))) (inDegrees names ?deps) (length ([]::string list)) = length P'"
      using visitAll_end [OF visit_inv_init [OF d assms]] by blast
    then show ?thesis using visit_inv_complete [OF _ assms] by fastforce
  qed
  moreover have "fst (hpv_validateDAG plan names) = [] \<longleftrightarrow>
      (deps_in (set names) ?deps \<and> (\<forall>d \<in> set ?deps. From d \<noteq> To d)) \<and>
      visitAll ?deps (map fst (filter (\<lambda>e. snd e = 0) (inDegrees names ?deps))) (inDegrees names ?deps) 0 = length names"
    unfolding hpv_validateDAG_def Let_def fst_conv append_is_Nil_conv depErrors_ok by auto
  ultimately show ?thesis using acyclic_no_self by blast
qed

lemma validateDAG_planner:
  assumes names: "distinct names" "set names = set (map tgt_Name (Targets (Spec plan)))"
    and dist: "distinct (map tgt_Name (Targets (Spec plan)))"
    and dag: "es_Type (Strategy (sp_Execution (Spec plan))) = StrategyDAG"
  shows "admitted (hpv_validateDAG plan names) \<longleftrightarrow> (\<exists>p. buildExecutionPlan plan reverse = Inr p)"
proof -
  let ?deps = "Dependencies (Strategy (sp_Execution (Spec plan)))"
  let ?ts = "map tgt_Name (Targets (Spec plan))"
  have edges: "dep_edges (map (planDependency reverse) ?deps) = (if reverse then (dep_edges ?deps)\<inverse> else dep_edges ?deps)"
    by (force simp: dep_edges_def planDependency_def)
  have inn: "deps_in T (map (planDependency reverse) ?deps) \<longleftrightarrow> deps_in T ?deps" for T
    by (auto simp: deps_in_def planDependency_def)
  have "(\<exists>p. buildExecutionPlan plan reverse = Inr p) \<longleftrightarrow>
      (\<exists>p. PlanDAG ?ts (map (planDependency reverse) ?deps) (deref (es_MaxConcurrency (Strategy (sp_Execution (Spec plan))))) = Inr p)"
    using dag by (simp add: buildExecutionPlan_def Let_def split: sum.splits)
  also have "\<dots> \<longleftrightarrow> deps_in (set ?ts) ?deps \<and> acyclic (dep_edges ?deps)"
    using PlanDAG_succeeds [of ?ts "map (planDependency reverse) ?deps"] dist
    by (simp add: inn edges acyclic_converse)
  finally show ?thesis using validateDAG_iff [OF names(1)] names(2) by (simp add: admitted_def)
qed

text \<open>
  C23.  The dependency check of the admission webhook and the planner agree, although they are
  separate algorithms that walk the graph in opposite directions: for a plan with distinct target
  names and whatever the iteration order of the name map, the check passes exactly when the
  planner succeeds, for the shutdown order and for the wakeup order.
\<close>

theorem validateDAG_agrees_with_planner:
  assumes names: "distinct names" "set names = set (map tgt_Name (Targets (Spec plan)))"
    and dist: "distinct (map tgt_Name (Targets (Spec plan)))"
    and dag: "es_Type (Strategy (sp_Execution (Spec plan))) = StrategyDAG"
  shows "admitted (hpv_validateDAG plan names) \<longleftrightarrow> (\<exists>p. buildExecutionPlan plan reverse = Inr p)"
  by (rule validateDAG_planner [OF assms])

section \<open>Targets and stages of an admitted plan\<close>

lemma scanTargets_distinct:
  "fst (scanTargets L i seen ts) = [] \<Longrightarrow>
     distinct (map tgt_Name ts) \<and> (\<forall>t \<in> set ts. map_of seen (tgt_Name t) = None)"
proof (induction ts arbitrary: i seen)
  case (Cons t ts)
  then have h: "fst (targetVerdict L i seen t) = []"
      "fst (scanTargets L (Suc i) (AList.update (tgt_Name t) i seen) ts) = []"
    by (auto simp: split_def Let_def)
  from Cons.IH [OF h(2)] have "distinct (map tgt_Name ts)"
      "\<And>u. u \<in> set ts \<Longrightarrow> tgt_Name u \<noteq> tgt_Name t \<and> map_of seen (tgt_Name u) = None"
    by (auto simp: AList.update_conv' split: if_splits)
  moreover have "map_of seen (tgt_Name t) = None"
    using h(1) by (auto simp: targetVerdict_def Let_def split: prod.splits option.splits)
  ultimately show ?case by force
qed simp

lemma scanStageTargets_ok:
  "scanStageTargets names sn path j assigned ts = (errs, assigned') \<Longrightarrow>
     dom (map_of assigned') = dom (map_of assigned) \<union> set ts \<and>
     (errs = [] \<longleftrightarrow> set ts \<subseteq> set names \<and> distinct ts \<and> set ts \<inter> dom (map_of assigned) = {})"
proof (induction ts arbitrary: j assigned errs assigned')
  case (Cons t ts)
  obtain e2 a2 where r: "scanStageTargets names sn path (Suc j) (AList.update t sn assigned) ts = (e2, a2)"
    by fastforce
  have d: "dom (map_of (AList.update t sn assigned)) = insert t (dom (map_of assigned))"
    by (auto simp: AList.update_conv')
  from Cons.IH [OF r] Cons.prems r show ?case
    by (cases "map_of assigned t") (auto simp: d Let_def)
qed auto

lemma scanStages_ok:
  "scanStages names i sns assigned ss = (errs, assigned') \<Longrightarrow> errs = [] \<Longrightarrow>
     dom (map_of assigned') = dom (map_of assigned) \<union> set (concat (map as_Targets ss)) \<and>
     set (concat (map as_Targets ss)) \<subseteq> set names \<and> distinct (concat (map as_Targets ss)) \<and>
     set (concat (map as_Targets ss)) \<inter> dom (map_of assigned) = {}"
proof (induction ss arbitrary: i sns assigned errs assigned')
  case (Cons s ss)
  obtain e1 a1 where r1: "scanStageTargets names (as_Name s)
      (child (index ''spec.execution.strategy.stages'' i) ''targets'') 0 assigned (as_Targets s) = (e1, a1)" by fastforce
  obtain e2 a2 where r2: "scanStages names (Suc i) (AList.update (as_Name s) i sns) a1 ss = (e2, a2)" by fastforce
  have "e1 = []" "e2 = []" "a2 = assigned'" using Cons.prems r1 r2 by (auto simp: Let_def)
  with scanStageTargets_ok [OF r1] Cons.IH [OF r2] show ?case by auto
qed simp

lemma validateStaged_covers:
  assumes "hpv_validateStaged plan names = []" "distinct names"
  shows "mset (concat (map as_Targets (es_Stages (Strategy (sp_Execution (Spec plan)))))) = mset names"
proof -
  let ?ss = "es_Stages (Strategy (sp_Execution (Spec plan)))"
  obtain errs assigned where r: "scanStages names 0 [] [] ?ss = (errs, assigned)" by fastforce
  have e: "errs = []" "\<forall>n \<in> set names. map_of assigned n \<noteq> None"
    using assms(1) r by (auto simp: hpv_validateStaged_def Let_def filter_empty_conv split: if_splits)
  note ok = scanStages_ok [OF r e(1)]
  then have "set (concat (map as_Targets ?ss)) = set names" using e(2) by auto
  then show ?thesis using ok assms(2) set_eq_iff_mset_eq_distinct by blast
qed

lemma ReverseIf_mset [simp]: "mset (ReverseIf b xs) = mset xs"
  by (simp add: ReverseIf_def)

lemma ReverseIf_set [simp]: "set (ReverseIf b xs) = set xs"
  by (simp add: ReverseIf_def)

text \<open>What the executor needs of a plan: each target has exactly one stage, with room for it.\<close>

definition executable :: "HibernatePlan \<Rightarrow> bool \<Rightarrow> bool" where
  "executable plan reverse \<longleftrightarrow>
     (\<exists>p. buildExecutionPlan plan reverse = Inr p \<and>
        mset (stageTargets (Stages p)) = mset (map tgt_Name (Targets (Spec plan))) \<and>
        (\<forall>s \<in> set (Stages p). xs_Targets s \<noteq> [] \<longrightarrow> 0 < xs_MaxConcurrency s))"

lemma executable_DAG:
  assumes dag: "es_Type (Strategy (sp_Execution (Spec plan))) = StrategyDAG"
    and p: "buildExecutionPlan plan reverse = Inr p" and f: "fits32 (Targets (Spec plan))"
  shows "executable plan reverse"
proof -
  let ?i = "(map tgt_Name (Targets (Spec plan)),
    map (planDependency reverse) (Dependencies (Strategy (sp_Execution (Spec plan)))),
    deref (es_MaxConcurrency (Strategy (sp_Execution (Spec plan)))))"
  have q: "(case ?i of (ts, deps, mc) \<Rightarrow> PlanDAG ts deps mc) = Inr p"
    using p dag by (auto simp: buildExecutionPlan_def Let_def split: sum.splits)
  have s: "case ?i of (ts, deps, mc) \<Rightarrow> fits32 ts" using f by (simp add: fits32_def)
  show ?thesis unfolding executable_def
    using dag.covers [OF q] dag.slots [OF s q] p by auto
qed

lemma executable_Staged:
  assumes st: "es_Type (Strategy (sp_Execution (Spec plan))) = StrategyStaged"
    and v: "hpv_validateStaged plan names = []"
    and names: "distinct names" "mset names = mset (map tgt_Name (Targets (Spec plan)))"
    and f: "fits32 (Targets (Spec plan))"
  shows "executable plan reverse"
proof -
  let ?ss = "es_Stages (Strategy (sp_Execution (Spec plan)))"
  let ?st = "ReverseIf reverse (map planStage ?ss)"
  let ?i = "(?st, deref (es_MaxConcurrency (Strategy (sp_Execution (Spec plan)))))"
  have q: "(case ?i of (ss, g) \<Rightarrow> Inr (PlanStaged ss g)) = buildExecutionPlan plan reverse"
    using st by (simp add: buildExecutionPlan_def Let_def)
  have m0: "mset (concat (map st_Targets ?st)) = mset (concat (map as_Targets ?ss))"
    by (simp add: ReverseIf_def planStage_def mset_concat comp_def rev_map [symmetric] sum_list_rev)
  then have m: "mset (concat (map st_Targets ?st)) = mset (map tgt_Name (Targets (Spec plan)))"
    using validateStaged_covers [OF v names(1)] names(2) by simp
  have "length (st_Targets s) \<le> length (concat (map st_Targets ?st))" if "s \<in> set ?st" for s
    using that by (induction ?st) (auto simp: length_concat intro: member_le_sum_list)
  moreover have "length (concat (map st_Targets ?st)) = length (Targets (Spec plan))"
    using m by (metis length_map size_mset)
  ultimately have s: "case ?i of (ss, g) \<Rightarrow> \<forall>s \<in> set ss. fits32 (st_Targets s)"
    using f by (fastforce simp: fits32_def)
  obtain p where p: "buildExecutionPlan plan reverse = Inr p" using q [symmetric] by auto
  show ?thesis unfolding executable_def
    using staged.covers [OF q [unfolded p]] staged.slots [OF s q [unfolded p]] p m by auto
qed

lemma executable_simple:
  assumes "es_Type (Strategy (sp_Execution (Spec plan))) \<in> {StrategySequential, StrategyParallel}"
    and f: "fits32 (Targets (Spec plan))"
  shows "executable plan reverse"
proof -
  let ?ts = "ReverseIf reverse (map tgt_Name (Targets (Spec plan)))"
  let ?i = "(?ts, deref (es_MaxConcurrency (Strategy (sp_Execution (Spec plan)))))"
  have f': "case ?i of (ts, mc) \<Rightarrow> fits32 ts" using f by (simp add: fits32_def ReverseIf_def)
  show ?thesis
  proof (cases "es_Type (Strategy (sp_Execution (Spec plan))) = StrategySequential")
    case True
    then show ?thesis unfolding executable_def
      using seq.covers [OF refl, of ?ts] seq.slots [OF TrueI refl]
      by (auto simp: buildExecutionPlan_def Let_def)
  next
    case False
    then have "es_Type (Strategy (sp_Execution (Spec plan))) = StrategyParallel" using assms(1) by simp
    moreover have q: "(case ?i of (ts, mc) \<Rightarrow> Inr (PlanParallel ts mc)) = (Inr (PlanParallel ?ts (snd ?i)) :: ExecutionPlan res)"
      by simp
    ultimately show ?thesis unfolding executable_def
      using par.covers [OF q] par.slots [OF f' q]
      by (auto simp: buildExecutionPlan_def Let_def)
  qed
qed

text \<open>
  C22.  A plan that the webhook admits can be executed: in both directions the execution plan is
  built without an error, every target of the plan is in exactly one stage, and every stage has
  room for at least one job.  (The number of targets fits a 32-bit integer.)
\<close>

theorem admitted_plan_executes:
  assumes adm: "admitted (hpv_validate L plan)" and f: "fits32 (Targets (Spec plan))"
  shows "executable plan reverse"
proof -
  let ?ts = "map tgt_Name (Targets (Spec plan))"
  have parts: "fst (hpv_validateTargets L plan) = []" "fst (hpv_validateStrategy plan) = []"
    using adm by (auto simp: admitted_def hpv_validate_def split_def Let_def)
  have dist: "distinct ?ts"
    using scanTargets_distinct parts(1) by (auto simp: hpv_validateTargets_def)
  then have names: "remdups ?ts = ?ts" by (simp add: distinct_remdups_id)
  show ?thesis
  proof (cases "es_Type (Strategy (sp_Execution (Spec plan)))")
    case StrategyDAG
    then have "admitted (hpv_validateDAG plan ?ts)"
      using parts(2) names by (simp add: hpv_validateStrategy_def admitted_def)
    then obtain p where "buildExecutionPlan plan reverse = Inr p"
      using validateDAG_planner [OF dist refl dist StrategyDAG] by blast
    then show ?thesis using executable_DAG [OF StrategyDAG _ f] by blast
  next
    case StrategyStaged
    then have "hpv_validateStaged plan ?ts = []"
      using parts(2) names by (simp add: hpv_validateStrategy_def)
    then show ?thesis using executable_Staged [OF StrategyStaged _ dist refl f] by blast
  qed (use executable_simple [OF _ f] parts(2) in \<open>auto simp: hpv_validateStrategy_def\<close>)
qed

section \<open>Windows of an admitted plan\<close>

lemma digit_val_Some: "digit_val c = Some a \<Longrightarrow> a < 10 \<and> c = digit a"
  by (auto simp: digit_val_def digit_def Let_def split: if_splits)

lemma Atoi_one: "a < 10 \<Longrightarrow> Atoi [digit a] = Some (int a)"
  by (simp add: Atoi_def digit_neq)

lemma Atoi_pair:
  assumes "digit_val c = Some a" "digit_val d = Some b"
  shows "Atoi [c, d] = Some (int (10 * a + b)) \<and> a < 10 \<and> b < 10"
  using digit_val_Some [OF assms(1)] digit_val_Some [OF assms(2)] by (simp add: Atoi_two)

lemma hourPart_Atoi:
  assumes "hourPart h"
  shows "\<exists>n. Atoi h = Some n \<and> 0 \<le> n \<and> n \<le> 23"
proof -
  consider c where "h = [c]" "digit_val c \<noteq> None"
    | c d a b where "h = [c, d]" "digit_val c = Some a" "digit_val d = Some b" "a \<le> 1 \<or> a = 2 \<and> b \<le> 3"
    using assms unfolding hourPart_def by (auto split: list.splits option.splits)
  then show ?thesis
  proof cases
    case (1 c)
    then obtain a where "a < 10" "c = digit a" using digit_val_Some by blast
    then show ?thesis using 1 by (simp add: Atoi_one)
  next
    case (2 c d a b)
    then show ?thesis using Atoi_pair [OF 2(2,3)] by auto
  qed
qed

lemma minutePart_Atoi:
  assumes "minutePart m"
  shows "\<exists>n. Atoi m = Some n \<and> 0 \<le> n \<and> n \<le> 59"
proof -
  obtain c d a b where m: "m = [c, d]" "digit_val c = Some a" "digit_val d = Some b" "a \<le> 5"
    using assms unfolding minutePart_def by (auto split: list.splits option.splits)
  then show ?thesis using Atoi_pair [OF m(2,3)] by auto
qed

text \<open>Every time the regular expression accepts is read by the scheduler.\<close>

lemma timePattern_parseTime:
  assumes "timePattern s"
  shows "\<exists>h m. parseTime s = Inr (h, m)"
proof -
  obtain h m where hm: "split_on (CHR '':'') s = [h, m]" "hourPart h" "minutePart m"
    using assms by (auto simp: timePattern_def split: list.splits)
  from hourPart_Atoi [OF hm(2)] minutePart_Atoi [OF hm(3)] show ?thesis
    by (auto simp: parseTime_def hm(1))
qed

lemma validDays_valid_day: "ToUpper d \<in> set validDays \<longleftrightarrow> valid_day d"
  by (auto simp: validDays_def valid_day_def dayMap_def)

lemma timeErrors_ok: "timeErrors p what ex t = [] \<longleftrightarrow> t \<noteq> '''' \<and> timePattern t"
  by (simp add: timeErrors_def)

lemma windowErrors_ok:
  "windowErrors p w = [] \<longleftrightarrow> timePattern (Start w) \<and> timePattern (End w) \<and> Start w \<noteq> '''' \<and> End w \<noteq> '''' \<and>
     Start w \<noteq> End w \<and> DaysOfWeek w \<noteq> [] \<and> list_all valid_day (DaysOfWeek w)"
  using concat_enumerate_Nil [where P = valid_day and n = 0 and xs = "DaysOfWeek w" and
      f = "\<lambda>j day. if ToUpper day \<notin> set validDays
        then [fieldError FieldNotSupported (index (child p ''daysOfWeek'') j) day] else []"]
  by (auto simp: windowErrors_def timeErrors_ok list_all_iff validDays_valid_day)

lemma validateSchedule_windows:
  "fst (hpv_validateSchedule plan) = [] \<Longrightarrow> w \<in> set (OffHours (sp_Schedule (Spec plan))) \<Longrightarrow>
     windowErrors p w = []"
  using concat_enumerate_Nil [where n = 0 and xs = "OffHours (sp_Schedule (Spec plan))" and
      f = "\<lambda>i. windowErrors (index (child ''spec.schedule'' ''offHours'') i)" and P = "\<lambda>w. windowErrors p w = []"]
  by (simp add: hpv_validateSchedule_def Let_def windowErrors_ok)

text \<open>
  Every off-hour window of an admitted plan names known days and readable times, and the
  scheduler converts it into cron expressions unless its start and end are the same moment of the
  day.  The webhook compares the texts, so the exception is real: 1:00 and 01:00 are different
  texts of the same moment.
\<close>

lemma admitted_window_converts:
  assumes "admitted (hpv_validate L plan)" "w \<in> set (OffHours (sp_Schedule (Spec plan)))"
  shows "(\<exists>hc wc. ParseWindowToCron (Start w) (End w) (DaysOfWeek w) = Inr (hc, wc)) \<longleftrightarrow>
    parseTime (Start w) \<noteq> parseTime (End w)"
proof -
  have "fst (hpv_validateSchedule plan) = []"
    using assms(1) by (auto simp: admitted_def hpv_validate_def split_def Let_def)
  from validateSchedule_windows [OF this assms(2), of "''''"]
  have ok: "timePattern (Start w)" "timePattern (End w)" "DaysOfWeek w \<noteq> []" "list_all valid_day (DaysOfWeek w)"
    by (auto simp: windowErrors_ok)
  obtain sh sm eh em where t: "parseTime (Start w) = Inr (sh, sm)" "parseTime (End w) = Inr (eh, em)"
    using timePattern_parseTime ok(1,2) by blast
  show ?thesis
    using ok(3) cronDays_ok [OF ok(4)] t by (auto simp: ParseWindowToCron_def convertDaysToCron_def)
qed

section \<open>Examples\<close>

definition noLibs :: ParamLibs where
  "noLibs = \<lparr>decodeMap = \<lambda>_. Inl (ErrMsg ''json''), decodeEC2 = \<lambda>_. Inl (ErrMsg ''json''),
     decodeRDS = \<lambda>_. Inl (ErrMsg ''json''), decodeEKS = \<lambda>_. Inl (ErrMsg ''json''),
     decodeKarpenter = \<lambda>_. Inl (ErrMsg ''json''), decodeGKE = \<lambda>_. Inl (ErrMsg ''json''),
     decodeCloudSQL = \<lambda>_. Inl (ErrMsg ''json''), decodeWorkloadScaler = \<lambda>_. Inl (ErrMsg ''json''),
     labelSelectorErrors = \<lambda>_. None, errorText = fe_Detail\<rparr>"

definition noopTarget :: "string \<Rightarrow> Target" where
  "noopTarget n = \<lparr>tgt_Name = n, tgt_Type = ''noop'',
     tgt_ConnectorRef = \<lparr>cr_Kind = ''K8SCluster'', cr_Name = ''c'', cr_Namespace = ''''\<rparr>, tgt_Parameters = None\<rparr>"

definition dagPlan :: "OffHourWindow \<Rightarrow> Dependency list \<Rightarrow> HibernatePlan" where
  "dagPlan w deps =
     \<lparr>Name = ''p'', Namespace = ''ns'', Generation = 1, DeletionTimestamp = None, Finalizers = [],
      Labels = (\<lambda>_. None), Annotations = (\<lambda>_. None),
      Spec = \<lparr>sp_Schedule = \<lparr>sc_Timezone = ''UTC'', OffHours = [w]\<rparr>,
        sp_Execution = \<lparr>Strategy = \<lparr>es_Type = StrategyDAG, es_MaxConcurrency = None, Dependencies = deps, es_Stages = []\<rparr>\<rparr>,
        sp_Behavior = \<lparr>Mode = BehaviorStrict, FailFast = False, Retries = None\<rparr>, Suspend = False,
        Targets = [noopTarget ''app'', noopTarget ''db'']\<rparr>,
      Status = emptyStatus\<rparr>"

abbreviation overnight :: OffHourWindow where
  "overnight \<equiv> \<lparr>Start = ''20:00'', End = ''06:00'', DaysOfWeek = [''MON'']\<rparr>"

lemma dagPlan_admitted: "admitted (hpv_validate noLibs (dagPlan overnight [dep ''app'' ''db'']))"
  by code_simp

theorem admitted_plan_executes_witness:
  "executable (dagPlan overnight [dep ''app'' ''db'']) False \<and> executable (dagPlan overnight [dep ''app'' ''db'']) True"
proof -
  have f: "fits32 (Targets (Spec (dagPlan overnight [dep ''app'' ''db''])))" by (simp add: fits32_def dagPlan_def)
  show ?thesis using admitted_plan_executes [OF dagPlan_admitted f] by blast
qed

theorem validateDAG_agrees_with_planner_witness:
  "\<not> admitted (hpv_validateDAG (dagPlan overnight [dep ''app'' ''db'', dep ''db'' ''app'']) [''db'', ''app'']) \<and>
   (\<nexists>p. buildExecutionPlan (dagPlan overnight [dep ''app'' ''db'', dep ''db'' ''app'']) True = Inr p)"
proof -
  let ?p = "dagPlan overnight [dep ''app'' ''db'', dep ''db'' ''app'']"
  have r: "\<not> admitted (hpv_validateDAG ?p [''db'', ''app''])" by code_simp
  have "admitted (hpv_validateDAG ?p [''db'', ''app'']) \<longleftrightarrow> (\<exists>p. buildExecutionPlan ?p True = Inr p)"
    by (rule validateDAG_agrees_with_planner) (auto simp: dagPlan_def noopTarget_def)
  with r show ?thesis by blast
qed

lemma admitted_window_converts_witness:
  "\<exists>hc wc. ParseWindowToCron ''20:00'' ''06:00'' [''MON''] = Inr (hc, wc)"
proof -
  have m: "overnight \<in> set (OffHours (sp_Schedule (Spec (dagPlan overnight [dep ''app'' ''db'']))))"
    by (simp add: dagPlan_def)
  have "parseTime ''20:00'' \<noteq> parseTime ''06:00''" by code_simp
  then show ?thesis using admitted_window_converts [OF dagPlan_admitted m] by simp
qed

text \<open>The gap of the check: the webhook admits a window that the scheduler cannot convert.\<close>

lemma same_moment_admitted:
  "admitted (hpv_validate noLibs (dagPlan \<lparr>Start = ''1:00'', End = ''01:00'', DaysOfWeek = [''MON'']\<rparr> []))"
  "isl (ParseWindowToCron ''1:00'' ''01:00'' [''MON''])"
  by code_simp+

end
