(* ===== verification/ExcWebhook.thy ===== *)
theory ExcWebhook
  imports PlanWebhook
begin

text \<open>
  The admission checks of ScheduleException and HibernateNotification objects
  (\<^verbatim>\<open>internal/validationwebhook/scheduleexception_validator.go\<close>, \<^verbatim>\<open>types.go\<close>,
  \<^verbatim>\<open>hibernatenotification_validator.go\<close>).  The API reader is a record of two functions: the plan
  under a key, and the exceptions of a namespace with the label of a plan.  Error details that
  print a time, a duration or a type are shortened to their fixed text.
\<close>

record ExcClient =
  GetPlan :: "string \<Rightarrow> string \<Rightarrow> HibernatePlan res"
  ListExceptions :: "string \<Rightarrow> string \<Rightarrow> (ScheduleException list) res"

section \<open>Colliding windows\<close>

text \<open>
  \<open>time.Parse\<close> at the layout 15:04 takes one or two digits for the hour and two for the minute;
  an error is read as midnight.
\<close>

definition hhmmToMinutes :: "string \<Rightarrow> int" where
  "hhmmToMinutes t =
     (case Option.bind (getnum False t) (\<lambda>(h, r).
           Option.bind (Option.bind (skip_char (CHR '':'') r) (getnum True)) (\<lambda>(m, r').
             if r' = [] \<and> h < 24 \<and> m < 60 then Some (h, m) else None)) of
        None \<Rightarrow> 0
      | Some (h, m) \<Rightarrow> int h * 60 + int m)"

definition expandTimeRange :: "string \<Rightarrow> string \<Rightarrow> (int \<times> int) list" where
  "expandTimeRange start end' =
     (let s = hhmmToMinutes start; e = hhmmToMinutes end' in
      if s < e then [(s, e)] else if s = e then [] else [(s, 1440), (0, e)])"

definition timeRangesOverlap :: "string \<Rightarrow> string \<Rightarrow> string \<Rightarrow> string \<Rightarrow> bool" where
  "timeRangesOverlap startA endA startB endB =
     list_ex (\<lambda>(sa, ea). list_ex (\<lambda>(sb, eb). sa < eb \<and> sb < ea) (expandTimeRange startB endB))
       (expandTimeRange startA endA)"

definition windowPairCollides :: "OffHourWindow \<Rightarrow> OffHourWindow \<Rightarrow> bool" where
  "windowPairCollides a b =
     (if \<not> list_ex (\<lambda>d. d \<in> set (DaysOfWeek b)) (DaysOfWeek a) then False
      else timeRangesOverlap (Start a) (End a) (Start b) (End b))"

definition windowsCollide :: "OffHourWindow list \<Rightarrow> OffHourWindow list \<Rightarrow> bool" where
  "windowsCollide a b = list_ex (\<lambda>wa. list_ex (windowPairCollides wa) b) a"

definition isAllowedTypePair :: "ExceptionType \<Rightarrow> ExceptionType \<Rightarrow> bool" where
  "isAllowedTypePair a b \<longleftrightarrow>
     (a, b) \<in> {(ExceptionExtend, ExceptionSuspend), (ExceptionSuspend, ExceptionExtend),
        (ExceptionReplace, ExceptionExtend), (ExceptionExtend, ExceptionReplace),
        (ExceptionReplace, ExceptionSuspend), (ExceptionSuspend, ExceptionReplace)}"

section \<open>Changes of the override fields\<close>

definition ptrEqual :: "int option \<Rightarrow> int option \<Rightarrow> bool" where
  "ptrEqual a b = (if (a = None) \<noteq> (b = None) then False else if a = None then True else the a = the b)"

definition parametersEqual :: "string option \<Rightarrow> string option \<Rightarrow> bool" where
  "parametersEqual a b = (if (a = None) \<noteq> (b = None) then False else if a = None then True else the a = the b)"

definition stageEqual :: "api_Stage \<Rightarrow> api_Stage \<Rightarrow> bool" where
  "stageEqual s1 s2 =
     (if as_Name s1 \<noteq> as_Name s2 \<or> as_Parallel s1 \<noteq> as_Parallel s2 \<or>
         \<not> ptrEqual (as_MaxConcurrency s1) (as_MaxConcurrency s2) then False
      else as_Targets s1 = as_Targets s2)"

definition executionStrategyEqual :: "ExecutionStrategy option \<Rightarrow> ExecutionStrategy option \<Rightarrow> bool" where
  "executionStrategyEqual a b =
     (case (a, b) of
        (None, None) \<Rightarrow> True
      | (Some a, Some b) \<Rightarrow>
          if es_Type a \<noteq> es_Type b \<or> \<not> ptrEqual (es_MaxConcurrency a) (es_MaxConcurrency b) then False
          else if \<not> list_all2 (\<lambda>d1 d2. From d1 = From d2 \<and> To d1 = To d2) (Dependencies a) (Dependencies b) then False
          else list_all2 stageEqual (es_Stages a) (es_Stages b)
      | _ \<Rightarrow> False)"

definition behaviorEqual :: "Behavior option \<Rightarrow> Behavior option \<Rightarrow> bool" where
  "behaviorEqual a b =
     (case (a, b) of
        (None, None) \<Rightarrow> True
      | (Some a, Some b) \<Rightarrow> Mode a = Mode b \<and> FailFast a = FailFast b \<and> ptrEqual (Retries a) (Retries b)
      | _ \<Rightarrow> False)"

definition targetOverrideDiffers :: "TargetOverride \<Rightarrow> TargetOverride \<Rightarrow> bool" where
  "targetOverrideDiffers a b \<longleftrightarrow> TargetName a \<noteq> TargetName b \<or> Disabled a \<noteq> Disabled b \<or>
     \<not> parametersEqual (to_Parameters a) (to_Parameters b)"

definition overrideFieldsChanged :: "ScheduleException \<Rightarrow> ScheduleException \<Rightarrow> bool" where
  "overrideFieldsChanged old new =
     (let a = TargetOverrides (exc_Spec old); b = TargetOverrides (exc_Spec new);
          x = xs_ExecutionOverride (exc_Spec old); y = xs_ExecutionOverride (exc_Spec new)
      in if length a \<noteq> length b then True
         else if list_ex (\<lambda>(p, q). targetOverrideDiffers p q) (zip a b) then True
         else if (x = None) \<noteq> (y = None) then True
         else if x \<noteq> None \<and> y \<noteq> None \<and>
              (\<not> executionStrategyEqual (eo_Strategy (the x)) (eo_Strategy (the y)) \<or>
               \<not> behaviorEqual (eo_Behavior (the x)) (eo_Behavior (the y))) then True
         else False)"

section \<open>The mid-cycle block\<close>

definition checkMidCycleBlock :: "ExcClient \<Rightarrow> ScheduleException \<Rightarrow> go_error option" where
  "checkMidCycleBlock C exc =
     (let name = pr_Name (PlanRef (exc_Spec exc)) in
      case GetPlan C (exc_Namespace exc) name of
        Inl err \<Rightarrow> if is_not_found err then None
                   else Some (Wrap (''failed to fetch referenced plan '' @ exc_Namespace exc @ ''/'' @ name @
                          '' for mid-cycle check: '') err)
      | Inr plan \<Rightarrow>
          if (Phase (Status plan) = PhaseHibernating \<or> Phase (Status plan) = PhaseWakingUp) \<and>
             AppliedExceptionOverride (Status plan) = exc_Name exc
          then Some (ErrMsg (''cannot modify or delete ScheduleException '' @ exc_Namespace exc @ ''/'' @ exc_Name exc @
                 '' while plan '' @ name @ '' is mid-cycle ('' @ phase_string (Phase (Status plan)) @
                 '') with this exception'' @ [CHR 0x27] @ ''s override''))
          else None)"

section \<open>Checks of one exception\<close>

text \<open>The namespace an exception's plan is looked up in.\<close>

definition planNamespace :: "ScheduleException \<Rightarrow> string" where
  "planNamespace exc =
     (let n = pr_Namespace (PlanRef (exc_Spec exc)) in if n = '''' then exc_Namespace exc else n)"

definition validatePlanRef :: "ExcClient \<Rightarrow> ScheduleException \<Rightarrow> verdict" where
  "validatePlanRef C exc =
     (let name = pr_Name (PlanRef (exc_Spec exc)); ns = planNamespace exc in
      if name = '''' then ([fieldError FieldRequired ''spec.planRef.name'' ''planRef.name must be specified''], [])
      else if ns \<noteq> exc_Namespace exc
      then ([fieldError FieldInvalid ''spec.planRef.namespace''
              (''planRef must reference a HibernatePlan in the same namespace ('' @ exc_Namespace exc @ '')'')], [])
      else (case GetPlan C ns name of
              Inr _ \<Rightarrow> ([], [])
            | Inl err \<Rightarrow>
                if is_not_found err
                then ([], [''HibernatePlan '' @ quote name @ '' not found in namespace '' @ quote ns @
                       ''; this exception will have no effect until the plan is created''])
                else ([fieldError FieldInternal ''spec.planRef.name''
                         (''failed to verify HibernatePlan existence: '' @ err_text err)], [])))"

definition maxExceptionDuration :: duration where
  "maxExceptionDuration = 90 * 24 * Hour"

definition validateTimeRange :: "ScheduleException \<Rightarrow> FieldError list" where
  "validateTimeRange exc =
     (let f = xs_ValidFrom (exc_Spec exc); u = xs_ValidUntil (exc_Spec exc) in
      (if \<not> Before f u then [fieldError FieldInvalid ''spec.validUntil'' ''validUntil must be after validFrom''] else []) @
      (if SubTime u f > maxExceptionDuration
       then [fieldError FieldInvalid ''spec.validUntil'' ''exception duration exceeds maximum of 90 days''] else []))"

definition validateTypeSpecificFields :: "ScheduleException \<Rightarrow> FieldError list" where
  "validateTypeSpecificFields exc =
     (let lead = xs_LeadTime (exc_Spec exc) in
      (if lead \<noteq> '''' \<and> xs_Type (exc_Spec exc) \<noteq> ExceptionSuspend
       then [fieldError FieldInvalid ''spec.leadTime'' ''leadTime is only valid when type is suspend''] else []) @
      (if lead \<noteq> '''' then
         (case ParseDuration lead of
            Inl err \<Rightarrow> [fieldError FieldInvalid ''spec.leadTime'' (''invalid duration format: '' @ err_text err)]
          | Inr _ \<Rightarrow> [])
       else []))"

definition excWindowErrors :: "string \<Rightarrow> OffHourWindow \<Rightarrow> FieldError list" where
  "excWindowErrors path w =
     (if \<not> timePattern (Start w) then [fieldError FieldInvalid (child path ''start'') ''must be in HH:MM format''] else []) @
     (if \<not> timePattern (End w) then [fieldError FieldInvalid (child path ''end'') ''must be in HH:MM format''] else []) @
     (if DaysOfWeek w = [] then [fieldError FieldRequired (child path ''daysOfWeek'') ''at least one day must be specified'']
      else []) @
     concat (map (\<lambda>(j, day). if day \<notin> set validDays
        then [fieldError FieldInvalid (index (child path ''daysOfWeek'') j) ''must be one of: MON, TUE, WED, THU, FRI, SAT, SUN'']
        else []) (enumerate 0 (DaysOfWeek w)))"

definition validateWindows :: "ScheduleException \<Rightarrow> FieldError list" where
  "validateWindows exc =
     (let ws = xs_Windows (exc_Spec exc); path = ''spec.windows'' in
      if ws = [] then [fieldError FieldRequired path ''at least one window must be specified'']
      else concat (map (\<lambda>(i, w). excWindowErrors (index path i) w) (enumerate 0 ws)))"

text \<open>An existing exception that counts: another object, neither expired nor detached, with a
  validity period that overlaps.\<close>

definition competes :: "ScheduleException \<Rightarrow> ScheduleException \<Rightarrow> bool" where
  "competes exc other \<longleftrightarrow>
     \<not> (exc_Namespace other = exc_Namespace exc \<and> exc_Name other = exc_Name exc) \<and>
     xt_State (exc_Status other) \<noteq> ExceptionStateExpired \<and> xt_State (exc_Status other) \<noteq> ExceptionStateDetached \<and>
     Before (xs_ValidFrom (exc_Spec exc)) (xs_ValidUntil (exc_Spec other)) \<and>
     Before (xs_ValidFrom (exc_Spec other)) (xs_ValidUntil (exc_Spec exc))"

definition hasOverrides :: "ScheduleException \<Rightarrow> bool" where
  "hasOverrides exc \<longleftrightarrow> TargetOverrides (exc_Spec exc) \<noteq> [] \<or> xs_ExecutionOverride (exc_Spec exc) \<noteq> None"

text \<open>The loop of \<open>validateNoOverlappingExceptions\<close>: the first conflict ends it.\<close>

fun overlapScan :: "ScheduleException \<Rightarrow> ScheduleException list \<Rightarrow> FieldError list" where
  "overlapScan exc [] = []"
| "overlapScan exc (other # rest) =
     (if \<not> competes exc other then overlapScan exc rest
      else if \<not> windowsCollide (xs_Windows (exc_Spec exc)) (xs_Windows (exc_Spec other)) then overlapScan exc rest
      else if xs_Type (exc_Spec exc) = xs_Type (exc_Spec other)
      then [fieldError FieldForbidden ''spec.planRef.name''
              (''colliding same-type exceptions cannot coexist; merge windows into a single exception (conflicts with exception '' @
               quote (exc_Name other) @ '')'')]
      else if \<not> isAllowedTypePair (xs_Type (exc_Spec exc)) (xs_Type (exc_Spec other))
      then [fieldError FieldForbidden ''spec.planRef.name''
              (''unsupported colliding exception type combination (conflicts with exception '' @ quote (exc_Name other) @ '')'')]
      else overlapScan exc rest)"

definition validateNoOverlappingExceptions :: "ExcClient \<Rightarrow> ScheduleException \<Rightarrow> FieldError list" where
  "validateNoOverlappingExceptions C exc =
     (case ListExceptions C (planNamespace exc) (pr_Name (PlanRef (exc_Spec exc))) of
        Inl err \<Rightarrow> [fieldError FieldInternal ''spec.planRef'' (''failed to query existing exceptions: '' @ err_text err)]
      | Inr items \<Rightarrow> overlapScan exc items)"

definition hasDependencyOn :: "HibernatePlan \<Rightarrow> string \<Rightarrow> bool" where
  "hasDependencyOn plan targetName =
     (let strategy = Strategy (sp_Execution (Spec plan)) in
      if es_Type strategy \<noteq> StrategyDAG then False
      else list_ex (\<lambda>d. From d = targetName) (Dependencies strategy))"

text \<open>The target map keeps the last target of a name.\<close>

definition targetMap :: "HibernatePlan \<Rightarrow> string \<Rightarrow> Target option" where
  "targetMap plan n = List.find (\<lambda>t. tgt_Name t = n) (rev (Targets (Spec plan)))"

definition overrideErrors :: "ParamLibs \<Rightarrow> HibernatePlan \<Rightarrow> string \<Rightarrow> TargetOverride \<Rightarrow> FieldError list" where
  "overrideErrors L plan path ov =
     (case targetMap plan (TargetName ov) of
        None \<Rightarrow> [fieldError FieldNotFound (child path ''targetName'') (TargetName ov)]
      | Some target \<Rightarrow>
          (case to_Parameters ov of
             None \<Rightarrow> []
           | Some raw \<Rightarrow>
               if raw = [] then []
               else (case ExecParams.ValidateParams L (tgt_Type target) raw of
                       None \<Rightarrow> []
                     | Some result \<Rightarrow> map (fieldError FieldInvalid (child path ''parameters'')) (Errors result))) @
          (if Disabled ov \<and> hasDependencyOn plan (TargetName ov)
           then [fieldError FieldInvalid (child path ''disabled'')
                  (''cannot disable target '' @ quote (TargetName ov) @ '': other targets have dependencies on it'')]
           else []))"

definition targetOverrideErrors :: "ExcClient \<Rightarrow> ParamLibs \<Rightarrow> ScheduleException \<Rightarrow> FieldError list" where
  "targetOverrideErrors C L exc =
     (if TargetOverrides (exc_Spec exc) = [] then []
      else (case GetPlan C (planNamespace exc) (pr_Name (PlanRef (exc_Spec exc))) of
              Inl err \<Rightarrow> if is_not_found err then []
                         else [fieldError FieldInternal ''spec.planRef''
                                (''failed to verify HibernatePlan for targetOverrides: '' @ err_text err)]
            | Inr plan \<Rightarrow> concat (map (\<lambda>(i, ov). overrideErrors L plan (index ''spec.targetOverrides'' i) ov)
                            (enumerate 0 (TargetOverrides (exc_Spec exc))))))"

definition knownStrategy :: "ExecutionStrategyType \<Rightarrow> bool" where
  "knownStrategy t = (case t of StrategyOther _ \<Rightarrow> False | _ \<Rightarrow> True)"

definition strategyErrors :: "ScheduleException \<Rightarrow> FieldError list" where
  "strategyErrors exc =
     (case xs_ExecutionOverride (exc_Spec exc) of
        None \<Rightarrow> []
      | Some ov \<Rightarrow>
          (case eo_Strategy ov of
             None \<Rightarrow> []
           | Some s \<Rightarrow> if knownStrategy (es_Type s) then []
                       else [fieldError FieldNotSupported ''spec.executionOverride.strategy.type'' (strategy_string (es_Type s))]))"

fun overrideScan :: "ScheduleException \<Rightarrow> ScheduleException list \<Rightarrow> FieldError list" where
  "overrideScan exc [] = []"
| "overrideScan exc (other # rest) =
     (if competes exc other \<and> hasOverrides other
      then [fieldError FieldForbidden ''spec''
              (''only one active exception may have execution overrides per plan; existing exception '' @
               quote (exc_Name other) @ '' already has overrides'')]
      else overrideScan exc rest)"

definition singleOverrideErrors :: "ExcClient \<Rightarrow> ScheduleException \<Rightarrow> FieldError list" where
  "singleOverrideErrors C exc =
     (if hasOverrides exc then
        (case ListExceptions C (planNamespace exc) (pr_Name (PlanRef (exc_Spec exc))) of
           Inl _ \<Rightarrow> []
         | Inr items \<Rightarrow> overrideScan exc items)
      else [])"

definition validateExecutionOverrides :: "ExcClient \<Rightarrow> ParamLibs \<Rightarrow> ScheduleException \<Rightarrow> FieldError list" where
  "validateExecutionOverrides C L exc =
     (if xs_Type (exc_Spec exc) = ExceptionSuspend then
        (if TargetOverrides (exc_Spec exc) \<noteq> [] then [fieldError FieldForbidden ''spec.targetOverrides''
           ''targetOverrides are not allowed for suspend type exceptions''] else []) @
        (if xs_ExecutionOverride (exc_Spec exc) \<noteq> None then [fieldError FieldForbidden ''spec.executionOverride''
           ''executionOverride is not allowed for suspend type exceptions''] else [])
      else targetOverrideErrors C L exc @ strategyErrors exc @ singleOverrideErrors C exc)"

section \<open>Admission\<close>

definition sev_validate :: "ExcClient \<Rightarrow> ParamLibs \<Rightarrow> ScheduleException \<Rightarrow> verdict" where
  "sev_validate C L exc =
     (if \<not> (case exc_DeletionTimestamp exc of None \<Rightarrow> True | Some t \<Rightarrow> IsZero t) then ([], [])
      else (let (e1, w1) = validatePlanRef C exc in
            (e1 @ validateTimeRange exc @ validateTypeSpecificFields exc @ validateWindows exc @
             validateNoOverlappingExceptions C exc @ validateExecutionOverrides C L exc, w1)))"

definition sev_ValidateCreate :: "ExcClient \<Rightarrow> ParamLibs \<Rightarrow> ScheduleException \<Rightarrow> verdict" where
  "sev_ValidateCreate C L exc = sev_validate C L exc"

text \<open>An update or a deletion can also be refused by the mid-cycle block, which is a plain error.\<close>

definition sev_ValidateUpdate ::
    "ExcClient \<Rightarrow> ParamLibs \<Rightarrow> ScheduleException \<Rightarrow> ScheduleException \<Rightarrow> verdict res" where
  "sev_ValidateUpdate C L old new =
     (if overrideFieldsChanged old new then
        (case checkMidCycleBlock C new of Some err \<Rightarrow> Inl err | None \<Rightarrow> Inr (sev_validate C L new))
      else Inr (sev_validate C L new))"

definition sev_ValidateDelete :: "ExcClient \<Rightarrow> ScheduleException \<Rightarrow> go_error option" where
  "sev_ValidateDelete C exc = checkMidCycleBlock C exc"

section \<open>HibernateNotification\<close>

text \<open>The label selector check of the Kubernetes library is a parameter.\<close>

definition validateSelector :: "(LabelSelector \<Rightarrow> string option) \<Rightarrow> LabelSelector \<Rightarrow> FieldError list" where
  "validateSelector asSelector sel =
     (case asSelector sel of None \<Rightarrow> [] | Some e \<Rightarrow> [fieldError FieldInvalid ''spec.selector'' e])"

fun sinkScan :: "nat \<Rightarrow> (string \<times> nat) list \<Rightarrow> string list \<Rightarrow> FieldError list" where
  "sinkScan i seen [] = []"
| "sinkScan i seen (n # ns) =
     (case map_of seen n of
        Some prev \<Rightarrow> fieldError FieldInvalid (child (index ''spec.sinks'' i) ''name'')
            (''duplicate sink name (first defined at sinks['' @ show_nat prev @ ''])'') # sinkScan (Suc i) seen ns
      | None \<Rightarrow> sinkScan (Suc i) (AList.update n i seen) ns)"

definition validateSinkNameUniqueness :: "HibernateNotification \<Rightarrow> FieldError list" where
  "validateSinkNameUniqueness notif = sinkScan 0 [] (map sk_Name (Sinks notif))"

definition hnv_validate ::
    "(LabelSelector \<Rightarrow> string option) \<Rightarrow> LabelSelector \<Rightarrow> HibernateNotification \<Rightarrow> FieldError list" where
  "hnv_validate asSelector sel notif = validateSelector asSelector sel @ validateSinkNameUniqueness notif"

section \<open>Windows collide exactly when they share a moment\<close>

lemma digit_val_colon [simp]: "digit_val (CHR '':'') = None"
  by (simp add: digit_val_def)

lemma minutePart_cases:
  assumes "minutePart m"
  obtains c d a b where "m = [c, d]" "digit_val c = Some a" "digit_val d = Some b" "10 * a + b < 60"
proof -
  obtain c d a b where m: "m = [c, d]" "digit_val c = Some a" "digit_val d = Some b" "a \<le> 5"
    using assms unfolding minutePart_def by (auto split: list.splits option.splits)
  then show thesis using that Atoi_pair [OF m(2,3)] by auto
qed

text \<open>Both readings of a time of day agree on what the webhook's pattern accepts.\<close>

lemma timePattern_readings:
  assumes "timePattern s"
  obtains h m where "parseTime s = Inr (int h, int m)" "hhmmToMinutes s = int h * 60 + int m" "h < 24" "m < 60"
proof -
  obtain h m where hm: "split_on (CHR '':'') s = [h, m]" "hourPart h" "minutePart m"
    using assms by (auto simp: timePattern_def split: list.splits)
  have s: "s = h @ CHR '':'' # m" using join_split_on [of "CHR '':''" s] hm(1) by simp
  from hm(3) obtain e f x y where m: "m = [e, f]" "digit_val e = Some x" "digit_val f = Some y" "10 * x + y < 60"
    by (rule minutePart_cases)
  note am = Atoi_pair [OF m(2,3)]
  consider c a where "h = [c]" "digit_val c = Some a"
    | c d a b where "h = [c, d]" "digit_val c = Some a" "digit_val d = Some b" "a \<le> 1 \<or> a = 2 \<and> b \<le> 3"
    using hm(2) unfolding hourPart_def by (auto split: list.splits option.splits)
  then show thesis
  proof cases
    case (1 c a)
    then have "a < 10" "Atoi h = Some (int a)" using digit_val_Some Atoi_one by auto
    with 1 s m am hm(1) show thesis
      by (intro that [of a "10 * x + y"])
        (auto simp: parseTime_def hhmmToMinutes_def getnum_def digit_at_def skip_char_def)
  next
    case (2 c d a b)
    with s m am hm(1) Atoi_pair [OF 2(2,3)] show thesis
      by (intro that [of "10 * a + b" "10 * x + y"])
        (auto simp: parseTime_def hhmmToMinutes_def getnum_def digit_at_def skip_char_def)
  qed
qed

text \<open>An exception window as validation leaves it, whose start and end are different moments.\<close>

definition proper_window :: "OffHourWindow \<Rightarrow> bool" where
  "proper_window w \<longleftrightarrow> timePattern (Start w) \<and> timePattern (End w) \<and> parseTime (Start w) \<noteq> parseTime (End w) \<and>
     set (DaysOfWeek w) \<subseteq> set validDays"

lemma expandTimeRange_covers:
  assumes "timePattern s" "timePattern e" "parseTime s \<noteq> parseTime e" "0 \<le> c" "c < 1440"
  shows "(\<exists>(x, y) \<in> set (expandTimeRange s e). x \<le> c \<and> c < y) \<longleftrightarrow>
    inMinutes (hhmmToMinutes s) (hhmmToMinutes e) c"
proof -
  obtain h m where s: "parseTime s = Inr (int h, int m)" "hhmmToMinutes s = int h * 60 + int m" "h < 24" "m < 60"
    by (rule timePattern_readings [OF assms(1)])
  obtain h' m' where e: "parseTime e = Inr (int h', int m')" "hhmmToMinutes e = int h' * 60 + int m'" "h' < 24" "m' < 60"
    by (rule timePattern_readings [OF assms(2)])
  have "h = h' \<and> m = m'" if eq: "int h * 60 + int m = int h' * 60 + int m'"
  proof -
    have "m + 60 * h = m' + 60 * h'" using eq by linarith
    then have "(m + 60 * h) mod 60 = (m' + 60 * h') mod 60" "(m + 60 * h) div 60 = (m' + 60 * h') div 60"
      by simp_all
    then show ?thesis using s(4) e(4) by simp
  qed
  then have "hhmmToMinutes s \<noteq> hhmmToMinutes e" using s(1,2) e(1,2) assms(3) by auto
  moreover have "hhmmToMinutes s < 1440" using s by simp
  ultimately show ?thesis using assms(4,5)
    by (auto simp: expandTimeRange_def inMinutes_def Let_def)
qed

lemma expandTimeRange_bounds:
  assumes "timePattern s" "timePattern e" "(x, y) \<in> set (expandTimeRange s e)"
  shows "0 \<le> x \<and> y \<le> 1440 \<and> (x < y \<or> x = 0 \<and> y = 0)"
proof -
  obtain h m where s: "hhmmToMinutes s = int h * 60 + int m" "h < 24" "m < 60"
    by (rule timePattern_readings [OF assms(1)])
  obtain h' m' where e: "hhmmToMinutes e = int h' * 60 + int m'" "h' < 24" "m' < 60"
    by (rule timePattern_readings [OF assms(2)])
  show ?thesis using assms(3) s e by (auto simp: expandTimeRange_def Let_def split: if_splits)
qed

lemma timeRangesOverlap_iff:
  assumes "timePattern s" "timePattern e" "parseTime s \<noteq> parseTime e"
    "timePattern s'" "timePattern e'" "parseTime s' \<noteq> parseTime e'"
  shows "timeRangesOverlap s e s' e' \<longleftrightarrow> (\<exists>c. 0 \<le> c \<and> c < 1440 \<and>
    inMinutes (hhmmToMinutes s) (hhmmToMinutes e) c \<and> inMinutes (hhmmToMinutes s') (hhmmToMinutes e') c)"
proof
  assume "timeRangesOverlap s e s' e'"
  then obtain x y x' y' where p: "(x, y) \<in> set (expandTimeRange s e)" "(x', y') \<in> set (expandTimeRange s' e')"
      "x < y'" "x' < y" by (auto simp: timeRangesOverlap_def list_ex_iff)

  note b = expandTimeRange_bounds [OF assms(1,2) p(1)] expandTimeRange_bounds [OF assms(4,5) p(2)]
  let ?c = "max x x'"
  have c: "x \<le> ?c" "x' \<le> ?c" "?c < y" "?c < y'" "0 \<le> ?c" "?c < 1440"
    using p(3,4) b by auto
  show "\<exists>c. 0 \<le> c \<and> c < 1440 \<and> inMinutes (hhmmToMinutes s) (hhmmToMinutes e) c \<and>
      inMinutes (hhmmToMinutes s') (hhmmToMinutes e') c"
    using c p(1,2) expandTimeRange_covers [OF assms(1-3) c(5,6)] expandTimeRange_covers [OF assms(4-6) c(5,6)]
    by (intro exI [of _ ?c]) blast
next
  assume "\<exists>c. 0 \<le> c \<and> c < 1440 \<and> inMinutes (hhmmToMinutes s) (hhmmToMinutes e) c \<and>
      inMinutes (hhmmToMinutes s') (hhmmToMinutes e') c"
  then obtain c where c: "0 \<le> c" "c < 1440" "inMinutes (hhmmToMinutes s) (hhmmToMinutes e) c"
      "inMinutes (hhmmToMinutes s') (hhmmToMinutes e') c" by blast
  obtain x y where xy: "(x, y) \<in> set (expandTimeRange s e)" "x \<le> c" "c < y"
    using expandTimeRange_covers [OF assms(1-3) c(1,2)] c(3) by auto
  obtain x' y' where xy': "(x', y') \<in> set (expandTimeRange s' e')" "x' \<le> c" "c < y'"
    using expandTimeRange_covers [OF assms(4-6) c(1,2)] c(4) by auto
  have "x < y'" "x' < y" using xy xy' by linarith+
  then show "timeRangesOverlap s e s' e'"
    using xy(1) xy'(1) by (force simp: timeRangesOverlap_def list_ex_iff)
qed

lemma validDays_dayMap: "set validDays = set (map fst dayMap)"
  by (auto simp: validDays_def dayMap_def)

lemma inWindow_proper:
  assumes "proper_window w"
  shows "inWindow t w \<longleftrightarrow> currentDay t \<in> set (DaysOfWeek w) \<and>
    inMinutes (hhmmToMinutes (Start w)) (hhmmToMinutes (End w)) (minute_of_day t)"
proof -
  obtain h m where s: "parseTime (Start w) = Inr (int h, int m)" "hhmmToMinutes (Start w) = int h * 60 + int m"
    using assms timePattern_readings [of "Start w"] unfolding proper_window_def by metis
  obtain h' m' where e: "parseTime (End w) = Inr (int h', int m')" "hhmmToMinutes (End w) = int h' * 60 + int m'"
    using assms timePattern_readings [of "End w"] unfolding proper_window_def by metis
  have up: "ToUpper d = d" if "d \<in> set validDays" for d
    using that by (auto simp: validDays_def ToUpper_def to_upper_def)
  have days: "set (DaysOfWeek w) \<subseteq> set validDays" using assms by (simp add: proper_window_def)
  have "nat (Weekday t) < length (map fst dayMap)"
    using Weekday_range [of t] by (simp add: nat_less_iff dayMap_def)
  then have "map fst dayMap ! nat (Weekday t) \<in> set (map fst dayMap)" by (rule nth_mem)
  then have cur: "currentDay t \<in> set validDays"
    using \<open>nat (Weekday t) < length (map fst dayMap)\<close> by (auto simp: currentDay_def validDays_dayMap)
  have "dayMatch w (currentDay t) \<longleftrightarrow> currentDay t \<in> set (DaysOfWeek w)"
    using days up [OF cur] up by (auto simp: dayMatch_def EqualFold_def list_ex_iff subset_iff)
  then show ?thesis using s e by (simp add: inWindow_def)
qed

text \<open>Some moment of every weekday and minute, in UTC.\<close>

definition moment :: "int \<Rightarrow> int \<Rightarrow> Time" where
  "moment day c = \<lparr>t_ns = (day * 86400 + c * 60) * Second, t_loc = UTC\<rparr>"

lemma moment_reads:
  assumes "0 \<le> c" "c < 1440"
  shows "minute_of_day (moment day c) = c" "Weekday (moment day c) = (day + 4) mod 7"
proof -
  have l: "local_sec (moment day c) = day * 86400 + c * 60"
    by (simp add: local_sec_def unix_sec_def moment_def UTC_def)
  have d: "day_no (moment day c) = day" using assms by (simp add: day_no_def l)
  show "minute_of_day (moment day c) = c"
    using assms by (simp add: minute_of_day_eq l mod_pos_pos_trivial)
  show "Weekday (moment day c) = (day + 4) mod 7" by (simp add: Weekday_def d)
qed

lemma validDays_moment: "d \<in> set validDays \<Longrightarrow> \<exists>day. \<forall>c. 0 \<le> c \<and> c < 1440 \<longrightarrow> currentDay (moment day c) = d"
proof -
  assume "d \<in> set validDays"
  then obtain n where m: "n < length (map fst dayMap)" "map fst dayMap ! n = d"
    unfolding validDays_dayMap by (meson in_set_conv_nth)
  have n: "n < 7" "fst (dayMap ! n) = d" using m(1) by (simp add: dayMap_def) (use m in simp)
  have "currentDay (moment (int n + 3) c) = d" if "0 \<le> c \<and> c < 1440" for c
  proof -
    have "Weekday (moment (int n + 3) c) = int n"
      using moment_reads(2) [of c "int n + 3"] that n(1) by (simp add: mod_pos_pos_trivial)
    then show ?thesis using n(2) by (simp add: currentDay_def)
  qed
  then show ?thesis by blast
qed

lemma windowsCollide_moment:
  assumes "\<forall>w \<in> set a. proper_window w" "\<forall>w \<in> set b. proper_window w"
  shows "windowsCollide a b \<longleftrightarrow> (\<exists>t. isInTimeWindows a t \<and> isInTimeWindows b t)"
proof
  assume "windowsCollide a b"
  then obtain wa wb d where w: "wa \<in> set a" "wb \<in> set b" "d \<in> set (DaysOfWeek wa)" "d \<in> set (DaysOfWeek wb)"
      "timeRangesOverlap (Start wa) (End wa) (Start wb) (End wb)"
    by (auto simp: windowsCollide_def windowPairCollides_def list_ex_iff split: if_splits)
  have p: "proper_window wa" "proper_window wb" using assms w(1,2) by auto
  then obtain c where c: "0 \<le> c" "c < 1440" "inMinutes (hhmmToMinutes (Start wa)) (hhmmToMinutes (End wa)) c"
      "inMinutes (hhmmToMinutes (Start wb)) (hhmmToMinutes (End wb)) c"
    using w(5) timeRangesOverlap_iff unfolding proper_window_def by blast
  have "d \<in> set validDays" using p(1) w(3) by (auto simp: proper_window_def)
  then obtain day where "currentDay (moment day c) = d" using validDays_moment c(1,2) by blast
  then have "inWindow (moment day c) wa" "inWindow (moment day c) wb"
    using inWindow_proper [OF p(1)] inWindow_proper [OF p(2)] w(3,4) c moment_reads(1) [OF c(1,2)] by auto
  then show "\<exists>t. isInTimeWindows a t \<and> isInTimeWindows b t"
    using w(1,2) by (auto simp: isInTimeWindows_def list_ex_iff)
next
  assume "\<exists>t. isInTimeWindows a t \<and> isInTimeWindows b t"
  then obtain t wa wb where w: "wa \<in> set a" "wb \<in> set b" "inWindow t wa" "inWindow t wb"
    by (auto simp: isInTimeWindows_def list_ex_iff)
  have p: "proper_window wa" "proper_window wb" using assms w(1,2) by auto
  note i = w(3) [unfolded inWindow_proper [OF p(1)]] w(4) [unfolded inWindow_proper [OF p(2)]]
  have "timeRangesOverlap (Start wa) (End wa) (Start wb) (End wb)"
    using timeRangesOverlap_iff p i minute_of_day_range [of t] unfolding proper_window_def by blast
  then show "windowsCollide a b"
    using w(1,2) i by (auto simp: windowsCollide_def windowPairCollides_def list_ex_iff)
qed

section \<open>What admission of an exception guarantees\<close>

lemma excWindowErrors_ok:
  "excWindowErrors p w = [] \<longleftrightarrow>
     timePattern (Start w) \<and> timePattern (End w) \<and> DaysOfWeek w \<noteq> [] \<and> set (DaysOfWeek w) \<subseteq> set validDays"
  using concat_enumerate_Nil [where P = "\<lambda>d. d \<in> set validDays" and n = 0 and xs = "DaysOfWeek w" and
      f = "\<lambda>j day. if day \<notin> set validDays
        then [fieldError FieldInvalid (index (child p ''daysOfWeek'') j) ''must be one of: MON, TUE, WED, THU, FRI, SAT, SUN'']
        else []"]
  by (auto simp: excWindowErrors_def)

lemma validateWindows_ok:
  "validateWindows exc = [] \<longleftrightarrow> xs_Windows (exc_Spec exc) \<noteq> [] \<and>
     (\<forall>w \<in> set (xs_Windows (exc_Spec exc)). timePattern (Start w) \<and> timePattern (End w) \<and> DaysOfWeek w \<noteq> [] \<and>
        set (DaysOfWeek w) \<subseteq> set validDays)"
  using concat_enumerate_Nil [where n = 0 and xs = "xs_Windows (exc_Spec exc)" and
      f = "\<lambda>i. excWindowErrors (index ''spec.windows'' i)", OF excWindowErrors_ok]
  by (auto simp: validateWindows_def Let_def)

text \<open>An exception that is not being deleted.\<close>

definition live :: "ScheduleException \<Rightarrow> bool" where
  "live exc \<longleftrightarrow> (case exc_DeletionTimestamp exc of None \<Rightarrow> True | Some t \<Rightarrow> IsZero t)"

lemma sev_validate_parts:
  assumes "live exc" "admitted (sev_validate C L exc)"
  shows "fst (validatePlanRef C exc) = []" "validateTimeRange exc = []" "validateTypeSpecificFields exc = []"
    "validateWindows exc = []" "validateNoOverlappingExceptions C exc = []" "validateExecutionOverrides C L exc = []"
  using assms by (auto simp: sev_validate_def live_def admitted_def split_def Let_def)

lemma overlapScan_ok:
  "overlapScan exc items = [] \<longleftrightarrow>
     (\<forall>x \<in> set items. competes exc x \<longrightarrow> windowsCollide (xs_Windows (exc_Spec exc)) (xs_Windows (exc_Spec x)) \<longrightarrow>
        xs_Type (exc_Spec exc) \<noteq> xs_Type (exc_Spec x) \<and> isAllowedTypePair (xs_Type (exc_Spec exc)) (xs_Type (exc_Spec x)))"
  by (induction items) auto

lemma overrideScan_ok: "overrideScan exc items = [] \<longleftrightarrow> (\<forall>x \<in> set items. competes exc x \<longrightarrow> \<not> hasOverrides x)"
  by (induction items) auto

text \<open>The start and the end of every window are different moments.\<close>

definition distinct_ends :: "ScheduleException \<Rightarrow> bool" where
  "distinct_ends exc \<longleftrightarrow> (\<forall>w \<in> set (xs_Windows (exc_Spec exc)). parseTime (Start w) \<noteq> parseTime (End w))"

lemma proper_windows: "validateWindows exc = [] \<Longrightarrow> distinct_ends exc \<Longrightarrow>
    \<forall>w \<in> set (xs_Windows (exc_Spec exc)). proper_window w"
  by (auto simp: validateWindows_ok distinct_ends_def proper_window_def)

text \<open>
  C29.  An admitted exception shares no moment with a competing exception of the same type, by the
  evaluator's window test \<open>isInTimeWindows\<close>: among the live exceptions of its plan that the API
  lists, take any other that is neither expired nor detached, whose validity period overlaps and
  whose type is the same.  If the windows of both pass the window validation and none of them
  starts and ends at the same moment, there is no time at which the test finds both in a window.
  (The test is what suspensions are evaluated with; extend and replace windows are evaluated by
  cron boundaries, which agree with it on windows that do not cross midnight.  A window that starts
  and ends at the same moment is empty to the check and a whole day to the test, see below.)
\<close>

theorem admitted_same_type_disjoint:
  assumes "live exc" "admitted (sev_validate C L exc)" "distinct_ends exc"
  shows "\<exists>items. ListExceptions C (planNamespace exc) (pr_Name (PlanRef (exc_Spec exc))) = Inr items \<and>
    (\<forall>x \<in> set items. competes exc x \<longrightarrow> xs_Type (exc_Spec x) = xs_Type (exc_Spec exc) \<longrightarrow>
       validateWindows x = [] \<longrightarrow> distinct_ends x \<longrightarrow>
       \<not> (isInTimeWindows (xs_Windows (exc_Spec exc)) t \<and> isInTimeWindows (xs_Windows (exc_Spec x)) t))"
proof -
  note p = sev_validate_parts [OF assms(1,2)]
  obtain items where l: "ListExceptions C (planNamespace exc) (pr_Name (PlanRef (exc_Spec exc))) = Inr items"
      "overlapScan exc items = []"
    using p(5) by (auto simp: validateNoOverlappingExceptions_def split: sum.splits)
  have "\<not> (isInTimeWindows (xs_Windows (exc_Spec exc)) t \<and> isInTimeWindows (xs_Windows (exc_Spec x)) t)"
    if x: "x \<in> set items" "competes exc x" "xs_Type (exc_Spec x) = xs_Type (exc_Spec exc)"
      "validateWindows x = []" "distinct_ends x" for x
  proof -
    have "\<not> windowsCollide (xs_Windows (exc_Spec exc)) (xs_Windows (exc_Spec x))"
      using l(2) x(1-3) by (auto simp: overlapScan_ok)
    then show ?thesis
      using windowsCollide_moment [OF proper_windows [OF p(4) assms(3)] proper_windows [OF x(4,5)]] by blast
  qed
  with l(1) show ?thesis by blast
qed

text \<open>
  Among the exceptions of a plan, an admitted one that carries overrides competes with no
  other that carries overrides, so that at most one override can be in force.
\<close>

lemma admitted_override_unique:
  assumes "live exc" "admitted (sev_validate C L exc)" "hasOverrides exc"
  shows "\<exists>items. ListExceptions C (planNamespace exc) (pr_Name (PlanRef (exc_Spec exc))) = Inr items \<and>
    (\<forall>x \<in> set items. competes exc x \<longrightarrow> \<not> hasOverrides x)"
proof -
  note p = sev_validate_parts [OF assms(1,2)]
  obtain items where l: "ListExceptions C (planNamespace exc) (pr_Name (PlanRef (exc_Spec exc))) = Inr items"
    using p(5) by (auto simp: validateNoOverlappingExceptions_def split: sum.splits)
  have "xs_Type (exc_Spec exc) \<noteq> ExceptionSuspend"
    using p(6) assms(3) by (auto simp: validateExecutionOverrides_def hasOverrides_def)
  then have "overrideScan exc items = []"
    using p(6) assms(3) l by (auto simp: validateExecutionOverrides_def singleOverrideErrors_def)
  with l show ?thesis by (auto simp: overrideScan_ok)
qed

section \<open>Changes during a cycle\<close>

lemma ptrEqual_eq [simp]: "ptrEqual a b \<longleftrightarrow> a = b"
  by (cases a; cases b) (auto simp: ptrEqual_def)

lemma parametersEqual_eq [simp]: "parametersEqual a b \<longleftrightarrow> a = b"
  by (cases a; cases b) (auto simp: parametersEqual_def)

lemma stageEqual_eq: "stageEqual s t \<longleftrightarrow> s = t"
  by (cases s; cases t) (auto simp: stageEqual_def)

lemma dependencyEqual_eq: "From d = From e \<and> To d = To e \<longleftrightarrow> d = e" for d e :: Dependency
  by (cases d; cases e) auto

lemma list_all2_eq_iff: "(\<And>x y. R x y \<longleftrightarrow> x = y) \<Longrightarrow> list_all2 R xs ys \<longleftrightarrow> xs = ys"
  by (induction xs arbitrary: ys) (auto simp: list_all2_Cons1)

lemma executionStrategyEqual_eq [simp]: "executionStrategyEqual a b \<longleftrightarrow> a = b"
proof (cases a; cases b)
  fix x y assume "a = Some x" "b = Some y"
  moreover have "list_all2 (\<lambda>d1 d2. From d1 = From d2 \<and> To d1 = To d2) ds es \<longleftrightarrow> ds = es" for ds es :: "Dependency list"
    by (rule list_all2_eq_iff) (rule dependencyEqual_eq)
  moreover have "list_all2 stageEqual ss ts \<longleftrightarrow> ss = ts" for ss ts
    by (rule list_all2_eq_iff) (rule stageEqual_eq)
  ultimately show ?thesis by (cases x; cases y) (auto simp: executionStrategyEqual_def)
qed (auto simp: executionStrategyEqual_def)

lemma behaviorEqual_eq [simp]: "behaviorEqual a b \<longleftrightarrow> a = b"
proof (cases a; cases b)
  fix x y assume "a = Some x" "b = Some y"
  then show ?thesis by (cases x; cases y) (auto simp: behaviorEqual_def)
qed (auto simp: behaviorEqual_def)

lemma targetOverrideDiffers_iff: "targetOverrideDiffers a b \<longleftrightarrow> a \<noteq> b"
  by (cases a; cases b) (auto simp: targetOverrideDiffers_def)

lemma list_ex_zip_neq:
  "length xs = length ys \<Longrightarrow> list_ex (\<lambda>(p, q). targetOverrideDiffers p q) (zip xs ys) \<longleftrightarrow> xs \<noteq> ys"
  by (induction xs ys rule: list_induct2) (auto simp: targetOverrideDiffers_iff)

text \<open>The comparison of the override fields is exact.\<close>

lemma overrideFieldsChanged_iff:
  "overrideFieldsChanged old new \<longleftrightarrow>
     TargetOverrides (exc_Spec old) \<noteq> TargetOverrides (exc_Spec new) \<or>
     xs_ExecutionOverride (exc_Spec old) \<noteq> xs_ExecutionOverride (exc_Spec new)"
proof -
  have "x = y" if "eo_Strategy x = eo_Strategy y" "eo_Behavior x = eo_Behavior y" for x y :: ExecutionOverride
    using that by (cases x; cases y) auto
  then show ?thesis
    by (cases "xs_ExecutionOverride (exc_Spec old)"; cases "xs_ExecutionOverride (exc_Spec new)")
      (auto simp: overrideFieldsChanged_def Let_def list_ex_zip_neq)
qed

text \<open>
  While a plan is hibernating or waking up under the override of an exception, that
  exception can neither be deleted nor have its override fields changed in any way; other fields
  can still be changed, and any other exception of the plan can be deleted.
\<close>

lemma override_locked_mid_cycle:
  assumes "GetPlan C (exc_Namespace new) (pr_Name (PlanRef (exc_Spec new))) = Inr plan"
    and "Phase (Status plan) \<in> {PhaseHibernating, PhaseWakingUp}"
  shows "(AppliedExceptionOverride (Status plan) = exc_Name new \<longrightarrow>
      sev_ValidateDelete C new \<noteq> None \<and>
      (TargetOverrides (exc_Spec old) \<noteq> TargetOverrides (exc_Spec new) \<or>
       xs_ExecutionOverride (exc_Spec old) \<noteq> xs_ExecutionOverride (exc_Spec new) \<longrightarrow> isl (sev_ValidateUpdate C L old new))) \<and>
    (AppliedExceptionOverride (Status plan) \<noteq> exc_Name new \<longrightarrow>
      sev_ValidateDelete C new = None \<and> sev_ValidateUpdate C L old new = Inr (sev_validate C L new))"
  using assms
  by (auto simp: sev_ValidateDelete_def sev_ValidateUpdate_def checkMidCycleBlock_def Let_def overrideFieldsChanged_iff)

section \<open>Examples\<close>

definition sampleExc :: "string \<Rightarrow> ExceptionType \<Rightarrow> OffHourWindow \<Rightarrow> TargetOverride list \<Rightarrow> ExecutionOverride option \<Rightarrow>
    ScheduleException" where
  "sampleExc n ty w tos eo =
     \<lparr>exc_Name = n, exc_Namespace = ''ns'', CreationTimestamp = zeroTime, exc_DeletionTimestamp = None,
      exc_Finalizers = [], exc_Labels = (\<lambda>_. None),
      exc_Spec = \<lparr>PlanRef = \<lparr>pr_Name = ''p'', pr_Namespace = ''''\<rparr>, xs_ValidFrom = moment 0 0, xs_ValidUntil = moment 7 0,
        xs_Type = ty, xs_LeadTime = '''', xs_Windows = [w], TargetOverrides = tos, xs_ExecutionOverride = eo\<rparr>,
      exc_Status = \<lparr>xt_State = ExceptionStateActive, AppliedAt = None, ExpiredAt = None, DetachedAt = None, xt_Message = ''''\<rparr>\<rparr>"

definition clientOf :: "HibernatePlan \<Rightarrow> ScheduleException list \<Rightarrow> ExcClient" where
  "clientOf plan excs = \<lparr>GetPlan = \<lambda>_ _. Inr plan, ListExceptions = \<lambda>_ _. Inr excs\<rparr>"

abbreviation evening :: OffHourWindow where
  "evening \<equiv> \<lparr>Start = ''18:00'', End = ''20:00'', DaysOfWeek = [''MON'']\<rparr>"

abbreviation weekdayPlan :: HibernatePlan where
  "weekdayPlan \<equiv> dagPlan overnight [dep ''app'' ''db'']"

text \<open>
  The condition on the ends is needed: two competing suspensions are admitted, one of them from
  00:00 to 00:00, and both are in force on Monday at eleven.
\<close>

lemma equal_ends_overlap_admitted:
  "let whole = sampleExc ''e'' ExceptionSuspend \<lparr>Start = ''00:00'', End = ''00:00'', DaysOfWeek = [''MON'']\<rparr> [] None;
       part = sampleExc ''x'' ExceptionSuspend \<lparr>Start = ''10:00'', End = ''12:00'', DaysOfWeek = [''MON'']\<rparr> [] None
   in admitted (sev_validate (clientOf weekdayPlan [part]) noLibs whole) \<and> competes whole part \<and>
     isInTimeWindows (xs_Windows (exc_Spec whole)) (moment 4 660) \<and> isInTimeWindows (xs_Windows (exc_Spec part)) (moment 4 660)"
  unfolding Let_def by (intro conjI) code_simp+

theorem admitted_same_type_disjoint_witness:
  "\<not> (isInTimeWindows [evening] (moment 4 1100) \<and> isInTimeWindows [overnight] (moment 4 1100))"
proof -
  let ?e = "sampleExc ''e'' ExceptionSuspend evening [] None" and ?x = "sampleExc ''x'' ExceptionSuspend overnight [] None"
  let ?C = "clientOf weekdayPlan [?x]"
  have "admitted (sev_validate ?C noLibs ?e)" by code_simp
  moreover have "live ?e" "distinct_ends ?e" "distinct_ends ?x" by code_simp+
  moreover have "validateWindows ?x = []" "competes ?e ?x" by code_simp+
  moreover have "ListExceptions ?C (planNamespace ?e) (pr_Name (PlanRef (exc_Spec ?e))) = Inr [?x]"
    by (simp add: clientOf_def)
  ultimately show ?thesis
    using admitted_same_type_disjoint [of ?e ?C noLibs "moment 4 1100"]
    by (auto simp: sampleExc_def)
qed

lemma admitted_override_unique_witness:
  "\<not> hasOverrides (sampleExc ''x'' ExceptionSuspend overnight [] None)"
proof -
  let ?e = "sampleExc ''e'' ExceptionExtend evening [\<lparr>TargetName = ''app'', to_Parameters = None, Disabled = False\<rparr>] None"
  let ?x = "sampleExc ''x'' ExceptionSuspend overnight [] None"
  let ?C = "clientOf weekdayPlan [?x]"
  have "admitted (sev_validate ?C noLibs ?e)" by code_simp
  moreover have "live ?e" "hasOverrides ?e" "competes ?e ?x" by code_simp+
  moreover have "ListExceptions ?C (planNamespace ?e) (pr_Name (PlanRef (exc_Spec ?e))) = Inr [?x]"
    by (simp add: clientOf_def)
  ultimately show ?thesis using admitted_override_unique [of ?e ?C noLibs] by auto
qed

definition hibernatingPlan :: HibernatePlan where
  "hibernatingPlan = weekdayPlan\<lparr>Status := emptyStatus\<lparr>Phase := PhaseHibernating, AppliedExceptionOverride := ''e''\<rparr>\<rparr>"

lemma override_locked_mid_cycle_witness:
  "sev_ValidateDelete (clientOf hibernatingPlan []) (sampleExc ''e'' ExceptionExtend evening [] None) \<noteq> None"
proof -
  let ?e = "sampleExc ''e'' ExceptionExtend evening [] None" and ?C = "clientOf hibernatingPlan []"
  have "GetPlan ?C (exc_Namespace ?e) (pr_Name (PlanRef (exc_Spec ?e))) = Inr hibernatingPlan"
    by (simp add: clientOf_def)
  moreover have "Phase (Status hibernatingPlan) \<in> {PhaseHibernating, PhaseWakingUp}"
      "AppliedExceptionOverride (Status hibernatingPlan) = exc_Name ?e"
    by (simp_all add: hibernatingPlan_def sampleExc_def)
  ultimately show ?thesis using override_locked_mid_cycle [of ?C ?e hibernatingPlan ?e noLibs] by blast
qed

text \<open>The plan an exception's overrides produce.\<close>

definition overridden :: "HibernatePlan \<Rightarrow> ScheduleException \<Rightarrow> HibernatePlan" where
  "overridden plan exc = plan\<lparr>Spec := applyOverrides (exc_Spec exc) (Spec plan)\<rparr>"

definition disableDb :: ScheduleException where
  "disableDb = sampleExc ''e'' ExceptionExtend evening [\<lparr>TargetName = ''db'', to_Parameters = None, Disabled = True\<rparr>] None"

definition unknownDeps :: ScheduleException where
  "unknownDeps = sampleExc ''e'' ExceptionExtend evening [] (Some \<lparr>eo_Strategy = Some
     \<lparr>es_Type = StrategyDAG, es_MaxConcurrency = None, Dependencies = [dep ''app'' ''cache''], es_Stages = []\<rparr>, eo_Behavior = None\<rparr>)"

definition sameEnds :: ScheduleException where
  "sameEnds = sampleExc ''e'' ExceptionExtend \<lparr>Start = ''00:00'', End = ''00:00'', DaysOfWeek = [''MON'']\<rparr> [] None"

text \<open>
  Admission does not make overrides safe: three exceptions that the webhook admits for an
  admitted plan still break it.  Disabling the destination of a dependency passes, because the check
  looks at the sources only, and then the planner meets a dependency on a missing target; the
  dependencies of an overriding strategy are not checked at all; and a window whose start and end
  are equal passes, although it cannot be converted into a schedule.
\<close>

lemma admitted_override_can_break_plan:
  "admitted (hpv_validate noLibs weekdayPlan) \<and>
   (admitted (sev_validate (clientOf weekdayPlan []) noLibs disableDb) \<and>
    buildExecutionPlan (overridden weekdayPlan disableDb) False =
      Inl (Wrap ''build DAG execution plan: '' (ErrTargetNotFound ''db''))) \<and>
   (admitted (sev_validate (clientOf weekdayPlan []) noLibs unknownDeps) \<and>
    buildExecutionPlan (overridden weekdayPlan unknownDeps) False =
      Inl (Wrap ''build DAG execution plan: '' (ErrTargetNotFound ''cache''))) \<and>
   (admitted (sev_validate (clientOf weekdayPlan []) noLibs sameEnds) \<and>
    isl (ParseWindowToCron ''00:00'' ''00:00'' [''MON'']))"
proof (intro conjI)
  show "admitted (hpv_validate noLibs weekdayPlan)" by (rule dagPlan_admitted)
  show "admitted (sev_validate (clientOf weekdayPlan []) noLibs disableDb)" by code_simp
  show "admitted (sev_validate (clientOf weekdayPlan []) noLibs unknownDeps)" by code_simp
  show "admitted (sev_validate (clientOf weekdayPlan []) noLibs sameEnds)" by code_simp
  show "isl (ParseWindowToCron ''00:00'' ''00:00'' [''MON''])" by code_simp
  show "buildExecutionPlan (overridden weekdayPlan disableDb) False =
      Inl (Wrap ''build DAG execution plan: '' (ErrTargetNotFound ''db''))" by code_simp
  show "buildExecutionPlan (overridden weekdayPlan unknownDeps) False =
      Inl (Wrap ''build DAG execution plan: '' (ErrTargetNotFound ''cache''))" by code_simp
qed

end
