(* ===== verification/ExcLifecycle.thy ===== *)
theory ExcLifecycle
  imports ExcWebhook Schedule
begin

text \<open>
  The lifecycle processor of ScheduleException objects
  (\<^verbatim>\<open>internal/provider/processor/scheduleexception/lifecycle.go\<close>): the state of an exception
  against the clock, its finalizer and plan label, the references kept in the plan's status, and
  deletion and detachment.  A handler returns its effects in order: patches of the object that
  the API accepted, status updates queued for the status writer (their mutators as data), and
  reported errors.
\<close>

definition ExceptionFinalizerName :: string where
  "ExceptionFinalizerName = domain_prefix @ ''exception-finalizer''"

datatype excMutator = MutState ExceptionState Time | MutMessage string | MutDetached Time string

datatype planMutator = MutRefs "ExceptionReference list" | MutDropRef string

datatype excEffect =
    PatchExc ScheduleException
  | ExcStatusUpdate string string excMutator
  | PlanStatusUpdate string string planMutator
  | ReportError go_error

record OwnerRef =
  or_Kind :: string
  or_Name :: string
  or_APIVersion :: string

record ExcEnv =
  Clock :: Time
  PatchResult :: "ScheduleException \<Rightarrow> go_error + ScheduleExceptionStatus"
  FetchExc :: "string \<Rightarrow> string \<Rightarrow> ScheduleException res"
  FetchPlan :: "string \<Rightarrow> string \<Rightarrow> HibernatePlan res"
  ListByPlan :: "string \<Rightarrow> string \<Rightarrow> (ScheduleException list) res"
  OwnerReferences :: "ScheduleException \<Rightarrow> OwnerRef list"

section \<open>Mutators\<close>

definition applyState :: "ExceptionState \<Rightarrow> Time \<Rightarrow> ScheduleExceptionStatus \<Rightarrow> ScheduleExceptionStatus" where
  "applyState desired t st =
     (let st1 = st\<lparr>xt_State := desired\<rparr> in
      case desired of
        ExceptionStatePending \<Rightarrow>
          st1\<lparr>AppliedAt := None, ExpiredAt := None, DetachedAt := None, xt_Message := ''Exception pending''\<rparr>
      | ExceptionStateActive \<Rightarrow>
          st1\<lparr>AppliedAt := Some t, ExpiredAt := None, DetachedAt := None, xt_Message := ''Exception activated''\<rparr>
      | ExceptionStateExpired \<Rightarrow>
          st1\<lparr>AppliedAt := None, ExpiredAt := Some t, DetachedAt := None, xt_Message := ''Exception expired''\<rparr>
      | _ \<Rightarrow> st1)"

fun applyExcMutator :: "excMutator \<Rightarrow> ScheduleExceptionStatus \<Rightarrow> ScheduleExceptionStatus" where
  "applyExcMutator (MutState desired t) st = applyState desired t st"
| "applyExcMutator (MutMessage m) st = st\<lparr>xt_Message := m\<rparr>"
| "applyExcMutator (MutDetached t m) st =
     st\<lparr>xt_State := ExceptionStateDetached, DetachedAt := Some t, xt_Message := m\<rparr>"

fun applyPlanMutator :: "planMutator \<Rightarrow> HibernatePlanStatus \<Rightarrow> HibernatePlanStatus" where
  "applyPlanMutator (MutRefs refs) st = st\<lparr>ExceptionReferences := refs\<rparr>"
| "applyPlanMutator (MutDropRef n) st =
     st\<lparr>ExceptionReferences := filter (\<lambda>r. er_Name r \<noteq> n) (ExceptionReferences st)\<rparr>"

section \<open>State and messages\<close>

definition computeDesiredState :: "Time \<Rightarrow> ScheduleException \<Rightarrow> ExceptionState" where
  "computeDesiredState t exc =
     (let f = xs_ValidFrom (exc_Spec exc); u = xs_ValidUntil (exc_Spec exc) in
      if Before t f then ExceptionStatePending
      else if \<not> IsZero u \<and> After t u then ExceptionStateExpired
      else ExceptionStateActive)"

text \<open>
  Whole days, then whole hours, that remain; the caller's duration is not negative.  The source
  divides \<open>remaining.Hours()\<close>, a float64, by 24 and truncates; the two differ at most where that
  quotient is rounded up to a whole number.  Only the text of the message depends on it.
\<close>

definition formatRemaining :: "string \<Rightarrow> string \<Rightarrow> duration \<Rightarrow> string" where
  "formatRemaining what verb remaining =
     (let days = remaining div (24 * Hour); hours = remaining div Hour in
      if days > 0 then what @ '', '' @ verb @ '' in '' @ show_int days @ '' days''
      else if hours > 0 then what @ '', '' @ verb @ '' in '' @ show_int hours @ '' hours''
      else what @ '', '' @ verb @ '' soon'')"

definition formatPendingMessage :: "Time \<Rightarrow> ScheduleException \<Rightarrow> string" where
  "formatPendingMessage t exc =
     (let f = xs_ValidFrom (exc_Spec exc) in
      if IsZero f then ''Exception pending''
      else formatRemaining ''Exception pending'' ''activates'' (SubTime f t))"

definition formatActiveMessage :: "Time \<Rightarrow> ScheduleException \<Rightarrow> string" where
  "formatActiveMessage t exc =
     (let u = xs_ValidUntil (exc_Spec exc) in
      if IsZero u then ''Exception active''
      else formatRemaining ''Exception active'' ''expires'' (SubTime u t))"

definition detachedMessage :: "string \<Rightarrow> string" where
  "detachedMessage planName = ''Referenced plan '' @ quote planName @ '' no longer exists; exception is detached''"

fun excState_string :: "ExceptionState \<Rightarrow> string" where
  "excState_string ExceptionStateUnset = ''''"
| "excState_string ExceptionStatePending = ''Pending''"
| "excState_string ExceptionStateActive = ''Active''"
| "excState_string ExceptionStateExpired = ''Expired''"
| "excState_string ExceptionStateDetached = ''Detached''"
| "excState_string (ExceptionStateOther s) = s"

definition newMessage :: "Time \<Rightarrow> ScheduleException \<Rightarrow> string" where
  "newMessage t exc =
     (case xt_State (exc_Status exc) of
        ExceptionStatePending \<Rightarrow> formatPendingMessage t exc
      | ExceptionStateActive \<Rightarrow> formatActiveMessage t exc
      | ExceptionStateExpired \<Rightarrow> ''Exception expired''
      | ExceptionStateDetached \<Rightarrow> detachedMessage (pr_Name (PlanRef (exc_Spec exc)))
      | s \<Rightarrow> ''Exception state: '' @ excState_string s)"

definition updateMessage :: "Time \<Rightarrow> ScheduleException \<Rightarrow> excEffect list" where
  "updateMessage t exc =
     (if xt_Message (exc_Status exc) = newMessage t exc then []
      else [ExcStatusUpdate (exc_Namespace exc) (exc_Name exc) (MutMessage (newMessage t exc))])"

definition transitionState :: "ExceptionState \<Rightarrow> Time \<Rightarrow> ScheduleException \<Rightarrow> excEffect list" where
  "transitionState desired t exc = [ExcStatusUpdate (exc_Namespace exc) (exc_Name exc) (MutState desired t)]"

section \<open>Finalizer and label\<close>

text \<open>
  A patch: the object if the API accepts it.  \<open>client.Patch\<close> then overwrites the object in memory
  with the response, so that the handler goes on with the status the server has; metadata and
  spec of the response are the object as sent.
\<close>

definition patch :: "ExcEnv \<Rightarrow> ScheduleException \<Rightarrow> excEffect list" where
  "patch E exc = (case PatchResult E exc of Inr _ \<Rightarrow> [PatchExc exc] | Inl _ \<Rightarrow> [])"

definition addFinalizer :: "ScheduleException \<Rightarrow> ScheduleException" where
  "addFinalizer exc = exc\<lparr>exc_Finalizers := exc_Finalizers exc @ [ExceptionFinalizerName]\<rparr>"

definition removeFinalizer :: "ScheduleException \<Rightarrow> ScheduleException" where
  "removeFinalizer exc = exc\<lparr>exc_Finalizers := filter (\<lambda>f. f \<noteq> ExceptionFinalizerName) (exc_Finalizers exc)\<rparr>"

definition excErr :: "ScheduleException \<Rightarrow> string \<Rightarrow> go_error \<Rightarrow> excEffect" where
  "excErr exc what e = ReportError (Wrap (''exception '' @ exc_Namespace exc @ ''/'' @ exc_Name exc @ '': '' @ what @ '': '') e)"

text \<open>\<open>ensurePlanLabel\<close>: the effects and the object with its label (kept in memory even if the patch fails).\<close>

definition ensurePlanLabel :: "ExcEnv \<Rightarrow> ScheduleException \<Rightarrow> excEffect list \<times> ScheduleException" where
  "ensurePlanLabel E exc =
     (let planName = pr_Name (PlanRef (exc_Spec exc)) in
      if exc_Labels exc LabelPlan = Some planName then ([], exc)
      else (let exc' = exc\<lparr>exc_Labels := (exc_Labels exc)(LabelPlan \<mapsto> planName)\<rparr> in
            (case PatchResult E exc' of
               Inr st \<Rightarrow> ([PatchExc exc'], exc'\<lparr>exc_Status := st\<rparr>)
             | Inl e \<Rightarrow> ([excErr exc ''failed to ensure plan label'' (Wrap ''update exception plan label: '' e)], exc'))))"

section \<open>Deletion\<close>

definition removeFromPlanStatus :: "ScheduleException \<Rightarrow> excEffect list" where
  "removeFromPlanStatus exc =
     [PlanStatusUpdate (exc_Namespace exc) (pr_Name (PlanRef (exc_Spec exc))) (MutDropRef (exc_Name exc))]"

definition midCycle :: "HibernatePlan \<Rightarrow> ScheduleException \<Rightarrow> bool" where
  "midCycle plan exc \<longleftrightarrow> Phase (Status plan) \<in> {PhaseHibernating, PhaseWakingUp, PhaseError} \<and>
     AppliedExceptionOverride (Status plan) = exc_Name exc"

definition handleExceptionDelete :: "ExcEnv \<Rightarrow> string \<Rightarrow> string \<Rightarrow> excEffect list" where
  "handleExceptionDelete E ns name =
     (case FetchExc E ns name of
        Inl err \<Rightarrow> if is_not_found err then []
                   else [ReportError (Wrap (''exception '' @ ns @ ''/'' @ name @ '': failed to re-fetch for deletion: '') err)]
      | Inr exc \<Rightarrow>
          (let blocked = (case FetchPlan E (exc_Namespace exc) (pr_Name (PlanRef (exc_Spec exc))) of
                            Inl _ \<Rightarrow> False | Inr plan \<Rightarrow> midCycle plan exc)
           in removeFromPlanStatus exc @
              (if blocked then []
               else if ExceptionFinalizerName \<in> set (exc_Finalizers exc) then
                 (case PatchResult E (removeFinalizer exc) of
                    Inr _ \<Rightarrow> [PatchExc (removeFinalizer exc)]
                  | Inl e \<Rightarrow> [excErr exc ''failed to remove finalizer'' e])
               else [])))"

section \<open>Updates\<close>

text \<open>The part of \<open>handleExceptionUpdate\<close> after the finalizer is in place.\<close>

definition driveState :: "ExcEnv \<Rightarrow> ScheduleException \<Rightarrow> excEffect list" where
  "driveState E exc =
     (case ensurePlanLabel E exc of (effs, exc') \<Rightarrow>
      (let desired = computeDesiredState (Clock E) exc' in
       effs @ (if xt_State (exc_Status exc') \<noteq> desired then transitionState desired (Clock E) exc'
               else updateMessage (Clock E) exc')))"

definition handleExceptionUpdate :: "ExcEnv \<Rightarrow> ScheduleException \<Rightarrow> excEffect list" where
  "handleExceptionUpdate E exc =
     (if \<not> live exc then handleExceptionDelete E (exc_Namespace exc) (exc_Name exc)
      else if ExceptionFinalizerName \<notin> set (exc_Finalizers exc) then
        (case PatchResult E (addFinalizer exc) of
           Inl e \<Rightarrow> [excErr exc ''failed to add finalizer'' e]
         | Inr st \<Rightarrow> PatchExc (addFinalizer exc) # driveState E ((addFinalizer exc)\<lparr>exc_Status := st\<rparr>))
      else driveState E exc)"

section \<open>References in the plan's status\<close>

text \<open>\<open>stateOrder[state]\<close>: a state without an entry reads as zero.\<close>

definition stateOrder :: "ExceptionState \<Rightarrow> int" where
  "stateOrder s = (case s of ExceptionStatePending \<Rightarrow> 1 | ExceptionStateExpired \<Rightarrow> 2 | _ \<Rightarrow> 0)"

definition exceptionRef :: "ScheduleException \<Rightarrow> ExceptionReference" where
  "exceptionRef exc =
     \<lparr>er_Name = exc_Name exc, er_Type = xs_Type (exc_Spec exc), er_ValidFrom = xs_ValidFrom (exc_Spec exc),
      er_ValidUntil = xs_ValidUntil (exc_Spec exc), er_State = xt_State (exc_Status exc),
      er_AppliedAt = AppliedAt (exc_Status exc)\<rparr>"

text \<open>
  \<open>sort.Slice\<close> with the comparison of the code: state order first, then the later start; the
  order of equal elements, which the library leaves open, is the input order here.
\<close>

definition refLess :: "ExceptionReference \<Rightarrow> ExceptionReference \<Rightarrow> bool" where
  "refLess a b =
     (if stateOrder (er_State a) \<noteq> stateOrder (er_State b) then stateOrder (er_State a) < stateOrder (er_State b)
      else After (er_ValidFrom a) (er_ValidFrom b))"

fun insertRef :: "ExceptionReference \<Rightarrow> ExceptionReference list \<Rightarrow> ExceptionReference list" where
  "insertRef x [] = [x]"
| "insertRef x (y # ys) = (if refLess y x then y # insertRef x ys else x # y # ys)"

definition sortRefs :: "ExceptionReference list \<Rightarrow> ExceptionReference list" where
  "sortRefs xs = foldr insertRef xs []"

definition buildRefs :: "ScheduleException list \<Rightarrow> ExceptionReference list" where
  "buildRefs excs = take 10 (sortRefs (map exceptionRef (filter live excs)))"

definition updateExceptionReferences :: "HibernatePlan \<Rightarrow> ScheduleException list \<Rightarrow> excEffect list" where
  "updateExceptionReferences plan excs =
     (if ExceptionReferencesEqual (ExceptionReferences (Status plan)) (buildRefs excs) then []
      else [PlanStatusUpdate (Namespace plan) (Name plan) (MutRefs (buildRefs excs))])"

definition handlePlanUpdate :: "ExcEnv \<Rightarrow> HibernatePlan \<Rightarrow> ScheduleException list \<Rightarrow> excEffect list" where
  "handlePlanUpdate E plan excs =
     concat (map (\<lambda>exc. if \<not> live exc then handleExceptionDelete E (exc_Namespace exc) (exc_Name exc)
                        else handleExceptionUpdate E exc) excs) @
     updateExceptionReferences plan excs"

section \<open>Deletion of the plan\<close>

definition groupVersion :: string where
  "groupVersion = ''hibernator.ardikabs.com/v1alpha1''"

definition hasOwnerReferenceToPlan :: "ExcEnv \<Rightarrow> ScheduleException \<Rightarrow> string \<Rightarrow> bool" where
  "hasOwnerReferenceToPlan E exc planName =
     list_ex (\<lambda>r. or_Kind r = ''HibernatePlan'' \<and> or_Name r = planName \<and> or_APIVersion r = groupVersion)
       (OwnerReferences E exc)"

definition transitionToDetached :: "ExcEnv \<Rightarrow> ScheduleException \<Rightarrow> string \<Rightarrow> excEffect list" where
  "transitionToDetached E exc planName =
     (if xt_State (exc_Status exc) = ExceptionStateDetached then []
      else ExcStatusUpdate (exc_Namespace exc) (exc_Name exc) (MutDetached (Clock E) (detachedMessage planName)) #
           (if ExceptionFinalizerName \<in> set (exc_Finalizers exc) then patch E (removeFinalizer exc) else []))"

definition handlePlanDelete :: "ExcEnv \<Rightarrow> string \<Rightarrow> string \<Rightarrow> excEffect list" where
  "handlePlanDelete E ns planName =
     (case ListByPlan E ns planName of
        Inl err \<Rightarrow> [ReportError (Wrap (''plan '' @ ns @ ''/'' @ planName @ '': failed to list exceptions for cleanup: '') err)]
      | Inr items \<Rightarrow>
          concat (map (\<lambda>exc. if hasOwnerReferenceToPlan E exc planName then [] else transitionToDetached E exc planName) items))"

section \<open>The state follows the clock\<close>

fun rank :: "ExceptionState \<Rightarrow> nat" where
  "rank ExceptionStatePending = 0"
| "rank ExceptionStateActive = 1"
| "rank _ = 2"

lemma computeDesiredState_mono:
  "t_ns t \<le> t_ns t' \<Longrightarrow> rank (computeDesiredState t exc) \<le> rank (computeDesiredState t' exc)"
  by (auto simp: computeDesiredState_def Before_def After_def Let_def)

text \<open>What the status says about its own history.\<close>

definition status_consistent :: "ScheduleExceptionStatus \<Rightarrow> bool" where
  "status_consistent st \<longleftrightarrow>
     (case xt_State st of
        ExceptionStatePending \<Rightarrow> AppliedAt st = None \<and> ExpiredAt st = None \<and> DetachedAt st = None
      | ExceptionStateActive \<Rightarrow> AppliedAt st \<noteq> None \<and> ExpiredAt st = None \<and> DetachedAt st = None
      | ExceptionStateExpired \<Rightarrow> AppliedAt st = None \<and> ExpiredAt st \<noteq> None \<and> DetachedAt st = None
      | ExceptionStateDetached \<Rightarrow> DetachedAt st \<noteq> None
      | _ \<Rightarrow> True)"

fun queued :: "excEffect \<Rightarrow> excMutator list" where
  "queued (ExcStatusUpdate ns n m) = [m]"
| "queued _ = []"

definition mutators :: "excEffect list \<Rightarrow> excMutator list" where
  "mutators effs = concat (map queued effs)"

lemma mutators_simps [simp]:
  "mutators [] = []" "mutators (x # xs) = queued x @ mutators xs" "mutators (xs @ ys) = mutators xs @ mutators ys"
  by (simp_all add: mutators_def)

lemma computeDesiredState_cases: "computeDesiredState t exc \<in> {ExceptionStatePending, ExceptionStateActive, ExceptionStateExpired}"
  by (simp add: computeDesiredState_def Let_def)

lemma ensurePlanLabel_mutators: "mutators (fst (ensurePlanLabel E exc)) = []"
  by (simp add: ensurePlanLabel_def Let_def excErr_def split: sum.splits)

text \<open>Nobody else writes the status of an exception while the handler patches it.\<close>

definition undisturbed :: "ExcEnv \<Rightarrow> bool" where
  "undisturbed E \<longleftrightarrow> (\<forall>x st. PatchResult E x = Inr st \<longrightarrow> st = exc_Status x)"

lemma undisturbedD: "PatchResult E x = Inr st \<Longrightarrow> undisturbed E \<Longrightarrow> st = exc_Status x"
  by (simp add: undisturbed_def)

lemma ensurePlanLabel_keeps:
  "undisturbed E \<Longrightarrow> exc_Status (snd (ensurePlanLabel E exc)) = exc_Status exc"
  "exc_Spec (snd (ensurePlanLabel E exc)) = exc_Spec exc" "exc_Name (snd (ensurePlanLabel E exc)) = exc_Name exc"
  "exc_Namespace (snd (ensurePlanLabel E exc)) = exc_Namespace exc"
  by (auto simp: ensurePlanLabel_def Let_def dest: undisturbedD split: sum.splits)

lemma computeDesiredState_spec: "exc_Spec a = exc_Spec b \<Longrightarrow> computeDesiredState t a = computeDesiredState t b"
  by (simp add: computeDesiredState_def)

lemma newMessage_cong:
  "xt_State (exc_Status a) = xt_State (exc_Status b) \<Longrightarrow> exc_Spec a = exc_Spec b \<Longrightarrow> newMessage t a = newMessage t b"
  by (cases "xt_State (exc_Status b)") (simp_all add: newMessage_def formatPendingMessage_def formatActiveMessage_def)

lemma updateMessage_cong:
  assumes "exc_Status a = exc_Status b" "exc_Spec a = exc_Spec b" "exc_Name a = exc_Name b" "exc_Namespace a = exc_Namespace b"
  shows "updateMessage t a = updateMessage t b"
  using newMessage_cong [of a b t] assms by (simp add: updateMessage_def)

lemma driveState_mutators:
  assumes "undisturbed E"
  shows "mutators (driveState E exc) =
     (let d = computeDesiredState (Clock E) exc in
      if xt_State (exc_Status exc) \<noteq> d then [MutState d (Clock E)] else mutators (updateMessage (Clock E) exc))"
proof -
  obtain effs exc' where l: "ensurePlanLabel E exc = (effs, exc')" by fastforce
  have k: "exc_Status exc' = exc_Status exc" "exc_Spec exc' = exc_Spec exc"
      "exc_Name exc' = exc_Name exc" "exc_Namespace exc' = exc_Namespace exc" and m: "mutators effs = []"
    using ensurePlanLabel_keeps [of E exc] ensurePlanLabel_mutators [of E exc] assms by (simp_all add: l)
  have u: "updateMessage (Clock E) exc' = updateMessage (Clock E) exc" by (rule updateMessage_cong [OF k])
  show ?thesis
    using m computeDesiredState_spec [OF k(2)]
    by (simp add: driveState_def l Let_def k(1) u transitionState_def)
qed

lemma handleExceptionUpdate_mutators:
  assumes "live exc" "undisturbed E" "ExceptionFinalizerName \<in> set (exc_Finalizers exc) \<or> (\<exists>st. PatchResult E (addFinalizer exc) = Inr st)"
  shows "mutators (handleExceptionUpdate E exc) =
     (let d = computeDesiredState (Clock E) exc in
      if xt_State (exc_Status exc) \<noteq> d then [MutState d (Clock E)] else mutators (updateMessage (Clock E) exc))"
proof (cases "ExceptionFinalizerName \<in> set (exc_Finalizers exc)")
  case True
  then show ?thesis using assms(1) by (simp add: handleExceptionUpdate_def driveState_mutators [OF assms(2)])
next
  case False
  then obtain st where p: "PatchResult E (addFinalizer exc) = Inr st" using assms(3) by blast
  then have st: "st = exc_Status exc" using undisturbedD [OF p assms(2)] by (simp add: addFinalizer_def)
  let ?x = "(addFinalizer exc)\<lparr>exc_Status := exc_Status exc\<rparr>"
  have a: "exc_Status ?x = exc_Status exc" "exc_Spec ?x = exc_Spec exc" "exc_Name ?x = exc_Name exc" "exc_Namespace ?x = exc_Namespace exc"
    by (simp_all add: addFinalizer_def)
  show ?thesis using assms(1) False p st updateMessage_cong [OF a, of "Clock E"] computeDesiredState_spec [OF a(2), of "Clock E"]
    by (simp add: handleExceptionUpdate_def driveState_mutators [OF assms(2)] Let_def)
qed

text \<open>One round: the processor handles the exception and the status writer applies what it queued.\<close>

definition round :: "ExcEnv \<Rightarrow> ScheduleException \<Rightarrow> ScheduleException" where
  "round E exc = exc\<lparr>exc_Status := fold applyExcMutator (mutators (handleExceptionUpdate E exc)) (exc_Status exc)\<rparr>"

text \<open>
  The exception is not being deleted, its finalizer is present or can be added, and nobody else
  writes its status meanwhile.
\<close>

definition adoptable :: "ExcEnv \<Rightarrow> ScheduleException \<Rightarrow> bool" where
  "adoptable E exc \<longleftrightarrow> live exc \<and> undisturbed E \<and> (\<forall>st. ExceptionFinalizerName \<in> set (exc_Finalizers exc) \<or>
     (\<exists>st'. PatchResult E (addFinalizer (exc\<lparr>exc_Status := st\<rparr>)) = Inr st'))"

lemma adoptable_mutators:
  assumes "adoptable E exc"
  shows "mutators (handleExceptionUpdate E exc) =
     (let d = computeDesiredState (Clock E) exc in
      if xt_State (exc_Status exc) \<noteq> d then [MutState d (Clock E)] else mutators (updateMessage (Clock E) exc))"
  using assms by (intro handleExceptionUpdate_mutators) (auto simp: adoptable_def dest: spec [of _ "exc_Status exc"])

lemma round_state:
  assumes "adoptable E exc"
  shows "xt_State (exc_Status (round E exc)) = computeDesiredState (Clock E) exc"
    "adoptable E (round E exc)" "exc_Spec (round E exc) = exc_Spec exc"
    "xt_State (exc_Status exc) = computeDesiredState (Clock E) exc \<Longrightarrow>
       xt_Message (exc_Status (round E exc)) = newMessage (Clock E) exc"
proof -
  note m = adoptable_mutators [OF assms]
  show "xt_State (exc_Status (round E exc)) = computeDesiredState (Clock E) exc"
    using computeDesiredState_cases [of "Clock E" exc]
    by (auto simp: round_def m Let_def applyState_def updateMessage_def)
  show "adoptable E (round E exc)" "exc_Spec (round E exc) = exc_Spec exc"
    using assms by (simp_all add: adoptable_def round_def live_def)
  show "xt_Message (exc_Status (round E exc)) = newMessage (Clock E) exc"
    if "xt_State (exc_Status exc) = computeDesiredState (Clock E) exc"
    using that by (simp add: round_def m Let_def updateMessage_def)
qed

lemma round_consistent:
  assumes "adoptable E exc" "status_consistent (exc_Status exc)"
  shows "status_consistent (exc_Status (round E exc))"
  using assms(2) computeDesiredState_cases [of "Clock E" exc]
  by (auto simp: round_def adoptable_mutators [OF assms(1)] Let_def applyState_def updateMessage_def status_consistent_def)

lemma two_rounds_silent:
  assumes "adoptable E exc"
  shows "mutators (handleExceptionUpdate E (round E (round E exc))) = []"
proof -
  let ?r = "round E exc" and ?s = "round E (round E exc)"
  note r = round_state [OF assms] and s = round_state [OF round_state(2) [OF assms]]
  have d: "computeDesiredState (Clock E) ?r = computeDesiredState (Clock E) exc"
      "computeDesiredState (Clock E) ?s = computeDesiredState (Clock E) exc"
    by (simp_all add: computeDesiredState_def r(3) s(3))
  have st: "xt_State (exc_Status ?s) = xt_State (exc_Status ?r)" using r(1) s(1) d by simp
  have nm: "newMessage (Clock E) ?s = newMessage (Clock E) ?r" by (rule newMessage_cong [OF st s(3)])
  have msg: "xt_Message (exc_Status ?s) = newMessage (Clock E) ?s" using s(4) r(1) d(1) nm by simp
  show ?thesis
    unfolding adoptable_mutators [OF s(2)] using s(1) d msg by (simp add: Let_def updateMessage_def)
qed

text \<open>
  C26.  The lifecycle converges.  For an exception that is not being deleted, whose finalizer is
  present or can be added and whose status nobody else writes meanwhile: after one round it is
  Pending if the clock is before validFrom, Expired if the clock is after a validUntil that is set,
  and Active otherwise; if its time stamps were those of its old state, they are those of the new
  one and of no other; and after two rounds at the same time there is nothing left to write.
\<close>

theorem exception_converges:
  assumes "adoptable E exc"
  shows "xt_State (exc_Status (round E exc)) =
      (if t_ns (Clock E) < t_ns (xs_ValidFrom (exc_Spec exc)) then ExceptionStatePending
       else if \<not> IsZero (xs_ValidUntil (exc_Spec exc)) \<and> t_ns (xs_ValidUntil (exc_Spec exc)) < t_ns (Clock E)
       then ExceptionStateExpired else ExceptionStateActive) \<and>
    (status_consistent (exc_Status exc) \<longrightarrow> status_consistent (exc_Status (round E exc))) \<and>
    mutators (handleExceptionUpdate E (round E (round E exc))) = []"
  using round_state(1) [OF assms] round_consistent [OF assms] two_rounds_silent [OF assms]
  by (simp add: computeDesiredState_def Before_def After_def Let_def)

text \<open>
  The lifecycle, the schedule evaluation and the override selection agree on when an exception is
  in force: the state is Active exactly while the evaluator counts the exception's windows, and
  an override is eligible exactly then except at the two end points themselves.
\<close>

lemma exception_in_force:
  assumes "\<not> IsZero (xs_ValidUntil (exc_Spec exc))"
    and "ValidFrom x = xs_ValidFrom (exc_Spec exc)" "ValidUntil x = xs_ValidUntil (exc_Spec exc)"
    and "now e = t" "Now ev = t"
    and "xt_State (exc_Status exc) = computeDesiredState t exc"
    and "hasOverrides exc" "xs_Type (exc_Spec exc) \<noteq> ExceptionSuspend" "live exc"
  shows "(computeDesiredState t exc = ExceptionStateActive \<longleftrightarrow> isExceptionActive ev x) \<and>
    (overrideEligible e exc \<longleftrightarrow> isExceptionActive ev x \<and> \<not> TimeEqual t (ValidFrom x) \<and> \<not> TimeEqual t (ValidUntil x))"
  using assms
  by (auto simp: computeDesiredState_def isExceptionActive_def overrideEligible_def Before_def After_def TimeEqual_def
      hasOverrides_def ptrIsZero_def live_def Let_def)

section \<open>Deletion\<close>

lemma removeFinalizer_gone: "ExceptionFinalizerName \<notin> set (exc_Finalizers (removeFinalizer exc))"
  by (simp add: removeFinalizer_def)

text \<open>The whole effect of a deletion whose calls succeed.\<close>

lemma handleExceptionDelete_eq:
  assumes "FetchExc E ns name = Inr exc" "ExceptionFinalizerName \<in> set (exc_Finalizers exc)"
    and "FetchPlan E (exc_Namespace exc) (pr_Name (PlanRef (exc_Spec exc))) = Inr plan"
    and "PatchResult E (removeFinalizer exc) = Inr st"
  shows "handleExceptionDelete E ns name =
    PlanStatusUpdate (exc_Namespace exc) (pr_Name (PlanRef (exc_Spec exc))) (MutDropRef (exc_Name exc)) #
    (if midCycle plan exc then [] else [PatchExc (removeFinalizer exc)])"
  using assms by (simp add: handleExceptionDelete_def removeFromPlanStatus_def Let_def)

text \<open>Only deletion writes an exception without the finalizer.\<close>

lemma handleExceptionDelete_patch:
  "PatchExc x \<in> set (handleExceptionDelete E ns name) \<Longrightarrow>
     \<exists>exc. FetchExc E ns name = Inr exc \<and> x = removeFinalizer exc \<and>
       (\<forall>p. FetchPlan E (exc_Namespace exc) (pr_Name (PlanRef (exc_Spec exc))) = Inr p \<longrightarrow> \<not> midCycle p exc)"
  by (auto simp: handleExceptionDelete_def removeFromPlanStatus_def excErr_def Let_def
      split: sum.splits if_splits)

lemma driveState_keeps_finalizer:
  assumes "PatchExc x \<in> set (driveState E exc)"
  shows "exc_Finalizers x = exc_Finalizers exc"
  using assms
  by (auto simp: driveState_def ensurePlanLabel_def transitionState_def updateMessage_def excErr_def Let_def
      split: if_splits sum.splits)

lemma handleExceptionUpdate_patch:
  assumes "PatchExc x \<in> set (handleExceptionUpdate E exc)" "live exc"
  shows "ExceptionFinalizerName \<in> set (exc_Finalizers x)"
  using assms driveState_keeps_finalizer [of x E exc] driveState_keeps_finalizer [of x E "(addFinalizer exc)\<lparr>exc_Status := _\<rparr>"]
  by (auto simp: handleExceptionUpdate_def addFinalizer_def excErr_def split: if_splits sum.splits)

text \<open>
  C28.  Whatever a plan update does to its exceptions, it strips the finalizer only from an
  exception that is under deletion and that the plan it names, if it can be read, is not
  executing: a plan that is hibernating, waking up or in error with the exception's override
  keeps the exception in existence until the cycle is over.
\<close>

theorem deletion_waits_for_cycle:
  assumes "PatchExc x \<in> set (handlePlanUpdate E plan excs)" "ExceptionFinalizerName \<notin> set (exc_Finalizers x)"
  shows "\<exists>exc \<in> set excs. \<not> live exc \<and> (\<exists>cur. FetchExc E (exc_Namespace exc) (exc_Name exc) = Inr cur \<and>
    x = removeFinalizer cur \<and>
    (\<forall>p. FetchPlan E (exc_Namespace cur) (pr_Name (PlanRef (exc_Spec cur))) = Inr p \<longrightarrow>
       Phase (Status p) \<in> {PhaseHibernating, PhaseWakingUp, PhaseError} \<longrightarrow>
       AppliedExceptionOverride (Status p) \<noteq> exc_Name cur))"
proof -
  obtain exc where e: "exc \<in> set excs" "\<not> live exc"
      "PatchExc x \<in> set (handleExceptionDelete E (exc_Namespace exc) (exc_Name exc))"
    using assms handleExceptionUpdate_patch
    by (auto simp: handlePlanUpdate_def updateExceptionReferences_def split: if_splits)
  show ?thesis using handleExceptionDelete_patch [OF e(3)] e(1,2) by (auto simp: midCycle_def)
qed

section \<open>References\<close>

lemma refLess_total: "\<not> refLess a b \<Longrightarrow> \<not> refLess b c \<Longrightarrow> \<not> refLess a c"
  by (auto simp: refLess_def After_def split: if_splits)

lemma set_insertRef [simp]: "set (insertRef x ys) = insert x (set ys)"
  by (induction ys) auto

lemma mset_insertRef: "mset (insertRef x ys) = add_mset x (mset ys)"
  by (induction ys) auto

definition in_order :: "ExceptionReference list \<Rightarrow> bool" where
  "in_order xs \<longleftrightarrow> sorted_wrt (\<lambda>a b. \<not> refLess b a) xs"

lemma insertRef_sorted: "in_order ys \<Longrightarrow> in_order (insertRef x ys)"
proof (induction ys)
  case (Cons y ys)
  have nr: "refLess y x \<Longrightarrow> \<not> refLess x y" by (auto simp: refLess_def After_def split: if_splits)
  show ?case
  proof (cases "refLess y x")
    case True
    then show ?thesis using Cons nr by (auto simp: in_order_def)
  next
    case False
    then have "\<not> refLess z x" if "z \<in> set ys" for z
      using Cons.prems that refLess_total [of z y x] by (auto simp: in_order_def)
    then show ?thesis using Cons.prems False by (auto simp: in_order_def)
  qed
qed (simp add: in_order_def)

lemma sortRefs_sorted: "in_order (sortRefs xs)"
  by (induction xs) (auto simp: sortRefs_def insertRef_sorted in_order_def [of "[]"])

lemma mset_sortRefs: "mset (sortRefs xs) = mset xs"
  by (induction xs) (auto simp: sortRefs_def mset_insertRef)

lemma refs_in_order:
  "length (buildRefs excs) \<le> 10 \<and> in_order (buildRefs excs) \<and>
   set (buildRefs excs) \<subseteq> exceptionRef ` {e \<in> set excs. live e} \<and>
   (length (filter live excs) \<le> 10 \<longrightarrow> mset (buildRefs excs) = mset (map exceptionRef (filter live excs)))"
proof -
  have s: "set (sortRefs xs) = set xs" for xs using mset_sortRefs by (metis set_mset_mset)
  have "length (sortRefs xs) = length xs" for xs using mset_sortRefs by (metis size_mset)
  then show ?thesis
    using sortRefs_sorted [of "map exceptionRef (filter live excs)"] set_take_subset s
    by (fastforce simp: buildRefs_def in_order_def sorted_wrt_take mset_sortRefs)
qed

text \<open>
  A detached reference has no entry in the order of states and is read as zero, so it ranks with
  the active ones, before the pending ones.
\<close>

lemma detached_ranks_first: "stateOrder ExceptionStateDetached = stateOrder ExceptionStateActive"
  by (simp add: stateOrder_def)

section \<open>Deletion of the plan\<close>

lemma handlePlanDelete_detaches:
  assumes "ListByPlan E ns p = Inr items" "exc \<in> set items" "\<not> hasOwnerReferenceToPlan E exc p"
    "xt_State (exc_Status exc) \<noteq> ExceptionStateDetached"
  shows "ExcStatusUpdate (exc_Namespace exc) (exc_Name exc) (MutDetached (Clock E) (detachedMessage p)) \<in>
    set (handlePlanDelete E ns p)"
  using assms by (auto simp: handlePlanDelete_def transitionToDetached_def intro!: bexI [of _ exc])

text \<open>
  A detached exception whose plan exists again is taken back into the lifecycle by the next round.
\<close>

lemma detached_relinks:
  assumes "adoptable E exc" "xt_State (exc_Status exc) = ExceptionStateDetached"
  shows "xt_State (exc_Status (round E exc)) \<noteq> ExceptionStateDetached \<and> DetachedAt (exc_Status (round E exc)) = None"
  using assms(2) computeDesiredState_cases [of "Clock E" exc]
  by (auto simp: round_def adoptable_mutators [OF assms(1)] Let_def applyState_def)

section \<open>Examples\<close>

definition excEnvAt :: "Time \<Rightarrow> HibernatePlan \<Rightarrow> ScheduleException \<Rightarrow> ExcEnv" where
  "excEnvAt t plan exc =
     \<lparr>Clock = t, PatchResult = (\<lambda>x. Inr (exc_Status x)), FetchExc = \<lambda>_ _. Inr exc, FetchPlan = \<lambda>_ _. Inr plan,
      ListByPlan = \<lambda>_ _. Inr [exc], OwnerReferences = \<lambda>_. []\<rparr>"

abbreviation overriding :: ScheduleException where
  "overriding \<equiv> sampleExc ''e'' ExceptionExtend evening [\<lparr>TargetName = ''app'', to_Parameters = None, Disabled = False\<rparr>] None"

theorem exception_converges_witness:
  "xt_State (exc_Status (round (excEnvAt (moment 8 0) weekdayPlan overriding) overriding)) = ExceptionStateExpired \<and>
   mutators (handleExceptionUpdate (excEnvAt (moment 8 0) weekdayPlan overriding)
     (round (excEnvAt (moment 8 0) weekdayPlan overriding) (round (excEnvAt (moment 8 0) weekdayPlan overriding) overriding))) = []"
proof -
  let ?E = "excEnvAt (moment 8 0) weekdayPlan overriding"
  have a: "adoptable ?E overriding" by (simp add: adoptable_def undisturbed_def excEnvAt_def live_def sampleExc_def)
  have "\<not> t_ns (Clock ?E) < t_ns (xs_ValidFrom (exc_Spec overriding))"
    "\<not> IsZero (xs_ValidUntil (exc_Spec overriding)) \<and> t_ns (xs_ValidUntil (exc_Spec overriding)) < t_ns (Clock ?E)" by code_simp+
  then show ?thesis using exception_converges [OF a] by simp
qed

definition evalExcept :: "ScheduleException \<Rightarrow> Exception" where
  "evalExcept exc = \<lparr>ex_Type = xs_Type (exc_Spec exc), ValidFrom = xs_ValidFrom (exc_Spec exc),
     ValidUntil = xs_ValidUntil (exc_Spec exc), LeadTime = 0, ex_Windows = xs_Windows (exc_Spec exc)\<rparr>"

lemma exception_in_force_witness:
  "isExceptionActive (dailyEvaluator (moment 0 0)) (evalExcept overriding) \<and>
   \<not> overrideEligible (sampleEnv\<lparr>now := moment 0 0\<rparr>) overriding"
proof -
  let ?ev = "dailyEvaluator (moment 0 0)" and ?e = "sampleEnv\<lparr>now := moment 0 0\<rparr>"
  have "(computeDesiredState (moment 0 0) overriding = ExceptionStateActive \<longleftrightarrow> isExceptionActive ?ev (evalExcept overriding)) \<and>
    (overrideEligible ?e overriding \<longleftrightarrow> isExceptionActive ?ev (evalExcept overriding) \<and>
     \<not> TimeEqual (moment 0 0) (ValidFrom (evalExcept overriding)) \<and> \<not> TimeEqual (moment 0 0) (ValidUntil (evalExcept overriding)))"
  proof (rule exception_in_force)
    show "\<not> IsZero (xs_ValidUntil (exc_Spec overriding))"
      by (simp add: sampleExc_def moment_def IsZero_def zero_ns_def)
    show "xt_State (exc_Status overriding) = computeDesiredState (moment 0 0) overriding"
      by (simp add: sampleExc_def computeDesiredState_def Before_def After_def moment_def Let_def)
    show "hasOverrides overriding" "live overriding" by (simp_all add: hasOverrides_def live_def sampleExc_def)
  qed (simp_all add: evalExcept_def dailyEvaluator_def sampleExc_def)
  moreover have "computeDesiredState (moment 0 0) overriding = ExceptionStateActive"
      "TimeEqual (moment 0 0) (ValidFrom (evalExcept overriding))"
    by (simp_all add: sampleExc_def computeDesiredState_def Before_def After_def moment_def Let_def TimeEqual_def evalExcept_def)
  ultimately show ?thesis by blast
qed

lemma deletion_blocked_example:
  "handleExceptionDelete (excEnvAt (moment 0 0) hibernatingPlan (addFinalizer overriding)) ''ns'' ''e'' =
     [PlanStatusUpdate ''ns'' ''p'' (MutDropRef ''e'')]"
proof -
  let ?x = "addFinalizer overriding" and ?E = "excEnvAt (moment 0 0) hibernatingPlan (addFinalizer overriding)"
  have "midCycle hibernatingPlan ?x" by (simp add: midCycle_def hibernatingPlan_def sampleExc_def addFinalizer_def)
  moreover have "FetchExc ?E ''ns'' ''e'' = Inr ?x" "ExceptionFinalizerName \<in> set (exc_Finalizers ?x)"
      "FetchPlan ?E (exc_Namespace ?x) (pr_Name (PlanRef (exc_Spec ?x))) = Inr hibernatingPlan"
      "PatchResult ?E (removeFinalizer ?x) = Inr (exc_Status (removeFinalizer ?x))"
    by (simp_all add: excEnvAt_def addFinalizer_def)
  note d = handleExceptionDelete_eq [OF this]
  ultimately show ?thesis unfolding d by (simp add: addFinalizer_def sampleExc_def)
qed

theorem deletion_waits_for_cycle_witness:
  "\<exists>exc. \<not> live exc \<and> PatchExc (removeFinalizer exc) \<in>
       set (handlePlanUpdate (excEnvAt (moment 0 0) weekdayPlan exc) weekdayPlan [exc]) \<and>
     \<not> midCycle weekdayPlan exc"
proof -
  let ?x = "(addFinalizer overriding)\<lparr>exc_DeletionTimestamp := Some (moment 0 0)\<rparr>"
  let ?E = "excEnvAt (moment 0 0) weekdayPlan ?x"
  have l: "\<not> live ?x" by code_simp
  have "Phase (Status weekdayPlan) \<notin> {PhaseHibernating, PhaseWakingUp, PhaseError}" by code_simp
  then have m: "\<not> midCycle weekdayPlan ?x" by (simp add: midCycle_def)
  have "handleExceptionDelete ?E (exc_Namespace ?x) (exc_Name ?x) =
      PlanStatusUpdate (exc_Namespace ?x) (pr_Name (PlanRef (exc_Spec ?x))) (MutDropRef (exc_Name ?x)) #
      (if midCycle weekdayPlan ?x then [] else [PatchExc (removeFinalizer ?x)])"
    by (rule handleExceptionDelete_eq) (simp_all add: excEnvAt_def addFinalizer_def)
  then have p: "PatchExc (removeFinalizer ?x) \<in> set (handlePlanUpdate ?E weekdayPlan [?x])"
    using l m by (simp add: handlePlanUpdate_def del: fun_upd_apply)
  have "\<not> midCycle weekdayPlan ?x"
    using deletion_waits_for_cycle [OF p removeFinalizer_gone] by (auto simp: excEnvAt_def midCycle_def)
  with l p show ?thesis by blast
qed

end
