(* ===== verification/Pool.thy ===== *)
theory Pool
  imports Slots
begin

text \<open>
  The keyed worker pool (\<^verbatim>\<open>pkg/keyedworker/pool.go\<close>, \<^verbatim>\<open>handler.go\<close>) as a step function
  on the shared state, one event per critical section or atomic access of the callers of
  \<open>Deliver\<close> and \<open>Remove\<close>, of \<open>Register\<close> and \<open>Stop\<close>, and of the per-key goroutines with the body
  that \<open>RunnerFactory\<close> builds.  Entries are addressed, since a caller can hold an entry that has
  left the map.  An event that is not enabled gives None.  The slots of the entries are FIFO slots, as in
  the pools of the status writers; a pool over latest-wins slots (\<open>Slots\<close> models that slot) is not covered here.
\<close>

section \<open>State\<close>

record 'v entry =
  e_slot :: "'v fifoSlot"
  e_running :: bool
  e_cancel :: "nat option"

text \<open>A goroutine: started, in its body, returned from its body, or about to remove its entry.\<close>

datatype gpc = Starting | Body | Leaving | Reaping

record 'k gor =
  g_key :: 'k
  g_addr :: nat
  g_pc :: gpc

text \<open>A call of \<open>Deliver\<close>: it holds an entry, or it has sent its value.\<close>

datatype ('k, 'v) caller = Got 'k 'v nat | Sent 'k nat

datatype remover = Unlinked nat | Cancelled nat

datatype parentCtx = CtxNone | CtxLive | CtxDone

record ('k, 'v) Pool =
  entries :: "('k \<times> nat) list"
  heap :: "'v entry list"
  workerFactory :: bool
  flushed :: bool
  parent :: parentCtx
  autoRemoveOnIdle :: bool
  bufLen :: nat
  gors :: "nat \<Rightarrow> 'k gor option"
  nextCtx :: nat
  cancelled :: "nat \<Rightarrow> bool"
  callers :: "nat \<Rightarrow> ('k, 'v) caller option"
  removers :: "nat \<Rightarrow> remover option"
  handled :: "('k \<times> 'v) list"
  gauge :: int

definition New :: "bool \<Rightarrow> nat \<Rightarrow> ('k, 'v) Pool" where
  "New auto n =
     \<lparr>entries = [], heap = [], workerFactory = False, flushed = False, parent = CtxNone, autoRemoveOnIdle = auto,
      bufLen = n, gors = (\<lambda>_. None), nextCtx = 0, cancelled = (\<lambda>_. False), callers = (\<lambda>_. None),
      removers = (\<lambda>_. None), handled = [], gauge = 0\<rparr>"

section \<open>Operations\<close>

definition upd_entry :: "nat \<Rightarrow> ('v entry \<Rightarrow> 'v entry) \<Rightarrow> ('k, 'v) Pool \<Rightarrow> ('k, 'v) Pool" where
  "upd_entry a f p = p\<lparr>heap := (heap p)[a := f (heap p ! a)]\<rparr>"

text \<open>\<open>ctx.Err() != nil\<close> for the context of goroutine \<open>g\<close>.\<close>

definition ctxErr :: "('k, 'v) Pool \<Rightarrow> nat \<Rightarrow> bool" where
  "ctxErr p g \<longleftrightarrow> cancelled p g \<or> parent p = CtxDone"

definition getOrCreate :: "'k \<Rightarrow> ('k, 'v) Pool \<Rightarrow> nat \<times> ('k, 'v) Pool" where
  "getOrCreate key p =
     (case map_of (entries p) key of
        Some a \<Rightarrow> (a, p)
      | None \<Rightarrow> (length (heap p),
                 p\<lparr>heap := heap p @ [\<lparr>e_slot = FIFOSlot (bufLen p), e_running = False, e_cancel = None\<rparr>],
                   entries := AList.update key (length (heap p)) (entries p)\<rparr>))"

definition spawn :: "'k \<Rightarrow> nat \<Rightarrow> ('k, 'v) Pool \<Rightarrow> ('k, 'v) Pool" where
  "spawn key a p =
     (upd_entry a (\<lambda>e. e\<lparr>e_cancel := Some (nextCtx p), e_running := True\<rparr>) p)
       \<lparr>gors := (gors p)(nextCtx p \<mapsto> \<lparr>g_key = key, g_addr = a, g_pc = Starting\<rparr>), nextCtx := nextCtx p + 1\<rparr>"

definition ensureRunning :: "'k \<Rightarrow> nat \<Rightarrow> ('k, 'v) Pool \<Rightarrow> ('k, 'v) Pool" where
  "ensureRunning key a p =
     (if parent p \<noteq> CtxLive then p else if e_running (heap p ! a) then p else spawn key a p)"

definition flushOne :: "'k \<times> nat \<Rightarrow> ('k, 'v) Pool \<Rightarrow> ('k, 'v) Pool" where
  "flushOne ka p = (if fifo_Len (e_slot (heap p ! snd ka)) > 0 then ensureRunning (fst ka) (snd ka) p else p)"

text \<open>The deferred function of \<open>runEntry\<close>, under the lock of the entry.\<close>

definition deferred :: "nat \<Rightarrow> 'k gor \<Rightarrow> ('k, 'v) Pool \<Rightarrow> ('k, 'v) Pool" where
  "deferred g r p =
     (let a = g_addr r; e = heap p ! a; idleExit = (\<not> ctxErr p g);
          p1 = (upd_entry a (\<lambda>e. e\<lparr>e_running := False\<rparr>) p)
                 \<lparr>cancelled := (case e_cancel e of None \<Rightarrow> cancelled p | Some c \<Rightarrow> (cancelled p)(c := True)),
                  gauge := gauge p - 1, gors := (gors p)(g := None)\<rparr>
      in if fifo_Len (e_slot e) > 0 then
           (if parent p1 = CtxLive then (spawn (g_key r) a p1)\<lparr>gauge := gauge p1 + 1\<rparr> else p1)
         else if \<not> autoRemoveOnIdle p \<or> \<not> idleExit then p1
         else p1\<lparr>gors := (gors p)(g \<mapsto> r\<lparr>g_pc := Reaping\<rparr>)\<rparr>)"

text \<open>The events: \<open>i\<close> names a caller, \<open>g\<close> a goroutine.\<close>

datatype ('k, 'v) event =
    DeliverGet nat 'k 'v | DeliverSend nat | DeliverEnsure nat
  | RemoveUnlink nat 'k | RemoveCancel nat | RemoveDrain nat
  | RegisterStore | RegisterFlush | StopPool
  | GStart nat | GTake nat | GIdle nat | GDone nat | GDefer nat | GReap nat

fun pool_step :: "('k, 'v) event \<Rightarrow> ('k, 'v) Pool \<Rightarrow> (('k, 'v) Pool) option" where
  "pool_step (DeliverGet i key v) p =
     (if callers p i \<noteq> None then None
      else (case getOrCreate key p of (a, p') \<Rightarrow> Some (p'\<lparr>callers := (callers p')(i \<mapsto> Got key v a)\<rparr>)))"
| "pool_step (DeliverSend i) p =
     (case callers p i of
        Some (Got key v a) \<Rightarrow>
          Some ((upd_entry a (\<lambda>e. e\<lparr>e_slot := fifo_Send v (e_slot e)\<rparr>) p)\<lparr>callers := (callers p)(i \<mapsto> Sent key a)\<rparr>)
      | _ \<Rightarrow> None)"
| "pool_step (DeliverEnsure i) p =
     (case callers p i of
        Some (Sent key a) \<Rightarrow>
          (let p' = p\<lparr>callers := (callers p)(i := None)\<rparr> in
           Some (if workerFactory p then ensureRunning key a p' else p'))
      | _ \<Rightarrow> None)"
| "pool_step (RemoveUnlink i key) p =
     (if removers p i \<noteq> None then None
      else (case map_of (entries p) key of
              None \<Rightarrow> Some p
            | Some a \<Rightarrow> Some (p\<lparr>entries := AList.delete key (entries p), removers := (removers p)(i \<mapsto> Unlinked a)\<rparr>)))"
| "pool_step (RemoveCancel i) p =
     (case removers p i of
        Some (Unlinked a) \<Rightarrow>
          Some (p\<lparr>cancelled := (case e_cancel (heap p ! a) of None \<Rightarrow> cancelled p | Some c \<Rightarrow> (cancelled p)(c := True)),
                  removers := (removers p)(i \<mapsto> Cancelled a)\<rparr>)
      | _ \<Rightarrow> None)"
| "pool_step (RemoveDrain i) p =
     (case removers p i of
        Some (Cancelled a) \<Rightarrow>
          Some ((upd_entry a (\<lambda>e. e\<lparr>e_slot := fifo_Drain (e_slot e)\<rparr>) p)\<lparr>removers := (removers p)(i := None)\<rparr>)
      | _ \<Rightarrow> None)"
| "pool_step RegisterStore p =
     (if workerFactory p then None else Some (p\<lparr>parent := CtxLive, workerFactory := True\<rparr>))"
| "pool_step RegisterFlush p =
     (if \<not> workerFactory p \<or> flushed p then None
      else Some ((fold flushOne (entries p) p)\<lparr>flushed := True\<rparr>))"
| "pool_step StopPool p = Some (p\<lparr>parent := (if parent p = CtxNone then CtxNone else CtxDone)\<rparr>)"
| "pool_step (GStart g) p =
     (case gors p g of
        Some r \<Rightarrow> if g_pc r = Starting
                  then Some (p\<lparr>gors := (gors p)(g \<mapsto> r\<lparr>g_pc := Body\<rparr>), gauge := gauge p + 1\<rparr>) else None
      | None \<Rightarrow> None)"
| "pool_step (GTake g) p =
     (case gors p g of
        Some r \<Rightarrow>
          if g_pc r = Body then
            (case fifo_take (e_slot (heap p ! g_addr r)) of
               Some (v, s) \<Rightarrow> Some ((upd_entry (g_addr r) (\<lambda>e. e\<lparr>e_slot := s\<rparr>) p)\<lparr>handled := handled p @ [(g_key r, v)]\<rparr>)
             | None \<Rightarrow> None)
          else None
      | None \<Rightarrow> None)"
| "pool_step (GIdle g) p =
     (case gors p g of
        Some r \<Rightarrow> if g_pc r = Body \<and> \<not> signal (e_slot (heap p ! g_addr r))
                  then Some (p\<lparr>gors := (gors p)(g \<mapsto> r\<lparr>g_pc := Leaving\<rparr>)\<rparr>) else None
      | None \<Rightarrow> None)"
| "pool_step (GDone g) p =
     (case gors p g of
        Some r \<Rightarrow> if g_pc r = Body \<and> ctxErr p g
                  then Some (p\<lparr>gors := (gors p)(g \<mapsto> r\<lparr>g_pc := Leaving\<rparr>)\<rparr>) else None
      | None \<Rightarrow> None)"
| "pool_step (GDefer g) p =
     (case gors p g of
        Some r \<Rightarrow> if g_pc r = Leaving then Some (deferred g r p) else None
      | None \<Rightarrow> None)"
| "pool_step (GReap g) p =
     (case gors p g of
        Some r \<Rightarrow>
          if g_pc r = Reaping then
            (let e = heap p ! g_addr r; p' = p\<lparr>gors := (gors p)(g := None)\<rparr> in
             Some (if \<not> e_running e \<and> fifo_Len (e_slot e) = 0
                   then p'\<lparr>entries := AList.delete (g_key r) (entries p)\<rparr> else p'))
          else None
      | None \<Rightarrow> None)"

fun run_pool :: "('k, 'v) event list \<Rightarrow> ('k, 'v) Pool \<Rightarrow> (('k, 'v) Pool) option" where
  "run_pool [] p = Some p"
| "run_pool (ev # evs) p = Option.bind (pool_step ev p) (run_pool evs)"

text \<open>\<open>Len\<close> and \<open>ActiveWorkers\<close>.\<close>

definition Len :: "('k, 'v) Pool \<Rightarrow> nat" where
  "Len p = sum_list (map (\<lambda>ka. fifo_Len (e_slot (heap p ! snd ka))) (entries p))"

definition ActiveWorkers :: "('k, 'v) Pool \<Rightarrow> nat" where
  "ActiveWorkers p = length (filter (\<lambda>ka. e_running (heap p ! snd ka)) (entries p))"

section \<open>Invariants\<close>

text \<open>
  An entry is marked running exactly while one goroutine serves it, the one whose context the
  entry can cancel; a goroutine that is about to remove its entry no longer counts.
\<close>

definition gor_ok :: "('k, 'v) Pool \<Rightarrow> bool" where
  "gor_ok p \<longleftrightarrow>
     (\<forall>g r. gors p g = Some r \<longrightarrow> g_addr r < length (heap p) \<and> g < nextCtx p \<and>
        (g_pc r \<noteq> Reaping \<longrightarrow> e_running (heap p ! g_addr r) \<and> e_cancel (heap p ! g_addr r) = Some g)) \<and>
     (\<forall>a < length (heap p). e_running (heap p ! a) \<longrightarrow>
        (\<exists>g r. e_cancel (heap p ! a) = Some g \<and> gors p g = Some r \<and> g_addr r = a \<and> g_pc r \<noteq> Reaping))"

definition addr_ok :: "('k, 'v) Pool \<Rightarrow> bool" where
  "addr_ok p \<longleftrightarrow>
     (\<forall>ka \<in> set (entries p). snd ka < length (heap p)) \<and>
     (\<forall>i k v a. callers p i = Some (Got k v a) \<longrightarrow> a < length (heap p)) \<and>
     (\<forall>i k a. callers p i = Some (Sent k a) \<longrightarrow> a < length (heap p)) \<and>
     (\<forall>i a. removers p i = Some (Unlinked a) \<or> removers p i = Some (Cancelled a) \<longrightarrow> a < length (heap p)) \<and>
     (\<forall>a < length (heap p). fifo_inv (e_slot (heap p ! a))) \<and>
     (workerFactory p \<longrightarrow> parent p \<noteq> CtxNone) \<and> (flushed p \<longrightarrow> workerFactory p)"

text \<open>A value in the slot of a listed entry has a goroutine, or a caller about to start one.\<close>

definition served :: "('k, 'v) Pool \<Rightarrow> nat \<Rightarrow> bool" where
  "served p a \<longleftrightarrow> queue (e_slot (heap p ! a)) = [] \<or> e_running (heap p ! a) \<or> (\<exists>i k. callers p i = Some (Sent k a))"

definition strand_ok :: "('k, 'v) Pool \<Rightarrow> bool" where
  "strand_ok p \<longleftrightarrow> (flushed p \<and> parent p = CtxLive \<longrightarrow> (\<forall>ka \<in> set (entries p). served p (snd ka)))"

lemma gor_okI:
  "(\<And>g r. gors p g = Some r \<Longrightarrow> g_addr r < length (heap p) \<and> g < nextCtx p \<and>
      (g_pc r \<noteq> Reaping \<longrightarrow> e_running (heap p ! g_addr r) \<and> e_cancel (heap p ! g_addr r) = Some g)) \<Longrightarrow>
   (\<And>a. a < length (heap p) \<Longrightarrow> e_running (heap p ! a) \<Longrightarrow>
      \<exists>g r. e_cancel (heap p ! a) = Some g \<and> gors p g = Some r \<and> g_addr r = a \<and> g_pc r \<noteq> Reaping) \<Longrightarrow>
   gor_ok p"
  by (auto simp: gor_ok_def)

lemma gor_okD:
  "gor_ok p \<Longrightarrow> gors p g = Some r \<Longrightarrow> g_addr r < length (heap p)"
  "gor_ok p \<Longrightarrow> gors p g = Some r \<Longrightarrow> g < nextCtx p"
  "gor_ok p \<Longrightarrow> gors p g = Some r \<Longrightarrow> g_pc r \<noteq> Reaping \<Longrightarrow>
     e_running (heap p ! g_addr r) \<and> e_cancel (heap p ! g_addr r) = Some g"
  "gor_ok p \<Longrightarrow> a < length (heap p) \<Longrightarrow> e_running (heap p ! a) \<Longrightarrow>
     \<exists>g r. e_cancel (heap p ! a) = Some g \<and> gors p g = Some r \<and> g_addr r = a \<and> g_pc r \<noteq> Reaping"
  by (auto simp: gor_ok_def)

text \<open>A goroutine that changes its position in the code, is about to reap, or ends after that.\<close>

lemma set_pc:
  assumes "gor_ok p" "gors p g = Some r" "g_pc r \<noteq> Reaping" "c \<noteq> Reaping"
  shows "gor_ok (p\<lparr>gors := (gors p)(g \<mapsto> r\<lparr>g_pc := c\<rparr>)\<rparr>)"
proof (rule gor_okI, goal_cases)
  case (1 g' r')
  then show ?case using gor_okD [OF assms(1)] assms(2,3) by (cases "g' = g") auto
next
  case (2 a)
  then obtain g' r' where "e_cancel (heap p ! a) = Some g'" "gors p g' = Some r'" "g_addr r' = a" "g_pc r' \<noteq> Reaping"
    using gor_okD(4) [OF assms(1), of a] by auto
  then show ?case using assms(2,4) by (cases "g' = g") auto
qed

lemma add_reaping:
  assumes "gor_ok p" "gors p g = None" "g_addr r < length (heap p)" "g < nextCtx p" "g_pc r = Reaping"
  shows "gor_ok (p\<lparr>gors := (gors p)(g \<mapsto> r)\<rparr>)"
proof (rule gor_okI, goal_cases)
  case (1 g' r')
  then show ?case using gor_okD(1-3) [OF assms(1), of g' r'] assms(3-5) by (cases "g' = g") auto
next
  case (2 a)
  then obtain g' r' where "e_cancel (heap p ! a) = Some g'" "gors p g' = Some r'" "g_addr r' = a" "g_pc r' \<noteq> Reaping"
    using gor_okD(4) [OF assms(1), of a] by auto
  then show ?case using assms(2) by (cases "g' = g") auto
qed

lemma drop_reaping:
  assumes "gor_ok p" "gors p g = Some r" "g_pc r = Reaping"
  shows "gor_ok (p\<lparr>gors := (gors p)(g := None)\<rparr>)"
proof (rule gor_okI, goal_cases)
  case (1 g' r')
  then show ?case using gor_okD(1-3) [OF assms(1), of g' r'] by (auto split: if_splits)
next
  case (2 a)
  then obtain g' r' where "e_cancel (heap p ! a) = Some g'" "gors p g' = Some r'" "g_addr r' = a" "g_pc r' \<noteq> Reaping"
    using gor_okD(4) [OF assms(1), of a] by auto
  then show ?case using assms(2,3) by (cases "g' = g") auto
qed

lemma upd_entry_sel [simp]:
  "entries (upd_entry a f p) = entries p" "length (heap (upd_entry a f p)) = length (heap p)"
  "workerFactory (upd_entry a f p) = workerFactory p" "flushed (upd_entry a f p) = flushed p"
  "parent (upd_entry a f p) = parent p" "autoRemoveOnIdle (upd_entry a f p) = autoRemoveOnIdle p"
  "gors (upd_entry a f p) = gors p" "nextCtx (upd_entry a f p) = nextCtx p"
  "cancelled (upd_entry a f p) = cancelled p" "callers (upd_entry a f p) = callers p"
  "removers (upd_entry a f p) = removers p" "handled (upd_entry a f p) = handled p"
  by (simp_all add: upd_entry_def)

lemma heap_upd_entry [simp]:
  "a < length (heap p) \<Longrightarrow> heap (upd_entry a f p) ! b = (if b = a then f (heap p ! a) else heap p ! b)"
  by (simp add: upd_entry_def nth_list_update)

lemma spawn_sel [simp]:
  "entries (spawn k a p) = entries p" "length (heap (spawn k a p)) = length (heap p)"
  "workerFactory (spawn k a p) = workerFactory p" "flushed (spawn k a p) = flushed p"
  "parent (spawn k a p) = parent p" "autoRemoveOnIdle (spawn k a p) = autoRemoveOnIdle p"
  "callers (spawn k a p) = callers p" "removers (spawn k a p) = removers p"
  "gors (spawn k a p) = (gors p)(nextCtx p \<mapsto> \<lparr>g_key = k, g_addr = a, g_pc = Starting\<rparr>)"
  "nextCtx (spawn k a p) = Suc (nextCtx p)"
  by (simp_all add: spawn_def)

lemma heap_spawn [simp]:
  "a < length (heap p) \<Longrightarrow> heap (spawn k a p) ! b =
     (if b = a then (heap p ! a)\<lparr>e_cancel := Some (nextCtx p), e_running := True\<rparr> else heap p ! b)"
  by (simp add: spawn_def)

lemma spawn_gor_ok:
  assumes "gor_ok p" "a < length (heap p)" "\<not> e_running (heap p ! a)"
  shows "gor_ok (spawn k a p)"
proof -
  have "g_addr r \<noteq> a" if "gors p g = Some r" "g_pc r \<noteq> Reaping" for g r
    using assms that unfolding gor_ok_def by blast
  moreover have "gors p (nextCtx p) = None"
    using assms(1) unfolding gor_ok_def by (metis less_irrefl not_None_eq)
  ultimately show ?thesis
    using assms unfolding gor_ok_def by (auto split: if_splits) (metis less_SucI, metis less_irrefl)+
qed

lemma ensureRunning_gor_ok: "gor_ok p \<Longrightarrow> a < length (heap p) \<Longrightarrow> gor_ok (ensureRunning k a p)"
  by (simp add: ensureRunning_def spawn_gor_ok)

lemma ensureRunning_sel [simp]:
  "entries (ensureRunning k a p) = entries p" "length (heap (ensureRunning k a p)) = length (heap p)"
  "workerFactory (ensureRunning k a p) = workerFactory p" "flushed (ensureRunning k a p) = flushed p"
  "parent (ensureRunning k a p) = parent p" "autoRemoveOnIdle (ensureRunning k a p) = autoRemoveOnIdle p"
  "callers (ensureRunning k a p) = callers p" "removers (ensureRunning k a p) = removers p"
  by (simp_all add: ensureRunning_def)

lemma ensureRunning_heap:
  assumes "a < length (heap p)"
  shows "e_slot (heap (ensureRunning k a p) ! b) = e_slot (heap p ! b)"
    "e_running (heap p ! b) \<Longrightarrow> e_running (heap (ensureRunning k a p) ! b)"
    "parent p = CtxLive \<Longrightarrow> e_running (heap (ensureRunning k a p) ! a)"
  using assms by (auto simp: ensureRunning_def)

lemma ensureRunning_addr_ok: "addr_ok p \<Longrightarrow> a < length (heap p) \<Longrightarrow> addr_ok (ensureRunning k a p)"
  by (simp add: addr_ok_def ensureRunning_heap)

lemma ensureRunning_served: "a < length (heap p) \<Longrightarrow> served p b \<Longrightarrow> served (ensureRunning k a p) b"
  by (auto simp: served_def ensureRunning_heap)

lemma flushOne_sel [simp]:
  "entries (flushOne ka p) = entries p" "length (heap (flushOne ka p)) = length (heap p)"
  "workerFactory (flushOne ka p) = workerFactory p" "flushed (flushOne ka p) = flushed p"
  "parent (flushOne ka p) = parent p" "callers (flushOne ka p) = callers p" "removers (flushOne ka p) = removers p"
  by (simp_all add: flushOne_def)

lemma flushAll:
  "gor_ok p \<Longrightarrow> addr_ok p \<Longrightarrow> (\<forall>ka \<in> set es. snd ka < length (heap p)) \<Longrightarrow>
     gor_ok (fold flushOne es p) \<and> addr_ok (fold flushOne es p) \<and>
     entries (fold flushOne es p) = entries p \<and> parent (fold flushOne es p) = parent p \<and>
     workerFactory (fold flushOne es p) = workerFactory p \<and>
     (\<forall>b. served p b \<longrightarrow> served (fold flushOne es p) b) \<and>
     (parent p = CtxLive \<longrightarrow> (\<forall>ka \<in> set es. served (fold flushOne es p) (snd ka)))"
proof (induction es arbitrary: p)
  case (Cons ka es)
  let ?q = "flushOne ka p"
  have a: "snd ka < length (heap p)" using Cons.prems(3) by simp
  have q: "gor_ok ?q" "addr_ok ?q" "\<And>b. served p b \<Longrightarrow> served ?q b"
    using Cons.prems(1,2) a
    by (auto simp: flushOne_def ensureRunning_gor_ok ensureRunning_addr_ok ensureRunning_served)
  have k: "served ?q (snd ka)" if "parent p = CtxLive"
    using a that by (auto simp: flushOne_def served_def ensureRunning_heap fifo_Len_def)
  have "\<forall>ka \<in> set es. snd ka < length (heap ?q)" using Cons.prems(3) by simp
  from Cons.IH [OF q(1,2) this] show ?case using q(3) k by simp
qed simp

lemma fifo_take_inv: "fifo_inv s \<Longrightarrow> fifo_take s = Some (v, s') \<Longrightarrow> fifo_inv s'"
  by (rule fifo.take_inv)

lemma deferred_ok:
  assumes "gor_ok p" "addr_ok p" "gors p g = Some r" "g_pc r = Leaving"
  shows "gor_ok (deferred g r p)" "addr_ok (deferred g r p)"
    "strand_ok p \<Longrightarrow> strand_ok (deferred g r p)"
proof -
  let ?a = "g_addr r"
  have a: "?a < length (heap p)" and c: "e_cancel (heap p ! ?a) = Some g" and n: "g < nextCtx p"
    using assms(1,3,4) unfolding gor_ok_def by auto
  have other: "g' = g" if "gors p g' = Some r'" "g_addr r' = ?a" "g_pc r' \<noteq> Reaping" for g' r'
    using assms(1) that c unfolding gor_ok_def by (metis option.inject)
  have one: "\<And>b. b < length (heap p) \<Longrightarrow> e_running (heap p ! b) \<Longrightarrow>
      \<exists>g r. e_cancel (heap p ! b) = Some g \<and> gors p g = Some r \<and> g_addr r = b \<and> g_pc r \<noteq> Reaping"
    using assms(1) unfolding gor_ok_def by blast
  define p1 where "p1 = (upd_entry ?a (\<lambda>e. e\<lparr>e_running := False\<rparr>) p)
     \<lparr>cancelled := (case e_cancel (heap p ! ?a) of None \<Rightarrow> cancelled p | Some c \<Rightarrow> (cancelled p)(c := True)),
      gauge := gauge p - 1, gors := (gors p)(g := None)\<rparr>"
  have h1: "heap p1 ! b = (if b = ?a then (heap p ! ?a)\<lparr>e_running := False\<rparr> else heap p ! b)" for b
    using a by (simp add: p1_def)
  have gp1: "gors p1 = (gors p)(g := None)" "length (heap p1) = length (heap p)" "nextCtx p1 = nextCtx p"
    by (simp_all add: p1_def)
  have g1: "gor_ok p1"
  proof (rule gor_okI)
    fix g' r' assume "gors p1 g' = Some r'"
    then have r': "gors p g' = Some r'" "g' \<noteq> g" by (auto simp: gp1 split: if_splits)
    have "g_addr r' \<noteq> ?a" if "g_pc r' \<noteq> Reaping" using other [OF r'(1) _ that] r'(2) by blast
    then show "g_addr r' < length (heap p1) \<and> g' < nextCtx p1 \<and> (g_pc r' \<noteq> Reaping \<longrightarrow>
        e_running (heap p1 ! g_addr r') \<and> e_cancel (heap p1 ! g_addr r') = Some g')"
      using assms(1) r'(1) unfolding gor_ok_def by (auto simp: gp1 h1)
  next
    fix b assume b: "b < length (heap p1)" "e_running (heap p1 ! b)"
    then have "b \<noteq> ?a" "b < length (heap p)" "e_running (heap p ! b)" by (auto simp: h1 gp1 split: if_splits)
    with one obtain g' r' where "e_cancel (heap p ! b) = Some g'" "gors p g' = Some r'" "g_addr r' = b" "g_pc r' \<noteq> Reaping"
      by blast
    moreover then have "g' \<noteq> g" using assms(3) \<open>b \<noteq> ?a\<close> by auto
    ultimately show "\<exists>g r. e_cancel (heap p1 ! b) = Some g \<and> gors p1 g = Some r \<and> g_addr r = b \<and> g_pc r \<noteq> Reaping"
      using \<open>b \<noteq> ?a\<close> by (auto simp: gp1 h1)
  qed
  have a1: "addr_ok p1" using assms(2) a unfolding addr_ok_def p1_def by auto
  have s1: "served p b \<Longrightarrow> b \<noteq> ?a \<Longrightarrow> served p1 b" for b
    using a by (simp add: served_def h1) (simp add: p1_def)
  have def': "deferred g r p =
      (if fifo_Len (e_slot (heap p ! ?a)) > 0 then
         (if parent p1 = CtxLive then (spawn (g_key r) ?a p1)\<lparr>gauge := gauge p1 + 1\<rparr> else p1)
       else if \<not> autoRemoveOnIdle p \<or> ctxErr p g then p1
       else p1\<lparr>gors := (gors p)(g \<mapsto> r\<lparr>g_pc := Reaping\<rparr>)\<rparr>)"
    by (simp add: deferred_def p1_def Let_def)
  have len: "length (heap p1) = length (heap p)" "entries p1 = entries p" "flushed p1 = flushed p" "parent p1 = parent p"
    by (simp_all add: p1_def)
  have sp: "gor_ok (spawn (g_key r) ?a p1)" by (rule spawn_gor_ok [OF g1]) (simp_all add: len a h1)
  have "gor_ok (p1\<lparr>gors := (gors p1)(g \<mapsto> r\<lparr>g_pc := Reaping\<rparr>)\<rparr>)"
    by (rule add_reaping [OF g1]) (use a n in \<open>simp_all add: gp1\<close>)
  then have reap: "gor_ok (p1\<lparr>gors := (gors p)(g \<mapsto> r\<lparr>g_pc := Reaping\<rparr>)\<rparr>)" by (simp add: gp1)
  show "gor_ok (deferred g r p)"
    using g1 sp reap unfolding def' by (auto simp: gor_ok_def)
  show "addr_ok (deferred g r p)"
    using a1 a unfolding def' by (auto simp: addr_ok_def len h1)
  show "strand_ok (deferred g r p)" if st: "strand_ok p"
  proof (cases "fifo_Len (e_slot (heap p ! ?a)) > 0 \<and> parent p = CtxLive")
    case True
    then have "served (spawn (g_key r) ?a p1) b" if "served p b" for b
      using s1 [OF that] a by (cases "b = ?a") (auto simp: served_def len)
    then show ?thesis using st True unfolding def' by (auto simp: strand_ok_def len served_def)
  next
    case False
    have "served p1 b" if "served p b" "parent p = CtxLive" for b
      using s1 [OF that(1)] False that(2) by (cases "b = ?a") (auto simp: served_def h1 fifo_Len_def)
    then show ?thesis using st False unfolding def' by (auto simp: strand_ok_def len served_def)
  qed
qed

definition pool_inv :: "('k, 'v) Pool \<Rightarrow> bool" where
  "pool_inv p \<longleftrightarrow> gor_ok p \<and> addr_ok p \<and> strand_ok p"

text \<open>What a change outside the goroutines and the running flags preserves.\<close>

lemma gor_ok_cong:
  assumes "gor_ok p" "gors q = gors p" "nextCtx q = nextCtx p" "length (heap p) \<le> length (heap q)"
    "\<And>a. a < length (heap p) \<Longrightarrow> e_running (heap q ! a) = e_running (heap p ! a) \<and> e_cancel (heap q ! a) = e_cancel (heap p ! a)"
    "\<And>a. length (heap p) \<le> a \<Longrightarrow> a < length (heap q) \<Longrightarrow> \<not> e_running (heap q ! a)"
  shows "gor_ok q"
proof (rule gor_okI)
  fix g r assume "gors q g = Some r"
  then have r: "gors p g = Some r" using assms(2) by simp
  show "g_addr r < length (heap q) \<and> g < nextCtx q \<and> (g_pc r \<noteq> Reaping \<longrightarrow>
      e_running (heap q ! g_addr r) \<and> e_cancel (heap q ! g_addr r) = Some g)"
    using gor_okD(1-3) [OF assms(1) r] assms(3-5) by auto
next
  fix a assume a: "a < length (heap q)" "e_running (heap q ! a)"
  then have "a < length (heap p)" using assms(6) by (meson not_less)
  then show "\<exists>g r. e_cancel (heap q ! a) = Some g \<and> gors q g = Some r \<and> g_addr r = a \<and> g_pc r \<noteq> Reaping"
    using gor_okD(4) [OF assms(1), of a] a(2) assms(2,5) by auto
qed

lemma delete_subset: "ka \<in> set (AList.delete k xs) \<Longrightarrow> ka \<in> set xs"
  by (simp add: AList.delete_eq)

lemma update_subset: "ka \<in> set (AList.update k v xs) \<Longrightarrow> ka \<in> set xs \<or> ka = (k, v)"
  by (induction xs) (auto split: if_splits)

lemma getOrCreate_inv:
  assumes "pool_inv p" "getOrCreate k p = (a, q)"
  shows "pool_inv q \<and> a < length (heap q) \<and> callers q = callers p"
proof (cases "map_of (entries p) k")
  case (Some b)
  then show ?thesis using assms map_of_SomeD [OF Some] by (auto simp: getOrCreate_def pool_inv_def addr_ok_def)
next
  case None
  then have q: "a = length (heap p)" "q = p\<lparr>heap := heap p @ [\<lparr>e_slot = FIFOSlot (bufLen p), e_running = False, e_cancel = None\<rparr>],
                   entries := AList.update k (length (heap p)) (entries p)\<rparr>"
    using assms(2) by (auto simp: getOrCreate_def)
  have "gor_ok q" by (rule gor_ok_cong [of p]) (use assms(1) in \<open>auto simp: q pool_inv_def nth_append\<close>)
  moreover have "addr_ok q"
    using assms(1) by (auto simp: q pool_inv_def addr_ok_def nth_append fifo_inv_def FIFOSlot_def less_Suc_eq
        dest: update_subset)
  moreover have "served q (snd ka)" if "ka \<in> set (entries q)" "strand_ok p" "flushed p" "parent p = CtxLive" for ka
    using update_subset [of ka k "length (heap p)" "entries p"] that assms(1)
    by (auto simp: q served_def strand_ok_def pool_inv_def addr_ok_def nth_append FIFOSlot_def)
  then have "strand_ok q" using assms(1) by (auto simp: q pool_inv_def strand_ok_def)
  ultimately show ?thesis by (simp add: pool_inv_def q)
qed

lemma gor_ok_same: "gor_ok p \<Longrightarrow> gors q = gors p \<Longrightarrow> nextCtx q = nextCtx p \<Longrightarrow> heap q = heap p \<Longrightarrow> gor_ok q"
  by (simp add: gor_ok_def)

lemma served_mono:
  assumes "served p x" "e_slot (heap q ! x) = e_slot (heap p ! x)"
    "e_running (heap p ! x) \<Longrightarrow> e_running (heap q ! x)"
    "\<And>j l. callers p j = Some (Sent l x) \<Longrightarrow> callers q j = Some (Sent l x)"
  shows "served q x"
  using assms unfolding served_def by metis

lemma step_DeliverGet:
  assumes inv: "pool_inv p" and s: "pool_step (DeliverGet i k v) p = Some q"
  shows "pool_inv q"
proof -
  have g: "gor_ok p" and a: "addr_ok p" and st: "strand_ok p" using inv by (auto simp: pool_inv_def)
  obtain a' p' where o: "getOrCreate k p = (a', p')" by fastforce
  note gi = getOrCreate_inv [OF inv o]
  have q: "q = p'\<lparr>callers := (callers p')(i \<mapsto> Got k v a')\<rparr>" "callers p' i = None"
    using s o gi by (auto split: if_splits)
  have "callers q j = Some (Sent l b)" if "callers p' j = Some (Sent l b)" for j l b
    using that q(2) by (cases "j = i") (auto simp: q(1))
  then have "served q b" if "served p' b" for b by (intro served_mono [OF that]) (simp_all add: q(1))
  moreover have "entries q = entries p'" "flushed q = flushed p'" "parent q = parent p'" by (simp_all add: q)
  ultimately have "strand_ok q" using gi by (simp add: pool_inv_def strand_ok_def)
  moreover have "gor_ok q" using gi by (auto simp: pool_inv_def gor_ok_def q)
  moreover have "addr_ok q" using gi by (auto simp: pool_inv_def addr_ok_def q)
  ultimately show ?thesis by (simp add: pool_inv_def)
qed

lemma step_DeliverSend:
  assumes inv: "pool_inv p" and s: "pool_step (DeliverSend i) p = Some q"
  shows "pool_inv q"
proof -
  have g: "gor_ok p" and a: "addr_ok p" and st: "strand_ok p" using inv by (auto simp: pool_inv_def)
  obtain k v b where c: "callers p i = Some (Got k v b)"
      and q: "q = (upd_entry b (\<lambda>e. e\<lparr>e_slot := fifo_Send v (e_slot e)\<rparr>) p)\<lparr>callers := (callers p)(i \<mapsto> Sent k b)\<rparr>"
    using s by (auto split: option.splits caller.splits)
  have b: "b < length (heap p)" using a c by (auto simp: addr_ok_def)
  have "gor_ok q" unfolding q by (rule gor_ok_cong [of p]) (use g b in auto)
  moreover have "addr_ok q" using a b unfolding q
    by (auto simp: addr_ok_def fifo.send_inv)
  moreover have "served q x" if "served p x" for x
  proof (cases "x = b")
    case True
    then have "callers q i = Some (Sent k x)" by (simp add: q)
    then show ?thesis unfolding served_def by blast
  next
    case False
    have "callers q j = Some (Sent l x)" if "callers p j = Some (Sent l x)" for j l
      using that c by (cases "j = i") (auto simp: q)
    then show ?thesis using False b by (intro served_mono [OF that]) (simp_all add: q)
  qed
  then have "strand_ok q" using st by (simp add: strand_ok_def) (simp add: q)
  ultimately show ?thesis by (simp add: pool_inv_def)
qed

lemma step_DeliverEnsure:
  assumes inv: "pool_inv p" and s: "pool_step (DeliverEnsure i) p = Some q"
  shows "pool_inv q"
proof -
  have g: "gor_ok p" and a: "addr_ok p" and st: "strand_ok p" using inv by (auto simp: pool_inv_def)
  obtain k b where c: "callers p i = Some (Sent k b)"
      and q: "q = (if workerFactory p then ensureRunning k b (p\<lparr>callers := (callers p)(i := None)\<rparr>)
                   else p\<lparr>callers := (callers p)(i := None)\<rparr>)"
    using s by (auto simp: Let_def split: option.splits caller.splits)
  let ?p = "p\<lparr>callers := (callers p)(i := None)\<rparr>"
  have b: "b < length (heap ?p)" using a c by (auto simp: addr_ok_def)
  have g1: "gor_ok ?p" using g by (simp add: gor_ok_def)
  have a1: "addr_ok ?p" using a by (auto simp: addr_ok_def)
  have "served (ensureRunning k b ?p) x" if "served p x" "parent p = CtxLive" for x
  proof (cases "x = b")
    case True
    then show ?thesis using ensureRunning_heap(3) [OF b] that(2) by (simp add: served_def)
  next
    case False
    have "callers ?p j = Some (Sent l x)" if "callers p j = Some (Sent l x)" for j l
      using that c False by (cases "j = i") auto
    then show ?thesis using ensureRunning_heap(1,2) [OF b] by (intro served_mono [OF that(1)]) simp_all
  qed
  then have "strand_ok q" using st a unfolding q strand_ok_def by (auto simp: addr_ok_def)
  then show ?thesis
    using ensureRunning_gor_ok [OF g1 b] ensureRunning_addr_ok [OF a1 b] g1 a1 by (auto simp: pool_inv_def q)
qed

lemma step_RemoveUnlink:
  assumes inv: "pool_inv p" and s: "pool_step (RemoveUnlink i k) p = Some q"
  shows "pool_inv q"
proof -
  have g: "gor_ok p" and a: "addr_ok p" and st: "strand_ok p" using inv by (auto simp: pool_inv_def)
  consider "q = p" | b where "map_of (entries p) k = Some b"
      "q = p\<lparr>entries := AList.delete k (entries p), removers := (removers p)(i \<mapsto> Unlinked b)\<rparr>"
    using s by (auto split: option.splits if_splits)
  then show ?thesis
  proof cases
    case (2 b)
    then have "b < length (heap p)" using a map_of_SomeD [OF 2(1)] by (auto simp: addr_ok_def)
    then have "addr_ok q" using a by (simp add: 2 addr_ok_def) (use delete_subset in fast)
    moreover have "strand_ok q" using st delete_subset by (fastforce simp: 2 strand_ok_def served_def)
    ultimately show ?thesis using gor_ok_same [OF g, of q] by (simp add: pool_inv_def 2)
  qed (use inv in simp)
qed

lemma step_RemoveCancel:
  assumes inv: "pool_inv p" and s: "pool_step (RemoveCancel i) p = Some q"
  shows "pool_inv q"
proof -
  have g: "gor_ok p" and a: "addr_ok p" and st: "strand_ok p" using inv by (auto simp: pool_inv_def)
  obtain b where c: "removers p i = Some (Unlinked b)"
      and q: "q = p\<lparr>cancelled := (case e_cancel (heap p ! b) of None \<Rightarrow> cancelled p | Some c \<Rightarrow> (cancelled p)(c := True)),
                removers := (removers p)(i \<mapsto> Cancelled b)\<rparr>"
    using s by (auto split: option.splits remover.splits)
  have "addr_ok q" using a c by (simp add: q addr_ok_def)
  moreover have "strand_ok q" using st by (simp add: q strand_ok_def served_def)
  ultimately show ?thesis using gor_ok_same [OF g, of q] by (simp add: pool_inv_def q)
qed

lemma step_RemoveDrain:
  assumes inv: "pool_inv p" and s: "pool_step (RemoveDrain i) p = Some q"
  shows "pool_inv q"
proof -
  have g: "gor_ok p" and a: "addr_ok p" and st: "strand_ok p" using inv by (auto simp: pool_inv_def)
  obtain b where c: "removers p i = Some (Cancelled b)"
      and q: "q = (upd_entry b (\<lambda>e. e\<lparr>e_slot := fifo_Drain (e_slot e)\<rparr>) p)\<lparr>removers := (removers p)(i := None)\<rparr>"
    using s by (auto split: option.splits remover.splits)
  have b: "b < length (heap p)" using a c by (auto simp: addr_ok_def)
  have "gor_ok q" unfolding q by (rule gor_ok_cong [of p]) (use g b in auto)
  moreover have "fifo_inv (fifo_Drain (e_slot (heap p ! b)))"
    using a b by (simp add: addr_ok_def fifo_inv_def fifo_Drain_def)
  then have "addr_ok q" using a b unfolding q by (auto simp: addr_ok_def)
  moreover have "strand_ok q" using st b unfolding q strand_ok_def served_def
    by (auto simp: fifo_Drain_def split: if_splits)
  ultimately show ?thesis by (simp add: pool_inv_def)
qed

lemma step_RegisterStore:
  assumes inv: "pool_inv p" and s: "pool_step RegisterStore p = Some q"
  shows "pool_inv q"
proof -
  have g: "gor_ok p" and a: "addr_ok p" using inv by (auto simp: pool_inv_def)
  have q: "q = p\<lparr>parent := CtxLive, workerFactory := True\<rparr>" "\<not> workerFactory p" using s by (auto split: if_splits)
  have "\<not> flushed p" using q(2) a by (auto simp: addr_ok_def)
  then have "addr_ok q" "strand_ok q" using a by (simp_all add: q(1) addr_ok_def strand_ok_def)
  then show ?thesis using gor_ok_same [OF g, of q] by (simp add: pool_inv_def q(1))
qed

lemma step_RegisterFlush:
  assumes inv: "pool_inv p" and s: "pool_step RegisterFlush p = Some q"
  shows "pool_inv q"
proof -
  have g: "gor_ok p" and a: "addr_ok p" using inv by (auto simp: pool_inv_def)
  let ?f = "fold flushOne (entries p) p"
  have q: "q = ?f\<lparr>flushed := True\<rparr>" "workerFactory p" using s by (auto split: if_splits)
  have "\<forall>ka \<in> set (entries p). snd ka < length (heap p)" using a by (simp add: addr_ok_def)
  note f = flushAll [OF g a this]
  have "parent p \<noteq> CtxNone" using a q(2) by (simp add: addr_ok_def)
  then have "addr_ok q" using f q(2) by (simp add: q(1) addr_ok_def)
  moreover have "served q b = served ?f b" for b by (simp add: q(1) served_def)
  then have "strand_ok q" using f by (simp add: strand_ok_def) (simp add: q(1))
  ultimately show ?thesis using gor_ok_same [of ?f q] f by (simp add: pool_inv_def q(1))
qed

lemma step_StopPool:
  assumes inv: "pool_inv p" and s: "pool_step StopPool p = Some q"
  shows "pool_inv q"
proof -
  have g: "gor_ok p" and a: "addr_ok p" using inv by (auto simp: pool_inv_def)
  have q: "q = p\<lparr>parent := (if parent p = CtxNone then CtxNone else CtxDone)\<rparr>" using s by simp
  have "addr_ok q" "strand_ok q" using a by (simp_all add: q addr_ok_def strand_ok_def)
  then show ?thesis using gor_ok_same [OF g, of q] by (simp add: pool_inv_def q)
qed

lemma step_GStart:
  assumes inv: "pool_inv p" and s: "pool_step (GStart x) p = Some q"
  shows "pool_inv q"
proof -
  have g: "gor_ok p" and a: "addr_ok p" and st: "strand_ok p" using inv by (auto simp: pool_inv_def)
  obtain r where r: "gors p x = Some r" "g_pc r = Starting"
      "q = p\<lparr>gors := (gors p)(x \<mapsto> r\<lparr>g_pc := Body\<rparr>), gauge := gauge p + 1\<rparr>"
    using s by (auto split: option.splits if_splits)
  then show ?thesis using set_pc [OF g r(1), of Body] a st
    by (auto simp: pool_inv_def gor_ok_def addr_ok_def strand_ok_def served_def)
qed

lemma step_GTake:
  assumes inv: "pool_inv p" and s: "pool_step (GTake x) p = Some q"
  shows "pool_inv q"
proof -
  have g: "gor_ok p" and a: "addr_ok p" and st: "strand_ok p" using inv by (auto simp: pool_inv_def)
  obtain r v s' where r: "gors p x = Some r" "fifo_take (e_slot (heap p ! g_addr r)) = Some (v, s')"
      and q: "q = (upd_entry (g_addr r) (\<lambda>e. e\<lparr>e_slot := s'\<rparr>) p)\<lparr>handled := handled p @ [(g_key r, v)]\<rparr>"
      and pc: "g_pc r = Body"
    using s by (auto split: option.splits if_splits prod.splits)
  have b: "g_addr r < length (heap p)" using gor_okD(1) [OF g r(1)] .
  have run: "e_running (heap p ! g_addr r)" using gor_okD(3) [OF g r(1)] pc by simp
  have "fifo_inv s'" using fifo_take_inv [OF _ r(2)] a b by (simp add: addr_ok_def)
  then have "addr_ok q" using a b unfolding q by (auto simp: addr_ok_def)
  moreover have "gor_ok q" unfolding q by (rule gor_ok_cong [of p]) (use g b in auto)
  moreover have "strand_ok q" using st b run unfolding q strand_ok_def served_def by auto
  ultimately show ?thesis by (simp add: pool_inv_def)
qed

lemma step_GIdle:
  assumes inv: "pool_inv p" and s: "pool_step (GIdle x) p = Some q"
  shows "pool_inv q"
proof -
  have g: "gor_ok p" and a: "addr_ok p" and st: "strand_ok p" using inv by (auto simp: pool_inv_def)
  obtain r where r: "gors p x = Some r" "g_pc r = Body" "q = p\<lparr>gors := (gors p)(x \<mapsto> r\<lparr>g_pc := Leaving\<rparr>)\<rparr>"
    using s by (auto split: option.splits if_splits)
  then show ?thesis using set_pc [OF g r(1), of Leaving] a st
    by (auto simp: pool_inv_def addr_ok_def strand_ok_def served_def)
qed

lemma step_GDone:
  assumes inv: "pool_inv p" and s: "pool_step (GDone x) p = Some q"
  shows "pool_inv q"
proof -
  have g: "gor_ok p" and a: "addr_ok p" and st: "strand_ok p" using inv by (auto simp: pool_inv_def)
  obtain r where r: "gors p x = Some r" "g_pc r = Body" "q = p\<lparr>gors := (gors p)(x \<mapsto> r\<lparr>g_pc := Leaving\<rparr>)\<rparr>"
    using s by (auto split: option.splits if_splits)
  then show ?thesis using set_pc [OF g r(1), of Leaving] a st
    by (auto simp: pool_inv_def addr_ok_def strand_ok_def served_def)
qed

lemma step_GDefer:
  assumes inv: "pool_inv p" and s: "pool_step (GDefer x) p = Some q"
  shows "pool_inv q"
proof -
  have g: "gor_ok p" and a: "addr_ok p" and st: "strand_ok p" using inv by (auto simp: pool_inv_def)
  obtain r where r: "gors p x = Some r" "g_pc r = Leaving" "q = deferred x r p"
    using s by (auto split: option.splits if_splits)
  then show ?thesis using deferred_ok [OF g a r(1,2)] st by (simp add: pool_inv_def)
qed

lemma step_GReap:
  assumes inv: "pool_inv p" and s: "pool_step (GReap x) p = Some q"
  shows "pool_inv q"
proof -
  have g: "gor_ok p" and a: "addr_ok p" and st: "strand_ok p" using inv by (auto simp: pool_inv_def)
  obtain r where r: "gors p x = Some r" "g_pc r = Reaping" using s by (auto split: option.splits if_splits)
  define es where "es = (if \<not> e_running (heap p ! g_addr r) \<and> fifo_Len (e_slot (heap p ! g_addr r)) = 0
    then AList.delete (g_key r) (entries p) else entries p)"
  have q: "q = p\<lparr>gors := (gors p)(x := None), entries := es\<rparr>"
    using s r by (auto simp: Let_def es_def)
  have es: "es \<in> {entries p, AList.delete (g_key r) (entries p)}" by (simp add: es_def)
  have sub: "set es \<subseteq> set (entries p)" using es delete_subset by auto
  have "\<forall>ka \<in> set es. snd ka < length (heap p)" using a sub unfolding addr_ok_def by blast
  then have "addr_ok q" using a by (simp add: q addr_ok_def)
  moreover have "strand_ok q" using st sub unfolding strand_ok_def served_def q by auto
  moreover have "gor_ok q"
    using gor_ok_same [OF drop_reaping [OF g r], of q] by (simp add: q)
  ultimately show ?thesis by (simp add: pool_inv_def)
qed

lemma pool_step_inv:
  assumes "pool_inv p" "pool_step ev p = Some q"
  shows "pool_inv q"
  using assms
  by (cases ev)
    (blast intro: step_DeliverGet step_DeliverSend step_DeliverEnsure step_RemoveUnlink step_RemoveCancel step_RemoveDrain step_RegisterStore step_RegisterFlush step_StopPool step_GStart step_GTake step_GIdle step_GDone step_GDefer step_GReap)+

section \<open>Properties of every run\<close>

lemma New_inv: "pool_inv (New auto n)"
  by (simp add: pool_inv_def gor_ok_def addr_ok_def strand_ok_def New_def)

lemma run_pool_inv: "run_pool evs p = Some q \<Longrightarrow> pool_inv p \<Longrightarrow> pool_inv q"
proof (induction evs arbitrary: p)
  case (Cons ev evs)
  then show ?case using pool_step_inv by (auto split: Option.bind_splits)
qed simp

text \<open>A goroutine works on its entry until its deferred function has run.\<close>

definition serves :: "('k, 'v) Pool \<Rightarrow> nat \<Rightarrow> nat \<Rightarrow> bool" where
  "serves p g a \<longleftrightarrow> (\<exists>r. gors p g = Some r \<and> g_addr r = a \<and> g_pc r \<noteq> Reaping)"

text \<open>
  C24.  Whatever the interleaving of deliveries, removals, registration, shutdown and goroutine
  steps, an entry is served by at most one goroutine at a time, and by one exactly when its
  running flag is set.
\<close>

theorem one_goroutine_per_entry:
  assumes "run_pool evs (New auto n) = Some p" "a < length (heap p)"
  shows "(\<forall>g g'. serves p g a \<longrightarrow> serves p g' a \<longrightarrow> g = g') \<and> (e_running (heap p ! a) \<longleftrightarrow> (\<exists>g. serves p g a))"
proof -
  have g: "gor_ok p" using run_pool_inv [OF assms(1) New_inv] by (simp add: pool_inv_def)
  have c: "e_running (heap p ! a) \<and> e_cancel (heap p ! a) = Some x" if "serves p x a" for x
    using that gor_okD(3) [OF g] by (auto simp: serves_def)
  have "x = y" if "serves p x a" "serves p y a" for x y using c [OF that(1)] c [OF that(2)] by simp
  moreover have "e_running (heap p ! a) \<Longrightarrow> \<exists>x. serves p x a"
    using gor_okD(4) [OF g assms(2)] by (auto simp: serves_def)
  ultimately show ?thesis using c by blast
qed

text \<open>
  C25.  No delivered value is stranded: once the pool is registered and while its context lives, an
  entry of the map with a value in its slot either is served by a goroutine, or some call of
  \<open>Deliver\<close> has sent to it and is about to start one.
\<close>

theorem no_value_stranded:
  assumes "run_pool evs (New auto n) = Some p" "flushed p" "parent p = CtxLive"
    and "(k, a) \<in> set (entries p)" "queue (e_slot (heap p ! a)) \<noteq> []"
  shows "(\<exists>g. serves p g a) \<or> (\<exists>i k. callers p i = Some (Sent k a))"
proof -
  have inv: "gor_ok p" "addr_ok p" "strand_ok p"
    using run_pool_inv [OF assms(1) New_inv] by (simp_all add: pool_inv_def)
  have "served p a" using inv(3) assms(2-4) by (force simp: strand_ok_def)
  moreover have "a < length (heap p)" using inv(2) assms(4) by (force simp: addr_ok_def)
  ultimately show ?thesis
    using assms(5) gor_okD(4) [OF inv(1), of a] by (auto simp: served_def serves_def)
qed

text \<open>A goroutine in its body is never blocked while its slot holds a value.\<close>

lemma body_takes:
  assumes "run_pool evs (New auto n) = Some p" "gors p g = Some r" "g_pc r = Body"
    "queue (e_slot (heap p ! g_addr r)) = v # vs"
  shows "\<exists>q. pool_step (GTake g) p = Some q \<and> handled q = handled p @ [(g_key r, v)]"
proof -
  have inv: "gor_ok p" "addr_ok p" using run_pool_inv [OF assms(1) New_inv] by (simp_all add: pool_inv_def)
  have "fifo_inv (e_slot (heap p ! g_addr r))"
    using inv(2) gor_okD(1) [OF inv(1) assms(2)] by (simp add: addr_ok_def)
  from fifo.take_head [OF this assms(4)] show ?thesis using assms(2,3) by auto
qed

section \<open>One goroutine per key\<close>

text \<open>Without removals every holder of an entry holds the one that the map has for its key.\<close>

definition keyed :: "('k, 'v) Pool \<Rightarrow> bool" where
  "keyed p \<longleftrightarrow> \<not> autoRemoveOnIdle p \<and> distinct (map fst (entries p)) \<and>
     (\<forall>g r. gors p g = Some r \<longrightarrow> map_of (entries p) (g_key r) = Some (g_addr r) \<and> g_pc r \<noteq> Reaping) \<and>
     (\<forall>i k v a. callers p i = Some (Got k v a) \<longrightarrow> map_of (entries p) k = Some a) \<and>
     (\<forall>i k a. callers p i = Some (Sent k a) \<longrightarrow> map_of (entries p) k = Some a)"

fun is_remove :: "('k, 'v) event \<Rightarrow> bool" where
  "is_remove (RemoveUnlink i k) = True"
| "is_remove ev = False"

lemma keyed_ensureRunning: "keyed p \<Longrightarrow> map_of (entries p) k = Some a \<Longrightarrow> keyed (ensureRunning k a p)"
  by (auto simp: keyed_def ensureRunning_def)

lemma keyed_flush:
  "keyed p \<Longrightarrow> set es \<subseteq> set (entries p) \<Longrightarrow> keyed (fold flushOne es p)"
proof (induction es arbitrary: p)
  case (Cons ka es)
  have "map_of (entries p) (fst ka) = Some (snd ka)"
    using Cons.prems by (simp add: keyed_def)
  then have "keyed (flushOne ka p)" using Cons.prems(1) by (simp add: flushOne_def keyed_ensureRunning)
  then show ?case using Cons.IH [of "flushOne ka p"] Cons.prems(2) by simp
qed simp

lemma keyed_getOrCreate:
  assumes "keyed p" "getOrCreate k p = (a, q)"
  shows "keyed q \<and> map_of (entries q) k = Some a \<and> callers q = callers p"
proof (cases "map_of (entries p) k")
  case None
  then have e: "entries q = AList.update k a (entries p)" and q: "gors q = gors p" "callers q = callers p"
      "autoRemoveOnIdle q = autoRemoveOnIdle p"
    using assms(2) by (auto simp: getOrCreate_def)
  have up: "map_of (entries q) k' = Some b" if "map_of (entries p) k' = Some b" for k' b
    using None that unfolding e AList.update_conv' by auto
  have d: "distinct (map fst (entries q))" using assms(1) unfolding e keyed_def by (simp add: AList.distinct_update)
  have "keyed q" using assms(1) up d unfolding keyed_def q by blast
  then show ?thesis using q(2) by (simp add: e AList.update_conv')
qed (use assms in \<open>auto simp: getOrCreate_def\<close>)

lemma keyed_deferred: "keyed p \<Longrightarrow> gors p g = Some r \<Longrightarrow> keyed (deferred g r p)"
  by (auto simp: keyed_def deferred_def Let_def)

lemma keyed_step:
  assumes k: "keyed p" and s: "pool_step ev p = Some q" and n: "\<not> is_remove ev"
  shows "keyed q"
proof (cases ev)
  case (DeliverGet i key v)
  obtain a p' where o: "getOrCreate key p = (a, p')" by fastforce
  then show ?thesis using s DeliverGet keyed_getOrCreate [OF k o] by (auto simp: keyed_def split: if_splits)
next
  case (DeliverEnsure i)
  then obtain key a where c: "callers p i = Some (Sent key a)"
      and q: "q = (if workerFactory p then ensureRunning key a (p\<lparr>callers := (callers p)(i := None)\<rparr>)
                   else p\<lparr>callers := (callers p)(i := None)\<rparr>)"
    using s by (auto simp: Let_def split: option.splits caller.splits)
  have "keyed (p\<lparr>callers := (callers p)(i := None)\<rparr>)" "map_of (entries p) key = Some a"
    using k c by (auto simp: keyed_def)
  then show ?thesis using q by (simp add: keyed_ensureRunning)
next
  case RegisterFlush
  then have "q = (fold flushOne (entries p) p)\<lparr>flushed := True\<rparr>" using s by (auto split: if_splits)
  then show ?thesis using keyed_flush [OF k subset_refl] by (simp add: keyed_def)
next
  case (GDefer g)
  then show ?thesis using s keyed_deferred [OF k] by (auto split: option.splits if_splits)
qed (use k s n in \<open>auto simp: keyed_def Let_def split: option.splits if_splits caller.splits remover.splits prod.splits\<close>)

lemma run_pool_keyed: "run_pool evs p = Some q \<Longrightarrow> keyed p \<Longrightarrow> \<not> list_ex is_remove evs \<Longrightarrow> keyed q"
proof (induction evs arbitrary: p)
  case (Cons ev evs)
  then show ?case using keyed_step by (auto split: Option.bind_splits)
qed simp

text \<open>
  In a pool that neither removes idle entries nor is asked to remove a key, two goroutines
  with the same key are the same goroutine.
\<close>

lemma one_goroutine_per_key:
  assumes "run_pool evs (New False n) = Some p" "\<not> list_ex is_remove evs"
    and "gors p g = Some r" "gors p g' = Some r'" "g_key r = g_key r'"
  shows "g = g'"
proof -
  have "keyed (New False n :: ('a, 'b) Pool)" by (simp add: keyed_def New_def)
  then have k: "keyed p" using run_pool_keyed [OF assms(1)] assms(2) by blast
  have g: "gor_ok p" using run_pool_inv [OF assms(1) New_inv] by (simp add: pool_inv_def)
  have "map_of (entries p) (g_key r) = Some (g_addr r)" "map_of (entries p) (g_key r') = Some (g_addr r')"
    and pc: "g_pc r \<noteq> Reaping" "g_pc r' \<noteq> Reaping"
    using k assms(3,4) unfolding keyed_def by blast+
  then have "g_addr r = g_addr r'" using assms(5) by simp
  with pc show ?thesis using gor_okD(3) [OF g assms(3)] gor_okD(3) [OF g assms(4)] by simp
qed

text \<open>The run in which a delivery obtains the entry just before its idle goroutine removes it.\<close>

definition orphan_run :: "(nat, nat) event list" where
  "orphan_run =
     [RegisterStore, RegisterFlush, DeliverGet 0 7 1, DeliverSend 0, DeliverEnsure 0, GStart 0, GTake 0, GIdle 0,
      DeliverGet 1 7 2, GDefer 0, GReap 0, DeliverSend 1, DeliverEnsure 1, GStart 1,
      DeliverGet 2 7 3, DeliverSend 2, DeliverEnsure 2, GStart 2, GTake 2, GTake 1]"

text \<open>
  With removal of idle entries the promise of one goroutine per key fails: a delivery that
  obtained the entry before it was removed starts a goroutine on the orphaned entry, while later
  deliveries of the same key start another; the two goroutines run at the same time and the second
  and third values of the key are handled in the wrong order.
\<close>

lemma auto_remove_two_goroutines:
  "\<exists>p. run_pool orphan_run (New True 100) = Some p \<and>
     (\<exists>r r'. gors p 1 = Some r \<and> gors p 2 = Some r' \<and> g_key r = 7 \<and> g_key r' = 7 \<and> g_pc r = Body \<and> g_pc r' = Body) \<and>
     handled p = [(7, 1), (7, 3), (7, 2)]"
proof -
  let ?p = "the (run_pool orphan_run (New True 100))"
  have "run_pool orphan_run (New True 100) \<noteq> None" by code_simp
  then have "run_pool orphan_run (New True 100) = Some ?p" by simp
  moreover have "gors ?p 1 = Some \<lparr>g_key = 7, g_addr = 0, g_pc = Body\<rparr>"
      "gors ?p 2 = Some \<lparr>g_key = 7, g_addr = 1, g_pc = Body\<rparr>" "handled ?p = [(7, 1), (7, 3), (7, 2)]"
    by code_simp+
  ultimately show ?thesis by (intro exI [of _ ?p]) simp
qed

text \<open>A goroutine that is restarted for a late value fires the spawn hook twice.\<close>

definition restart_run :: "(nat, nat) event list" where
  "restart_run =
     [RegisterStore, RegisterFlush, DeliverGet 0 7 1, DeliverSend 0, DeliverEnsure 0, GStart 0, GTake 0, GIdle 0,
      DeliverGet 0 7 2, DeliverSend 0, GDefer 0, DeliverEnsure 0, GStart 1]"

lemma gauge_drifts:
  "gauge (the (run_pool restart_run (New False 100))) = 2"
  "ActiveWorkers (the (run_pool restart_run (New False 100))) = 1"
  by code_simp+

theorem one_goroutine_per_entry_witness:
  "serves (the (run_pool (take 6 orphan_run) (New True 100))) 0 0 \<and>
   {g. serves (the (run_pool (take 6 orphan_run) (New True 100))) g 0} = {0}"
proof -
  let ?p = "the (run_pool (take 6 orphan_run) (New True 100))"
  have "run_pool (take 6 orphan_run) (New True 100) \<noteq> None" by code_simp
  then have r: "run_pool (take 6 orphan_run) (New True 100) = Some ?p" by simp
  have l: "0 < length (heap ?p)" by code_simp
  have "gors ?p 0 = Some \<lparr>g_key = 7, g_addr = 0, g_pc = Body\<rparr>" by code_simp
  then have s: "serves ?p 0 0" by (simp add: serves_def)
  then show ?thesis using one_goroutine_per_entry [OF r l] by blast
qed

theorem no_value_stranded_witness:
  "(\<exists>g. serves (the (run_pool (take 5 orphan_run) (New True 100))) g 0) \<or>
   (\<exists>i k. callers (the (run_pool (take 5 orphan_run) (New True 100))) i = Some (Sent k 0))"
proof -
  let ?p = "the (run_pool (take 5 orphan_run) (New True 100))"
  have "run_pool (take 5 orphan_run) (New True 100) \<noteq> None" by code_simp
  then have r: "run_pool (take 5 orphan_run) (New True 100) = Some ?p" by simp
  have "flushed ?p" "parent ?p = CtxLive" "(7, 0) \<in> set (entries ?p)" "queue (e_slot (heap ?p ! 0)) \<noteq> []"
    by code_simp+
  then show ?thesis by (rule no_value_stranded [OF r])
qed

lemma one_goroutine_per_key_witness:
  "\<forall>g r. gors (the (run_pool restart_run (New False 100))) g = Some r \<longrightarrow> g_key r = 7 \<longrightarrow> g = 1"
proof -
  let ?p = "the (run_pool restart_run (New False 100))"
  have "run_pool restart_run (New False 100) \<noteq> None" by code_simp
  then have r: "run_pool restart_run (New False 100) = Some ?p" by simp
  have n: "\<not> list_ex is_remove restart_run" by code_simp
  have "gors ?p 1 = Some \<lparr>g_key = 7, g_addr = 0, g_pc = Body\<rparr>" by code_simp
  from one_goroutine_per_key [OF r n _ this] show ?thesis by simp
qed

end
