(* ===== verification/Runner.thy ===== *)
theory Runner
  imports Restore
begin

text \<open>
  The runner process (\<^verbatim>\<open>cmd/runner\<close>): the accumulator that collects what an executor
  reports during a shutdown and flushes it into the restore ConfigMap (\<^verbatim>\<open>state/accumulator.go\<close>),
  the loader in front of a wake-up (\<^verbatim>\<open>state/loader.go\<close>), the execution of one operation
  (\<^verbatim>\<open>app/runner.go\<close>), and the contract of an executor (\<^verbatim>\<open>internal/executor/interface.go\<close>)
  as the locale \<open>executor\<close>, in which the round trip over a whole cycle is proved once for all
  executors.

  The outside world an executor changes is a type variable; a shutdown returns its result (the
  message of \<open>executor.Result\<close>), the reported pairs of key and state in order, and the new world.
  A reported value is represented by its JSON encoding.
\<close>

record RunnerConfig =
  rc_Operation :: string
  rc_Plan :: string
  rc_Target :: string
  rc_TargetType :: string
  rc_CycleID :: string

record ExecRestoreData =
  xr_Type :: string
  xr_Data :: "(string \<times> json) list"
  xr_IsLive :: bool

type_synonym 'w shutdown_fn = "'w \<Rightarrow> string res \<times> (string \<times> json) list \<times> 'w"
type_synonym 'w wakeup_fn = "ExecRestoreData \<Rightarrow> 'w \<Rightarrow> string res \<times> 'w"

section \<open>The accumulator\<close>

record Accumulator =
  acc_state :: "(string \<times> json) list"
  acc_reportedAt :: "(string \<times> Time) list"

definition newAccumulator :: Accumulator where
  "newAccumulator = \<lparr>acc_state = [], acc_reportedAt = []\<rparr>"

text \<open>
  A value that encodes to an object (or to \<open>null\<close>, the nil map) becomes a map; any other value
  does not decode into a map and is kept as it is.
\<close>

definition normalizeStateValue :: "json \<Rightarrow> json res" where
  "normalizeStateValue v =
     (case v of
        JObj m \<Rightarrow> Inr (JObj m)
      | JNull \<Rightarrow> Inr JNull
      | _ \<Rightarrow> Inl (Wrap ''unmarshal to map: '' (ErrMsg ''cannot unmarshal into map'')))"

definition add :: "Time \<Rightarrow> string \<Rightarrow> json \<Rightarrow> Accumulator \<Rightarrow> Accumulator" where
  "add t key v acc =
     \<lparr>acc_state = AList.update key (case normalizeStateValue v of Inl _ \<Rightarrow> v | Inr m \<Rightarrow> m) (acc_state acc),
      acc_reportedAt = AList.update key t (acc_reportedAt acc)\<rparr>"

text \<open>The callbacks of one shutdown; \<open>clock i\<close> is the reading at the \<open>i\<close>-th callback.\<close>

definition addAll :: "(nat \<Rightarrow> Time) \<Rightarrow> (string \<times> json) list \<Rightarrow> Accumulator" where
  "addAll clock reps = fold (\<lambda>(i, k, v). add (clock i) k v) (List.enumerate 0 reps) newAccumulator"

definition maxStale :: int where "maxStale = 3"

definition flushData :: "Time \<Rightarrow> RunnerConfig \<Rightarrow> Accumulator \<Rightarrow> Data" where
  "flushData t cfg acc =
     \<lparr>rd_Target = rc_Target cfg, rd_Executor = rc_TargetType cfg, Version = 1, IsLive = True, CycleID = '''',
      CreatedAt = t, CapturedAt = None, rd_State = acc_state acc,
      rd_Status = map (\<lambda>(k, r). (k, \<lparr>StaleCount = 0, LastReportedAt = Some r\<rparr>)) (acc_reportedAt acc)\<rparr>"

definition flush :: "cm_api \<Rightarrow> Time \<Rightarrow> RunnerConfig \<Rightarrow> Accumulator \<Rightarrow> store \<Rightarrow> go_error option \<times> store" where
  "flush api t cfg acc st =
     (case SaveState api t (rc_Plan cfg) (rc_Target cfg) (flushData t cfg acc) maxStale (rc_CycleID cfg) st of
        (Some e, st') \<Rightarrow> (Some (Wrap ''save state to ConfigMap: '' e), st')
      | (None, st') \<Rightarrow> (None, st'))"

section \<open>The loader\<close>

definition stale_key :: "Data \<Rightarrow> string \<Rightarrow> bool" where
  "stale_key d k = (case map_of (rd_Status d) k of None \<Rightarrow> False | Some s \<Rightarrow> StaleCount s > 0)"

definition LoadRestoreData :: "cm_api \<Rightarrow> RunnerConfig \<Rightarrow> store \<Rightarrow> ExecRestoreData res" where
  "LoadRestoreData api cfg st =
     (case Load api (rc_Target cfg) st of
        Inl e \<Rightarrow> Inl (Wrap ''load from ConfigMap: '' e)
      | Inr None \<Rightarrow> Inl (ErrMsg (''no restore data found for plan='' @ rc_Plan cfg @ '' target='' @ rc_Target cfg))
      | Inr (Some d) \<Rightarrow>
          Inr \<lparr>xr_Type = rd_Executor d, xr_Data = filter (\<lambda>(k, v). \<not> stale_key d k) (rd_State d),
               xr_IsLive = IsLive d\<rparr>)"

section \<open>One operation\<close>

text \<open>
  \<open>executeOperation\<close>.  The deferred flush runs after the result values have been set: the
  results are not named, so the assignment of a flush error to \<open>operationErr\<close> comes too late and
  the error only reaches the log.
\<close>

definition executeOperation ::
    "cm_api \<Rightarrow> (nat \<Rightarrow> Time) \<Rightarrow> Time \<Rightarrow> RunnerConfig \<Rightarrow> 'w shutdown_fn \<Rightarrow> 'w wakeup_fn \<Rightarrow> 'w \<times> store \<Rightarrow>
     string res \<times> 'w \<times> store" where
  "executeOperation api clock t cfg shutdown wakeup s =
     (case s of (w, st) \<Rightarrow>
      if rc_Operation cfg = ''shutdown'' then
        (case shutdown w of (result, reports, w') \<Rightarrow>
           (result, w', snd (flush api t cfg (addAll clock reports) st)))
      else if rc_Operation cfg = ''wakeup'' then
        (case LoadRestoreData api cfg st of
           Inl e \<Rightarrow> (Inl (Wrap ''load restore data: '' e), w, st)
         | Inr rd \<Rightarrow> (case wakeup rd w of (result, w') \<Rightarrow> (result, w', st)))
      else (Inl (ErrMsg (''unknown operation: '' @ rc_Operation cfg)), w, st))"

text \<open>
  \<open>run\<close>: the registered executor, the spec with its re-encoded parameters and connector, the
  validation, the operation, and the mark on the ConfigMap after a successful wake-up (whose
  error is only logged).  \<open>params\<close> is the outcome of decoding the target's parameters and
  \<open>buildSpec\<close> is \<open>buildExecutorSpec\<close>.
\<close>

record ('s, 'w) Executor =
  x_Validate :: "'s \<Rightarrow> go_error option"
  x_Shutdown :: "'s \<Rightarrow> 'w shutdown_fn"
  x_WakeUp :: "'s \<Rightarrow> 'w wakeup_fn"

definition run ::
    "cm_api \<Rightarrow> (nat \<Rightarrow> Time) \<Rightarrow> Time \<Rightarrow> RunnerConfig \<Rightarrow> (string \<Rightarrow> ('s, 'w) Executor option) \<Rightarrow> 'p res \<Rightarrow>
     ('p \<Rightarrow> 's res) \<Rightarrow> 'w \<times> store \<Rightarrow> string res \<times> 'w \<times> store" where
  "run api clock t cfg reg params buildSpec s =
     (case reg (rc_TargetType cfg) of
        None \<Rightarrow> (Inl (ErrMsg (''executor not found: '' @ rc_TargetType cfg)), s)
      | Some x \<Rightarrow>
          (case params of
             Inl e \<Rightarrow> (Inl (Wrap ''parse target params: '' e), s)
           | Inr p \<Rightarrow>
          (case buildSpec p of
             Inl e \<Rightarrow> (Inl (Wrap ''build executor spec: '' e), s)
           | Inr sp \<Rightarrow>
               (case x_Validate x sp of
                  Some e \<Rightarrow> (Inl (Wrap ''validate spec: '' e), s)
                | None \<Rightarrow>
                    (case executeOperation api clock t cfg (x_Shutdown x sp) (x_WakeUp x sp) s of
                       (Inl e, w, st) \<Rightarrow> (Inl e, w, st)
                     | (Inr msg, w, st) \<Rightarrow>
                         (Inr msg, w, if rc_Operation cfg = ''wakeup'' then snd (MarkTargetRestored api (rc_Target cfg) st)
                                      else st))))))"

section \<open>Facts about the accumulator\<close>

lemma add_state [simp]: "acc_state (add t k v acc) = AList.update k v (acc_state acc)"
  by (simp add: add_def normalizeStateValue_def split: json.splits)

lemma add_reportedAt [simp]: "acc_reportedAt (add t k v acc) = AList.update k t (acc_reportedAt acc)"
  by (simp add: add_def)

lemma fold_add:
  "map fst (acc_reportedAt acc) = map fst (acc_state acc) \<Longrightarrow> distinct (map fst (acc_state acc)) \<Longrightarrow>
   (let acc' = fold (\<lambda>(i, k, v). add (clock i) k v) (List.enumerate n reps) acc in
    map fst (acc_reportedAt acc') = map fst (acc_state acc') \<and> distinct (map fst (acc_state acc')) \<and>
    map_of (acc_state acc') = map_of (acc_state acc) ++ map_of (rev reps))"
proof (induction reps arbitrary: n acc)
  case (Cons r reps)
  obtain k v where r: "r = (k, v)" by (cases r)
  let ?acc = "add (clock n) k v acc"
  have "map fst (acc_reportedAt ?acc) = map fst (acc_state ?acc)" "distinct (map fst (acc_state ?acc))"
    using Cons.prems by (simp_all add: update_keys distinct_update)
  note IH = Cons.IH [OF this, of "Suc n"]
  have "map_of (acc_state ?acc) = (map_of (acc_state acc))(k \<mapsto> v)" by (simp add: update_conv')
  with IH show ?case by (simp add: r Let_def map_add_assoc [symmetric] map_add_upd_left)
qed simp

lemma addAll_state:
  shows "map_of (acc_state (addAll clock reps)) = map_of (rev reps)"
    and "distinct (map fst (acc_state (addAll clock reps)))"
    and "map fst (acc_reportedAt (addAll clock reps)) = map fst (acc_state (addAll clock reps))"
  using fold_add [of newAccumulator clock 0 reps] by (simp_all add: addAll_def newAccumulator_def Let_def)

section \<open>What a flush stores\<close>

text \<open>An API that accepts what the runner writes, and times that survive the encoding.\<close>

definition cm_reliable :: "cm_api \<Rightarrow> bool" where
  "cm_reliable api \<longleftrightarrow> get_err api = None \<and> create_err api = None \<and> patch_err api = None \<and>
     (\<forall>d. json_size api d \<le> MaxConfigMapSize)"

definition proper_time :: "Time \<Rightarrow> bool" where
  "proper_time t \<longleftrightarrow> \<not> IsZero t \<and> \<not> IsZero (toSeconds t)"

definition reported :: "Data \<Rightarrow> string \<Rightarrow> bool" where
  "reported d k = (case LastReportedAt (status_of (rd_Status d) k) of None \<Rightarrow> False | Some t \<Rightarrow> proper_time t)"

definition sound_data :: "Data \<Rightarrow> bool" where
  "sound_data d \<longleftrightarrow> distinct (map fst (rd_State d)) \<and> (\<forall>k. 0 \<le> StaleCount (status_of (rd_Status d) k))"

text \<open>
  The document of a cycle in which the keys \<open>R\<close> have been reported so far: it holds a right value
  of each of them (\<open>P\<close>), and whatever else it holds is marked stale.
\<close>

definition tracked :: "(string \<Rightarrow> json \<Rightarrow> bool) \<Rightarrow> string set \<Rightarrow> Data \<Rightarrow> bool" where
  "tracked P R d \<longleftrightarrow> sound_data d \<and>
     (\<forall>k. if k \<in> R then (\<exists>v. map_of (rd_State d) k = Some v \<and> P k v) \<and> reported d k \<and> \<not> stale_key d k
          else \<not> was_reported d k \<and> (map_of (rd_State d) k \<noteq> None \<longrightarrow> stale_key d k))"

lemma stale_key_status: "stale_key d k \<longleftrightarrow> StaleCount (status_of (rd_Status d) k) > 0"
  by (simp add: stale_key_def status_of_def lookup_default_def split: option.splits)

lemma reported_was: "reported d k \<Longrightarrow> was_reported d k"
  by (simp add: reported_def was_reported_def split: option.splits)

lemma toSeconds_idem [simp]: "toSeconds (toSeconds t) = toSeconds t"
  by (simp add: toSeconds_def)

lemma toSecondsPtr_proper: "proper_time t \<Longrightarrow> toSecondsPtr (Some t) = Some (toSeconds t) \<and> proper_time (toSeconds t)"
  by (simp add: toSecondsPtr_def proper_time_def)

text \<open>Encoding keeps the state and the counts, and proper report times.\<close>

definition stored :: "Data \<Rightarrow> Data" where
  "stored d = the (Unmarshal (Marshal d))"

lemma Unmarshal_stored: "Unmarshal (Marshal d) = Some (stored d)"
  by (simp add: stored_def Marshal_def Unmarshal_def)

lemma stored_fields [simp]: "rd_State (stored d) = rd_State d" "CycleID (stored d) = CycleID d" "IsLive (stored d) = IsLive d"
    "rd_Executor (stored d) = rd_Executor d"
  by (simp_all add: stored_def Marshal_def Unmarshal_def)

lemma stored_status:
  "status_of (rd_Status (stored d)) k =
     (status_of (rd_Status d) k)\<lparr>LastReportedAt := toSecondsPtr (LastReportedAt (status_of (rd_Status d) k))\<rparr>"
proof -
  have "map_of (map (\<lambda>(k, s). (k, s\<lparr>LastReportedAt := toSecondsPtr (LastReportedAt s)\<rparr>)) xs) k =
      map_option (\<lambda>s. s\<lparr>LastReportedAt := toSecondsPtr (LastReportedAt s)\<rparr>) (map_of xs k)"
    for xs :: "(string \<times> ResourceStatus) list" by (induction xs) auto
  then show ?thesis
    by (cases "map_of (rd_Status d) k")
      (simp_all add: stored_def Marshal_def Unmarshal_def status_of_def lookup_default_def toSecondsPtr_def [of None])
qed

lemma stored_marks:
  "stale_key (stored d) k = stale_key d k" "reported d k \<Longrightarrow> reported (stored d) k"
  "\<not> was_reported d k \<Longrightarrow> \<not> was_reported (stored d) k" "sound_data (stored d) = sound_data d"
  using toSecondsPtr_proper
  by (auto simp: stale_key_status stored_status reported_def was_reported_def sound_data_def toSecondsPtr_def
      proper_time_def split: option.splits)

lemma tracked_stored: "tracked P R d \<Longrightarrow> tracked P R (stored d)"
  by (simp add: tracked_def stored_marks)

lemma Save_stored:
  assumes "get_err api = None" "fst (Save api p t d st) = None"
  shows "Load api t (snd (Save api p t d st)) = Inr (Some (stored d))"
proof -
  have "Save api p t d st = (None, snd (Save api p t d st))" using assms(2) by (cases "Save api p t d st") simp
  from Save_Load_other [OF this] assms show ?thesis by (simp add: Unmarshal_stored)
qed

lemma Save_reliable: "cm_reliable api \<Longrightarrow> fst (Save api p t d st) = None"
  by (auto simp: Save_def cm_reliable_def cm_get_def cm_write_def Let_def not_less not_le [symmetric] split: option.splits)

lemma flush_reliable:
  assumes "cm_reliable api" "Load api (rc_Target cfg) st = Inr ex"
  shows "fst (flush api t cfg acc st) = None"
  using assms(2) Save_reliable [OF assms(1)]
  by (auto simp: flush_def SaveState_def Let_def split: option.splits prod.splits) (metis fst_conv option.distinct(1))+

lemma flush_failed: "fst (flush api t cfg acc st) = Some e \<Longrightarrow> snd (flush api t cfg acc st) = st"
  by (auto simp: flush_def SaveState_def Save_def cm_write_def Let_def split: option.splits prod.splits sum.splits if_splits api_error.splits)

lemma mergedStatus_of:
  assumes "distinct (map fst (rd_State old))"
  shows "status_of (mergedStatus old data m same t) k =
    (case map_of (rd_State data) k of
       Some v \<Rightarrow> snd (mergeReported old data same t k v)
     | None \<Rightarrow> (case (if map_of (rd_State old) k = None then None else handleStale old m same k) of
                  Some s \<Rightarrow> s | None \<Rightarrow> \<lparr>StaleCount = 0, LastReportedAt = None\<rparr>))"
proof -
  have new: "map_of (map (\<lambda>(k, v). (k, g k v)) xs) k = map_option (g k) (map_of xs k)" for g :: "string \<Rightarrow> json \<Rightarrow> ResourceStatus" and xs
    by (induction xs) auto
  have "distinct (map fst (staleKeys old data))"
    using assms by (simp add: staleKeys_def distinct_map_filter)
  from map_of_map_filter [OF this, of "\<lambda>k v. handleStale old m same k" k]
  have "map_of (List.map_filter (\<lambda>(k, v). map_option (Pair k) (handleStale old m same k)) (staleKeys old data)) k =
      (if map_of (rd_State data) k \<noteq> None \<or> map_of (rd_State old) k = None then None else handleStale old m same k)"
    unfolding staleKeys_def by (subst (asm) map_of_filter_key) (auto split: option.splits)
  then show ?thesis
    by (auto simp: mergedStatus_def status_of_def lookup_default_def map_add_def new split: option.splits)
qed

lemma fold_add_reportedAt:
  "snd ` set (acc_reportedAt acc) \<subseteq> range clock \<Longrightarrow>
   snd ` set (acc_reportedAt (fold (\<lambda>(i, k, v). add (clock i) k v) (List.enumerate n reps) acc)) \<subseteq> range clock"
proof (induction reps arbitrary: n acc)
  case (Cons r reps)
  obtain k v where r: "r = (k, v)" by (cases r)
  have "snd ` set (acc_reportedAt (add (clock n) k v acc)) \<subseteq> range clock"
  proof -
    have "snd ` set (AList.update k (clock n) xs) \<subseteq> insert (clock n) (snd ` set xs)" for xs
      by (induction xs) (auto split: if_splits)
    from this [of "acc_reportedAt acc"] Cons.prems show ?thesis unfolding add_reportedAt by blast
  qed
  from Cons.IH [OF this, of "Suc n"] show ?case by (simp add: r)
qed simp

text \<open>What the accumulator hands to \<open>SaveState\<close>.\<close>

lemma flushData_reports:
  assumes "\<And>i. proper_time (clock i)"
    and d_def: "d = withReports t (flushData t cfg (addAll clock reps))"
  shows "map_of (rd_State d) = map_of (rev reps)" "distinct (map fst (rd_State d))"
    "k \<in> fst ` set reps \<Longrightarrow> StaleCount (status_of (rd_Status d) k) = 0"
    "k \<in> fst ` set reps \<Longrightarrow> \<exists>u. LastReportedAt (status_of (rd_Status d) k) = Some u \<and> proper_time u"
    "rd_State d = [] \<longleftrightarrow> reps = []"
proof -
  let ?acc = "addAll clock reps"
  have s: "rd_State d = acc_state ?acc" by (simp add: d_def withReports_def flushData_def)
  show m: "map_of (rd_State d) = map_of (rev reps)" and "distinct (map fst (rd_State d))"
    using addAll_state [of clock reps] by (simp_all add: s)
  show "rd_State d = [] \<longleftrightarrow> reps = []"
    using m by (metis (no_types) map_of_eq_empty_iff rev_is_Nil_conv)
  assume "k \<in> fst ` set reps"
  then have "k \<in> fst ` set (acc_reportedAt ?acc)"
    using addAll_state [of clock reps] by (metis dom_map_of_conv_image_fst list.set_map set_rev)
  then obtain u where u: "map_of (acc_reportedAt ?acc) k = Some u"
    by (metis (no_types) map_of_eq_None_iff not_None_eq)
  then have "u \<in> range clock"
    using fold_add_reportedAt [of newAccumulator clock 0 reps] map_of_SomeD
    by (fastforce simp: addAll_def newAccumulator_def)
  moreover have "status_of (rd_Status d) k = \<lparr>StaleCount = 0, LastReportedAt = Some u\<rparr>"
    using u by (simp add: d_def withReports_def flushData_def status_of_def lookup_default_def map_of_map map_add_Some_iff)
  ultimately show "StaleCount (status_of (rd_Status d) k) = 0"
    "\<exists>u. LastReportedAt (status_of (rd_Status d) k) = Some u \<and> proper_time u"
    using assms(1) by auto
qed

lemma flushData_unreported:
  assumes "k \<notin> fst ` set reps"
  shows "status_of (rd_Status (withReports t (flushData t cfg (addAll clock reps)))) k = \<lparr>StaleCount = 0, LastReportedAt = None\<rparr>"
proof -
  let ?acc = "addAll clock reps"
  have st: "map_of (acc_state ?acc) k = None"
    using assms addAll_state(1) [of clock reps] by (simp add: map_of_eq_None_iff)
  then have "map_of (acc_reportedAt ?acc) k = None"
    using addAll_state(3) [of clock reps] by (metis (no_types) map_of_eq_None_iff list.set_map)
  moreover have "map_of (List.map_filter (\<lambda>(k, v). if P k then Some (k, c) else None) xs) k = None"
    if "map_of xs k = None" for P and c :: ResourceStatus and xs :: "(string \<times> json) list"
    using that by (induction xs) (auto simp: List.map_filter_simps split: if_splits)
  from this [OF st] have "map_of (List.map_filter (\<lambda>(k, v). if P k then Some (k, c) else None) (acc_state ?acc)) k = None"
    for P and c :: ResourceStatus .
  ultimately show ?thesis
    by (simp add: withReports_def flushData_def status_of_def lookup_default_def map_of_map map_add_def)
qed

text \<open>
  The document in the store before an attempt: none, the one of an earlier cycle, or the one of
  this cycle with the keys \<open>R\<close> reported so far.
\<close>

definition cycle_doc :: "(string \<Rightarrow> json \<Rightarrow> bool) \<Rightarrow> string set \<Rightarrow> string \<Rightarrow> Data option \<Rightarrow> bool" where
  "cycle_doc P R cyc ex =
     (case ex of None \<Rightarrow> R = {}
      | Some d \<Rightarrow> if CycleID d = cyc then tracked P R d else R = {} \<and> sound_data d)"

text \<open>A report that may follow: the truth, or a repeated report that demands nothing.\<close>

definition repeats :: "(string \<Rightarrow> json \<Rightarrow> bool) \<Rightarrow> string set \<Rightarrow> (string \<times> json) list \<Rightarrow> bool" where
  "repeats P R reps \<longleftrightarrow> (\<forall>(k, v) \<in> set reps. P k v \<or> k \<in> R \<and> \<not> demanded v)"

lemma map_filter_keys:
  "map fst (List.map_filter (\<lambda>(k, v). map_option (Pair k) (g k v)) xs) = map fst (filter (\<lambda>(k, v). g k v \<noteq> None) xs)"
  by (induction xs) (auto simp: List.map_filter_simps split: option.splits)

lemma mergedState_distinct:
  assumes "distinct (map fst (rd_State data))" "distinct (map fst (rd_State old))"
  shows "distinct (map fst (mergedState old data m same t))"
proof -
  let ?f = "\<lambda>(k, v). map_option (Pair k) (fst (mergeReported old data same t k v))"
  have keys: "map fst (List.map_filter ?f (rd_State data)) =
      map fst (filter (\<lambda>(k, v). fst (mergeReported old data same t k v) \<noteq> None) (rd_State data))"
    by (rule map_filter_keys)
  have mf: "distinct (map fst (List.map_filter ?f (rd_State data)))"
    unfolding keys using assms(1) by (simp add: distinct_map_filter)
  have "fst ` set (List.map_filter ?f (rd_State data)) = set (map fst (List.map_filter ?f (rd_State data)))" by simp
  also have "\<dots> \<subseteq> fst ` set (rd_State data)" unfolding keys by auto
  finally have sub: "fst ` set (List.map_filter ?f (rd_State data)) \<subseteq> fst ` set (rd_State data)" .
  have "fst ` set (staleKeys old data) \<inter> fst ` set (rd_State data) = {}"
    by (force simp: staleKeys_def map_of_eq_None_iff)
  with sub have "fst ` set (List.map_filter ?f (rd_State data)) \<inter>
      fst ` set (filter (\<lambda>(k, v). handleStale old m same k \<noteq> None) (staleKeys old data)) = {}"
    by auto
  then show ?thesis
    using assms mf by (simp add: mergedState_def staleKeys_def distinct_map_filter)
qed

lemma merge_tracked:
  assumes clock: "\<And>i. proper_time (clock i)"
    and data: "data = withReports t (flushData t cfg (addAll clock reps))"
    and old: "if same then tracked P R old else R = {} \<and> sound_data old"
    and reps: "repeats P R reps"
    and st: "rd_State d = mergedState old data 3 same t" "rd_Status d = mergedStatus old data 3 same t"
  shows "tracked P (R \<union> fst ` set reps) d"
proof -
  note fd = flushData_reports [OF clock data]
  have so: "distinct (map fst (rd_State old))" "\<And>k. 0 \<le> StaleCount (status_of (rd_Status old) k)"
    using old by (auto simp: tracked_def sound_data_def split: if_splits)
  have val: "map_of (rd_State d) k = merged_value old (rd_State data) 3 same k" for k
    using mergedState_value [OF fd(2)] st by simp
  note sta = mergedStatus_of [OF so(1), of data 3 same t, folded st(2)]
  have sound: "sound_data d"
  proof -
    have "distinct (map fst (rd_State d))"
      unfolding st by (rule mergedState_distinct [OF fd(2) so(1)])
    moreover have "0 \<le> StaleCount (status_of (rd_Status d) k)" for k
      unfolding sta
      by (auto simp: mergeReported_def Let_def replaceStatus_def preserveStatus_def mergeCtx_def handleStale_def so(2)
          selectStrategy_def add_nonneg_nonneg split: option.splits json.splits)
    ultimately show ?thesis by (simp add: sound_data_def)
  qed
  have "if k \<in> R \<union> fst ` set reps then (\<exists>v. map_of (rd_State d) k = Some v \<and> P k v) \<and> reported d k \<and> \<not> stale_key d k
      else \<not> was_reported d k \<and> (map_of (rd_State d) k \<noteq> None \<longrightarrow> stale_key d k)" for k
  proof (cases "map_of (rev reps) k")
    case None
    then have k: "k \<notin> fst ` set reps" by (simp add: map_of_eq_None_iff)
    show ?thesis
    proof (cases "k \<in> R")
      case True
      then have t: "same" "\<exists>v. map_of (rd_State old) k = Some v \<and> P k v" "reported old k" "\<not> stale_key old k"
        using old by (auto simp: tracked_def split: if_splits)
      then have "status_of (rd_Status d) k = status_of (rd_Status old) k"
        using None reported_was [OF t(3)] by (auto simp: sta fd(1) handleStale_def was_reported_def Let_def)
      then show ?thesis
        using True t None reported_was [OF t(3)] by (simp add: val fd(1) merged_value_def stale_key_status reported_def)
    next
      case False
      then have "\<not> (same \<and> was_reported old k)" using old by (auto simp: tracked_def split: if_splits)
      then show ?thesis
        using False k None so(2) [of k]
        by (auto simp: val sta fd(1) merged_value_def stale_key_status was_reported_def handleStale_def Let_def
            split: option.splits)
    qed
  next
    case (Some v)
    then have kv: "(k, v) \<in> set reps" using map_of_SomeD by fastforce
    then have k: "k \<in> fst ` set reps" by force
    show ?thesis
    proof (cases "same \<and> was_reported old k \<and> \<not> demanded v")
      case True
      then have R: "k \<in> R" "\<exists>v. map_of (rd_State old) k = Some v \<and> P k v" "reported old k" "\<not> stale_key old k"
        using old by (metis (no_types, lifting) tracked_def)+
      have "snd (mergeReported old data same t k v) = preserveStatus (mergeCtx old data same t k v)"
        using True by (auto simp: mergeReported_def Let_def selectStrategy_def mergeCtx_def was_reported_def demanded_def
            split: json.splits)
      then show ?thesis
        using True R k Some reported_was [OF R(3)]
        by (auto simp: val sta fd(1) merged_value_def stale_key_status reported_def was_reported_def preserveStatus_def
            Let_def mergeCtx_def split: option.splits)
    next
      case False
      then have v: "P k v" using reps kv old reported_was
        by (fastforce simp: repeats_def tracked_def split: if_splits)
      have "snd (mergeReported old data same t k v) = replaceStatus (mergeCtx old data same t k v)"
        using False by (auto simp: mergeReported_def Let_def selectStrategy_def mergeCtx_def was_reported_def demanded_def
            split: json.splits)
      then show ?thesis
        using False v k Some fd(3,4) [OF k]
        by (auto simp: val sta fd(1) merged_value_def stale_key_status reported_def replaceStatus_def incomingReport_def
            mergeCtx_def)
    qed
  qed
  with sound show ?thesis by (simp add: tracked_def)
qed

text \<open>A flush without an error stores the document of the cycle with the new reports merged in.\<close>

lemma flush_tracked:
  assumes api: "get_err api = None" "fst (flush api t cfg (addAll clock reps) st) = None" and clock: "\<And>i. proper_time (clock i)"
    and ex: "Load api (rc_Target cfg) st = Inr ex" "cycle_doc P R (rc_CycleID cfg) ex"
    and reps: "repeats P R reps"
  shows "\<exists>d. Load api (rc_Target cfg) (snd (flush api t cfg (addAll clock reps) st)) = Inr (Some d) \<and>
    CycleID d = rc_CycleID cfg \<and> tracked P (R \<union> fst ` set reps) d"
proof -
  define data where "data = withReports t (flushData t cfg (addAll clock reps))"
  note fd = flushData_reports [OF clock data_def]
  let ?save = "SaveState api t (rc_Plan cfg) (rc_Target cfg) (flushData t cfg (addAll clock reps)) maxStale (rc_CycleID cfg) st"
  have fl: "snd (flush api t cfg (addAll clock reps) st) = snd ?save"
    by (auto simp: flush_def split: prod.splits option.splits)
  have ok: "fst ?save = None" using api(2) by (auto simp: flush_def split: prod.splits option.splits)
  note S = Save_stored [OF api(1), of "rc_Plan cfg" "rc_Target cfg"]
  show ?thesis
  proof (cases ex)
    case None
    then have R: "R = {}" using ex by (simp add: cycle_doc_def)
    define d where "d = data\<lparr>CycleID := rc_CycleID cfg\<rparr>"
    have "?save = Save api (rc_Plan cfg) (rc_Target cfg) d st"
      using None ex by (simp add: SaveState_def data_def d_def Let_def)
    moreover have "tracked P (fst ` set reps) d"
    proof -
      have "\<exists>v. map_of (rd_State d) k = Some v \<and> P k v" if k: "k \<in> fst ` set reps" for k
      proof -
        obtain v where v: "map_of (rev reps) k = Some v"
          using k by (metis (no_types) map_of_eq_None_iff not_None_eq set_rev)
        then have "(k, v) \<in> set reps" using map_of_SomeD by fastforce
        then show ?thesis using v reps R fd(1) by (auto simp: repeats_def d_def)
      qed
      moreover have "map_of (rd_State d) k = None" if "k \<notin> fst ` set reps" for k
        using that fd(1) by (simp add: d_def map_of_eq_None_iff)
      moreover have "status_of (rd_Status d) k = \<lparr>StaleCount = 0, LastReportedAt = None\<rparr>" if "k \<notin> fst ` set reps" for k
        using flushData_unreported [OF that] by (simp add: d_def data_def)
      moreover have "StaleCount (status_of (rd_Status d) k) = 0 \<and> reported d k" if "k \<in> fst ` set reps" for k
        using fd(3,4) [OF that] by (auto simp: d_def reported_def)
      moreover have "0 \<le> StaleCount (status_of (rd_Status d) k)" for k
        using calculation(3,4) [of k] by (cases "k \<in> fst ` set reps") simp_all
      ultimately show ?thesis
        using fd(2) by (auto simp: tracked_def sound_data_def stale_key_status was_reported_def d_def)
    qed
    ultimately show ?thesis using S ok R tracked_stored by (auto simp: fl d_def)
  next
    case (Some old)
    show ?thesis
    proof (cases "CycleID old = rc_CycleID cfg \<and> rd_State data = []")
      case True
      then have "?save = (None, st)" using Some ex by (simp add: SaveState_def data_def Let_def)
      with fl have "snd (flush api t cfg (addAll clock reps) st) = st" by simp
      then show ?thesis using True Some ex fd(5) by (auto simp: cycle_doc_def)
    next
      case False
      let ?same = "CycleID old = rc_CycleID cfg"
      define d where "d = data\<lparr>IsLive := True, CycleID := rc_CycleID cfg, CreatedAt := CreatedAt old,
          rd_State := mergedState old data maxStale ?same t, rd_Status := mergedStatus old data maxStale ?same t\<rparr>"
      have "?save = Save api (rc_Plan cfg) (rc_Target cfg) d st"
        using Some ex False by (auto simp: SaveState_def data_def [symmetric] d_def Let_def)
      moreover have "tracked P (R \<union> fst ` set reps) d"
        using Some ex
        by (intro merge_tracked [OF clock data_def _ reps, where same = ?same and old = old])
          (auto simp: d_def maxStale_def cycle_doc_def)
      ultimately show ?thesis using S ok tracked_stored by (auto simp: fl d_def)
    qed
  qed
qed

lemma Load_okApi: "get_err api = None \<Longrightarrow> Load okApi t st = Load api t st"
  by (simp add: Load_def cm_get_def okApi_def)

text \<open>The loader hands on exactly the tracked keys.\<close>

lemma loaded_tracked:
  assumes "tracked P R d"
  defines "l \<equiv> filter (\<lambda>(k, v). \<not> stale_key d k) (rd_State d)"
  shows "distinct (map fst l)" "\<forall>(k, v) \<in> set l. P k v" "fst ` set l = R"
proof -
  have dist: "distinct (map fst (rd_State d))" using assms(1) by (simp add: tracked_def sound_data_def)
  then show "distinct (map fst l)" by (simp add: l_def distinct_map_filter)
  have mem: "(k, v) \<in> set l \<longleftrightarrow> map_of (rd_State d) k = Some v \<and> \<not> stale_key d k" for k v
    by (auto simp: l_def dist)
  show "\<forall>(k, v) \<in> set l. P k v"
    using assms(1) unfolding tracked_def by (auto simp: mem) (metis option.distinct(1) option.inject)
  have "k \<in> fst ` set l \<longleftrightarrow> k \<in> R" for k
  proof -
    have "k \<in> fst ` set l \<longleftrightarrow> (\<exists>v. (k, v) \<in> set l)" by force
    then show ?thesis using assms(1) unfolding tracked_def mem by (metis option.distinct(1))
  qed
  then show "fst ` set l = R" by blast
qed

section \<open>The contract of an executor\<close>

text \<open>
  One attempt at an operation: the API that holds the restore data, the clock, and the executor
  with the client it got for this attempt (\<open>'c\<close>).
\<close>

record 'c attempt =
  at_api :: cm_api
  at_clock :: "nat \<Rightarrow> Time"
  at_time :: Time
  at_cfg :: 'c

definition attemptOp ::
    "RunnerConfig \<Rightarrow> ('c \<Rightarrow> 'w shutdown_fn) \<Rightarrow> ('c \<Rightarrow> 'w wakeup_fn) \<Rightarrow> 'c attempt \<Rightarrow> 'w \<times> store \<Rightarrow>
     string res \<times> 'w \<times> store" where
  "attemptOp cfg shutdown wakeup a =
     executeOperation (at_api a) (at_clock a) (at_time a) cfg (shutdown (at_cfg a)) (wakeup (at_cfg a))"

definition attempts ::
    "RunnerConfig \<Rightarrow> ('c \<Rightarrow> 'w shutdown_fn) \<Rightarrow> ('c \<Rightarrow> 'w wakeup_fn) \<Rightarrow> 'c attempt list \<Rightarrow> 'w \<times> store \<Rightarrow> 'w \<times> store" where
  "attempts cfg shutdown wakeup as s = fold (\<lambda>a s. snd (attemptOp cfg shutdown wakeup a s)) as s"

text \<open>The wake-up job of the same cycle, and a store that holds no document of this cycle yet.\<close>

definition wakeupOf :: "RunnerConfig \<Rightarrow> RunnerConfig" where
  "wakeupOf cfg = cfg\<lparr>rc_Operation := ''wakeup''\<rparr>"

definition new_cycle :: "RunnerConfig \<Rightarrow> store \<Rightarrow> bool" where
  "new_cycle cfg st \<longleftrightarrow> (case Load okApi (rc_Target cfg) st of
     Inl _ \<Rightarrow> False
   | Inr None \<Rightarrow> True
   | Inr (Some d) \<Rightarrow> CycleID d \<noteq> rc_CycleID cfg \<and> sound_data d)"

text \<open>
  No restore data is lost: the flush of every shutdown attempt reports no error (over an API that does not
  deny a ConfigMap that is there), except that an attempt which changed nothing may fail to save, unless it is the last.
\<close>

definition lossless :: "RunnerConfig \<Rightarrow> ('c \<Rightarrow> 'w shutdown_fn) \<Rightarrow> bool \<Rightarrow> 'c attempt \<Rightarrow> 'w \<times> store \<Rightarrow> bool" where
  "lossless cfg shutdown final a s \<longleftrightarrow>
     (case shutdown (at_cfg a) (fst s) of (_, reps, w') \<Rightarrow>
        (case fst (flush (at_api a) (at_time a) cfg (addAll (at_clock a) reps) (snd s)) of
           None \<Rightarrow> get_err (at_api a) = None
         | Some _ \<Rightarrow> \<not> final \<and> w' = fst s))"

primrec saves_all ::
    "RunnerConfig \<Rightarrow> ('c \<Rightarrow> 'w shutdown_fn) \<Rightarrow> ('c \<Rightarrow> 'w wakeup_fn) \<Rightarrow> 'c attempt list \<Rightarrow> 'w \<times> store \<Rightarrow> bool" where
  "saves_all cfg shutdown wakeup [] s \<longleftrightarrow> True"
| "saves_all cfg shutdown wakeup (a # as) s \<longleftrightarrow> lossless cfg shutdown (as = []) a s \<and>
     saves_all cfg shutdown wakeup as (snd (attemptOp cfg shutdown wakeup a s))"

text \<open>
  The cells of the world are the settings an executor takes away and gives back, one per key of the
  restore data: \<open>on\<close> tells a running cell, \<open>off\<close> is what a shutdown makes of it, \<open>codes\<close> what it may report of it.
  \<open>ok\<close> is what the laws need of the client and the parameters.
\<close>

locale executor =
  fixes ok :: "'c \<Rightarrow> bool"
    and shutdown :: "'c \<Rightarrow> 'w shutdown_fn"
    and wakeup :: "'c \<Rightarrow> 'w wakeup_fn"
    and cell :: "'w \<Rightarrow> string \<Rightarrow> 'v"
    and on :: "'v \<Rightarrow> bool"
    and off :: "'v \<Rightarrow> 'v"
    and codes :: "string \<Rightarrow> 'v \<Rightarrow> json \<Rightarrow> bool"
  assumes off_off: "\<not> on (off x)"
    and calm: "\<not> on x \<Longrightarrow> codes k x v \<Longrightarrow> \<not> demanded v"
    and reports_truth: "ok c \<Longrightarrow> shutdown c w = (r, reps, w') \<Longrightarrow> (k, v) \<in> set reps \<Longrightarrow> codes k (cell w k) v"
    and only_reported: "ok c \<Longrightarrow> shutdown c w = (r, reps, w') \<Longrightarrow>
      cell w' k = cell w k \<or> k \<in> fst ` set reps \<and> on (cell w k) \<and> cell w' k = off (cell w k)"
    and wakeup_only: "ok c \<Longrightarrow> wakeup c rd w = (r, w') \<Longrightarrow> f \<in> range cell \<Longrightarrow> distinct (map fst (xr_Data rd)) \<Longrightarrow>
      \<forall>(k, v) \<in> set (xr_Data rd). codes k (f k) v \<Longrightarrow>
      \<forall>k. cell w k = f k \<or> on (f k) \<and> cell w k = off (f k) \<Longrightarrow>
      cell w' k = cell w k \<or> cell w' k = f k"
    and wakeup_restores: "ok c \<Longrightarrow> wakeup c rd w = (Inr msg, w') \<Longrightarrow> f \<in> range cell \<Longrightarrow> distinct (map fst (xr_Data rd)) \<Longrightarrow>
      \<forall>(k, v) \<in> set (xr_Data rd). codes k (f k) v \<Longrightarrow>
      \<forall>k. cell w k = f k \<or> on (f k) \<and> cell w k = off (f k) \<Longrightarrow>
      k \<in> fst ` set (xr_Data rd) \<Longrightarrow> cell w' k = f k"
begin

text \<open>What holds of the world while a cycle with the keys \<open>R\<close> reported is under way.\<close>

definition under_way :: "(string \<Rightarrow> 'v) \<Rightarrow> string set \<Rightarrow> 'w \<Rightarrow> bool" where
  "under_way f R w \<longleftrightarrow> (\<forall>k. cell w k = f k \<or> k \<in> R \<and> on (f k) \<and> cell w k = off (f k))"

lemma shutdown_under_way:
  assumes "ok c" "shutdown c w = (r, reps, w')" "under_way f R w"
  shows "under_way f (R \<union> fst ` set reps) w'" "repeats (\<lambda>k. codes k (f k)) R reps"
proof -
  show "under_way f (R \<union> fst ` set reps) w'"
    unfolding under_way_def
  proof
    fix k
    from only_reported [OF assms(1,2), of k] assms(3) off_off
    show "cell w' k = f k \<or> k \<in> R \<union> fst ` set reps \<and> on (f k) \<and> cell w' k = off (f k)"
      unfolding under_way_def by (metis UnCI)
  qed
  have "codes k (f k) v \<or> k \<in> R \<and> \<not> demanded v" if "(k, v) \<in> set reps" for k v
    using reports_truth [OF assms(1,2) that] assms(3) calm off_off unfolding under_way_def by metis
  then show "repeats (\<lambda>k. codes k (f k)) R reps" by (auto simp: repeats_def)
qed

definition cycle_inv :: "RunnerConfig \<Rightarrow> (string \<Rightarrow> 'v) \<Rightarrow> 'w \<times> store \<Rightarrow> bool" where
  "cycle_inv cfg f s \<longleftrightarrow> (\<exists>ex R. Load okApi (rc_Target cfg) (snd s) = Inr ex \<and>
     cycle_doc (\<lambda>k. codes k (f k)) R (rc_CycleID cfg) ex \<and> under_way f R (fst s))"

definition captured :: "RunnerConfig \<Rightarrow> (string \<Rightarrow> 'v) \<Rightarrow> 'w \<times> store \<Rightarrow> bool" where
  "captured cfg f s \<longleftrightarrow> (\<exists>d R. Load okApi (rc_Target cfg) (snd s) = Inr (Some d) \<and> CycleID d = rc_CycleID cfg \<and>
     tracked (\<lambda>k. codes k (f k)) R d \<and> under_way f R (fst s))"

lemma captured_inv: "captured cfg f s \<Longrightarrow> cycle_inv cfg f s"
  by (fastforce simp: captured_def cycle_inv_def cycle_doc_def)

text \<open>A shutdown that fails half-way keeps the invariant like one that succeeds.\<close>

lemma shutdown_attempt:
  assumes "rc_Operation cfg = ''shutdown''" "ok (at_cfg a)" "\<And>i. proper_time (at_clock a i)"
    and "lossless cfg shutdown final a s" "cycle_inv cfg f s"
  shows "captured cfg f (snd (attemptOp cfg shutdown wakeup a s)) \<or> \<not> final \<and> snd (attemptOp cfg shutdown wakeup a s) = s"
proof -
  obtain w st where s: "s = (w, st)" by (cases s)
  obtain r reps w' where sd: "shutdown (at_cfg a) w = (r, reps, w')" by (cases "shutdown (at_cfg a) w") auto
  let ?flush = "flush (at_api a) (at_time a) cfg (addAll (at_clock a) reps) st"
  have op: "snd (attemptOp cfg shutdown wakeup a s) = (w', snd ?flush)"
    by (simp add: attemptOp_def executeOperation_def s sd assms(1))
  show ?thesis
  proof (cases "fst ?flush")
    case None
    then have api: "get_err (at_api a) = None" using assms(4) s sd by (simp add: lossless_def)
    obtain ex R where inv: "Load (at_api a) (rc_Target cfg) st = Inr ex" "cycle_doc (\<lambda>k. codes k (f k)) R (rc_CycleID cfg) ex"
        "under_way f R w"
      using assms(5) s by (auto simp: cycle_inv_def Load_okApi [OF api])
    note uw = shutdown_under_way [OF assms(2) sd inv(3)]
    from flush_tracked [OF api None _ inv(1,2) uw(2)] assms(3) uw(1) show ?thesis
      unfolding op captured_def Load_okApi [OF api] by auto
  next
    case (Some e)
    then show ?thesis unfolding op using assms(4) s sd flush_failed [OF Some] by (simp add: lossless_def)
  qed
qed

lemma shutdown_attempts:
  assumes "rc_Operation cfg = ''shutdown''" "as \<noteq> []"
    and "\<forall>a \<in> set as. ok (at_cfg a) \<and> (\<forall>i. proper_time (at_clock a i))" "saves_all cfg shutdown wakeup as s"
    and "cycle_inv cfg f s"
  shows "captured cfg f (attempts cfg shutdown wakeup as s)"
  using assms(2-)
proof (induction as arbitrary: s)
  case (Cons a as)
  let ?s = "snd (attemptOp cfg shutdown wakeup a s)"
  have ls: "lossless cfg shutdown (as = []) a s" using Cons.prems(3) by simp
  have step: "captured cfg f ?s \<or> as \<noteq> [] \<and> ?s = s"
    using Cons.prems by (intro shutdown_attempt [OF assms(1) _ _ ls]) auto
  then have "cycle_inv cfg f ?s" using captured_inv Cons.prems(4) by metis
  with step Cons.IH [of ?s] Cons.prems(2,3) show ?case by (cases "as = []") (auto simp: attempts_def)
qed simp

text \<open>Over an API that accepts everything nothing is lost.\<close>

lemma reliable_saves:
  assumes "rc_Operation cfg = ''shutdown''"
    and "\<forall>a \<in> set as. ok (at_cfg a) \<and> cm_reliable (at_api a) \<and> (\<forall>i. proper_time (at_clock a i))" "cycle_inv cfg f s"
  shows "saves_all cfg shutdown wakeup as s"
  using assms(2,3)
proof (induction as arbitrary: s)
  case (Cons a as)
  let ?s = "snd (attemptOp cfg shutdown wakeup a s)"
  have a: "cm_reliable (at_api a)" "get_err (at_api a) = None" using Cons.prems(1) by (simp_all add: cm_reliable_def)
  have l: "lossless cfg shutdown (as = []) a s"
    using Cons.prems(2) flush_reliable [OF a(1)] a(2) Load_okApi [OF a(2)]
    by (auto simp: lossless_def cycle_inv_def split: prod.splits option.splits)
  have "cycle_inv cfg f ?s"
    using shutdown_attempt [OF assms(1) _ _ l Cons.prems(2)] Cons.prems captured_inv by fastforce
  then show ?case using l Cons.IH Cons.prems(1) by simp
qed simp

lemma new_cycle_inv: "new_cycle cfg st \<Longrightarrow> cycle_inv cfg (cell w) (w, st)"
  by (fastforce simp: new_cycle_def cycle_inv_def cycle_doc_def under_way_def split: sum.splits option.splits)

lemma reliable_cycle_saves:
  assumes "rc_Operation cfg = ''shutdown''" "new_cycle cfg st"
    and "\<forall>a \<in> set as. ok (at_cfg a) \<and> cm_reliable (at_api a) \<and> (\<forall>i. proper_time (at_clock a i))"
  shows "saves_all cfg shutdown wakeup as (w, st)"
  by (rule reliable_saves [OF assms(1,3) new_cycle_inv [OF assms(2)]])

lemma wakeup_attempt:
  assumes "rc_Operation cfg = ''wakeup''" "ok (at_cfg a)" "captured cfg f s" and f: "f \<in> range cell"
  shows "captured cfg f (snd (attemptOp cfg shutdown wakeup a s))"
    "fst (attemptOp cfg shutdown wakeup a s) = Inr msg \<Longrightarrow> cell (fst (snd (attemptOp cfg shutdown wakeup a s))) = f"
proof -
  obtain w st where s: "s = (w, st)" by (cases s)
  obtain d R where d: "Load okApi (rc_Target cfg) st = Inr (Some d)" "CycleID d = rc_CycleID cfg"
      "tracked (\<lambda>k. codes k (f k)) R d" "under_way f R w"
    using assms(3) s by (auto simp: captured_def)
  have uw: "\<forall>k. cell w k = f k \<or> on (f k) \<and> cell w k = off (f k)" using d(4) by (auto simp: under_way_def)
  have goals: "captured cfg f (snd (attemptOp cfg shutdown wakeup a s)) \<and>
      (fst (attemptOp cfg shutdown wakeup a s) = Inr msg \<longrightarrow> cell (fst (snd (attemptOp cfg shutdown wakeup a s))) = f)"
  proof (cases "LoadRestoreData (at_api a) cfg st")
    case (Inl e)
    then show ?thesis using assms(1,3) s by (simp add: attemptOp_def executeOperation_def)
  next
    case (Inr rd)
    then have get: "get_err (at_api a) = None"
      by (auto simp: LoadRestoreData_def Load_def cm_get_def split: option.splits sum.splits api_error.splits)
    have "Load (at_api a) (rc_Target cfg) st = Inr (Some d)" using d(1) Load_okApi [OF get] by simp
    with Inr have data: "xr_Data rd = filter (\<lambda>(k, v). \<not> stale_key d k) (rd_State d)"
      by (auto simp: LoadRestoreData_def)
    have keys: "distinct (map fst (xr_Data rd))" "\<forall>(k, v) \<in> set (xr_Data rd). codes k (f k) v"
        "fst ` set (xr_Data rd) = R"
      unfolding data using loaded_tracked [OF d(3)] by auto
    obtain r w' where wk: "wakeup (at_cfg a) rd w = (r, w')" by (cases "wakeup (at_cfg a) rd w")
    then have op: "attemptOp cfg shutdown wakeup a s = (r, w', st)"
      using assms(1) Inr s by (simp add: attemptOp_def executeOperation_def)
    have "under_way f R w'"
      using d(4) wakeup_only [OF assms(2) wk f keys(1,2) uw] unfolding under_way_def by metis
    moreover have "cell w' k = f k" if "r = Inr msg" for k
      using wakeup_restores [OF assms(2) wk [unfolded that] f keys(1,2) uw, of k] keys(3)
        wakeup_only [OF assms(2) wk f keys(1,2) uw, of k] d(4) unfolding under_way_def by metis
    ultimately show ?thesis using d by (auto simp: op captured_def)
  qed
  then show "captured cfg f (snd (attemptOp cfg shutdown wakeup a s))"
    "fst (attemptOp cfg shutdown wakeup a s) = Inr msg \<Longrightarrow> cell (fst (snd (attemptOp cfg shutdown wakeup a s))) = f"
    by simp_all
qed

lemma cycle_captured:
  assumes "rc_Operation cfg = ''shutdown''" "ss \<noteq> []"
    and "\<forall>a \<in> set ss. ok (at_cfg a) \<and> (\<forall>i. proper_time (at_clock a i))" "saves_all cfg shutdown wakeup ss (w, st)"
    and "\<forall>a \<in> set ws. ok (at_cfg a)" and new: "new_cycle cfg st"
  shows "captured (wakeupOf cfg) (cell w) (attempts (wakeupOf cfg) shutdown wakeup ws (attempts cfg shutdown wakeup ss (w, st)))"
proof -
  let ?wk = "wakeupOf cfg"
  from shutdown_attempts [OF assms(1-4) new_cycle_inv [OF new]]
  have c: "captured ?wk (cell w) (attempts cfg shutdown wakeup ss (w, st))"
    by (simp add: captured_def wakeupOf_def)
  have "captured ?wk (cell w) (attempts ?wk shutdown wakeup xs t)"
    if "\<forall>a \<in> set xs. ok (at_cfg a)" "captured ?wk (cell w) t" for xs t
    using that
  proof (induction xs arbitrary: t)
    case (Cons x xs)
    then show ?case using wakeup_attempt(1) [of ?wk x "cell w" t] by (simp add: attempts_def wakeupOf_def)
  qed (simp add: attempts_def)
  from this [OF assms(5) c] show ?thesis .
qed

text \<open>
  The round trip of a cycle: whatever the shutdown attempts and all but the last wake-up attempt
  returned, the first successful wake-up leaves every cell as it was before the cycle.
\<close>

theorem cycle_roundtrip:
  assumes "rc_Operation cfg = ''shutdown''" "ss \<noteq> []"
    and "\<forall>a \<in> set ss. ok (at_cfg a) \<and> (\<forall>i. proper_time (at_clock a i))" "saves_all cfg shutdown wakeup ss (w, st)"
    and "\<forall>a \<in> set (ws @ [a]). ok (at_cfg a)"
    and new: "new_cycle cfg st"
    and s: "s = attempts (wakeupOf cfg) shutdown wakeup ws (attempts cfg shutdown wakeup ss (w, st))"
    and "attemptOp (wakeupOf cfg) shutdown wakeup a s = (Inr msg, w', st')"
  shows "cell w' = cell w"
proof -
  have "captured (wakeupOf cfg) (cell w) s" using cycle_captured [OF assms(1-4) _ new] assms(5) by (simp add: s)
  from wakeup_attempt(2) [OF _ _ this _, of a msg] assms(5,8) show ?thesis by (simp add: wakeupOf_def)
qed

end

section \<open>A flush that fails\<close>

text \<open>
  A shutdown that succeeds is reported as a success even if its restore data could not be saved:
  the store stays as it was, so that a wake-up without earlier data has nothing to restore from.
\<close>

lemma flush_failure_unreported:
  assumes "rc_Operation cfg = ''shutdown''" "shutdown w = (Inr msg, reps, w')" "Load api (rc_Target cfg) st = Inr None"
    and "get_err api = None" "create_err api = Some e" "patch_err api = Some e"
  shows "executeOperation api clock t cfg shutdown wakeup (w, st) = (Inr msg, w', st) \<and>
    (\<exists>er. fst (executeOperation api' clock' t' (wakeupOf cfg) shutdown wakeup (w', st)) = Inl er)"
proof -
  have "flush api t cfg acc st = (case flush api t cfg acc st of (e, _) \<Rightarrow> (e, st))" for acc
    using assms(3-6)
    by (cases st) (auto simp: flush_def SaveState_def Save_def cm_get_def cm_write_def Let_def split: option.splits)
  then have fl: "snd (flush api t cfg acc st) = st" for acc by (metis case_prod_unfold snd_conv)
  have "\<exists>er. LoadRestoreData api' (wakeupOf cfg) st = Inl er"
  proof (cases "get_err api' = None")
    case True
    then have "Load api' (rc_Target cfg) st = Inr None" using assms(3) Load_okApi [OF True] Load_okApi [OF assms(4)] by metis
    then show ?thesis by (simp add: LoadRestoreData_def wakeupOf_def)
  next
    case False
    then show ?thesis by (auto simp: LoadRestoreData_def Load_def cm_get_def split: api_error.splits)
  qed
  then show ?thesis using assms(1,2) fl by (auto simp: executeOperation_def wakeupOf_def)
qed

end
