(* ===== verification/GoBase64.thy ===== *)
theory GoBase64
  imports Prelude
begin

text \<open>
  \<open>base64.StdEncoding.DecodeString\<close> of the standard library: line breaks are skipped, then
  quanta of four characters, the last one padded.  Bytes are characters.
\<close>

definition base64_val :: "char \<Rightarrow> nat option" where
  "base64_val c =
     (let n = of_char c :: nat in
      if 65 \<le> n \<and> n \<le> 90 then Some (n - 65)
      else if 97 \<le> n \<and> n \<le> 122 then Some (n - 71)
      else if 48 \<le> n \<and> n \<le> 57 then Some (n + 4)
      else if c = CHR ''+'' then Some 62
      else if c = CHR ''/'' then Some 63
      else None)"

fun base64_quanta :: "string \<Rightarrow> string option" where
  "base64_quanta [] = Some []"
| "base64_quanta (a # b # c # d # r) =
     (case (base64_val a, base64_val b) of
        (Some x, Some y) \<Rightarrow>
          (if d = CHR ''='' then
             (if r \<noteq> [] then None
              else if c = CHR ''='' then Some [char_of ((x * 64 + y) div 16)]
              else (case base64_val c of
                      None \<Rightarrow> None
                    | Some z \<Rightarrow> (let n = ((x * 64 + y) * 64 + z) div 4 in Some [char_of (n div 256), char_of (n mod 256)])))
           else (case (base64_val c, base64_val d, base64_quanta r) of
                   (Some z, Some u, Some rest) \<Rightarrow>
                     (let n = ((x * 64 + y) * 64 + z) * 64 + u
                      in Some (char_of (n div 65536) # char_of (n div 256 mod 256) # char_of (n mod 256) # rest))
                 | _ \<Rightarrow> None))
      | _ \<Rightarrow> None)"
| "base64_quanta _ = None"

definition DecodeString :: "string \<Rightarrow> string res" where
  "DecodeString s =
     (case base64_quanta (filter (\<lambda>c. c \<noteq> CHR 0x0A \<and> c \<noteq> CHR 0x0D) s) of
        None \<Rightarrow> Inl (ErrMsg ''illegal base64 data'')
      | Some bs \<Rightarrow> Inr bs)"

lemma DecodeString_examples:
  "DecodeString ''Y2E='' = Inr ''ca''" "DecodeString ''Z28='' = Inr ''go''" "DecodeString ''Z29v'' = Inr ''goo''"
  "DecodeString ''Z'' = Inl (ErrMsg ''illegal base64 data'')"
  by (simp_all add: DecodeString_def base64_val_def char_of_def bit_0)

end
