(* ===== verification/ExecBase.thy ===== *)
theory ExecBase
  imports Runner ExecParams GoBase64
begin

text \<open>
  What the executors share: the spec they get (\<^verbatim>\<open>internal/executor/interface.go\<close>), the decoding of
  the state they stored (\<open>encoding/json\<close> on small structs), the collected errors
  (\<^verbatim>\<open>errorlist.go\<close>), the counters of their messages, and the waiter (\<^verbatim>\<open>pkg/waiter\<close>).

  A client of a cloud or cluster API is a record of functions on the outside world: a read returns
  a value or an error, a write an error and the new world.  Each executor theory states what its
  laws need of the client as a predicate.
\<close>

section \<open>The spec\<close>

record AWSConnectorConfig =
  aw_Region :: string
  AccountID :: string
  AssumeRoleArn :: string
  AccessKeyID :: string
  SecretAccessKey :: string
  SessionToken :: string

record K8SConnectorConfig =
  kc_ClusterName :: string
  kc_Region :: string
  Kubeconfig :: string
  ClusterEndpoint :: string
  ClusterCAData :: string
  UseEKSToken :: bool
  kc_AWS :: "AWSConnectorConfig option"

record Spec =
  sp_TargetName :: string
  sp_TargetType :: string
  sp_Parameters :: string
  sp_AWS :: "AWSConnectorConfig option"
  sp_K8S :: "K8SConnectorConfig option"

section \<open>Decoding stored state\<close>

text \<open>
  A struct field takes every member whose name matches it, in order, a case-insensitive match
  included; \<open>null\<close> leaves the field alone, and a value of the wrong kind is an error.
\<close>

definition fieldValues :: "string \<Rightarrow> (string \<times> json) list \<Rightarrow> json list" where
  "fieldValues name m = filter (\<lambda>v. v \<noteq> JNull) (map snd (filter (\<lambda>(k, v). EqualFold k name) m))"

definition decodeField :: "(json \<Rightarrow> 'a res) \<Rightarrow> 'a \<Rightarrow> string \<Rightarrow> (string \<times> json) list \<Rightarrow> 'a res" where
  "decodeField dec zero name m =
     fold (\<lambda>v acc. case acc of Inl e \<Rightarrow> Inl e | Inr _ \<Rightarrow> dec v) (fieldValues name m) (Inr zero)"

definition typeError :: "string \<Rightarrow> go_error" where
  "typeError t = ErrMsg (''json: cannot unmarshal into Go value of type '' @ t)"

definition jbool :: "json \<Rightarrow> bool res" where
  "jbool v = (case v of JBool b \<Rightarrow> Inr b | _ \<Rightarrow> Inl (typeError ''bool''))"

definition jstr :: "json \<Rightarrow> string res" where
  "jstr v = (case v of JStr s \<Rightarrow> Inr s | _ \<Rightarrow> Inl (typeError ''string''))"

definition jint32 :: "json \<Rightarrow> int res" where
  "jint32 v =
     (case v of
        JNum s \<Rightarrow> (case Atoi s of
                     Some i \<Rightarrow> if - (2 ^ 31) \<le> i \<and> i < 2 ^ 31 then Inr i else Inl (typeError ''int32'')
                   | None \<Rightarrow> Inl (typeError ''int32''))
      | _ \<Rightarrow> Inl (typeError ''int32''))"

text \<open>The members of the object to decode; \<open>null\<close> decodes to the zero value.\<close>

definition jmembers :: "json \<Rightarrow> ((string \<times> json) list) res" where
  "jmembers v = (case v of JObj m \<Rightarrow> Inr m | JNull \<Rightarrow> Inr [] | _ \<Rightarrow> Inl (typeError ''struct''))"

definition jint :: "int \<Rightarrow> json" where "jint i = JNum (show_int i)"

definition int32 :: "int \<Rightarrow> bool" where "int32 i \<longleftrightarrow> - (2 ^ 31) \<le> i \<and> i < 2 ^ 31"

lemma Atoi_show_int: "Atoi (show_int i) = (if - (2 ^ 63) \<le> i \<and> i < 2 ^ 63 then Some i else None)"
proof -
  have d: "hd (show_nat n) \<noteq> CHR ''-''" "hd (show_nat n) \<noteq> CHR ''+''" for n
  proof -
    have "hd (show_nat n) \<in> digit ` {..<10}" using show_nat_digits [of n] list.set_sel(1) [OF show_nat_nonempty] by blast
    moreover have "digit k \<noteq> CHR ''-'' \<and> digit k \<noteq> CHR ''+''" if "k < 10" for k
    proof -
      have "of_char (digit k) = 48 + k" using that by (simp add: digit_def)
      then show ?thesis by auto
    qed
    ultimately show "hd (show_nat n) \<noteq> CHR ''-''" "hd (show_nat n) \<noteq> CHR ''+''"
      by (metis imageE lessThan_iff)+
  qed
  have sgn: "split_sign (show_nat n) = (False, show_nat n)" for n
    using d [of n] show_nat_nonempty [of n] by (cases "show_nat n") auto
  show ?thesis by (auto simp: Atoi_def show_int_def sgn parse_digits_show_nat)
qed

lemma jint32_jint [simp]: "jint32 (jint i) = (if int32 i then Inr i else Inl (typeError ''int32''))"
  by (auto simp: jint32_def jint_def int32_def Atoi_show_int)

lemma jint_nonnull [simp]: "jint i \<noteq> JNull"
  by (simp add: jint_def)

lemma jbool_JBool [simp]: "jbool (JBool b) = Inr b"
  by (simp add: jbool_def)

lemma jstr_JStr [simp]: "jstr (JStr s) = Inr s"
  by (simp add: jstr_def)

section \<open>Collected errors and messages\<close>

text \<open>\<open>ErrorList\<close>: the errors in the order in which they were added.\<close>

definition ErrorList_Add :: "go_error option \<Rightarrow> go_error list \<Rightarrow> go_error list" where
  "ErrorList_Add e errs = (case e of None \<Rightarrow> errs | Some x \<Rightarrow> errs @ [x])"

definition ErrorList_Join :: "string \<Rightarrow> go_error list \<Rightarrow> string" where
  "ErrorList_Join sep errs = join sep (map err_text errs)"

record operationStats =
  processed :: nat
  applied :: nat
  skippedStale :: nat

definition appendCountSegment :: "string \<Rightarrow> string \<Rightarrow> nat \<Rightarrow> string \<Rightarrow> string" where
  "appendCountSegment msg action n noun =
     (if n = 0 then msg else msg @ '', '' @ action @ '' '' @ show_nat n @ '' '' @ noun @ ''(s)'')"

section \<open>Durations as text\<close>

definition padDigits :: "nat \<Rightarrow> nat \<Rightarrow> string" where
  "padDigits w n = replicate (w - length (show_nat n)) CHR ''0'' @ show_nat n"

text \<open>A fraction of \<open>w\<close> digits with its point, without trailing zeros.\<close>

definition fmtFrac :: "nat \<Rightarrow> nat \<Rightarrow> string" where
  "fmtFrac w n =
     (let ds = rev (dropWhile (\<lambda>c. c = CHR ''0'') (rev (padDigits w n)))
      in if n = 0 then '''' else CHR ''.'' # ds)"

definition DurationString :: "duration \<Rightarrow> string" where
  "DurationString d =
     (let u = nat (abs d); sign = (if d < 0 then ''-'' else '''') in
      if u = 0 then ''0s''
      else if u < 1000 then sign @ show_nat u @ ''ns''
      else if u < 10 ^ 6 then sign @ show_nat (u div 1000) @ fmtFrac 3 (u mod 1000) @ [CHR 0xC2, CHR 0xB5, CHR ''s'']
      else if u < 10 ^ 9 then sign @ show_nat (u div 10 ^ 6) @ fmtFrac 6 (u mod 10 ^ 6) @ ''ms''
      else (let s = u div 10 ^ 9; m = s div 60; h = m div 60;
                secs = show_nat (s mod 60) @ fmtFrac 9 (u mod 10 ^ 9) @ ''s''
            in sign @ (if m = 0 then secs
                       else if h = 0 then show_nat m @ ''m'' @ secs
                       else show_nat h @ ''h'' @ show_nat (m mod 60) @ ''m'' @ secs)))"

section \<open>The waiter\<close>

text \<open>
  The observations of one wait: what the check sees at once and then at each tick, and how the
  context ends the wait (by its deadline or by cancellation).
\<close>

record 'o waitRun =
  seen :: "'o list"
  deadline :: bool

definition waiterTimeout :: "string \<Rightarrow> duration res" where
  "waiterTimeout s =
     (if s = '''' then Inr 0
      else (case ParseDuration s of
              Inl e \<Rightarrow> Inl (Wrap (''invalid timeout format '' @ quote s @ '': '') e)
            | Inr d \<Rightarrow> Inr d))"

fun pollTicks :: "('o \<Rightarrow> (bool \<times> string) res) \<Rightarrow> go_error \<Rightarrow> 'o list \<Rightarrow> go_error option" where
  "pollTicks check stop [] = Some stop"
| "pollTicks check stop (x # xs) =
     (case check x of
        Inl e \<Rightarrow> Some (Wrap ''check failed: '' e)
      | Inr (finished, status) \<Rightarrow> if finished then None else pollTicks check stop xs)"

definition Poll :: "string \<Rightarrow> duration \<Rightarrow> ('o \<Rightarrow> (bool \<times> string) res) \<Rightarrow> 'o waitRun \<Rightarrow> go_error option" where
  "Poll description timeout check r =
     pollTicks check
       (if deadline r \<and> timeout > 0
        then ErrMsg (''timeout waiting for '' @ description @ '' after '' @ DurationString timeout)
        else Wrap (''wait for '' @ description @ '' interrupted: '')
               (ErrMsg (if deadline r then ''context deadline exceeded'' else ''context canceled''))) (seen r)"

text \<open>\<open>NewWaiter\<close> with a timeout text, then \<open>Poll\<close>.\<close>

definition waitFor :: "(go_error \<Rightarrow> go_error) \<Rightarrow> string \<Rightarrow> string \<Rightarrow> ('o \<Rightarrow> (bool \<times> string) res) \<Rightarrow> 'o waitRun \<Rightarrow> go_error option" where
  "waitFor wrap timeout description check r =
     (case waiterTimeout timeout of Inl e \<Rightarrow> Some (wrap e) | Inr d \<Rightarrow> Poll description d check r)"

text \<open>A wait succeeds exactly if the first observation that is not "still pending" is final.\<close>

lemma pollTicks_ok_iff:
  "pollTicks check stop xs = None \<longleftrightarrow>
     (\<exists>x st zs. dropWhile (\<lambda>x. \<exists>s. check x = Inr (False, s)) xs = x # zs \<and> check x = Inr (True, st))"
  by (induction xs) (auto split: sum.splits prod.splits)

section \<open>AWS configuration\<close>

text \<open>
  \<open>BuildAWSConfig\<close> (\<^verbatim>\<open>pkg/awsutil/config.go\<close>).  \<open>loadDefault\<close> is \<open>config.LoadDefaultConfig\<close> of the SDK on the
  region and the static credentials it is given; it returns the region in force.
\<close>

datatype Credentials =
    DefaultChain
  | StaticCredentials string string string
  | AssumeRole string Credentials

record SdkConfig =
  sdk_Region :: string
  sdk_Credentials :: Credentials

type_synonym load_default = "string option \<Rightarrow> (string \<times> string \<times> string) option \<Rightarrow> string res"

definition BuildAWSConfig :: "load_default \<Rightarrow> AWSConnectorConfig option \<Rightarrow> SdkConfig res" where
  "BuildAWSConfig loadDefault c =
     (case c of
        None \<Rightarrow> Inl (ErrMsg ''AWS connector config is required'')
      | Some cfg \<Rightarrow>
          (let region = (if aw_Region cfg \<noteq> '''' then Some (aw_Region cfg) else None);
               static = (if AccessKeyID cfg \<noteq> '''' \<or> SecretAccessKey cfg \<noteq> ''''
                         then Some (AccessKeyID cfg, SecretAccessKey cfg, SessionToken cfg) else None);
               base = (case static of None \<Rightarrow> DefaultChain | Some (a, s, t) \<Rightarrow> StaticCredentials a s t)
           in case loadDefault region static of
                Inl e \<Rightarrow> Inl (Wrap ''load AWS config: '' e)
              | Inr r \<Rightarrow> Inr \<lparr>sdk_Region = r,
                   sdk_Credentials = (if AssumeRoleArn cfg \<noteq> '''' then AssumeRole (AssumeRoleArn cfg) base else base)\<rparr>))"

text \<open>The step every AWS executor has under this name.\<close>

definition loadAWSConfig :: "load_default \<Rightarrow> Spec \<Rightarrow> SdkConfig res" where
  "loadAWSConfig loadDefault spec =
     (if sp_AWS spec = None then Inl (ErrMsg ''AWS connector config is required'')
      else BuildAWSConfig loadDefault (sp_AWS spec))"

section \<open>Loops over resources\<close>

text \<open>
  A loop that stops at the first error, with the reports made so far; and the loop of a wake-up,
  which reports nothing.
\<close>

fun forEach :: "('a \<Rightarrow> 's \<Rightarrow> 'w \<Rightarrow> 's res \<times> (string \<times> json) list \<times> 'w) \<Rightarrow> 'a list \<Rightarrow> 's \<Rightarrow> 'w \<Rightarrow>
    's res \<times> (string \<times> json) list \<times> 'w" where
  "forEach f [] s w = (Inr s, [], w)"
| "forEach f (x # xs) s w =
     (case f x s w of
        (Inl e, reps, w') \<Rightarrow> (Inl e, reps, w')
      | (Inr s', reps, w') \<Rightarrow> (case forEach f xs s' w' of (r, reps', w'') \<Rightarrow> (r, reps @ reps', w'')))"

fun forRestore :: "('a \<Rightarrow> 's \<Rightarrow> 'w \<Rightarrow> 's res \<times> 'w) \<Rightarrow> 'a list \<Rightarrow> 's \<Rightarrow> 'w \<Rightarrow> 's res \<times> 'w" where
  "forRestore f [] s w = (Inr s, w)"
| "forRestore f (x # xs) s w =
     (case f x s w of (Inl e, w') \<Rightarrow> (Inl e, w') | (Inr s', w') \<Rightarrow> forRestore f xs s' w')"

text \<open>
  A part of a shutdown that touches the keys \<open>K\<close>: it reports the truth, and turns off only cells it
  reports.  A part of a wake-up: it changes cells only back to what they were.
\<close>

definition down_step :: "('w \<Rightarrow> string \<Rightarrow> 'v) \<Rightarrow> ('v \<Rightarrow> bool) \<Rightarrow> ('v \<Rightarrow> 'v) \<Rightarrow> (string \<Rightarrow> 'v \<Rightarrow> json \<Rightarrow> bool) \<Rightarrow> string set \<Rightarrow> 'w \<Rightarrow>
    (string \<times> json) list \<Rightarrow> 'w \<Rightarrow> bool" where
  "down_step cell on off codes K w reps w' \<longleftrightarrow> fst ` set reps \<subseteq> K \<and>
     (\<forall>(k, v) \<in> set reps. codes k (cell w k) v) \<and>
     (\<forall>k. cell w' k = cell w k \<or> k \<in> fst ` set reps \<and> on (cell w k) \<and> cell w' k = off (cell w k))"

definition up_step :: "('w \<Rightarrow> string \<Rightarrow> 'v) \<Rightarrow> (string \<Rightarrow> 'v) \<Rightarrow> string set \<Rightarrow> 'w \<Rightarrow> bool \<Rightarrow> 'w \<Rightarrow> bool" where
  "up_step cell f K w fin w' \<longleftrightarrow> (\<forall>k. cell w' k = cell w k \<or> k \<in> K \<and> cell w' k = f k) \<and>
     (fin \<longrightarrow> (\<forall>k \<in> K. cell w' k = f k))"

lemma down_step_seq:
  assumes "down_step cell on off codes K w reps w1" "down_step cell on off codes L w1 reps' w2" "K \<inter> L = {}"
  shows "down_step cell on off codes (K \<union> L) w (reps @ reps') w2"
proof -
  have "codes k (cell w k) v" if "(k, v) \<in> set reps'" for k v
  proof -
    have "k \<in> fst ` set reps'" using that by force
    moreover have "fst ` set reps \<subseteq> K" "fst ` set reps' \<subseteq> L" using assms by (simp_all add: down_step_def)
    ultimately have "k \<notin> fst ` set reps" using assms(3) by blast
    then have "cell w1 k = cell w k" using assms(1) by (auto simp: down_step_def)
    then show ?thesis using assms(2) that by (auto simp: down_step_def)
  qed
  moreover have "cell w2 k = cell w k \<or> k \<in> fst ` set (reps @ reps') \<and> on (cell w k) \<and> cell w2 k = off (cell w k)" for k
  proof (cases "k \<in> fst ` set reps")
    case True
    moreover have "fst ` set reps \<subseteq> K" "fst ` set reps' \<subseteq> L" using assms by (simp_all add: down_step_def)
    ultimately have "k \<notin> fst ` set reps'" using assms(3) by blast
    then have "cell w2 k = cell w1 k" using assms(2) by (auto simp: down_step_def)
    then show ?thesis using assms(1) True by (auto simp: down_step_def)
  next
    case False
    then have "cell w1 k = cell w k" using assms(1) by (auto simp: down_step_def)
    moreover have "cell w2 k = cell w1 k \<or> k \<in> fst ` set reps' \<and> on (cell w1 k) \<and> cell w2 k = off (cell w1 k)"
      using assms(2) unfolding down_step_def by blast
    ultimately show ?thesis by auto
  qed
  moreover have "fst ` set (reps @ reps') \<subseteq> K \<union> L" "\<forall>(k, v) \<in> set reps. codes k (cell w k) v"
    using assms(1,2) by (auto simp: down_step_def)
  ultimately show ?thesis unfolding down_step_def by (auto simp: split_beta)
qed

lemma up_step_seq:
  "up_step cell f K w True w1 \<Longrightarrow> up_step cell f L w1 b w2 \<Longrightarrow> up_step cell f (K \<union> L) w b w2"
  unfolding up_step_def by (metis Un_iff)

lemma down_step_refl: "down_step cell on off codes {} w [] w"
  by (simp add: down_step_def)

lemma down_step_mono: "down_step cell on off codes K w reps w' \<Longrightarrow> K \<subseteq> L \<Longrightarrow> down_step cell on off codes L w reps w'"
  by (auto simp: down_step_def)

lemma up_step_weaken: "up_step cell f K w b w' \<Longrightarrow> K \<subseteq> L \<Longrightarrow> up_step cell f L w False w'"
  by (auto simp: up_step_def)

lemma forEach_down_sets:
  assumes "\<And>x s w r reps w'. x \<in> set xs \<Longrightarrow> f x s w = (r, reps, w') \<Longrightarrow> down_step cell on off codes (K x) w reps w'"
    and "sorted_wrt (\<lambda>x y. K x \<inter> K y = {}) xs" "forEach f xs s w = (r, reps, w')"
  shows "down_step cell on off codes (\<Union>x \<in> set xs. K x) w reps w'"
  using assms
proof (induction xs arbitrary: s w r reps w')
  case Nil
  then show ?case by (simp add: down_step_refl)
next
  case (Cons x xs)
  obtain r1 reps1 w1 where f: "f x s w = (r1, reps1, w1)" by (cases "f x s w") auto
  have 1: "down_step cell on off codes (K x) w reps1 w1" using Cons.prems(1) f by auto
  show ?case
  proof (cases r1)
    case (Inl e)
    then have "reps = reps1" "w' = w1" using Cons.prems(3) f by auto
    then show ?thesis using 1 by (auto intro: down_step_mono)
  next
    case (Inr s1)
    obtain r2 reps2 w2 where fe: "forEach f xs s1 w1 = (r2, reps2, w2)" by (cases "forEach f xs s1 w1") auto
    then have "reps = reps1 @ reps2" "w' = w2" using Cons.prems(3) f Inr by auto
    moreover have "down_step cell on off codes (\<Union>x \<in> set xs. K x) w1 reps2 w2"
      using Cons.prems fe by (intro Cons.IH) auto
    ultimately show ?thesis using down_step_seq [OF 1, of "\<Union>x \<in> set xs. K x"] Cons.prems(2) by auto
  qed
qed

lemma forEach_down:
  assumes "\<And>x s w r reps w'. x \<in> set xs \<Longrightarrow> f x s w = (r, reps, w') \<Longrightarrow> down_step cell on off codes {key x} w reps w'"
    and "distinct (map key xs)" "forEach f xs s w = (r, reps, w')"
  shows "down_step cell on off codes (key ` set xs) w reps w'"
proof -
  have "sorted_wrt (\<lambda>x y. {key x} \<inter> {key y} = {}) xs"
    using assms(2) by (induction xs) (auto, metis image_eqI)
  from forEach_down_sets [where K = "\<lambda>x. {key x}", OF assms(1) this assms(3)] show ?thesis
    by (simp add: UNION_singleton_eq_range)
qed

lemma forRestore_up:
  assumes "\<And>x s w r w'. x \<in> set xs \<Longrightarrow> f x s w = (r, w') \<Longrightarrow> I w \<Longrightarrow> up_step cell g {key x} w (\<exists>s'. r = Inr s') w' \<and> I w'"
    and "forRestore f xs s w = (r, w')" "I w"
  shows "up_step cell g (key ` set xs) w (\<exists>s'. r = Inr s') w'"
  using assms
proof (induction xs arbitrary: s w r w')
  case Nil
  then show ?case by (auto simp: up_step_def)
next
  case (Cons x xs)
  obtain r1 w1 where f: "f x s w = (r1, w1)" by (cases "f x s w")
  note 1 = Cons.prems(1) [OF _ f Cons.prems(3)]
  show ?case
  proof (cases r1)
    case (Inl e)
    then have "r = Inl e" "w' = w1" using Cons.prems(2) f by auto
    then show ?thesis using 1 Inl up_step_weaken [of cell g "{key x}" w _ w1 "key ` set (x # xs)"] by auto
  next
    case (Inr s1)
    then have fe: "forRestore f xs s1 w1 = (r, w')" using Cons.prems(2) f by simp
    have "up_step cell g (key ` set xs) w1 (\<exists>s'. r = Inr s') w'"
      using 1 by (intro Cons.IH [OF Cons.prems(1) fe]) simp_all
    then show ?thesis using up_step_seq [of cell g "{key x}" w w1 "key ` set xs"] 1 Inr by auto
  qed
qed

text \<open>What every successful step establishes for its resource, and no other step undoes, holds after the loop.\<close>

lemma forEach_all_inv:
  assumes "\<And>x s w s' reps w'. x \<in> set xs \<Longrightarrow> f x s w = (Inr s', reps, w') \<Longrightarrow> I w \<Longrightarrow> Q x w'"
    and "\<And>x y s w r reps w'. y \<in> set xs \<Longrightarrow> f y s w = (r, reps, w') \<Longrightarrow> Q x w \<Longrightarrow> Q x w'"
    and "\<And>y s w r reps w'. y \<in> set xs \<Longrightarrow> f y s w = (r, reps, w') \<Longrightarrow> I w \<Longrightarrow> I w'"
    and "forEach f xs s w = (Inr s', reps, w')" "I w"
  shows "\<forall>x \<in> set xs. Q x w'"
proof -
  have keep: "Q x w'" if "forEach f ys s w = (r, reps, w')" "set ys \<subseteq> set xs" "Q x w" for x ys s w r reps w'
    using that
  proof (induction ys arbitrary: s w r reps w')
    case (Cons y ys)
    obtain r1 reps1 w1 where y: "f y s w = (r1, reps1, w1)" by (cases "f y s w") auto
    then have "Q x w1" using assms(2) Cons.prems by auto
    then show ?case using Cons.prems Cons.IH y by (cases r1) (auto split: prod.splits)
  qed simp
  have "set ys \<subseteq> set xs \<Longrightarrow> forEach f ys s w = (Inr s', reps, w') \<Longrightarrow> I w \<Longrightarrow> \<forall>x \<in> set ys. Q x w'" for ys s w reps
  proof (induction ys arbitrary: s w reps)
    case (Cons y ys)
    obtain r1 reps1 w1 where y: "f y s w = (r1, reps1, w1)" by (cases "f y s w") auto
    with Cons.prems obtain s1 reps2 where r: "r1 = Inr s1" "forEach f ys s1 w1 = (Inr s', reps2, w')"
      by (cases r1) (auto split: prod.splits)
    then have "Q y w1" "I w1" using assms(1,3) y Cons.prems(1,3) by auto
    then show ?case using Cons.IH [OF _ r(2)] keep [OF r(2)] Cons.prems(1) by auto
  qed simp
  then show ?thesis using assms(4,5) by blast
qed

lemmas forEach_all = forEach_all_inv [where I = "\<lambda>_. True", OF _ _ TrueI _ TrueI]

lemma forRestore_succeeds:
  assumes "\<And>x s w. x \<in> set xs \<Longrightarrow> I w \<Longrightarrow> \<exists>s' w'. f x s w = (Inr s', w') \<and> I w'" "I w"
  shows "\<exists>s' w'. forRestore f xs s w = (Inr s', w')"
  using assms
proof (induction xs arbitrary: s w)
  case (Cons x xs)
  obtain s1 w1 where "f x s w = (Inr s1, w1)" "I w1" using Cons.prems(1) [of x w s] Cons.prems(2) by auto
  then show ?case using Cons.IH [of w1 s1] Cons.prems(1) by auto
qed simp

section \<open>Executors that work resource by resource\<close>

locale resource_executor =
  fixes ok :: "'c \<Rightarrow> bool"
    and shutdown :: "'c \<Rightarrow> 'w shutdown_fn"
    and wakeup :: "'c \<Rightarrow> 'w wakeup_fn"
    and cell :: "'w \<Rightarrow> string \<Rightarrow> 'v"
    and on :: "'v \<Rightarrow> bool"
    and off :: "'v \<Rightarrow> 'v"
    and codes :: "string \<Rightarrow> 'v \<Rightarrow> json \<Rightarrow> bool"
    and targets :: "'c \<Rightarrow> 'w \<Rightarrow> string set"
  assumes off_is_off: "\<not> on (off x)"
    and calm_off: "\<not> on x \<Longrightarrow> codes k x v \<Longrightarrow> \<not> demanded v"
    and shutdown_down: "ok c \<Longrightarrow> shutdown c w = (r, reps, w') \<Longrightarrow> \<exists>K. down_step cell on off codes K w reps w'"
    and shutdown_stops: "ok c \<Longrightarrow> shutdown c w = (Inr msg, reps, w') \<Longrightarrow> k \<in> targets c w \<Longrightarrow> \<not> on (cell w' k)"
    and wakeup_up: "ok c \<Longrightarrow> wakeup c rd w = (r, w') \<Longrightarrow> f \<in> range cell \<Longrightarrow> distinct (map fst (xr_Data rd)) \<Longrightarrow>
      \<forall>(k, v) \<in> set (xr_Data rd). codes k (f k) v \<Longrightarrow>
      \<forall>k. cell w k = f k \<or> on (f k) \<and> cell w k = off (f k) \<Longrightarrow>
      up_step cell f (fst ` set (xr_Data rd)) w (\<exists>m. r = Inr m) w'"

sublocale resource_executor \<subseteq> executor ok shutdown wakeup cell on off codes
proof unfold_locales
  fix c w r reps w' k v
  assume h: "ok c" "shutdown c w = (r, reps, w')"
  obtain K where d: "down_step cell on off codes K w reps w'" using shutdown_down [OF h] by blast
  then show "cell w' k = cell w k \<or> k \<in> fst ` set reps \<and> on (cell w k) \<and> cell w' k = off (cell w k)"
    unfolding down_step_def by blast
  assume "(k, v) \<in> set reps"
  with d show "codes k (cell w k) v" by (auto simp: down_step_def)
next
  fix c rd w r w' f k
  assume "ok c" "wakeup c rd w = (r, w')" "f \<in> range cell" "distinct (map fst (xr_Data rd))"
    "\<forall>(k, v) \<in> set (xr_Data rd). codes k (f k) v" "\<forall>k. cell w k = f k \<or> on (f k) \<and> cell w k = off (f k)"
  from wakeup_up [OF this] show "cell w' k = cell w k \<or> cell w' k = f k" by (auto simp: up_step_def)
next
  fix c rd w msg w' f k
  assume "ok c" "wakeup c rd w = (Inr msg, w')" "f \<in> range cell" "distinct (map fst (xr_Data rd))"
    "\<forall>(k, v) \<in> set (xr_Data rd). codes k (f k) v" "\<forall>k. cell w k = f k \<or> on (f k) \<and> cell w k = off (f k)"
    "k \<in> fst ` set (xr_Data rd)"
  with wakeup_up [OF this(1-6)] show "cell w' k = f k" by (auto simp: up_step_def)
qed (use off_is_off calm_off in auto)

text \<open>
  Executors whose wake-up also returns: with a client that answers (\<open>good\<close>) it succeeds on what
  the cycle recorded of cells that can be stored (\<open>storable\<close>).
\<close>

locale reliable_executor = resource_executor +
  fixes good :: "'a \<Rightarrow> bool" and storable :: "'c \<Rightarrow> bool"
  assumes wakeup_succeeds: "ok c \<Longrightarrow> good c \<Longrightarrow> f \<in> range cell \<Longrightarrow> distinct (map fst (xr_Data rd)) \<Longrightarrow>
      \<forall>(k, v) \<in> set (xr_Data rd). codes k (f k) v \<Longrightarrow>
      \<forall>k. cell w k = f k \<or> on (f k) \<and> cell w k = off (f k) \<Longrightarrow> \<forall>k. storable (f k) \<Longrightarrow>
      \<exists>msg w'. wakeup c rd w = (Inr msg, w')"
begin

lemma wakeup_attempt_succeeds:
  assumes "rc_Operation cfg = ''wakeup''" "ok (at_cfg a)" "good (at_cfg a)" "get_err (at_api a) = None"
    and "captured cfg f s" "\<forall>k. storable (f k)" and f: "f \<in> range cell"
  shows "\<exists>msg w' st'. attemptOp cfg shutdown wakeup a s = (Inr msg, w', st')"
proof -
  obtain w st where s: "s = (w, st)" by (cases s)
  obtain d R where d: "Load (at_api a) (rc_Target cfg) st = Inr (Some d)" "tracked (\<lambda>k. codes k (f k)) R d" "under_way f R w"
    using assms(5) s by (auto simp: captured_def Load_okApi [OF assms(4)])
  let ?rd = "\<lparr>xr_Type = rd_Executor d, xr_Data = filter (\<lambda>(k, v). \<not> stale_key d k) (rd_State d), xr_IsLive = IsLive d\<rparr>"
  have load: "LoadRestoreData (at_api a) cfg st = Inr ?rd" using d(1) by (simp add: LoadRestoreData_def)
  have "\<forall>k. cell w k = f k \<or> on (f k) \<and> cell w k = off (f k)" using d(3) by (auto simp: under_way_def)
  from wakeup_succeeds [OF assms(2,3) f _ _ this assms(6), of ?rd] loaded_tracked(1,2) [OF d(2)]
  obtain msg w' where "wakeup (at_cfg a) ?rd w = (Inr msg, w')" by auto
  then show ?thesis using assms(1) load s by (simp add: attemptOp_def executeOperation_def)
qed

theorem cycle_completes:
  assumes "rc_Operation cfg = ''shutdown''" "ss \<noteq> []"
    and "\<forall>a \<in> set ss. ok (at_cfg a) \<and> (\<forall>i. proper_time (at_clock a i))" "saves_all cfg shutdown wakeup ss (w, st)"
    and "\<forall>a \<in> set (ws @ [a]). ok (at_cfg a)" "new_cycle cfg st"
    and "s = attempts (wakeupOf cfg) shutdown wakeup ws (attempts cfg shutdown wakeup ss (w, st))"
  shows "(\<forall>msg w' st'. attemptOp (wakeupOf cfg) shutdown wakeup a s = (Inr msg, w', st') \<longrightarrow> cell w' = cell w) \<and>
    (good (at_cfg a) \<and> get_err (at_api a) = None \<and> (\<forall>k. storable (cell w k)) \<longrightarrow>
       (\<exists>msg w' st'. attemptOp (wakeupOf cfg) shutdown wakeup a s = (Inr msg, w', st')))"
  using cycle_roundtrip [OF assms] wakeup_attempt_succeeds [OF _ _ _ _ cycle_captured [OF assms(1-4) _ assms(6)], of a ws] assms(5,7)
  by (auto simp: wakeupOf_def)

end

section \<open>Sample values\<close>

text \<open>Decoders that reject everything, a clock, and the job of the shutdown of target \<open>t\<close> in cycle \<open>c1\<close>.\<close>

definition demoLibs :: ParamLibs where
  "demoLibs = \<lparr>decodeMap = (\<lambda>_. Inl (ErrMsg ''invalid JSON'')), decodeEC2 = (\<lambda>_. Inl (ErrMsg ''invalid JSON'')), decodeRDS = (\<lambda>_. Inl (ErrMsg ''invalid JSON'')),
      decodeEKS = (\<lambda>_. Inl (ErrMsg ''invalid JSON'')), decodeKarpenter = (\<lambda>_. Inl (ErrMsg ''invalid JSON'')),
      decodeGKE = (\<lambda>_. Inl (ErrMsg ''invalid JSON'')), decodeCloudSQL = (\<lambda>_. Inl (ErrMsg ''invalid JSON'')),
      decodeWorkloadScaler = (\<lambda>_. Inl (ErrMsg ''invalid JSON'')), labelSelectorErrors = (\<lambda>_. None),
      errorText = (\<lambda>_. '''')\<rparr>"

definition demoTime :: Time where "demoTime = \<lparr>t_ns = Hour, t_loc = UTC\<rparr>"

definition demoJob :: "string \<Rightarrow> RunnerConfig" where
  "demoJob typ = \<lparr>rc_Operation = ''shutdown'', rc_Plan = ''p'', rc_Target = ''t'', rc_TargetType = typ, rc_CycleID = ''c1''\<rparr>"

definition demoAttempt :: "'c \<Rightarrow> 'c attempt" where
  "demoAttempt c = \<lparr>at_api = okApi, at_clock = (\<lambda>_. demoTime), at_time = demoTime, at_cfg = c\<rparr>"

definition demoSpec :: Spec where
  "demoSpec = \<lparr>sp_TargetName = ''t'', sp_TargetType = ''x'', sp_Parameters = ''{}'',
     sp_AWS = Some \<lparr>aw_Region = ''eu-1'', AccountID = '''', AssumeRoleArn = '''', AccessKeyID = '''', SecretAccessKey = '''',
       SessionToken = ''''\<rparr>, sp_K8S = None\<rparr>"

lemma demo_reliable [simp]: "cm_reliable okApi" "proper_time demoTime"
  by (simp_all add: cm_reliable_def okApi_def proper_time_def demoTime_def IsZero_def toSeconds_def zero_ns_def)

lemma demo_sel [simp]: "rc_Operation (demoJob typ) = ''shutdown''" "new_cycle (demoJob typ) None"
    "at_api (demoAttempt c) = okApi" "at_clock (demoAttempt c) i = demoTime" "at_cfg (demoAttempt c) = c" "get_err okApi = None"
  by (simp_all add: demoJob_def new_cycle_def demoAttempt_def Load_absent okApi_def)

end
