(* ===== verification/Eks.thy ===== *)
theory Eks
  imports ExecBase
begin

text \<open>
  The EKS executor (\<^verbatim>\<open>internal/executor/eks\<close>): a shutdown scales managed node groups to zero and
  reports their sizes, a wake-up writes the sizes back.  In the errors of the EKS client,
  \<open>NotFound\<close> is \<open>ResourceNotFoundException\<close>.  What the goroutines of a wait observe is given per node
  group by the environment; their errors are only counted.
\<close>

record NodegroupScalingConfig =
  DesiredSize :: "int option"
  MinSize :: "int option"
  MaxSize :: "int option"

record Nodegroup =
  ng_Status :: string
  ScalingConfig :: "NodegroupScalingConfig option"

record Cluster =
  Endpoint :: string
  CertificateAuthority :: "string option"

record 'w EKSClient =
  ListNodegroups :: "string \<Rightarrow> 'w \<Rightarrow> (string list) res"
  DescribeNodegroup :: "string \<Rightarrow> string \<Rightarrow> 'w \<Rightarrow> Nodegroup res"
  UpdateNodegroupConfig :: "string \<Rightarrow> string \<Rightarrow> NodegroupScalingConfig \<Rightarrow> 'w \<Rightarrow> go_error option \<times> 'w"
  DescribeCluster :: "string \<Rightarrow> 'w \<Rightarrow> (Cluster option) res"

record 'w EksEnv =
  ek_libs :: ParamLibs
  ek_spec :: Spec
  ek_loadDefault :: load_default
  eksFactory :: "SdkConfig \<Rightarrow> 'w EKSClient"
  ek_k8sFactory :: "K8SConnectorConfig \<Rightarrow> go_error option"
  nodeLists :: "string \<Rightarrow> (nat res) waitRun"
  groupStates :: "string \<Rightarrow> (Nodegroup res) waitRun"

section \<open>State and messages\<close>

record NodeGroupState =
  st_DesiredSize :: int
  st_MinSize :: int
  st_MaxSize :: int
  WasScaled :: bool

definition encodeNodeGroup :: "NodeGroupState \<Rightarrow> json" where
  "encodeNodeGroup s = JObj [(''desired'', jint (st_DesiredSize s)), (''max'', jint (st_MaxSize s)),
     (''min'', jint (st_MinSize s)), (''wasScaled'', JBool (WasScaled s))]"

definition decodeNodeGroup :: "json \<Rightarrow> NodeGroupState res" where
  "decodeNodeGroup v =
     (case jmembers v of
        Inl e \<Rightarrow> Inl e
      | Inr m \<Rightarrow>
          (case (decodeField jint32 0 ''desired'' m, decodeField jint32 0 ''min'' m, decodeField jint32 0 ''max'' m,
                 decodeField jbool False ''wasScaled'' m) of
             (Inr d, Inr mi, Inr ma, Inr b) \<Rightarrow> Inr \<lparr>st_DesiredSize = d, st_MinSize = mi, st_MaxSize = ma, WasScaled = b\<rparr>
           | _ \<Rightarrow> Inl (typeError ''NodeGroupState'')))"

datatype operationOutcome = OutcomeApplied | OutcomeSkippedStale

definition countOutcome :: "operationOutcome \<Rightarrow> operationStats \<Rightarrow> operationStats" where
  "countOutcome o1 st = (case o1 of OutcomeApplied \<Rightarrow> st\<lparr>applied := applied st + 1\<rparr>
     | OutcomeSkippedStale \<Rightarrow> st\<lparr>skippedStale := skippedStale st + 1\<rparr>)"

definition formatShutdownMessage :: "string \<Rightarrow> operationStats \<Rightarrow> string" where
  "formatShutdownMessage clusterName stats =
     appendCountSegment (''scaled '' @ show_nat (applied stats) @ '' node group(s) to zero in EKS cluster '' @ clusterName)
       ''skipped'' (skippedStale stats) ''stale node group''"

definition formatWakeUpMessage :: "string \<Rightarrow> operationStats \<Rightarrow> string" where
  "formatWakeUpMessage clusterName stats =
     appendCountSegment (''restored '' @ show_nat (applied stats) @ '' node group(s) in EKS cluster '' @ clusterName)
       ''skipped'' (skippedStale stats) ''stale node group''"

section \<open>Setup\<close>

definition zeroEKSParameters :: EKSParameters where
  "zeroEKSParameters = \<lparr>ClusterName = '''', NodeGroups = [], ek_AwaitCompletion = \<lparr>Enabled = False, ac_Timeout = ''''\<rparr>\<rparr>"

definition parseParams :: "ParamLibs \<Rightarrow> string \<Rightarrow> EKSParameters res" where
  "parseParams L raw = (if raw = '''' then Inr zeroEKSParameters else decodeEKS L raw)"

definition Validate :: "'w EksEnv \<Rightarrow> go_error option" where
  "Validate e =
     (case sp_AWS (ek_spec e) of
        None \<Rightarrow> Some (ErrMsg ''AWS connector config required for EKS executor'')
      | Some a \<Rightarrow>
          if aw_Region a = '''' then Some (ErrMsg ''AWS region is required'')
          else (case parseParams (ek_libs e) (sp_Parameters (ek_spec e)) of
                  Inl er \<Rightarrow> Some (Wrap ''parse parameters: '' er)
                | Inr p \<Rightarrow> if ClusterName p = '''' then Some (ErrMsg ''clusterName is required'') else None))"

definition getClusterInfo :: "'w EKSClient \<Rightarrow> string \<Rightarrow> 'w \<Rightarrow> (string \<times> string) res" where
  "getClusterInfo c clusterName w =
     (case DescribeCluster c clusterName w of
        Inl e \<Rightarrow> Inl (Wrap (''describe cluster '' @ clusterName @ '': '') e)
      | Inr None \<Rightarrow> Inl (ErrMsg (''cluster '' @ clusterName @ '' not found''))
      | Inr (Some cl) \<Rightarrow>
          if Endpoint cl = '''' then Inl (ErrMsg ''cluster endpoint not available'')
          else (case CertificateAuthority cl of
                  None \<Rightarrow> Inl Panic
                | Some ca \<Rightarrow>
                    if ca = '''' then Inl (ErrMsg ''cluster certificate authority data missing'')
                    else (case DecodeString ca of
                            Inl e \<Rightarrow> Inl (Wrap ''decode certificate authority data: '' e)
                          | Inr bs \<Rightarrow> Inr (Endpoint cl, bs))))"

definition setupK8SClient :: "'w EksEnv \<Rightarrow> 'w EKSClient \<Rightarrow> SdkConfig \<Rightarrow> string \<Rightarrow> 'w \<Rightarrow> go_error option" where
  "setupK8SClient e c cfg clusterName w =
     (case getClusterInfo c clusterName w of
        Inl er \<Rightarrow> Some er
      | Inr (ep, ca) \<Rightarrow>
          (case ek_k8sFactory e \<lparr>kc_ClusterName = clusterName, kc_Region = sdk_Region cfg, Kubeconfig = '''',
                  ClusterEndpoint = ep, ClusterCAData = ca, UseEKSToken = True, kc_AWS = sp_AWS (ek_spec e)\<rparr> of
             Some er \<Rightarrow> Some (Wrap ''create Kubernetes client: '' er)
           | None \<Rightarrow> None))"

definition determineTargetNodeGroups :: "'w EKSClient \<Rightarrow> string \<Rightarrow> EKSParameters \<Rightarrow> 'w \<Rightarrow> (string list) res" where
  "determineTargetNodeGroups c clusterName params w =
     (case (if NodeGroups params = [] then ListNodegroups c clusterName w else Inr (NodeGroups params)) of
        Inl e \<Rightarrow> Inl (Wrap ''list node groups: '' e)
      | Inr gs \<Rightarrow> if gs = [] then Inl (ErrMsg (''no node groups found in cluster '' @ clusterName)) else Inr gs)"

section \<open>One node group\<close>

definition ToInt32 :: "int option \<Rightarrow> int" where
  "ToInt32 p = (case p of None \<Rightarrow> 0 | Some i \<Rightarrow> i)"

definition sizesOf :: "NodegroupScalingConfig \<Rightarrow> int \<times> int \<times> int" where
  "sizesOf s = (ToInt32 (DesiredSize s), ToInt32 (MinSize s), ToInt32 (MaxSize s))"

definition groupState :: "int \<times> int \<times> int \<Rightarrow> NodeGroupState" where
  "groupState s = (case s of (d, mi, ma) \<Rightarrow>
     \<lparr>st_DesiredSize = d, st_MinSize = mi, st_MaxSize = ma, WasScaled = (d > 0)\<rparr>)"

text \<open>The result carries the outcome and what joins the waiting list.\<close>

definition scaleNodeGroupToZero ::
    "'w EKSClient \<Rightarrow> string \<Rightarrow> EKSParameters \<Rightarrow> string \<Rightarrow> 'w \<Rightarrow>
     (operationOutcome \<times> string list) res \<times> (string \<times> json) list \<times> 'w" where
  "scaleNodeGroupToZero c clusterName params ng w =
     (case DescribeNodegroup c clusterName ng w of
        Inl e \<Rightarrow> (if is_not_found e then Inr (OutcomeSkippedStale, []) else Inl e, [], w)
      | Inr desc \<Rightarrow>
          (case ScalingConfig desc of
             None \<Rightarrow> (Inl Panic, [], w)
           | Some sc \<Rightarrow>
               (let state = groupState (sizesOf sc); report = [(ng, encodeNodeGroup state)] in
                if WasScaled state then
                  (case UpdateNodegroupConfig c clusterName ng
                          \<lparr>DesiredSize = Some 0, MinSize = Some 0, MaxSize = Some (st_MaxSize state)\<rparr> w of
                     (Some e, w') \<Rightarrow> (if is_not_found e then Inr (OutcomeSkippedStale, []) else Inl e, [], w')
                   | (None, w') \<Rightarrow>
                       (Inr (OutcomeApplied, if Enabled (ek_AwaitCompletion params) then [ng] else []), report, w'))
                else (Inr (OutcomeApplied, []), report, w))))"

definition restoreNodeGroup ::
    "'w EKSClient \<Rightarrow> string \<Rightarrow> EKSParameters \<Rightarrow> string \<Rightarrow> NodeGroupState \<Rightarrow> 'w \<Rightarrow>
     (operationOutcome \<times> string list) res \<times> 'w" where
  "restoreNodeGroup c clusterName params ng state w =
     (case DescribeNodegroup c clusterName ng w of
        Inl e \<Rightarrow> (if is_not_found e then Inr (OutcomeSkippedStale, []) else Inl e, w)
      | Inr _ \<Rightarrow>
          (case UpdateNodegroupConfig c clusterName ng
                  \<lparr>DesiredSize = Some (st_DesiredSize state), MinSize = Some (st_MinSize state),
                   MaxSize = Some (st_MaxSize state)\<rparr> w of
             (Some e, w') \<Rightarrow> (if is_not_found e then Inr (OutcomeSkippedStale, []) else Inl e, w')
           | (None, w') \<Rightarrow> (Inr (OutcomeApplied, if Enabled (ek_AwaitCompletion params) then [ng] else []), w')))"

section \<open>Waiting\<close>

definition waitForNodesDeleted :: "(nat res) waitRun \<Rightarrow> string \<Rightarrow> string \<Rightarrow> go_error option" where
  "waitForNodesDeleted r ng timeout =
     waitFor (Wrap ''create waiter: '') timeout (''ManagedNodeGroup '' @ ng @ '' nodes to be deleted'')
       (\<lambda>x. case x of
          Inl e \<Rightarrow> Inl (Wrap ''list nodes: '' e)
        | Inr n \<Rightarrow> Inr (if n = 0 then (True, ''all nodes deleted'')
                       else (False, show_nat n @ '' node(s) still exist, waiting for deletion''))) r"

definition waitForNodeGroupActive :: "(Nodegroup res) waitRun \<Rightarrow> string \<Rightarrow> string \<Rightarrow> string \<Rightarrow> go_error option" where
  "waitForNodeGroupActive r clusterName ng timeout =
     waitFor id timeout (''node group '' @ clusterName @ ''/'' @ ng @ '' to become active'')
       (\<lambda>x. case x of
          Inl e \<Rightarrow> Inl e
        | Inr d \<Rightarrow>
            (case ScalingConfig d of
               None \<Rightarrow> Inl Panic
             | Some sc \<Rightarrow>
                 Inr (ng_Status d = ''ACTIVE'',
                      ''status='' @ ng_Status d @ '', current='' @ show_int (ToInt32 (DesiredSize sc)) @
                      '', desired='' @ show_int (ToInt32 (DesiredSize sc))))) r"

definition DefaultWaitTimeout :: string where "DefaultWaitTimeout = ''10m''"

text \<open>What an awaited completion adds to the message.\<close>

definition awaitMessage :: "AwaitCompletion \<Rightarrow> (string \<Rightarrow> string \<Rightarrow> go_error option) \<Rightarrow> string list \<Rightarrow> string \<Rightarrow> string \<Rightarrow> string" where
  "awaitMessage a wait waiting pending allDone =
     (if Enabled a then
        (let timeout = (if ac_Timeout a = '''' then DefaultWaitTimeout else ac_Timeout a);
             failed = length (filter (\<lambda>ng. wait ng timeout \<noteq> None) waiting)
         in if failed > 0
            then ''; '' @ show_nat failed @ '' of '' @ show_nat (length waiting) @ '' node group(s) '' @ pending @
                 '' after '' @ timeout @ '' timeout''
            else ''; '' @ allDone)
      else '''')"

section \<open>The operations\<close>

text \<open>The bodies of the two loops over node groups, on the counters and the waiting list.\<close>

type_synonym progress = "operationStats \<times> string list"

definition scaleStep :: "'w EKSClient \<Rightarrow> string \<Rightarrow> EKSParameters \<Rightarrow> string \<Rightarrow> progress \<Rightarrow> 'w \<Rightarrow>
    progress res \<times> (string \<times> json) list \<times> 'w" where
  "scaleStep c clusterName params ng p w =
     (case scaleNodeGroupToZero c clusterName params ng w of
        (Inl er, reps, w') \<Rightarrow> (Inl (Wrap (''scale node group '' @ ng @ '': '') er), reps, w')
      | (Inr (outcome, wait), reps, w') \<Rightarrow> (Inr (countOutcome outcome (fst p), snd p @ wait), reps, w'))"

definition restoreStep :: "'w EKSClient \<Rightarrow> string \<Rightarrow> EKSParameters \<Rightarrow> string \<times> json \<Rightarrow> progress \<Rightarrow> 'w \<Rightarrow> progress res \<times> 'w" where
  "restoreStep c clusterName params entry p w =
     (case entry of (ng, stateBytes) \<Rightarrow>
        (case decodeNodeGroup stateBytes of
           Inl er \<Rightarrow> (Inl (Wrap (''unmarshal node group state '' @ ng @ '': '') er), w)
         | Inr state \<Rightarrow>
             if \<not> WasScaled state then (Inr ((fst p)\<lparr>skippedStale := skippedStale (fst p) + 1\<rparr>, snd p), w)
             else (case restoreNodeGroup c clusterName params ng state w of
                     (Inl er, w') \<Rightarrow> (Inl (Wrap (''restore node group '' @ ng @ '': '') er), w')
                   | (Inr (outcome, wait), w') \<Rightarrow> (Inr (countOutcome outcome (fst p), snd p @ wait), w'))))"

definition Shutdown :: "'w EksEnv \<Rightarrow> 'w shutdown_fn" where
  "Shutdown e w =
     (case parseParams (ek_libs e) (sp_Parameters (ek_spec e)) of
        Inl er \<Rightarrow> (Inl (Wrap ''parse parameters: '' er), [], w)
      | Inr params \<Rightarrow>
     (case loadAWSConfig (ek_loadDefault e) (ek_spec e) of
        Inl er \<Rightarrow> (Inl (Wrap ''load AWS config: '' er), [], w)
      | Inr cfg \<Rightarrow>
     (let c = eksFactory e cfg; clusterName = ClusterName params in
      case setupK8SClient e c cfg clusterName w of
        Some er \<Rightarrow> (Inl (Wrap ''setup Kubernetes client: '' er), [], w)
      | None \<Rightarrow>
     (case determineTargetNodeGroups c clusterName params w of
        Inl er \<Rightarrow> (Inl (Wrap ''determine target node groups: '' er), [], w)
      | Inr groups \<Rightarrow>
     (case forEach (scaleStep c clusterName params) groups (\<lparr>processed = length groups, applied = 0, skippedStale = 0\<rparr>, []) w of
        (Inl er, reps, w') \<Rightarrow> (Inl er, reps, w')
      | (Inr (stats, waiting), reps, w') \<Rightarrow>
          (Inr (formatShutdownMessage clusterName stats @
                awaitMessage (ek_AwaitCompletion params) (\<lambda>ng. waitForNodesDeleted (nodeLists e ng) ng) waiting
                  ''still have nodes'' ''all nodes terminated''), reps, w'))))))"

definition WakeUp :: "'w EksEnv \<Rightarrow> 'w wakeup_fn" where
  "WakeUp e restore w =
     (if xr_Data restore = [] then (Inr ''wakeup completed for EKS (no restore data)'', w)
      else (case parseParams (ek_libs e) (sp_Parameters (ek_spec e)) of
        Inl er \<Rightarrow> (Inl (Wrap ''parse parameters: '' er), w)
      | Inr params \<Rightarrow>
     (case loadAWSConfig (ek_loadDefault e) (ek_spec e) of
        Inl er \<Rightarrow> (Inl (Wrap ''load AWS config: '' er), w)
      | Inr cfg \<Rightarrow>
     (let c = eksFactory e cfg; clusterName = ClusterName params in
      case forRestore (restoreStep c clusterName params)
             (xr_Data restore) (\<lparr>processed = length (xr_Data restore), applied = 0, skippedStale = 0\<rparr>, []) w of
        (Inl er, w') \<Rightarrow> (Inl er, w')
      | (Inr (stats, waiting), w') \<Rightarrow>
          (Inr (formatWakeUpMessage clusterName stats @
                awaitMessage (ek_AwaitCompletion params) (\<lambda>ng. waitForNodeGroupActive (groupStates e ng) clusterName ng) waiting
                  ''not yet active'' ''all node groups active''), w')))))"

section \<open>The laws\<close>

text \<open>
  What the laws need of EKS, for the sizes \<open>truth\<close> of the node groups of the cluster \<open>cl\<close>: a description
  is the truth, a successful update sets exactly its node group, a failed call changes nothing, and
  a node group that is reported missing is missing.
\<close>

type_synonym sizes = "int \<times> int \<times> int"

definition eks_client_ok :: "('w \<Rightarrow> string \<Rightarrow> sizes option) \<Rightarrow> string \<Rightarrow> 'w EKSClient \<Rightarrow> bool" where
  "eks_client_ok truth cl c \<longleftrightarrow>
     (\<forall>ng w. case DescribeNodegroup c cl ng w of
        Inr d \<Rightarrow> (\<forall>sc. ScalingConfig d = Some sc \<longrightarrow> truth w ng = Some (sizesOf sc))
      | Inl e \<Rightarrow> is_not_found e \<longrightarrow> truth w ng = None) \<and>
     (\<forall>ng sc w. case UpdateNodegroupConfig c cl ng sc w of
        (None, w') \<Rightarrow> truth w' = (truth w)(ng \<mapsto> sizesOf sc)
      | (Some e, w') \<Rightarrow> truth w' = truth w \<and> (is_not_found e \<longrightarrow> truth w ng = None))"

text \<open>The parameters name each node group once, and so does the listing.\<close>

definition eks_ok :: "('w \<Rightarrow> string \<Rightarrow> sizes option) \<Rightarrow> string \<Rightarrow> 'w EksEnv \<Rightarrow> bool" where
  "eks_ok truth cl e \<longleftrightarrow>
     (\<forall>p cfg. parseParams (ek_libs e) (sp_Parameters (ek_spec e)) = Inr p \<longrightarrow>
        loadAWSConfig (ek_loadDefault e) (ek_spec e) = Inr cfg \<longrightarrow>
        ClusterName p = cl \<and> eks_client_ok truth cl (eksFactory e cfg) \<and> distinct (NodeGroups p) \<and>
        (\<forall>w gs. ListNodegroups (eksFactory e cfg) cl w = Inr gs \<longrightarrow> distinct gs))"

definition eks_on :: "sizes option \<Rightarrow> bool" where
  "eks_on x = (case x of None \<Rightarrow> False | Some (d, mi, ma) \<Rightarrow> d > 0)"

definition eks_off :: "sizes option \<Rightarrow> sizes option" where
  "eks_off x = map_option (\<lambda>(d, mi, ma). (0, 0, ma)) x"

definition eks_enc :: "string \<Rightarrow> sizes option \<Rightarrow> json" where
  "eks_enc k x = (case x of None \<Rightarrow> JNull | Some s \<Rightarrow> encodeNodeGroup (groupState s))"

definition eks_codes :: "string \<Rightarrow> sizes option \<Rightarrow> json \<Rightarrow> bool" where
  "eks_codes k x v \<longleftrightarrow> v = eks_enc k x"

lemma decode_encode_group:
  "decodeNodeGroup (encodeNodeGroup s) =
     (if int32 (st_DesiredSize s) \<and> int32 (st_MinSize s) \<and> int32 (st_MaxSize s) then Inr s
      else Inl (typeError ''NodeGroupState''))"
  by (simp add: decodeNodeGroup_def encodeNodeGroup_def jmembers_def decodeField_def fieldValues_def EqualFold_def
      ToUpper_def to_upper_def)

lemma demanded_group [simp]: "demanded (encodeNodeGroup s) \<longleftrightarrow> WasScaled s"
  by (simp add: demanded_def encodeNodeGroup_def isDemandedState_def jsonTrue_def)

lemma eks_describe:
  assumes "eks_client_ok truth cl c"
  shows "case DescribeNodegroup c cl ng w of
      Inr d \<Rightarrow> (\<forall>sc. ScalingConfig d = Some sc \<longrightarrow> truth w ng = Some (sizesOf sc))
    | Inl e \<Rightarrow> is_not_found e \<longrightarrow> truth w ng = None"
  by (rule assms [unfolded eks_client_ok_def, THEN conjunct1, THEN spec, THEN spec])

lemma eks_update:
  assumes "eks_client_ok truth cl c"
  shows "case UpdateNodegroupConfig c cl ng sc w of
      (None, w') \<Rightarrow> truth w' = (truth w)(ng \<mapsto> sizesOf sc)
    | (Some e, w') \<Rightarrow> truth w' = truth w \<and> (is_not_found e \<longrightarrow> truth w ng = None)"
  by (rule assms [unfolded eks_client_ok_def, THEN conjunct2, THEN spec, THEN spec, THEN spec])

lemma scale_down:
  assumes "eks_client_ok truth cl c" "scaleNodeGroupToZero c cl params ng w = (r, reps, w')"
  shows "down_step truth eks_on eks_off eks_codes {ng} w reps w'"
proof (cases "\<exists>desc sc. DescribeNodegroup c cl ng w = Inr desc \<and> ScalingConfig desc = Some sc")
  case True
  then obtain desc sc where d: "DescribeNodegroup c cl ng w = Inr desc" "ScalingConfig desc = Some sc" by blast
  with eks_describe [OF assms(1), where ng = ng and w = w] have t: "truth w ng = Some (sizesOf sc)" by simp
  show ?thesis
    using assms(2) d t
      eks_update [OF assms(1), where ng = ng and w = w and sc = "\<lparr>DesiredSize = Some 0, MinSize = Some 0, MaxSize = Some (ToInt32 (MaxSize sc))\<rparr>"]
    by (auto simp: scaleNodeGroupToZero_def Let_def down_step_def groupState_def eks_on_def eks_off_def eks_enc_def eks_codes_def
        sizesOf_def ToInt32_def [of "Some _"] split: option.splits prod.splits if_splits)
next
  case False
  with assms(2) have "reps = []" "w' = w"
    by (auto simp: scaleNodeGroupToZero_def split: sum.splits option.splits)
  then show ?thesis by (simp add: down_step_def)
qed

lemma restore_up:
  assumes c: "eks_client_ok truth cl c" and r: "restoreNodeGroup c cl params ng (groupState s) w = (r, w')"
    and w: "truth w ng = Some s \<or> truth w ng = eks_off (Some s)"
    and f: "f ng = Some s"
  shows "up_step truth f {ng} w (\<exists>x. r = Inr x) w'"
proof -
  obtain d mi ma where s: "s = (d, mi, ma)" by (cases s)
  then show ?thesis
    using r w f eks_describe [OF c, where ng = ng and w = w]
      eks_update [OF c, where ng = ng and w = w and sc = "\<lparr>DesiredSize = Some d, MinSize = Some mi, MaxSize = Some ma\<rparr>"]
    by (auto simp: restoreNodeGroup_def groupState_def up_step_def eks_off_def sizesOf_def ToInt32_def
        split: sum.splits option.splits prod.splits if_splits)
qed

lemma eks_Shutdown_down:
  assumes "eks_ok truth cl e" "Shutdown e w = (r, reps, w')"
  shows "\<exists>K. down_step truth eks_on eks_off eks_codes K w reps w'"
proof (cases "\<exists>p cfg gs. parseParams (ek_libs e) (sp_Parameters (ek_spec e)) = Inr p \<and>
    loadAWSConfig (ek_loadDefault e) (ek_spec e) = Inr cfg \<and>
    setupK8SClient e (eksFactory e cfg) cfg (ClusterName p) w = None \<and>
    determineTargetNodeGroups (eksFactory e cfg) (ClusterName p) p w = Inr gs")
  case True
  then obtain p cfg gs where h: "parseParams (ek_libs e) (sp_Parameters (ek_spec e)) = Inr p"
      "loadAWSConfig (ek_loadDefault e) (ek_spec e) = Inr cfg"
      "setupK8SClient e (eksFactory e cfg) cfg (ClusterName p) w = None"
      "determineTargetNodeGroups (eksFactory e cfg) (ClusterName p) p w = Inr gs" by blast
  let ?c = "eksFactory e cfg"
  have ok: "ClusterName p = cl" "eks_client_ok truth cl ?c" "distinct gs"
    using assms(1) h by (auto simp: eks_ok_def determineTargetNodeGroups_def split: sum.splits if_splits)
  let ?f = "scaleStep ?c cl p"
  have step: "down_step truth eks_on eks_off eks_codes {ng} w reps w'" if "?f ng s w = (r, reps, w')" for ng s w r reps w'
    using that scale_down [OF ok(2)] by (fastforce simp: scaleStep_def split: prod.splits sum.splits)
  obtain s r' where "forEach ?f gs s w = (r', reps, w')"
    using assms(2) h ok(1) by (auto simp: Shutdown_def Let_def split: prod.splits sum.splits)
  then have "down_step truth eks_on eks_off eks_codes (id ` set gs) w reps w'"
    using ok(3) by (intro forEach_down [of gs ?f truth eks_on eks_off eks_codes id]) (auto intro: step)
  then show ?thesis by blast
next
  case False
  then have "reps = []" "w' = w"
    using assms(2) by (auto simp: Shutdown_def Let_def split: sum.splits option.splits)
  then show ?thesis using down_step_refl [of truth eks_on eks_off eks_codes w] by auto
qed

lemma eks_restoreStep_up:
  assumes c: "eks_client_ok truth cl c" and r: "restoreStep c cl params (ng, eks_enc ng (f ng)) s w = (r, w')"
    and w: "truth w ng = f ng \<or> eks_on (f ng) \<and> truth w ng = eks_off (f ng)"
  shows "up_step truth f {ng} w (\<exists>x. r = Inr x) w'"
proof (cases "f ng")
  case None
  then show ?thesis
    using r w by (simp add: restoreStep_def eks_enc_def eks_codes_def decodeNodeGroup_def jmembers_def decodeField_def fieldValues_def
        up_step_def eks_on_def)
next
  case (Some z)
  show ?thesis
  proof (cases "decodeNodeGroup (encodeNodeGroup (groupState z)) = Inr (groupState z) \<and> WasScaled (groupState z)")
    case True
    then obtain r' where "restoreNodeGroup c cl params ng (groupState z) w = (r', w')" "(\<exists>x. r' = Inr x) = (\<exists>x. r = Inr x)"
      using r Some by (auto simp: restoreStep_def eks_enc_def eks_codes_def split: prod.splits sum.splits)
    then show ?thesis using restore_up [OF c, of params ng z w r' w' f] Some w by auto
  next
    case False
    then have "w' = w \<and> ((\<exists>x. r = Inr x) \<longrightarrow> \<not> eks_on (f ng))"
      using r Some by (auto simp: restoreStep_def eks_enc_def eks_codes_def decode_encode_group eks_on_def groupState_def
          split: if_splits prod.splits)
    then show ?thesis using w by (auto simp: up_step_def)
  qed
qed

lemma eks_WakeUp_up:
  assumes ok: "eks_ok truth cl e" and wk: "WakeUp e rd w = (r, w')"
    and D: "\<forall>(k, v) \<in> set (xr_Data rd). eks_codes k (f k) v"
    and w: "\<forall>k. truth w k = f k \<or> eks_on (f k) \<and> truth w k = eks_off (f k)"
  shows "up_step truth f (fst ` set (xr_Data rd)) w (\<exists>m. r = Inr m) w'"
proof (cases "xr_Data rd \<noteq> [] \<and> (\<exists>p cfg. parseParams (ek_libs e) (sp_Parameters (ek_spec e)) = Inr p \<and>
    loadAWSConfig (ek_loadDefault e) (ek_spec e) = Inr cfg)")
  case True
  then obtain p cfg where h: "xr_Data rd \<noteq> []" "parseParams (ek_libs e) (sp_Parameters (ek_spec e)) = Inr p"
      "loadAWSConfig (ek_loadDefault e) (ek_spec e) = Inr cfg" by blast
  let ?c = "eksFactory e cfg" and ?I = "\<lambda>w. \<forall>k. truth w k = f k \<or> eks_on (f k) \<and> truth w k = eks_off (f k)"
  have c: "ClusterName p = cl" "eks_client_ok truth cl ?c" using ok h by (auto simp: eks_ok_def)
  have step: "up_step truth f {fst x} w (\<exists>s'. r = Inr s') w' \<and> ?I w'"
    if "x \<in> set (xr_Data rd)" "restoreStep ?c cl p x s w = (r, w')" "?I w" for x s w r w'
  proof -
    have "x = (fst x, eks_enc (fst x) (f (fst x)))" using that(1) D by (cases x) (auto simp: eks_codes_def)
    with that(2) have "restoreStep ?c cl p (fst x, eks_enc (fst x) (f (fst x))) s w = (r, w')" by metis
    from eks_restoreStep_up [where f = f, OF c(2) this] that(3) show ?thesis unfolding up_step_def by metis
  qed
  obtain s r' where "forRestore (restoreStep ?c cl p) (xr_Data rd) s w = (r', w')" "(\<exists>m. r = Inr m) = (\<exists>m. r' = Inr m)"
    using wk h c(1) by (auto simp: WakeUp_def Let_def split: prod.splits sum.splits)
  then show ?thesis using forRestore_up [of "xr_Data rd" "restoreStep ?c cl p" ?I truth f fst s w r' w'] step w by auto
next
  case False
  then have "w' = w" "xr_Data rd = [] \<or> (\<forall>m. r \<noteq> Inr m)"
    using wk by (auto simp: WakeUp_def split: sum.splits if_splits)
  then show ?thesis by (auto simp: up_step_def)
qed

section \<open>The executor contract\<close>

text \<open>The node groups a shutdown is about: the named ones, or all of the cluster.\<close>

definition eks_targets :: "'w EksEnv \<Rightarrow> 'w \<Rightarrow> string set" where
  "eks_targets e w =
     (case parseParams (ek_libs e) (sp_Parameters (ek_spec e)) of
        Inl _ \<Rightarrow> {}
      | Inr p \<Rightarrow>
          if NodeGroups p \<noteq> [] then set (NodeGroups p)
          else (case loadAWSConfig (ek_loadDefault e) (ek_spec e) of
                  Inl _ \<Rightarrow> {}
                | Inr cfg \<Rightarrow> (case ListNodegroups (eksFactory e cfg) (ClusterName p) w of Inl _ \<Rightarrow> {} | Inr gs \<Rightarrow> set gs)))"

lemma scale_stops:
  assumes "eks_client_ok truth cl c" "scaleStep c cl params ng p w = (Inr x, reps, w')"
  shows "\<not> eks_on (truth w' ng)"
proof (cases "DescribeNodegroup c cl ng w")
  case (Inl e)
  then show ?thesis
    using assms eks_describe [OF assms(1), where ng = ng and w = w]
    by (auto simp: scaleStep_def scaleNodeGroupToZero_def eks_on_def split: if_splits)
next
  case (Inr desc)
  then obtain sc where sc: "ScalingConfig desc = Some sc"
    using assms(2) by (auto simp: scaleStep_def scaleNodeGroupToZero_def split: option.splits)
  with Inr eks_describe [OF assms(1), where ng = ng and w = w] have "truth w ng = Some (sizesOf sc)" by simp
  then show ?thesis
    using assms(2) Inr sc
      eks_update [OF assms(1), where ng = ng and w = w and sc = "\<lparr>DesiredSize = Some 0, MinSize = Some 0, MaxSize = Some (ToInt32 (MaxSize sc))\<rparr>"]
    by (auto simp: scaleStep_def scaleNodeGroupToZero_def Let_def groupState_def eks_on_def sizesOf_def
        ToInt32_def [of "Some _"] split: option.splits prod.splits if_splits)
qed

lemma eks_scaleStep_down:
  "eks_client_ok truth cl c \<Longrightarrow> scaleStep c cl p ng s w = (r, reps, w') \<Longrightarrow> down_step truth eks_on eks_off eks_codes {ng} w reps w'"
  using scale_down by (fastforce simp: scaleStep_def split: prod.splits sum.splits)

lemma eks_off_off: "\<not> eks_on (eks_off x)"
  by (auto simp: eks_on_def eks_off_def split: option.splits)

lemma eks_Shutdown_stops:
  assumes "eks_ok truth cl e" "Shutdown e w = (Inr msg, reps, w')" "ng \<in> eks_targets e w"
  shows "\<not> eks_on (truth w' ng)"
proof -
  obtain p cfg gs where h: "parseParams (ek_libs e) (sp_Parameters (ek_spec e)) = Inr p"
      "loadAWSConfig (ek_loadDefault e) (ek_spec e) = Inr cfg"
      "determineTargetNodeGroups (eksFactory e cfg) (ClusterName p) p w = Inr gs"
    using assms(2) by (auto simp: Shutdown_def Let_def split: sum.splits option.splits)
  have c: "ClusterName p = cl" "eks_client_ok truth cl (eksFactory e cfg)" using assms(1) h by (auto simp: eks_ok_def)
  have gs: "ng \<in> set gs"
    using assms(3) h by (auto simp: eks_targets_def determineTargetNodeGroups_def split: sum.splits if_splits)
  obtain s s' where fe: "forEach (scaleStep (eksFactory e cfg) cl p) gs s w = (Inr s', reps, w')"
    using assms(2) h c(1) by (auto simp: Shutdown_def Let_def split: prod.splits sum.splits option.splits)
  have "\<forall>x \<in> set gs. \<not> eks_on (truth w' x)"
  proof (rule forEach_all [OF _ _ fe])
    fix x y s w r reps w'
    assume "scaleStep (eksFactory e cfg) cl p y s w = (r, reps, w')" "\<not> eks_on (truth w x)"
    with eks_scaleStep_down [OF c(2)] eks_off_off show "\<not> eks_on (truth w' x)" unfolding down_step_def by metis
  qed (rule scale_stops [OF c(2)])
  with gs show ?thesis by blast
qed

text \<open>A client that answers for every node group that exists; sizes that fit in 32 bits.\<close>

definition eks_good :: "('w \<Rightarrow> string \<Rightarrow> sizes option) \<Rightarrow> string \<Rightarrow> 'w EksEnv \<Rightarrow> bool" where
  "eks_good truth cl e \<longleftrightarrow>
     (\<exists>p cfg. parseParams (ek_libs e) (sp_Parameters (ek_spec e)) = Inr p \<and>
        loadAWSConfig (ek_loadDefault e) (ek_spec e) = Inr cfg \<and>
        (\<forall>ng sc w. truth w ng \<noteq> None \<longrightarrow>
           (\<exists>d. DescribeNodegroup (eksFactory e cfg) cl ng w = Inr d) \<and>
           fst (UpdateNodegroupConfig (eksFactory e cfg) cl ng sc w) = None))"

definition eks_storable :: "sizes option \<Rightarrow> bool" where
  "eks_storable x = (case x of None \<Rightarrow> True | Some (d, mi, ma) \<Rightarrow> int32 d \<and> int32 mi \<and> int32 ma)"

lemma restoreStep_succeeds:
  assumes "\<forall>ng sc w. truth w ng \<noteq> None \<longrightarrow>
      (\<exists>d. DescribeNodegroup c cl ng w = Inr d) \<and> fst (UpdateNodegroupConfig c cl ng sc w) = None"
    and "truth w ng = f \<or> eks_on f \<and> truth w ng = eks_off f" "eks_storable f"
  shows "\<exists>p' w'. restoreStep c cl params (ng, eks_enc ng f) p w = (Inr p', w')"
proof (cases f)
  case None
  then show ?thesis
    by (simp add: restoreStep_def eks_enc_def eks_codes_def decodeNodeGroup_def jmembers_def decodeField_def fieldValues_def)
next
  case (Some z)
  obtain d mi ma where z: "z = (d, mi, ma)" by (cases z)
  have t: "truth w ng \<noteq> None" using assms(2) Some z by (auto simp: eks_off_def)
  have dec: "decodeNodeGroup (encodeNodeGroup (groupState z)) = Inr (groupState z)"
    using assms(3) Some z by (simp add: decode_encode_group groupState_def eks_storable_def)
  obtain x where "DescribeNodegroup c cl ng w = Inr x" using assms(1) t by blast
  moreover have "fst (UpdateNodegroupConfig c cl ng sc w) = None" for sc using assms(1) t by blast
  ultimately show ?thesis
    using dec Some by (auto simp: restoreStep_def eks_enc_def eks_codes_def restoreNodeGroup_def split: prod.splits option.splits)
      (metis fst_conv option.distinct(1))+
qed

interpretation eks: reliable_executor "eks_ok truth cl" Shutdown WakeUp truth eks_on eks_off eks_codes eks_targets
    "eks_good truth cl" eks_storable
  for truth :: "'w \<Rightarrow> string \<Rightarrow> sizes option" and cl
proof unfold_locales
  show "\<not> eks_on (eks_off x)" for x by (rule eks_off_off)
  show "\<not> eks_on x \<Longrightarrow> eks_codes k x v \<Longrightarrow> \<not> demanded v" for x k v
    by (auto simp: eks_enc_def eks_codes_def eks_on_def groupState_def demanded_def [of JNull] split: option.splits prod.splits)
next
  fix e f and rd :: ExecRestoreData and w :: 'w
  let ?I = "\<lambda>w. \<forall>k. truth w k = f k \<or> eks_on (f k) \<and> truth w k = eks_off (f k)"
  assume h: "eks_ok truth cl e" "eks_good truth cl e" "\<forall>(k, v) \<in> set (xr_Data rd). eks_codes k (f k) v" "?I w"
    "\<forall>k. eks_storable (f k)"
  from h(2) obtain p cfg where g: "parseParams (ek_libs e) (sp_Parameters (ek_spec e)) = Inr p"
      "loadAWSConfig (ek_loadDefault e) (ek_spec e) = Inr cfg"
      "\<forall>ng sc w. truth w ng \<noteq> None \<longrightarrow> (\<exists>d. DescribeNodegroup (eksFactory e cfg) cl ng w = Inr d) \<and>
         fst (UpdateNodegroupConfig (eksFactory e cfg) cl ng sc w) = None"
    by (auto simp: eks_good_def)
  have c: "ClusterName p = cl" "eks_client_ok truth cl (eksFactory e cfg)" using h(1) g by (auto simp: eks_ok_def)
  have step: "\<exists>s' w'. restoreStep (eksFactory e cfg) cl p x s w = (Inr s', w') \<and> ?I w'"
    if x_in: "x \<in> set (xr_Data rd)" and inv: "?I w" for x s w
  proof -
    have "snd x = eks_enc (fst x) (f (fst x))" using x_in h(3) by (auto simp: split_beta eks_codes_def)
    then obtain ng where x: "x = (ng, eks_enc ng (f ng))" by (metis prod.collapse)
    obtain s' w' where r: "restoreStep (eksFactory e cfg) cl p x s w = (Inr s', w')"
      using restoreStep_succeeds [where truth = truth and w = w and ng = ng and f = "f ng", OF g(3)] inv h(5) x by metis
    from eks_restoreStep_up [where f = f, OF c(2) r [unfolded x]] inv have "?I w'" unfolding up_step_def by metis
    with r show ?thesis by blast
  qed
  obtain s' w' where fr: "forRestore (restoreStep (eksFactory e cfg) cl p) (xr_Data rd)
      (\<lparr>processed = length (xr_Data rd), applied = 0, skippedStale = 0\<rparr>, []) w = (Inr s', w')"
    using forRestore_succeeds [where I = ?I and f = "restoreStep (eksFactory e cfg) cl p", OF step h(4)] by blast
  then show "\<exists>msg w'. WakeUp e rd w = (Inr msg, w')"
    using g(1,2) c(1) by (cases s') (auto simp: WakeUp_def Let_def)
qed (rule eks_Shutdown_down eks_Shutdown_stops eks_WakeUp_up; assumption)+

text \<open>
  C17.  A hibernation cycle of an EKS target is a round trip.  The shutdown is attempted any number of times,
  each attempt ending where an error of the cluster stops it, and so is the wake-up; the first wake-up
  that succeeds leaves every node group of the cluster with the sizes it had before
  the cycle, and a wake-up whose calls are answered does succeed.  This holds as long as no restore
  data is lost: every shutdown attempt that changed something, and the last one, saves its data (a
  failed flush is not reported, \<open>flush_failure_unreported\<close> in Runner).  Further, the parameters and the listing name each
  node group once (\<open>eks_duplicate_loses_sizes\<close> shows why), a description is the truth, an update that succeeds sets exactly its node group, and a call
  that returns an error has changed nothing.
\<close>

theorem eks_cycle_roundtrip:
  assumes "rc_Operation cfg = ''shutdown''" "ss \<noteq> []"
    and "\<forall>a \<in> set ss. eks_ok truth cl (at_cfg a) \<and> (\<forall>i. proper_time (at_clock a i))" "saves_all cfg Shutdown WakeUp ss (w, st)"
    and "\<forall>a \<in> set (ws @ [a]). eks_ok truth cl (at_cfg a)" "new_cycle cfg st"
    and "s = attempts (wakeupOf cfg) Shutdown WakeUp ws (attempts cfg Shutdown WakeUp ss (w, st))"
  shows "(\<forall>msg w' st'. attemptOp (wakeupOf cfg) Shutdown WakeUp a s = (Inr msg, w', st') \<longrightarrow> truth w' = truth w) \<and>
    (eks_good truth cl (at_cfg a) \<and> get_err (at_api a) = None \<and> (\<forall>k. eks_storable (truth w k)) \<longrightarrow>
       (\<exists>msg w' st'. attemptOp (wakeupOf cfg) Shutdown WakeUp a s = (Inr msg, w', st')))"
  using assms by (rule eks.cycle_completes)

definition demoClient :: "bool \<Rightarrow> (string \<Rightarrow> sizes option) EKSClient" where
  "demoClient broken =
     \<lparr>ListNodegroups = (\<lambda>_ _. Inr [''web'', ''db'']),
      DescribeNodegroup = (\<lambda>_ ng w. case w ng of
         None \<Rightarrow> Inl (ApiError NotFound)
       | Some (d, mi, ma) \<Rightarrow> Inr \<lparr>ng_Status = ''ACTIVE'',
           ScalingConfig = Some \<lparr>DesiredSize = Some d, MinSize = Some mi, MaxSize = Some ma\<rparr>\<rparr>),
      UpdateNodegroupConfig = (\<lambda>_ ng sc w.
         if broken \<and> ng = ''db'' then (Some (ApiError (ApiFailure ''throttled'')), w)
         else if w ng = None then (Some (ApiError NotFound), w) else (None, w(ng \<mapsto> sizesOf sc))),
      DescribeCluster = (\<lambda>_ _. Inr (Some \<lparr>Endpoint = ''https://c'', CertificateAuthority = Some ''Y2E=''\<rparr>))\<rparr>"

definition demoEnv :: "bool \<Rightarrow> (string \<Rightarrow> sizes option) EksEnv" where
  "demoEnv broken =
     \<lparr>ek_libs = demoLibs\<lparr>decodeEKS := (\<lambda>_. Inr \<lparr>ClusterName = ''c'', NodeGroups = [],
         ek_AwaitCompletion = \<lparr>Enabled = False, ac_Timeout = ''''\<rparr>\<rparr>)\<rparr>,
      ek_spec = demoSpec, ek_loadDefault = (\<lambda>_ _. Inr ''eu-1''), eksFactory = (\<lambda>_. demoClient broken),
      ek_k8sFactory = (\<lambda>_. None), nodeLists = (\<lambda>_. \<lparr>seen = [], deadline = True\<rparr>),
      groupStates = (\<lambda>_. \<lparr>seen = [], deadline = True\<rparr>)\<rparr>"

lemma eks_demo_ok: "eks_ok (\<lambda>w. w) ''c'' (demoEnv b)"
  by (auto simp: eks_ok_def demoEnv_def parseParams_def demoSpec_def loadAWSConfig_def eks_client_ok_def demoClient_def
      sizesOf_def ToInt32_def split: option.splits)

definition demoWorld :: "string \<Rightarrow> sizes option" where
  "demoWorld = [''web'' \<mapsto> (3, 1, 5), ''db'' \<mapsto> (2, 2, 2)]"

lemma eks_demo_good: "eks_good (\<lambda>w. w) ''c'' (demoEnv False)"
  by (auto simp: eks_good_def demoEnv_def parseParams_def demoSpec_def loadAWSConfig_def BuildAWSConfig_def demoClient_def)

text \<open>The first shutdown attempt scales one node group and fails on the other.\<close>

theorem eks_cycle_roundtrip_witness:
  "\<exists>msg w' st'. attemptOp (wakeupOf (demoJob ''eks'')) Shutdown WakeUp (demoAttempt (demoEnv False))
      (attempts (wakeupOf (demoJob ''eks'')) Shutdown WakeUp [demoAttempt (demoEnv True)]
        (attempts (demoJob ''eks'') Shutdown WakeUp [demoAttempt (demoEnv True), demoAttempt (demoEnv False)]
          (demoWorld, None))) = (Inr msg, w', st') \<and> w' = demoWorld"
proof -
  let ?ss = "[demoAttempt (demoEnv True), demoAttempt (demoEnv False)]" and ?ws = "[demoAttempt (demoEnv True)]"
  have ok: "\<forall>a \<in> set ?ss. eks_ok (\<lambda>w. w) ''c'' (at_cfg a) \<and> cm_reliable (at_api a) \<and> (\<forall>i. proper_time (at_clock a i))"
    "\<forall>a \<in> set (?ws @ [demoAttempt (demoEnv False)]). eks_ok (\<lambda>w. w) ''c'' (at_cfg a)"
    using eks_demo_ok by simp_all
  from ok(1) have ok1: "\<forall>a \<in> set ?ss. eks_ok (\<lambda>w. w) ''c'' (at_cfg a) \<and> (\<forall>i. proper_time (at_clock a i))" by blast
  note t = eks_cycle_roundtrip [OF demo_sel(1) _ ok1 eks.reliable_cycle_saves [OF demo_sel(1,2) ok(1)] ok(2) demo_sel(2) refl, of "''eks''" "demoWorld"]
  have "\<forall>k. eks_storable (demoWorld k)" by (simp add: eks_storable_def demoWorld_def int32_def)
  with t eks_demo_good show ?thesis by (simp only: demo_sel simp_thms) blast
qed

section \<open>A node group named twice\<close>

definition dupEnv :: "(string \<Rightarrow> sizes option) EksEnv" where
  "dupEnv = (demoEnv False)\<lparr>ek_libs := demoLibs\<lparr>decodeEKS := (\<lambda>_. Inr \<lparr>ClusterName = ''c'', NodeGroups = [''web'', ''web''],
     ek_AwaitCompletion = \<lparr>Enabled = False, ac_Timeout = ''''\<rparr>\<rparr>)\<rparr>\<rparr>"

text \<open>
  The second visit finds the node group at zero, and its report replaces the first one in the
  accumulator: the sizes are lost, and a wake-up skips the node group as one that was at zero before.
\<close>

lemma eks_duplicate_loses_sizes:
  "fst (snd (Shutdown dupEnv demoWorld)) =
     [(''web'', encodeNodeGroup (groupState (3, 1, 5))), (''web'', encodeNodeGroup (groupState (0, 0, 5)))] \<and>
   acc_state (addAll clock (fst (snd (Shutdown dupEnv demoWorld)))) = [(''web'', encodeNodeGroup (groupState (0, 0, 5)))] \<and>
   \<not> WasScaled (groupState (0, 0, 5))"
proof -
  have r: "fst (snd (Shutdown dupEnv demoWorld)) =
     [(''web'', encodeNodeGroup (groupState (3, 1, 5))), (''web'', encodeNodeGroup (groupState (0, 0, 5)))]"
    by (simp add: Shutdown_def dupEnv_def demoEnv_def parseParams_def demoSpec_def loadAWSConfig_def BuildAWSConfig_def Let_def
        setupK8SClient_def getClusterInfo_def demoClient_def DecodeString_def base64_val_def determineTargetNodeGroups_def
        scaleStep_def scaleNodeGroupToZero_def demoWorld_def sizesOf_def ToInt32_def groupState_def)
  then show ?thesis by (simp add: r addAll_def newAccumulator_def groupState_def)
qed

end
