(* ===== verification/Ec2.thy ===== *)
theory Ec2
  imports ExecBase
begin

text \<open>
  The EC2 executor (\<^verbatim>\<open>internal/executor/ec2\<close>): a shutdown stops the running instances that the
  selector finds, a wake-up starts those of them that were running.  In the errors of the client,
  \<open>NotFound\<close> insts the error code InvalidInstanceID.NotFound.  Every instance the API returns has a state.
\<close>

record Instance =
  it_Id :: string
  it_State :: string
  it_Tags :: "(string \<times> string) list"

record DescribeInstancesInput =
  di_InstanceIds :: "string list"
  Filters :: "(string \<times> string list) list"

record 'w EC2Client =
  DescribeInstances :: "DescribeInstancesInput \<Rightarrow> 'w \<Rightarrow> (Instance list list) res"
  StopInstances :: "string list \<Rightarrow> 'w \<Rightarrow> go_error option \<times> 'w"
  StartInstances :: "string list \<Rightarrow> 'w \<Rightarrow> go_error option \<times> 'w"

record 'w Ec2Env =
  e2_libs :: ParamLibs
  e2_spec :: Spec
  e2_loadDefault :: load_default
  ec2Factory :: "SdkConfig \<Rightarrow> 'w EC2Client"
  stopWait :: "((Instance list list) res) waitRun"
  startWait :: "((Instance list list) res) waitRun"

section \<open>State\<close>

record InstanceState =
  InstanceID :: string
  WasRunning :: bool

definition encodeInstance :: "InstanceState \<Rightarrow> json" where
  "encodeInstance s = JObj [(''instanceId'', JStr (InstanceID s)), (''wasRunning'', JBool (WasRunning s))]"

definition decodeInstance :: "json \<Rightarrow> InstanceState res" where
  "decodeInstance v =
     (case jmembers v of
        Inl e \<Rightarrow> Inl e
      | Inr m \<Rightarrow>
          (case (decodeField jstr '''' ''instanceId'' m, decodeField jbool False ''wasRunning'' m) of
             (Inr i, Inr b) \<Rightarrow> Inr \<lparr>InstanceID = i, WasRunning = b\<rparr>
           | _ \<Rightarrow> Inl (typeError ''InstanceState'')))"

section \<open>Parameters\<close>

definition zeroEC2Parameters :: EC2Parameters where
  "zeroEC2Parameters = \<lparr>e2_Selector = \<lparr>e2_Tags = [], e2_TagSelector = None, e2_InstanceIDs = []\<rparr>,
     e2_AwaitCompletion = \<lparr>Enabled = False, ac_Timeout = ''''\<rparr>\<rparr>"

definition parseParams :: "ParamLibs \<Rightarrow> string \<Rightarrow> EC2Parameters res" where
  "parseParams L raw = (if raw = '''' then Inr zeroEC2Parameters else decodeEC2 L raw)"

definition Validate :: "'w Ec2Env \<Rightarrow> go_error option" where
  "Validate e =
     (if sp_AWS (e2_spec e) = None then Some (ErrMsg ''AWS connector config required for EC2 executor'')
      else (case parseParams (e2_libs e) (sp_Parameters (e2_spec e)) of
              Inl er \<Rightarrow> Some er
            | Inr params \<Rightarrow>
                (let sel = e2_Selector params; hasTags = e2_Tags sel \<noteq> []; hasIds = e2_InstanceIDs sel \<noteq> [];
                     hasSel = hasTagSelector (e2_TagSelector sel)
                 in if \<not> hasTags \<and> \<not> hasSel \<and> \<not> hasIds
                    then Some (ErrMsg ''either tags, tagSelector, or instanceIds must be specified in selector'')
                    else if hasTags \<and> hasIds
                    then Some (ErrMsg ''selector.tags and selector.instanceIds are mutually exclusive (both are server-side filters)'')
                    else if hasTags \<and> hasSel
                    then Some (ErrMsg ''selector.tags and selector.tagSelector are mutually exclusive'')
                    else None)))"

section \<open>Finding instances\<close>

definition ExcludeByASGManaged :: "Instance \<Rightarrow> bool" where
  "ExcludeByASGManaged i = list_ex (\<lambda>(k, v). k = ''aws:autoscaling:groupName'') (it_Tags i)"

definition ExcludeByKarpenterManaged :: "Instance \<Rightarrow> bool" where
  "ExcludeByKarpenterManaged i = list_ex (\<lambda>(k, v). k = ''karpenter.sh/nodepool'') (it_Tags i)"

definition ApplyExclusions :: "(Instance \<Rightarrow> bool) list \<Rightarrow> Instance list \<Rightarrow> Instance list" where
  "ApplyExclusions rules insts = filter (\<lambda>i. \<not> list_ex (\<lambda>rule. rule i) rules) insts"

text \<open>The tags of an instance as a map: a later tag with the same key replaces an earlier one.\<close>

definition tagMap :: "(string \<times> string) list \<Rightarrow> (string \<times> string) list" where
  "tagMap tags = fold (\<lambda>(k, v). AList.update k v) tags []"

definition filterInstancesByTagSelector :: "TagSelector option \<Rightarrow> Instance list \<Rightarrow> Instance list" where
  "filterInstancesByTagSelector sel insts =
     (if sel = None then insts else filter (\<lambda>i. Match (tagMap (it_Tags i)) sel) insts)"

definition describeInput :: "EC2Selector \<Rightarrow> DescribeInstancesInput" where
  "describeInput sel =
     (if e2_InstanceIDs sel \<noteq> [] then \<lparr>di_InstanceIds = e2_InstanceIDs sel, Filters = []\<rparr>
      else (let keyOnly = map fst (filter (\<lambda>(k, v). v = '''') (e2_Tags sel))
            in \<lparr>di_InstanceIds = [],
                Filters = [(''instance-state-name'', [''pending'', ''running'', ''stopping'', ''stopped''])]
                  @ map (\<lambda>(k, v). (''tag:'' @ k, [v])) (filter (\<lambda>(k, v). v \<noteq> '''') (e2_Tags sel))
                  @ (if keyOnly \<noteq> [] then [(''tag-key'', keyOnly)] else [])\<rparr>))"

definition findInstances :: "'w EC2Client \<Rightarrow> EC2Selector \<Rightarrow> 'w \<Rightarrow> (Instance list) res" where
  "findInstances c sel w =
     (case DescribeInstances c (describeInput sel) w of
        Inl e \<Rightarrow> Inl e
      | Inr reservations \<Rightarrow>
          (let insts = concat reservations;
               found = (if hasTagSelector (e2_TagSelector sel) then filterInstancesByTagSelector (e2_TagSelector sel) insts else insts)
           in Inr (ApplyExclusions [ExcludeByASGManaged, ExcludeByKarpenterManaged] found)))"

section \<open>Waiting\<close>

definition waitForInstances :: "string \<Rightarrow> string \<Rightarrow> string \<Rightarrow> ((Instance list list) res) waitRun \<Rightarrow> string list \<Rightarrow> string \<Rightarrow> go_error option" where
  "waitForInstances what final transient r ids timeout =
     waitFor (Wrap ''create waiter: '') timeout what
       (\<lambda>x. case x of
          Inl e \<Rightarrow> Inl (Wrap ''describe instances: '' e)
        | Inr rs \<Rightarrow>
            (let states = map it_State (concat rs); n = count_list states final; t = count_list states transient
             in Inr (n = length ids, final @ ''='' @ show_nat n @ '', '' @ transient @ ''='' @ show_nat t @
                     '', other='' @ show_nat (length states - n - t)))) r"

definition waitForInstancesStopped where
  "waitForInstancesStopped = waitForInstances ''instances to stop'' ''stopped'' ''stopping''"

definition waitForInstancesRunning where
  "waitForInstancesRunning = waitForInstances ''instances to start'' ''running'' ''pending''"

definition DefaultWaitTimeout :: string where "DefaultWaitTimeout = ''5m''"

definition waitTimeout :: "AwaitCompletion \<Rightarrow> string" where
  "waitTimeout a = (if ac_Timeout a = '''' then DefaultWaitTimeout else ac_Timeout a)"

section \<open>The operations\<close>

definition isRunning :: "Instance \<Rightarrow> bool" where "isRunning i \<longleftrightarrow> it_State i = ''running''"

definition Shutdown :: "'w Ec2Env \<Rightarrow> 'w shutdown_fn" where
  "Shutdown e w =
     (case parseParams (e2_libs e) (sp_Parameters (e2_spec e)) of
        Inl er \<Rightarrow> (Inl (Wrap ''parse parameters: '' er), [], w)
      | Inr params \<Rightarrow>
     (case loadAWSConfig (e2_loadDefault e) (e2_spec e) of
        Inl er \<Rightarrow> (Inl (Wrap ''load AWS config: '' er), [], w)
      | Inr cfg \<Rightarrow>
     (let c = ec2Factory e cfg in
      case findInstances c (e2_Selector params) w of
        Inl er \<Rightarrow> (Inl (Wrap ''find instances: '' er), [], w)
      | Inr insts \<Rightarrow>
          (let reports = map (\<lambda>i. (it_Id i, encodeInstance \<lparr>InstanceID = it_Id i, WasRunning = isRunning i\<rparr>)) insts;
               toStop = map it_Id (filter isRunning insts);
               msg = ''stopped '' @ show_nat (length toStop) @ '' of '' @ show_nat (length insts) @ '' EC2 instance(s)'';
               a = e2_AwaitCompletion params
           in if toStop = [] then (Inr msg, reports, w)
              else (case StopInstances c toStop w of
                      (Some er, w') \<Rightarrow> (Inl (Wrap ''stop instances: '' er), reports, w')
                    | (None, w') \<Rightarrow>
                        (Inr (msg @ (if \<not> Enabled a then ''''
                                     else if waitForInstancesStopped (stopWait e) toStop (waitTimeout a) \<noteq> None
                                     then ''; not all instances confirmed stopped after '' @ waitTimeout a @ '' timeout''
                                     else ''; all instances confirmed stopped'')), reports, w'))))))"

fun previouslyRunning :: "(string \<times> json) list \<Rightarrow> (string list) res" where
  "previouslyRunning [] = Inr []"
| "previouslyRunning ((k, v) # rest) =
     (case decodeInstance v of
        Inl er \<Rightarrow> Inl (Wrap (''unmarshal instance state '' @ k @ '': '') er)
      | Inr s \<Rightarrow>
          (case previouslyRunning rest of
             Inl er \<Rightarrow> Inl er
           | Inr ids \<Rightarrow> Inr (if WasRunning s then (if InstanceID s = '''' then k else InstanceID s) # ids else ids)))"

fun startEach :: "'w EC2Client \<Rightarrow> string list \<Rightarrow> string list \<Rightarrow> nat \<Rightarrow> 'w \<Rightarrow> (string list \<times> nat) res \<times> 'w" where
  "startEach c [] started skipped w = (Inr (started, skipped), w)"
| "startEach c (i # ids) started skipped w =
     (case StartInstances c [i] w of
        (Some er, w') \<Rightarrow>
          if is_not_found er then startEach c ids started (skipped + 1) w'
          else (Inl (Wrap (''start instance '' @ i @ '': '') er), w')
      | (None, w') \<Rightarrow> startEach c ids (started @ [i]) skipped w')"

definition startInstancesWithMissingTolerance :: "'w EC2Client \<Rightarrow> string list \<Rightarrow> 'w \<Rightarrow> (string list \<times> nat) res \<times> 'w" where
  "startInstancesWithMissingTolerance c ids w =
     (case StartInstances c ids w of
        (None, w') \<Rightarrow> (Inr (ids, 0), w')
      | (Some er, w') \<Rightarrow>
          if \<not> is_not_found er then (Inl (Wrap ''start instances: '' er), w') else startEach c ids [] 0 w')"

definition canStart :: "Instance \<Rightarrow> bool" where
  "canStart i \<longleftrightarrow> it_State i = ''stopped'' \<or> it_State i = ''stopping''"

definition WakeUp :: "'w Ec2Env \<Rightarrow> 'w wakeup_fn" where
  "WakeUp e restore w =
     (if xr_Data restore = [] then (Inr ''wakeup completed for EC2 (no restore data)'', w)
      else (case parseParams (e2_libs e) (sp_Parameters (e2_spec e)) of
        Inl er \<Rightarrow> (Inl (Wrap ''parse parameters: '' er), w)
      | Inr params \<Rightarrow>
     (case loadAWSConfig (e2_loadDefault e) (e2_spec e) of
        Inl er \<Rightarrow> (Inl (Wrap ''load AWS config: '' er), w)
      | Inr cfg \<Rightarrow>
     (case previouslyRunning (xr_Data restore) of
        Inl er \<Rightarrow> (Inl er, w)
      | Inr prev \<Rightarrow>
     (let c = ec2Factory e cfg in
      case findInstances c (e2_Selector params) w of
        Inl er \<Rightarrow> (Inl (Wrap ''find instances: '' er), w)
      | Inr insts \<Rightarrow>
          (let toStart = map it_Id (filter (\<lambda>i. it_Id i \<in> set prev \<and> canStart i) insts); a = e2_AwaitCompletion params
           in if toStart = [] then (Inr ''started 0 EC2 instance(s)'', w)
              else (case startInstancesWithMissingTolerance c toStart w of
                      (Inl er, w') \<Rightarrow> (Inl er, w')
                    | (Inr (started, skipped), w') \<Rightarrow>
                        (Inr (''started '' @ show_nat (length started) @ '' EC2 instance(s)'' @
                              (if skipped > 0 then ''; skipped '' @ show_nat skipped @ '' missing instance(s)'' else '''') @
                              (if Enabled a \<and> started \<noteq> [] then
                                 (if waitForInstancesRunning (startWait e) started (waitTimeout a) \<noteq> None
                                  then ''; not all instances confirmed running after '' @ waitTimeout a @ '' timeout''
                                  else ''; all instances confirmed running'')
                               else '''')), w'))))))))"

section \<open>The laws\<close>

text \<open>
  What the laws need of EC2, for the power \<open>up\<close> of each instance and the set \<open>M\<close> of instances the
  selector stands for: while the cycle lasts the selector finds exactly \<open>M\<close>, each settled (running,
  or stopping or stopped); a successful call switches exactly the instances it names, a failed one
  none; and a single start only reports an instance as missing if it insts not in \<open>M\<close>.
\<close>

definition ec2_client_ok :: "string set \<Rightarrow> ('w \<Rightarrow> string \<Rightarrow> bool) \<Rightarrow> EC2Selector \<Rightarrow> 'w EC2Client \<Rightarrow> bool" where
  "ec2_client_ok M up sel c \<longleftrightarrow>
     (\<forall>w insts. findInstances c sel w = Inr insts \<longrightarrow> it_Id ` set insts = M \<and>
        (\<forall>i \<in> set insts. (isRunning i \<longleftrightarrow> up w (it_Id i)) \<and> (canStart i \<longleftrightarrow> \<not> up w (it_Id i)))) \<and>
     (\<forall>ids w. up (snd (StopInstances c ids w)) =
        (if fst (StopInstances c ids w) = None then (\<lambda>i. up w i \<and> i \<notin> set ids) else up w)) \<and>
     (\<forall>ids w. up (snd (StartInstances c ids w)) =
        (if fst (StartInstances c ids w) = None then (\<lambda>i. up w i \<or> i \<in> set ids) else up w)) \<and>
     (\<forall>i w er. fst (StartInstances c [i] w) = Some er \<longrightarrow> is_not_found er \<longrightarrow> i \<notin> M)"

definition ec2_ok :: "string set \<Rightarrow> ('w \<Rightarrow> string \<Rightarrow> bool) \<Rightarrow> 'w Ec2Env \<Rightarrow> bool" where
  "ec2_ok M up e \<longleftrightarrow>
     (\<forall>p cfg. parseParams (e2_libs e) (sp_Parameters (e2_spec e)) = Inr p \<longrightarrow>
        loadAWSConfig (e2_loadDefault e) (e2_spec e) = Inr cfg \<longrightarrow> ec2_client_ok M up (e2_Selector p) (ec2Factory e cfg))"

definition ec2_cell :: "string set \<Rightarrow> ('w \<Rightarrow> string \<Rightarrow> bool) \<Rightarrow> 'w \<Rightarrow> string \<Rightarrow> bool" where
  "ec2_cell M up w i \<longleftrightarrow> i \<in> M \<and> up w i"

definition ec2_enc :: "string \<Rightarrow> bool \<Rightarrow> json" where
  "ec2_enc i b = encodeInstance \<lparr>InstanceID = i, WasRunning = b\<rparr>"

definition ec2_codes :: "string \<Rightarrow> bool \<Rightarrow> json \<Rightarrow> bool" where
  "ec2_codes k x v \<longleftrightarrow> v = ec2_enc k x"

lemma decode_encode_instance [simp]: "decodeInstance (encodeInstance s) = Inr s"
  by (simp add: decodeInstance_def encodeInstance_def jmembers_def decodeField_def fieldValues_def EqualFold_def
      ToUpper_def to_upper_def)

lemma demanded_instance [simp]: "demanded (ec2_enc i b) \<longleftrightarrow> b"
  by (simp add: demanded_def ec2_enc_def ec2_codes_def encodeInstance_def isDemandedState_def jsonTrue_def)

lemma previouslyRunning_enc:
  "\<forall>(k, v) \<in> set D. ec2_codes k (f k) v \<Longrightarrow>
     \<exists>ids. previouslyRunning D = Inr ids \<and> set ids = {k \<in> fst ` set D. f k}"
  by (induction D rule: previouslyRunning.induct) (auto simp: ec2_enc_def ec2_codes_def)

lemma ec2_found:
  assumes "ec2_client_ok M up sel c" "findInstances c sel w = Inr insts"
  shows "it_Id ` set insts = M" "\<forall>i \<in> set insts. (isRunning i \<longleftrightarrow> up w (it_Id i)) \<and> (canStart i \<longleftrightarrow> \<not> up w (it_Id i))"
  using assms unfolding ec2_client_ok_def by blast+

lemma ec2_stop:
  assumes "ec2_client_ok M up sel c" "StopInstances c ids w = (r, w')"
  shows "up w' = (if r = None then (\<lambda>i. up w i \<and> i \<notin> set ids) else up w)"
  using assms unfolding ec2_client_ok_def by (metis fst_conv snd_conv)

lemma ec2_start:
  assumes "ec2_client_ok M up sel c" "StartInstances c ids w = (r, w')"
  shows "up w' = (if r = None then (\<lambda>i. up w i \<or> i \<in> set ids) else up w)"
  using assms unfolding ec2_client_ok_def by (metis fst_conv snd_conv)

lemma Shutdown_parts:
  assumes "ec2_ok M up e" "Shutdown e w = (r, reps, w')"
  obtains "reps = []" "w' = w" "\<forall>m. r \<noteq> Inr m"
  | insts :: "Instance list" where "reps = map (\<lambda>i. (it_Id i, ec2_enc (it_Id i) (up w (it_Id i)))) insts" "it_Id ` set insts = M"
      "up w' = up w \<and> (\<forall>m. r \<noteq> Inr m) \<or> (\<forall>i. up w' i \<longleftrightarrow> up w i \<and> i \<notin> M)"
proof (cases "\<exists>p cfg insts. parseParams (e2_libs e) (sp_Parameters (e2_spec e)) = Inr p \<and>
    loadAWSConfig (e2_loadDefault e) (e2_spec e) = Inr cfg \<and> findInstances (ec2Factory e cfg) (e2_Selector p) w = Inr insts")
  case True
  then obtain p cfg insts where h: "parseParams (e2_libs e) (sp_Parameters (e2_spec e)) = Inr p"
      "loadAWSConfig (e2_loadDefault e) (e2_spec e) = Inr cfg" "findInstances (ec2Factory e cfg) (e2_Selector p) w = Inr insts"
    by blast
  have c: "ec2_client_ok M up (e2_Selector p) (ec2Factory e cfg)" using assms(1) h by (auto simp: ec2_ok_def)
  note fi = ec2_found [OF c h(3)]
  have stop: "set (map it_Id (filter isRunning insts)) = {i \<in> M. up w i}" using fi by force
  have reps: "reps = map (\<lambda>i. (it_Id i, ec2_enc (it_Id i) (up w (it_Id i)))) insts"
    using assms(2) h fi(2) by (auto simp: Shutdown_def Let_def ec2_enc_def ec2_codes_def split: if_splits prod.splits option.splits)
  have "up w' = up w \<and> (\<forall>m. r \<noteq> Inr m) \<or> (\<forall>i. up w' i \<longleftrightarrow> up w i \<and> i \<notin> M)"
  proof (cases "map it_Id (filter isRunning insts) = []")
    case True
    then have "w' = w" "{i \<in> M. up w i} = {}" using assms(2) h stop by (auto simp: Shutdown_def Let_def)
    then show ?thesis by auto
  next
    case False
    obtain er w1 where s: "StopInstances (ec2Factory e cfg) (map it_Id (filter isRunning insts)) w = (er, w1)"
      by (cases "StopInstances (ec2Factory e cfg) (map it_Id (filter isRunning insts)) w")
    then have "w' = w1" "er \<noteq> None \<Longrightarrow> \<forall>m. r \<noteq> Inr m"
      using False assms(2) h by (auto simp: Shutdown_def Let_def split: option.splits)
    then show ?thesis using ec2_stop [OF c s] stop by (auto split: if_splits)
  qed
  then show thesis by (rule that(2) [OF reps fi(1)])
next
  case False
  then show thesis using that(1) assms(2) by (auto simp: Shutdown_def Let_def split: sum.splits)
qed

lemma ec2_Shutdown_down:
  assumes "ec2_ok M up e" "Shutdown e w = (r, reps, w')"
  shows "\<exists>K. down_step (ec2_cell M up) (\<lambda>b. b) (\<lambda>_. False) ec2_codes K w reps w'"
  using assms
proof (cases rule: Shutdown_parts)
  case 1
  then show ?thesis using down_step_refl [of "ec2_cell M up"] by metis
next
  case (2 insts)
  have "down_step (ec2_cell M up) (\<lambda>b. b) (\<lambda>_. False) ec2_codes M w reps w'"
    using 2(2,3) unfolding 2(1) down_step_def ec2_cell_def by (auto simp: image_image ec2_codes_def)
  then show ?thesis by blast
qed

definition ec2_targets :: "string set \<Rightarrow> 'w Ec2Env \<Rightarrow> 'w \<Rightarrow> string set" where
  "ec2_targets M e w = M"

lemma ec2_Shutdown_stops:
  assumes "ec2_ok M up e" "Shutdown e w = (Inr msg, reps, w')" "k \<in> ec2_targets M e w"
  shows "\<not> ec2_cell M up w' k"
  using assms(1,2) by (cases rule: Shutdown_parts) (use assms(3) in \<open>auto simp: ec2_cell_def ec2_targets_def\<close>)

lemma startEach_up:
  assumes c: "ec2_client_ok M up sel c" and "startEach c ids started skipped w = (r, w')" "set ids \<subseteq> M"
  shows "(\<forall>i. up w' i = up w i \<or> i \<in> set ids \<and> up w' i) \<and> ((\<exists>x. r = Inr x) \<longrightarrow> (\<forall>i \<in> set ids. up w' i))"
  using assms(2,3)
proof (induction ids arbitrary: started skipped w)
  case (Cons i ids)
  obtain er w1 where s: "StartInstances c [i] w = (er, w1)" by (cases "StartInstances c [i] w")
  note u = ec2_start [OF c s]
  show ?case
  proof (cases er)
    case None
    then have "startEach c ids (started @ [i]) skipped w1 = (r, w')" using Cons.prems(1) s by simp
    from Cons.IH [OF this] Cons.prems(2) u None show ?thesis by auto
  next
    case (Some x)
    then have "\<not> is_not_found x" using c s Cons.prems(2) unfolding ec2_client_ok_def by (metis fst_conv list.set_intros(1) subsetD)
    then show ?thesis using Cons.prems(1) s u Some by auto
  qed
qed simp

lemma start_up:
  assumes c: "ec2_client_ok M up sel c" and r: "startInstancesWithMissingTolerance c ids w = (r, w')" "set ids \<subseteq> M"
  shows "(\<forall>i. up w' i = up w i \<or> i \<in> set ids \<and> up w' i) \<and> ((\<exists>x. r = Inr x) \<longrightarrow> (\<forall>i \<in> set ids. up w' i))"
proof -
  obtain er w1 where s: "StartInstances c ids w = (er, w1)" by (cases "StartInstances c ids w")
  note u = ec2_start [OF c s]
  show ?thesis
  proof (cases er)
    case None
    then show ?thesis using r s u by (auto simp: startInstancesWithMissingTolerance_def)
  next
    case (Some x)
    show ?thesis
    proof (cases "is_not_found x")
      case True
      then have "startEach c ids [] 0 w1 = (r, w')" using r s Some by (simp add: startInstancesWithMissingTolerance_def)
      from startEach_up [OF c this r(2)] u Some show ?thesis by simp
    qed (use r s u Some in \<open>auto simp: startInstancesWithMissingTolerance_def\<close>)
  qed
qed

text \<open>A wake-up on what the cycle recorded: it fails without a change, or starts what was running and is down.\<close>

lemma ec2_WakeUp_up:
  assumes ok: "ec2_ok M up e" and wk: "WakeUp e rd w = (r, w')" and f: "f \<in> range (ec2_cell M up)"
    and D: "\<forall>(k, v) \<in> set (xr_Data rd). ec2_codes k (f k) v"
    and w: "\<forall>k. ec2_cell M up w k = f k \<or> f k \<and> ec2_cell M up w k = False"
  shows "up_step (ec2_cell M up) f (fst ` set (xr_Data rd)) w (\<exists>m. r = Inr m) w'"
proof -
  obtain prev where prev: "previouslyRunning (xr_Data rd) = Inr prev" "set prev = {k \<in> fst ` set (xr_Data rd). f k}"
    using previouslyRunning_enc [OF D] by blast
  show ?thesis
  proof (cases "\<exists>p cfg insts. xr_Data rd \<noteq> [] \<and> parseParams (e2_libs e) (sp_Parameters (e2_spec e)) = Inr p \<and>
      loadAWSConfig (e2_loadDefault e) (e2_spec e) = Inr cfg \<and> findInstances (ec2Factory e cfg) (e2_Selector p) w = Inr insts")
    case True
    then obtain p cfg insts where h: "xr_Data rd \<noteq> []" "parseParams (e2_libs e) (sp_Parameters (e2_spec e)) = Inr p"
        "loadAWSConfig (e2_loadDefault e) (e2_spec e) = Inr cfg" "findInstances (ec2Factory e cfg) (e2_Selector p) w = Inr insts"
      by blast
    have c: "ec2_client_ok M up (e2_Selector p) (ec2Factory e cfg)" using ok h by (auto simp: ec2_ok_def)
    note fi = ec2_found [OF c h(4)]
    let ?ids = "map it_Id (filter (\<lambda>i. it_Id i \<in> set prev \<and> canStart i) insts)"
    have ids: "set ?ids = {k \<in> M. k \<in> set prev \<and> \<not> up w k}" using fi by force
    have up': "(\<forall>i. up w' i = up w i \<or> i \<in> set ?ids \<and> up w' i) \<and> ((\<exists>x. r = Inr x) \<longrightarrow> (\<forall>i \<in> set ?ids. up w' i))"
    proof (cases "?ids = []")
      case True
      then have "w' = w" using wk h prev by (simp add: WakeUp_def Let_def)
      then show ?thesis using True by simp
    next
      case False
      obtain r1 where "startInstancesWithMissingTolerance (ec2Factory e cfg) ?ids w = (r1, w')" "(\<exists>x. r = Inr x) = (\<exists>x. r1 = Inr x)"
        using False wk h prev by (auto simp: WakeUp_def Let_def split: prod.splits sum.splits)
      with start_up [OF c this(1)] ids show ?thesis by (simp only:) blast
    qed
    note up' = up' [unfolded ids]
    have fM: "f k \<Longrightarrow> k \<in> M" for k using f by (auto simp: ec2_cell_def)
    show ?thesis
      unfolding up_step_def
    proof (intro conjI allI impI ballI)
      fix k
      show "ec2_cell M up w' k = ec2_cell M up w k \<or> k \<in> fst ` set (xr_Data rd) \<and> ec2_cell M up w' k = f k"
        using up' prev(2) by (auto simp: ec2_cell_def)
      assume "\<exists>m. r = Inr m" "k \<in> fst ` set (xr_Data rd)"
      then show "ec2_cell M up w' k = f k"
        using up' [THEN conjunct1, THEN spec, of k] up' [THEN conjunct2] prev(2) fM [of k] w [THEN spec, of k]
        by (auto simp: ec2_cell_def)
    qed
  next
    case False
    then have "w' = w" "xr_Data rd = [] \<or> (\<forall>m. r \<noteq> Inr m)"
      using wk prev by (auto simp: WakeUp_def Let_def split: sum.splits if_splits)
    then show ?thesis by (auto simp: up_step_def)
  qed
qed

section \<open>The executor contract\<close>

text \<open>A client that answers: the selector finds its instances, and they start when told to.\<close>

definition ec2_good :: "string set \<Rightarrow> 'w Ec2Env \<Rightarrow> bool" where
  "ec2_good M e \<longleftrightarrow>
     (\<exists>p cfg. parseParams (e2_libs e) (sp_Parameters (e2_spec e)) = Inr p \<and>
        loadAWSConfig (e2_loadDefault e) (e2_spec e) = Inr cfg \<and>
        (\<forall>w. \<exists>insts. findInstances (ec2Factory e cfg) (e2_Selector p) w = Inr insts) \<and>
        (\<forall>ids w. set ids \<subseteq> M \<longrightarrow> fst (StartInstances (ec2Factory e cfg) ids w) = None))"


interpretation ec2: reliable_executor "ec2_ok M up" Shutdown WakeUp "ec2_cell M up" "\<lambda>b. b" "\<lambda>_. False" ec2_codes
    "ec2_targets M" "ec2_good M" "\<lambda>_. True"
  for M and up :: "'w \<Rightarrow> string \<Rightarrow> bool"
proof unfold_locales
  fix e f and rd :: ExecRestoreData and w :: 'w
  assume ok: "ec2_ok M up e" and good: "ec2_good M e" and D: "\<forall>(k, v) \<in> set (xr_Data rd). ec2_codes k (f k) v"
  obtain prev where prev: "previouslyRunning (xr_Data rd) = Inr prev" using previouslyRunning_enc [OF D] by blast
  from good obtain p cfg insts where h: "parseParams (e2_libs e) (sp_Parameters (e2_spec e)) = Inr p"
      "loadAWSConfig (e2_loadDefault e) (e2_spec e) = Inr cfg" "findInstances (ec2Factory e cfg) (e2_Selector p) w = Inr insts"
      "\<forall>ids w. set ids \<subseteq> M \<longrightarrow> fst (StartInstances (ec2Factory e cfg) ids w) = None"
    unfolding ec2_good_def by blast
  have "it_Id ` set insts = M" using ok h by (auto simp: ec2_ok_def dest: ec2_found(1))
  then have "fst (StartInstances (ec2Factory e cfg) (map it_Id (filter P insts)) w) = None" for P
    using h(4) by (metis filter_is_subset image_mono list.set_map)
  then obtain w1 where
    "StartInstances (ec2Factory e cfg) (map it_Id (filter (\<lambda>i. it_Id i \<in> set prev \<and> canStart i) insts)) w = (None, w1)"
    by (metis prod.collapse)
  then show "\<exists>msg w'. WakeUp e rd w = (Inr msg, w')"
    using h(1-3) prev by (simp add: WakeUp_def Let_def startInstancesWithMissingTolerance_def)
qed (rule ec2_Shutdown_down ec2_Shutdown_stops ec2_WakeUp_up; assumption | simp add: ec2_codes_def)+

text \<open>
  A hibernation cycle of an EC2 target whose selector stands for the same settled instances
  throughout: through failed attempts that lose no restore data, the first wake-up that succeeds leaves exactly those of
  the selected instances running that ran before the cycle, and a wake-up whose calls are answered does succeed.
  Pending instances are outside these laws.
\<close>

lemma ec2_cycle_roundtrip:
  assumes "rc_Operation cfg = ''shutdown''" "ss \<noteq> []"
    and "\<forall>a \<in> set ss. ec2_ok M up (at_cfg a) \<and> (\<forall>i. proper_time (at_clock a i))" "saves_all cfg Shutdown WakeUp ss (w, st)"
    and "\<forall>a \<in> set (ws @ [a]). ec2_ok M up (at_cfg a)" "new_cycle cfg st"
    and "s = attempts (wakeupOf cfg) Shutdown WakeUp ws (attempts cfg Shutdown WakeUp ss (w, st))"
  shows "(\<forall>msg w' st'. attemptOp (wakeupOf cfg) Shutdown WakeUp a s = (Inr msg, w', st') \<longrightarrow>
      {i \<in> M. up w' i} = {i \<in> M. up w i}) \<and>
    (ec2_good M (at_cfg a) \<and> get_err (at_api a) = None \<longrightarrow>
       (\<exists>msg w' st'. attemptOp (wakeupOf cfg) Shutdown WakeUp a s = (Inr msg, w', st')))"
  using ec2.cycle_completes [OF assms] by (auto simp: ec2_cell_def fun_eq_iff)

text \<open>A region with three instances, one of them stopped before the cycle.\<close>

definition demoClient :: "bool \<Rightarrow> (string \<Rightarrow> bool) EC2Client" where
  "demoClient broken =
     \<lparr>DescribeInstances = (\<lambda>_ w. Inr [map (\<lambda>i. \<lparr>it_Id = i, it_State = (if w i then ''running'' else ''stopped''), it_Tags = []\<rparr>)
         [''i-1'', ''i-2'', ''i-3'']]),
      StopInstances = (\<lambda>ids w. if broken then (Some (ApiError (ApiFailure ''throttled'')), w) else (None, \<lambda>i. w i \<and> i \<notin> set ids)),
      StartInstances = (\<lambda>ids w. if broken then (Some (ApiError (ApiFailure ''throttled'')), w) else (None, \<lambda>i. w i \<or> i \<in> set ids))\<rparr>"

definition demoEnv :: "bool \<Rightarrow> (string \<Rightarrow> bool) Ec2Env" where
  "demoEnv broken =
     \<lparr>e2_libs = demoLibs\<lparr>decodeEC2 := (\<lambda>_. Inr (zeroEC2Parameters\<lparr>e2_Selector :=
         \<lparr>e2_Tags = [(''env'', ''dev'')], e2_TagSelector = None, e2_InstanceIDs = []\<rparr>\<rparr>))\<rparr>,
      e2_spec = demoSpec, e2_loadDefault = (\<lambda>_ _. Inr ''eu-1''), ec2Factory = (\<lambda>_. demoClient broken),
      stopWait = \<lparr>seen = [], deadline = True\<rparr>, startWait = \<lparr>seen = [], deadline = True\<rparr>\<rparr>"

lemma demo_find: "findInstances (demoClient b) sel w =
    Inr (if hasTagSelector (e2_TagSelector sel)
      then filterInstancesByTagSelector (e2_TagSelector sel) (map (\<lambda>i. \<lparr>it_Id = i, it_State = (if w i then ''running'' else ''stopped''), it_Tags = []\<rparr>) [''i-1'', ''i-2'', ''i-3''])
      else map (\<lambda>i. \<lparr>it_Id = i, it_State = (if w i then ''running'' else ''stopped''), it_Tags = []\<rparr>) [''i-1'', ''i-2'', ''i-3''])"
  by (auto simp: findInstances_def demoClient_def Let_def ApplyExclusions_def ExcludeByASGManaged_def ExcludeByKarpenterManaged_def
      filterInstancesByTagSelector_def)

lemma ec2_demo_ok: "ec2_ok {''i-1'', ''i-2'', ''i-3''} (\<lambda>w. w) (demoEnv b)"
  by (auto simp: ec2_ok_def demoEnv_def parseParams_def demoSpec_def ec2_client_ok_def demo_find hasTagSelector_def isRunning_def
      canStart_def) (auto simp: demoClient_def split: if_splits)

lemma ec2_demo_good: "ec2_good {''i-1'', ''i-2'', ''i-3''} (demoEnv False)"
  by (auto simp: ec2_good_def demoEnv_def parseParams_def demoSpec_def loadAWSConfig_def BuildAWSConfig_def demo_find)
    (simp add: demoClient_def)

lemma ec2_cycle_roundtrip_witness:
  "\<exists>msg w' st'. attemptOp (wakeupOf (demoJob ''ec2'')) Shutdown WakeUp (demoAttempt (demoEnv False))
      (attempts (wakeupOf (demoJob ''ec2'')) Shutdown WakeUp [demoAttempt (demoEnv True)]
        (attempts (demoJob ''ec2'') Shutdown WakeUp [demoAttempt (demoEnv True), demoAttempt (demoEnv False)]
          ((\<lambda>i. i \<noteq> ''i-2''), None))) = (Inr msg, w', st') \<and>
      {i \<in> {''i-1'', ''i-2'', ''i-3''}. w' i} = {''i-1'', ''i-3''}"
proof -
  let ?ss = "[demoAttempt (demoEnv True), demoAttempt (demoEnv False)]" and ?ws = "[demoAttempt (demoEnv True)]"
    and ?M = "{''i-1'', ''i-2'', ''i-3''}"
  have ok: "\<forall>a \<in> set ?ss. ec2_ok ?M (\<lambda>w. w) (at_cfg a) \<and> cm_reliable (at_api a) \<and> (\<forall>i. proper_time (at_clock a i))"
    "\<forall>a \<in> set (?ws @ [demoAttempt (demoEnv False)]). ec2_ok ?M (\<lambda>w. w) (at_cfg a)"
    using ec2_demo_ok by simp_all
  from ok(1) have ok1: "\<forall>a \<in> set ?ss. ec2_ok ?M (\<lambda>w. w) (at_cfg a) \<and> (\<forall>i. proper_time (at_clock a i))" by blast
  note t = ec2_cycle_roundtrip [OF demo_sel(1) _ ok1 ec2.reliable_cycle_saves [OF demo_sel(1,2) ok(1)] ok(2) demo_sel(2) refl, of "''ec2''" "\<lambda>i. i \<noteq> ''i-2''"]
  have eq: "{i \<in> ?M. i \<noteq> ''i-2''} = {''i-1'', ''i-3''}" by auto
  have "?ss \<noteq> []" by simp
  from t [OF this, unfolded eq demo_sel] ec2_demo_good show ?thesis by (metis (no_types, lifting))
qed

section \<open>What the selector does\<close>

text \<open>
  The documented meaning of the filters of \<open>DescribeInstances\<close> on the tags: every filter has to match, and
  a filter matches if one of its values does.
\<close>

definition filterMatches :: "(string \<times> string) list \<Rightarrow> string \<times> string list \<Rightarrow> bool" where
  "filterMatches tags f = (case f of (name, vals) \<Rightarrow>
     if name = ''tag-key'' then list_ex (\<lambda>k. map_of tags k \<noteq> None) vals
     else if take 4 name = ''tag:'' then (case map_of tags (drop 4 name) of None \<Rightarrow> False | Some v \<Rightarrow> v \<in> set vals)
     else True)"

text \<open>
  Tags with a value have to match all, tags without a value need only one of their keys to be
  present: with several of them the selection is wider than the conjunction of the tags.
\<close>

lemma ec2_filters_meaning:
  assumes "e2_InstanceIDs sel = []"
  shows "list_all (filterMatches tags) (Filters (describeInput sel)) \<longleftrightarrow>
    (\<forall>(k, v) \<in> set (e2_Tags sel). v \<noteq> '''' \<longrightarrow> map_of tags k = Some v) \<and>
    ((\<exists>k. (k, '''') \<in> set (e2_Tags sel)) \<longrightarrow> (\<exists>k. (k, '''') \<in> set (e2_Tags sel) \<and> map_of tags k \<noteq> None))"
proof -
  have key: "list_ex (\<lambda>k. map_of tags k \<noteq> None) (map fst (filter (\<lambda>(k, v). v = '''') xs)) \<longleftrightarrow>
      (\<exists>k. (k, '''') \<in> set xs \<and> map_of tags k \<noteq> None)"
    and none: "map fst (filter (\<lambda>(k, v). v = '''') xs) = [] \<longleftrightarrow> (\<nexists>k. (k, '''') \<in> set xs)" for xs :: "(string \<times> string) list"
    by (auto simp: list_ex_iff filter_empty_conv)
  have val: "list_all (filterMatches tags) (map (\<lambda>(k, v). (''tag:'' @ k, [v])) (filter (\<lambda>(k, v). v \<noteq> '''') xs)) \<longleftrightarrow>
      (\<forall>(k, v) \<in> set xs. v \<noteq> '''' \<longrightarrow> map_of tags k = Some v)" for xs :: "(string \<times> string) list"
    by (auto simp: list_all_iff filterMatches_def split: option.splits)
  show ?thesis
    using assms none [of "e2_Tags sel"] key [of "e2_Tags sel"]
    by (auto simp: describeInput_def Let_def val [simplified] filterMatches_def [of _ "(''tag-key'', _)"]
        filterMatches_def [of _ "(''instance-state-name'', _)"])
qed

lemma ec2_key_only_tags_ORed:
  "list_all (filterMatches [(''team'', ''a'')])
     (Filters (describeInput \<lparr>e2_Tags = [(''team'', ''''), (''hibernate'', '''')], e2_TagSelector = None, e2_InstanceIDs = []\<rparr>))"
  by (simp add: describeInput_def filterMatches_def)

text \<open>An instance that is still pending is recorded as one that was not running, and is not stopped.\<close>

lemma ec2_pending_escapes:
  assumes "parseParams (e2_libs e) (sp_Parameters (e2_spec e)) = Inr p" "loadAWSConfig (e2_loadDefault e) (e2_spec e) = Inr cfg"
    and "findInstances (ec2Factory e cfg) (e2_Selector p) w = Inr [\<lparr>it_Id = i, it_State = ''pending'', it_Tags = t\<rparr>]"
  shows "Shutdown e w = (Inr ''stopped 0 of 1 EC2 instance(s)'', [(i, ec2_enc i False)], w)"
  using assms by (simp add: Shutdown_def Let_def isRunning_def ec2_enc_def ec2_codes_def show_nat.simps digit_def char_of_def bit_0)

end
