(* ===== verification/Rds.thy ===== *)
theory Rds
  imports ExecBase
begin

text \<open>
  The RDS executor (\<^verbatim>\<open>internal/executor/rds\<close>): DB instances and DB clusters behind one strategy
  interface (\<^verbatim>\<open>strategy.go\<close>, \<^verbatim>\<open>instance_strategy.go\<close>, \<^verbatim>\<open>cluster_strategy.go\<close>) and the executor that drives
  it (\<^verbatim>\<open>rds.go\<close>).  The two strategies differ in the calls and texts they use, so that a strategy is a
  record of those and each operation is one definition over it.  In the errors of the client,
  \<open>NotFound\<close> is the not-found code of the respective resource.

  The goroutines of an awaited completion work on different resources; they are run in an order
  that the environment chooses, with the observations of each wait given per resource.
\<close>

datatype ResourceType = ResourceTypeInstance | ResourceTypeCluster

definition rtName :: "ResourceType \<Rightarrow> string" where
  "rtName rt = (case rt of ResourceTypeInstance \<Rightarrow> ''instance'' | ResourceTypeCluster \<Rightarrow> ''cluster'')"

record DBResource =
  db_Id :: string
  db_Arn :: string
  db_Class :: string
  db_Status :: string

record 'w RDSClient =
  DescribeDBInstances :: "string option \<Rightarrow> 'w \<Rightarrow> (DBResource list) res"
  DescribeDBClusters :: "string option \<Rightarrow> 'w \<Rightarrow> (DBResource list) res"
  ListTagsForResource :: "string \<Rightarrow> 'w \<Rightarrow> ((string \<times> string) list) res"
  CreateDBSnapshot :: "string \<Rightarrow> string \<Rightarrow> 'w \<Rightarrow> go_error option \<times> 'w"
  CreateDBClusterSnapshot :: "string \<Rightarrow> string \<Rightarrow> 'w \<Rightarrow> go_error option \<times> 'w"
  DBSnapshotAvailable :: "string \<Rightarrow> 'w \<Rightarrow> go_error option"
  DBClusterSnapshotAvailable :: "string \<Rightarrow> 'w \<Rightarrow> go_error option"
  StopDBInstance :: "string \<Rightarrow> 'w \<Rightarrow> go_error option \<times> 'w"
  StartDBInstance :: "string \<Rightarrow> 'w \<Rightarrow> go_error option \<times> 'w"
  StopDBCluster :: "string \<Rightarrow> 'w \<Rightarrow> go_error option \<times> 'w"
  StartDBCluster :: "string \<Rightarrow> 'w \<Rightarrow> go_error option \<times> 'w"

section \<open>Stored state\<close>

record DBState =
  ds_Id :: string
  ds_WasRunning :: bool
  SnapshotId :: string
  InstanceType :: string

definition omitEmpty :: "string \<Rightarrow> string \<Rightarrow> (string \<times> json) list" where
  "omitEmpty name v = (if v = '''' then [] else [(name, JStr v)])"

definition encodeDBInstance :: "DBState \<Rightarrow> json" where
  "encodeDBInstance s = JObj ((''instanceId'', JStr (ds_Id s)) # omitEmpty ''instanceType'' (InstanceType s) @
     omitEmpty ''snapshotId'' (SnapshotId s) @ [(''wasRunning'', JBool (ds_WasRunning s))])"

definition encodeDBCluster :: "DBState \<Rightarrow> json" where
  "encodeDBCluster s = JObj ((''clusterId'', JStr (ds_Id s)) # omitEmpty ''snapshotId'' (SnapshotId s) @
     [(''wasRunning'', JBool (ds_WasRunning s))])"

definition decodeDBState :: "string \<Rightarrow> bool \<Rightarrow> json \<Rightarrow> DBState res" where
  "decodeDBState idField hasType v =
     (case jmembers v of
        Inl e \<Rightarrow> Inl e
      | Inr m \<Rightarrow>
          (case (decodeField jstr '''' idField m, decodeField jbool False ''wasRunning'' m, decodeField jstr '''' ''snapshotId'' m,
                 if hasType then decodeField jstr '''' ''instanceType'' m else Inr '''') of
             (Inr i, Inr b, Inr s, Inr t) \<Rightarrow> Inr \<lparr>ds_Id = i, ds_WasRunning = b, SnapshotId = s, InstanceType = t\<rparr>
           | _ \<Rightarrow> Inl (typeError ''DBState'')))"

definition instance_ParseState :: "json \<Rightarrow> DBState res" where
  "instance_ParseState = decodeDBState ''instanceId'' True"

definition cluster_ParseState :: "json \<Rightarrow> DBState res" where
  "cluster_ParseState = decodeDBState ''clusterId'' False"

section \<open>The strategies\<close>

record 'w ResourceStrategy =
  rs_type :: ResourceType
  rs_listErr :: string
  rs_describe :: "string option \<Rightarrow> 'w \<Rightarrow> (DBResource list) res"
  rs_tags :: "string \<Rightarrow> 'w \<Rightarrow> ((string \<times> string) list) res"
  rs_ids :: "RDSSelector \<Rightarrow> string list"
  rs_skip :: "string \<Rightarrow> bool"
  rs_snapshotErrs :: "string \<times> string"
  rs_snapshot :: "string \<Rightarrow> string \<Rightarrow> 'w \<Rightarrow> go_error option \<times> 'w"
  rs_snapshotAvailable :: "string \<Rightarrow> 'w \<Rightarrow> go_error option"
  rs_stop :: "string \<Rightarrow> 'w \<Rightarrow> go_error option \<times> 'w"
  rs_start :: "string \<Rightarrow> 'w \<Rightarrow> go_error option \<times> 'w"
  rs_encode :: "DBState \<Rightarrow> json"
  rs_parse :: "json \<Rightarrow> DBState res"
  rs_class :: "DBResource \<Rightarrow> string"

definition instanceStrategy :: "'w RDSClient \<Rightarrow> 'w ResourceStrategy" where
  "instanceStrategy c =
     \<lparr>rs_type = ResourceTypeInstance, rs_listErr = ''describe DB instances: '', rs_describe = DescribeDBInstances c,
      rs_tags = ListTagsForResource c, rs_ids = InstanceIds, rs_skip = (\<lambda>i. take 12 i = ''aws-restore-''),
      rs_snapshotErrs = (''create snapshot: '', ''wait for snapshot: ''), rs_snapshot = CreateDBSnapshot c,
      rs_snapshotAvailable = DBSnapshotAvailable c, rs_stop = StopDBInstance c, rs_start = StartDBInstance c,
      rs_encode = encodeDBInstance, rs_parse = instance_ParseState, rs_class = db_Class\<rparr>"

definition clusterStrategy :: "'w RDSClient \<Rightarrow> 'w ResourceStrategy" where
  "clusterStrategy c =
     \<lparr>rs_type = ResourceTypeCluster, rs_listErr = ''describe DB clusters: '', rs_describe = DescribeDBClusters c,
      rs_tags = ListTagsForResource c, rs_ids = ClusterIds, rs_skip = (\<lambda>_. False),
      rs_snapshotErrs = (''create cluster snapshot: '', ''wait for cluster snapshot: ''), rs_snapshot = CreateDBClusterSnapshot c,
      rs_snapshotAvailable = DBClusterSnapshotAvailable c, rs_stop = StopDBCluster c, rs_start = StartDBCluster c,
      rs_encode = encodeDBCluster, rs_parse = cluster_ParseState, rs_class = (\<lambda>_. '''')\<rparr>"

definition strategyRegistry :: "'w RDSClient \<Rightarrow> ResourceType \<Rightarrow> 'w ResourceStrategy" where
  "strategyRegistry c rt = (case rt of ResourceTypeInstance \<Rightarrow> instanceStrategy c | ResourceTypeCluster \<Rightarrow> clusterStrategy c)"

definition GetResourceKey :: "ResourceType \<Rightarrow> string \<Rightarrow> string" where
  "GetResourceKey rt i = rtName rt @ '':'' @ i"

subsection \<open>Discovery\<close>

definition matchesTags :: "(string \<times> string) list \<Rightarrow> (string \<times> string) list \<Rightarrow> bool" where
  "matchesTags resourceTags selectorTags =
     list_all (\<lambda>(k, v). case map_of resourceTags k of None \<Rightarrow> False | Some rv \<Rightarrow> v = '''' \<or> rv = v) selectorTags"

definition effectiveSelector :: "RDSSelector \<Rightarrow> TagSelector option" where
  "effectiveSelector sel =
     (if rd_TagSelector sel \<noteq> None then rd_TagSelector sel
      else if rd_Tags sel \<noteq> [] then ToTagSelector (rd_Tags sel) else None)"

definition selected :: "RDSSelector \<Rightarrow> (string \<times> string) list \<Rightarrow> bool" where
  "selected sel tags =
     (if effectiveSelector sel \<noteq> None then Match tags (effectiveSelector sel)
      else if rd_ExcludeTags sel \<noteq> [] then \<not> matchesTags tags (rd_ExcludeTags sel) else False)"

fun discoverTagged :: "'w ResourceStrategy \<Rightarrow> RDSSelector \<Rightarrow> 'w \<Rightarrow> DBResource list \<Rightarrow> (string list) res" where
  "discoverTagged s sel w [] = Inr []"
| "discoverTagged s sel w (r # rs) =
     (if rs_skip s (db_Id r) then discoverTagged s sel w rs
      else (case rs_tags s (db_Arn r) w of
              Inl e \<Rightarrow> Inl (Wrap (''list tags for '' @ rtName (rs_type s) @ '' '' @ db_Id r @ '': '') e)
            | Inr tags \<Rightarrow>
                (case discoverTagged s sel w rs of
                   Inl e \<Rightarrow> Inl e
                 | Inr ids \<Rightarrow> Inr (if selected sel (fold (\<lambda>(k, v). AList.update k v) tags []) then db_Id r # ids else ids))))"

definition Discover :: "'w ResourceStrategy \<Rightarrow> RDSSelector \<Rightarrow> 'w \<Rightarrow> (string list) res" where
  "Discover s sel w =
     (if rs_ids s sel \<noteq> [] then Inr (rs_ids s sel)
      else (case rs_describe s None w of
              Inl e \<Rightarrow> Inl (Wrap (rs_listErr s) e)
            | Inr rs \<Rightarrow> if IncludeAll sel then Inr (map db_Id rs) else discoverTagged s sel w rs))"

subsection \<open>Stopping and starting\<close>

datatype operationOutcome = OutcomeApplied | OutcomeSkippedStale | OutcomePending

text \<open>\<open>createInstanceSnapshot\<close> and \<open>createClusterSnapshot\<close>; the wait is the waiter of the SDK.\<close>

definition createSnapshot :: "Time \<Rightarrow> 'w ResourceStrategy \<Rightarrow> string \<Rightarrow> 'w \<Rightarrow> string res \<times> 'w" where
  "createSnapshot now s i w =
     (let snap = i @ ''-hibernate-'' @ show_int (unix_sec now) in
      case rs_snapshot s i snap w of
        (Some e, w') \<Rightarrow> (Inl (Wrap (fst (rs_snapshotErrs s)) e), w')
      | (None, w') \<Rightarrow>
          (case rs_snapshotAvailable s snap w' of
             Some e \<Rightarrow> (Inl (Wrap (snd (rs_snapshotErrs s)) e), w')
           | None \<Rightarrow> (Inr snap, w')))"

definition Stop :: "Time \<Rightarrow> 'w ResourceStrategy \<Rightarrow> RDSParameters \<Rightarrow> bool \<Rightarrow> string \<Rightarrow> 'w \<Rightarrow>
    operationOutcome res \<times> (string \<times> json) list \<times> 'w" where
  "Stop now s params snapshotBefore i w =
     (case rs_describe s (Some i) w of
        Inl e \<Rightarrow> (if is_not_found e then Inr OutcomeSkippedStale else Inl e, [], w)
      | Inr [] \<Rightarrow> (Inl (ErrMsg (rtName (rs_type s) @ '' '' @ i @ '' not found'')), [], w)
      | Inr (r # _) \<Rightarrow>
          (let report = (\<lambda>running snap. [(GetResourceKey (rs_type s) i,
                 rs_encode s \<lparr>ds_Id = i, ds_WasRunning = running, SnapshotId = snap, InstanceType = rs_class s r\<rparr>)])
           in if db_Status r = ''available'' then
                (case (if snapshotBefore then createSnapshot now s i w else (Inr '''', w)) of
                   (Inl e, w1) \<Rightarrow> (Inl e, [], w1)
                 | (Inr snap, w1) \<Rightarrow>
                     (case rs_stop s i w1 of
                        (Some e, w2) \<Rightarrow> (if is_not_found e then Inr OutcomeSkippedStale else Inl e, [], w2)
                      | (None, w2) \<Rightarrow> (Inr OutcomeApplied, report True snap, w2)))
              else if db_Status r = ''stopped'' then (Inr OutcomeApplied, report False '''', w)
              else if Enabled (rd_AwaitCompletion params) then (Inr OutcomePending, [], w)
              else (Inr OutcomeSkippedStale, [], w)))"

definition Start :: "'w ResourceStrategy \<Rightarrow> RDSParameters \<Rightarrow> string \<Rightarrow> 'w \<Rightarrow> operationOutcome res \<times> 'w" where
  "Start s params i w =
     (case rs_describe s (Some i) w of
        Inl e \<Rightarrow> (if is_not_found e then Inr OutcomeSkippedStale else Inl e, w)
      | Inr [] \<Rightarrow> (Inl (ErrMsg (rtName (rs_type s) @ '' '' @ i @ '' not found'')), w)
      | Inr (r # _) \<Rightarrow>
          if db_Status r = ''available'' then (Inr OutcomeSkippedStale, w)
          else if db_Status r \<noteq> ''stopped'' then
            (Inr (if Enabled (rd_AwaitCompletion params) then OutcomePending else OutcomeSkippedStale), w)
          else (case rs_start s i w of
                  (Some e, w') \<Rightarrow> (if is_not_found e then Inr OutcomeSkippedStale else Inl e, w')
                | (None, w') \<Rightarrow> (Inr OutcomeApplied, w')))"

definition instance_Discover where "instance_Discover c = Discover (instanceStrategy c)"
definition instance_Stop where "instance_Stop now c = Stop now (instanceStrategy c)"
definition instance_Start where "instance_Start c = Start (instanceStrategy c)"
definition cluster_Discover where "cluster_Discover c = Discover (clusterStrategy c)"
definition cluster_Stop where "cluster_Stop now c = Stop now (clusterStrategy c)"
definition cluster_Start where "cluster_Start c = Start (clusterStrategy c)"

section \<open>Waiting\<close>

type_synonym rdsWait = "((DBResource list) res) waitRun"

definition waitForStatus :: "string \<Rightarrow> string \<Rightarrow> ResourceType \<Rightarrow> rdsWait \<Rightarrow> string \<Rightarrow> string \<Rightarrow> go_error option" where
  "waitForStatus status goal rt r i timeout =
     waitFor id timeout (''DB '' @ rtName rt @ '' '' @ i @ goal)
       (\<lambda>x. case x of
          Inl e \<Rightarrow> Inl e
        | Inr [] \<Rightarrow> Inl (ErrMsg (rtName rt @ '' '' @ i @ '' not found''))
        | Inr (d # _) \<Rightarrow> Inr (db_Status d = status, ''status='' @ db_Status d)) r"

definition DefaultWaitTimeout :: string where "DefaultWaitTimeout = ''15m''"

definition WaitForAvailable where "WaitForAvailable = waitForStatus ''available'' '' to be available''"

definition WaitForStopped where
  "WaitForStopped rt r i timeout =
     waitForStatus ''stopped'' '' to stop'' rt r i (if timeout = '''' then DefaultWaitTimeout else timeout)"

section \<open>The executor\<close>

record rdsStats = operationStats +
  skippedKey :: nat
  st_pending :: nat
  st_failed :: nat

definition newStats :: "nat \<Rightarrow> rdsStats" where
  "newStats n = \<lparr>processed = n, applied = 0, skippedStale = 0, skippedKey = 0, st_pending = 0, st_failed = 0\<rparr>"

text \<open>The two trackers of the executor, as one: what waits, and what is pending with its snapshot flag.\<close>

record tracker =
  waitingList :: "(ResourceType \<times> string) list"
  pendingList :: "(ResourceType \<times> string \<times> bool) list"

type_synonym progress = "rdsStats \<times> tracker"

record 'w RdsEnv =
  rd_libs :: ParamLibs
  rd_spec :: Spec
  rd_loadDefault :: load_default
  rdsFactory :: "SdkConfig \<Rightarrow> 'w RDSClient"
  rd_now :: Time
  rd_sched :: "(ResourceType \<times> string \<times> bool) list \<Rightarrow> (ResourceType \<times> string \<times> bool) list"
  availableWait :: "ResourceType \<Rightarrow> string \<Rightarrow> rdsWait"
  stoppedWait :: "ResourceType \<Rightarrow> string \<Rightarrow> rdsWait"

definition formatShutdownMessage :: "rdsStats \<Rightarrow> string" where
  "formatShutdownMessage st =
     appendCountSegment (appendCountSegment (''stopped '' @ show_nat (applied st) @ '' RDS resource(s)'')
         ''skipped'' (skippedStale st) ''stale resource'')
       ''pending'' (st_pending st) ''resource awaiting state transition''"

definition formatWakeUpMessage :: "rdsStats \<Rightarrow> string" where
  "formatWakeUpMessage st =
     appendCountSegment (appendCountSegment (appendCountSegment (''started '' @ show_nat (applied st) @ '' RDS resource(s)'')
         ''skipped'' (skippedStale st) ''stale resource'')
         ''skipped'' (skippedKey st) ''unrecognized restore key'')
       ''pending'' (st_pending st) ''resource awaiting state transition''"

definition zeroRDSParameters :: RDSParameters where
  "zeroRDSParameters = \<lparr>SnapshotBeforeStop = False,
     rd_Selector = \<lparr>rd_Tags = [], rd_ExcludeTags = [], rd_TagSelector = None, InstanceIds = [], ClusterIds = [], IncludeAll = False,
       DiscoverInstances = False, DiscoverClusters = False\<rparr>,
     rd_AwaitCompletion = \<lparr>Enabled = False, ac_Timeout = ''''\<rparr>\<rparr>"

definition parseParams :: "ParamLibs \<Rightarrow> string \<Rightarrow> RDSParameters res" where
  "parseParams L raw = (if raw = '''' then Inr zeroRDSParameters else decodeRDS L raw)"

definition Validate :: "'w RdsEnv \<Rightarrow> go_error option" where
  "Validate e =
     (if sp_AWS (rd_spec e) = None then Some (ErrMsg ''AWS connector config required for RDS executor'')
      else (case parseParams (rd_libs e) (sp_Parameters (rd_spec e)) of
              Inl er \<Rightarrow> Some er
            | Inr params \<Rightarrow>
                (let sel = rd_Selector params; tags = rd_Tags sel \<noteq> []; ex = rd_ExcludeTags sel \<noteq> [];
                     ts = hasTagSelector (rd_TagSelector sel); ids = InstanceIds sel \<noteq> [] \<or> ClusterIds sel \<noteq> []
                 in if \<not> (tags \<or> ex \<or> ts \<or> ids \<or> IncludeAll sel)
                    then Some (ErrMsg ''selector must specify at least one of: tags, excludeTags, tagSelector, InstanceIds, ClusterIds, or includeAll'')
                    else if tags \<and> ex then Some (ErrMsg ''selector.tags and selector.excludeTags are mutually exclusive'')
                    else if ts \<and> (tags \<or> ex)
                    then Some (ErrMsg ''selector.tagSelector is mutually exclusive with selector.tags and selector.excludeTags'')
                    else if IncludeAll sel \<and> (tags \<or> ex \<or> ts \<or> ids)
                    then Some (ErrMsg ''selector.includeAll cannot be combined with tags, excludeTags, tagSelector, InstanceIds, or ClusterIds'')
                    else None)))"

definition determineResourceTypes :: "RDSParameters \<Rightarrow> bool \<times> bool" where
  "determineResourceTypes params =
     (let sel = rd_Selector params in
      if InstanceIds sel \<noteq> [] \<or> ClusterIds sel \<noteq> [] then (InstanceIds sel \<noteq> [], ClusterIds sel \<noteq> [])
      else (DiscoverInstances sel, DiscoverClusters sel))"

definition track :: "ResourceType \<Rightarrow> string \<Rightarrow> bool \<Rightarrow> operationOutcome \<Rightarrow> progress \<Rightarrow> progress" where
  "track rt i snap outcome p =
     (case p of (st, tr) \<Rightarrow>
        (case outcome of
           OutcomeApplied \<Rightarrow> (st\<lparr>applied := applied st + 1\<rparr>, tr\<lparr>waitingList := waitingList tr @ [(rt, i)]\<rparr>)
         | OutcomeSkippedStale \<Rightarrow> (st\<lparr>skippedStale := skippedStale st + 1\<rparr>, tr)
         | OutcomePending \<Rightarrow> (st\<lparr>st_pending := st_pending st + 1\<rparr>, tr\<lparr>pendingList := pendingList tr @ [(rt, i, snap)]\<rparr>)))"

definition stopStep :: "Time \<Rightarrow> 'w ResourceStrategy \<Rightarrow> RDSParameters \<Rightarrow> string \<Rightarrow> progress \<Rightarrow> 'w \<Rightarrow>
    progress res \<times> (string \<times> json) list \<times> 'w" where
  "stopStep now s params i p w =
     (case Stop now s params (SnapshotBeforeStop params) i w of
        (Inl e, reps, w') \<Rightarrow> (Inl (Wrap (''stop '' @ rtName (rs_type s) @ '' '' @ i @ '': '') e), reps, w')
      | (Inr outcome, reps, w') \<Rightarrow> (Inr (track (rs_type s) i (SnapshotBeforeStop params) outcome p), reps, w'))"

definition processResources :: "Time \<Rightarrow> 'w ResourceStrategy \<Rightarrow> RDSParameters \<Rightarrow> progress \<Rightarrow> 'w \<Rightarrow>
    progress res \<times> (string \<times> json) list \<times> 'w" where
  "processResources now s params p w =
     (case Discover s (rd_Selector params) w of
        Inl e \<Rightarrow> (Inl (Wrap (''discover '' @ rtName (rs_type s) @ '': '') e), [], w)
      | Inr ids \<Rightarrow> forEach (stopStep now s params) ids ((fst p)\<lparr>processed := processed (fst p) + length ids\<rparr>, snd p) w)"

text \<open>The key of a restore entry: its type and identifier, or none.\<close>

definition splitKey :: "string \<Rightarrow> (ResourceType \<times> string) option" where
  "splitKey key =
     (if take 9 key = ''instance:'' then Some (ResourceTypeInstance, drop 9 key)
      else if take 8 key = ''cluster:'' then Some (ResourceTypeCluster, drop 8 key)
      else None)"

definition restoreResource :: "'w RDSClient \<Rightarrow> RDSParameters \<Rightarrow> string \<times> json \<Rightarrow> progress \<Rightarrow> 'w \<Rightarrow> progress res \<times> 'w" where
  "restoreResource c params entry p w =
     (case entry of (key, stateBytes) \<Rightarrow>
        (case splitKey key of
           None \<Rightarrow> (Inr ((fst p)\<lparr>skippedKey := skippedKey (fst p) + 1\<rparr>, snd p), w)
         | Some (rt, i) \<Rightarrow>
             (let s = strategyRegistry c rt in
              case rs_parse s stateBytes of
                Inl e \<Rightarrow> (Inl (Wrap (''unmarshal '' @ rtName rt @ '' state '' @ i @ '': '') e), w)
              | Inr state \<Rightarrow>
                  if \<not> ds_WasRunning state then (Inr ((fst p)\<lparr>skippedStale := skippedStale (fst p) + 1\<rparr>, snd p), w)
                  else (case Start s params i w of
                          (Inl e, w') \<Rightarrow> (Inl (Wrap (''start '' @ rtName rt @ '' '' @ i @ '': '') e), w')
                        | (Inr outcome, w') \<Rightarrow> (Inr (track rt i False outcome p), w')))))"

subsection \<open>Awaited completion\<close>

record tally =
  timedOut :: nat
  pendingApplied :: nat
  failures :: "go_error list"

definition zeroTally :: tally where
  "zeroTally = \<lparr>timedOut = 0, pendingApplied = 0, failures = []\<rparr>"

definition pendingFailed :: "ResourceType \<Rightarrow> string \<Rightarrow> go_error \<Rightarrow> tally \<Rightarrow> tally" where
  "pendingFailed rt i er t = t\<lparr>failures := ErrorList_Add (Some (Wrap (rtName rt @ '' '' @ i @ '': '') er)) (failures t)\<rparr>"

definition countApplied :: "go_error option \<Rightarrow> tally \<Rightarrow> tally" where
  "countApplied waitErr t = t\<lparr>pendingApplied := pendingApplied t + 1,
     timedOut := timedOut t + (if waitErr = None then 0 else 1)\<rparr>"

text \<open>The goroutine of one pending resource: wait, operate, wait again.\<close>

fun completeStops :: "'w RdsEnv \<Rightarrow> 'w RDSClient \<Rightarrow> RDSParameters \<Rightarrow> string \<Rightarrow> (ResourceType \<times> string \<times> bool) list \<Rightarrow> tally \<Rightarrow> 'w \<Rightarrow>
    tally \<times> (string \<times> json) list \<times> 'w" where
  "completeStops e c params timeout [] t w = (t, [], w)"
| "completeStops e c params timeout ((rt, i, snap) # ps) t w =
     (case WaitForAvailable rt (availableWait e rt i) i timeout of
        Some er \<Rightarrow> completeStops e c params timeout ps (pendingFailed rt i er t) w
      | None \<Rightarrow>
          (case Stop (rd_now e) (strategyRegistry c rt) params snap i w of
             (r, reps, w') \<Rightarrow>
               (let t' = (case r of
                            Inl er \<Rightarrow> pendingFailed rt i er t
                          | Inr OutcomeApplied \<Rightarrow> countApplied (WaitForStopped rt (stoppedWait e rt i) i timeout) t
                          | Inr _ \<Rightarrow> t)
                in case completeStops e c params timeout ps t' w' of (t'', reps', w'') \<Rightarrow> (t'', reps @ reps', w''))))"

fun completeStarts :: "'w RdsEnv \<Rightarrow> 'w RDSClient \<Rightarrow> RDSParameters \<Rightarrow> string \<Rightarrow> (ResourceType \<times> string \<times> bool) list \<Rightarrow> tally \<Rightarrow> 'w \<Rightarrow>
    tally \<times> 'w" where
  "completeStarts e c params timeout [] t w = (t, w)"
| "completeStarts e c params timeout ((rt, i, snap) # ps) t w =
     (case WaitForStopped rt (stoppedWait e rt i) i timeout of
        Some er \<Rightarrow> completeStarts e c params timeout ps (pendingFailed rt i er t) w
      | None \<Rightarrow>
          (case Start (strategyRegistry c rt) params i w of
             (r, w') \<Rightarrow>
               (let t' = (case r of
                            Inl er \<Rightarrow> pendingFailed rt i er t
                          | Inr OutcomeApplied \<Rightarrow> countApplied (WaitForAvailable rt (availableWait e rt i) i timeout) t
                          | Inr _ \<Rightarrow> t)
                in completeStarts e c params timeout ps t' w')))"

definition awaitTimeout :: "RDSParameters \<Rightarrow> string" where
  "awaitTimeout params = (let t = ac_Timeout (rd_AwaitCompletion params) in if t = '''' then DefaultWaitTimeout else t)"

text \<open>The message: the final counts, the failures, and what has not arrived in time.\<close>

definition finalStats :: "tally \<Rightarrow> rdsStats \<Rightarrow> rdsStats" where
  "finalStats t st =
     (let n = length (failures t) in
      st\<lparr>applied := applied st + pendingApplied t, st_pending := st_pending st - pendingApplied t - n, st_failed := st_failed st + n\<rparr>)"

definition completionSuffix :: "string \<Rightarrow> string \<Rightarrow> nat \<Rightarrow> tally \<Rightarrow> string" where
  "completionSuffix goal timeout totalOps t =
     (let n = length (failures t) in
      (if n > 0 then ''; '' @ show_nat n @ '' pending '' @ (if n > 1 then ''resources'' else ''resource'') @
         '' failed to transition: '' @ ErrorList_Join '', '' (failures t) else '''') @
      (if timedOut t > 0 then ''; '' @ show_nat (timedOut t) @ '' of '' @ show_nat totalOps @ '' resource(s) not yet '' @ goal @
         '' after '' @ timeout @ '' timeout''
       else if n = 0 then ''; all resources confirmed '' @ goal else ''''))"

definition waitTally :: "(ResourceType \<Rightarrow> string \<Rightarrow> go_error option) \<Rightarrow> (ResourceType \<times> string) list \<Rightarrow> tally \<Rightarrow> tally" where
  "waitTally wait xs t = t\<lparr>timedOut := timedOut t + length (filter (\<lambda>(rt, i). wait rt i \<noteq> None) xs)\<rparr>"

definition handleShutdownAwaitCompletion :: "'w RdsEnv \<Rightarrow> 'w RDSClient \<Rightarrow> RDSParameters \<Rightarrow> progress \<Rightarrow> 'w \<Rightarrow>
    string \<times> (string \<times> json) list \<times> 'w" where
  "handleShutdownAwaitCompletion e c params p w =
     (case p of (st, tr) \<Rightarrow>
        (let timeout = awaitTimeout params in
         case completeStops e c params timeout (rd_sched e (pendingList tr)) zeroTally w of
           (t0, reps, w') \<Rightarrow>
             (let t = waitTally (\<lambda>rt i. WaitForStopped rt (stoppedWait e rt i) i timeout) (waitingList tr) t0
              in (formatShutdownMessage (finalStats t st) @
                    completionSuffix ''stopped'' timeout (length (waitingList tr) + length (pendingList tr)) t, reps, w'))))"

definition handleWakeupAwaitCompletion :: "'w RdsEnv \<Rightarrow> 'w RDSClient \<Rightarrow> RDSParameters \<Rightarrow> progress \<Rightarrow> 'w \<Rightarrow> string \<times> 'w" where
  "handleWakeupAwaitCompletion e c params p w =
     (case p of (st, tr) \<Rightarrow>
        (let timeout = awaitTimeout params in
         case completeStarts e c params timeout (rd_sched e (pendingList tr)) zeroTally w of
           (t0, w') \<Rightarrow>
             (let t = waitTally (\<lambda>rt i. WaitForAvailable rt (availableWait e rt i) i timeout) (waitingList tr) t0
              in (formatWakeUpMessage (finalStats t st) @
                    completionSuffix ''available'' timeout (length (waitingList tr) + length (pendingList tr)) t, w'))))"

subsection \<open>The operations\<close>

definition Shutdown :: "'w RdsEnv \<Rightarrow> 'w shutdown_fn" where
  "Shutdown e w =
     (case parseParams (rd_libs e) (sp_Parameters (rd_spec e)) of
        Inl er \<Rightarrow> (Inl (Wrap ''parse parameters: '' er), [], w)
      | Inr params \<Rightarrow>
     (case loadAWSConfig (rd_loadDefault e) (rd_spec e) of
        Inl er \<Rightarrow> (Inl (Wrap ''load AWS config: '' er), [], w)
      | Inr cfg \<Rightarrow>
     (let c = rdsFactory e cfg; types = determineResourceTypes params;
          strategies = (if fst types then [instanceStrategy c] else []) @ (if snd types then [clusterStrategy c] else []) in
      case forEach (\<lambda>s. processResources (rd_now e) s params) strategies
             (newStats 0, \<lparr>waitingList = [], pendingList = []\<rparr>) w of
        (Inl er, reps, w') \<Rightarrow> (Inl er, reps, w')
      | (Inr p, reps, w') \<Rightarrow>
          if Enabled (rd_AwaitCompletion params) then
            (case handleShutdownAwaitCompletion e c params p w' of (msg, reps', w'') \<Rightarrow> (Inr msg, reps @ reps', w''))
          else (Inr (formatShutdownMessage (fst p)), reps, w'))))"

definition WakeUp :: "'w RdsEnv \<Rightarrow> 'w wakeup_fn" where
  "WakeUp e restore w =
     (if xr_Data restore = [] then (Inr ''wakeup completed for RDS (no restore data)'', w)
      else (case parseParams (rd_libs e) (sp_Parameters (rd_spec e)) of
        Inl er \<Rightarrow> (Inl (Wrap ''parse parameters: '' er), w)
      | Inr params \<Rightarrow>
     (case loadAWSConfig (rd_loadDefault e) (rd_spec e) of
        Inl er \<Rightarrow> (Inl (Wrap ''load AWS config: '' er), w)
      | Inr cfg \<Rightarrow>
     (let c = rdsFactory e cfg in
      case forRestore (restoreResource c params) (xr_Data restore)
             (newStats (length (xr_Data restore)), \<lparr>waitingList = [], pendingList = []\<rparr>) w of
        (Inl er, w') \<Rightarrow> (Inl er, w')
      | (Inr p, w') \<Rightarrow>
          if Enabled (rd_AwaitCompletion params) then
            (case handleWakeupAwaitCompletion e c params p w' of (msg, w'') \<Rightarrow> (Inr msg, w''))
          else (Inr (formatWakeUpMessage (fst p)), w')))))"

section \<open>The laws\<close>

text \<open>
  What the laws need of RDS, for the power of the resource behind each key: every described resource
  is settled (available or stopped), a successful stop or start switches exactly its resource, a
  snapshot and a failed call switch none, and a resource that is reported missing is missing.
\<close>

definition rds_describe_ok :: "('w \<Rightarrow> string \<Rightarrow> bool option) \<Rightarrow> 'w ResourceStrategy \<Rightarrow> bool" where
  "rds_describe_ok pow s \<longleftrightarrow>
     (\<forall>i w. case rs_describe s (Some i) w of
        Inl e \<Rightarrow> is_not_found e \<longrightarrow> pow w (GetResourceKey (rs_type s) i) = None
      | Inr [] \<Rightarrow> True
      | Inr (r # _) \<Rightarrow> (\<exists>b. pow w (GetResourceKey (rs_type s) i) = Some b \<and> db_Status r = (if b then ''available'' else ''stopped'')))"

definition rds_switch_ok :: "('w \<Rightarrow> string \<Rightarrow> bool option) \<Rightarrow> ResourceType \<Rightarrow> bool \<Rightarrow> (string \<Rightarrow> 'w \<Rightarrow> go_error option \<times> 'w) \<Rightarrow> bool" where
  "rds_switch_ok pow rt b call \<longleftrightarrow>
     (\<forall>i w. case call i w of
        (None, w') \<Rightarrow> pow w' = (pow w)(GetResourceKey rt i \<mapsto> b)
      | (Some e, w') \<Rightarrow> pow w' = pow w \<and> (is_not_found e \<longrightarrow> pow w (GetResourceKey rt i) = None))"

definition rds_strategy_ok :: "('w \<Rightarrow> string \<Rightarrow> bool option) \<Rightarrow> 'w ResourceStrategy \<Rightarrow> bool" where
  "rds_strategy_ok pow s \<longleftrightarrow> rds_describe_ok pow s \<and> rds_switch_ok pow (rs_type s) False (rs_stop s) \<and>
     rds_switch_ok pow (rs_type s) True (rs_start s) \<and> (\<forall>i n w. pow (snd (rs_snapshot s i n w)) = pow w)"

definition rds_ok :: "('w \<Rightarrow> string \<Rightarrow> bool option) \<Rightarrow> 'w RdsEnv \<Rightarrow> bool" where
  "rds_ok pow e \<longleftrightarrow> rd_sched e [] = [] \<and>
     (\<forall>p cfg. parseParams (rd_libs e) (sp_Parameters (rd_spec e)) = Inr p \<longrightarrow>
        loadAWSConfig (rd_loadDefault e) (rd_spec e) = Inr cfg \<longrightarrow>
        (\<forall>rt. rds_strategy_ok pow (strategyRegistry (rdsFactory e cfg) rt) \<and>
           (\<forall>w ids. Discover (strategyRegistry (rdsFactory e cfg) rt) (rd_Selector p) w = Inr ids \<longrightarrow> distinct ids)))"

definition rds_codes :: "string \<Rightarrow> bool option \<Rightarrow> json \<Rightarrow> bool" where
  "rds_codes k x v \<longleftrightarrow> (\<exists>b rt i snap cls. x = Some b \<and> k = GetResourceKey rt i \<and>
     v = (case rt of ResourceTypeInstance \<Rightarrow> encodeDBInstance | ResourceTypeCluster \<Rightarrow> encodeDBCluster)
           \<lparr>ds_Id = i, ds_WasRunning = b, SnapshotId = snap, InstanceType = cls\<rparr>)"

lemma registry_sel [simp]: "rs_type (strategyRegistry c rt) = rt"
    "rs_encode (strategyRegistry c rt) = (case rt of ResourceTypeInstance \<Rightarrow> encodeDBInstance | ResourceTypeCluster \<Rightarrow> encodeDBCluster)"
    "rs_parse (strategyRegistry c rt) = (case rt of ResourceTypeInstance \<Rightarrow> instance_ParseState | ResourceTypeCluster \<Rightarrow> cluster_ParseState)"
  by (simp_all add: strategyRegistry_def instanceStrategy_def clusterStrategy_def split: ResourceType.splits)

lemma key_inj [simp]: "GetResourceKey rt i = GetResourceKey rt' j \<longleftrightarrow> rt = rt' \<and> i = j"
  by (cases rt; cases rt') (simp_all add: GetResourceKey_def rtName_def)

lemma splitKey_key [simp]: "splitKey (GetResourceKey rt i) = Some (rt, i)"
  by (cases rt) (simp_all add: splitKey_def GetResourceKey_def rtName_def)

lemma parse_codes:
  assumes "rds_codes (GetResourceKey rt i) x v"
  shows "\<exists>st. rs_parse (strategyRegistry c rt) v = Inr st \<and> x = Some (ds_WasRunning st)"
  using assms
  by (cases rt) (auto simp: rds_codes_def instance_ParseState_def cluster_ParseState_def decodeDBState_def jmembers_def
      encodeDBInstance_def encodeDBCluster_def omitEmpty_def decodeField_def fieldValues_def EqualFold_def ToUpper_def to_upper_def)

definition rds_on :: "bool option \<Rightarrow> bool" where
  "rds_on x \<longleftrightarrow> x = Some True"

definition rds_off :: "bool option \<Rightarrow> bool option" where
  "rds_off x = map_option (\<lambda>_. False) x"

lemma demanded_codes: "rds_codes k x v \<Longrightarrow> demanded v \<longleftrightarrow> rds_on x"
proof -
  have "demanded (encodeDBInstance s) \<longleftrightarrow> ds_WasRunning s" "demanded (encodeDBCluster s) \<longleftrightarrow> ds_WasRunning s" for s
    by (auto simp: demanded_def encodeDBInstance_def encodeDBCluster_def omitEmpty_def isDemandedState_def jsonTrue_def)
  moreover assume "rds_codes k x v"
  then obtain b rt i snap cls where "x = Some b" "v = (case rt of ResourceTypeInstance \<Rightarrow> encodeDBInstance | ResourceTypeCluster \<Rightarrow> encodeDBCluster)
      \<lparr>ds_Id = i, ds_WasRunning = b, SnapshotId = snap, InstanceType = cls\<rparr>"
    by (auto simp: rds_codes_def)
  ultimately show "demanded v \<longleftrightarrow> rds_on x" by (cases rt) (auto simp: rds_on_def)
qed

lemma rds_describe:
  assumes "rds_strategy_ok pow s"
  shows "case rs_describe s (Some i) w of
        Inl e \<Rightarrow> is_not_found e \<longrightarrow> pow w (GetResourceKey (rs_type s) i) = None
      | Inr [] \<Rightarrow> True
      | Inr (r # _) \<Rightarrow> (\<exists>b. pow w (GetResourceKey (rs_type s) i) = Some b \<and> db_Status r = (if b then ''available'' else ''stopped''))"
  by (rule assms [unfolded rds_strategy_ok_def, THEN conjunct1, unfolded rds_describe_ok_def, THEN spec, THEN spec])

lemma rds_switch:
  assumes "rds_switch_ok pow rt b call" "call i w = (r, w')"
  shows "r = None \<Longrightarrow> pow w' = (pow w)(GetResourceKey rt i \<mapsto> b)"
    "r = Some e \<Longrightarrow> pow w' = pow w \<and> (is_not_found e \<longrightarrow> pow w (GetResourceKey rt i) = None)"
  using assms(1) [unfolded rds_switch_ok_def, THEN spec [of _ i], THEN spec [of _ w]] assms(2) by auto

lemma createSnapshot_pow:
  "rds_strategy_ok pow s \<Longrightarrow> createSnapshot now s i w = (r, w') \<Longrightarrow> pow w' = pow w"
  by (auto simp: createSnapshot_def rds_strategy_ok_def Let_def split: prod.splits option.splits) (metis snd_conv)+

text \<open>A stop on a settled resource: nothing, a report of a stopped resource, or a stop with its report.\<close>

lemma Stop_effect:
  assumes s: "s = strategyRegistry c rt" "rds_strategy_ok pow s" and r: "Stop now s params snap i w = (r, reps, w')"
  shows "reps = [] \<and> pow w' = pow w \<and> ((\<exists>x. r = Inr x) \<longrightarrow> pow w (GetResourceKey rt i) = None) \<or>
    (\<exists>v. reps = [(GetResourceKey rt i, v)] \<and> rds_codes (GetResourceKey rt i) (pow w (GetResourceKey rt i)) v \<and>
       pow w' = (pow w)(GetResourceKey rt i \<mapsto> False))"
proof -
  have rt: "rs_type s = rt" using s(1) by simp
  have sw: "rds_switch_ok pow rt False (rs_stop s)" using s(2) rt by (simp add: rds_strategy_ok_def)
  note d = rds_describe [OF s(2), where i = i and w = w, unfolded rt]
  consider (err) e where "rs_describe s (Some i) w = Inl e" | (none) "rs_describe s (Some i) w = Inr []"
    | (off) x xs where "rs_describe s (Some i) w = Inr (x # xs)" "pow w (GetResourceKey rt i) = Some False" "db_Status x = ''stopped''"
    | (on) x xs where "rs_describe s (Some i) w = Inr (x # xs)" "pow w (GetResourceKey rt i) = Some True" "db_Status x = ''available''"
    using d by (auto split: sum.splits list.splits if_splits)
  then show ?thesis
  proof cases
    case err
    then show ?thesis using r d by (auto simp: Stop_def split: if_splits)
  next
    case none
    then show ?thesis using r by (auto simp: Stop_def)
  next
    case off
    then have "pow w = (pow w)(GetResourceKey rt i \<mapsto> False)" by (simp add: fun_eq_iff)
    then show ?thesis using off r d s(1) by (auto simp: Stop_def Let_def rds_codes_def split: ResourceType.splits)
  next
    case on
    obtain r1 w1 where sn: "(if snap then createSnapshot now s i w else (Inr '''', w)) = (r1, w1)" by fastforce
    then have p1: "pow w1 = pow w" using createSnapshot_pow [OF s(2)] by (auto split: if_splits)
    obtain r2 w2 where st: "rs_stop s i w1 = (r2, w2)" by fastforce
    note sw' = rds_switch [OF sw st]
    show ?thesis
      using on sn p1 st sw' r s(1)
      by (cases r1; cases r2) (auto simp: Stop_def Let_def rds_codes_def split: ResourceType.splits if_splits)
  qed
qed

lemma Stop_down:
  assumes "s = strategyRegistry c rt" "rds_strategy_ok pow s" "Stop now s params snap i w = (r, reps, w')"
  shows "down_step pow rds_on rds_off rds_codes {GetResourceKey rt i} w reps w'"
  using Stop_effect [OF assms] by (elim disjE exE conjE) (auto simp: down_step_def rds_on_def rds_off_def rds_codes_def)

lemma stopStep_down:
  assumes "s = strategyRegistry c rt" "rds_strategy_ok pow s" "stopStep now s params i p w = (r, reps, w')"
  shows "down_step pow rds_on rds_off rds_codes {GetResourceKey rt i} w reps w'"
  using assms(3) Stop_down [OF assms(1,2)] by (fastforce simp: stopStep_def split: prod.splits sum.splits)

text \<open>On settled resources nothing becomes pending.\<close>

lemma Stop_not_pending:
  assumes "rds_strategy_ok pow s" shows "fst (Stop now s params snap i w) \<noteq> Inr OutcomePending"
  using rds_describe [OF assms, where i = i and w = w]
  by (auto simp: Stop_def Let_def split: sum.splits list.splits option.splits prod.splits if_splits)

lemma Start_not_pending:
  assumes "rds_strategy_ok pow s" shows "fst (Start s params i w) \<noteq> Inr OutcomePending"
  using rds_describe [OF assms, where i = i and w = w]
  by (auto simp: Start_def split: sum.splits list.splits option.splits prod.splits if_splits)

definition rtKeys :: "ResourceType \<Rightarrow> string set" where
  "rtKeys rt = range (GetResourceKey rt)"

lemma processResources_down:
  assumes s: "s = strategyRegistry c rt" "rds_strategy_ok pow s" and r: "processResources now s params p w = (r, reps, w')"
    and d: "\<forall>ids. Discover s (rd_Selector params) w = Inr ids \<longrightarrow> distinct ids"
  shows "down_step pow rds_on rds_off rds_codes (rtKeys rt) w reps w'"
proof (cases "Discover s (rd_Selector params) w")
  case (Inl e)
  then show ?thesis using r by (simp add: processResources_def down_step_def)
next
  case (Inr ids)
  then have "distinct (map (GetResourceKey rt) ids)" using d by (simp add: distinct_map inj_on_def)
  from forEach_down [OF stopStep_down [OF s] this] r Inr
  have "down_step pow rds_on rds_off rds_codes (GetResourceKey rt ` set ids) w reps w'"
    by (auto simp: processResources_def)
  then show ?thesis by (rule down_step_mono) (auto simp: rtKeys_def)
qed

lemma forEach_keeps:
  assumes "\<And>x s w s' reps w'. x \<in> set xs \<Longrightarrow> f x s w = (Inr s', reps, w') \<Longrightarrow> I s \<Longrightarrow> I s'" "I s"
    and "forEach f xs s w = (Inr s', reps, w')"
  shows "I s'"
  using assms
proof (induction xs arbitrary: s w reps)
  case (Cons x xs)
  obtain r1 reps1 w1 where f: "f x s w = (r1, reps1, w1)" by (cases "f x s w") auto
  with Cons.prems(3) obtain s1 reps2 where "r1 = Inr s1" "forEach f xs s1 w1 = (Inr s', reps2, w')"
    by (cases r1) (auto split: prod.splits)
  moreover from this f have "I s1" using Cons.prems(1) [of x s w s1 reps1 w1] Cons.prems(2) by simp
  ultimately show ?case using Cons.IH Cons.prems(1) by (meson list.set_intros(2))
qed simp

lemma processResources_settled:
  assumes "rds_strategy_ok pow s" "processResources now s params p w = (Inr p', reps, w')" "pendingList (snd p) = []"
  shows "pendingList (snd p') = []"
proof -
  obtain ids where "forEach (stopStep now s params) ids ((fst p)\<lparr>processed := processed (fst p) + length ids\<rparr>, snd p) w = (Inr p', reps, w')"
    using assms(2) by (auto simp: processResources_def split: sum.splits)
  moreover have "pendingList (snd q') = []" if "stopStep now s params i q w = (Inr q', reps, w')" "pendingList (snd q) = []"
    for i q w q' reps w'
    using that Stop_not_pending [OF assms(1), of now params "SnapshotBeforeStop params" i w]
    by (auto simp: stopStep_def track_def split: prod.splits sum.splits operationOutcome.splits)
  ultimately show ?thesis
    by (rule forEach_keeps [where I = "\<lambda>q. pendingList (snd q) = []", rotated 2]) (use assms(3) in auto)
qed

definition strategiesOf :: "'w RDSClient \<Rightarrow> RDSParameters \<Rightarrow> ResourceType list" where
  "strategiesOf c params = (if fst (determineResourceTypes params) then [ResourceTypeInstance] else []) @
     (if snd (determineResourceTypes params) then [ResourceTypeCluster] else [])"

text \<open>The resources that the parameters name.\<close>

definition rds_targets :: "'w RdsEnv \<Rightarrow> 'w \<Rightarrow> string set" where
  "rds_targets e w =
     {k. \<exists>p cfg rt ids i. parseParams (rd_libs e) (sp_Parameters (rd_spec e)) = Inr p \<and>
        loadAWSConfig (rd_loadDefault e) (rd_spec e) = Inr cfg \<and>
        rt \<in> set (strategiesOf (rdsFactory e cfg) p) \<and>
        rs_ids (strategyRegistry (rdsFactory e cfg) rt) (rd_Selector p) = ids \<and> i \<in> set ids \<and> k = GetResourceKey rt i}"

lemma forEach_map: "forEach f (map g xs) s w = forEach (\<lambda>x. f (g x)) xs s w"
  by (induction xs arbitrary: s w) (auto split: prod.splits sum.splits)

lemma Shutdown_loop:
  assumes "rds_ok pow e" "Shutdown e w = (r, reps, w')"
  obtains "reps = []" "w' = w" "\<forall>m. r \<noteq> Inr m"
  | p cfg q where "parseParams (rd_libs e) (sp_Parameters (rd_spec e)) = Inr p" "loadAWSConfig (rd_loadDefault e) (rd_spec e) = Inr cfg"
      "forEach (\<lambda>rt. processResources (rd_now e) (strategyRegistry (rdsFactory e cfg) rt) p) (strategiesOf (rdsFactory e cfg) p)
         (newStats 0, \<lparr>waitingList = [], pendingList = []\<rparr>) w = (q, reps, w')"
      "(\<exists>m. r = Inr m) \<longleftrightarrow> (\<exists>x. q = Inr x)"
proof (cases "\<exists>p cfg. parseParams (rd_libs e) (sp_Parameters (rd_spec e)) = Inr p \<and> loadAWSConfig (rd_loadDefault e) (rd_spec e) = Inr cfg")
  case True
  then obtain p cfg where h: "parseParams (rd_libs e) (sp_Parameters (rd_spec e)) = Inr p"
    "loadAWSConfig (rd_loadDefault e) (rd_spec e) = Inr cfg" by blast
  let ?c = "rdsFactory e cfg"
  let ?f = "\<lambda>rt. processResources (rd_now e) (strategyRegistry ?c rt) p"
  let ?s0 = "(newStats 0, \<lparr>waitingList = [], pendingList = []\<rparr>)"
  have maps: "(if fst (determineResourceTypes p) then [instanceStrategy ?c] else []) @
      (if snd (determineResourceTypes p) then [clusterStrategy ?c] else []) = map (strategyRegistry ?c) (strategiesOf ?c p)"
    by (simp add: strategiesOf_def strategyRegistry_def)
  obtain q reps1 w1 where fe: "forEach ?f (strategiesOf ?c p) ?s0 w = (q, reps1, w1)"
    by (cases "forEach ?f (strategiesOf ?c p) ?s0 w") auto
  have ok: "rds_strategy_ok pow (strategyRegistry ?c rt)" for rt using assms(1) h by (auto simp: rds_ok_def)
  have pend: "pendingList (snd x) = []" if "q = Inr x" for x
    using fe [unfolded that]
    by (rule forEach_keeps [where I = "\<lambda>q. pendingList (snd q) = []", rotated 2]) (auto intro: processResources_settled [OF ok])
  have sched: "rd_sched e [] = []" using assms(1) by (simp add: rds_ok_def)
  have "reps = reps1 \<and> w' = w1 \<and> ((\<exists>m. r = Inr m) \<longleftrightarrow> (\<exists>x. q = Inr x))"
  proof (cases q)
    case (Inl er)
    then show ?thesis using assms(2) h fe maps by (auto simp: Shutdown_def Let_def forEach_map)
  next
    case (Inr x)
    then show ?thesis
      using assms(2) h fe maps pend [OF Inr] sched
      by (auto simp: Shutdown_def Let_def forEach_map handleShutdownAwaitCompletion_def split: if_splits prod.splits)
  qed
  then show thesis using that(2) [OF h, of q] fe by simp
next
  case False
  then show thesis using that(1) assms(2) by (auto simp: Shutdown_def split: sum.splits)
qed

lemma rds_Shutdown_down:
  assumes "rds_ok pow e" "Shutdown e w = (r, reps, w')"
  shows "\<exists>K. down_step pow rds_on rds_off rds_codes K w reps w'"
  using assms
proof (cases rule: Shutdown_loop)
  case 1
  then show ?thesis using down_step_refl [of pow] by metis
next
  case (2 p cfg q)
  have step: "down_step pow rds_on rds_off rds_codes (rtKeys rt) w reps w'"
    if "processResources (rd_now e) (strategyRegistry (rdsFactory e cfg) rt) p s w = (r, reps, w')" for rt s w r reps w'
    using assms(1) 2(1,2) by (intro processResources_down [OF refl _ that]) (auto simp: rds_ok_def)
  have "sorted_wrt (\<lambda>x y. rtKeys x \<inter> rtKeys y = {}) (strategiesOf (rdsFactory e cfg) p)"
    by (auto simp: strategiesOf_def rtKeys_def)
  from forEach_down_sets [OF _ this 2(3), of pow rds_on rds_off rds_codes] step show ?thesis by blast
qed

lemma rds_off_off: "\<not> rds_on (rds_off x)"
  by (cases x) (simp_all add: rds_on_def rds_off_def)

lemma stopStep_stops:
  assumes "s = strategyRegistry c rt" "rds_strategy_ok pow s" "stopStep now s params i p w = (Inr q, reps, w')"
  shows "\<not> rds_on (pow w' (GetResourceKey rt i))"
proof -
  obtain x where "Stop now s params (SnapshotBeforeStop params) i w = (Inr x, reps, w')"
    using assms(3) by (auto simp: stopStep_def split: prod.splits sum.splits)
  from Stop_effect [OF assms(1,2) this] show ?thesis by (auto simp: rds_on_def)
qed

lemma processResources_stops:
  assumes s: "s = strategyRegistry c rt" "rds_strategy_ok pow s" and r: "processResources now s params p w = (Inr q, reps, w')"
    and i: "i \<in> set (rs_ids s (rd_Selector params))"
  shows "\<not> rds_on (pow w' (GetResourceKey rt i))"
proof -
  obtain p' where "forEach (stopStep now s params) (rs_ids s (rd_Selector params)) p' w = (Inr q, reps, w')"
    using r i by (auto simp: processResources_def Discover_def split: if_splits)
  then have "\<forall>i \<in> set (rs_ids s (rd_Selector params)). \<not> rds_on (pow w' (GetResourceKey rt i))"
  proof (rule forEach_all [rotated 2])
    show "\<not> rds_on (pow w' (GetResourceKey rt i))" if "stopStep now s params j p w = (r, reps, w')" "\<not> rds_on (pow w (GetResourceKey rt i))"
      for i j p w r reps w'
      using stopStep_down [OF s that(1)] that(2) rds_off_off unfolding down_step_def by metis
  qed (rule stopStep_stops [OF s])
  with i show ?thesis by blast
qed

lemma rds_Shutdown_stops:
  assumes "rds_ok pow e" "Shutdown e w = (Inr msg, reps, w')" "k \<in> rds_targets e w"
  shows "\<not> rds_on (pow w' k)"
  using assms(1,2)
proof (cases rule: Shutdown_loop)
  case (2 p cfg q)
  let ?c = "rdsFactory e cfg"
  obtain x where q: "q = Inr x" using 2(4) by auto
  obtain rt i where k: "k = GetResourceKey rt i" "i \<in> set (rs_ids (strategyRegistry ?c rt) (rd_Selector p))"
      "rt \<in> set (strategiesOf ?c p)"
    using assms(3) 2(1,2) by (auto simp: rds_targets_def)
  have ok: "rds_strategy_ok pow (strategyRegistry ?c rt)" and d: "Discover (strategyRegistry ?c rt) (rd_Selector p) w = Inr ids \<longrightarrow> distinct ids" for rt w ids
    using assms(1) 2(1,2) by (auto simp: rds_ok_def)
  let ?Q = "\<lambda>rt w. \<forall>i \<in> set (rs_ids (strategyRegistry ?c rt) (rd_Selector p)). \<not> rds_on (pow w (GetResourceKey rt i))"
  have "\<forall>rt \<in> set (strategiesOf ?c p). ?Q rt w'"
  proof (rule forEach_all [OF _ _ 2(3) [unfolded q]])
    show "?Q rt w'" if "processResources (rd_now e) (strategyRegistry ?c rt) p s w = (Inr s', reps, w')" for rt s w s' reps w'
      using processResources_stops [OF refl ok that] by blast
    show "?Q rt w'" if "processResources (rd_now e) (strategyRegistry ?c rt') p s w = (r, reps, w')" "?Q rt w" for rt rt' s w r reps w'
      using processResources_down [OF refl ok that(1)] d that(2) rds_off_off unfolding down_step_def by metis
  qed
  with k show ?thesis by blast
qed simp

lemma Start_effect:
  assumes s: "s = strategyRegistry c rt" "rds_strategy_ok pow s" and r: "Start s params i w = (r, w')"
  shows "(pow w' = pow w \<or> pow w' = (pow w)(GetResourceKey rt i \<mapsto> True)) \<and>
    ((\<exists>x. r = Inr x) \<longrightarrow> pow w (GetResourceKey rt i) \<noteq> None \<longrightarrow> pow w' (GetResourceKey rt i) = Some True)"
proof -
  have rt: "rs_type s = rt" using s(1) by simp
  have sw: "rds_switch_ok pow rt True (rs_start s)" using s(2) rt by (simp add: rds_strategy_ok_def)
  note d = rds_describe [OF s(2), where i = i and w = w, unfolded rt]
  obtain r1 w1 where st: "rs_start s i w = (r1, w1)" by fastforce
  note sw' = rds_switch [OF sw st]
  show ?thesis
    using d r st sw' by (cases r1) (auto simp: Start_def split: sum.splits list.splits if_splits)
qed

lemma restoreResource_up:
  assumes c: "\<forall>rt. rds_strategy_ok pow (strategyRegistry c rt)" and r: "restoreResource c params (k, v) p w = (r, w')"
    and v: "rds_codes k (f k) v" and w: "pow w k = f k \<or> rds_on (f k) \<and> pow w k = rds_off (f k)"
  shows "up_step pow f {k} w (\<exists>x. r = Inr x) w'"
proof -
  obtain b rt i where k: "k = GetResourceKey rt i" "f k = Some b" using v by (auto simp: rds_codes_def)
  obtain state where st: "rs_parse (strategyRegistry c rt) v = Inr state" "ds_WasRunning state = b"
    using parse_codes [of rt i "f k" v c] v k by auto
  show ?thesis
  proof (cases b)
    case False
    then have "w' = w" "pow w k = f k" using r w k st by (auto simp: restoreResource_def rds_on_def)
    then show ?thesis by (simp add: up_step_def)
  next
    case True
    obtain r1 where "Start (strategyRegistry c rt) params i w = (r1, w')" "(\<exists>x. r = Inr x) \<longleftrightarrow> (\<exists>x. r1 = Inr x)"
      using r k(1) st True by (auto simp: restoreResource_def Let_def split: prod.splits sum.splits)
    moreover have "pow w k \<noteq> None" using w k True by (auto simp: rds_off_def)
    ultimately show ?thesis
      using Start_effect [OF refl c [THEN spec, of rt], of params i w r1 w'] k True by (auto simp: up_step_def split: if_splits)
  qed
qed

lemma restoreResource_settled:
  assumes "\<forall>rt. rds_strategy_ok pow (strategyRegistry c rt)" "restoreResource c params x p w = (Inr q, w')" "pendingList (snd p) = []"
  shows "pendingList (snd q) = []"
proof (cases x)
  case (Pair k v)
  have np: "fst (Start (strategyRegistry c rt) params i w) \<noteq> Inr OutcomePending" for rt i
    by (rule Start_not_pending [OF assms(1) [THEN spec]])
  show ?thesis
  proof (cases "splitKey k")
    case None
    then show ?thesis using assms(2,3) Pair by (auto simp: restoreResource_def)
  next
    case (Some y)
    obtain rt i where y: "y = (rt, i)" by (cases y)
    show ?thesis
      using assms(2,3) Pair Some y np [of rt i]
      by (auto simp: restoreResource_def Let_def track_def split: sum.splits prod.splits if_splits operationOutcome.splits)
  qed
qed

lemma forRestore_keeps:
  assumes "\<And>x s w s' w'. x \<in> set xs \<Longrightarrow> f x s w = (Inr s', w') \<Longrightarrow> I s \<Longrightarrow> I s'" "I s" "forRestore f xs s w = (Inr s', w')"
  shows "I s'"
  using assms
proof (induction xs arbitrary: s w)
  case (Cons x xs)
  obtain r1 w1 where f: "f x s w = (r1, w1)" by (cases "f x s w")
  with Cons.prems(3) obtain s1 where "r1 = Inr s1" "forRestore f xs s1 w1 = (Inr s', w')" by (cases r1) auto
  moreover from this f have "I s1" using Cons.prems(1) [of x s w s1 w1] Cons.prems(2) by simp
  ultimately show ?case using Cons.IH Cons.prems(1) by (meson list.set_intros(2))
qed simp

text \<open>On settled resources a wake-up is its loop.\<close>

lemma WakeUp_loop:
  assumes ok: "rds_ok pow e" and p: "parseParams (rd_libs e) (sp_Parameters (rd_spec e)) = Inr p"
    and cfg: "loadAWSConfig (rd_loadDefault e) (rd_spec e) = Inr cfg" and D: "xr_Data rd \<noteq> []"
    and fr: "forRestore (restoreResource (rdsFactory e cfg) p) (xr_Data rd)
      (newStats (length (xr_Data rd)), \<lparr>waitingList = [], pendingList = []\<rparr>) w = (q, w')"
  shows "snd (WakeUp e rd w) = w' \<and> ((\<exists>m. fst (WakeUp e rd w) = Inr m) \<longleftrightarrow> (\<exists>x. q = Inr x))"
proof (cases q)
  case (Inl er)
  then show ?thesis using p cfg D fr by (simp add: WakeUp_def Let_def)
next
  case (Inr x)
  have c: "\<forall>rt. rds_strategy_ok pow (strategyRegistry (rdsFactory e cfg) rt)" using ok p cfg by (auto simp: rds_ok_def)
  have "pendingList (snd x) = []"
    using fr [unfolded Inr]
    by (rule forRestore_keeps [where I = "\<lambda>q. pendingList (snd q) = []", rotated 2]) (auto intro: restoreResource_settled [OF c])
  moreover have "rd_sched e [] = []" using ok by (simp add: rds_ok_def)
  ultimately show ?thesis
    using p cfg D fr Inr by (cases x) (simp add: WakeUp_def Let_def handleWakeupAwaitCompletion_def)
qed

lemma rds_WakeUp_up:
  assumes ok: "rds_ok pow e" and wk: "WakeUp e rd w = (r, w')"
    and D: "\<forall>(k, v) \<in> set (xr_Data rd). rds_codes k (f k) v"
    and w: "\<forall>k. pow w k = f k \<or> rds_on (f k) \<and> pow w k = rds_off (f k)"
  shows "up_step pow f (fst ` set (xr_Data rd)) w (\<exists>m. r = Inr m) w'"
proof (cases "xr_Data rd \<noteq> [] \<and> (\<exists>p cfg. parseParams (rd_libs e) (sp_Parameters (rd_spec e)) = Inr p \<and>
    loadAWSConfig (rd_loadDefault e) (rd_spec e) = Inr cfg)")
  case True
  then obtain p cfg where h: "xr_Data rd \<noteq> []" "parseParams (rd_libs e) (sp_Parameters (rd_spec e)) = Inr p"
      "loadAWSConfig (rd_loadDefault e) (rd_spec e) = Inr cfg" by blast
  let ?f = "restoreResource (rdsFactory e cfg) p" and ?I = "\<lambda>w. \<forall>k. pow w k = f k \<or> rds_on (f k) \<and> pow w k = rds_off (f k)"
  have c: "\<forall>rt. rds_strategy_ok pow (strategyRegistry (rdsFactory e cfg) rt)" using ok h by (auto simp: rds_ok_def)
  have step: "up_step pow f {fst x} w (\<exists>s'. r = Inr s') w' \<and> ?I w'"
    if x: "x \<in> set (xr_Data rd)" and fx: "?f x s w = (r, w')" and I: "?I w" for x s w r w'
  proof -
    have "rds_codes (fst x) (f (fst x)) (snd x)" using D x by (auto simp: split_beta)
    with restoreResource_up [OF c, of p "fst x" "snd x" s w r w' f] fx I
    have u: "up_step pow f {fst x} w (\<exists>s'. r = Inr s') w'" by simp
    with I show ?thesis unfolding up_step_def by metis
  qed
  obtain q w1 where fr: "forRestore ?f (xr_Data rd) (newStats (length (xr_Data rd)), \<lparr>waitingList = [], pendingList = []\<rparr>) w = (q, w1)"
    by fastforce
  from WakeUp_loop [OF ok h(2,3,1) fr] wk have "w1 = w'" "(\<exists>m. r = Inr m) \<longleftrightarrow> (\<exists>x. q = Inr x)" by auto
  with forRestore_up [where I = ?I and key = fst, OF step fr w] show ?thesis by simp
next
  case False
  then have "w' = w" "xr_Data rd = [] \<or> (\<forall>m. r \<noteq> Inr m)"
    using wk by (auto simp: WakeUp_def split: sum.splits if_splits)
  then show ?thesis by (auto simp: up_step_def)
qed

section \<open>The executor contract\<close>

text \<open>A client that answers for every resource that exists.\<close>

definition rds_good :: "('w \<Rightarrow> string \<Rightarrow> bool option) \<Rightarrow> 'w RdsEnv \<Rightarrow> bool" where
  "rds_good pow e \<longleftrightarrow>
     (\<exists>p cfg. parseParams (rd_libs e) (sp_Parameters (rd_spec e)) = Inr p \<and>
        loadAWSConfig (rd_loadDefault e) (rd_spec e) = Inr cfg \<and>
        (\<forall>rt i w. pow w (GetResourceKey rt i) \<noteq> None \<longrightarrow>
           (\<exists>r rs. rs_describe (strategyRegistry (rdsFactory e cfg) rt) (Some i) w = Inr (r # rs)) \<and>
           fst (rs_start (strategyRegistry (rdsFactory e cfg) rt) i w) = None))"

lemma restoreResource_succeeds:
  assumes "\<forall>rt i w. pow w (GetResourceKey rt i) \<noteq> None \<longrightarrow>
      (\<exists>r rs. rs_describe (strategyRegistry c rt) (Some i) w = Inr (r # rs)) \<and> fst (rs_start (strategyRegistry c rt) i w) = None"
    and "rds_codes k x v" "pow w k = x \<or> rds_on x \<and> pow w k = rds_off x"
  shows "\<exists>q w'. restoreResource c params (k, v) p w = (Inr q, w')"
proof -
  obtain b rt i where k: "k = GetResourceKey rt i" "x = Some b" using assms(2) by (auto simp: rds_codes_def)
  obtain state where st: "rs_parse (strategyRegistry c rt) v = Inr state" using parse_codes [of rt i x v c] assms(2) k by auto
  have "pow w k \<noteq> None" using assms(3) k by (auto simp: rds_off_def)
  with assms(1) k(1) obtain r rs w1 where "rs_describe (strategyRegistry c rt) (Some i) w = Inr (r # rs)"
      "rs_start (strategyRegistry c rt) i w = (None, w1)" by (metis prod.collapse)
  then have "\<exists>y w2. Start (strategyRegistry c rt) params i w = (Inr y, w2)" by (simp add: Start_def)
  then obtain y w2 where "Start (strategyRegistry c rt) params i w = (Inr y, w2)" by blast
  then show ?thesis using k(1) st by (simp add: restoreResource_def Let_def)
qed

interpretation rds: reliable_executor "rds_ok pow" Shutdown WakeUp pow rds_on rds_off rds_codes rds_targets "rds_good pow" "\<lambda>_. True"
  for pow :: "'w \<Rightarrow> string \<Rightarrow> bool option"
proof unfold_locales
  show "\<not> rds_on (rds_off x)" for x by (rule rds_off_off)
  show "\<not> rds_on x \<Longrightarrow> rds_codes k x v \<Longrightarrow> \<not> demanded v" for x k v using demanded_codes by blast
next
  fix e f and rd :: ExecRestoreData and w :: 'w
  let ?I = "\<lambda>w. \<forall>k. pow w k = f k \<or> rds_on (f k) \<and> pow w k = rds_off (f k)"
  assume h: "rds_ok pow e" "rds_good pow e" "\<forall>(k, v) \<in> set (xr_Data rd). rds_codes k (f k) v" "?I w"
  from h(2) obtain p cfg where g: "parseParams (rd_libs e) (sp_Parameters (rd_spec e)) = Inr p"
      "loadAWSConfig (rd_loadDefault e) (rd_spec e) = Inr cfg"
      "\<forall>rt i w. pow w (GetResourceKey rt i) \<noteq> None \<longrightarrow>
         (\<exists>r rs. rs_describe (strategyRegistry (rdsFactory e cfg) rt) (Some i) w = Inr (r # rs)) \<and>
         fst (rs_start (strategyRegistry (rdsFactory e cfg) rt) i w) = None"
    unfolding rds_good_def by blast
  have c: "\<forall>rt. rds_strategy_ok pow (strategyRegistry (rdsFactory e cfg) rt)" using h(1) g by (auto simp: rds_ok_def)
  have step: "\<exists>s' w'. restoreResource (rdsFactory e cfg) p x s w = (Inr s', w') \<and> ?I w'"
    if x: "x \<in> set (xr_Data rd)" and I: "?I w" for x s w
  proof -
    have v: "rds_codes (fst x) (f (fst x)) (snd x)" using h(3) x by (auto simp: split_beta)
    obtain s' w' where r: "restoreResource (rdsFactory e cfg) p (fst x, snd x) s w = (Inr s', w')"
      using restoreResource_succeeds [OF g(3) v] I by blast
    from restoreResource_up [OF c r, of f] v I have "?I w'" unfolding up_step_def by metis
    with r show ?thesis by simp
  qed
  show "\<exists>msg w'. WakeUp e rd w = (Inr msg, w')"
  proof (cases "xr_Data rd = []")
    case False
    obtain s' w' where "forRestore (restoreResource (rdsFactory e cfg) p) (xr_Data rd)
        (newStats (length (xr_Data rd)), \<lparr>waitingList = [], pendingList = []\<rparr>) w = (Inr s', w')"
      using forRestore_succeeds [where I = ?I and f = "restoreResource (rdsFactory e cfg) p", OF step h(4)] by blast
    from WakeUp_loop [OF h(1) g(1,2) False this] show ?thesis by (metis prod.collapse)
  qed (simp add: WakeUp_def)
qed (rule rds_Shutdown_down rds_Shutdown_stops rds_WakeUp_up; assumption)+

text \<open>
  A hibernation cycle of an RDS target on settled resources: if every description finds its resource
  available or stopped, then through failed attempts that lose no restore data, and with or without snapshots, the first wake-up that
  succeeds leaves every DB instance and DB cluster available or stopped as it was before the cycle, and
  a wake-up whose calls are answered does succeed.  Resources in transition are outside these laws (see the end of the theory).
\<close>

lemma rds_cycle_roundtrip:
  assumes "rc_Operation cfg = ''shutdown''" "ss \<noteq> []"
    and "\<forall>a \<in> set ss. rds_ok pow (at_cfg a) \<and> (\<forall>i. proper_time (at_clock a i))" "saves_all cfg Shutdown WakeUp ss (w, st)"
    and "\<forall>a \<in> set (ws @ [a]). rds_ok pow (at_cfg a)" "new_cycle cfg st"
    and "s = attempts (wakeupOf cfg) Shutdown WakeUp ws (attempts cfg Shutdown WakeUp ss (w, st))"
  shows "(\<forall>msg w' st'. attemptOp (wakeupOf cfg) Shutdown WakeUp a s = (Inr msg, w', st') \<longrightarrow> pow w' = pow w) \<and>
    (rds_good pow (at_cfg a) \<and> get_err (at_api a) = None \<longrightarrow>
       (\<exists>msg w' st'. attemptOp (wakeupOf cfg) Shutdown WakeUp a s = (Inr msg, w', st')))"
  using rds.cycle_completes [OF assms] by simp

text \<open>A database and a cluster, the cluster stopped before the cycle.\<close>

definition demoSwitch :: "bool \<Rightarrow> ResourceType \<Rightarrow> bool \<Rightarrow> string \<Rightarrow> (string \<Rightarrow> bool option) \<Rightarrow> go_error option \<times> (string \<Rightarrow> bool option)" where
  "demoSwitch broken rt b i w =
     (if broken then (Some (ApiError (ApiFailure ''throttled'')), w)
      else if w (GetResourceKey rt i) = None then (Some (ApiError NotFound), w)
      else (None, w(GetResourceKey rt i \<mapsto> b)))"

definition demoDescribe :: "ResourceType \<Rightarrow> string option \<Rightarrow> (string \<Rightarrow> bool option) \<Rightarrow> (DBResource list) res" where
  "demoDescribe rt q w =
     (case q of
        None \<Rightarrow> Inr []
      | Some i \<Rightarrow> (case w (GetResourceKey rt i) of
                    None \<Rightarrow> Inl (ApiError NotFound)
                  | Some b \<Rightarrow> Inr [\<lparr>db_Id = i, db_Arn = i, db_Class = ''db.t3'', db_Status = (if b then ''available'' else ''stopped'')\<rparr>]))"

definition demoClient :: "bool \<Rightarrow> (string \<Rightarrow> bool option) RDSClient" where
  "demoClient broken =
     \<lparr>DescribeDBInstances = demoDescribe ResourceTypeInstance, DescribeDBClusters = demoDescribe ResourceTypeCluster,
      ListTagsForResource = (\<lambda>_ _. Inr []), CreateDBSnapshot = (\<lambda>_ _ w. (None, w)), CreateDBClusterSnapshot = (\<lambda>_ _ w. (None, w)),
      DBSnapshotAvailable = (\<lambda>_ _. None), DBClusterSnapshotAvailable = (\<lambda>_ _. None),
      StopDBInstance = demoSwitch broken ResourceTypeInstance False, StartDBInstance = demoSwitch broken ResourceTypeInstance True,
      StopDBCluster = demoSwitch broken ResourceTypeCluster False, StartDBCluster = demoSwitch broken ResourceTypeCluster True\<rparr>"

definition demoEnv :: "bool \<Rightarrow> (string \<Rightarrow> bool option) RdsEnv" where
  "demoEnv broken =
     \<lparr>rd_libs = demoLibs\<lparr>decodeRDS := (\<lambda>_. Inr (zeroRDSParameters\<lparr>SnapshotBeforeStop := True, rd_Selector :=
         (rd_Selector zeroRDSParameters)\<lparr>InstanceIds := [''db''], ClusterIds := [''cl'']\<rparr>\<rparr>))\<rparr>,
      rd_spec = demoSpec, rd_loadDefault = (\<lambda>_ _. Inr ''eu-1''), rdsFactory = (\<lambda>_. demoClient broken), rd_now = demoTime,
      rd_sched = (\<lambda>x. x), availableWait = (\<lambda>_ _. \<lparr>seen = [], deadline = True\<rparr>), stoppedWait = (\<lambda>_ _. \<lparr>seen = [], deadline = True\<rparr>)\<rparr>"

definition demoWorld :: "string \<Rightarrow> bool option" where
  "demoWorld = [''instance:db'' \<mapsto> True, ''cluster:cl'' \<mapsto> False]"

lemma demo_describe_ok: "rds_describe_ok (\<lambda>w. w) s" if "rs_describe s = demoDescribe (rs_type s)" for s
  using that by (auto simp: rds_describe_ok_def demoDescribe_def split: option.splits)

lemma demo_switch_ok: "rds_switch_ok (\<lambda>w. w) rt b (demoSwitch broken rt b)"
  by (auto simp: rds_switch_ok_def demoSwitch_def)

lemma demo_strategy_ok: "rds_strategy_ok (\<lambda>w. w) (strategyRegistry (demoClient broken) rt)"
  by (cases rt) (auto simp: rds_strategy_ok_def strategyRegistry_def instanceStrategy_def clusterStrategy_def demoClient_def
      demo_switch_ok intro!: demo_describe_ok)

lemma rds_demo_ok: "rds_ok (\<lambda>w. w) (demoEnv broken)"
proof -
  have "distinct ids" if "Discover (strategyRegistry (demoClient broken) rt) ((rd_Selector zeroRDSParameters)\<lparr>InstanceIds := [''db''], ClusterIds := [''cl'']\<rparr>) w = Inr ids" for rt w ids
    using that by (cases rt) (auto simp: Discover_def strategyRegistry_def instanceStrategy_def clusterStrategy_def)
  then show ?thesis by (auto simp: rds_ok_def demoEnv_def parseParams_def demoSpec_def demo_strategy_ok)
qed

lemma rds_demo_good: "rds_good (\<lambda>w. w) (demoEnv False)"
  by (auto simp: rds_good_def demoEnv_def parseParams_def demoSpec_def loadAWSConfig_def BuildAWSConfig_def strategyRegistry_def
      instanceStrategy_def clusterStrategy_def demoClient_def demoDescribe_def demoSwitch_def split: ResourceType.splits)

lemma rds_cycle_roundtrip_witness:
  "\<exists>msg w' st'. attemptOp (wakeupOf (demoJob ''rds'')) Shutdown WakeUp (demoAttempt (demoEnv False))
      (attempts (wakeupOf (demoJob ''rds'')) Shutdown WakeUp [demoAttempt (demoEnv True)]
        (attempts (demoJob ''rds'') Shutdown WakeUp [demoAttempt (demoEnv True), demoAttempt (demoEnv False)]
          (demoWorld, None))) = (Inr msg, w', st') \<and> w' = demoWorld"
proof -
  let ?ss = "[demoAttempt (demoEnv True), demoAttempt (demoEnv False)]" and ?ws = "[demoAttempt (demoEnv True)]"
  have ok: "\<forall>a \<in> set ?ss. rds_ok (\<lambda>w. w) (at_cfg a) \<and> cm_reliable (at_api a) \<and> (\<forall>i. proper_time (at_clock a i))"
    "\<forall>a \<in> set (?ws @ [demoAttempt (demoEnv False)]). rds_ok (\<lambda>w. w) (at_cfg a)"
    using rds_demo_ok by simp_all
  from ok(1) have ok1: "\<forall>a \<in> set ?ss. rds_ok (\<lambda>w. w) (at_cfg a) \<and> (\<forall>i. proper_time (at_clock a i))" by blast
  note t = rds_cycle_roundtrip [OF demo_sel(1) _ ok1 rds.reliable_cycle_saves [OF demo_sel(1,2) ok(1)] ok(2) demo_sel(2) refl, of "''rds''" "demoWorld"]
  have "?ss \<noteq> []" by simp
  from t [OF this, unfolded demo_sel] rds_demo_good show ?thesis by (metis (no_types, lifting))
qed

section \<open>Resources that are not settled\<close>

text \<open>
  A wake-up that meets a resource in transition (one that is still stopping, for instance) and does
  not await completion skips it and succeeds: the resource stays down, and the cycle counts as restored.
\<close>

lemma rds_wakeup_skips_transition:
  assumes "parseParams (rd_libs e) (sp_Parameters (rd_spec e)) = Inr p" "loadAWSConfig (rd_loadDefault e) (rd_spec e) = Inr cfg"
    and "\<not> Enabled (rd_AwaitCompletion p)" "rds_codes (GetResourceKey rt i) (Some True) v"
    and "rs_describe (strategyRegistry (rdsFactory e cfg) rt) (Some i) w = Inr [r]" "db_Status r \<notin> {''available'', ''stopped''}"
    and "xr_Data rd = [(GetResourceKey rt i, v)]"
  shows "\<exists>msg. WakeUp e rd w = (Inr msg, w)"
proof -
  obtain st where "rs_parse (strategyRegistry (rdsFactory e cfg) rt) v = Inr st" "ds_WasRunning st"
    using parse_codes [OF assms(4)] by fastforce
  then have "\<exists>q. restoreResource (rdsFactory e cfg) p (GetResourceKey rt i, v) s w = (Inr q, w)" for s
    using assms(3,5,6) by (simp add: restoreResource_def Let_def Start_def)
  then obtain q where "restoreResource (rdsFactory e cfg) p (GetResourceKey rt i, v)
      (newStats (length (xr_Data rd)), \<lparr>waitingList = [], pendingList = []\<rparr>) w = (Inr q, w)" by blast
  then show ?thesis using assms(1-3,7) by (simp add: WakeUp_def Let_def)
qed

text \<open>
  An empty tag selector counts as absent in the validation, but selects every resource, whatever
  tags or excluded tags are given with it.
\<close>

lemma rds_empty_tagSelector_selects_all:
  assumes "rd_TagSelector sel = Some \<lparr>MatchTags = [], MatchExpressions = []\<rparr>"
  shows "selected sel tags" "\<not> hasTagSelector (rd_TagSelector sel)"
  using assms by (simp_all add: selected_def effectiveSelector_def Match_def hasTagSelector_def)

end
