(* ===== verification/WorkloadScaler.thy ===== *)
theory WorkloadScaler
  imports ExecBase "HOL-Library.Word"
begin

text \<open>
  The workload scaler (\<^verbatim>\<open>internal/executor/workloadscaler\<close>): a shutdown sets the replicas of
  workloads to zero through their scale subresource and reports the counts, a wake-up writes them back.
  Of a scale object the model keeps what the field accessors of the Kubernetes libraries return.
\<close>

record GroupVersionResource =
  gv_Group :: string
  gv_Version :: string
  gv_Resource :: string

record Workload =
  wl_Namespace :: string
  wl_Kind :: string
  wl_Name :: string

text \<open>
  A scale object: \<open>NestedInt64\<close> at \<open>spec.replicas\<close> (\<open>Inr None\<close> when the field is absent) and at
  \<open>status.replicas\<close>, and the error of \<open>SetNestedField\<close> at \<open>spec.replicas\<close>.
\<close>

record Scale =
  specReplicas :: "(int option) res"
  statusReplicas :: "(int option) res"
  setReplicas :: "go_error option"

record 'w ScalerClient =
  ListNamespaces :: "string \<Rightarrow> 'w \<Rightarrow> (string list) res"
  ListWorkloads :: "GroupVersionResource \<Rightarrow> string \<Rightarrow> string \<Rightarrow> 'w \<Rightarrow> (Workload list) res"
  GetScale :: "GroupVersionResource \<Rightarrow> string \<Rightarrow> string \<Rightarrow> 'w \<Rightarrow> Scale res"
  UpdateScale :: "GroupVersionResource \<Rightarrow> string \<Rightarrow> string \<Rightarrow> int \<Rightarrow> 'w \<Rightarrow> go_error option \<times> 'w"

section \<open>Stored state\<close>

record WorkloadState =
  wo_Group :: string
  wo_Version :: string
  wo_Resource :: string
  wo_Kind :: string
  wo_Namespace :: string
  wo_Name :: string
  Replicas :: int
  WasScaled :: bool

definition GetGVR :: "WorkloadState \<Rightarrow> GroupVersionResource" where
  "GetGVR s = \<lparr>gv_Group = wo_Group s, gv_Version = wo_Version s, gv_Resource = wo_Resource s\<rparr>"

definition encodeWorkload :: "WorkloadState \<Rightarrow> json" where
  "encodeWorkload s = JObj [(''group'', JStr (wo_Group s)), (''kind'', JStr (wo_Kind s)), (''name'', JStr (wo_Name s)),
     (''namespace'', JStr (wo_Namespace s)), (''replicas'', jint (Replicas s)), (''resource'', JStr (wo_Resource s)),
     (''version'', JStr (wo_Version s)), (''wasScaled'', JBool (WasScaled s))]"

definition decodeWorkload :: "json \<Rightarrow> WorkloadState res" where
  "decodeWorkload v =
     (case jmembers v of
        Inl e \<Rightarrow> Inl e
      | Inr m \<Rightarrow>
          (case (decodeField jstr '''' ''group'' m, decodeField jstr '''' ''version'' m, decodeField jstr '''' ''resource'' m,
                 decodeField jstr '''' ''kind'' m, decodeField jstr '''' ''namespace'' m, decodeField jstr '''' ''name'' m,
                 decodeField jint32 0 ''replicas'' m, decodeField jbool False ''wasScaled'' m) of
             (Inr g, Inr ver, Inr res, Inr k, Inr ns, Inr n, Inr r, Inr b) \<Rightarrow>
               Inr \<lparr>wo_Group = g, wo_Version = ver, wo_Resource = res, wo_Kind = k, wo_Namespace = ns, wo_Name = n,
                    Replicas = r, WasScaled = b\<rparr>
           | _ \<Rightarrow> Inl (typeError ''WorkloadState'')))"

record 'w ScalerEnv =
  sc_libs :: ParamLibs
  sc_spec :: Spec
  clientFactory :: "Spec \<Rightarrow> ('w ScalerClient) res"
  setString :: "(string \<times> string) list \<Rightarrow> string"
  asSelector :: "LabelSelector option \<Rightarrow> string res"
  scaleRuns :: "WorkloadState \<Rightarrow> (Scale res) waitRun"

section \<open>Parameters and messages\<close>

definition zeroScalerParameters :: WorkloadScalerParameters where
  "zeroScalerParameters = \<lparr>IncludedGroups = [], ws_Namespace = \<lparr>Literals = [], ns_Selector = []\<rparr>, WorkloadSelector = None,
     ws_AwaitCompletion = \<lparr>Enabled = False, ac_Timeout = ''''\<rparr>\<rparr>"

definition parseParams :: "'w ScalerEnv \<Rightarrow> WorkloadScalerParameters res" where
  "parseParams e =
     (let raw = sp_Parameters (sc_spec e)
      in if raw = '''' then Inr zeroScalerParameters
         else (case decodeWorkloadScaler (sc_libs e) raw of Inl er \<Rightarrow> Inl (Wrap ''parse parameters: '' er) | Inr p \<Rightarrow> Inr p))"

definition Validate :: "'w ScalerEnv \<Rightarrow> go_error option" where
  "Validate e =
     (if sp_K8S (sc_spec e) = None then Some (ErrMsg ''K8S connector config is required'')
      else (case parseParams e of
              Inl er \<Rightarrow> Some er
            | Inr p \<Rightarrow>
                if Literals (ws_Namespace p) = [] \<and> ns_Selector (ws_Namespace p) = []
                then Some (ErrMsg ''namespace must specify either literals or selector'')
                else if Literals (ws_Namespace p) \<noteq> [] \<and> ns_Selector (ws_Namespace p) \<noteq> []
                then Some (ErrMsg ''namespace.literals and namespace.selector are mutually exclusive'')
                else None))"

definition formatShutdownMessage :: "operationStats \<Rightarrow> nat \<Rightarrow> string" where
  "formatShutdownMessage st namespaceCount =
     appendCountSegment (''scaled '' @ show_nat (applied st) @ '' workload(s) to zero across '' @ show_nat namespaceCount @ '' namespace(s)'')
       ''skipped'' (skippedStale st) ''stale workload''"

definition formatWakeUpMessage :: "operationStats \<Rightarrow> string" where
  "formatWakeUpMessage st = appendCountSegment (''restored '' @ show_nat (applied st) @ '' workload(s)'')
     ''skipped'' (skippedStale st) ''stale workload''"

definition DefaultWaitTimeout :: string where "DefaultWaitTimeout = ''5m''"

section \<open>Resource names\<close>

definition squoted :: string where "squoted = CHR 0x27 # ''group/version/resource'' @ [CHR 0x27]"

definition parseCRDFormat :: "string \<Rightarrow> GroupVersionResource res" where
  "parseCRDFormat spec =
     (case split_on CHR ''/'' spec of
        [grp, version, resource] \<Rightarrow>
          if grp = '''' \<or> version = '''' \<or> resource = ''''
          then Inl (ErrMsg (''CRD format '' @ squoted @ '' has empty parts: group='' @ quote grp @
                     '', version='' @ quote version @ '', resource='' @ quote resource))
          else Inr \<lparr>gv_Group = grp, gv_Version = version, gv_Resource = resource\<rparr>
      | _ \<Rightarrow> Inl (ErrMsg (''kind '' @ quote spec @ '' is not a supported common resource; use '' @ squoted @ '' format for custom CRDs'')))"

definition gvrMap :: "string \<rightharpoonup> GroupVersionResource" where
  "gvrMap = [''Deployment'' \<mapsto> \<lparr>gv_Group = ''apps'', gv_Version = ''v1'', gv_Resource = ''deployments''\<rparr>,
     ''StatefulSet'' \<mapsto> \<lparr>gv_Group = ''apps'', gv_Version = ''v1'', gv_Resource = ''statefulsets''\<rparr>,
     ''ReplicaSet'' \<mapsto> \<lparr>gv_Group = ''apps'', gv_Version = ''v1'', gv_Resource = ''replicasets''\<rparr>]"

definition resolveGVR :: "string \<Rightarrow> GroupVersionResource res" where
  "resolveGVR kind = (case gvrMap kind of Some gvr \<Rightarrow> Inr gvr | None \<Rightarrow> parseCRDFormat kind)"

section \<open>Waiting\<close>

definition waitForReplicasScaled :: "(Scale res) waitRun \<Rightarrow> WorkloadState \<Rightarrow> int \<Rightarrow> string \<Rightarrow> go_error option" where
  "waitForReplicasScaled r s desired timeout =
     (case waiterTimeout timeout of
        Inl e \<Rightarrow> Some (Wrap ''create waiter: '' e)
      | Inr d \<Rightarrow>
          map_option (Wrap (wo_Namespace s @ ''/'' @ wo_Name s @ '': ''))
            (Poll (gv_Resource (GetGVR s) @ ''/'' @ wo_Name s @ '' in namespace '' @ wo_Namespace s @ '' to scale to '' @
                   show_int desired @ '' replicas'') d
               (\<lambda>x. case x of
                  Inl e \<Rightarrow> Inl (Wrap ''get scale subresource: '' e)
                | Inr sc \<Rightarrow>
                    (case statusReplicas sc of
                       Inl e \<Rightarrow> Inl (Wrap ''get status.replicas: '' e)
                     | Inr None \<Rightarrow> Inr (False, ''status.replicas not available'')
                     | Inr (Some n) \<Rightarrow>
                         if n = desired
                         then Inr (True, ''current replicas='' @ show_int n @ '' has been met with desired replicas='' @ show_int desired)
                         else Inr (False, ''current replicas='' @ show_int n @ ''; desired replicas='' @ show_int desired @ '' (waiting)''))) r))"

text \<open>What an awaited completion adds to the message.\<close>

definition awaitMessage :: "AwaitCompletion \<Rightarrow> (WorkloadState \<Rightarrow> string \<Rightarrow> go_error option) \<Rightarrow> WorkloadState list \<Rightarrow> string \<Rightarrow> string" where
  "awaitMessage a wait waiting goal =
     (if Enabled a then
        (let timeout = (if ac_Timeout a = '''' then DefaultWaitTimeout else ac_Timeout a);
             late = length (filter (\<lambda>s. wait s timeout \<noteq> None) waiting)
         in if late > 0
            then ''; '' @ show_nat late @ '' of '' @ show_nat (length waiting) @ '' workload(s) not yet at '' @ goal @
                 '' replicas after '' @ timeout @ '' timeout''
            else ''; all workloads confirmed at '' @ goal @ '' replicas'')
      else '''')"

section \<open>The operations\<close>

definition discoverNamespaces :: "'w ScalerEnv \<Rightarrow> 'w ScalerClient \<Rightarrow> NamespaceSelector \<Rightarrow> 'w \<Rightarrow> (string list) res" where
  "discoverNamespaces e c sel w =
     (if Literals sel \<noteq> [] then Inr (Literals sel)
      else if ns_Selector sel \<noteq> [] then
        (case ListNamespaces c (setString e (ns_Selector sel)) w of
           Inl er \<Rightarrow> Inl (Wrap ''list namespaces: '' er) | Inr nss \<Rightarrow> Inr nss)
      else Inl (ErrMsg ''namespace selector must specify either literals or selector''))"

text \<open>Go's conversion \<open>int32(x)\<close> keeps the low 32 bits.\<close>

definition toInt32 :: "int \<Rightarrow> int" where "toInt32 i = sint (word_of_int i :: 32 word)"

type_synonym progress = "operationStats \<times> WorkloadState list"

definition stateOf :: "GroupVersionResource \<Rightarrow> Workload \<Rightarrow> int option \<Rightarrow> WorkloadState" where
  "stateOf gvr item replicas =
     \<lparr>wo_Group = gv_Group gvr, wo_Version = gv_Version gvr, wo_Resource = gv_Resource gvr, wo_Kind = wl_Kind item,
      wo_Namespace = wl_Namespace item, wo_Name = wl_Name item,
      Replicas = toInt32 (case replicas of None \<Rightarrow> 0 | Some r \<Rightarrow> r), WasScaled = (replicas \<noteq> None)\<rparr>"

definition workloadKey :: "Workload \<Rightarrow> string" where
  "workloadKey item = wl_Namespace item @ ''/'' @ wl_Kind item @ ''/'' @ wl_Name item"

definition skipStale :: "progress \<Rightarrow> progress" where
  "skipStale p = ((fst p)\<lparr>skippedStale := skippedStale (fst p) + 1\<rparr>, snd p)"

definition countApplied :: "WorkloadScalerParameters \<Rightarrow> WorkloadState \<Rightarrow> progress \<Rightarrow> progress" where
  "countApplied params s p = ((fst p)\<lparr>applied := applied (fst p) + 1\<rparr>,
     if Enabled (ws_AwaitCompletion params) then snd p @ [s] else snd p)"

text \<open>The loop body of \<open>scaleDownWorkloads\<close>.\<close>

definition scaleWorkload :: "'w ScalerClient \<Rightarrow> WorkloadScalerParameters \<Rightarrow> string \<Rightarrow> GroupVersionResource \<Rightarrow> Workload \<Rightarrow>
    progress \<Rightarrow> 'w \<Rightarrow> progress res \<times> (string \<times> json) list \<times> 'w" where
  "scaleWorkload c params ns gvr item p0 w =
     (let p = ((fst p0)\<lparr>processed := processed (fst p0) + 1\<rparr>, snd p0);
          ref = wl_Kind item @ ''/'' @ wl_Name item @ '': ''
      in case GetScale c gvr ns (wl_Name item) w of
           Inl e \<Rightarrow> (Inr (if is_not_found e then skipStale p else p), [], w)
         | Inr sc \<Rightarrow>
             (case specReplicas sc of
                Inl e \<Rightarrow> (Inl (Wrap (''get replicas from scale for '' @ ref) e), [], w)
              | Inr replicas \<Rightarrow>
                  (let state = stateOf gvr item replicas; report = [(workloadKey item, encodeWorkload state)]
                   in if replicas = None then (Inr p, report, w)
                      else (case setReplicas sc of
                              Some e \<Rightarrow> (Inl (Wrap (''set replicas to zero in scale for '' @ ref) e), [], w)
                            | None \<Rightarrow>
                                (case UpdateScale c gvr ns (wl_Name item) 0 w of
                                   (Some e, w') \<Rightarrow>
                                     (if is_not_found e then Inr (skipStale p) else Inl (Wrap (''update scale for '' @ ref) e), [], w')
                                 | (None, w') \<Rightarrow> (Inr (countApplied params state p), report, w'))))))"

definition scaleDownWorkloads :: "'w ScalerEnv \<Rightarrow> 'w ScalerClient \<Rightarrow> WorkloadScalerParameters \<Rightarrow> string \<Rightarrow> GroupVersionResource \<Rightarrow>
    WorkloadState list \<Rightarrow> 'w \<Rightarrow> progress res \<times> (string \<times> json) list \<times> 'w" where
  "scaleDownWorkloads e c params ns gvr waiting w =
     (case asSelector e (WorkloadSelector params) of
        Inl er \<Rightarrow> (Inl (Wrap ''invalid label selector: '' er), [], w)
      | Inr sel \<Rightarrow>
          (let zero = (\<lparr>processed = 0, applied = 0, skippedStale = 0\<rparr>, waiting)
           in case ListWorkloads c gvr ns sel w of
                Inl er \<Rightarrow> (if is_not_found er then Inr zero else Inl (Wrap ''list resources: '' er), [], w)
              | Inr items \<Rightarrow> forEach (scaleWorkload c params ns gvr) items zero w))"

definition addStats :: "operationStats \<Rightarrow> operationStats \<Rightarrow> operationStats" where
  "addStats a b = \<lparr>processed = processed a + processed b, applied = applied a + applied b, skippedStale = skippedStale a + skippedStale b\<rparr>"

text \<open>The body of the two nested loops of \<open>Shutdown\<close>, for one namespace and one kind.\<close>

definition scaleGroup :: "'w ScalerEnv \<Rightarrow> 'w ScalerClient \<Rightarrow> WorkloadScalerParameters \<Rightarrow> string \<times> string \<Rightarrow>
    progress \<Rightarrow> 'w \<Rightarrow> progress res \<times> (string \<times> json) list \<times> 'w" where
  "scaleGroup e c params pair p w =
     (case pair of (ns, kind) \<Rightarrow>
        (case resolveGVR kind of
           Inl er \<Rightarrow> (Inl (Wrap (''resolve GVR for '' @ kind @ '': '') er), [], w)
         | Inr gvr \<Rightarrow>
             (case scaleDownWorkloads e c params ns gvr (snd p) w of
                (Inl er, reps, w') \<Rightarrow> (Inl (Wrap (''scale down '' @ kind @ '' in namespace '' @ ns @ '': '') er), reps, w')
              | (Inr (counts, waiting), reps, w') \<Rightarrow> (Inr (addStats (fst p) counts, waiting), reps, w'))))"

definition groupsOf :: "WorkloadScalerParameters \<Rightarrow> string list" where
  "groupsOf params = (if IncludedGroups params = [] then [''Deployment''] else IncludedGroups params)"

definition Shutdown :: "'w ScalerEnv \<Rightarrow> 'w shutdown_fn" where
  "Shutdown e w =
     (case parseParams e of
        Inl er \<Rightarrow> (Inl er, [], w)
      | Inr params \<Rightarrow>
     (case clientFactory e (sc_spec e) of
        Inl er \<Rightarrow> (Inl (Wrap ''build kubernetes clients: '' er), [], w)
      | Inr c \<Rightarrow>
     (case discoverNamespaces e c (ws_Namespace params) w of
        Inl er \<Rightarrow> (Inl (Wrap ''discover namespaces: '' er), [], w)
      | Inr nss \<Rightarrow>
          if nss = [] then (Inl (ErrMsg ''no namespaces found matching selector''), [], w)
          else (case forEach (scaleGroup e c params) (List.product nss (groupsOf params))
                       (\<lparr>processed = 0, applied = 0, skippedStale = 0\<rparr>, []) w of
                  (Inl er, reps, w') \<Rightarrow> (Inl er, reps, w')
                | (Inr (st, waiting), reps, w') \<Rightarrow>
                    (Inr (formatShutdownMessage st (length nss) @
                          awaitMessage (ws_AwaitCompletion params) (\<lambda>s. waitForReplicasScaled (scaleRuns e s) s 0) waiting ''zero''),
                     reps, w')))))"

definition restoreWorkload :: "'w ScalerClient \<Rightarrow> WorkloadScalerParameters \<Rightarrow> WorkloadState \<Rightarrow> progress \<Rightarrow> 'w \<Rightarrow> progress res \<times> 'w" where
  "restoreWorkload c params s p w =
     (case GetScale c (GetGVR s) (wo_Namespace s) (wo_Name s) w of
        Inl e \<Rightarrow> (if is_not_found e then Inr (skipStale p) else Inl (Wrap ''get scale subresource: '' e), w)
      | Inr sc \<Rightarrow>
          (case setReplicas sc of
             Some e \<Rightarrow> (Inl (Wrap ''set replicas in scale: '' e), w)
           | None \<Rightarrow>
               (case UpdateScale c (GetGVR s) (wo_Namespace s) (wo_Name s) (Replicas s) w of
                  (Some e, w') \<Rightarrow> (if is_not_found e then Inr (skipStale p) else Inl (Wrap ''update scale subresource: '' e), w')
                | (None, w') \<Rightarrow> (Inr (countApplied params s p), w'))))"

text \<open>The loop body of \<open>WakeUp\<close>.\<close>

definition restoreStep :: "'w ScalerClient \<Rightarrow> WorkloadScalerParameters \<Rightarrow> string \<times> json \<Rightarrow> progress \<Rightarrow> 'w \<Rightarrow> progress res \<times> 'w" where
  "restoreStep c params entry p w =
     (case entry of (key, stateBytes) \<Rightarrow>
        (case decodeWorkload stateBytes of
           Inl e \<Rightarrow> (Inl (Wrap (''unmarshal workload state '' @ key @ '': '') e), w)
         | Inr s \<Rightarrow>
             if \<not> WasScaled s then (Inr (skipStale p), w)
             else (case restoreWorkload c params s p w of
                     (Inl e, w') \<Rightarrow>
                       (Inl (Wrap (''restore '' @ wo_Kind s @ ''/'' @ wo_Name s @ '' in namespace '' @ wo_Namespace s @ '': '') e), w')
                   | (Inr p', w') \<Rightarrow> (Inr p', w'))))"

definition WakeUp :: "'w ScalerEnv \<Rightarrow> 'w wakeup_fn" where
  "WakeUp e restore w =
     (if xr_Data restore = [] then (Inr ''wakeup completed for workloadscaler (no restore data)'', w)
      else (case parseParams e of
        Inl er \<Rightarrow> (Inl er, w)
      | Inr params \<Rightarrow>
     (case clientFactory e (sc_spec e) of
        Inl er \<Rightarrow> (Inl (Wrap ''build kubernetes clients: '' er), w)
      | Inr c \<Rightarrow>
     (case forRestore (restoreStep c params) (xr_Data restore)
             (\<lparr>processed = length (xr_Data restore), applied = 0, skippedStale = 0\<rparr>, []) w of
        (Inl er, w') \<Rightarrow> (Inl er, w')
      | (Inr (st, waiting), w') \<Rightarrow>
          (Inr (formatWakeUpMessage st @
                awaitMessage (ws_AwaitCompletion params) (\<lambda>s. waitForReplicasScaled (scaleRuns e s) s (Replicas s)) waiting ''desired''),
           w')))))"

section \<open>The laws\<close>

text \<open>
  What the laws need of the cluster, whose resources of \<open>gvr\<close> are of kind \<open>kindOf gvr\<close> and whose replica
  counts, by key, are \<open>truth\<close>.  Of a scale object: counts fit in 32 bits, and the field \<open>spec.replicas\<close> is
  omitted when it is zero, as the API type declares it.  An update that succeeds sets exactly the count
  of its workload, a failed one changes nothing.  A list holds each name once, of the kind and namespace asked for.
\<close>

definition wkey :: "(GroupVersionResource \<Rightarrow> string) \<Rightarrow> GroupVersionResource \<Rightarrow> string \<Rightarrow> string \<Rightarrow> string" where
  "wkey kindOf gvr ns n = workloadKey \<lparr>wl_Namespace = ns, wl_Kind = kindOf gvr, wl_Name = n\<rparr>"

definition scale_ok :: "(GroupVersionResource \<Rightarrow> string) \<Rightarrow> ('w \<Rightarrow> string \<Rightarrow> int option) \<Rightarrow> 'w ScalerClient \<Rightarrow> bool" where
  "scale_ok kindOf truth c \<longleftrightarrow>
     (\<forall>gvr ns n w. case GetScale c gvr ns n w of
        Inr sc \<Rightarrow> (\<exists>r. truth w (wkey kindOf gvr ns n) = Some r \<and> int32 r \<and> specReplicas sc = Inr (if r = 0 then None else Some r))
      | Inl e \<Rightarrow> is_not_found e \<longrightarrow> truth w (wkey kindOf gvr ns n) = None)"

definition update_ok :: "(GroupVersionResource \<Rightarrow> string) \<Rightarrow> ('w \<Rightarrow> string \<Rightarrow> int option) \<Rightarrow> 'w ScalerClient \<Rightarrow> bool" where
  "update_ok kindOf truth c \<longleftrightarrow>
     (\<forall>gvr ns n r w. case UpdateScale c gvr ns n r w of
        (None, w') \<Rightarrow> truth w (wkey kindOf gvr ns n) \<noteq> None \<and> truth w' = (truth w)(wkey kindOf gvr ns n \<mapsto> r)
      | (Some e, w') \<Rightarrow> truth w' = truth w \<and> (is_not_found e \<longrightarrow> truth w (wkey kindOf gvr ns n) = None))"

definition list_ok :: "(GroupVersionResource \<Rightarrow> string) \<Rightarrow> 'w ScalerClient \<Rightarrow> bool" where
  "list_ok kindOf c \<longleftrightarrow>
     (\<forall>gvr ns sel w items. ListWorkloads c gvr ns sel w = Inr items \<longrightarrow>
        distinct (map wl_Name items) \<and> (\<forall>i \<in> set items. wl_Namespace i = ns \<and> wl_Kind i = kindOf gvr))"

definition scaler_client_ok :: "(GroupVersionResource \<Rightarrow> string) \<Rightarrow> ('w \<Rightarrow> string \<Rightarrow> int option) \<Rightarrow> 'w ScalerClient \<Rightarrow> bool" where
  "scaler_client_ok kindOf truth c \<longleftrightarrow> scale_ok kindOf truth c \<and> update_ok kindOf truth c \<and> list_ok kindOf c"

text \<open>
  And of the configuration: no namespace and no group is named twice, different groups are of
  different kinds, and no name holds the separator of the keys.
\<close>

definition apart :: "(GroupVersionResource \<Rightarrow> string) \<Rightarrow> string list \<Rightarrow> bool" where
  "apart kindOf gs \<longleftrightarrow> distinct gs \<and>
     (\<forall>g \<in> set gs. \<forall>g' \<in> set gs. \<forall>gvr gvr'. g \<noteq> g' \<longrightarrow> resolveGVR g = Inr gvr \<longrightarrow> resolveGVR g' = Inr gvr' \<longrightarrow> kindOf gvr \<noteq> kindOf gvr')"

definition scaler_ok :: "(GroupVersionResource \<Rightarrow> string) \<Rightarrow> ('w \<Rightarrow> string \<Rightarrow> int option) \<Rightarrow> 'w ScalerEnv \<Rightarrow> bool" where
  "scaler_ok kindOf truth e \<longleftrightarrow>
     (\<forall>p c. parseParams e = Inr p \<longrightarrow> clientFactory e (sc_spec e) = Inr c \<longrightarrow>
        scaler_client_ok kindOf truth c \<and> apart kindOf (groupsOf p) \<and> (\<forall>gvr. CHR ''/'' \<notin> set (kindOf gvr)) \<and>
        (\<forall>w nss. discoverNamespaces e c (ws_Namespace p) w = Inr nss \<longrightarrow> distinct nss \<and> (\<forall>ns \<in> set nss. CHR ''/'' \<notin> set ns)))"

definition ws_on :: "int option \<Rightarrow> bool" where "ws_on x \<longleftrightarrow> (\<exists>r. x = Some r \<and> r \<noteq> 0)"

definition ws_off :: "int option \<Rightarrow> int option" where "ws_off x = map_option (\<lambda>_. 0) x"

definition ws_codes :: "(GroupVersionResource \<Rightarrow> string) \<Rightarrow> string \<Rightarrow> int option \<Rightarrow> json \<Rightarrow> bool" where
  "ws_codes kindOf k x v \<longleftrightarrow> (\<exists>gvr ns n r. k = wkey kindOf gvr ns n \<and> x = Some r \<and> int32 r \<and>
     v = encodeWorkload (stateOf gvr \<lparr>wl_Namespace = ns, wl_Kind = kindOf gvr, wl_Name = n\<rparr> (if r = 0 then None else Some r)))"

lemma toInt32_id: "int32 i \<Longrightarrow> toInt32 i = i"
  by (simp add: toInt32_def int32_def sint_sbintrunc' signed_take_bit_int_eq_self)

lemma decode_encode_workload: "int32 (Replicas s) \<Longrightarrow> decodeWorkload (encodeWorkload s) = Inr s"
  by (simp add: decodeWorkload_def encodeWorkload_def jmembers_def decodeField_def fieldValues_def EqualFold_def
      ToUpper_def to_upper_def)

lemma demanded_workload [simp]: "demanded (encodeWorkload s) \<longleftrightarrow> WasScaled s"
  by (simp add: demanded_def encodeWorkload_def isDemandedState_def jsonTrue_def)

lemma append_sep_inj: "xs @ a # ys = xs' @ a # ys' \<longleftrightarrow> xs = xs' \<and> ys = ys'" if "a \<notin> set xs" "a \<notin> set xs'"
  using that
proof (induction xs arbitrary: xs')
  case Nil
  then show ?case by (cases xs') auto
next
  case (Cons x xs)
  then show ?case by (cases xs') auto
qed

lemma wkey_inj:
  assumes "CHR ''/'' \<notin> set ns" "CHR ''/'' \<notin> set ns'" "\<forall>gvr. CHR ''/'' \<notin> set (kindOf gvr)"
  shows "wkey kindOf gvr ns n = wkey kindOf gvr' ns' n' \<longleftrightarrow> ns = ns' \<and> kindOf gvr = kindOf gvr' \<and> n = n'"
  using assms by (simp add: wkey_def workloadKey_def append_sep_inj)

lemma wkey_name_inj [simp]: "wkey kindOf gvr ns n = wkey kindOf gvr ns n' \<longleftrightarrow> n = n'"
  by (simp add: wkey_def workloadKey_def)

lemma ws_get:
  assumes "scaler_client_ok kindOf truth c"
  shows "case GetScale c gvr ns n w of
        Inr sc \<Rightarrow> (\<exists>r. truth w (wkey kindOf gvr ns n) = Some r \<and> int32 r \<and> specReplicas sc = Inr (if r = 0 then None else Some r))
      | Inl e \<Rightarrow> is_not_found e \<longrightarrow> truth w (wkey kindOf gvr ns n) = None"
  using assms unfolding scaler_client_ok_def scale_ok_def by blast

lemma ws_update:
  assumes "scaler_client_ok kindOf truth c"
  shows "case UpdateScale c gvr ns n r w of
        (None, w') \<Rightarrow> truth w (wkey kindOf gvr ns n) \<noteq> None \<and> truth w' = (truth w)(wkey kindOf gvr ns n \<mapsto> r)
      | (Some e, w') \<Rightarrow> truth w' = truth w \<and> (is_not_found e \<longrightarrow> truth w (wkey kindOf gvr ns n) = None)"
  by (rule assms [unfolded scaler_client_ok_def update_ok_def, THEN conjunct2, THEN conjunct1, THEN spec, THEN spec, THEN spec, THEN spec, THEN spec])

text \<open>One workload: left alone, with or without its report, or scaled to zero with its report.\<close>

lemma scaleWorkload_effect:
  assumes c: "scaler_client_ok kindOf truth c" and i: "wl_Namespace i = ns" "wl_Kind i = kindOf gvr"
    and r: "scaleWorkload c params ns gvr i p w = (r, reps, w')"
  defines "k \<equiv> wkey kindOf gvr ns (wl_Name i)"
  shows "reps = [] \<and> truth w' = truth w \<and>
           ((\<exists>x. r = Inr x) \<and> (\<exists>sc. GetScale c gvr ns (wl_Name i) w = Inr sc) \<longrightarrow> truth w k = None) \<or>
    (\<exists>z v. truth w k = Some z \<and> truth w' = (truth w)(k \<mapsto> 0) \<and> reps = [(k, v)] \<and> ws_codes kindOf k (Some z) v)"
proof (cases "GetScale c gvr ns (wl_Name i) w")
  case (Inl e)
  then show ?thesis using r by (auto simp: scaleWorkload_def Let_def split: if_splits)
next
  case (Inr sc)
  with ws_get [OF c, where gvr = gvr and ns = ns and n = "wl_Name i" and w = w] obtain z where z: "truth w k = Some z" "int32 z"
      "specReplicas sc = Inr (if z = 0 then None else Some z)" unfolding k_def by auto
  have item: "i = \<lparr>wl_Namespace = ns, wl_Kind = kindOf gvr, wl_Name = wl_Name i\<rparr>" using i by simp
  have "ws_codes kindOf k (Some z) (encodeWorkload (stateOf gvr \<lparr>wl_Namespace = ns, wl_Kind = kindOf gvr, wl_Name = wl_Name i\<rparr>
      (if z = 0 then None else Some z)))"
    using z(2) unfolding ws_codes_def k_def by blast
  then have codes: "workloadKey i = k" "ws_codes kindOf k (Some z) (encodeWorkload (stateOf gvr i (if z = 0 then None else Some z)))"
    by (simp_all add: k_def wkey_def flip: item)
  show ?thesis
  proof (cases "z = 0")
    case True
    then show ?thesis using r Inr z codes by (auto simp: scaleWorkload_def Let_def)
  next
    case False
    obtain er w1 where u: "UpdateScale c gvr ns (wl_Name i) 0 w = (er, w1)" by fastforce
    show ?thesis
      using r Inr z codes False u ws_update [OF c, where gvr = gvr and ns = ns and n = "wl_Name i" and r = 0 and w = w, folded k_def]
      by (cases er) (auto simp: scaleWorkload_def Let_def split: option.splits if_splits)
  qed
qed

lemma scaleWorkload_down:
  assumes "scaler_client_ok kindOf truth c" "wl_Namespace i = ns" "wl_Kind i = kindOf gvr"
    and "scaleWorkload c params ns gvr i p w = (r, reps, w')"
  shows "down_step truth ws_on ws_off (ws_codes kindOf) {wkey kindOf gvr ns (wl_Name i)} w reps w'"
  using scaleWorkload_effect [OF assms]
  by (elim disjE exE conjE) (auto simp: down_step_def ws_on_def ws_off_def)

lemma ws_list:
  assumes "scaler_client_ok kindOf truth c" "ListWorkloads c gvr ns sel w = Inr items"
  shows "distinct (map wl_Name items)" "\<And>i. i \<in> set items \<Longrightarrow> wl_Namespace i = ns \<and> wl_Kind i = kindOf gvr"
  using assms unfolding scaler_client_ok_def list_ok_def by blast+

definition groupKeys :: "(GroupVersionResource \<Rightarrow> string) \<Rightarrow> string \<times> string \<Rightarrow> string set" where
  "groupKeys kindOf pair = (case resolveGVR (snd pair) of Inl _ \<Rightarrow> {} | Inr gvr \<Rightarrow> range (wkey kindOf gvr (fst pair)))"

lemma scaleDownWorkloads_down:
  assumes c: "scaler_client_ok kindOf truth c" and r: "scaleDownWorkloads e c params ns gvr waiting w = (r, reps, w')"
  shows "down_step truth ws_on ws_off (ws_codes kindOf) (range (wkey kindOf gvr ns)) w reps w'"
proof (cases "\<exists>sel items. asSelector e (WorkloadSelector params) = Inr sel \<and> ListWorkloads c gvr ns sel w = Inr items")
  case True
  then obtain sel items where h: "asSelector e (WorkloadSelector params) = Inr sel" "ListWorkloads c gvr ns sel w = Inr items" by blast
  have fe: "forEach (scaleWorkload c params ns gvr) items (\<lparr>processed = 0, applied = 0, skippedStale = 0\<rparr>, waiting) w = (r, reps, w')"
    using r h by (simp add: scaleDownWorkloads_def Let_def)
  note l = ws_list [OF c h(2)]
  have "down_step truth ws_on ws_off (ws_codes kindOf) ((\<lambda>i. wkey kindOf gvr ns (wl_Name i)) ` set items) w reps w'"
  proof (rule forEach_down [OF _ _ fe])
    show "distinct (map (\<lambda>i. wkey kindOf gvr ns (wl_Name i)) items)"
      using l(1) by (auto simp: distinct_map inj_on_def)
  qed (use scaleWorkload_down [OF c] l(2) in blast)
  then show ?thesis by (rule down_step_mono) auto
next
  case False
  then have "reps = [] \<and> w' = w"
    using r by (auto simp: scaleDownWorkloads_def Let_def split: sum.splits if_splits)
  then show ?thesis by (auto intro: down_step_mono [OF down_step_refl])
qed

lemma scaleGroup_down:
  assumes "scaler_client_ok kindOf truth c" "scaleGroup e c params pair p w = (r, reps, w')"
  shows "down_step truth ws_on ws_off (ws_codes kindOf) (groupKeys kindOf pair) w reps w'"
proof (cases "resolveGVR (snd pair)")
  case (Inl er)
  then show ?thesis using assms(2) by (auto simp: scaleGroup_def groupKeys_def split_beta down_step_refl)
next
  case (Inr gvr)
  obtain r1 where "scaleDownWorkloads e c params (fst pair) gvr (snd p) w = (r1, reps, w')"
    using assms(2) Inr by (cases "scaleDownWorkloads e c params (fst pair) gvr (snd p) w"; cases "fst (scaleDownWorkloads e c params (fst pair) gvr (snd p) w)")
      (auto simp: scaleGroup_def split_beta)
  from scaleDownWorkloads_down [OF assms(1) this] show ?thesis by (simp add: groupKeys_def Inr)
qed

lemma groupKeys_disjoint:
  assumes "apart kindOf gs" "\<forall>gvr. CHR ''/'' \<notin> set (kindOf gvr)" "\<forall>ns \<in> set nss. CHR ''/'' \<notin> set ns"
    and "x \<in> set (List.product nss gs)" "y \<in> set (List.product nss gs)" "x \<noteq> y"
  shows "groupKeys kindOf x \<inter> groupKeys kindOf y = {}"
proof (rule equals0I)
  fix k
  assume "k \<in> groupKeys kindOf x \<inter> groupKeys kindOf y"
  then obtain gvr gvr' n n' where g: "resolveGVR (snd x) = Inr gvr" "resolveGVR (snd y) = Inr gvr'"
      "wkey kindOf gvr (fst x) n = wkey kindOf gvr' (fst y) n'"
    by (auto simp: groupKeys_def split: sum.splits)
  have s: "fst x \<in> set nss" "fst y \<in> set nss" "snd x \<in> set gs" "snd y \<in> set gs" using assms(4,5) by auto
  then have "fst x = fst y" "kindOf gvr = kindOf gvr'"
    using g(3) wkey_inj [OF _ _ assms(2), of "fst x" "fst y" gvr n gvr' n'] assms(3) by auto
  moreover have "snd x \<noteq> snd y" using assms(6) calculation(1) by (auto simp: prod_eq_iff)
  ultimately show False using assms(1) s g(1,2) by (auto simp: apart_def)
qed

lemma sorted_wrt_of_distinct:
  "distinct xs \<Longrightarrow> (\<And>x y. x \<in> set xs \<Longrightarrow> y \<in> set xs \<Longrightarrow> x \<noteq> y \<Longrightarrow> P x y) \<Longrightarrow> sorted_wrt P xs"
  by (induction xs) auto

lemma ws_Shutdown_loop:
  assumes "scaler_ok kindOf truth e" "Shutdown e w = (r, reps, w')"
  shows "(reps = [] \<and> w' = w \<and> (\<forall>m. r \<noteq> Inr m)) \<or>
    (\<exists>p c nss s r'. parseParams e = Inr p \<and> clientFactory e (sc_spec e) = Inr c \<and>
       discoverNamespaces e c (ws_Namespace p) w = Inr nss \<and>
       forEach (scaleGroup e c p) (List.product nss (groupsOf p)) s w = (r', reps, w') \<and> (\<exists>m. r = Inr m) = (\<exists>m. r' = Inr m))"
proof (cases "\<exists>p c nss. parseParams e = Inr p \<and> clientFactory e (sc_spec e) = Inr c \<and>
    discoverNamespaces e c (ws_Namespace p) w = Inr nss \<and> nss \<noteq> []")
  case True
  then obtain p c nss where h: "parseParams e = Inr p" "clientFactory e (sc_spec e) = Inr c"
      "discoverNamespaces e c (ws_Namespace p) w = Inr nss" "nss \<noteq> []" by blast
  let ?s = "(\<lparr>processed = 0, applied = 0, skippedStale = 0\<rparr>, [])"
  obtain r' reps' w1 where fe: "forEach (scaleGroup e c p) (List.product nss (groupsOf p)) ?s w = (r', reps', w1)"
    by (rule prod_cases3)
  then have "forEach (scaleGroup e c p) (List.product nss (groupsOf p)) ?s w = (r', reps, w')" "(\<exists>m. r = Inr m) = (\<exists>m. r' = Inr m)"
    using assms(2) h by (cases r'; auto simp: Shutdown_def split_beta)+
  with h(1-3) show ?thesis by - (rule disjI2, (rule exI conjI | assumption)+)
next
  case False
  then show ?thesis
    using assms(2) by (cases "parseParams e"; cases "clientFactory e (sc_spec e)";
        cases "discoverNamespaces e (projr (clientFactory e (sc_spec e))) (ws_Namespace (projr (parseParams e))) w")
      (auto simp: Shutdown_def)
qed

lemma ws_Shutdown_down:
  assumes "scaler_ok kindOf truth e" "Shutdown e w = (r, reps, w')"
  shows "\<exists>K. down_step truth ws_on ws_off (ws_codes kindOf) K w reps w'"
  using ws_Shutdown_loop [OF assms]
proof (elim disjE exE conjE)
  fix p c nss s r'
  assume h: "parseParams e = Inr p" "clientFactory e (sc_spec e) = Inr c" "discoverNamespaces e c (ws_Namespace p) w = Inr nss"
    and fe: "forEach (scaleGroup e c p) (List.product nss (groupsOf p)) s w = (r', reps, w')"
  have ok: "scaler_client_ok kindOf truth c" "apart kindOf (groupsOf p)" "\<forall>gvr. CHR ''/'' \<notin> set (kindOf gvr)" "distinct nss"
      "\<forall>ns \<in> set nss. CHR ''/'' \<notin> set ns"
    using assms(1) h unfolding scaler_ok_def by blast+
  have "distinct (List.product nss (groupsOf p))" using ok(2,4) by (simp add: apart_def distinct_product)
  then have "sorted_wrt (\<lambda>x y. groupKeys kindOf x \<inter> groupKeys kindOf y = {}) (List.product nss (groupsOf p))"
    by (rule sorted_wrt_of_distinct) (rule groupKeys_disjoint [OF ok(2,3,5)])
  from forEach_down_sets [where K = "groupKeys kindOf", OF _ this fe] show ?thesis using scaleGroup_down [OF ok(1)] by blast
qed (use down_step_refl [of truth ws_on ws_off "ws_codes kindOf" w] in auto)

section \<open>The executor contract\<close>

text \<open>
  The workloads a shutdown is about are the listed ones, as far as the cluster answers: an error of
  \<open>GetScale\<close> other than a missing object is passed over without a trace.
\<close>

definition ws_steady :: "(GroupVersionResource \<Rightarrow> string) \<Rightarrow> ('w \<Rightarrow> string \<Rightarrow> int option) \<Rightarrow> 'w ScalerClient \<Rightarrow> bool" where
  "ws_steady kindOf truth c \<longleftrightarrow>
     (\<forall>gvr ns n w. truth w (wkey kindOf gvr ns n) \<noteq> None \<longrightarrow> (\<exists>sc. GetScale c gvr ns n w = Inr sc)) \<and>
     (\<forall>gvr ns sel w w'. dom (truth w) = dom (truth w') \<longrightarrow> ListWorkloads c gvr ns sel w = ListWorkloads c gvr ns sel w')"

definition listed :: "'w ScalerEnv \<Rightarrow> 'w ScalerClient \<Rightarrow> WorkloadScalerParameters \<Rightarrow> GroupVersionResource \<Rightarrow> string \<Rightarrow> 'w \<Rightarrow> Workload set" where
  "listed e c p gvr ns w =
     (case asSelector e (WorkloadSelector p) of
        Inl _ \<Rightarrow> {} | Inr sel \<Rightarrow> (case ListWorkloads c gvr ns sel w of Inl _ \<Rightarrow> {} | Inr items \<Rightarrow> set items))"

definition ws_targets :: "(GroupVersionResource \<Rightarrow> string) \<Rightarrow> ('w \<Rightarrow> string \<Rightarrow> int option) \<Rightarrow> 'w ScalerEnv \<Rightarrow> 'w \<Rightarrow> string set" where
  "ws_targets kindOf truth e w =
     {wkey kindOf gvr ns (wl_Name i) | p c nss ns g gvr i. parseParams e = Inr p \<and> clientFactory e (sc_spec e) = Inr c \<and>
        ws_steady kindOf truth c \<and> discoverNamespaces e c (ws_Namespace p) w = Inr nss \<and> ns \<in> set nss \<and> g \<in> set (groupsOf p) \<and>
        resolveGVR g = Inr gvr \<and> i \<in> listed e c p gvr ns w}"

lemma ws_off_off: "\<not> ws_on (ws_off x)"
  by (auto simp: ws_on_def ws_off_def)

lemma down_keeps_off:
  "down_step truth ws_on ws_off (ws_codes kindOf) K w reps w' \<Longrightarrow> \<not> ws_on (truth w k) \<Longrightarrow> \<not> ws_on (truth w' k)"
  unfolding down_step_def using ws_off_off by metis

lemma down_keeps_dom:
  "down_step truth ws_on ws_off (ws_codes kindOf) K w reps w' \<Longrightarrow> dom (truth w') = dom (truth w)"
proof -
  assume "down_step truth ws_on ws_off (ws_codes kindOf) K w reps w'"
  then have "truth w' k = truth w k \<or> truth w' k = ws_off (truth w k)" for k unfolding down_step_def by blast
  then have "truth w' k = None \<longleftrightarrow> truth w k = None" for k by (metis map_option_is_None ws_off_def)
  then show ?thesis by (auto simp: dom_def)
qed

lemma scaleDownWorkloads_stops:
  assumes c: "scaler_client_ok kindOf truth c" "ws_steady kindOf truth c"
    and r: "scaleDownWorkloads e c params ns gvr waiting w = (Inr x, reps, w')" and i: "i \<in> listed e c params gvr ns w"
  shows "\<not> ws_on (truth w' (wkey kindOf gvr ns (wl_Name i)))"
proof -
  obtain sel items where h: "asSelector e (WorkloadSelector params) = Inr sel" "ListWorkloads c gvr ns sel w = Inr items" "i \<in> set items"
    using i by (auto simp: listed_def split: sum.splits)
  have fe: "forEach (scaleWorkload c params ns gvr) items (\<lparr>processed = 0, applied = 0, skippedStale = 0\<rparr>, waiting) w = (Inr x, reps, w')"
    using r h by (simp add: scaleDownWorkloads_def Let_def)
  note l = ws_list(2) [OF c(1) h(2)]
  have "\<forall>i \<in> set items. \<not> ws_on (truth w' (wkey kindOf gvr ns (wl_Name i)))"
  proof (rule forEach_all [OF _ _ fe])
    fix i s w s' reps w'
    assume i: "i \<in> set items" "scaleWorkload c params ns gvr i s w = (Inr s', reps, w')"
    have "truth w (wkey kindOf gvr ns (wl_Name i)) \<noteq> None \<longrightarrow> (\<exists>sc. GetScale c gvr ns (wl_Name i) w = Inr sc)"
      using c(2) unfolding ws_steady_def by blast
    with scaleWorkload_effect [OF c(1) _ _ i(2)] l [OF i(1)]
    show "\<not> ws_on (truth w' (wkey kindOf gvr ns (wl_Name i)))" by (auto simp: ws_on_def)
  next
    fix x y s w r reps w'
    assume "y \<in> set items" "scaleWorkload c params ns gvr y s w = (r, reps, w')" "\<not> ws_on (truth w (wkey kindOf gvr ns (wl_Name x)))"
    with scaleWorkload_down [OF c(1)] l show "\<not> ws_on (truth w' (wkey kindOf gvr ns (wl_Name x)))"
      using down_keeps_off by metis
  qed
  with h(3) show ?thesis by blast
qed

lemma ws_Shutdown_stops:
  assumes "scaler_ok kindOf truth e" "Shutdown e w = (Inr msg, reps, w')" "k \<in> ws_targets kindOf truth e w"
  shows "\<not> ws_on (truth w' k)"
proof -
  obtain p c nss s r' where h: "parseParams e = Inr p" "clientFactory e (sc_spec e) = Inr c" "discoverNamespaces e c (ws_Namespace p) w = Inr nss"
      and fe: "forEach (scaleGroup e c p) (List.product nss (groupsOf p)) s w = (Inr r', reps, w')"
    using ws_Shutdown_loop [OF assms(1,2)] by auto
  obtain ns g gvr i where k: "k = wkey kindOf gvr ns (wl_Name i)" "ws_steady kindOf truth c" "(ns, g) \<in> set (List.product nss (groupsOf p))"
      "resolveGVR g = Inr gvr" "i \<in> listed e c p gvr ns w"
    using assms(3) h by (auto simp: ws_targets_def)
  have ok: "scaler_client_ok kindOf truth c" using assms(1) h unfolding scaler_ok_def by blast
  let ?Q = "\<lambda>x w'. \<forall>gvr i. resolveGVR (snd x) = Inr gvr \<longrightarrow> i \<in> listed e c p gvr (fst x) w \<longrightarrow> \<not> ws_on (truth w' (wkey kindOf gvr (fst x) (wl_Name i)))"
  have "\<forall>x \<in> set (List.product nss (groupsOf p)). ?Q x w'"
  proof (rule forEach_all_inv [where I = "\<lambda>w1. dom (truth w1) = dom (truth w)", OF _ _ _ fe refl])
    fix x s w1 s' reps w2
    assume x: "scaleGroup e c p x s w1 = (Inr s', reps, w2)" and d: "dom (truth w1) = dom (truth w)"
    have "ListWorkloads c gvr ns sel w1 = ListWorkloads c gvr ns sel w" for gvr ns sel
      using k(2) d unfolding ws_steady_def by blast
    then have "listed e c p gvr ns w1 = listed e c p gvr ns w" for gvr ns by (simp add: listed_def split: sum.split)
    moreover have "\<exists>z. scaleDownWorkloads e c p (fst x) gvr (snd s) w1 = (Inr z, reps, w2)" if "resolveGVR (snd x) = Inr gvr" for gvr
      using x that by (cases "scaleDownWorkloads e c p (fst x) gvr (snd s) w1"; cases "fst (scaleDownWorkloads e c p (fst x) gvr (snd s) w1)")
        (auto simp: scaleGroup_def split_beta)
    ultimately show "?Q x w2" using scaleDownWorkloads_stops [OF ok k(2), where e = e and params = p and w = w1] by blast
  qed (use scaleGroup_down [OF ok] down_keeps_off down_keeps_dom in metis)+
  then have "?Q (ns, g) w'" using k(3) by (rule bspec)
  then show ?thesis using k(1,4,5) by simp
qed

lemma ws_decoded:
  assumes "ws_codes kindOf k x v"
  obtains gvr ns n r where "k = wkey kindOf gvr ns n" "x = Some r" "int32 r"
    "decodeWorkload v = Inr (stateOf gvr \<lparr>wl_Namespace = ns, wl_Kind = kindOf gvr, wl_Name = n\<rparr> (if r = 0 then None else Some r))"
proof -
  from assms obtain gvr ns n r where h: "k = wkey kindOf gvr ns n" "x = Some r" "int32 r"
      "v = encodeWorkload (stateOf gvr \<lparr>wl_Namespace = ns, wl_Kind = kindOf gvr, wl_Name = n\<rparr> (if r = 0 then None else Some r))"
    unfolding ws_codes_def by blast
  moreover have "int32 (Replicas (stateOf gvr i (if r = 0 then None else Some r)))" for i
    using h(3) by (cases "r = 0") (simp_all add: stateOf_def toInt32_id toInt32_id [of 0] int32_def [of 0])
  ultimately show ?thesis using that decode_encode_workload by blast
qed

lemma ws_restoreStep_up:
  assumes c: "scaler_client_ok kindOf truth c" and r: "restoreStep c params (k, v) p w = (r, w')" and v: "ws_codes kindOf k (f k) v"
    and w: "truth w k = f k \<or> ws_on (f k) \<and> truth w k = ws_off (f k)"
  shows "up_step truth f {k} w (\<exists>x. r = Inr x) w'"
proof -
  obtain gvr ns n z where h: "k = wkey kindOf gvr ns n" "f k = Some z" "int32 z"
    "decodeWorkload v = Inr (stateOf gvr \<lparr>wl_Namespace = ns, wl_Kind = kindOf gvr, wl_Name = n\<rparr> (if z = 0 then None else Some z))"
    using ws_decoded [OF v] by metis
  show ?thesis
  proof (cases "z = 0")
    case True
    then show ?thesis using r w h by (auto simp: restoreStep_def stateOf_def up_step_def ws_on_def)
  next
    case False
    then obtain S where s: "decodeWorkload v = Inr S" "GetGVR S = gvr" "wo_Namespace S = ns" "wo_Name S = n" "Replicas S = z" "WasScaled S"
      using h(3,4) by (simp add: stateOf_def toInt32_id GetGVR_def)
    have t: "truth w k \<noteq> None" using w h(2) by (auto simp: ws_off_def)
    obtain er w1 where u: "UpdateScale c gvr ns n z w = (er, w1)" by fastforce
    show ?thesis
    proof (cases "GetScale c gvr ns n w")
      case (Inl e)
      then have "w' = w" "\<forall>x. r \<noteq> Inr x"
        using r s t h(1) ws_get [OF c, where gvr = gvr and ns = ns and n = n and w = w]
        by (auto simp: restoreStep_def restoreWorkload_def)
      then show ?thesis by (simp add: up_step_def)
    next
      case (Inr sc)
      then show ?thesis
        using r s t u h(1,2) ws_update [OF c, where gvr = gvr and ns = ns and n = n and r = z and w = w]
        by (cases "setReplicas sc"; cases er)
          (simp_all add: restoreStep_def restoreWorkload_def up_step_def split: if_splits, auto)
    qed
  qed
qed

lemma ws_WakeUp_up:
  assumes ok: "scaler_ok kindOf truth e" and wk: "WakeUp e rd w = (r, w')"
    and D: "\<forall>(k, v) \<in> set (xr_Data rd). ws_codes kindOf k (f k) v"
    and w: "\<forall>k. truth w k = f k \<or> ws_on (f k) \<and> truth w k = ws_off (f k)"
  shows "up_step truth f (fst ` set (xr_Data rd)) w (\<exists>m. r = Inr m) w'"
proof (cases "xr_Data rd \<noteq> [] \<and> (\<exists>p c. parseParams e = Inr p \<and> clientFactory e (sc_spec e) = Inr c)")
  case True
  then obtain p c where h: "xr_Data rd \<noteq> []" "parseParams e = Inr p" "clientFactory e (sc_spec e) = Inr c" by blast
  let ?I = "\<lambda>w. \<forall>k. truth w k = f k \<or> ws_on (f k) \<and> truth w k = ws_off (f k)"
  have c: "scaler_client_ok kindOf truth c" using ok h unfolding scaler_ok_def by blast
  have step: "up_step truth f {fst x} w (\<exists>s'. r = Inr s') w' \<and> ?I w'"
    if "x \<in> set (xr_Data rd)" "restoreStep c p x s w = (r, w')" "?I w" for x s w r w'
  proof -
    have "ws_codes kindOf (fst x) (f (fst x)) (snd x)" using that(1) D by (auto simp: split_beta)
    from ws_restoreStep_up [where f = f, OF c _ this, where params = p and p = s and w = w and r = r and w' = w'] that(2,3)
    show ?thesis unfolding up_step_def prod.collapse by metis
  qed
  obtain r' w1 where fr: "forRestore (restoreStep c p) (xr_Data rd) (\<lparr>processed = length (xr_Data rd), applied = 0, skippedStale = 0\<rparr>, []) w = (r', w1)"
    by fastforce
  then have "w1 = w'" "(\<exists>m. r = Inr m) = (\<exists>m. r' = Inr m)"
    using wk h by (cases r'; auto simp: WakeUp_def split_beta)+
  then show ?thesis using forRestore_up [where I = ?I and key = fst, OF step fr w] by simp
next
  case False
  then have "w' = w" "xr_Data rd = [] \<or> (\<forall>m. r \<noteq> Inr m)"
    using wk by (auto simp: WakeUp_def split: sum.splits if_splits)
  then show ?thesis by (auto simp: up_step_def)
qed

text \<open>A client that answers for every workload that exists.\<close>

definition ws_good :: "(GroupVersionResource \<Rightarrow> string) \<Rightarrow> ('w \<Rightarrow> string \<Rightarrow> int option) \<Rightarrow> 'w ScalerEnv \<Rightarrow> bool" where
  "ws_good kindOf truth e \<longleftrightarrow>
     (\<exists>p c. parseParams e = Inr p \<and> clientFactory e (sc_spec e) = Inr c \<and>
        (\<forall>gvr ns n r w. truth w (wkey kindOf gvr ns n) \<noteq> None \<longrightarrow> int32 r \<longrightarrow>
           (\<exists>sc. GetScale c gvr ns n w = Inr sc \<and> setReplicas sc = None) \<and> fst (UpdateScale c gvr ns n r w) = None))"

lemma ws_restoreStep_succeeds:
  assumes "\<forall>gvr ns n r w. truth w (wkey kindOf gvr ns n) \<noteq> None \<longrightarrow> int32 r \<longrightarrow>
      (\<exists>sc. GetScale c gvr ns n w = Inr sc \<and> setReplicas sc = None) \<and> fst (UpdateScale c gvr ns n r w) = None"
    and v: "ws_codes kindOf k x v" and w: "truth w k = x \<or> ws_on x \<and> truth w k = ws_off x"
  shows "\<exists>p' w'. restoreStep c params (k, v) p w = (Inr p', w')"
proof -
  obtain gvr ns n z where h: "k = wkey kindOf gvr ns n" "x = Some z" "int32 z"
    "decodeWorkload v = Inr (stateOf gvr \<lparr>wl_Namespace = ns, wl_Kind = kindOf gvr, wl_Name = n\<rparr> (if z = 0 then None else Some z))"
    using ws_decoded [OF v] by metis
  then have t: "truth w (wkey kindOf gvr ns n) \<noteq> None" using w by (auto simp: ws_off_def)
  obtain S where S: "decodeWorkload v = Inr S"
      "S = stateOf gvr \<lparr>wl_Namespace = ns, wl_Kind = kindOf gvr, wl_Name = n\<rparr> (if z = 0 then None else Some z)"
    using h(4) by blast
  have s: "decodeWorkload v = Inr S" "GetGVR S = gvr" "wo_Namespace S = ns" "wo_Name S = n" by (simp_all add: S stateOf_def GetGVR_def)
  have i: "int32 (Replicas S)" using h(3) by (simp add: S(2) stateOf_def toInt32_id) (simp add: toInt32_def int32_def)
  note a = assms(1) [rule_format, OF t i]
  then obtain sc where "GetScale c gvr ns n w = Inr sc" "setReplicas sc = None" by blast
  moreover obtain w1 where "UpdateScale c gvr ns n (Replicas S) w = (None, w1)" using a by (cases "UpdateScale c gvr ns n (Replicas S) w") simp
  ultimately show ?thesis using s by (cases "WasScaled S") (simp_all add: restoreStep_def restoreWorkload_def)
qed

interpretation ws: reliable_executor "scaler_ok kindOf truth" Shutdown WakeUp truth ws_on ws_off "ws_codes kindOf"
    "ws_targets kindOf truth" "ws_good kindOf truth" "\<lambda>_. True"
  for kindOf and truth :: "'w \<Rightarrow> string \<Rightarrow> int option"
proof unfold_locales
  show "\<not> ws_on (ws_off x)" for x by (rule ws_off_off)
  show "\<not> ws_on x \<Longrightarrow> ws_codes kindOf k x v \<Longrightarrow> \<not> demanded v" for x k v by (auto simp: ws_on_def ws_codes_def stateOf_def)
next
  fix e f and rd :: ExecRestoreData and w :: 'w
  let ?I = "\<lambda>w. \<forall>k. truth w k = f k \<or> ws_on (f k) \<and> truth w k = ws_off (f k)"
  assume h: "scaler_ok kindOf truth e" "ws_good kindOf truth e" "\<forall>(k, v) \<in> set (xr_Data rd). ws_codes kindOf k (f k) v" "?I w"
  from h(2) obtain p c where g: "parseParams e = Inr p" "clientFactory e (sc_spec e) = Inr c"
      "\<forall>gvr ns n r w. truth w (wkey kindOf gvr ns n) \<noteq> None \<longrightarrow> int32 r \<longrightarrow>
           (\<exists>sc. GetScale c gvr ns n w = Inr sc \<and> setReplicas sc = None) \<and> fst (UpdateScale c gvr ns n r w) = None"
    unfolding ws_good_def by blast
  have c: "scaler_client_ok kindOf truth c" using h(1) g unfolding scaler_ok_def by blast
  have step: "\<exists>s' w'. restoreStep c p x s w = (Inr s', w') \<and> ?I w'" if x: "x \<in> set (xr_Data rd)" and I: "?I w" for x s w
  proof -
    have v: "ws_codes kindOf (fst x) (f (fst x)) (snd x)" using h(3) x by (auto simp: split_beta)
    obtain s' w' where r: "restoreStep c p (fst x, snd x) s w = (Inr s', w')"
      using ws_restoreStep_succeeds [OF g(3) v] I by metis
    from ws_restoreStep_up [where f = f, OF c r v] I have "?I w'" unfolding up_step_def by metis
    with r show ?thesis by auto
  qed
  obtain s' w' where "forRestore (restoreStep c p) (xr_Data rd)
      (\<lparr>processed = length (xr_Data rd), applied = 0, skippedStale = 0\<rparr>, []) w = (Inr s', w')"
    using forRestore_succeeds [where I = ?I and f = "restoreStep c p", OF step h(4)] by blast
  then show "\<exists>msg w'. WakeUp e rd w = (Inr msg, w')" using g(1,2) by (cases s') (auto simp: WakeUp_def)
qed (rule ws_Shutdown_down ws_Shutdown_stops ws_WakeUp_up; assumption)+

text \<open>
  C20.  A hibernation cycle of a workload-scaler target is a round trip.  The shutdown is attempted any number of times,
  each attempt ending where an error of the cluster stops it, and so is the wake-up; the first wake-up
  that succeeds leaves every workload of the cluster with the replica count it
  had before the cycle, and a wake-up whose calls are answered does succeed.  This holds as long as no restore
  data is lost: every shutdown attempt that changed something, and the last one, saves its data (a
  failed flush is not reported, \<open>flush_failure_unreported\<close> in Runner).  Further, no namespace and no
  group is named twice (\<open>ws_duplicate_loses_counts\<close> shows why), different groups are of different kinds, scale objects tell the truth in 32 bits, an update that
  succeeds sets exactly the count of its workload, and one that returns an error has changed nothing.
\<close>

theorem scaler_cycle_roundtrip:
  assumes "rc_Operation cfg = ''shutdown''" "ss \<noteq> []"
    and "\<forall>a \<in> set ss. scaler_ok kindOf truth (at_cfg a) \<and> (\<forall>i. proper_time (at_clock a i))" "saves_all cfg Shutdown WakeUp ss (w, st)"
    and "\<forall>a \<in> set (ws @ [a]). scaler_ok kindOf truth (at_cfg a)" "new_cycle cfg st"
    and "s = attempts (wakeupOf cfg) Shutdown WakeUp ws (attempts cfg Shutdown WakeUp ss (w, st))"
  shows "(\<forall>msg w' st'. attemptOp (wakeupOf cfg) Shutdown WakeUp a s = (Inr msg, w', st') \<longrightarrow> truth w' = truth w) \<and>
    (ws_good kindOf truth (at_cfg a) \<and> get_err (at_api a) = None \<longrightarrow>
       (\<exists>msg w' st'. attemptOp (wakeupOf cfg) Shutdown WakeUp a s = (Inr msg, w', st')))"
  using ws.cycle_completes [OF assms] by simp

text \<open>
  A cluster with deployments in namespace \<open>a\<close>, whose counts are by key; \<open>broken\<close> rejects updates
  of \<open>db\<close>, \<open>mute\<close> fails to return its scale.
\<close>

definition demoKind :: "GroupVersionResource \<Rightarrow> string" where
  "demoKind gvr = filter (\<lambda>ch. ch \<noteq> CHR ''/'') (gv_Resource gvr)"

definition demoTruth :: "(string \<Rightarrow> int option) \<Rightarrow> string \<Rightarrow> int option" where
  "demoTruth w k = (case w k of None \<Rightarrow> None | Some r \<Rightarrow> if int32 r then Some r else None)"

definition demoClient :: "bool \<Rightarrow> bool \<Rightarrow> (string \<Rightarrow> int option) ScalerClient" where
  "demoClient broken mute =
     \<lparr>ListNamespaces = (\<lambda>_ _. Inr [''a'']),
      ListWorkloads = (\<lambda>gvr ns _ _. Inr [\<lparr>wl_Namespace = ns, wl_Kind = demoKind gvr, wl_Name = ''web''\<rparr>,
         \<lparr>wl_Namespace = ns, wl_Kind = demoKind gvr, wl_Name = ''db''\<rparr>]),
      GetScale = (\<lambda>gvr ns n w.
         if mute \<and> n = ''db'' then Inl (ApiError (ApiFailure ''throttled''))
         else (case demoTruth w (wkey demoKind gvr ns n) of
                 None \<Rightarrow> Inl (ApiError NotFound)
               | Some r \<Rightarrow> Inr \<lparr>specReplicas = Inr (if r = 0 then None else Some r), statusReplicas = Inr (Some r), setReplicas = None\<rparr>)),
      UpdateScale = (\<lambda>gvr ns n r w.
         if broken \<and> n = ''db'' \<or> \<not> int32 r then (Some (ApiError (ApiFailure ''throttled'')), w)
         else if demoTruth w (wkey demoKind gvr ns n) = None then (Some (ApiError NotFound), w)
         else (None, w(wkey demoKind gvr ns n \<mapsto> r)))\<rparr>"

definition demoEnv :: "bool \<Rightarrow> bool \<Rightarrow> string list \<Rightarrow> (string \<Rightarrow> int option) ScalerEnv" where
  "demoEnv broken mute nss =
     \<lparr>sc_libs = demoLibs\<lparr>decodeWorkloadScaler := (\<lambda>_. Inr (zeroScalerParameters\<lparr>ws_Namespace := \<lparr>Literals = nss, ns_Selector = []\<rparr>\<rparr>))\<rparr>,
      sc_spec = demoSpec, clientFactory = (\<lambda>_. Inr (demoClient broken mute)), setString = (\<lambda>_. ''''), asSelector = (\<lambda>_. Inr ''''),
      scaleRuns = (\<lambda>_. \<lparr>seen = [], deadline = True\<rparr>)\<rparr>"

definition demoWorld :: "string \<Rightarrow> int option" where
  "demoWorld = [''a/deployments/web'' \<mapsto> 3, ''a/deployments/db'' \<mapsto> 1]"

abbreviation demoGood :: "(string \<Rightarrow> int option) ScalerEnv" where "demoGood \<equiv> demoEnv False False [''a'']"

abbreviation demoBroken :: "(string \<Rightarrow> int option) ScalerEnv" where "demoBroken \<equiv> demoEnv True False [''a'']"

lemma demoTruth_upd: "int32 r \<Longrightarrow> demoTruth (w(k \<mapsto> r)) = (demoTruth w)(k \<mapsto> r)"
  by (auto simp: demoTruth_def)

lemma ws_demo_client_ok: "scaler_client_ok demoKind demoTruth (demoClient broken mute)"
proof -
  have "scale_ok demoKind demoTruth (demoClient broken mute)"
    unfolding scale_ok_def
  proof (intro allI)
    fix gvr ns n w
    have "int32 r" if "demoTruth w k = Some r" for r k using that by (auto simp: demoTruth_def split: option.splits if_splits)
    then show "case GetScale (demoClient broken mute) gvr ns n w of
        Inl e \<Rightarrow> is_not_found e \<longrightarrow> demoTruth w (wkey demoKind gvr ns n) = None
      | Inr sc \<Rightarrow> \<exists>r. demoTruth w (wkey demoKind gvr ns n) = Some r \<and> int32 r \<and> specReplicas sc = Inr (if r = 0 then None else Some r)"
      by (cases "demoTruth w (wkey demoKind gvr ns n)") (simp_all add: demoClient_def)
  qed
  moreover have "update_ok demoKind demoTruth (demoClient broken mute)"
    by (auto simp: update_ok_def demoClient_def demoTruth_upd)
  ultimately show ?thesis by (auto simp: scaler_client_ok_def list_ok_def demoClient_def)
qed

lemma ws_demo_ok: "scaler_ok demoKind demoTruth (demoEnv broken mute [''a''])"
  using ws_demo_client_ok by (simp add: scaler_ok_def demoEnv_def parseParams_def demoSpec_def zeroScalerParameters_def
      discoverNamespaces_def groupsOf_def apart_def demoKind_def)

lemma ws_demo_good: "ws_good demoKind demoTruth demoGood"
  by (auto simp: ws_good_def demoEnv_def parseParams_def demoSpec_def demoClient_def)

text \<open>The first shutdown attempt scales one workload and fails on the other.\<close>

theorem scaler_cycle_roundtrip_witness:
  "\<exists>msg w' st'. attemptOp (wakeupOf (demoJob ''workloadscaler'')) Shutdown WakeUp (demoAttempt demoGood)
      (attempts (wakeupOf (demoJob ''workloadscaler'')) Shutdown WakeUp [demoAttempt demoBroken]
        (attempts (demoJob ''workloadscaler'') Shutdown WakeUp [demoAttempt demoBroken, demoAttempt demoGood]
          (demoWorld, None))) = (Inr msg, w', st') \<and> demoTruth w' = demoTruth demoWorld"
proof -
  let ?ss = "[demoAttempt demoBroken, demoAttempt demoGood]" and ?ws = "[demoAttempt demoBroken]"
  have ok: "\<forall>a \<in> set ?ss. scaler_ok demoKind demoTruth (at_cfg a) \<and> cm_reliable (at_api a) \<and> (\<forall>i. proper_time (at_clock a i))"
    "\<forall>a \<in> set (?ws @ [demoAttempt demoGood]). scaler_ok demoKind demoTruth (at_cfg a)"
    using ws_demo_ok by simp_all
  from ok(1) have ok1: "\<forall>a \<in> set ?ss. scaler_ok demoKind demoTruth (at_cfg a) \<and> (\<forall>i. proper_time (at_clock a i))" by blast
  note t = scaler_cycle_roundtrip [OF demo_sel(1) _ ok1 ws.reliable_cycle_saves [OF demo_sel(1,2) ok(1)] ok(2) demo_sel(2) refl, of "''workloadscaler''" "demoWorld"]
  with ws_demo_good show ?thesis by (simp only: demo_sel simp_thms) blast
qed

section \<open>Outside the laws\<close>

text \<open>The same resources under two names: both are accepted, and every deployment is visited twice.\<close>

lemma ws_groups_alias: "resolveGVR ''apps/v1/deployments'' = resolveGVR ''Deployment''"
  by (simp add: resolveGVR_def gvrMap_def parseCRDFormat_def)

text \<open>
  A namespace listed twice: the second visit finds the workloads at zero, and its reports replace
  the first ones in the accumulator.  The counts are lost, and a wake-up restores nothing.
\<close>

lemmas demo_run = Shutdown_def demoEnv_def parseParams_def demoSpec_def discoverNamespaces_def zeroScalerParameters_def groupsOf_def
  scaleGroup_def resolveGVR_def gvrMap_def scaleDownWorkloads_def demoClient_def scaleWorkload_def wkey_def workloadKey_def
  demoKind_def demoTruth_def demoWorld_def int32_def stateOf_def skipStale_def countApplied_def addStats_def toInt32_def awaitMessage_def

lemma ws_duplicate_loses_counts:
  "map fst (fst (snd (Shutdown (demoEnv False False [''a'', ''a'']) demoWorld))) =
     [''a/deployments/web'', ''a/deployments/db'', ''a/deployments/web'', ''a/deployments/db'']"
  "map (\<lambda>(k, v). (k, demanded v)) (acc_state (addAll clock (fst (snd (Shutdown (demoEnv False False [''a'', ''a'']) demoWorld))))) =
     [(''a/deployments/web'', False), (''a/deployments/db'', False)]"
proof -
  show "map fst (fst (snd (Shutdown (demoEnv False False [''a'', ''a'']) demoWorld))) =
     [''a/deployments/web'', ''a/deployments/db'', ''a/deployments/web'', ''a/deployments/db'']"
    by (simp add: demo_run Let_def)
  show "map (\<lambda>(k, v). (k, demanded v)) (acc_state (addAll clock (fst (snd (Shutdown (demoEnv False False [''a'', ''a'']) demoWorld))))) =
     [(''a/deployments/web'', False), (''a/deployments/db'', False)]"
    by (simp add: demo_run Let_def addAll_def newAccumulator_def)
qed

text \<open>
  An error of \<open>GetScale\<close> other than a missing object is dropped: the shutdown succeeds, and the
  workload keeps running without a report.
\<close>

lemma ws_scale_error_unnoticed:
  "\<exists>msg w'. Shutdown (demoEnv False True [''a'']) demoWorld =
     (Inr msg, [(''a/deployments/web'', encodeWorkload \<lparr>wo_Group = ''apps'', wo_Version = ''v1'', wo_Resource = ''deployments'',
        wo_Kind = ''deployments'', wo_Namespace = ''a'', wo_Name = ''web'', Replicas = 3, WasScaled = True\<rparr>)], w') \<and>
   w' ''a/deployments/db'' = Some 1"
  by (simp add: demo_run Let_def)

end
