(* ===== verification/Karpenter.thy ===== *)
theory Karpenter
  imports ExecBase
begin

text \<open>
  The Karpenter executor (\<^verbatim>\<open>internal/executor/karpenter\<close>): a shutdown deletes NodePools and reports their
  spec and labels, a wake-up creates them again.  Objects of the dynamic client are represented by the
  parts the executor reads; numbers in a spec are taken to survive their way through JSON.
\<close>

record NodePool =
  np_Spec :: "(string \<times> json) list"
  np_Labels :: "(string \<times> string) list"
  np_Annotations :: "(string \<times> string) list"

text \<open>What \<open>Get\<close> returns: the field \<open>spec\<close>, if present, and the labels.\<close>

record NodePoolObject =
  no_Spec :: "json option"
  no_Labels :: "(string \<times> string) list"

datatype createOutcome = Created | AlreadyExists | CreateError go_error

record 'w KarpenterClient =
  ListNodePools :: "string \<Rightarrow> 'w \<Rightarrow> (string list) res"
  GetNodePool :: "string \<Rightarrow> 'w \<Rightarrow> NodePoolObject res"
  DeleteNodePool :: "string \<Rightarrow> 'w \<Rightarrow> go_error option \<times> 'w"
  CreateNodePool :: "string \<Rightarrow> (string \<times> json) list option \<Rightarrow> (string \<times> string) list \<Rightarrow> 'w \<Rightarrow> createOutcome \<times> 'w"

record 'w KarpenterEnv =
  ka_libs :: ParamLibs
  ka_spec :: Spec
  clientFactory :: "K8SConnectorConfig option \<Rightarrow> ('w KarpenterClient) res"
  selectorString :: "LabelSelector \<Rightarrow> string res"
  nodeLists :: "string \<Rightarrow> (nat res) waitRun"
  conditionFields :: "string \<Rightarrow> ((json option) res) waitRun"

section \<open>Stored state\<close>

record NodePoolState =
  ns_Name :: string
  ns_Spec :: "(string \<times> json) list option"
  ns_Labels :: "(string \<times> string) list"

definition encodeLabels :: "(string \<times> string) list \<Rightarrow> json" where
  "encodeLabels ls = JObj (map (\<lambda>(k, v). (k, JStr v)) ls)"

definition encodeNodePool :: "NodePoolState \<Rightarrow> json" where
  "encodeNodePool s = JObj ((if ns_Labels s = [] then [] else [(''labels'', encodeLabels (ns_Labels s))]) @
     [(''name'', JStr (ns_Name s)), (''spec'', case ns_Spec s of None \<Rightarrow> JNull | Some m \<Rightarrow> JObj m)])"

definition jmap :: "json \<Rightarrow> ((string \<times> json) list option) res" where
  "jmap v = (case v of JObj m \<Rightarrow> Inr (Some m) | _ \<Rightarrow> Inl (typeError ''map[string]interface {}''))"

fun jlabelMembers :: "(string \<times> json) list \<Rightarrow> ((string \<times> string) list) res" where
  "jlabelMembers [] = Inr []"
| "jlabelMembers ((k, v) # m) =
     (case (v, jlabelMembers m) of
        (JStr s, Inr r) \<Rightarrow> Inr ((k, s) # r)
      | (JNull, Inr r) \<Rightarrow> Inr ((k, '''') # r)
      | _ \<Rightarrow> Inl (typeError ''string''))"

definition jlabels :: "json \<Rightarrow> ((string \<times> string) list) res" where
  "jlabels v = (case v of JObj m \<Rightarrow> jlabelMembers m | _ \<Rightarrow> Inl (typeError ''map[string]string''))"

definition decodeNodePool :: "json \<Rightarrow> NodePoolState res" where
  "decodeNodePool v =
     (case jmembers v of
        Inl e \<Rightarrow> Inl e
      | Inr m \<Rightarrow>
          (case (decodeField jstr '''' ''name'' m, decodeField jmap None ''spec'' m, decodeField jlabels [] ''labels'' m) of
             (Inr n, Inr s, Inr l) \<Rightarrow> Inr \<lparr>ns_Name = n, ns_Spec = s, ns_Labels = l\<rparr>
           | _ \<Rightarrow> Inl (typeError ''NodePoolState'')))"

section \<open>Parameters and messages\<close>

definition zeroKarpenterParameters :: KarpenterParameters where
  "zeroKarpenterParameters = \<lparr>ka_NodePools = [], NodeSelector = None, ka_AwaitCompletion = \<lparr>Enabled = False, ac_Timeout = ''''\<rparr>\<rparr>"

definition parseParams :: "ParamLibs \<Rightarrow> string \<Rightarrow> KarpenterParameters res" where
  "parseParams L raw = (if raw = '''' then Inr zeroKarpenterParameters else decodeKarpenter L raw)"

definition Validate :: "'w KarpenterEnv \<Rightarrow> go_error option" where
  "Validate e =
     (case sp_K8S (ka_spec e) of
        None \<Rightarrow> Some (ErrMsg ''K8S connector config is required'')
      | Some k \<Rightarrow>
          if kc_ClusterName k = '''' then Some (ErrMsg ''cluster name is required'')
          else if kc_Region k = '''' then Some (ErrMsg ''region is required'')
          else (case parseParams (ka_libs e) (sp_Parameters (ka_spec e)) of
                  Inl er \<Rightarrow> Some (Wrap ''parse parameters: '' er)
                | Inr p \<Rightarrow>
                    (let hasNodeSelector = (case NodeSelector p of None \<Rightarrow> False
                           | Some s \<Rightarrow> ls_MatchLabels s \<noteq> [] \<or> ls_MatchExpressions s \<noteq> [])
                     in if ka_NodePools p \<noteq> [] \<and> hasNodeSelector
                        then Some (ErrMsg ''nodePools and nodeSelector are mutually exclusive'') else None)))"

definition formatShutdownMessage :: "operationStats \<Rightarrow> string" where
  "formatShutdownMessage st = appendCountSegment (''scaled down '' @ show_nat (applied st) @ '' Karpenter NodePool(s)'')
     ''skipped'' (skippedStale st) ''stale NodePool''"

definition formatWakeUpMessage :: "operationStats \<Rightarrow> string" where
  "formatWakeUpMessage st = appendCountSegment (''restored '' @ show_nat (applied st) @ '' Karpenter NodePool(s)'')
     ''skipped'' (skippedStale st) ''stale NodePool''"

definition DefaultWaitTimeout :: string where "DefaultWaitTimeout = ''5m''"

definition awaitMessage :: "AwaitCompletion \<Rightarrow> (string \<Rightarrow> string \<Rightarrow> go_error option) \<Rightarrow> string list \<Rightarrow> string \<Rightarrow> string \<Rightarrow> string" where
  "awaitMessage a wait waiting unfinished allDone =
     (if Enabled a then
        (let timeout = (if ac_Timeout a = '''' then DefaultWaitTimeout else ac_Timeout a);
             late = length (filter (\<lambda>n. wait n timeout \<noteq> None) waiting)
         in if late > 0
            then ''; '' @ show_nat late @ '' of '' @ show_nat (length waiting) @ '' NodePool(s) '' @ unfinished @
                 '' after '' @ timeout @ '' timeout''
            else ''; '' @ allDone)
      else '''')"

section \<open>Waiting\<close>

definition waitForNodePoolDeleted :: "(nat res) waitRun \<Rightarrow> string \<Rightarrow> string \<Rightarrow> go_error option" where
  "waitForNodePoolDeleted r name timeout =
     waitFor (Wrap ''create waiter: '') timeout (''NodePool '' @ name @ '' nodes to be deleted'')
       (\<lambda>x. case x of
          Inl e \<Rightarrow> Inl (Wrap ''list nodes: '' e)
        | Inr n \<Rightarrow> Inr (if n = 0 then (True, ''all nodes deleted'')
                       else (False, show_nat n @ '' node(s) still exist, waiting for deletion''))) r"

definition nestedString :: "(string \<times> json) list \<Rightarrow> string \<Rightarrow> string" where
  "nestedString m k = (case map_of m k of Some (JStr s) \<Rightarrow> s | _ \<Rightarrow> '''')"

fun readyStatus :: "json list \<Rightarrow> bool \<times> string" where
  "readyStatus [] = (False, ''Ready condition not yet found'')"
| "readyStatus (c # cs) =
     (case c of
        JObj m \<Rightarrow>
          if nestedString m ''type'' \<noteq> ''Ready'' then readyStatus cs
          else if nestedString m ''status'' = ''True'' then (True, ''Ready (reason: '' @ nestedString m ''reason'' @ '')'')
          else (False, ''not ready: '' @ nestedString m ''reason'' @ '' - '' @ nestedString m ''message'')
      | _ \<Rightarrow> readyStatus cs)"

text \<open>An observation is the field \<open>status.conditions\<close> of the NodePool, if it has one.\<close>

definition waitForNodePoolReady :: "((json option) res) waitRun \<Rightarrow> string \<Rightarrow> string \<Rightarrow> go_error option" where
  "waitForNodePoolReady r name timeout =
     waitFor (Wrap ''create waiter: '') timeout (''NodePool '' @ name @ '' to be ready'')
       (\<lambda>x. case x of
          Inl e \<Rightarrow> Inl (Wrap ''get NodePool: '' e)
        | Inr cs \<Rightarrow> (case cs of
                       None \<Rightarrow> Inr (False, ''no conditions available'')
                     | Some (JArr l) \<Rightarrow> Inr (if l = [] then (False, ''no conditions available'') else readyStatus l)
                     | Some _ \<Rightarrow> Inl (Wrap ''get conditions: '' (ErrMsg ''accessor error'')))) r"

section \<open>The operations\<close>

datatype operationOutcome = OutcomeApplied | OutcomeSkippedStale

type_synonym progress = "operationStats \<times> string list"

definition advance :: "operationOutcome \<Rightarrow> bool \<Rightarrow> string \<Rightarrow> progress \<Rightarrow> progress" where
  "advance outcome awaited name p =
     (case outcome of
        OutcomeApplied \<Rightarrow> ((fst p)\<lparr>applied := applied (fst p) + 1\<rparr>, if awaited then snd p @ [name] else snd p)
      | OutcomeSkippedStale \<Rightarrow> ((fst p)\<lparr>skippedStale := skippedStale (fst p) + 1\<rparr>, snd p))"

definition scaleDownNodePool :: "'w KarpenterClient \<Rightarrow> string \<Rightarrow> 'w \<Rightarrow> operationOutcome res \<times> (string \<times> json) list \<times> 'w" where
  "scaleDownNodePool c name w =
     (case GetNodePool c name w of
        Inl e \<Rightarrow> (if is_not_found e then Inr OutcomeSkippedStale else Inl (Wrap ''get NodePool: '' e), [], w)
      | Inr obj \<Rightarrow>
          (case no_Spec obj of
             Some (JObj m) \<Rightarrow>
               (case DeleteNodePool c name w of
                  (Some e, w') \<Rightarrow> (if is_not_found e then Inr OutcomeSkippedStale else Inl (Wrap ''delete NodePool: '' e), [], w')
                | (None, w') \<Rightarrow>
                    (Inr OutcomeApplied, [(name, encodeNodePool \<lparr>ns_Name = name, ns_Spec = Some m, ns_Labels = no_Labels obj\<rparr>)], w'))
           | None \<Rightarrow> (Inl (ErrMsg ''get NodePool spec: %!w(<nil>)''), [], w)
           | Some _ \<Rightarrow> (Inl (Wrap ''get NodePool spec: '' (ErrMsg ''accessor error'')), [], w)))"

definition restoreNodePool :: "'w KarpenterClient \<Rightarrow> string \<Rightarrow> NodePoolState \<Rightarrow> 'w \<Rightarrow> operationOutcome res \<times> 'w" where
  "restoreNodePool c name state w =
     (case CreateNodePool c name (ns_Spec state) (ns_Labels state) w of
        (Created, w') \<Rightarrow> (Inr OutcomeApplied, w')
      | (AlreadyExists, w') \<Rightarrow> (Inr OutcomeSkippedStale, w')
      | (CreateError e, w') \<Rightarrow> (Inl (Wrap ''create NodePool: '' e), w'))"

definition listAllNodePools :: "'w KarpenterClient \<Rightarrow> 'w \<Rightarrow> (string list) res" where
  "listAllNodePools c w = (case ListNodePools c '''' w of Inl e \<Rightarrow> Inl (Wrap ''list NodePools: '' e) | Inr ns \<Rightarrow> Inr ns)"

definition listNodePoolsBySelector :: "'w KarpenterClient \<Rightarrow> string \<Rightarrow> 'w \<Rightarrow> (string list) res" where
  "listNodePoolsBySelector c sel w = (case ListNodePools c sel w of Inl e \<Rightarrow> Inl (Wrap ''list NodePools by selector: '' e) | Inr ns \<Rightarrow> Inr ns)"

definition targetNodePools :: "'w KarpenterEnv \<Rightarrow> 'w KarpenterClient \<Rightarrow> KarpenterParameters \<Rightarrow> 'w \<Rightarrow> (string list) res" where
  "targetNodePools e c params w =
     (case NodeSelector params of
        Some ls \<Rightarrow>
          (case selectorString e ls of
             Inl er \<Rightarrow> Inl (Wrap ''invalid nodeSelector: '' er)
           | Inr sel \<Rightarrow> (case listNodePoolsBySelector c sel w of
                           Inl er \<Rightarrow> Inl (Wrap ''list NodePools by selector: '' er) | Inr ns \<Rightarrow> Inr ns))
      | None \<Rightarrow>
          if ka_NodePools params = [] then
            (case listAllNodePools c w of Inl er \<Rightarrow> Inl (Wrap ''list all NodePools: '' er) | Inr ns \<Rightarrow> Inr ns)
          else Inr (ka_NodePools params))"

definition scaleStep :: "'w KarpenterClient \<Rightarrow> KarpenterParameters \<Rightarrow> string \<Rightarrow> progress \<Rightarrow> 'w \<Rightarrow>
    progress res \<times> (string \<times> json) list \<times> 'w" where
  "scaleStep c params name p w =
     (case scaleDownNodePool c name w of
        (Inl e, reps, w') \<Rightarrow> (Inl (Wrap (''scale down NodePool '' @ name @ '': '') e), reps, w')
      | (Inr outcome, reps, w') \<Rightarrow> (Inr (advance outcome (Enabled (ka_AwaitCompletion params)) name p), reps, w'))"

definition restoreStep :: "'w KarpenterClient \<Rightarrow> KarpenterParameters \<Rightarrow> string \<times> json \<Rightarrow> progress \<Rightarrow> 'w \<Rightarrow> progress res \<times> 'w" where
  "restoreStep c params entry p w =
     (case entry of (name, stateBytes) \<Rightarrow>
        (case decodeNodePool stateBytes of
           Inl e \<Rightarrow> (Inl (Wrap (''unmarshal NodePool state '' @ name @ '': '') e), w)
         | Inr state \<Rightarrow>
             (case restoreNodePool c name state w of
                (Inl e, w') \<Rightarrow> (Inl (Wrap (''restore NodePool '' @ name @ '': '') e), w')
              | (Inr outcome, w') \<Rightarrow> (Inr (advance outcome (Enabled (ka_AwaitCompletion params)) name p), w'))))"

definition Shutdown :: "'w KarpenterEnv \<Rightarrow> 'w shutdown_fn" where
  "Shutdown e w =
     (case parseParams (ka_libs e) (sp_Parameters (ka_spec e)) of
        Inl er \<Rightarrow> (Inl (Wrap ''parse parameters: '' er), [], w)
      | Inr params \<Rightarrow>
     (case clientFactory e (sp_K8S (ka_spec e)) of
        Inl er \<Rightarrow> (Inl (Wrap ''build kubernetes client: '' er), [], w)
      | Inr c \<Rightarrow>
     (case targetNodePools e c params w of
        Inl er \<Rightarrow> (Inl er, [], w)
      | Inr names \<Rightarrow>
          if names = [] then (Inr ''shutdown completed for Karpenter (no NodePools found)'', [], w)
          else (case forEach (scaleStep c params) names (\<lparr>processed = length names, applied = 0, skippedStale = 0\<rparr>, []) w of
                  (Inl er, reps, w') \<Rightarrow> (Inl er, reps, w')
                | (Inr (st, waiting), reps, w') \<Rightarrow>
                    (Inr (formatShutdownMessage st @
                          awaitMessage (ka_AwaitCompletion params) (\<lambda>n. waitForNodePoolDeleted (nodeLists e n) n) waiting
                            ''still have nodes'' ''all nodes terminated''), reps, w')))))"

definition WakeUp :: "'w KarpenterEnv \<Rightarrow> 'w wakeup_fn" where
  "WakeUp e restore w =
     (if xr_Data restore = [] then (Inr ''wakeup completed for Karpenter (no restore data)'', w)
      else (case parseParams (ka_libs e) (sp_Parameters (ka_spec e)) of
        Inl er \<Rightarrow> (Inl (Wrap ''parse parameters: '' er), w)
      | Inr params \<Rightarrow>
     (case clientFactory e (sp_K8S (ka_spec e)) of
        Inl er \<Rightarrow> (Inl (Wrap ''build kubernetes client: '' er), w)
      | Inr c \<Rightarrow>
     (case forRestore (restoreStep c params) (xr_Data restore)
             (\<lparr>processed = length (xr_Data restore), applied = 0, skippedStale = 0\<rparr>, []) w of
        (Inl er, w') \<Rightarrow> (Inl er, w')
      | (Inr (st, waiting), w') \<Rightarrow>
          (Inr (formatWakeUpMessage st @
                awaitMessage (ka_AwaitCompletion params) (\<lambda>n. waitForNodePoolReady (conditionFields e n) n) waiting
                  ''not yet ready'' ''all NodePools ready''), w')))))"

section \<open>The laws\<close>

text \<open>
  What the laws need of the cluster, for its NodePools \<open>truth\<close>: a NodePool that is returned is the one
  that exists, a deletion or creation that succeeds changes exactly its NodePool, a failed one none,
  and the errors for missing and existing NodePools are true.
\<close>

definition kar_client_ok :: "('w \<Rightarrow> string \<Rightarrow> NodePool option) \<Rightarrow> 'w KarpenterClient \<Rightarrow> bool" where
  "kar_client_ok truth c \<longleftrightarrow>
     (\<forall>n w. case GetNodePool c n w of
        Inr obj \<Rightarrow> (\<exists>p. truth w n = Some p \<and> no_Spec obj = Some (JObj (np_Spec p)) \<and> no_Labels obj = np_Labels p)
      | Inl e \<Rightarrow> is_not_found e \<longrightarrow> truth w n = None) \<and>
     (\<forall>n w. case DeleteNodePool c n w of
        (None, w') \<Rightarrow> truth w' = (truth w)(n := None)
      | (Some e, w') \<Rightarrow> truth w' = truth w \<and> (is_not_found e \<longrightarrow> truth w n = None)) \<and>
     (\<forall>n s l w. case CreateNodePool c n s l w of
        (Created, w') \<Rightarrow> truth w' = (truth w)(n \<mapsto> \<lparr>np_Spec = (case s of None \<Rightarrow> [] | Some m \<Rightarrow> m), np_Labels = l, np_Annotations = []\<rparr>)
      | (AlreadyExists, w') \<Rightarrow> truth w' = truth w \<and> truth w n \<noteq> None
      | (CreateError e, w') \<Rightarrow> truth w' = truth w)"

definition kar_ok :: "('w \<Rightarrow> string \<Rightarrow> NodePool option) \<Rightarrow> 'w KarpenterEnv \<Rightarrow> bool" where
  "kar_ok truth e \<longleftrightarrow>
     (\<forall>p c. parseParams (ka_libs e) (sp_Parameters (ka_spec e)) = Inr p \<longrightarrow> clientFactory e (sp_K8S (ka_spec e)) = Inr c \<longrightarrow>
        kar_client_ok truth c \<and> (\<forall>w ns. targetNodePools e c p w = Inr ns \<longrightarrow> distinct ns))"

text \<open>The parts of a NodePool that the executor brings back.\<close>

type_synonym manifest = "(string \<times> json) list \<times> (string \<times> string) list"

definition kar_cell :: "('w \<Rightarrow> string \<Rightarrow> NodePool option) \<Rightarrow> 'w \<Rightarrow> string \<Rightarrow> manifest option" where
  "kar_cell truth w n = map_option (\<lambda>p. (np_Spec p, np_Labels p)) (truth w n)"

definition kar_on :: "manifest option \<Rightarrow> bool" where "kar_on x \<longleftrightarrow> x \<noteq> None"

definition kar_off :: "manifest option \<Rightarrow> manifest option" where "kar_off x = None"

definition kar_codes :: "string \<Rightarrow> manifest option \<Rightarrow> json \<Rightarrow> bool" where
  "kar_codes k x v \<longleftrightarrow> (\<exists>m l. x = Some (m, l) \<and> v = encodeNodePool \<lparr>ns_Name = k, ns_Spec = Some m, ns_Labels = l\<rparr>)"

lemma jlabels_encode: "jlabels (encodeLabels ls) = Inr ls"
  unfolding jlabels_def encodeLabels_def by (simp, induction ls) auto

lemma decode_encode_NodePool: "decodeNodePool (encodeNodePool s) = Inr s" if "ns_Spec s = Some m"
proof -
  have "encodeLabels ls \<noteq> JNull" for ls by (simp add: encodeLabels_def)
  then show ?thesis
    using that by (cases "ns_Labels s = []")
      (simp_all add: decodeNodePool_def encodeNodePool_def jmembers_def decodeField_def fieldValues_def EqualFold_def
        ToUpper_def to_upper_def jlabels_encode jmap_def)
qed

lemma demanded_NodePool [simp]: "\<not> demanded (encodeNodePool s)"
  by (simp add: demanded_def encodeNodePool_def isDemandedState_def jsonTrue_def)

lemma kar_get:
  assumes "kar_client_ok truth c"
  shows "case GetNodePool c n w of
        Inr obj \<Rightarrow> (\<exists>p. truth w n = Some p \<and> no_Spec obj = Some (JObj (np_Spec p)) \<and> no_Labels obj = np_Labels p)
      | Inl e \<Rightarrow> is_not_found e \<longrightarrow> truth w n = None"
  by (rule assms [unfolded kar_client_ok_def, THEN conjunct1, THEN spec, THEN spec])

lemma kar_delete:
  assumes "kar_client_ok truth c"
  shows "case DeleteNodePool c n w of
        (None, w') \<Rightarrow> truth w' = (truth w)(n := None)
      | (Some e, w') \<Rightarrow> truth w' = truth w \<and> (is_not_found e \<longrightarrow> truth w n = None)"
  by (rule assms [unfolded kar_client_ok_def, THEN conjunct2, THEN conjunct1, THEN spec, THEN spec])

lemma kar_create:
  assumes "kar_client_ok truth c"
  shows "case CreateNodePool c n s l w of
        (Created, w') \<Rightarrow> truth w' = (truth w)(n \<mapsto> \<lparr>np_Spec = (case s of None \<Rightarrow> [] | Some m \<Rightarrow> m), np_Labels = l, np_Annotations = []\<rparr>)
      | (AlreadyExists, w') \<Rightarrow> truth w' = truth w \<and> truth w n \<noteq> None
      | (CreateError e, w') \<Rightarrow> truth w' = truth w"
  by (rule assms [unfolded kar_client_ok_def, THEN conjunct2, THEN conjunct2, THEN spec, THEN spec, THEN spec, THEN spec])

text \<open>One NodePool: left alone, or deleted with its report.\<close>

lemma scaleStep_effect:
  assumes c: "kar_client_ok truth c" and r: "scaleStep c params n p w = (r, reps, w')"
  shows "reps = [] \<and> truth w' = truth w \<and> ((\<exists>x. r = Inr x) \<longrightarrow> truth w n = None) \<or>
    (\<exists>q. truth w n = Some q \<and> truth w' = (truth w)(n := None) \<and>
       reps = [(n, encodeNodePool \<lparr>ns_Name = n, ns_Spec = Some (np_Spec q), ns_Labels = np_Labels q\<rparr>)])"
proof (cases "GetNodePool c n w")
  case (Inl e)
  then show ?thesis using r kar_get [OF c, where n = n and w = w] by (auto simp: scaleStep_def scaleDownNodePool_def split: if_splits)
next
  case (Inr obj)
  with kar_get [OF c, where n = n and w = w] obtain q where q: "truth w n = Some q" "no_Spec obj = Some (JObj (np_Spec q))"
      "no_Labels obj = np_Labels q" by auto
  obtain er w1 where d: "DeleteNodePool c n w = (er, w1)" by fastforce
  show ?thesis
    using r Inr q d kar_delete [OF c, where n = n and w = w]
    by (cases er) (auto simp: scaleStep_def scaleDownNodePool_def split: if_splits)
qed

lemma kar_scaleStep_down:
  assumes "kar_client_ok truth c" "scaleStep c params n p w = (r, reps, w')"
  shows "down_step (kar_cell truth) kar_on kar_off kar_codes {n} w reps w'"
  using scaleStep_effect [OF assms]
  by (elim disjE exE conjE) (auto simp: down_step_def kar_cell_def kar_on_def kar_off_def kar_codes_def)

lemma kar_restoreStep_up:
  assumes c: "kar_client_ok truth c" and r: "restoreStep c params (n, v) p w = (r, w')" and v: "kar_codes n (f n) v"
    and w: "kar_cell truth w n = f n \<or> kar_on (f n) \<and> kar_cell truth w n = kar_off (f n)"
  shows "up_step (kar_cell truth) f {n} w (\<exists>x. r = Inr x) w'"
proof -
  obtain m l where x: "f n = Some (m, l)" "decodeNodePool v = Inr \<lparr>ns_Name = n, ns_Spec = Some m, ns_Labels = l\<rparr>"
    using v by (auto simp: kar_codes_def decode_encode_NodePool)
  obtain o1 w1 where cr: "CreateNodePool c n (Some m) l w = (o1, w1)" by fastforce
  show ?thesis
    using r x cr w kar_create [OF c, where n = n and w = w and s = "Some m" and l = l]
    by (cases o1) (auto simp: restoreStep_def restoreNodePool_def up_step_def kar_cell_def kar_off_def split: if_splits)
qed

section \<open>The executor contract\<close>

text \<open>The NodePools a shutdown is about.\<close>

definition kar_targets :: "'w KarpenterEnv \<Rightarrow> 'w \<Rightarrow> string set" where
  "kar_targets e w =
     (case parseParams (ka_libs e) (sp_Parameters (ka_spec e)) of
        Inl _ \<Rightarrow> {}
      | Inr p \<Rightarrow> (case clientFactory e (sp_K8S (ka_spec e)) of
                    Inl _ \<Rightarrow> {}
                  | Inr c \<Rightarrow> (case targetNodePools e c p w of Inl _ \<Rightarrow> {} | Inr ns \<Rightarrow> set ns)))"

lemma kar_Shutdown_loop:
  assumes "kar_ok truth e" "Shutdown e w = (r, reps, w')"
  shows "(reps = [] \<and> w' = w \<and> ((\<exists>m. r = Inr m) \<longrightarrow> kar_targets e w = {})) \<or>
    (\<exists>p c names s r'. parseParams (ka_libs e) (sp_Parameters (ka_spec e)) = Inr p \<and> kar_client_ok truth c \<and> distinct names \<and>
       kar_targets e w = set names \<and> forEach (scaleStep c p) names s w = (r', reps, w') \<and> (\<exists>m. r = Inr m) = (\<exists>m. r' = Inr m))"
proof (cases "\<exists>p c names. parseParams (ka_libs e) (sp_Parameters (ka_spec e)) = Inr p \<and>
    clientFactory e (sp_K8S (ka_spec e)) = Inr c \<and> targetNodePools e c p w = Inr names \<and> names \<noteq> []")
  case True
  then obtain p c names where h: "parseParams (ka_libs e) (sp_Parameters (ka_spec e)) = Inr p"
      "clientFactory e (sp_K8S (ka_spec e)) = Inr c" "targetNodePools e c p w = Inr names" "names \<noteq> []" by blast
  obtain r' reps' w1 where fe: "forEach (scaleStep c p) names (\<lparr>processed = length names, applied = 0, skippedStale = 0\<rparr>, []) w = (r', reps', w1)"
    by (rule prod_cases3)
  then have f: "forEach (scaleStep c p) names (\<lparr>processed = length names, applied = 0, skippedStale = 0\<rparr>, []) w = (r', reps, w')"
      "(\<exists>m. r = Inr m) = (\<exists>m. r' = Inr m)"
    using assms(2) h by (cases r'; auto simp: Shutdown_def split_beta)+
  have "kar_client_ok truth c" "distinct names" "kar_targets e w = set names"
    using assms(1) h by (auto simp: kar_ok_def kar_targets_def)
  with h(1) f show ?thesis by - (rule disjI2, (rule exI conjI | assumption)+)
next
  case False
  then show ?thesis
    using assms(2) by (cases "parseParams (ka_libs e) (sp_Parameters (ka_spec e))"; cases "clientFactory e (sp_K8S (ka_spec e))";
        cases "targetNodePools e (projr (clientFactory e (sp_K8S (ka_spec e)))) (projr (parseParams (ka_libs e) (sp_Parameters (ka_spec e)))) w")
      (auto simp: Shutdown_def kar_targets_def)
qed

lemma kar_Shutdown_down:
  assumes "kar_ok truth e" "Shutdown e w = (r, reps, w')"
  shows "\<exists>K. down_step (kar_cell truth) kar_on kar_off kar_codes K w reps w'"
  using kar_Shutdown_loop [OF assms]
proof (elim disjE exE conjE)
  fix p c names s r'
  assume c: "kar_client_ok truth c" "distinct names" "forEach (scaleStep c p) names s w = (r', reps, w')"
  have "down_step (kar_cell truth) kar_on kar_off kar_codes (id ` set names) w reps w'"
    by (rule forEach_down [OF _ _ c(3)]) (use c(2) kar_scaleStep_down [OF c(1)] in auto)
  then show ?thesis by blast
qed (use down_step_refl [of "kar_cell truth" kar_on kar_off kar_codes w] in auto)

lemma kar_Shutdown_stops:
  assumes "kar_ok truth e" "Shutdown e w = (Inr msg, reps, w')" "n \<in> kar_targets e w"
  shows "\<not> kar_on (kar_cell truth w' n)"
  using kar_Shutdown_loop [OF assms(1,2)]
proof (elim disjE exE conjE)
  fix p c names s r'
  assume c: "kar_client_ok truth c" "kar_targets e w = set names" "forEach (scaleStep c p) names s w = (r', reps, w')"
    and r: "(\<exists>m. Inr msg = Inr m) = (\<exists>m. r' = Inr m)"
  then obtain s' where fe: "forEach (scaleStep c p) names s w = (Inr s', reps, w')" by auto
  have "\<forall>n \<in> set names. truth w' n = None"
    by (rule forEach_all [OF _ _ fe]) (use scaleStep_effect [OF c(1)] in \<open>fastforce+\<close>)
  then show ?thesis using assms(3) c(2) by (simp add: kar_on_def kar_cell_def)
qed (use assms(3) in auto)

lemma kar_WakeUp_up:
  assumes ok: "kar_ok truth e" and wk: "WakeUp e rd w = (r, w')"
    and D: "\<forall>(k, v) \<in> set (xr_Data rd). kar_codes k (f k) v"
    and w: "\<forall>k. kar_cell truth w k = f k \<or> kar_on (f k) \<and> kar_cell truth w k = kar_off (f k)"
  shows "up_step (kar_cell truth) f (fst ` set (xr_Data rd)) w (\<exists>m. r = Inr m) w'"
proof (cases "xr_Data rd \<noteq> [] \<and> (\<exists>p c. parseParams (ka_libs e) (sp_Parameters (ka_spec e)) = Inr p \<and>
    clientFactory e (sp_K8S (ka_spec e)) = Inr c)")
  case True
  then obtain p c where h: "xr_Data rd \<noteq> []" "parseParams (ka_libs e) (sp_Parameters (ka_spec e)) = Inr p"
      "clientFactory e (sp_K8S (ka_spec e)) = Inr c" by blast
  let ?I = "\<lambda>w. \<forall>k. kar_cell truth w k = f k \<or> kar_on (f k) \<and> kar_cell truth w k = kar_off (f k)"
  have c: "kar_client_ok truth c" using ok h by (auto simp: kar_ok_def)
  have step: "up_step (kar_cell truth) f {fst x} w (\<exists>s'. r = Inr s') w' \<and> ?I w'"
    if "x \<in> set (xr_Data rd)" "restoreStep c p x s w = (r, w')" "?I w" for x s w r w'
  proof -
    have "kar_codes (fst x) (f (fst x)) (snd x)" using that(1) D by (auto simp: split_beta)
    from kar_restoreStep_up [where f = f, OF c _ this, where params = p and p = s and w = w and r = r and w' = w'] that(2,3)
    show ?thesis unfolding up_step_def prod.collapse by metis
  qed
  obtain s r' where "forRestore (restoreStep c p) (xr_Data rd) s w = (r', w')" "(\<exists>m. r = Inr m) = (\<exists>m. r' = Inr m)"
    using wk h by (auto simp: WakeUp_def split: prod.splits sum.splits)
  then show ?thesis using forRestore_up [of "xr_Data rd" "restoreStep c p" ?I "kar_cell truth" f fst s w r' w'] step w by auto
next
  case False
  then have "w' = w" "xr_Data rd = [] \<or> (\<forall>m. r \<noteq> Inr m)"
    using wk by (auto simp: WakeUp_def split: sum.splits if_splits)
  then show ?thesis by (auto simp: up_step_def)
qed

text \<open>A client whose creations go through: every NodePool that is missing can be created.\<close>

definition kar_good :: "'w KarpenterEnv \<Rightarrow> bool" where
  "kar_good e \<longleftrightarrow>
     (\<exists>p c. parseParams (ka_libs e) (sp_Parameters (ka_spec e)) = Inr p \<and> clientFactory e (sp_K8S (ka_spec e)) = Inr c \<and>
        (\<forall>n s l w er w'. CreateNodePool c n s l w \<noteq> (CreateError er, w')))"

lemma kar_restoreStep_succeeds:
  assumes "\<forall>n s l w er w'. CreateNodePool c n s l w \<noteq> (CreateError er, w')" "kar_codes n x v"
  shows "\<exists>p' w'. restoreStep c params (n, v) p w = (Inr p', w')"
proof -
  obtain m l where "decodeNodePool v = Inr \<lparr>ns_Name = n, ns_Spec = Some m, ns_Labels = l\<rparr>"
    using assms(2) by (auto simp: kar_codes_def decode_encode_NodePool)
  then show ?thesis
    using assms(1) by (cases "CreateNodePool c n (Some m) l w"; cases "fst (CreateNodePool c n (Some m) l w)")
      (auto simp: restoreStep_def restoreNodePool_def)
qed

interpretation kar: reliable_executor "kar_ok truth" Shutdown WakeUp "kar_cell truth" kar_on kar_off kar_codes kar_targets
    kar_good "\<lambda>_. True"
  for truth :: "'w \<Rightarrow> string \<Rightarrow> NodePool option"
proof unfold_locales
  show "\<not> kar_on (kar_off x)" for x by (simp add: kar_on_def kar_off_def)
  show "\<not> kar_on x \<Longrightarrow> kar_codes k x v \<Longrightarrow> \<not> demanded v" for x k v by (auto simp: kar_on_def kar_codes_def)
next
  fix e f and rd :: ExecRestoreData and w :: 'w
  let ?I = "\<lambda>w. \<forall>k. kar_cell truth w k = f k \<or> kar_on (f k) \<and> kar_cell truth w k = kar_off (f k)"
  assume h: "kar_ok truth e" "kar_good e" "\<forall>(k, v) \<in> set (xr_Data rd). kar_codes k (f k) v"
  from h(2) obtain p c where g: "parseParams (ka_libs e) (sp_Parameters (ka_spec e)) = Inr p"
      "clientFactory e (sp_K8S (ka_spec e)) = Inr c" "\<forall>n s l w er w'. CreateNodePool c n s l w \<noteq> (CreateError er, w')"
    unfolding kar_good_def by blast
  have step: "\<exists>s' w'. restoreStep c p x s w = (Inr s', w') \<and> True" if "x \<in> set (xr_Data rd)" for x s w
    using that h(3) kar_restoreStep_succeeds [OF g(3), of "fst x" "f (fst x)" "snd x" p s w] by (auto simp: split_beta)
  obtain s' w' where "forRestore (restoreStep c p) (xr_Data rd)
      (\<lparr>processed = length (xr_Data rd), applied = 0, skippedStale = 0\<rparr>, []) w = (Inr s', w')"
    using forRestore_succeeds [where I = "\<lambda>_. True" and f = "restoreStep c p", OF step] by blast
  then show "\<exists>msg w'. WakeUp e rd w = (Inr msg, w')" using g(1,2) by (cases s') (auto simp: WakeUp_def)
qed (rule kar_Shutdown_down kar_Shutdown_stops kar_WakeUp_up; assumption)+

text \<open>
  C21.  A hibernation cycle of a Karpenter target is a round trip.  The shutdown is attempted any number of times,
  each attempt ending where an error of the cluster stops it, and so is the wake-up; the first wake-up
  that succeeds leaves the cluster with the NodePools it had before the cycle, each
  with its spec and its labels, and a wake-up whose calls are answered does succeed.  This holds as long as no restore
  data is lost: every shutdown attempt that changed something, and the last one, saves its data (a
  failed flush is not reported, \<open>flush_failure_unreported\<close> in Runner).  Further, each NodePool
  is targeted once, a deletion that succeeds removes its NodePool at once (no finalizer holds it) and
  a creation adds exactly its NodePool, and a call that returns an error has changed nothing.
\<close>

theorem kar_cycle_roundtrip:
  assumes "rc_Operation cfg = ''shutdown''" "ss \<noteq> []"
    and "\<forall>a \<in> set ss. kar_ok truth (at_cfg a) \<and> (\<forall>i. proper_time (at_clock a i))" "saves_all cfg Shutdown WakeUp ss (w, st)"
    and "\<forall>a \<in> set (ws @ [a]). kar_ok truth (at_cfg a)" "new_cycle cfg st"
    and "s = attempts (wakeupOf cfg) Shutdown WakeUp ws (attempts cfg Shutdown WakeUp ss (w, st))"
  shows "(\<forall>msg w' st'. attemptOp (wakeupOf cfg) Shutdown WakeUp a s = (Inr msg, w', st') \<longrightarrow> kar_cell truth w' = kar_cell truth w) \<and>
    (kar_good (at_cfg a) \<and> get_err (at_api a) = None \<longrightarrow>
       (\<exists>msg w' st'. attemptOp (wakeupOf cfg) Shutdown WakeUp a s = (Inr msg, w', st')))"
  using kar.cycle_completes [OF assms] by simp

definition demoClient :: "bool \<Rightarrow> (string \<Rightarrow> NodePool option) KarpenterClient" where
  "demoClient broken =
     \<lparr>ListNodePools = (\<lambda>_ _. Inr [''spot'', ''gpu'']),
      GetNodePool = (\<lambda>n w. case w n of
         None \<Rightarrow> Inl (ApiError NotFound)
       | Some p \<Rightarrow> Inr \<lparr>no_Spec = Some (JObj (np_Spec p)), no_Labels = np_Labels p\<rparr>),
      DeleteNodePool = (\<lambda>n w.
         if broken \<and> n = ''gpu'' then (Some (ApiError (ApiFailure ''throttled'')), w)
         else if w n = None then (Some (ApiError NotFound), w) else (None, w(n := None))),
      CreateNodePool = (\<lambda>n s l w.
         if broken \<and> n = ''gpu'' then (CreateError (ApiError (ApiFailure ''throttled'')), w)
         else if w n \<noteq> None then (AlreadyExists, w)
         else (Created, w(n \<mapsto> \<lparr>np_Spec = (case s of None \<Rightarrow> [] | Some m \<Rightarrow> m), np_Labels = l, np_Annotations = []\<rparr>)))\<rparr>"

definition demoEnv :: "bool \<Rightarrow> KarpenterParameters \<Rightarrow> (string \<Rightarrow> NodePool option) KarpenterEnv" where
  "demoEnv broken params =
     \<lparr>ka_libs = demoLibs\<lparr>decodeKarpenter := (\<lambda>_. Inr params)\<rparr>, ka_spec = demoSpec,
      clientFactory = (\<lambda>_. Inr (demoClient broken)), selectorString = (\<lambda>_. Inr ''''),
      nodeLists = (\<lambda>_. \<lparr>seen = [], deadline = True\<rparr>), conditionFields = (\<lambda>_. \<lparr>seen = [], deadline = True\<rparr>)\<rparr>"

definition demoWorld :: "string \<Rightarrow> NodePool option" where
  "demoWorld = [''spot'' \<mapsto> \<lparr>np_Spec = [(''weight'', JNum ''10'')], np_Labels = [(''team'', ''a'')], np_Annotations = []\<rparr>,
     ''gpu'' \<mapsto> \<lparr>np_Spec = [], np_Labels = [], np_Annotations = [(''owner'', ''b'')]\<rparr>]"

abbreviation demoWhole :: "bool \<Rightarrow> (string \<Rightarrow> NodePool option) KarpenterEnv" where
  "demoWhole broken \<equiv> demoEnv broken zeroKarpenterParameters"

lemma kar_demo_client_ok: "kar_client_ok (\<lambda>w. w) (demoClient broken)"
  by (auto simp: kar_client_ok_def demoClient_def split: option.splits)

lemma kar_demo_ok: "kar_ok (\<lambda>w. w) (demoWhole broken)"
  using kar_demo_client_ok by (simp add: kar_ok_def demoEnv_def parseParams_def demoSpec_def targetNodePools_def
      zeroKarpenterParameters_def listAllNodePools_def) (simp add: demoClient_def)

lemma kar_demo_good: "kar_good (demoWhole False)"
  by (auto simp: kar_good_def demoEnv_def parseParams_def demoSpec_def demoClient_def)

text \<open>The first shutdown attempt deletes one NodePool and fails on the other.\<close>

theorem kar_cycle_roundtrip_witness:
  "\<exists>msg w' st'. attemptOp (wakeupOf (demoJob ''karpenter'')) Shutdown WakeUp (demoAttempt (demoWhole False))
      (attempts (wakeupOf (demoJob ''karpenter'')) Shutdown WakeUp [demoAttempt (demoWhole True)]
        (attempts (demoJob ''karpenter'') Shutdown WakeUp [demoAttempt (demoWhole True), demoAttempt (demoWhole False)]
          (demoWorld, None))) = (Inr msg, w', st') \<and> kar_cell (\<lambda>w. w) w' = kar_cell (\<lambda>w. w) demoWorld"
proof -
  let ?ss = "[demoAttempt (demoWhole True), demoAttempt (demoWhole False)]" and ?ws = "[demoAttempt (demoWhole True)]"
  have ok: "\<forall>a \<in> set ?ss. kar_ok (\<lambda>w. w) (at_cfg a) \<and> cm_reliable (at_api a) \<and> (\<forall>i. proper_time (at_clock a i))"
    "\<forall>a \<in> set (?ws @ [demoAttempt (demoWhole False)]). kar_ok (\<lambda>w. w) (at_cfg a)"
    using kar_demo_ok by simp_all
  from ok(1) have ok1: "\<forall>a \<in> set ?ss. kar_ok (\<lambda>w. w) (at_cfg a) \<and> (\<forall>i. proper_time (at_clock a i))" by blast
  note t = kar_cycle_roundtrip [OF demo_sel(1) _ ok1 kar.reliable_cycle_saves [OF demo_sel(1,2) ok(1)] ok(2) demo_sel(2) refl, of "''karpenter''" "demoWorld"]
  with kar_demo_good show ?thesis by (simp only: demo_sel simp_thms) blast
qed

section \<open>An empty selector\<close>

text \<open>
  An empty \<open>nodeSelector\<close> beside named NodePools is accepted by \<open>Validate\<close>, which only looks for a
  non-empty one, but it takes precedence: the shutdown deletes whatever the empty selector lists.
\<close>

definition emptySelectorParams :: KarpenterParameters where
  "emptySelectorParams = \<lparr>ka_NodePools = [''spot''], NodeSelector = Some \<lparr>ls_MatchLabels = [], ls_MatchExpressions = []\<rparr>,
     ka_AwaitCompletion = \<lparr>Enabled = False, ac_Timeout = ''''\<rparr>\<rparr>"

definition demoConnected :: Spec where
  "demoConnected = demoSpec\<lparr>sp_K8S := Some \<lparr>kc_ClusterName = ''c'', kc_Region = ''r'', Kubeconfig = [], ClusterEndpoint = [],
     ClusterCAData = [], UseEKSToken = False, kc_AWS = None\<rparr>\<rparr>"

lemma kar_empty_selector_deletes_all:
  "Validate ((demoEnv False emptySelectorParams)\<lparr>ka_spec := demoConnected\<rparr>) = None"
  "snd (snd (Shutdown ((demoEnv False emptySelectorParams)\<lparr>ka_spec := demoConnected\<rparr>) demoWorld)) ''gpu'' = None"
  by (simp_all add: Validate_def Shutdown_def demoEnv_def demoConnected_def demoSpec_def parseParams_def emptySelectorParams_def
      targetNodePools_def listNodePoolsBySelector_def demoClient_def demoWorld_def scaleStep_def scaleDownNodePool_def advance_def)

end
