(* ===== verification/GoSpace.thy ===== *)
theory GoSpace
  imports Prelude
begin

text \<open>Go's \<open>strings.TrimSpace\<close> on byte strings: ASCII white space is cut at both ends.\<close>

definition isSpaceChar :: "char \<Rightarrow> bool" where
  "isSpaceChar c \<longleftrightarrow> c = CHR '' '' \<or> c \<in> {CHR 0x09, CHR 0x0A, CHR 0x0B, CHR 0x0C, CHR 0x0D}"

definition TrimSpace :: "string \<Rightarrow> string" where
  "TrimSpace s = rev (dropWhile isSpaceChar (rev (dropWhile isSpaceChar s)))"

lemma TrimSpace_Nil [simp]: "TrimSpace [] = []" by (simp add: TrimSpace_def)

lemma TrimSpace_idem [simp]: "TrimSpace (TrimSpace s) = TrimSpace s"
proof -
  let ?u = "dropWhile isSpaceChar s"
  let ?t = "rev (dropWhile isSpaceChar (rev ?u))"
  obtain w where w: "?u = ?t @ w" by (metis rev_append rev_rev_ident takeWhile_dropWhile_id)
  have "dropWhile isSpaceChar ?t = ?t"
  proof (cases ?t)
    case (Cons x xs)
    then have "hd ?u = x" "?u \<noteq> []" using w by (metis append_Cons list.sel(1), metis append_is_Nil_conv list.simps(3))
    then have "\<not> isSpaceChar x" using hd_dropWhile by metis
    then show ?thesis using Cons by simp
  next
    case Nil
    then show ?thesis by (simp only: dropWhile.simps)
  qed
  then show ?thesis by (simp add: TrimSpace_def)
qed

end
