(* ===== verification/Connector.thy ===== *)
theory Connector
  imports Karpenter GoSpace
begin

text \<open>
  How the runner finds its executor and its connector: the factory registry
  (\<^verbatim>\<open>cmd/runner/app/factory.go\<close>) and the executor registry (\<^verbatim>\<open>internal/executor/interface.go\<close>), the
  configuration built from \<open>CloudProvider\<close>, \<open>K8SCluster\<close> and \<open>Secret\<close> objects
  (\<^verbatim>\<open>cmd/runner/metadata/builder.go\<close>), the spec of a run (\<^verbatim>\<open>runner.go\<close>), and the Kubernetes client
  configuration with its token source (\<^verbatim>\<open>pkg/k8sutil\<close>).
\<close>

section \<open>Executor registry\<close>

type_synonym 'x registry = "string \<rightharpoonup> 'x"

definition Register :: "('x \<Rightarrow> string) \<Rightarrow> 'x \<Rightarrow> 'x registry \<Rightarrow> 'x registry" where
  "Register Typ x r = r(Typ x \<mapsto> x)"

definition Get :: "'x registry \<Rightarrow> string \<Rightarrow> 'x option" where "Get r typ = r typ"

definition registrations :: "(string \<times> bool) list" where
  "registrations = [(''eks'', True), (''rds'', True), (''ec2'', True), (''karpenter'', True), (''gke'', False),
     (''cloudsql'', False), (''workloadscaler'', True), (''noop'', True)]"

text \<open>\<open>env\<close> is the value of \<open>HIBERNATOR_ACTIVE_EXECUTORS\<close>, empty when it is not set.\<close>

definition resolveEnabledExecutors :: "string \<Rightarrow> string \<rightharpoonup> bool" where
  "resolveEnabledExecutors env =
     (if env = '''' then map_of registrations
      else fold (\<lambda>name en. if TrimSpace name \<in> fst ` set registrations then en(TrimSpace name \<mapsto> True) else en)
             (split_on CHR '','' env) (map_of (map (\<lambda>(n, _). (n, False)) registrations)))"

definition registerTo :: "string \<Rightarrow> (string \<Rightarrow> 'x) \<Rightarrow> ('x \<Rightarrow> string) \<Rightarrow> 'x registry \<Rightarrow> 'x registry" where
  "registerTo env factory Typ r =
     fold (\<lambda>(name, _) r. if resolveEnabledExecutors env name = Some True then Register Typ (factory name) r else r) registrations r"

lemma enabled_listed:
  "fold (\<lambda>name en. if TrimSpace name \<in> A then en(TrimSpace name \<mapsto> True) else en) xs en k =
     (if k \<in> A \<and> k \<in> TrimSpace ` set xs then Some True else en k)"
  by (induction xs arbitrary: en) auto

lemma fold_register:
  assumes "\<forall>n. Typ (factory n) = n"
  shows "fold (\<lambda>(name, _) r. if P name then Register Typ (factory name) r else r) xs r k =
     (if P k \<and> k \<in> fst ` set xs then Some (factory k) else r k)"
  using assms by (induction xs arbitrary: r) (auto simp: Register_def)

text \<open>
  The registry serves exactly the enabled executors: those enabled by default, or with the
  environment variable set, the known ones among its comma-separated, trimmed entries.
\<close>

lemma registry_serves_enabled:
  assumes "\<forall>n. Typ (factory n) = n"
  shows "Get (registerTo env factory Typ Map.empty) typ =
     (if typ \<in> fst ` set registrations \<and>
         (if env = '''' then (typ, True) \<in> set registrations else typ \<in> TrimSpace ` set (split_on CHR '','' env))
      then Some (factory typ) else None)"
proof (cases "env = ''''")
  case True
  have "distinct (map fst registrations)" by (simp add: registrations_def)
  then show ?thesis using True
    by (simp add: Get_def registerTo_def fold_register [where Typ = Typ and factory = factory, OF assms] resolveEnabledExecutors_def)
next
  case False
  have "map_of (map (\<lambda>(n, _). (n, False)) registrations) typ \<noteq> Some True" by (auto dest!: map_of_SomeD)
  then show ?thesis using False
    by (auto simp: Get_def registerTo_def fold_register [where Typ = Typ and factory = factory, OF assms] resolveEnabledExecutors_def enabled_listed)
qed

section \<open>Connector resources\<close>

record Ref =
  rf_Name :: string
  rf_Namespace :: string

record AWSConfig =
  pa_AccountId :: string
  pa_Region :: string
  pa_AssumeRoleArn :: string
  pa_Static :: "Ref option"

record CloudProvider =
  cp_Namespace :: string
  cp_Type :: string
  cp_AWS :: "AWSConfig option"

record EKSConfig =
  ec_Name :: string
  ec_Region :: string

record GKEConfig =
  gc_Name :: string
  gc_Project :: string
  gc_Location :: string

record K8SAccessConfig =
  KubeconfigRef :: "Ref option"
  InCluster :: bool

record K8SCluster =
  kl_Namespace :: string
  kl_ProviderRef :: "Ref option"
  kl_EKS :: "EKSConfig option"
  kl_GKE :: "GKEConfig option"
  kl_K8S :: "K8SAccessConfig option"

type_synonym Secret = "(string \<times> string) list"

text \<open>A described EKS cluster: endpoint and, if present, certificate authority with its data.\<close>

record ClusterInfo =
  ci_Endpoint :: string
  ci_Authority :: "string option"

record BuilderClients =
  bc_provider :: "string \<Rightarrow> string \<Rightarrow> CloudProvider res"
  bc_cluster :: "string \<Rightarrow> string \<Rightarrow> K8SCluster res"
  bc_secret :: "string \<Rightarrow> string \<Rightarrow> Secret res"
  bc_load :: load_default
  bc_describe :: "SdkConfig \<Rightarrow> string \<Rightarrow> (ClusterInfo option) res"

section \<open>The configuration builder\<close>

definition resolveNamespace :: "string \<Rightarrow> string \<Rightarrow> string" where
  "resolveNamespace defaultNamespace override = (if override \<noteq> '''' then override else defaultNamespace)"

definition dataOf :: "Secret \<Rightarrow> string \<Rightarrow> string" where
  "dataOf s k = (case map_of s k of None \<Rightarrow> '''' | Some v \<Rightarrow> v)"

definition getCloudProvider :: "BuilderClients \<Rightarrow> string \<Rightarrow> string \<Rightarrow> CloudProvider res" where
  "getCloudProvider b ns name = (case bc_provider b ns name of Inl e \<Rightarrow> Inl (Wrap ''get CloudProvider: '' e) | Inr p \<Rightarrow> Inr p)"

definition getSecret :: "BuilderClients \<Rightarrow> string \<Rightarrow> string \<Rightarrow> Secret res" where
  "getSecret b ns name =
     (case bc_secret b ns name of Inl e \<Rightarrow> Inl (Wrap (''get Secret '' @ ns @ ''/'' @ name @ '': '') e) | Inr s \<Rightarrow> Inr s)"

definition buildAWSConnectorConfig :: "BuilderClients \<Rightarrow> CloudProvider \<Rightarrow> AWSConnectorConfig res" where
  "buildAWSConnectorConfig b p =
     (if cp_Type p \<noteq> ''aws'' then Inl (ErrMsg (''unsupported cloud provider type: '' @ cp_Type p))
      else (case cp_AWS p of
        None \<Rightarrow> Inl (ErrMsg ''AWS config is required'')
      | Some a \<Rightarrow>
          (let cfg = \<lparr>aw_Region = pa_Region a, AccountID = pa_AccountId a, AssumeRoleArn = pa_AssumeRoleArn a,
                      AccessKeyID = '''', SecretAccessKey = '''', SessionToken = ''''\<rparr>
           in case pa_Static a of
                None \<Rightarrow> Inr cfg
              | Some ref \<Rightarrow>
                  (case getSecret b (resolveNamespace (cp_Namespace p) (rf_Namespace ref)) (rf_Name ref) of
                     Inl e \<Rightarrow> Inl e
                   | Inr s \<Rightarrow>
                       (let accessKeyID = dataOf s ''AWS_ACCESS_KEY_ID''; secretAccessKey = dataOf s ''AWS_SECRET_ACCESS_KEY''
                        in if accessKeyID = '''' \<or> secretAccessKey = ''''
                           then Inl (ErrMsg ''AWS static credentials must include AWS_ACCESS_KEY_ID and AWS_SECRET_ACCESS_KEY'')
                           else Inr (cfg\<lparr>AccessKeyID := accessKeyID, SecretAccessKey := secretAccessKey,
                                        SessionToken := dataOf s ''AWS_SESSION_TOKEN''\<rparr>))))))"

definition loadCloudProviderConfig :: "BuilderClients \<Rightarrow> string \<Rightarrow> string \<Rightarrow> AWSConnectorConfig res" where
  "loadCloudProviderConfig b ns name =
     (case getCloudProvider b ns name of Inl e \<Rightarrow> Inl e | Inr p \<Rightarrow> buildAWSConnectorConfig b p)"

definition emptyK8S :: K8SConnectorConfig where
  "emptyK8S = \<lparr>kc_ClusterName = '''', kc_Region = '''', Kubeconfig = '''', ClusterEndpoint = '''', ClusterCAData = '''',
     UseEKSToken = False, kc_AWS = None\<rparr>"

text \<open>The EKS branch of \<open>loadK8SClusterConfig\<close>; a missing certificate authority is dereferenced.\<close>

definition loadEKSCluster :: "BuilderClients \<Rightarrow> K8SCluster \<Rightarrow> EKSConfig \<Rightarrow> K8SConnectorConfig res" where
  "loadEKSCluster b cluster eks =
     (case kl_ProviderRef cluster of
        None \<Rightarrow> Inl (ErrMsg ''providerRef is required for EKS clusters'')
      | Some ref \<Rightarrow>
     (case getCloudProvider b (resolveNamespace (kl_Namespace cluster) (rf_Namespace ref)) (rf_Name ref) of
        Inl e \<Rightarrow> Inl e
      | Inr provider \<Rightarrow>
     (case buildAWSConnectorConfig b provider of
        Inl e \<Rightarrow> Inl e
      | Inr awsCfg0 \<Rightarrow>
     (let awsCfg = (if ec_Region eks \<noteq> '''' then awsCfg0\<lparr>aw_Region := ec_Region eks\<rparr> else awsCfg0)
      in case BuildAWSConfig (bc_load b) (Some awsCfg) of
           Inl e \<Rightarrow> Inl e
         | Inr sdk \<Rightarrow>
     (case bc_describe b sdk (ec_Name eks) of
        Inl e \<Rightarrow> Inl (Wrap ''describe EKS cluster: '' e)
      | Inr None \<Rightarrow> Inl (ErrMsg (''EKS cluster '' @ ec_Name eks @ '' not found''))
      | Inr (Some info) \<Rightarrow>
          if ci_Endpoint info = '''' then Inl (ErrMsg ''EKS cluster endpoint not available'')
          else (case ci_Authority info of
                  None \<Rightarrow> Inl Panic
                | Some ca \<Rightarrow>
                    if ca = '''' then Inl (ErrMsg ''EKS cluster certificate authority data missing'')
                    else (case DecodeString ca of
                            Inl e \<Rightarrow> Inl (Wrap ''decode EKS certificate authority data: '' e)
                          | Inr decodedCA \<Rightarrow>
                              Inr (emptyK8S\<lparr>kc_ClusterName := ec_Name eks, kc_Region := ec_Region eks,
                                     ClusterEndpoint := ci_Endpoint info, ClusterCAData := decodedCA,
                                     UseEKSToken := True, kc_AWS := Some awsCfg\<rparr>))))))))"

definition loadK8SClusterConfig :: "BuilderClients \<Rightarrow> string \<Rightarrow> string \<Rightarrow> (K8SConnectorConfig option) res" where
  "loadK8SClusterConfig b ns name =
     (case bc_cluster b ns name of
        Inl e \<Rightarrow> Inl (Wrap ''get K8SCluster: '' e)
      | Inr cluster \<Rightarrow>
          (case (kl_EKS cluster, kl_K8S cluster) of
             (Some _, Some _) \<Rightarrow> Inl (ErrMsg ''spec.eks and spec.k8s are mutually exclusive'')
           | (Some eks, None) \<Rightarrow> (case loadEKSCluster b cluster eks of Inl e \<Rightarrow> Inl e | Inr c \<Rightarrow> Inr (Some c))
           | (None, Some k) \<Rightarrow>
               if InCluster k then Inr (Some emptyK8S)
               else (case KubeconfigRef k of
                       Some ref \<Rightarrow>
                         (let sns = resolveNamespace (kl_Namespace cluster) (rf_Namespace ref)
                          in case getSecret b sns (rf_Name ref) of
                               Inl e \<Rightarrow> Inl e
                             | Inr s \<Rightarrow>
                                 if dataOf s ''kubeconfig'' = ''''
                                 then Inl (ErrMsg (''kubeconfig secret '' @ sns @ ''/'' @ rf_Name ref @ '' missing kubeconfig key''))
                                 else Inr (Some (emptyK8S\<lparr>Kubeconfig := dataOf s ''kubeconfig''\<rparr>)))
                     | None \<Rightarrow> Inl (ErrMsg ''kubeconfigRef or inCluster must be specified for K8S access''))
           | (None, None) \<Rightarrow>
               (case kl_GKE cluster of
                  Some g \<Rightarrow> Inr (Some (emptyK8S\<lparr>kc_ClusterName := gc_Name g, kc_Region := gc_Location g\<rparr>))
                | None \<Rightarrow> Inr None)))"

definition BuildConnectorConfig :: "BuilderClients \<Rightarrow> string \<Rightarrow> string \<Rightarrow> string \<Rightarrow>
    (AWSConnectorConfig option \<times> K8SConnectorConfig option) res" where
  "BuildConnectorConfig b kind ns name =
     (if kind = ''CloudProvider'' then
        (case loadCloudProviderConfig b ns name of Inl e \<Rightarrow> Inl e | Inr a \<Rightarrow> Inr (Some a, None))
      else if kind = ''K8SCluster'' then
        (case loadK8SClusterConfig b ns name of Inl e \<Rightarrow> Inl e | Inr k \<Rightarrow> Inr (None, k))
      else Inr (None, None))"

text \<open>\<open>buildExecutorSpec\<close>; \<open>params\<close> are the re-encoded parameters of the target.\<close>

definition buildExecutorSpec :: "BuilderClients \<Rightarrow> RunnerConfig \<Rightarrow> string \<Rightarrow> string \<Rightarrow> string \<Rightarrow> string \<Rightarrow> Spec res" where
  "buildExecutorSpec b cfg kind ns name params =
     (let spec = \<lparr>sp_TargetName = rc_Target cfg, sp_TargetType = rc_TargetType cfg, sp_Parameters = params,
                  sp_AWS = None, sp_K8S = None\<rparr>
      in if kind = ''CloudProvider'' \<or> kind = ''K8SCluster'' then
           (case BuildConnectorConfig b kind ns name of
              Inl e \<Rightarrow> Inl e
            | Inr (a, k) \<Rightarrow> Inr (spec\<lparr>sp_AWS := a, sp_K8S := k\<rparr>))
         else Inr spec)"

section \<open>Kubernetes clients\<close>

text \<open>
  Of a REST configuration the model keeps where it came from; the parser of a kubeconfig, the
  in-cluster configuration and the two client constructors are parameters.
\<close>

datatype RestConfig = FromKubeconfig string | DirectConfig string string | FromInCluster

record tokenSource =
  ts_clusterName :: string
  ts_region :: string
  ts_awsConfig :: SdkConfig
  ts_token :: string
  ts_expiration :: Time

record K8sLibs =
  kubeconfigErr :: "string \<Rightarrow> go_error option"
  inClusterErr :: "go_error option"
  typedErr :: "RestConfig \<Rightarrow> tokenSource option \<Rightarrow> go_error option"
  dynamicErr :: "RestConfig \<Rightarrow> tokenSource option \<Rightarrow> go_error option"

definition resolveRestConfig :: "K8sLibs \<Rightarrow> K8SConnectorConfig \<Rightarrow> RestConfig res" where
  "resolveRestConfig L cfg =
     (if Kubeconfig cfg \<noteq> '''' then
        (case kubeconfigErr L (Kubeconfig cfg) of
           Some e \<Rightarrow> Inl (Wrap ''build rest config from kubeconfig: '' e) | None \<Rightarrow> Inr (FromKubeconfig (Kubeconfig cfg)))
      else if ClusterEndpoint cfg \<noteq> '''' \<or> ClusterCAData cfg \<noteq> ''''
      then Inr (DirectConfig (ClusterEndpoint cfg) (ClusterCAData cfg))
      else (case inClusterErr L of Some e \<Rightarrow> Inl (Wrap ''get in-cluster config: '' e) | None \<Rightarrow> Inr FromInCluster))"

definition newEKSTokenSource :: "load_default \<Rightarrow> K8SConnectorConfig \<Rightarrow> tokenSource res" where
  "newEKSTokenSource load cfg =
     (if kc_ClusterName cfg = '''' then Inl (ErrMsg ''clusterName is required for EKS token generation'')
      else if kc_AWS cfg = None then Inl (ErrMsg ''AWS connector config is required for EKS token generation'')
      else if kc_Region cfg = '''' then Inl (ErrMsg ''region is required for EKS token generation'')
      else (case BuildAWSConfig load (kc_AWS cfg) of
              Inl e \<Rightarrow> Inl (Wrap ''build AWS config: '' e)
            | Inr sdk \<Rightarrow> Inr \<lparr>ts_clusterName = kc_ClusterName cfg, ts_region = kc_Region cfg, ts_awsConfig = sdk,
                             ts_token = '''', ts_expiration = \<lparr>t_ns = zero_ns, t_loc = UTC\<rparr>\<rparr>))"

definition buildRestConfig :: "K8sLibs \<Rightarrow> load_default \<Rightarrow> K8SConnectorConfig \<Rightarrow> (RestConfig \<times> tokenSource option) res" where
  "buildRestConfig L load cfg =
     (case resolveRestConfig L cfg of
        Inl e \<Rightarrow> Inl e
      | Inr rc \<Rightarrow>
          if UseEKSToken cfg
          then (case newEKSTokenSource load cfg of Inl e \<Rightarrow> Inl e | Inr s \<Rightarrow> Inr (rc, Some s))
          else Inr (rc, None))"

definition BuildClients :: "K8sLibs \<Rightarrow> load_default \<Rightarrow> K8SConnectorConfig option \<Rightarrow> (RestConfig \<times> tokenSource option) res" where
  "BuildClients L load c =
     (case c of
        None \<Rightarrow> Inl (ErrMsg ''K8S connector config is required'')
      | Some cfg \<Rightarrow>
          (case buildRestConfig L load cfg of
             Inl e \<Rightarrow> Inl (Wrap ''build rest config: '' e)
           | Inr (rc, s) \<Rightarrow>
               (case typedErr L rc s of
                  Some e \<Rightarrow> Inl (Wrap ''create kubernetes client: '' e)
                | None \<Rightarrow> (case dynamicErr L rc s of
                             Some e \<Rightarrow> Inl (Wrap ''create dynamic client: '' e)
                           | None \<Rightarrow> Inr (rc, s)))))"

text \<open>
  \<open>presign\<close> stands for the credentials and the signer: the token signed at a time, or an error.
  \<open>now\<close> is the reading of the clock at the check of the cached token, \<open>signTime\<close> the one at the
  signature.
\<close>

definition generatePresignedToken :: "(tokenSource \<Rightarrow> Time \<Rightarrow> string res) \<Rightarrow> Time \<Rightarrow> tokenSource \<Rightarrow> (string \<times> Time) res" where
  "generatePresignedToken presign signTime s =
     (case presign s signTime of Inl e \<Rightarrow> Inl e | Inr token \<Rightarrow> Inr (token, signTime\<lparr>t_ns := t_ns signTime + 15 * Minute\<rparr>))"

definition getToken :: "(tokenSource \<Rightarrow> Time \<Rightarrow> string res) \<Rightarrow> Time \<Rightarrow> Time \<Rightarrow> tokenSource \<Rightarrow> string res \<times> tokenSource" where
  "getToken presign now signTime s =
     (if ts_token s \<noteq> '''' \<and> Before now ((ts_expiration s)\<lparr>t_ns := t_ns (ts_expiration s) - 3 * Minute\<rparr>)
      then (Inr (ts_token s), s)
      else (case generatePresignedToken presign signTime s of
              Inl e \<Rightarrow> (Inl (Wrap ''generate presigned token: '' e), s)
            | Inr (token, expiration) \<Rightarrow> (Inr token, s\<lparr>ts_token := token, ts_expiration := expiration\<rparr>)))"

section \<open>Facts\<close>

text \<open>Any series of requests on one token source, each with its clock readings.\<close>

definition getTokens :: "(tokenSource \<Rightarrow> Time \<Rightarrow> string res) \<Rightarrow> (Time \<times> Time) list \<Rightarrow> tokenSource \<Rightarrow> tokenSource" where
  "getTokens presign ts s = fold (\<lambda>(now, signTime) s. snd (getToken presign now signTime s)) ts s"

definition signed :: "(tokenSource \<Rightarrow> Time \<Rightarrow> string res) \<Rightarrow> tokenSource \<Rightarrow> bool" where
  "signed presign s \<longleftrightarrow> ts_token s = '''' \<or> (\<exists>t s'. presign s' t = Inr (ts_token s) \<and> t_ns (ts_expiration s) = t_ns t + 15 * Minute)"

lemma getToken_signed: "signed presign s \<Longrightarrow> signed presign (snd (getToken presign now t s))"
  by (auto simp: getToken_def generatePresignedToken_def signed_def split: sum.splits)

lemma getTokens_signed: "signed presign s \<Longrightarrow> signed presign (getTokens presign ts s)"
  unfolding getTokens_def by (induction ts arbitrary: s) (auto simp: getToken_signed)

text \<open>
  However many requests went before, a token that is handed out was signed for the
  next fifteen minutes at a time that leaves it valid for more than three minutes from the request.
\<close>

lemma token_still_valid:
  assumes "newEKSTokenSource load cfg = Inr s" "\<not> Before signTime now"
    and "getToken presign now signTime (getTokens presign ts s) = (Inr token, s')"
  shows "\<exists>t src. presign src t = Inr token \<and> t_ns now + 3 * Minute < t_ns t + 15 * Minute"
proof -
  let ?s = "getTokens presign ts s"
  have "signed presign s" using assms(1) by (auto simp: newEKSTokenSource_def signed_def split: if_splits sum.splits)
  then have g: "signed presign ?s" by (rule getTokens_signed)
  show ?thesis
  proof (cases "ts_token ?s \<noteq> '''' \<and> Before now ((ts_expiration ?s)\<lparr>t_ns := t_ns (ts_expiration ?s) - 3 * Minute\<rparr>)")
    case True
    then have "token = ts_token ?s" using assms(3) by (auto simp: getToken_def)
    with g True obtain t src where "presign src t = Inr token" "t_ns (ts_expiration ?s) = t_ns t + 15 * Minute"
      by (auto simp: signed_def)
    with True show ?thesis by (intro exI [of _ t] exI [of _ src]) (simp add: Before_def)
  next
    case False
    then have "presign ?s signTime = Inr token"
      using assms(3) by (auto simp: getToken_def generatePresignedToken_def split: sum.splits)
    then show ?thesis using assms(2) by (intro exI [of _ signTime] exI [of _ ?s]) (simp add: Before_def)
  qed
qed

definition demoToken :: "tokenSource \<Rightarrow> Time \<Rightarrow> string res" where
  "demoToken s t = Inr (''k8s-aws-v1.'' @ show_int (t_ns t))"

definition demoK8S :: "string \<Rightarrow> K8SConnectorConfig" where
  "demoK8S region = emptyK8S\<lparr>kc_ClusterName := ''c'', kc_Region := region, ClusterEndpoint := ''https://c'', ClusterCAData := ''ca'',
     UseEKSToken := True, kc_AWS := sp_AWS demoSpec\<rparr>"

definition demoSource :: tokenSource where
  "demoSource = \<lparr>ts_clusterName = ''c'', ts_region = ''r'', ts_awsConfig = \<lparr>sdk_Region = ''r'', sdk_Credentials = DefaultChain\<rparr>,
     ts_token = '''', ts_expiration = \<lparr>t_ns = zero_ns, t_loc = UTC\<rparr>\<rparr>"

definition at :: "int \<Rightarrow> Time" where "at m = \<lparr>t_ns = m * Minute, t_loc = UTC\<rparr>"

text \<open>Requests at minutes 0, 10 and 13: the second one is served from the cache, the third is signed anew.\<close>

lemma token_still_valid_witness:
  "newEKSTokenSource (\<lambda>_ _. Inr ''r'') (demoK8S ''r'') = Inr demoSource \<and>
   fst (getToken demoToken (at 13) (at 13) (getTokens demoToken [(at 0, at 0), (at 10, at 10)] demoSource)) = demoToken demoSource (at 13) \<and>
   (\<exists>t src. demoToken src t = demoToken demoSource (at 13) \<and> t_ns (at 13) + 3 * Minute < t_ns t + 15 * Minute)"
proof -
  have n: "newEKSTokenSource (\<lambda>_ _. Inr ''r'') (demoK8S ''r'') = Inr demoSource"
    by (simp add: newEKSTokenSource_def demoK8S_def demoSource_def emptyK8S_def demoSpec_def BuildAWSConfig_def)
  have b: "\<not> Before (at 13) (at 13)" by (simp add: Before_def)
  have g: "\<exists>s'. getToken demoToken (at 13) (at 13) (getTokens demoToken [(at 0, at 0), (at 10, at 10)] demoSource) =
      (Inr (''k8s-aws-v1.'' @ show_int (t_ns (at 13))), s')"
    by (simp add: getTokens_def getToken_def generatePresignedToken_def demoToken_def demoSource_def at_def Before_def)
  then obtain s' where "getToken demoToken (at 13) (at 13) (getTokens demoToken [(at 0, at 0), (at 10, at 10)] demoSource) =
      (Inr (''k8s-aws-v1.'' @ show_int (t_ns (at 13))), s')" by blast
  from token_still_valid [OF n b this] this show ?thesis using n by (auto simp: demoToken_def)
qed

text \<open>
  An EKS cluster without a region of its own takes the region of its provider for AWS, but the
  connector keeps the empty one: no client can be built from it.
\<close>

lemma loadEKSCluster_connector:
  assumes "loadEKSCluster b cluster eks = Inr c"
  shows "kc_ClusterName c = ec_Name eks" "kc_Region c = ec_Region eks" "UseEKSToken c" "kc_AWS c \<noteq> None" "Kubeconfig c = ''''"
    "ClusterEndpoint c \<noteq> ''''" "\<exists>sdk. BuildAWSConfig (bc_load b) (kc_AWS c) = Inr sdk"
  using assms unfolding loadEKSCluster_def Let_def
  by (auto simp: emptyK8S_def split: option.splits sum.splits if_splits)

lemma eks_connector_needs_region:
  assumes "loadEKSCluster b cluster eks = Inr c" "\<forall>rc s. typedErr L rc s = None \<and> dynamicErr L rc s = None"
  shows "(\<exists>x. BuildClients L (bc_load b) (Some c) = Inr x) \<longleftrightarrow> ec_Name eks \<noteq> '''' \<and> ec_Region eks \<noteq> ''''"
proof -
  note l = loadEKSCluster_connector [OF assms(1)]
  have "resolveRestConfig L c = Inr (DirectConfig (ClusterEndpoint c) (ClusterCAData c))" using l(5,6) by (simp add: resolveRestConfig_def)
  moreover have "(\<exists>x. newEKSTokenSource (bc_load b) c = Inr x) \<longleftrightarrow> ec_Name eks \<noteq> '''' \<and> ec_Region eks \<noteq> ''''"
    using l(1,2,4,7) by (auto simp: newEKSTokenSource_def)
  ultimately show ?thesis using l(3) assms(2)
    by (cases "newEKSTokenSource (bc_load b) c") (auto simp: BuildClients_def buildRestConfig_def)
qed

text \<open>
  The Karpenter executor accepts no connector of a cluster that is reached by
  kubeconfig or from inside: its validation wants a cluster name and a region, which the builder
  leaves empty for them, whatever the parameters are.
\<close>

lemma karpenter_rejects_plain_cluster:
  assumes "bc_cluster b ns name = Inr cluster" "kl_K8S cluster \<noteq> None"
    and "buildExecutorSpec b cfg ''K8SCluster'' ns name params = Inr spec"
  shows "Validate (e\<lparr>ka_spec := spec\<rparr>) = Some (ErrMsg ''cluster name is required'')"
proof -
  obtain k where k: "loadK8SClusterConfig b ns name = Inr k" "sp_K8S spec = k"
    using assms(3) by (auto simp: buildExecutorSpec_def BuildConnectorConfig_def Let_def split: sum.splits)
  from k(1) have "\<exists>c. k = Some c \<and> kc_ClusterName c = ''''"
    using assms(1,2) by (auto simp: loadK8SClusterConfig_def Let_def emptyK8S_def split: option.splits sum.splits if_splits)
  then show ?thesis using k(2) by (auto simp: Validate_def)
qed

definition demoBuilder :: "K8SCluster \<Rightarrow> BuilderClients" where
  "demoBuilder cl =
     \<lparr>bc_provider = (\<lambda>_ _. Inl (ApiError NotFound)), bc_cluster = (\<lambda>_ _. Inr cl), bc_secret = (\<lambda>_ _. Inl (ApiError NotFound)),
      bc_load = (\<lambda>_ _. Inr ''r''), bc_describe = (\<lambda>_ _. Inr None)\<rparr>"

definition inClusterK8S :: K8SCluster where
  "inClusterK8S = \<lparr>kl_Namespace = ''ns'', kl_ProviderRef = None, kl_EKS = None, kl_GKE = None,
     kl_K8S = Some \<lparr>KubeconfigRef = None, InCluster = True\<rparr>\<rparr>"

lemma karpenter_rejects_plain_cluster_witness:
  "\<exists>spec. buildExecutorSpec (demoBuilder inClusterK8S) (demoJob ''karpenter'') ''K8SCluster'' ''ns'' ''k'' ''{}'' = Inr spec \<and>
     Validate ((demoWhole False)\<lparr>ka_spec := spec\<rparr>) = Some (ErrMsg ''cluster name is required'')"
proof -
  have "\<exists>spec. buildExecutorSpec (demoBuilder inClusterK8S) (demoJob ''karpenter'') ''K8SCluster'' ''ns'' ''k'' ''{}'' = Inr spec"
    by (simp add: buildExecutorSpec_def BuildConnectorConfig_def loadK8SClusterConfig_def demoBuilder_def inClusterK8S_def Let_def)
  then obtain spec where s: "buildExecutorSpec (demoBuilder inClusterK8S) (demoJob ''karpenter'') ''K8SCluster'' ''ns'' ''k'' ''{}'' = Inr spec"
    by blast
  have "bc_cluster (demoBuilder inClusterK8S) ''ns'' ''k'' = Inr inClusterK8S" "kl_K8S inClusterK8S \<noteq> None"
    by (simp_all add: demoBuilder_def inClusterK8S_def)
  from karpenter_rejects_plain_cluster [OF this s, of "demoWhole False"] s show ?thesis by blast
qed

end
