(* ===== verification/NotifLifecycle.thy ===== *)
theory NotifLifecycle
  imports ApiTypes "HOL-Library.Multiset"
begin

text \<open>
  The lifecycle of HibernateNotification objects
  (\<^verbatim>\<open>internal/provider/processor/notification/lifecycle.go\<close>): which plans a notification
  watches, its finalizer, and the delivery records of its sinks.  The processor reads and patches
  the object directly (finalizer) and sends status updates to the status writer, which applies
  them in order to a fresh copy.  An update is a constructor of \<open>notif_update\<close>;
  \<open>Mutate\<close> is its mutator.  A Go map is an association list in its iteration order, and
  \<open>rangeMap\<close> gives the order in which one loop visits it.
\<close>

section \<open>Objects\<close>

definition NotificationFinalizerName :: string where
  "NotificationFinalizerName = domain_prefix @ ''notification-finalizer''"

definition NotificationStateBound :: string where "NotificationStateBound = ''Bound''"
definition NotificationStateDetached :: string where "NotificationStateDetached = ''Detached''"

definition MaxSinkStatusCyclesPerPlan :: nat where "MaxSinkStatusCyclesPerPlan = 2"
definition MaxSinkStatusEntries :: nat where "MaxSinkStatusEntries = 500"

type_synonym states = "(string \<times> string) list"

record NotificationSinkStatus =
  ss_SinkName :: string
  ss_PlanRef :: PlanReference
  ss_CycleID :: string
  ss_Operation :: string
  Success :: bool
  TransitionTimestamp :: Time
  SuccessCount :: int
  FailureCount :: int
  ss_LastSuccessTime :: "Time option"
  ss_LastFailureTime :: "Time option"
  ss_Message :: string
  ss_States :: states

record HibernateNotificationStatus =
  ns_State :: string
  WatchedPlans :: "PlanReference list"
  LastDeliveryTime :: "Time option"
  LastFailureTime :: "Time option"
  SinkStatuses :: "(string \<times> NotificationSinkStatus) list"
  ns_ObservedGeneration :: int

text \<open>The object on the API server: the metadata the processor reads, and the status.\<close>

record NotificationObject =
  no_Generation :: int
  no_Finalizers :: "string list"
  no_Deleting :: bool
  no_Status :: HibernateNotificationStatus

record DeliveryResult =
  dr_ID :: string
  dr_NotificationRef :: "string \<times> string"
  dr_SinkName :: string
  dr_PlanNamespace :: string
  dr_PlanName :: string
  dr_CycleID :: string
  dr_Operation :: string
  dr_Timestamp :: Time
  dr_Success :: bool
  dr_Error :: "go_error option"
  dr_States :: states

section \<open>Delivery records\<close>

text \<open>
  Both pruning functions copy the map into a slice and sort it, newest first, with the unstable
  \<open>sort.Slice\<close>.  Every arrangement they can see is a stable sort of some iteration order of the
  map, which is the argument \<open>rangeMap\<close>.
\<close>

type_synonym map_order = "(string \<times> NotificationSinkStatus) list \<Rightarrow> (string \<times> NotificationSinkStatus) list"

definition newestFirst :: "(string \<times> NotificationSinkStatus) list \<Rightarrow> (string \<times> NotificationSinkStatus) list" where
  "newestFirst = sort_key (\<lambda>kv. - t_ns (TransitionTimestamp (snd kv)))"

definition statusGroup :: "NotificationSinkStatus \<Rightarrow> string" where
  "statusGroup ss = ss_SinkName ss @ ''|'' @ pr_Namespace (ss_PlanRef ss) @ ''/'' @ pr_Name (ss_PlanRef ss)"

fun prunePerPlanLoop :: "(string \<times> NotificationSinkStatus) list \<Rightarrow> (string \<times> nat) list \<Rightarrow>
    (string \<times> NotificationSinkStatus) list \<Rightarrow> (string \<times> NotificationSinkStatus) list" where
  "prunePerPlanLoop [] counts m = m"
| "prunePerPlanLoop ((key, ss) # rest) counts m =
     (let n = Suc (lookup_default 0 counts (statusGroup ss)) in
      prunePerPlanLoop rest (AList.update (statusGroup ss) n counts)
        (if n > MaxSinkStatusCyclesPerPlan then AList.delete key m else m))"

definition pruneSinkStatusesPerPlan :: "map_order \<Rightarrow> NotificationObject \<Rightarrow> NotificationObject" where
  "pruneSinkStatusesPerPlan rangeMap n =
     (let m = SinkStatuses (no_Status n) in
      if length m \<le> 1 then n
      else n\<lparr>no_Status := no_Status n\<lparr>SinkStatuses := prunePerPlanLoop (newestFirst (rangeMap m)) [] m\<rparr>\<rparr>)"

definition pruneSinkStatusesToMaxEntries :: "map_order \<Rightarrow> NotificationObject \<Rightarrow> NotificationObject" where
  "pruneSinkStatusesToMaxEntries rangeMap n =
     (let m = SinkStatuses (no_Status n) in
      if length m \<le> MaxSinkStatusEntries then n
      else n\<lparr>no_Status := no_Status n\<lparr>SinkStatuses :=
        fold (\<lambda>kv. AList.delete (fst kv)) (drop MaxSinkStatusEntries (newestFirst (rangeMap m))) m\<rparr>\<rparr>)"

text \<open>The mutator that \<open>HandleDeliveryResult\<close> sends.\<close>

definition newEntry :: "DeliveryResult \<Rightarrow> NotificationSinkStatus" where
  "newEntry r = \<lparr>ss_SinkName = dr_SinkName r, ss_PlanRef = \<lparr>pr_Name = dr_PlanName r, pr_Namespace = dr_PlanNamespace r\<rparr>,
     ss_CycleID = dr_CycleID r, ss_Operation = dr_Operation r, Success = False, TransitionTimestamp = zeroTime,
     SuccessCount = 0, FailureCount = 0, ss_LastSuccessTime = None, ss_LastFailureTime = None, ss_Message = [],
     ss_States = []\<rparr>"

definition recordedEntry :: "DeliveryResult \<Rightarrow> NotificationSinkStatus \<Rightarrow> NotificationSinkStatus" where
  "recordedEntry r entry =
     (let e = entry\<lparr>TransitionTimestamp := dr_Timestamp r, Success := dr_Success r, ss_States := dr_States r\<rparr> in
      if dr_Success r then
        e\<lparr>SuccessCount := wrap32 (SuccessCount e + 1), ss_LastSuccessTime := Some (dr_Timestamp r),
          ss_Message := ''Successfully sent notification for '' @ dr_SinkName r\<rparr>
      else
        e\<lparr>FailureCount := wrap32 (FailureCount e + 1), ss_LastFailureTime := Some (dr_Timestamp r),
          ss_Message := (case dr_Error r of Some err \<Rightarrow> err_text err
             | None \<Rightarrow> ''Failed to send notification for '' @ dr_SinkName r)\<rparr>)"

definition recordDelivery :: "DeliveryResult \<Rightarrow> NotificationObject \<Rightarrow> NotificationObject" where
  "recordDelivery r n =
     (let st = no_Status n;
          entry = (case map_of (SinkStatuses st) (dr_ID r) of Some e \<Rightarrow> e | None \<Rightarrow> newEntry r);
          st' = (if dr_Success r then st\<lparr>LastDeliveryTime := Some (dr_Timestamp r)\<rparr>
                 else st\<lparr>LastFailureTime := Some (dr_Timestamp r)\<rparr>) in
      n\<lparr>no_Status := st'\<lparr>SinkStatuses := AList.update (dr_ID r) (recordedEntry r entry) (SinkStatuses st)\<rparr>\<rparr>)"

section \<open>Status updates\<close>

datatype notif_update =
    ClearPlans
  | UpsertPlan string
  | RemovePlan string
  | RecordDelivery DeliveryResult

definition clearPlans :: "NotificationObject \<Rightarrow> NotificationObject" where
  "clearPlans n = n\<lparr>no_Status := no_Status n\<lparr>WatchedPlans := [], ns_State := NotificationStateDetached\<rparr>\<rparr>"

definition tracksPlan :: "string \<Rightarrow> HibernateNotificationStatus \<Rightarrow> bool" where
  "tracksPlan planName st \<longleftrightarrow> List.find (\<lambda>ref. pr_Name ref = planName) (WatchedPlans st) \<noteq> None"

definition upsertPlan :: "string \<Rightarrow> NotificationObject \<Rightarrow> NotificationObject" where
  "upsertPlan planName n =
     (let st = no_Status n;
          plans = (if tracksPlan planName st then WatchedPlans st
                   else sort_key pr_Name (WatchedPlans st @ [\<lparr>pr_Name = planName, pr_Namespace = []\<rparr>])) in
      n\<lparr>no_Status := st\<lparr>WatchedPlans := plans, ns_State := NotificationStateBound,
        ns_ObservedGeneration := no_Generation n\<rparr>\<rparr>)"

definition removePlan :: "string \<Rightarrow> NotificationObject \<Rightarrow> NotificationObject" where
  "removePlan planName n =
     (let st = no_Status n; plans = filter (\<lambda>ref. pr_Name ref \<noteq> planName) (WatchedPlans st) in
      n\<lparr>no_Status := (if plans \<noteq> [] then st\<lparr>WatchedPlans := plans\<rparr>
        else st\<lparr>WatchedPlans := plans, ns_State := NotificationStateDetached\<rparr>)\<rparr>)"

fun Mutate :: "map_order \<Rightarrow> notif_update \<Rightarrow> NotificationObject \<Rightarrow> NotificationObject" where
  "Mutate rangeMap ClearPlans n = clearPlans n"
| "Mutate rangeMap (UpsertPlan planName) n = upsertPlan planName n"
| "Mutate rangeMap (RemovePlan planName) n = removePlan planName n"
| "Mutate rangeMap (RecordDelivery r) n =
     pruneSinkStatusesToMaxEntries rangeMap (pruneSinkStatusesPerPlan rangeMap (recordDelivery r n))"

section \<open>The processor\<close>

text \<open>
  \<open>lc_Get i\<close> is what the \<open>i\<close>-th read of a handler answers, from the object the server holds;
  \<open>lc_Patch\<close> the outcome of its patch.  A patch replaces the list of finalizers; the server
  removes a deleted object once no finalizer is left.
\<close>

record lc_api =
  lc_Get :: "nat \<Rightarrow> NotificationObject option \<Rightarrow> NotificationObject res"
  lc_Patch :: "api_error option"

definition patchFinalizers :: "lc_api \<Rightarrow> string list \<Rightarrow> NotificationObject option \<Rightarrow> NotificationObject option" where
  "patchFinalizers api fs srv =
     (case (lc_Patch api, srv) of
        (None, Some n) \<Rightarrow> if no_Deleting n \<and> fs = [] then None else Some (n\<lparr>no_Finalizers := fs\<rparr>)
      | _ \<Rightarrow> srv)"

definition ensureFinalizer :: "lc_api \<Rightarrow> nat \<Rightarrow> NotificationObject option \<Rightarrow> NotificationObject option" where
  "ensureFinalizer api i srv =
     (case lc_Get api i srv of
        Inl err \<Rightarrow> srv
      | Inr notif \<Rightarrow>
          if NotificationFinalizerName \<in> set (no_Finalizers notif) then srv
          else patchFinalizers api (no_Finalizers notif @ [NotificationFinalizerName]) srv)"

definition removeFinalizer :: "lc_api \<Rightarrow> nat \<Rightarrow> NotificationObject option \<Rightarrow> NotificationObject option" where
  "removeFinalizer api i srv =
     (case lc_Get api i srv of
        Inl err \<Rightarrow> srv
      | Inr notif \<Rightarrow>
          if NotificationFinalizerName \<notin> set (no_Finalizers notif) then srv
          else patchFinalizers api (filter (\<lambda>f. f \<noteq> NotificationFinalizerName) (no_Finalizers notif)) srv)"

text \<open>A handler yields the object on the server and the updates it sent to the status writer.\<close>

type_synonym lc_result = "NotificationObject option \<times> notif_update list"

definition handleNotificationDeletion :: "lc_api \<Rightarrow> NotificationObject option \<Rightarrow> lc_result" where
  "handleNotificationDeletion api srv =
     (case lc_Get api 0 srv of
        Inl err \<Rightarrow> (srv, [])
      | Inr notif \<Rightarrow>
          (removeFinalizer api 1 srv,
           if WatchedPlans (no_Status notif) \<noteq> [] \<or> ns_State (no_Status notif) \<noteq> NotificationStateDetached
           then [ClearPlans] else []))"

definition upsertPlanRef :: "string \<Rightarrow> NotificationObject \<Rightarrow> notif_update list" where
  "upsertPlanRef planName notif =
     (if tracksPlan planName (no_Status notif) \<and> ns_ObservedGeneration (no_Status notif) = no_Generation notif \<and>
         ns_State (no_Status notif) = NotificationStateBound
      then [] else [UpsertPlan planName])"

definition removePlanRef :: "lc_api \<Rightarrow> string \<Rightarrow> NotificationObject \<Rightarrow> NotificationObject option \<Rightarrow> lc_result" where
  "removePlanRef api planName notif srv =
     (if \<not> tracksPlan planName (no_Status notif) then (srv, [])
      else
        (let remaining = filter (\<lambda>ref. pr_Name ref \<noteq> planName) (WatchedPlans (no_Status notif));
             becomesDetached = (length remaining = 0) in
         (if becomesDetached then removeFinalizer api 0 srv else srv, [RemovePlan planName])))"

text \<open>
  A binding of the subscription: the notification as the reconciler last saw it, and whether its
  selector matches the plan.
\<close>

record NotificationContext =
  nc_Notification :: "NotificationObject option"
  nc_Matches :: bool

definition handleBinding :: "lc_api \<Rightarrow> string \<Rightarrow> NotificationContext option \<Rightarrow> NotificationObject option \<Rightarrow> lc_result" where
  "handleBinding api planName v srv =
     (case v of
        None \<Rightarrow> (srv, [])
      | Some nc \<Rightarrow>
          (case nc_Notification nc of
             None \<Rightarrow> (srv, [])
           | Some notif \<Rightarrow>
               if no_Deleting notif then handleNotificationDeletion api srv
               else if nc_Matches nc then (ensureFinalizer api 0 srv, upsertPlanRef planName notif)
               else removePlanRef api planName notif srv))"

text \<open>The callback of \<open>Start\<close>; \<open>None\<close> is a nil pointer dereferenced in \<open>removePlanRef\<close>.\<close>

definition onUpdate :: "lc_api \<Rightarrow> bool \<Rightarrow> string \<Rightarrow> NotificationContext option \<Rightarrow> NotificationObject option \<Rightarrow>
    lc_result option" where
  "onUpdate api isDelete planName v srv =
     (if isDelete then
        (case v of
           None \<Rightarrow> Some (srv, [])
         | Some nc \<Rightarrow> (case nc_Notification nc of
              None \<Rightarrow> None
            | Some notif \<Rightarrow> Some (removePlanRef api planName notif srv)))
      else Some (handleBinding api planName v srv))"

definition HandleDeliveryResult :: "DeliveryResult \<Rightarrow> notif_update list" where
  "HandleDeliveryResult r = (if snd (dr_NotificationRef r) = [] then [] else [RecordDelivery r])"

text \<open>
  The status writer applies the updates one after the other to what the server holds; a removed
  object is skipped.
\<close>

definition writeUpdates :: "map_order \<Rightarrow> notif_update list \<Rightarrow> NotificationObject option \<Rightarrow> NotificationObject option" where
  "writeUpdates rangeMap us srv = map_option (fold (Mutate rangeMap) us) srv"

section \<open>Watched plans\<close>

text \<open>
  The watched plans are in the order of their names, without duplicates, and the notification is
  Bound exactly when there is one.
\<close>

definition planNames :: "HibernateNotificationStatus \<Rightarrow> string list" where
  "planNames st = map pr_Name (WatchedPlans st)"

definition watched_ok :: "HibernateNotificationStatus \<Rightarrow> bool" where
  "watched_ok st \<longleftrightarrow> distinct (planNames st) \<and> sorted (planNames st) \<and>
     (ns_State st = NotificationStateBound \<longleftrightarrow> WatchedPlans st \<noteq> [])"

text \<open>What an update means for the set of watched plans.\<close>

fun watchStep :: "notif_update \<Rightarrow> string set \<Rightarrow> string set" where
  "watchStep ClearPlans S = {}"
| "watchStep (UpsertPlan p) S = insert p S"
| "watchStep (RemovePlan p) S = S - {p}"
| "watchStep (RecordDelivery r) S = S"

lemma tracksPlan_iff: "tracksPlan p st \<longleftrightarrow> p \<in> set (planNames st)"
  by (auto simp: tracksPlan_def planNames_def find_None_iff)

lemma prune_keeps_plans [simp]:
  "WatchedPlans (no_Status (pruneSinkStatusesPerPlan o1 n)) = WatchedPlans (no_Status n)"
  "WatchedPlans (no_Status (pruneSinkStatusesToMaxEntries o1 n)) = WatchedPlans (no_Status n)"
  "ns_State (no_Status (pruneSinkStatusesPerPlan o1 n)) = ns_State (no_Status n)"
  "ns_State (no_Status (pruneSinkStatusesToMaxEntries o1 n)) = ns_State (no_Status n)"
  by (simp_all add: pruneSinkStatusesPerPlan_def pruneSinkStatusesToMaxEntries_def Let_def)

lemma recordDelivery_keeps_plans [simp]:
  "WatchedPlans (no_Status (recordDelivery r n)) = WatchedPlans (no_Status n)"
  "ns_State (no_Status (recordDelivery r n)) = ns_State (no_Status n)"
  by (simp_all add: recordDelivery_def Let_def)

lemma bound_not_detached [simp]: "NotificationStateDetached \<noteq> NotificationStateBound"
  by (simp add: NotificationStateBound_def NotificationStateDetached_def)

lemma distinct_map_sort_key: "distinct (map f xs) \<Longrightarrow> distinct (map f (sort_key f xs))"
  using distinct_insort_key by (metis distinct_sort mset_map mset_sort mset_eq_imp_distinct_iff)

lemma sort_key_append_nonempty: "sort_key f (xs @ [x]) \<noteq> []"
  by (metis Nil_is_append_conv length_0_conv length_sort not_Cons_self2)

lemma Mutate_watched:
  assumes "watched_ok (no_Status n)"
  shows "watched_ok (no_Status (Mutate rangeMap u n))"
    and "set (planNames (no_Status (Mutate rangeMap u n))) = watchStep u (set (planNames (no_Status n)))"
proof -
  have "watched_ok (no_Status (upsertPlan p n)) \<and>
      set (planNames (no_Status (upsertPlan p n))) = insert p (set (planNames (no_Status n)))" for p
  proof (cases "tracksPlan p (no_Status n)")
    case True
    then show ?thesis using assms
      by (auto simp: upsertPlan_def Let_def watched_ok_def planNames_def tracksPlan_iff)
  next
    case False
    then have "distinct (map pr_Name (WatchedPlans (no_Status n) @ [\<lparr>pr_Name = p, pr_Namespace = []\<rparr>]))"
      using assms by (auto simp: watched_ok_def planNames_def tracksPlan_iff)
    from distinct_map_sort_key [OF this] False show ?thesis
      by (auto simp: upsertPlan_def Let_def watched_ok_def planNames_def sort_key_append_nonempty)
  qed
  moreover have "watched_ok (no_Status (removePlan p n)) \<and>
      set (planNames (no_Status (removePlan p n))) = set (planNames (no_Status n)) - {p}" for p
    using assms by (auto simp: removePlan_def Let_def watched_ok_def planNames_def distinct_map_filter sorted_filter
        filter_empty_conv)
  ultimately show "watched_ok (no_Status (Mutate rangeMap u n))"
    and "set (planNames (no_Status (Mutate rangeMap u n))) = watchStep u (set (planNames (no_Status n)))"
    using assms by (cases u; simp add: clearPlans_def watched_ok_def planNames_def)+
qed

lemma fold_Mutate_watched:
  assumes "watched_ok (no_Status n)"
  shows "watched_ok (no_Status (fold (Mutate rangeMap) us n)) \<and>
    set (planNames (no_Status (fold (Mutate rangeMap) us n))) = fold watchStep us (set (planNames (no_Status n)))"
  using assms
proof (induction us arbitrary: n)
  case (Cons u us)
  from Cons.IH [OF Mutate_watched(1) [OF Cons.prems]] show ?case
    by (simp add: Mutate_watched(2) [OF Cons.prems])
qed simp

text \<open>
  C33.  Whatever updates the status writer applies, in whatever order: the watched plans stay
  sorted and without duplicates, they are exactly the plans whose last binding update was an
  upsert, and the notification is Bound exactly when one is left.
\<close>

theorem watched_plans_refine_set:
  fixes rangeMap us
  assumes "watched_ok (no_Status n)"
  defines "n' \<equiv> fold (Mutate rangeMap) us n"
  shows "watched_ok (no_Status n') \<and>
    set (planNames (no_Status n')) = fold watchStep us (set (planNames (no_Status n))) \<and>
    (ns_State (no_Status n') = NotificationStateBound \<longleftrightarrow> fold watchStep us (set (planNames (no_Status n))) \<noteq> {})"
  using fold_Mutate_watched [OF assms(1), of rangeMap us] unfolding n'_def
  by (auto simp: watched_ok_def planNames_def)


section \<open>Retention\<close>

text \<open>The keys that \<open>prunePerPlanLoop\<close> drops, given how many of each group it has seen.\<close>

fun droppedKeys :: "(string \<times> NotificationSinkStatus) list \<Rightarrow> (string \<Rightarrow> nat) \<Rightarrow> string list" where
  "droppedKeys [] seen = []"
| "droppedKeys ((key, ss) # rest) seen =
     (if seen (statusGroup ss) \<ge> MaxSinkStatusCyclesPerPlan then [key] else []) @
     droppedKeys rest (seen(statusGroup ss := Suc (seen (statusGroup ss))))"

abbreviation in_group :: "string \<Rightarrow> string \<times> NotificationSinkStatus \<Rightarrow> bool" where
  "in_group g kv \<equiv> statusGroup (snd kv) = g"

abbreviation stamp :: "string \<times> NotificationSinkStatus \<Rightarrow> int" where
  "stamp kv \<equiv> t_ns (TransitionTimestamp (snd kv))"

lemma prunePerPlanLoop_filter:
  "prunePerPlanLoop all counts m = filter (\<lambda>kv. fst kv \<notin> set (droppedKeys all (lookup_default 0 counts))) m"
proof (induction all counts m rule: prunePerPlanLoop.induct)
  case (2 key ss rest counts m)
  let ?g = "statusGroup ss"
  have e: "lookup_default 0 (AList.update ?g (Suc (lookup_default 0 counts ?g)) counts) =
      (lookup_default 0 counts)(?g := Suc (lookup_default 0 counts ?g))"
    by (rule ext) auto
  show ?case
    unfolding prunePerPlanLoop.simps Let_def 2 [OF refl] e
    by (auto simp: AList.delete_eq case_prod_beta' Suc_le_eq less_Suc_eq_le intro!: filter_cong)
qed (simp add: filter_True)

lemma droppedKeys_subset: "set (droppedKeys all seen) \<subseteq> fst ` set all"
  by (induction all arbitrary: seen) fastforce+

lemma droppedKeys_full:
  assumes "seen g \<ge> MaxSinkStatusCyclesPerPlan" "kv \<in> set all" "in_group g kv"
  shows "fst kv \<in> set (droppedKeys all seen)"
  using assms
proof (induction all arbitrary: seen)
  case (Cons x all)
  obtain key ss where x: "x = (key, ss)" by fastforce
  let ?seen = "seen(statusGroup ss := Suc (seen (statusGroup ss)))"
  have "MaxSinkStatusCyclesPerPlan \<le> ?seen g" using Cons.prems(1) by auto
  then have "kv \<in> set all \<Longrightarrow> fst kv \<in> set (droppedKeys all ?seen)" using Cons.IH [of ?seen] Cons.prems(3) by blast
  then show ?case using Cons.prems x by auto
qed simp

lemma droppedKeys_count:
  assumes "distinct (map fst all)"
  shows "length (filter (\<lambda>kv. in_group g kv \<and> fst kv \<notin> set (droppedKeys all seen)) all) \<le> MaxSinkStatusCyclesPerPlan - seen g"
  using assms
proof (induction all arbitrary: seen)
  case (Cons x rest)
  obtain key ss where x: "x = (key, ss)" by fastforce
  let ?h = "statusGroup ss"
  let ?seen = "seen(?h := Suc (seen ?h))"
  have "key \<notin> set (droppedKeys rest ?seen)" using Cons.prems x droppedKeys_subset [of rest ?seen] by auto
  moreover have "filter (\<lambda>kv. in_group g kv \<and> fst kv \<notin> set (droppedKeys ((key, ss) # rest) seen)) rest =
      filter (\<lambda>kv. in_group g kv \<and> fst kv \<notin> set (droppedKeys rest ?seen)) rest"
    using Cons.prems x by (intro filter_cong refl) auto
  moreover have "length (filter (\<lambda>kv. in_group g kv \<and> fst kv \<notin> set (droppedKeys rest ?seen)) rest) \<le> MaxSinkStatusCyclesPerPlan - ?seen g"
    using Cons.prems by (intro Cons.IH) simp
  ultimately show ?case using x by (auto split: if_splits)
qed simp

lemma droppedKeys_older:
  assumes "sorted_wrt (\<lambda>a b. stamp b \<le> stamp a) all" "distinct (map fst all)"
    and "a \<in> set all" "b \<in> set all" "in_group g a" "in_group g b"
    and "fst a \<in> set (droppedKeys all seen)" "fst b \<notin> set (droppedKeys all seen)"
  shows "stamp a \<le> stamp b"
  using assms
proof (induction all arbitrary: seen)
  case (Cons x rest)
  obtain key ss where x: "x = (key, ss)" by fastforce
  let ?h = "statusGroup ss"
  let ?seen = "seen(?h := Suc (seen ?h))"
  show ?case
  proof (cases "b = (key, ss)")
    case True
    then show ?thesis using Cons.prems(1,3) x by auto
  next
    case b: False
    show ?thesis
    proof (cases "a = (key, ss)")
      case True
      then have "seen ?h \<ge> MaxSinkStatusCyclesPerPlan" "?h = g"
        using Cons.prems(2,5,7) x droppedKeys_subset [of rest ?seen] by (auto split: if_splits)
      then have "fst b \<in> set (droppedKeys rest ?seen)"
        using droppedKeys_full [of ?seen g b rest] b Cons.prems(4,6) x by auto
      then show ?thesis using Cons.prems(8) x by auto
    next
      case False
      then have "fst a \<noteq> key" using Cons.prems(2,3) x by (auto simp: image_iff)
      then have "a \<in> set rest" "b \<in> set rest" "fst a \<in> set (droppedKeys rest ?seen)" "fst b \<notin> set (droppedKeys rest ?seen)"
        using Cons.prems(3,4,7,8) x b False by (simp_all split: if_splits)
      then show ?thesis using Cons.IH [of ?seen] Cons.prems(1,2,5,6) by (metis distinct.simps(2) list.simps(9) sorted_wrt.simps(2))
    qed
  qed
qed simp


text \<open>A map order visits every entry once.\<close>

definition visits_all :: "map_order \<Rightarrow> bool" where
  "visits_all rangeMap \<longleftrightarrow> (\<forall>m. mset (rangeMap m) = mset m)"

lemma newestFirst_mset: "visits_all rangeMap \<Longrightarrow> mset (newestFirst (rangeMap m)) = mset m"
  by (simp add: visits_all_def newestFirst_def)

lemma newestFirst_sorted: "sorted_wrt (\<lambda>a b. stamp b \<le> stamp a) (newestFirst m)"
  using sorted_sort_key [of "\<lambda>kv. - stamp kv" m] by (simp add: newestFirst_def sorted_map)

lemma newestFirst_distinct:
  assumes "visits_all rangeMap" "distinct (map fst m)"
  shows "distinct (map fst (newestFirst (rangeMap m)))"
  using newestFirst_mset [OF assms(1), of m] assms(2) by (metis mset_map mset_eq_imp_distinct_iff)

lemma mset_filter_length: "mset xs = mset ys \<Longrightarrow> length (filter P xs) = length (filter P ys)"
  by (metis mset_filter size_mset)

lemma prunePerPlan_bound:
  assumes "visits_all rangeMap" "distinct (map fst (SinkStatuses (no_Status n)))"
  shows "length (filter (in_group g) (SinkStatuses (no_Status (pruneSinkStatusesPerPlan rangeMap n)))) \<le> MaxSinkStatusCyclesPerPlan"
proof (cases "length (SinkStatuses (no_Status n)) \<le> 1")
  case True
  then have "length (filter (in_group g) (SinkStatuses (no_Status n))) \<le> 1"
    using length_filter_le order_trans by blast
  then show ?thesis using True by (simp add: pruneSinkStatusesPerPlan_def MaxSinkStatusCyclesPerPlan_def)
next
  case False
  let ?m = "SinkStatuses (no_Status n)"
  let ?all = "newestFirst (rangeMap ?m)"
  have "length (filter (\<lambda>kv. in_group g kv \<and> fst kv \<notin> set (droppedKeys ?all (lookup_default 0 []))) ?all) \<le> MaxSinkStatusCyclesPerPlan"
    using droppedKeys_count [OF newestFirst_distinct [OF assms], of g "lookup_default 0 []"]
    by (simp add: lookup_default_def)
  then show ?thesis using False mset_filter_length [OF newestFirst_mset [OF assms(1), of ?m]]
    by (simp add: pruneSinkStatusesPerPlan_def Let_def prunePerPlanLoop_filter conj_commute)
qed

lemma prunePerPlan_filter:
  "\<exists>P. SinkStatuses (no_Status (pruneSinkStatusesPerPlan rangeMap n)) = filter P (SinkStatuses (no_Status n))"
  by (auto simp: pruneSinkStatusesPerPlan_def Let_def prunePerPlanLoop_filter intro: exI [of _ "\<lambda>_. True"])

lemma fold_delete_filter:
  "fold (\<lambda>kv. AList.delete (fst kv)) ks m = filter (\<lambda>kv. fst kv \<notin> fst ` set ks) m"
  by (induction ks arbitrary: m) (auto simp: AList.delete_eq case_prod_beta' intro!: filter_cong)

lemma pruneMax_filter:
  "\<exists>P. SinkStatuses (no_Status (pruneSinkStatusesToMaxEntries rangeMap n)) = filter P (SinkStatuses (no_Status n))"
  by (auto simp: pruneSinkStatusesToMaxEntries_def Let_def fold_delete_filter intro: exI [of _ "\<lambda>_. True"])

lemma filter_not_dropped:
  assumes "distinct (map fst xs)"
  shows "filter (\<lambda>kv. fst kv \<notin> fst ` set (drop k xs)) xs = take k xs"
proof -
  have "set (map fst (take k xs)) \<inter> set (map fst (drop k xs)) = {}"
    using assms by (metis append_take_drop_id distinct_append map_append)
  then have "filter (\<lambda>kv. fst kv \<notin> fst ` set (drop k xs)) (take k xs) = take k xs"
    by (auto simp: filter_id_conv)
  moreover have "filter (\<lambda>kv. fst kv \<notin> fst ` set (drop k xs)) (drop k xs) = []"
    by (simp add: filter_empty_conv)
  ultimately show ?thesis by (metis append_Nil2 append_take_drop_id filter_append)
qed

lemma pruneMax_bound:
  assumes "visits_all rangeMap" "distinct (map fst (SinkStatuses (no_Status n)))"
  shows "length (SinkStatuses (no_Status (pruneSinkStatusesToMaxEntries rangeMap n))) \<le> MaxSinkStatusEntries"
proof -
  let ?m = "SinkStatuses (no_Status n)"
  let ?all = "newestFirst (rangeMap ?m)"
  have "length (filter (\<lambda>kv. fst kv \<notin> fst ` set (drop MaxSinkStatusEntries ?all)) ?m) =
      length (take MaxSinkStatusEntries ?all)"
    using filter_not_dropped [OF newestFirst_distinct [OF assms]] mset_filter_length [OF newestFirst_mset [OF assms(1), of ?m]]
    by metis
  then show ?thesis by (simp add: pruneSinkStatusesToMaxEntries_def Let_def fold_delete_filter)
qed

text \<open>A strictly newest entry survives both prunings.\<close>

definition newest :: "string \<times> NotificationSinkStatus \<Rightarrow> (string \<times> NotificationSinkStatus) list \<Rightarrow> bool" where
  "newest e m \<longleftrightarrow> e \<in> set m \<and> (\<forall>kv \<in> set m. kv \<noteq> e \<longrightarrow> stamp kv < stamp e)"

lemma newest_filter: "newest e m \<Longrightarrow> P e \<Longrightarrow> newest e (filter P m)"
  by (auto simp: newest_def)

lemma newest_head:
  assumes "visits_all rangeMap" "newest e m"
  obtains rest where "newestFirst (rangeMap m) = e # rest"
proof (cases "newestFirst (rangeMap m)")
  case Nil
  then show ?thesis using newestFirst_mset [OF assms(1), of m] assms(2) by (auto simp: newest_def)
next
  case (Cons x rest)
  have s: "set (newestFirst (rangeMap m)) = set m" using newestFirst_mset [OF assms(1)] by (metis set_mset_mset)
  have "x = e"
  proof (rule ccontr)
    assume "x \<noteq> e"
    moreover from this have "e \<in> set rest" using s Cons assms(2) by (auto simp: newest_def)
    moreover have "x \<in> set m" using s Cons by auto
    ultimately show False using newestFirst_sorted [of "rangeMap m"] Cons assms(2) by (fastforce simp: newest_def)
  qed
  then show ?thesis using that Cons by simp
qed

lemma newest_kept_per_plan:
  assumes "visits_all rangeMap" "distinct (map fst (SinkStatuses (no_Status n)))" "newest e (SinkStatuses (no_Status n))"
  shows "newest e (SinkStatuses (no_Status (pruneSinkStatusesPerPlan rangeMap n)))"
proof -
  let ?m = "SinkStatuses (no_Status n)"
  obtain rest where h: "newestFirst (rangeMap ?m) = e # rest" using newest_head [OF assms(1,3)] .
  obtain k ss where e: "e = (k, ss)" by fastforce
  have "k \<notin> fst ` set rest" using newestFirst_distinct [OF assms(1,2)] h e by auto
  then have "fst e \<notin> set (droppedKeys (e # rest) (lookup_default 0 []))"
    using droppedKeys_subset [of rest "(lookup_default 0 [])(statusGroup ss := Suc (lookup_default 0 [] (statusGroup ss)))"]
    unfolding e by (auto simp: lookup_default_def MaxSinkStatusCyclesPerPlan_def)
  then show ?thesis using newest_filter [OF assms(3)] assms(3) h
    by (simp add: pruneSinkStatusesPerPlan_def Let_def prunePerPlanLoop_filter)
qed

lemma newest_kept_max:
  assumes "visits_all rangeMap" "distinct (map fst (SinkStatuses (no_Status n)))" "newest e (SinkStatuses (no_Status n))"
  shows "newest e (SinkStatuses (no_Status (pruneSinkStatusesToMaxEntries rangeMap n)))"
proof -
  let ?m = "SinkStatuses (no_Status n)"
  obtain rest where h: "newestFirst (rangeMap ?m) = e # rest" using newest_head [OF assms(1,3)] .
  have "fst e \<notin> fst ` set rest" using newestFirst_distinct [OF assms(1,2)] h by auto
  then have "fst e \<notin> fst ` set (drop MaxSinkStatusEntries (e # rest))"
    using in_set_dropD by (fastforce simp: MaxSinkStatusEntries_def drop_Cons split: nat.splits)
  then show ?thesis using newest_filter [OF assms(3)] assms(3) h
    by (simp add: pruneSinkStatusesToMaxEntries_def Let_def fold_delete_filter)
qed

lemma prunePerPlan_drops_oldest:
  assumes "visits_all rangeMap" "distinct (map fst (SinkStatuses (no_Status n)))"
    and "a \<in> set (SinkStatuses (no_Status n))" "b \<in> set (SinkStatuses (no_Status n))" "in_group g a" "in_group g b"
    and "a \<notin> set (SinkStatuses (no_Status (pruneSinkStatusesPerPlan rangeMap n)))"
    and "b \<in> set (SinkStatuses (no_Status (pruneSinkStatusesPerPlan rangeMap n)))"
  shows "stamp a \<le> stamp b"
proof -
  let ?m = "SinkStatuses (no_Status n)"
  have s: "set (newestFirst (rangeMap ?m)) = set ?m" using newestFirst_mset [OF assms(1)] by (metis set_mset_mset)
  show ?thesis
    using droppedKeys_older [OF newestFirst_sorted newestFirst_distinct [OF assms(1,2)], of a b g "lookup_default 0 []"] assms(3-) s
    by (auto simp: pruneSinkStatusesPerPlan_def Let_def prunePerPlanLoop_filter split: if_splits)
qed

lemma update_member:
  assumes "distinct (map fst m)"
  shows "kv \<in> set (AList.update k v m) \<longleftrightarrow> kv = (k, v) \<or> fst kv \<noteq> k \<and> kv \<in> set m"
  using assms by (induction m) (auto simp: image_iff)

abbreviation recordedFor :: "DeliveryResult \<Rightarrow> NotificationObject \<Rightarrow> NotificationSinkStatus" where
  "recordedFor r n \<equiv> recordedEntry r (case map_of (SinkStatuses (no_Status n)) (dr_ID r) of Some e \<Rightarrow> e | None \<Rightarrow> newEntry r)"

lemma recordDelivery_statuses:
  "SinkStatuses (no_Status (recordDelivery r n)) = AList.update (dr_ID r) (recordedFor r n) (SinkStatuses (no_Status n))"
  by (simp add: recordDelivery_def Let_def)

lemma prunings_distinct:
  assumes "distinct (map fst (SinkStatuses (no_Status n)))"
  shows "distinct (map fst (SinkStatuses (no_Status (pruneSinkStatusesPerPlan rangeMap n))))"
    "distinct (map fst (SinkStatuses (no_Status (pruneSinkStatusesToMaxEntries rangeMap n))))"
  using prunePerPlan_filter [of rangeMap n] pruneMax_filter [of rangeMap n] assms by (auto simp: distinct_map_filter)

lemma recorded_kept:
  assumes "visits_all rangeMap" "distinct (map fst (SinkStatuses (no_Status n)))"
    and "\<forall>kv \<in> set (SinkStatuses (no_Status n)). fst kv \<noteq> dr_ID r \<longrightarrow> stamp kv < t_ns (dr_Timestamp r)"
  shows "map_of (SinkStatuses (no_Status (Mutate rangeMap (RecordDelivery r) n))) (dr_ID r) = Some (recordedFor r n)"
proof -
  have d: "distinct (map fst (SinkStatuses (no_Status (recordDelivery r n))))"
    using assms(2) by (simp add: recordDelivery_statuses distinct_update)
  have "stamp (dr_ID r, recordedFor r n) = t_ns (dr_Timestamp r)" by (simp add: recordedEntry_def Let_def)
  then have "newest (dr_ID r, recordedFor r n) (SinkStatuses (no_Status (recordDelivery r n)))"
    using assms(3) update_member [OF assms(2)] unfolding newest_def recordDelivery_statuses by fastforce
  from newest_kept_max [OF assms(1) prunings_distinct(1) [OF d] newest_kept_per_plan [OF assms(1) d this]]
  show ?thesis using prunings_distinct(2) [OF prunings_distinct(1) [OF d]] by (simp add: newest_def)
qed

text \<open>
  C34.  After a delivery is recorded, and whatever order Go visits the map in: at most 500 records
  are left, at most two for each pair of sink and plan, every record but the new one is unchanged,
  and the new one, with its counters, is there if it is newer than the others.
\<close>

theorem delivery_retention:
  assumes "visits_all rangeMap" "distinct (map fst (SinkStatuses (no_Status n)))"
  shows "distinct (map fst (SinkStatuses (no_Status (Mutate rangeMap (RecordDelivery r) n)))) \<and>
    length (SinkStatuses (no_Status (Mutate rangeMap (RecordDelivery r) n))) \<le> 500 \<and>
    (\<forall>g. length (filter (in_group g) (SinkStatuses (no_Status (Mutate rangeMap (RecordDelivery r) n)))) \<le> 2) \<and>
    (\<forall>kv \<in> set (SinkStatuses (no_Status (Mutate rangeMap (RecordDelivery r) n))).
       fst kv \<noteq> dr_ID r \<longrightarrow> kv \<in> set (SinkStatuses (no_Status n))) \<and>
    ((\<forall>kv \<in> set (SinkStatuses (no_Status n)). fst kv \<noteq> dr_ID r \<longrightarrow> stamp kv < t_ns (dr_Timestamp r)) \<longrightarrow>
       map_of (SinkStatuses (no_Status (Mutate rangeMap (RecordDelivery r) n))) (dr_ID r) =
         Some (recordedEntry r (case map_of (SinkStatuses (no_Status n)) (dr_ID r) of Some e \<Rightarrow> e | None \<Rightarrow> newEntry r)))"
proof -
  let ?n1 = "recordDelivery r n"
  let ?n2 = "pruneSinkStatusesPerPlan rangeMap ?n1"
  let ?n3 = "pruneSinkStatusesToMaxEntries rangeMap ?n2"
  have d1: "distinct (map fst (SinkStatuses (no_Status ?n1)))"
    using assms(2) by (simp add: recordDelivery_statuses distinct_update)
  note d2 = prunings_distinct(1) [OF d1, of rangeMap]
  note d3 = prunings_distinct(2) [OF d2, of rangeMap]
  obtain P where P: "SinkStatuses (no_Status ?n2) = filter P (SinkStatuses (no_Status ?n1))" using prunePerPlan_filter by blast
  obtain Q where Q: "SinkStatuses (no_Status ?n3) = filter Q (SinkStatuses (no_Status ?n2))" using pruneMax_filter by blast
  have "length (filter (in_group g) (SinkStatuses (no_Status ?n3))) \<le> 2" for g
    using prunePerPlan_bound [OF assms(1) d1, of g] length_filter_le [of Q "filter (in_group g) (SinkStatuses (no_Status ?n2))"] Q
    by (simp add: MaxSinkStatusCyclesPerPlan_def conj_commute)
  moreover have "kv \<in> set (SinkStatuses (no_Status n))"
    if "kv \<in> set (SinkStatuses (no_Status ?n3))" "fst kv \<noteq> dr_ID r" for kv
    using that P Q recordDelivery_statuses [of r n] update_member [OF assms(2)] by fastforce
  ultimately show ?thesis using d3 pruneMax_bound [OF assms(1) d2] recorded_kept [OF assms] by (simp add: MaxSinkStatusEntries_def)
qed

section \<open>Bindings\<close>

text \<open>The finalizer is on the object exactly when a plan is watched.\<close>

definition finalizer_ok :: "NotificationObject \<Rightarrow> bool" where
  "finalizer_ok n \<longleftrightarrow> (NotificationFinalizerName \<in> set (no_Finalizers n) \<longleftrightarrow> WatchedPlans (no_Status n) \<noteq> [])"

definition answers_fresh :: "lc_api \<Rightarrow> bool" where
  "answers_fresh api \<longleftrightarrow> (\<forall>i n. lc_Get api i (Some n) = Inr n) \<and> lc_Patch api = None"

lemma Mutate_metadata [simp]:
  "no_Finalizers (upsertPlan p n) = no_Finalizers n" "no_Finalizers (removePlan p n) = no_Finalizers n"
  "no_Deleting (upsertPlan p n) = no_Deleting n" "no_Deleting (removePlan p n) = no_Deleting n"
  "no_Generation (upsertPlan p n) = no_Generation n"
  "ns_ObservedGeneration (no_Status (upsertPlan p n)) = no_Generation n"
  by (simp_all add: upsertPlan_def removePlan_def Let_def)

lemma watched_empty_iff: "WatchedPlans st = [] \<longleftrightarrow> set (planNames st) = {}"
  by (simp add: planNames_def)

text \<open>
  C35.  A binding of a notification that is not under deletion, handled on a current snapshot, with the API reachable: once its update is
  written the plan is watched exactly when the selector matches, the other plans are untouched,
  the state is Bound exactly when a plan is watched, and so is the finalizer present.
\<close>

theorem binding_converges:
  assumes "answers_fresh api" "watched_ok (no_Status n)" "finalizer_ok n" "\<not> no_Deleting n"
    and "handleBinding api p (Some \<lparr>nc_Notification = Some n, nc_Matches = mt\<rparr>) (Some n) = (srv, us)"
  shows "\<exists>n'. writeUpdates rangeMap us srv = Some n' \<and> watched_ok (no_Status n') \<and> finalizer_ok n' \<and>
    set (planNames (no_Status n')) = (if mt then insert p (set (planNames (no_Status n))) else set (planNames (no_Status n)) - {p})"
proof (cases mt)
  case True
  define n1 where "n1 = (if NotificationFinalizerName \<in> set (no_Finalizers n) then n
      else n\<lparr>no_Finalizers := no_Finalizers n @ [NotificationFinalizerName]\<rparr>)"
  have srv: "srv = Some n1" "us = upsertPlanRef p n"
    using assms True by (auto simp: handleBinding_def ensureFinalizer_def patchFinalizers_def answers_fresh_def n1_def)
  have st: "no_Status n1 = no_Status n" and f: "NotificationFinalizerName \<in> set (no_Finalizers n1)" by (simp_all add: n1_def)
  show ?thesis
  proof (cases "us = []")
    case nil: True
    then have "p \<in> set (planNames (no_Status n))" using srv by (auto simp: upsertPlanRef_def tracksPlan_iff split: if_splits)
    then show ?thesis using True nil srv st f assms(2)
      by (auto simp: writeUpdates_def finalizer_ok_def watched_empty_iff)
  next
    case False
    then have "us = [UpsertPlan p]" using srv by (auto simp: upsertPlanRef_def split: if_splits)
    then show ?thesis using True srv f Mutate_watched [of n1 rangeMap "UpsertPlan p"] assms(2) st
      by (auto simp: writeUpdates_def finalizer_ok_def watched_empty_iff)
  qed
next
  case False
  show ?thesis
  proof (cases "tracksPlan p (no_Status n)")
    case untracked: False
    then show ?thesis using False assms
      by (auto simp: handleBinding_def removePlanRef_def writeUpdates_def tracksPlan_iff)
  next
    case True
    have fin: "NotificationFinalizerName \<in> set (no_Finalizers n)"
      using True assms(3) by (auto simp: finalizer_ok_def watched_empty_iff tracksPlan_iff)
    define n1 where "n1 = (if filter (\<lambda>ref. pr_Name ref \<noteq> p) (WatchedPlans (no_Status n)) = []
        then n\<lparr>no_Finalizers := filter (\<lambda>f. f \<noteq> NotificationFinalizerName) (no_Finalizers n)\<rparr> else n)"
    have srv: "srv = Some n1" "us = [RemovePlan p]"
      using assms True False fin
      by (auto simp: handleBinding_def removePlanRef_def removeFinalizer_def patchFinalizers_def answers_fresh_def Let_def n1_def)
    have st: "no_Status n1 = no_Status n" by (simp add: n1_def)
    have "NotificationFinalizerName \<in> set (no_Finalizers n1) \<longleftrightarrow> set (planNames (no_Status n)) - {p} \<noteq> {}"
      using fin by (auto simp: n1_def planNames_def filter_empty_conv)
    moreover have "watched_ok (no_Status (removePlan p n1))" "set (planNames (no_Status (removePlan p n1))) = set (planNames (no_Status n)) - {p}"
      using Mutate_watched [of n1 rangeMap "RemovePlan p"] assms(2) st by simp_all
    moreover from calculation have "finalizer_ok (removePlan p n1)"
      unfolding finalizer_ok_def watched_empty_iff by (simp only: Mutate_metadata)
    ultimately show ?thesis using False srv by (intro exI [of _ "removePlan p n1"]) (simp add: writeUpdates_def)
  qed
qed


text \<open>A notification that is being deleted is released, whatever plans it watched.\<close>

lemma deletion_released:
  assumes "answers_fresh api" "no_Deleting n" "set (no_Finalizers n) = {NotificationFinalizerName}"
  shows "fst (handleBinding api p (Some \<lparr>nc_Notification = Some n, nc_Matches = mt\<rparr>) (Some n)) = None"
  using assms by (auto simp: handleBinding_def handleNotificationDeletion_def removeFinalizer_def patchFinalizers_def
      answers_fresh_def filter_empty_conv)

text \<open>
  A binding is only stored anew when a plan is reconciled, and a status write of the notification
  does not trigger that: the last binding of a plan can predate its entry in the status.  Deleting
  the plan then leaves it in the watched plans for good.
\<close>

definition exampleObject :: "string list \<Rightarrow> NotificationObject" where
  "exampleObject plans = \<lparr>no_Generation = 1, no_Finalizers = (if plans = [] then [] else [NotificationFinalizerName]),
     no_Deleting = False,
     no_Status = \<lparr>ns_State = (if plans = [] then NotificationStateDetached else NotificationStateBound),
       WatchedPlans = map (\<lambda>p. \<lparr>pr_Name = p, pr_Namespace = []\<rparr>) plans, LastDeliveryTime = None,
       LastFailureTime = None, SinkStatuses = [], ns_ObservedGeneration = 1\<rparr>\<rparr>"

definition freshApi :: lc_api where
  "freshApi = \<lparr>lc_Get = \<lambda>_ srv. (case srv of None \<Rightarrow> Inl (ApiError NotFound) | Some n \<Rightarrow> Inr n), lc_Patch = None\<rparr>"

lemmas example_defs = exampleObject_def freshApi_def onUpdate_def handleBinding_def removePlanRef_def upsertPlanRef_def
  ensureFinalizer_def removeFinalizer_def patchFinalizers_def writeUpdates_def tracksPlan_def removePlan_def upsertPlan_def

lemma deleted_plan_stays_watched:
  "onUpdate freshApi True ''a'' (Some \<lparr>nc_Notification = Some (exampleObject []), nc_Matches = True\<rparr>)
     (Some (exampleObject [''a''])) = Some (Some (exampleObject [''a'']), [])"
  by (simp add: onUpdate_def removePlanRef_def tracksPlan_def exampleObject_def)

text \<open>
  Two plans deleted together are handled on bindings that both list both plans: each removal
  expects the other plan to remain, so neither removes the finalizer.  The notification ends
  Detached with the finalizer still on it; without another plan in the namespace, no binding comes
  that would remove it.
\<close>

lemma detached_keeps_finalizer:
  "\<exists>srv1 us1 srv2 us2 n'.
     onUpdate freshApi True ''a'' (Some \<lparr>nc_Notification = Some (exampleObject [''a'', ''b'']), nc_Matches = True\<rparr>)
       (Some (exampleObject [''a'', ''b''])) = Some (srv1, us1) \<and>
     onUpdate freshApi True ''b'' (Some \<lparr>nc_Notification = Some (exampleObject [''a'', ''b'']), nc_Matches = True\<rparr>)
       srv1 = Some (srv2, us2) \<and>
     writeUpdates rangeMap (us1 @ us2) srv2 = Some n' \<and>
     ns_State (no_Status n') = NotificationStateDetached \<and> NotificationFinalizerName \<in> set (no_Finalizers n')"
  by (simp add: example_defs)

text \<open>The converse: a removal on a binding older than the second plan drops the finalizer while that plan is watched.\<close>

lemma bound_without_finalizer:
  "\<exists>srv us n'.
     onUpdate freshApi True ''a'' (Some \<lparr>nc_Notification = Some (exampleObject [''a'']), nc_Matches = True\<rparr>)
       (Some (exampleObject [''a'', ''b''])) = Some (srv, us) \<and>
     writeUpdates rangeMap us srv = Some n' \<and>
     ns_State (no_Status n') = NotificationStateBound \<and> no_Finalizers n' = []"
  by (simp add: example_defs)

section \<open>Examples\<close>

definition exampleResult :: DeliveryResult where
  "exampleResult = \<lparr>dr_ID = ''s|ns/a|c1|shutdown'', dr_NotificationRef = (''ns'', ''n''), dr_SinkName = ''s'',
     dr_PlanNamespace = ''ns'', dr_PlanName = ''a'', dr_CycleID = ''c1'', dr_Operation = ''shutdown'',
     dr_Timestamp = zeroTime\<lparr>t_ns := 5\<rparr>, dr_Success = True, dr_Error = None, dr_States = []\<rparr>"

theorem watched_plans_refine_set_witness:
  "watched_ok (no_Status (fold (Mutate id) [UpsertPlan ''b'', RemovePlan ''a''] (exampleObject [''a'']))) \<and>
   set (planNames (no_Status (fold (Mutate id) [UpsertPlan ''b'', RemovePlan ''a''] (exampleObject [''a''])))) = {''b''}"
proof -
  have "watched_ok (no_Status (exampleObject [''a'']))" by (simp add: watched_ok_def exampleObject_def planNames_def)
  from watched_plans_refine_set [OF this, of id "[UpsertPlan ''b'', RemovePlan ''a'']"]
  show ?thesis by (auto simp: exampleObject_def planNames_def)
qed

theorem delivery_retention_witness:
  "length (SinkStatuses (no_Status (Mutate rev (RecordDelivery exampleResult) (exampleObject [''a''])))) \<le> 500 \<and>
   map_of (SinkStatuses (no_Status (Mutate rev (RecordDelivery exampleResult) (exampleObject [''a''])))) ''s|ns/a|c1|shutdown'' =
     Some (recordedEntry exampleResult (newEntry exampleResult))"
proof -
  have "visits_all rev" "distinct (map fst (SinkStatuses (no_Status (exampleObject [''a'']))))"
    by (simp_all add: visits_all_def exampleObject_def)
  from delivery_retention [OF this, of exampleResult] show ?thesis
    by (simp add: exampleObject_def exampleResult_def)
qed

theorem binding_converges_witness:
  "\<exists>n'. writeUpdates id [UpsertPlan ''b''] (Some (exampleObject [''a''])) = Some n' \<and> watched_ok (no_Status n') \<and>
     finalizer_ok n' \<and> set (planNames (no_Status n')) = {''a'', ''b''}"
proof -
  have a: "answers_fresh freshApi" "watched_ok (no_Status (exampleObject [''a'']))" "finalizer_ok (exampleObject [''a''])"
    "\<not> no_Deleting (exampleObject [''a''])"
    by (simp_all add: answers_fresh_def freshApi_def watched_ok_def finalizer_ok_def exampleObject_def planNames_def)
  have "handleBinding freshApi ''b'' (Some \<lparr>nc_Notification = Some (exampleObject [''a'']), nc_Matches = True\<rparr>)
      (Some (exampleObject [''a''])) = (Some (exampleObject [''a'']), [UpsertPlan ''b''])"
    by (simp add: example_defs)
  from binding_converges [OF a this, of id] show ?thesis by (auto simp: exampleObject_def planNames_def)
qed

end
