(* ===== verification/Provider.thy ===== *)
theory Provider
  imports Requeue NotifLifecycle ExecParams GoDuration "HOL-Library.Sublist"
begin

text \<open>
  The provider: the plan reconciler (\<^verbatim>\<open>internal/provider/provider.go\<close>, \<^verbatim>\<open>types.go\<close>),
  which collects a plan with its exceptions and notifications and publishes them, and the messages
  it publishes (\<^verbatim>\<open>internal/message/types.go\<close>, \<^verbatim>\<open>watchutil.go\<close>).  The watchable
  maps are third-party: what the reconciler does to them is a list of effects.  The cluster, the
  label-selector library and the restore manager are fields of the environment.
\<close>

section \<open>Messages\<close>

type_synonym NamespacedName = "string \<times> string"

record NotificationBindingKey =
  bk_Namespace :: string
  bk_NotificationName :: string
  bk_PlanName :: string

definition NewNotificationBindingKey :: "NamespacedName \<Rightarrow> NamespacedName \<Rightarrow> NotificationBindingKey res" where
  "NewNotificationBindingKey notif plan =
     (if fst notif \<noteq> fst plan
      then Inl (ErrMsg (''notification and plan must be in the same namespace: '' @ fst notif @ '' != '' @ fst plan))
      else Inr \<lparr>bk_Namespace = fst notif, bk_NotificationName = snd notif, bk_PlanName = snd plan\<rparr>)"

definition GetNotificationKey :: "NotificationBindingKey \<Rightarrow> NamespacedName" where
  "GetNotificationKey k = (bk_Namespace k, bk_NotificationName k)"

definition GetPlanKey :: "NotificationBindingKey \<Rightarrow> NamespacedName" where
  "GetPlanKey k = (bk_Namespace k, bk_PlanName k)"

text \<open>The metadata by which messages are compared: name, namespace, UID and resource version.\<close>

record ObjectMeta =
  om_Name :: string
  om_Namespace :: string
  om_UID :: string
  om_ResourceVersion :: string

record ScheduleEvaluation =
  se_Exceptions :: "(ObjectMeta \<times> ScheduleException) list"
  se_ShouldHibernate :: bool
  NextEvent :: Time

text \<open>A HibernateNotification as the reconciler lists it.\<close>

record NotificationItem =
  ni_Meta :: ObjectMeta
  ni_Spec :: HibernateNotification
  ni_Selector :: LabelSelector
  ni_Object :: NotificationObject

record PlanContext =
  pc_Plan :: "(ObjectMeta \<times> HibernatePlan) option"
  pc_Schedule :: "ScheduleEvaluation option"
  pc_Exceptions :: "(ObjectMeta \<times> ScheduleException) list"
  pc_Notifications :: "NotificationItem list"
  ctx_HasRestoreData :: bool
  DeliveryNonce :: int

definition planEqual :: "ObjectMeta \<times> HibernatePlan \<Rightarrow> ObjectMeta \<times> HibernatePlan \<Rightarrow> bool" where
  "planEqual a b \<longleftrightarrow> fst a = fst b \<and> Phase (Status (snd a)) = Phase (Status (snd b))"

definition exceptionsEqual :: "ObjectMeta \<times> ScheduleException \<Rightarrow> ObjectMeta \<times> ScheduleException \<Rightarrow> bool" where
  "exceptionsEqual a b \<longleftrightarrow> fst a = fst b"

definition notificationsEqual :: "NotificationItem \<Rightarrow> NotificationItem \<Rightarrow> bool" where
  "notificationsEqual a b \<longleftrightarrow> ni_Meta a = ni_Meta b"

definition scheduleEqual :: "ScheduleEvaluation \<Rightarrow> ScheduleEvaluation \<Rightarrow> bool" where
  "scheduleEqual a b \<longleftrightarrow> list_all2 exceptionsEqual (se_Exceptions a) (se_Exceptions b) \<and>
     se_ShouldHibernate a = se_ShouldHibernate b \<and> TimeEqual (NextEvent a) (NextEvent b)"

definition PlanContext_Equal :: "PlanContext \<Rightarrow> PlanContext \<Rightarrow> bool" where
  "PlanContext_Equal a b \<longleftrightarrow>
     ctx_HasRestoreData a = ctx_HasRestoreData b \<and> DeliveryNonce a = DeliveryNonce b \<and>
     rel_option planEqual (pc_Plan a) (pc_Plan b) \<and>
     list_all2 exceptionsEqual (pc_Exceptions a) (pc_Exceptions b) \<and>
     list_all2 notificationsEqual (pc_Notifications a) (pc_Notifications b) \<and>
     rel_option scheduleEqual (pc_Schedule a) (pc_Schedule b)"

text \<open>A binding: the context of \<open>NotifLifecycle\<close> with the plan it is for.\<close>

record BindingContext = NotificationContext +
  nc_Item :: NotificationItem
  nc_PlanKey :: NamespacedName
  nc_PlanLabels :: "(string \<times> string) list"

text \<open>
  Two string maps are compared by length and by looking up the keys of the first in the second; a
  missing key reads as the empty string.
\<close>

definition mapsEqual :: "(string \<times> string) list \<Rightarrow> (string \<times> string) list \<Rightarrow> bool" where
  "mapsEqual a b \<longleftrightarrow> length a = length b \<and> list_all (\<lambda>(k, v). lookup_default [] b k = v) a"

definition selectorEqual :: "LabelSelector \<Rightarrow> LabelSelector \<Rightarrow> bool" where
  "selectorEqual a b \<longleftrightarrow> mapsEqual (ls_MatchLabels a) (ls_MatchLabels b) \<and>
     list_all2 (\<lambda>ae be. lr_Key ae = lr_Key be \<and> lr_Operator ae = lr_Operator be \<and> lr_Values ae = lr_Values be)
       (ls_MatchExpressions a) (ls_MatchExpressions b)"

definition NotificationContext_Equal :: "BindingContext \<Rightarrow> BindingContext \<Rightarrow> bool" where
  "NotificationContext_Equal a b \<longleftrightarrow>
     nc_Matches a = nc_Matches b \<and> nc_PlanKey a = nc_PlanKey b \<and> mapsEqual (nc_PlanLabels a) (nc_PlanLabels b) \<and>
     (case (nc_Notification a, nc_Notification b) of
        (Some _, Some _) \<Rightarrow>
          selectorEqual (ni_Selector (nc_Item a)) (ni_Selector (nc_Item b)) \<and> notificationsEqual (nc_Item a) (nc_Item b)
      | (x, y) \<Rightarrow> (x = None) = (y = None))"

section \<open>Coalescing updates\<close>

text \<open>An update of a snapshot: a key with its new value, or \<open>None\<close> for a deletion.\<close>

type_synonym ('k, 'v) watch_update = "'k \<times> 'v option"

fun lastUpdates :: "('k, 'v) watch_update list \<Rightarrow> 'k list \<Rightarrow> ('k, 'v) watch_update list" where
  "lastUpdates [] seen = []"
| "lastUpdates (u # us) seen =
     (if fst u \<in> set seen then lastUpdates us seen else u # lastUpdates us (fst u # seen))"

definition coalesceUpdates :: "('k, 'v) watch_update list \<Rightarrow> ('k, 'v) watch_update list" where
  "coalesceUpdates updates = (if length updates \<le> 1 then updates else rev (lastUpdates (rev updates) []))"

section \<open>Counters and bindings\<close>

type_synonym nonces = "NamespacedName \<rightharpoonup> int"

definition nonce_Get :: "NamespacedName \<Rightarrow> nonces \<Rightarrow> int" where
  "nonce_Get key m = (case m key of None \<Rightarrow> 0 | Some n \<Rightarrow> n)"

definition nonce_Add :: "NamespacedName \<Rightarrow> int \<Rightarrow> nonces \<Rightarrow> nonces" where
  "nonce_Add key delta m = m(key \<mapsto> wrap64 (nonce_Get key m + delta))"

definition nonce_Inc :: "NamespacedName \<Rightarrow> nonces \<Rightarrow> nonces" where
  "nonce_Inc key m = nonce_Add key 1 m"

definition nonce_Set :: "NamespacedName \<Rightarrow> int \<Rightarrow> nonces \<Rightarrow> nonces" where
  "nonce_Set key n m = m(key \<mapsto> n)"

definition nonce_Delete :: "NamespacedName \<Rightarrow> nonces \<Rightarrow> nonces" where
  "nonce_Delete key m = m(key := None)"

text \<open>
  The tracker keeps the binding keys each plan has written.  Both operations yield the keys they
  delete, in the order of the previous set.
\<close>

type_synonym tracker = "NamespacedName \<rightharpoonup> NotificationBindingKey list"

definition trackedKeys :: "tracker \<Rightarrow> NamespacedName \<Rightarrow> NotificationBindingKey list" where
  "trackedKeys m planKey = (case m planKey of None \<Rightarrow> [] | Some ks \<Rightarrow> ks)"

definition tracker_Reconcile :: "NamespacedName \<Rightarrow> NotificationBindingKey list \<Rightarrow> tracker \<Rightarrow>
    NotificationBindingKey list \<times> tracker" where
  "tracker_Reconcile planKey currentKeys m =
     (filter (\<lambda>k. k \<notin> set currentKeys) (trackedKeys m planKey), m(planKey \<mapsto> currentKeys))"

definition tracker_DeletePlan :: "NamespacedName \<Rightarrow> tracker \<Rightarrow> NotificationBindingKey list \<times> tracker" where
  "tracker_DeletePlan planKey m = (trackedKeys m planKey, m(planKey := None))"

section \<open>The reconciler\<close>

datatype map_effect =
    StorePlan NamespacedName PlanContext
  | DropPlan NamespacedName
  | StoreBinding NotificationBindingKey BindingContext
  | DropBinding NotificationBindingKey

record provider_state =
  NotificationBindings :: tracker
  DependencyNonces :: nonces

record provider_env =
  getPlan :: "NamespacedName \<Rightarrow> (ObjectMeta \<times> HibernatePlan) res"
  planLabels :: "HibernatePlan \<Rightarrow> (string \<times> string) list"
  listExceptions :: "string \<Rightarrow> string \<Rightarrow> (ObjectMeta \<times> ScheduleException) list res"
  listNotifications :: "string \<Rightarrow> NotificationItem list res"
  LabelSelectorAsSelector :: "LabelSelector \<Rightarrow> ((string \<times> string) list \<Rightarrow> bool) res"
  hasRestoreData :: "string \<Rightarrow> string \<Rightarrow> bool res"
  providerNow :: Time
  evaluator :: "ScheduleEvaluator option"

fun publishLoop :: "provider_env \<Rightarrow> NamespacedName \<Rightarrow> HibernatePlan \<Rightarrow> NotificationItem list \<Rightarrow>
    map_effect list \<times> (NotificationItem list \<times> NotificationBindingKey list) res" where
  "publishLoop env planKey plan [] = ([], Inr ([], []))"
| "publishLoop env planKey plan (notif # rest) =
     (case LabelSelectorAsSelector env (ni_Selector notif) of
        Inl err \<Rightarrow> publishLoop env planKey plan rest
      | Inr selector \<Rightarrow>
          (let mt = selector (planLabels env plan) in
           case NewNotificationBindingKey (om_Namespace (ni_Meta notif), om_Name (ni_Meta notif))
                  (Namespace plan, Name plan) of
             Inl err \<Rightarrow> ([], Inl err)
           | Inr bindingKey \<Rightarrow>
               (case publishLoop env planKey plan rest of
                  (effs, res) \<Rightarrow>
                    (StoreBinding bindingKey
                       \<lparr>nc_Notification = Some (ni_Object notif), nc_Matches = mt, nc_Item = notif,
                        nc_PlanKey = planKey, nc_PlanLabels = planLabels env plan\<rparr> # effs,
                     (case res of
                        Inl err \<Rightarrow> Inl err
                      | Inr (matched, keys) \<Rightarrow>
                          Inr (if mt then notif # matched else matched, bindingKey # keys))))))"

definition fetchAndPublishNotifications :: "provider_env \<Rightarrow> HibernatePlan \<Rightarrow> NamespacedName \<Rightarrow> provider_state \<Rightarrow>
    (map_effect list \<times> NotificationItem list res) \<times> provider_state" where
  "fetchAndPublishNotifications env plan planKey st =
     (case listNotifications env (Namespace plan) of
        Inl err \<Rightarrow> (([], Inl err), st)
      | Inr items \<Rightarrow>
          (case publishLoop env planKey plan items of
             (effs, Inl err) \<Rightarrow> ((effs, Inl err), st)
           | (effs, Inr (matched, currentKeys)) \<Rightarrow>
               (case tracker_Reconcile planKey currentKeys (NotificationBindings st) of
                  (stale, t) \<Rightarrow> ((effs @ map DropBinding stale, Inr matched), st\<lparr>NotificationBindings := t\<rparr>))))"

definition deleteNotificationBindings :: "NamespacedName \<Rightarrow> provider_state \<Rightarrow> map_effect list \<times> provider_state" where
  "deleteNotificationBindings planKey st =
     (case tracker_DeletePlan planKey (NotificationBindings st) of
        (keys, t) \<Rightarrow> (map DropBinding keys, st\<lparr>NotificationBindings := t\<rparr>))"

definition convertException :: "ScheduleException \<Rightarrow> Exception" where
  "convertException exc =
     \<lparr>ex_Type = xs_Type (exc_Spec exc), ValidFrom = xs_ValidFrom (exc_Spec exc), ValidUntil = xs_ValidUntil (exc_Spec exc),
      LeadTime = (if xs_LeadTime (exc_Spec exc) = [] then 0
        else (case ParseDuration (xs_LeadTime (exc_Spec exc)) of Inl _ \<Rightarrow> 0 | Inr d \<Rightarrow> d)),
      ex_Windows = xs_Windows (exc_Spec exc)\<rparr>"

text \<open>
  The active exceptions keep their metadata; a result is never absent when evaluation succeeds,
  so the dereference in \<open>computeNextEvent\<close> does not panic.
\<close>

definition activeWithMeta :: "Time \<Rightarrow> (ObjectMeta \<times> ScheduleException) list \<Rightarrow> (ObjectMeta \<times> ScheduleException) list" where
  "activeWithMeta now excs =
     sort_key (\<lambda>e. - t_ns (CreationTimestamp (snd e)))
       (filter (\<lambda>e. filterActiveExceptions now [snd e] \<noteq> []) excs)"

definition evaluateSchedule :: "provider_env \<Rightarrow> HibernatePlan \<Rightarrow> (ObjectMeta \<times> ScheduleException) list \<Rightarrow> ScheduleEvaluation res" where
  "evaluateSchedule env plan allExceptions =
     (case evaluator env of
        None \<Rightarrow> Inl (ErrMsg ''no schedule evaluator configured'')
      | Some e \<Rightarrow>
          (let active = activeWithMeta (providerNow env) allExceptions in
           case Evaluate e (OffHours (sp_Schedule (Spec plan))) (sc_Timezone (sp_Schedule (Spec plan)))
                  (map (Some \<circ> convertException \<circ> snd) active) of
             Inl err \<Rightarrow> Inl err
           | Inr None \<Rightarrow> Inl Panic
           | Inr (Some result) \<Rightarrow>
               Inr \<lparr>se_Exceptions = active, se_ShouldHibernate = ShouldHibernate result,
                  NextEvent = computeNextEvent e result\<rparr>))"

datatype reconcile_result = Done | RequeueAfter duration | ReconcileError go_error

definition RequeueIntervalOnScheduleError :: duration where "RequeueIntervalOnScheduleError = 3 * Minute"

definition Reconcile :: "provider_env \<Rightarrow> NamespacedName \<Rightarrow> provider_state \<Rightarrow>
    (reconcile_result \<times> map_effect list) \<times> provider_state" where
  "Reconcile env key st =
     (case getPlan env key of
        Inl err \<Rightarrow>
          if is_not_found err then
            (case deleteNotificationBindings key (st\<lparr>DependencyNonces := nonce_Delete key (DependencyNonces st)\<rparr>) of
               (effs, st') \<Rightarrow> ((Done, DropPlan key # effs), st'))
          else ((ReconcileError err, []), st)
      | Inr (meta, plan) \<Rightarrow>
          (let allExceptions = (case listExceptions env (Namespace plan) (Name plan) of Inl _ \<Rightarrow> [] | Inr es \<Rightarrow> es) in
           case fetchAndPublishNotifications env plan key st of
             ((effs, notifRes), st') \<Rightarrow>
               (case evaluateSchedule env plan allExceptions of
                  Inl err \<Rightarrow> ((RequeueAfter RequeueIntervalOnScheduleError, effs), st')
                | Inr schedule \<Rightarrow>
                    ((Done, effs @ [StorePlan key
                       \<lparr>pc_Plan = Some (meta, plan), pc_Schedule = Some schedule, pc_Exceptions = allExceptions,
                        pc_Notifications = (case notifRes of Inl _ \<Rightarrow> [] | Inr ns \<Rightarrow> ns),
                        ctx_HasRestoreData = (case hasRestoreData env (Namespace plan) (Name plan) of Inl _ \<Rightarrow> False | Inr b \<Rightarrow> b),
                        DeliveryNonce = nonce_Get key (DependencyNonces st')\<rparr>]), st'))))"

section \<open>Watches\<close>

definition findPlansForException :: "ScheduleException \<Rightarrow> NamespacedName list" where
  "findPlansForException exc = [(exc_Namespace exc, pr_Name (PlanRef (exc_Spec exc)))]"

definition findPlansForNotification :: "provider_env \<Rightarrow> HibernatePlan list res \<Rightarrow> NotificationItem \<Rightarrow> NamespacedName list" where
  "findPlansForNotification env planList notif =
     (case LabelSelectorAsSelector env (ni_Selector notif) of
        Inl _ \<Rightarrow> []
      | Inr selector \<Rightarrow>
          (case planList of
             Inl _ \<Rightarrow> []
           | Inr plans \<Rightarrow>
               (let isMatch = (\<lambda>p. selector (planLabels env p));
                    keyOf = (\<lambda>p. (Namespace p, Name p));
                    matchedPlans = map keyOf (filter isMatch plans);
                    unMatchedPlans = map keyOf (filter (Not \<circ> isMatch) plans) in
                if matchedPlans = [] then unMatchedPlans else matchedPlans)))"

text \<open>An enqueue on a full channel is dropped; \<open>capacity\<close> is that of the channel.\<close>

definition Enqueue :: "nat \<Rightarrow> NamespacedName \<Rightarrow> NamespacedName list \<Rightarrow> NamespacedName list" where
  "Enqueue capacity key ch = (if length ch < capacity then ch @ [key] else ch)"

record JobStatus =
  js_Namespace :: string
  js_Owner :: "string option"
  js_Succeeded :: int
  js_Failed :: int

definition onJobTerminalUpdate :: "JobStatus option \<Rightarrow> JobStatus option \<Rightarrow> nonces \<Rightarrow> bool \<times> nonces" where
  "onJobTerminalUpdate oldObj newObj m =
     (case (oldObj, newObj) of
        (Some oldJob, Some newJob) \<Rightarrow>
          (let wasTerminal = (js_Succeeded oldJob > 0 \<or> js_Failed oldJob > 0);
               isTerminal = (js_Succeeded newJob > 0 \<or> js_Failed newJob > 0);
               condition = (\<not> wasTerminal \<and> isTerminal) in
           if condition then
             (case js_Owner newJob of
                None \<Rightarrow> (condition, m)
              | Some owner \<Rightarrow> (condition, nonce_Inc (js_Namespace newJob, owner) m))
           else (condition, m))
      | _ \<Rightarrow> (False, m))"

section \<open>Facts about the messages\<close>

lemma map_insort_key: "map f (insort_key (\<lambda>a. g (f a)) x xs) = insort_key g (f x) (map f xs)"
  by (induction xs) auto

lemma map_sort_key: "map f (sort_key (\<lambda>a. g (f a)) xs) = sort_key g (map f xs)"
  by (induction xs) (simp_all add: map_insort_key)

lemma activeWithMeta_active: "map snd (activeWithMeta now excs) = filterActiveExceptions now (map snd excs)"
proof -
  have "filterActiveExceptions now [x] \<noteq> [] \<longleftrightarrow>
      After now (xs_ValidFrom (exc_Spec x)) \<and> Before now (xs_ValidUntil (exc_Spec x)) \<and>
      (case exc_DeletionTimestamp x of None \<Rightarrow> True | Some t \<Rightarrow> IsZero t)" for x
    by (simp add: filterActiveExceptions_def)
  then show ?thesis
    using map_sort_key [of snd "\<lambda>exc. - t_ns (CreationTimestamp exc)"]
    by (simp add: activeWithMeta_def filterActiveExceptions_def comp_def filter_map)
qed

text \<open>Equality of label maps decides equality of maps when no value is empty, and only then.\<close>

lemma mapsEqual_iff:
  assumes "distinct (map fst a)" "distinct (map fst b)" "[] \<notin> snd ` set a"
  shows "mapsEqual a b \<longleftrightarrow> map_of a = map_of b"
proof
  assume e: "mapsEqual a b"
  have sub: "map_of a \<subseteq>\<^sub>m map_of b"
  proof (unfold map_le_def, rule ballI)
    fix k assume "k \<in> dom (map_of a)"
    then obtain v where v: "map_of a k = Some v" by blast
    have "(k, v) \<in> set a" using v by (rule map_of_SomeD)
    then have "lookup_default [] b k = v" "v \<noteq> []"
      using e assms(3) by (auto simp: mapsEqual_def list_all_iff image_iff)
    then show "map_of a k = map_of b k" using v by (auto simp: lookup_default_def split: option.splits)
  qed
  have "card (dom (map_of a)) = card (dom (map_of b))"
    using e assms(1,2) distinct_card [of "map fst a"] distinct_card [of "map fst b"]
    by (simp add: mapsEqual_def dom_map_of_conv_image_fst)
  then have "dom (map_of a) = dom (map_of b)"
    using map_le_implies_dom_le [OF sub] card_subset_eq finite_dom_map_of by metis
  then have "map_of b \<subseteq>\<^sub>m map_of a" using sub unfolding map_le_def by metis
  with sub show "map_of a = map_of b" by (rule map_le_antisym)
next
  assume e: "map_of a = map_of b"
  have "length a = length b"
    using assms(1,2) e by (metis distinct_card dom_map_of_conv_image_fst length_map set_map)
  moreover have "lookup_default [] b k = v" if "(k, v) \<in> set a" for k v
    using that e assms(1) by (metis lookup_default_def map_of_is_SomeI option.simps(5))
  ultimately show "mapsEqual a b" by (auto simp: mapsEqual_def list_all_iff)
qed

lemma mapsEqual_empty_value: "mapsEqual [(''a'', [])] [(''b'', [])]"
  by (simp add: mapsEqual_def lookup_default_def)

section \<open>Coalescing keeps the outcome\<close>

text \<open>What a subscriber that stores every update holds in the end.\<close>

definition storeUpdates :: "('k, 'v) watch_update list \<Rightarrow> ('k \<rightharpoonup> 'v) \<Rightarrow> ('k \<rightharpoonup> 'v)" where
  "storeUpdates us m = fold (\<lambda>u m. m(fst u := snd u)) us m"

lemma storeUpdates_map_of: "storeUpdates us m k = (case map_of (rev us) k of None \<Rightarrow> m k | Some v \<Rightarrow> v)"
  by (induction us rule: rev_induct) (auto simp: storeUpdates_def)

lemma lastUpdates_map_of:
  "map_of (lastUpdates us seen) k = (if k \<in> set seen then None else map_of us k)"
  by (induction us seen rule: lastUpdates.induct) auto

lemma lastUpdates_distinct:
  "distinct (map fst (lastUpdates us seen)) \<and> fst ` set (lastUpdates us seen) \<inter> set seen = {}"
  by (induction us seen rule: lastUpdates.induct) auto

lemma lastUpdates_subseq: "subseq (lastUpdates us seen) us"
  by (induction us seen rule: lastUpdates.induct) auto

lemma subseq_rev: "subseq xs ys \<Longrightarrow> subseq (rev xs) (rev ys)"
proof (induction rule: list_emb.induct)
  case (list_emb_Cons2 x y xs ys)
  then show ?case using list_emb_append_mono [of "(=)" "rev xs" "rev ys" "[x]" "[y]"] by simp
qed (auto intro: subseq_rev_drop_many)

text \<open>
  Coalescing the updates of a snapshot leaves at most one update for a key, keeps the order
  of those it keeps, and does not change what a subscriber ends up with.
\<close>

lemma coalesce_equivalent:
  "storeUpdates (coalesceUpdates us) m = storeUpdates us m \<and> distinct (map fst (coalesceUpdates us)) \<and>
   subseq (coalesceUpdates us) us"
proof (cases "length us \<le> 1")
  case True
  then show ?thesis by (cases us) (auto simp: coalesceUpdates_def)
next
  case False
  have "subseq (rev (lastUpdates (rev us) [])) (rev (rev us))" by (rule subseq_rev [OF lastUpdates_subseq])
  then show ?thesis using False lastUpdates_distinct [of "rev us" "[]"]
    by (auto simp: coalesceUpdates_def storeUpdates_map_of lastUpdates_map_of rev_map [symmetric] fun_eq_iff)
qed

section \<open>Bindings follow the cluster\<close>

text \<open>The keys of the binding map after a list of effects.\<close>

fun bindingKeys :: "map_effect list \<Rightarrow> NotificationBindingKey set \<Rightarrow> NotificationBindingKey set" where
  "bindingKeys [] K = K"
| "bindingKeys (StoreBinding k v # es) K = bindingKeys es (insert k K)"
| "bindingKeys (DropBinding k # es) K = bindingKeys es (K - {k})"
| "bindingKeys (StorePlan k c # es) K = bindingKeys es K"
| "bindingKeys (DropPlan k # es) K = bindingKeys es K"

text \<open>The tracker knows exactly the bindings in the map, each under its own plan.\<close>

definition bindings_tracked :: "tracker \<Rightarrow> NotificationBindingKey set \<Rightarrow> bool" where
  "bindings_tracked t K \<longleftrightarrow> (\<forall>p. set (trackedKeys t p) = {k \<in> K. GetPlanKey k = p})"

text \<open>Listing a namespace, and getting an object by its key, answer what was asked for.\<close>

definition lists_namespace :: "provider_env \<Rightarrow> bool" where
  "lists_namespace env \<longleftrightarrow>
     (\<forall>ns items. listNotifications env ns = Inr items \<longrightarrow> (\<forall>i \<in> set items. om_Namespace (ni_Meta i) = ns)) \<and>
     (\<forall>key meta plan. getPlan env key = Inr (meta, plan) \<longrightarrow> (Namespace plan, Name plan) = key)"

definition wantedKeys :: "provider_env \<Rightarrow> NamespacedName \<Rightarrow> NotificationItem list \<Rightarrow> NotificationBindingKey list" where
  "wantedKeys env planKey items =
     map (\<lambda>i. \<lparr>bk_Namespace = fst planKey, bk_NotificationName = om_Name (ni_Meta i), bk_PlanName = snd planKey\<rparr>)
       (filter (\<lambda>i. \<exists>sel. LabelSelectorAsSelector env (ni_Selector i) = Inr sel) items)"

lemma bindingKeys_append: "bindingKeys (xs @ ys) K = bindingKeys ys (bindingKeys xs K)"
  by (induction xs K rule: bindingKeys.induct) auto

lemma bindingKeys_drop: "bindingKeys (map DropBinding ks) K = K - set ks"
  by (induction ks arbitrary: K) auto

lemma publishLoop_keys:
  assumes "\<forall>i \<in> set items. om_Namespace (ni_Meta i) = Namespace plan"
  shows "\<exists>effs matched. publishLoop env planKey plan items =
      (effs, Inr (matched, wantedKeys env (Namespace plan, Name plan) items)) \<and>
    (\<forall>K. bindingKeys effs K = K \<union> set (wantedKeys env (Namespace plan, Name plan) items))"
  using assms
proof (induction items)
  case (Cons i items)
  then obtain effs matched where IH: "publishLoop env planKey plan items =
      (effs, Inr (matched, wantedKeys env (Namespace plan, Name plan) items))"
    "\<forall>K. bindingKeys effs K = K \<union> set (wantedKeys env (Namespace plan, Name plan) items)"
    by auto
  show ?case using IH Cons.prems
    by (cases "LabelSelectorAsSelector env (ni_Selector i)")
      (simp_all add: wantedKeys_def NewNotificationBindingKey_def Let_def)
qed (simp add: wantedKeys_def)

lemma Reconcile_found:
  assumes "Reconcile env key st = ((res, effs), st')" "getPlan env key = Inr (meta, plan)"
    and "fetchAndPublishNotifications env plan key st = ((es, r), st1)"
  shows "st' = st1 \<and> (effs = es \<or>
    (\<exists>ctx. effs = es @ [StorePlan key ctx] \<and> DeliveryNonce ctx = nonce_Get key (DependencyNonces st1)))"
  using assms
  by (cases "evaluateSchedule env plan (case listExceptions env (Namespace plan) (Name plan) of Inl _ \<Rightarrow> [] | Inr es \<Rightarrow> es)")
    (auto simp: Reconcile_def Let_def)

lemma wantedKeys_plan: "k \<in> set (wantedKeys env p items) \<Longrightarrow> GetPlanKey k = p"
  by (auto simp: wantedKeys_def GetPlanKey_def)

lemma fetch_bindings:
  assumes "lists_namespace env" "listNotifications env (Namespace plan) = Inr items" "bindings_tracked (NotificationBindings st) K"
    and "key = (Namespace plan, Name plan)"
  obtains effs matched st' where
    "fetchAndPublishNotifications env plan key st = ((effs, Inr matched), st')"
    "bindings_tracked (NotificationBindings st') (bindingKeys effs K)"
    "{k \<in> bindingKeys effs K. GetPlanKey k = key} = set (wantedKeys env key items)"
    "DependencyNonces st' = DependencyNonces st"
    "\<forall>q. q \<noteq> key \<longrightarrow> NotificationBindings st' q = NotificationBindings st q \<and>
       {k \<in> bindingKeys effs K. GetPlanKey k = q} = {k \<in> K. GetPlanKey k = q}"
proof -
  have "\<forall>i \<in> set items. om_Namespace (ni_Meta i) = Namespace plan" using assms(1,2) by (auto simp: lists_namespace_def)
  from publishLoop_keys [OF this, of env key] obtain effs matched where p:
    "publishLoop env key plan items = (effs, Inr (matched, wantedKeys env key items))"
    "\<And>K. bindingKeys effs K = K \<union> set (wantedKeys env key items)" unfolding assms(4) by blast
  let ?stale = "filter (\<lambda>k. k \<notin> set (wantedKeys env key items)) (trackedKeys (NotificationBindings st) key)"
  let ?effs = "effs @ map DropBinding ?stale"
  have keys: "bindingKeys ?effs K = (K \<union> set (wantedKeys env key items)) - set ?stale"
    by (simp only: bindingKeys_append bindingKeys_drop p(2))
  have t: "set (trackedKeys (NotificationBindings st) q) = {k \<in> K. GetPlanKey k = q}" for q
    using assms(3) unfolding bindings_tracked_def by blast
  have "{k \<in> bindingKeys ?effs K. GetPlanKey k = q} =
      (if q = key then set (wantedKeys env key items) else {k \<in> K. GetPlanKey k = q})" for q
    unfolding keys using t [of key] wantedKeys_plan [of _ env key items] by auto
  then show thesis
    using p(1) assms(2) t
    by (intro that [of ?effs matched "st\<lparr>NotificationBindings := (NotificationBindings st)(key \<mapsto> wantedKeys env key items)\<rparr>"])
      (simp_all add: fetchAndPublishNotifications_def tracker_Reconcile_def bindings_tracked_def trackedKeys_def)
qed

text \<open>
  C36.  A reconcile keeps the tracker exact.  After it, a plan that exists and whose notifications
  could be listed has a binding for exactly the notifications of its namespace with a valid
  selector, and a plan that is gone has none; when the plan cannot be read, or its notifications
  cannot be listed, its bindings stay.  In every case each other plan keeps its bindings, in the
  tracker and in the map.
\<close>

theorem reconcile_bindings:
  assumes "lists_namespace env" "bindings_tracked (NotificationBindings st) K" "Reconcile env key st = ((res, effs), st')"
  shows "bindings_tracked (NotificationBindings st') (bindingKeys effs K) \<and>
    (\<forall>meta plan items. getPlan env key = Inr (meta, plan) \<and> listNotifications env (fst key) = Inr items \<longrightarrow>
       {k \<in> bindingKeys effs K. GetPlanKey k = key} = set (wantedKeys env key items)) \<and>
    (getPlan env key = Inl (ApiError NotFound) \<longrightarrow> {k \<in> bindingKeys effs K. GetPlanKey k = key} = {}) \<and>
    (\<forall>err. getPlan env key = Inl err \<and> \<not> is_not_found err \<or> isl (listNotifications env (fst key)) \<and> \<not> isl (getPlan env key) \<longrightarrow>
       NotificationBindings st' key = NotificationBindings st key \<and>
       {k \<in> bindingKeys effs K. GetPlanKey k = key} = {k \<in> K. GetPlanKey k = key}) \<and>
    (\<forall>q. q \<noteq> key \<longrightarrow> NotificationBindings st' q = NotificationBindings st q \<and>
       {k \<in> bindingKeys effs K. GetPlanKey k = q} = {k \<in> K. GetPlanKey k = q})"
proof (cases "getPlan env key")
  case (Inl err)
  have t: "set (trackedKeys (NotificationBindings st) q) = {k \<in> K. GetPlanKey k = q}" for q
    using assms(2) unfolding bindings_tracked_def by blast
  show ?thesis
  proof (cases "is_not_found err")
    case True
    then have "effs = DropPlan key # map DropBinding (trackedKeys (NotificationBindings st) key)"
      "NotificationBindings st' = (NotificationBindings st)(key := None)"
      using assms(3) Inl by (auto simp: Reconcile_def deleteNotificationBindings_def tracker_DeletePlan_def)
    then show ?thesis using t Inl True by (auto simp: bindings_tracked_def trackedKeys_def bindingKeys_drop)
  next
    case False
    then show ?thesis using assms Inl by (auto simp: Reconcile_def)
  qed
next
  case (Inr mp)
  obtain meta plan where mp: "mp = (meta, plan)" by fastforce
  have key: "key = (Namespace plan, Name plan)" using assms(1) Inr mp unfolding lists_namespace_def by metis
  show ?thesis
  proof (cases "listNotifications env (Namespace plan)")
    case (Inl err)
    then have "fetchAndPublishNotifications env plan key st = (([], Inl err), st)"
      by (simp add: fetchAndPublishNotifications_def)
    from Reconcile_found [OF assms(3) Inr [unfolded mp] this] show ?thesis
      using assms(2) Inr mp key Inl by auto
  next
    case items: (Inr items)
    obtain es matched st1 where f:
      "fetchAndPublishNotifications env plan key st = ((es, Inr matched), st1)"
      "bindings_tracked (NotificationBindings st1) (bindingKeys es K)"
      "{k \<in> bindingKeys es K. GetPlanKey k = key} = set (wantedKeys env key items)"
      "DependencyNonces st1 = DependencyNonces st"
      "\<forall>q. q \<noteq> key \<longrightarrow> NotificationBindings st1 q = NotificationBindings st q \<and>
         {k \<in> bindingKeys es K. GetPlanKey k = q} = {k \<in> K. GetPlanKey k = q}"
      by (rule fetch_bindings [OF assms(1) items assms(2) key])
    have "NotificationBindings st' = NotificationBindings st1" "bindingKeys effs K = bindingKeys es K"
      using Reconcile_found [OF assms(3) Inr [unfolded mp] f(1)] by (auto simp: bindingKeys_append)
    moreover have "fst key = Namespace plan" by (simp add: key)
    ultimately show ?thesis using f(2,3,5) items Inr mp by simp
  qed
qed

section \<open>A finished Job is seen\<close>

lemma wrap64_succ: "wrap64 (n + 1) \<noteq> n"
proof
  assume "wrap64 (n + 1) = n"
  then have e: "(n + 1 + 2 ^ 63) mod 2 ^ 64 = n + 2 ^ 63" by (simp add: wrap64_def)
  then have b: "0 \<le> n + 2 ^ 63" "n + 2 ^ 63 < 2 ^ 64" using pos_mod_bound [of "2 ^ 64" "n + 1 + 2 ^ 63"] pos_mod_sign [of "2 ^ 64" "n + 1 + 2 ^ 63"] by simp_all
  show False
  proof (cases "n + 2 ^ 63 + 1 = 2 ^ 64")
    case True
    then have "(n + 1 + 2 ^ 63) mod 2 ^ 64 = 0" by (simp add: algebra_simps)
    then show False using e True by simp
  next
    case False
    then have "(n + 1 + 2 ^ 63) mod 2 ^ 64 = n + 1 + 2 ^ 63" using b by (intro mod_pos_pos_trivial) simp_all
    then show False using e by simp
  qed
qed

lemma publishLoop_no_plan:
  "publishLoop env p plan items = (es, r) \<Longrightarrow> StorePlan k ctx \<notin> set es"
  by (induction items arbitrary: es r) (auto split: sum.splits prod.splits simp: Let_def)

lemma fetch_no_plan:
  assumes "fetchAndPublishNotifications env plan key st = ((es, r), st1)"
  shows "StorePlan k ctx \<notin> set es \<and> DependencyNonces st1 = DependencyNonces st"
  using assms publishLoop_no_plan [of env key plan _ _ _ k ctx]
  by (auto simp: fetchAndPublishNotifications_def split: sum.splits prod.splits)

lemma Reconcile_stored:
  assumes "Reconcile env key st = ((res, effs), st')" "StorePlan k ctx \<in> set effs"
  shows "k = key \<and> DeliveryNonce ctx = nonce_Get key (DependencyNonces st) \<and> DependencyNonces st' = DependencyNonces st"
proof (cases "getPlan env key")
  case (Inl err)
  then show ?thesis using assms
    by (auto simp: Reconcile_def deleteNotificationBindings_def tracker_DeletePlan_def split: if_splits)
next
  case (Inr mp)
  obtain meta plan where mp: "mp = (meta, plan)" by fastforce
  obtain es r st1 where f: "fetchAndPublishNotifications env plan key st = ((es, r), st1)" by (metis prod.exhaust)
  show ?thesis
    using Reconcile_found [OF assms(1) Inr [unfolded mp] f] fetch_no_plan [OF f, of k ctx] assms(2) by auto
qed

text \<open>
  C37.  When a Job of a plan first succeeds or fails, the next context the reconciler stores for
  the plan differs from the last one, even if nothing else changed: the watchable map, which drops
  a value equal to the one it holds, passes it on.  One such event lies between the two stores.
\<close>

theorem job_completion_redelivered:
  assumes "Reconcile env key st = ((res, effs), st1)" "StorePlan key ctx \<in> set effs"
    and "onJobTerminalUpdate (Some oldJob) (Some newJob) (DependencyNonces st1) = (True, nonces)"
    and "key = (js_Namespace newJob, owner)" "js_Owner newJob = Some owner"
    and "Reconcile env' key (st1\<lparr>DependencyNonces := nonces\<rparr>) = ((res', effs'), st2)" "StorePlan key ctx' \<in> set effs'"
  shows "\<not> PlanContext_Equal ctx ctx'"
proof -
  have "nonce_Get key nonces = wrap64 (nonce_Get key (DependencyNonces st1) + 1)"
    using assms(3-5) by (auto simp: onJobTerminalUpdate_def Let_def nonce_Inc_def nonce_Add_def nonce_Get_def split: if_splits)
  then have "DeliveryNonce ctx \<noteq> DeliveryNonce ctx'"
    using Reconcile_stored [OF assms(1,2)] Reconcile_stored [OF assms(6,7)]
    by (simp add: wrap64_succ [symmetric])
  then show ?thesis by (simp add: PlanContext_Equal_def)
qed


section \<open>Which plans a changed notification reaches\<close>

text \<open>
  When a notification changes its selector so that it still matches some plan, a plan it no longer
  matches is not reconciled: its binding, and the notification in its context, stay as they were.
\<close>

lemma changed_selector_misses_plan:
  assumes "LabelSelectorAsSelector env (ni_Selector notif) = Inr sel" "p \<in> set plans" "q \<in> set plans"
    and "sel (planLabels env p)" "\<not> sel (planLabels env q)" "distinct (map (\<lambda>x. (Namespace x, Name x)) plans)"
  shows "(Namespace p, Name p) \<in> set (findPlansForNotification env (Inr plans) notif)"
    and "(Namespace q, Name q) \<notin> set (findPlansForNotification env (Inr plans) notif)"
proof -
  have "x = y" if "x \<in> set plans" "y \<in> set plans" "(Namespace x, Name x) = (Namespace y, Name y)" for x y
    using that assms(6) by (simp add: distinct_map inj_on_def)
  then show "(Namespace p, Name p) \<in> set (findPlansForNotification env (Inr plans) notif)"
    and "(Namespace q, Name q) \<notin> set (findPlansForNotification env (Inr plans) notif)"
    using assms(1-5) by (auto simp: findPlansForNotification_def Let_def filter_empty_conv)
qed

section \<open>Examples\<close>

definition exampleMeta :: "string \<Rightarrow> ObjectMeta" where
  "exampleMeta name = \<lparr>om_Name = name, om_Namespace = ''ns'', om_UID = ''1'', om_ResourceVersion = ''1''\<rparr>"

definition exampleItem :: NotificationItem where
  "exampleItem = \<lparr>ni_Meta = exampleMeta ''n'', ni_Spec = \<lparr>hn_Name = ''n'', hn_Namespace = ''ns'', OnEvents = [], Sinks = []\<rparr>,
     ni_Selector = \<lparr>ls_MatchLabels = [], ls_MatchExpressions = []\<rparr>, ni_Object = exampleObject []\<rparr>"

definition exampleNow :: Time where "exampleNow = \<lparr>t_ns = 0, t_loc = UTC\<rparr>"

definition examplePlan :: HibernatePlan where
  "examplePlan = \<lparr>Name = ''web'', Namespace = ''prod'', Generation = 1, DeletionTimestamp = None,
     Finalizers = [], Labels = Map.empty, Annotations = Map.empty,
     Spec = \<lparr>sp_Schedule = \<lparr>sc_Timezone = ''UTC'', OffHours = []\<rparr>,
       sp_Execution = \<lparr>Strategy = \<lparr>es_Type = StrategySequential, es_MaxConcurrency = None, Dependencies = [],
         es_Stages = []\<rparr>\<rparr>,
       sp_Behavior = \<lparr>Mode = BehaviorStrict, FailFast = False, Retries = None\<rparr>, Suspend = False, Targets = []\<rparr>,
     Status = \<lparr>CurrentCycleID = [], Phase = PhaseActive, LastTransitionTime = None, Executions = [],
       ObservedGeneration = 0, RetryCount = 0, LastRetryTime = None, ErrorMessage = [], ExceptionReferences = [],
       AppliedExceptionOverride = [], PlanSnapshot = None, CurrentStageIndex = 0, CurrentOperation = OperationUnset,
       ExecutionHistory = []\<rparr>\<rparr>"

definition exampleProvider :: provider_env where
  "exampleProvider = \<lparr>getPlan = \<lambda>key. if key = (''prod'', ''web'') then Inr (exampleMeta ''web'', examplePlan)
       else Inl (ApiError NotFound),
     planLabels = \<lambda>_. [], listExceptions = \<lambda>_ _. Inr [],
     listNotifications = \<lambda>ns. Inr (if ns = ''ns'' then [exampleItem] else []),
     LabelSelectorAsSelector = \<lambda>_. Inr (\<lambda>_. True), hasRestoreData = \<lambda>_ _. Inr False, providerNow = exampleNow,
     evaluator = Some \<lparr>Now = exampleNow, parser = \<lambda>_. Inl (ErrMsg ''no cron''), LoadLocation = \<lambda>_. Inr UTC,
       scheduleBuffer = Minute\<rparr>\<rparr>"

definition exampleState :: provider_state where
  "exampleState = \<lparr>NotificationBindings = Map.empty, DependencyNonces = Map.empty\<rparr>"

definition exampleContext :: "int \<Rightarrow> PlanContext" where
  "exampleContext n = \<lparr>pc_Plan = Some (exampleMeta ''web'', examplePlan),
     pc_Schedule = Some \<lparr>se_Exceptions = [], se_ShouldHibernate = False,
       NextEvent = AddDur zeroTime (wrap64 (Minute + safetyBuffer))\<rparr>, pc_Exceptions = [], pc_Notifications = [],
     ctx_HasRestoreData = False, DeliveryNonce = n\<rparr>"

lemma example_evaluate:
  "evaluateSchedule exampleProvider (examplePlan) [] =
     Inr \<lparr>se_Exceptions = [], se_ShouldHibernate = False, NextEvent = AddDur zeroTime (wrap64 (Minute + safetyBuffer))\<rparr>"
  by (simp add: evaluateSchedule_def exampleProvider_def activeWithMeta_def Let_def examplePlan_def
      Evaluate_def mergeByType_def evaluateWindows_def evaluateWhen_def runEvaluationPipeline_def noWindows_def
      computeNextEvent_def)

lemma example_reconcile:
  "Reconcile exampleProvider (''prod'', ''web'') st =
     ((Done, map DropBinding (trackedKeys (NotificationBindings st) (''prod'', ''web'')) @
        [StorePlan (''prod'', ''web'') (exampleContext (nonce_Get (''prod'', ''web'') (DependencyNonces st)))]),
      st\<lparr>NotificationBindings := (NotificationBindings st)((''prod'', ''web'') \<mapsto> [])\<rparr>)"
proof -
  have "Namespace (examplePlan) = ''prod''" "Name (examplePlan) = ''web''"
    by (simp_all add: examplePlan_def)
  then show ?thesis
    using example_evaluate
    by (simp add: Reconcile_def exampleProvider_def fetchAndPublishNotifications_def tracker_Reconcile_def
        exampleContext_def)
qed

theorem job_completion_redelivered_witness:
  "\<not> PlanContext_Equal (exampleContext 0) (exampleContext 1)"
proof -
  let ?key = "(''prod'', ''web'')"
  let ?old = "\<lparr>js_Namespace = ''prod'', js_Owner = Some ''web'', js_Succeeded = 0, js_Failed = 0\<rparr>"
  let ?new = "\<lparr>js_Namespace = ''prod'', js_Owner = Some ''web'', js_Succeeded = 1, js_Failed = 0\<rparr>"
  let ?st1 = "exampleState\<lparr>NotificationBindings := [?key \<mapsto> []]\<rparr>"
  have one: "nonce_Get ?key (nonce_Inc ?key Map.empty) = 1"
    by (simp add: nonce_Inc_def nonce_Add_def nonce_Get_def wrap64_def)
  have "Reconcile exampleProvider ?key exampleState = ((Done, [StorePlan ?key (exampleContext 0)]), ?st1)"
    by (simp add: example_reconcile exampleState_def trackedKeys_def nonce_Get_def)
  moreover have "StorePlan ?key (exampleContext 0) \<in> set [StorePlan ?key (exampleContext 0)]" by simp
  moreover have "onJobTerminalUpdate (Some ?old) (Some ?new) (DependencyNonces ?st1) = (True, nonce_Inc ?key Map.empty)"
    by (simp add: onJobTerminalUpdate_def exampleState_def)
  moreover have "?key = (js_Namespace ?new, ''web'')" "js_Owner ?new = Some ''web''" by simp_all
  moreover have "Reconcile exampleProvider ?key (?st1\<lparr>DependencyNonces := nonce_Inc ?key Map.empty\<rparr>) =
      ((Done, [StorePlan ?key (exampleContext 1)]), ?st1\<lparr>DependencyNonces := nonce_Inc ?key Map.empty\<rparr>)"
    by (simp add: example_reconcile exampleState_def trackedKeys_def one)
  moreover have "StorePlan ?key (exampleContext 1) \<in> set [StorePlan ?key (exampleContext 1)]" by simp
  ultimately show ?thesis by (rule job_completion_redelivered)
qed

theorem reconcile_bindings_witness:
  "let gone = \<lparr>bk_Namespace = ''prod'', bk_NotificationName = ''n'', bk_PlanName = ''web''\<rparr>;
       other = \<lparr>bk_Namespace = ''prod'', bk_NotificationName = ''n'', bk_PlanName = ''api''\<rparr>;
       K = bindingKeys [DropBinding gone, StorePlan (''prod'', ''web'') (exampleContext 0)] {gone, other}
   in {k \<in> K. GetPlanKey k = (''prod'', ''web'')} = {} \<and> {k \<in> K. GetPlanKey k = (''prod'', ''api'')} = {other}"
proof -
  let ?key = "(''prod'', ''web'')" and ?k = "\<lparr>bk_Namespace = ''prod'', bk_NotificationName = ''n'', bk_PlanName = ''web''\<rparr>"
  let ?other = "(''prod'', ''api'')" and ?k2 = "\<lparr>bk_Namespace = ''prod'', bk_NotificationName = ''n'', bk_PlanName = ''api''\<rparr>"
  let ?st = "exampleState\<lparr>NotificationBindings := [?key \<mapsto> [?k], ?other \<mapsto> [?k2]]\<rparr>"
  let ?effs = "[DropBinding ?k, StorePlan ?key (exampleContext 0)]"
  have l: "lists_namespace exampleProvider"
    by (auto simp: lists_namespace_def exampleProvider_def exampleItem_def exampleMeta_def examplePlan_def split: if_splits)
  have t: "bindings_tracked (NotificationBindings ?st) {?k, ?k2}"
    by (auto simp: bindings_tracked_def trackedKeys_def GetPlanKey_def)
  have r: "Reconcile exampleProvider ?key ?st =
      ((Done, ?effs), ?st\<lparr>NotificationBindings := (NotificationBindings ?st)(?key \<mapsto> [])\<rparr>)"
    by (simp add: example_reconcile exampleState_def trackedKeys_def nonce_Get_def)
  have g: "getPlan exampleProvider ?key = Inr (exampleMeta ''web'', examplePlan)"
    "listNotifications exampleProvider (fst ?key) = Inr []" by (simp_all add: exampleProvider_def)
  note all = reconcile_bindings [OF l t r]
  have "{k \<in> bindingKeys ?effs {?k, ?k2}. GetPlanKey k = ?key} = set (wantedKeys exampleProvider ?key [])"
    using all [THEN conjunct2, THEN conjunct1] g by blast
  moreover have "{k \<in> bindingKeys ?effs {?k, ?k2}. GetPlanKey k = ?other} = {k \<in> {?k, ?k2}. GetPlanKey k = ?other}"
    using all [THEN conjunct2, THEN conjunct2, THEN conjunct2, THEN conjunct2, THEN spec [of _ ?other]] by simp
  moreover have "{k \<in> {?k, ?k2}. GetPlanKey k = ?other} = {?k2}" by (auto simp: GetPlanKey_def)
  ultimately show ?thesis unfolding Let_def wantedKeys_def filter.simps list.map list.set by blast
qed

end
