(* ===== verification/Slack.thy ===== *)
theory Slack
  imports Notify GoSpace
begin

text \<open>
  The Slack sink (\<^verbatim>\<open>internal/notification/sink/slack\<close>): its configuration (\<^verbatim>\<open>config.go\<close>),
  \<open>Send\<close> (\<^verbatim>\<open>slack.go\<close>) and the two delivery modes (\<^verbatim>\<open>delivery.go\<close>).  The Slack client is
  third-party: a call is appended to a log, and \<open>slack_api\<close> says how the \<open>n\<close>-th call is
  answered.  The text and blocks of a message are not modelled; the log has the payload it is built
  from.  JSON decoding and the time-zone database are parameters.
\<close>

section \<open>Configuration\<close>

text \<open>The rate of a limit is kept as its decimal text.\<close>

record RateLimitConfig =
  rl_Rate :: string
  rl_Unit :: string
  rl_Burst :: int

record slack_config =
  WebhookURL :: string
  BotToken :: string
  ChannelID :: string
  Format :: string
  BlockLayout :: string
  MaxTargets :: int
  AdditionalScopes :: "string list"
  TimeDisplay :: string
  sl_Timezone :: string
  TimeLayout :: string
  DeliveryMode :: string
  RateLimit :: "RateLimitConfig option"

definition normalizeScope :: "string \<Rightarrow> string" where
  "normalizeScope scope =
     (let s = ToLower (TrimSpace scope) in
      if s = ''env'' then ''environment''
      else if s = ''account_id'' \<or> s = ''accountid'' then ''account''
      else if s = ''cluster_id'' \<or> s = ''clusterid'' then ''cluster''
      else s)"

fun normalizeLoop :: "string list \<Rightarrow> string list \<Rightarrow> string list" where
  "normalizeLoop seen [] = []"
| "normalizeLoop seen (raw # rest) =
     (let s = normalizeScope raw in
      if s = [] \<or> s \<in> set seen then normalizeLoop seen rest else s # normalizeLoop (s # seen) rest)"

definition normalizeScopeList :: "string list \<Rightarrow> string list" where
  "normalizeScopeList scopes = normalizeLoop [] scopes"

definition orDefault :: "string \<Rightarrow> string \<Rightarrow> string" where
  "orDefault d s = (if s = [] then d else s)"

definition useDefaults :: "slack_config \<Rightarrow> slack_config" where
  "useDefaults c =
     (let display = orDefault ''slack_dynamic'' (ToLower (TrimSpace (TimeDisplay c)));
          tz = TrimSpace (sl_Timezone c) in
      c\<lparr>Format := orDefault ''text'' (ToLower (TrimSpace (Format c))),
        BlockLayout := orDefault ''default'' (ToLower (TrimSpace (BlockLayout c))),
        MaxTargets := (if MaxTargets c \<le> 0 then 8 else MaxTargets c),
        TimeDisplay := display,
        sl_Timezone := (if display = ''fixed'' \<and> tz = [] then ''UTC'' else tz),
        TimeLayout := orDefault ''Mon, 02 Jan 2006 15:04:05 MST'' (TrimSpace (TimeLayout c)),
        DeliveryMode := orDefault ''channel'' (ToLower (TrimSpace (DeliveryMode c))),
        RateLimit := (case RateLimit c of None \<Rightarrow> Some \<lparr>rl_Rate = ''50.0'', rl_Unit = ''minute'', rl_Burst = 75\<rparr> | r \<Rightarrow> r),
        BotToken := TrimSpace (BotToken c), ChannelID := TrimSpace (ChannelID c),
        AdditionalScopes := normalizeScopeList (AdditionalScopes c)\<rparr>)"

definition supportedScopes :: "string list" where
  "supportedScopes = [''account'', ''cluster'', ''environment'', ''region'', ''project'', ''provider'', ''connector'']"

definition cfgErr :: "string \<Rightarrow> go_error option" where
  "cfgErr s = Some (ErrMsg (''slack sink config: '' @ s))"

definition validate :: "(string \<Rightarrow> go_error option) \<Rightarrow> slack_config \<Rightarrow> go_error option" where
  "validate LoadLocation c =
     (if Format c \<notin> {''text'', ''json''} then cfgErr ''format must be \"text\" or \"json\"''
      else if DeliveryMode c \<notin> {''channel'', ''thread''} then cfgErr ''delivery_mode must be one of \"channel\", \"thread\"''
      else if DeliveryMode c = ''channel'' \<and> WebhookURL c = [] then cfgErr ''webhook_url is required when delivery_mode=\"channel\"''
      else if DeliveryMode c = ''thread'' \<and> BotToken c = [] then cfgErr ''bot_token is required when delivery_mode=\"thread\"''
      else if DeliveryMode c = ''thread'' \<and> ChannelID c = [] then cfgErr ''channel_id is required when delivery_mode=\"thread\"''
      else if Format c \<noteq> ''json'' then None
      else if BlockLayout c \<notin> {''default'', ''compact'', ''auto''}
        then cfgErr ''block_layout must be one of \"default\", \"compact\", \"auto\"''
      else if TimeDisplay c \<notin> {''slack_dynamic'', ''fixed'', ''utc''}
        then cfgErr ''time_display must be one of \"slack_dynamic\", \"fixed\", \"utc\"''
      else (case (if TimeDisplay c = ''fixed'' then LoadLocation (sl_Timezone c) else None) of
              Some err \<Rightarrow> Some (Wrap (''slack sink config: invalid timezone '' @ sl_Timezone c @ '': '') err)
            | None \<Rightarrow>
                (case List.find (\<lambda>s. s \<notin> set supportedScopes) (AdditionalScopes c) of
                   Some s \<Rightarrow> cfgErr (''unsupported additional scope '' @ s)
                 | None \<Rightarrow> None)))"

section \<open>The Slack client\<close>

datatype slack_call =
    PostWebhook Payload
  | PostRoot Payload
  | PostReply string Payload
  | UpdateRoot string Payload
  | AddReaction string string
  | RemoveReaction string string

type_synonym slack_log = "slack_call list"

text \<open>The answers: channel and time stamp of a post or an update, or an error.\<close>

record slack_api =
  onWebhook :: "nat \<Rightarrow> go_error option"
  onPost :: "nat \<Rightarrow> (string \<times> string) res"
  onUpdateMessage :: "nat \<Rightarrow> (string \<times> string) res"
  onAddReaction :: "nat \<Rightarrow> go_error option"
  onRemoveReaction :: "nat \<Rightarrow> go_error option"

definition sendViaChatAPI :: "slack_api \<Rightarrow> slack_call \<Rightarrow> slack_log \<Rightarrow> string res \<times> slack_log" where
  "sendViaChatAPI api call log =
     ((case onPost api (length log) of
         Inl err \<Rightarrow> Inl (Wrap ''send slack notification: '' err)
       | Inr (channel, ts) \<Rightarrow>
           if channel = [] \<or> ts = [] then Inl (ErrMsg ''send slack notification: missing channel/ts in Slack API response'')
           else Inr ts), log @ [call])"

definition updateViaChatAPI :: "slack_api \<Rightarrow> string \<Rightarrow> Payload \<Rightarrow> slack_log \<Rightarrow> go_error option \<times> slack_log" where
  "updateViaChatAPI api ts payload log =
     (if TrimSpace ts = [] then (None, log)
      else
        ((case onUpdateMessage api (length log) of
            Inl err \<Rightarrow> Some (Wrap ''update slack root notification: '' err)
          | Inr (channel, updatedTS) \<Rightarrow>
              if channel = [] \<or> updatedTS = []
              then Some (ErrMsg ''update slack root notification: missing channel/ts in Slack API response'') else None),
         log @ [UpdateRoot ts payload]))"

definition bumpRootThreadEmoji :: "slack_api \<Rightarrow> string \<Rightarrow> string \<Rightarrow> slack_log \<Rightarrow> go_error option \<times> slack_log" where
  "bumpRootThreadEmoji api rootTS reaction log =
     ((case onAddReaction api (length log) of
         None \<Rightarrow> None
       | Some err \<Rightarrow> if str_contains (err_text err) ''already_reacted'' then None else Some err),
      log @ [AddReaction rootTS reaction])"

definition removeRootThreadEmoji :: "slack_api \<Rightarrow> string \<Rightarrow> string \<Rightarrow> slack_log \<Rightarrow> go_error option \<times> slack_log" where
  "removeRootThreadEmoji api rootTS reaction log =
     ((case onRemoveReaction api (length log) of
         None \<Rightarrow> None
       | Some err \<Rightarrow> if str_contains (err_text err) ''no_reaction'' then None else Some err),
      log @ [RemoveReaction rootTS reaction])"

definition overrideRootThreadReaction :: "slack_api \<Rightarrow> string \<Rightarrow> string \<Rightarrow> string \<Rightarrow> slack_log \<Rightarrow> go_error option \<times> slack_log" where
  "overrideRootThreadReaction api rootTS prevReaction nextReaction log =
     (if nextReaction = [] \<or> rootTS = [] \<or> prevReaction = nextReaction then (None, log)
      else if prevReaction \<noteq> [] then
        (case removeRootThreadEmoji api rootTS prevReaction log of
           (Some err, log1) \<Rightarrow> (Some err, log1)
         | (None, log1) \<Rightarrow> bumpRootThreadEmoji api rootTS nextReaction log1)
      else bumpRootThreadEmoji api rootTS nextReaction log)"

section \<open>Decisions\<close>

definition shouldSuppressExecutionProgress :: "Payload \<Rightarrow> slack_config \<Rightarrow> bool" where
  "shouldSuppressExecutionProgress payload cfg =
     (if Format cfg \<noteq> ''json'' \<or> pl_Event payload \<noteq> ''ExecutionProgress'' \<or> BlockLayout cfg = ''auto'' then False
      else if BlockLayout cfg \<noteq> ''default'' \<and> BlockLayout cfg \<noteq> ''compact'' then False
      else (case TargetExecution payload of
              None \<Rightarrow> False
            | Some t \<Rightarrow> ti_State t \<notin> {''Completed'', ''Failed'', ''Aborted''}))"

definition threadReference :: "Payload \<Rightarrow> string" where
  "threadReference payload =
     (let ref = pl_Namespace payload @ ''/'' @ pl_Name payload in
      if pl_CycleID payload = [] then ref else ref @ ''/'' @ pl_CycleID payload @ ''/'' @ pl_Operation payload)"

definition reactionForEvent :: "string \<Rightarrow> string" where
  "reactionForEvent event =
     (if event = ''Failure'' then ''x''
      else if event = ''Success'' then ''white_check_mark''
      else if event \<in> {''Start'', ''ExecutionProgress'', ''Recovery''} then ''loading''
      else [])"

definition isTerminalReaction :: "string \<Rightarrow> bool" where
  "isTerminalReaction reaction \<longleftrightarrow> TrimSpace reaction \<in> {''white_check_mark'', ''x''}"

definition isNonTerminalEvent :: "string \<Rightarrow> bool" where
  "isNonTerminalEvent event \<longleftrightarrow> event \<in> {''Start'', ''ExecutionProgress'', ''Recovery'', ''PhaseChange''}"

definition shouldPreserveTerminalRoot :: "string \<Rightarrow> string \<Rightarrow> bool" where
  "shouldPreserveTerminalRoot prevReaction event \<longleftrightarrow> isTerminalReaction prevReaction \<and> isNonTerminalEvent event"

definition shouldBumpReaction :: "string \<Rightarrow> string \<Rightarrow> string \<Rightarrow> string \<Rightarrow> bool" where
  "shouldBumpReaction prevReaction event bumpTS reaction =
     (if bumpTS = [] \<or> reaction = [] then False
      else if event = ''Start'' then True
      else TrimSpace prevReaction \<noteq> reaction)"

type_synonym sink_states = "(string \<times> string) list"

definition resolveRootThreadTimestamp :: "Payload \<Rightarrow> sink_states \<Rightarrow> string" where
  "resolveRootThreadTimestamp payload sinkState =
     (if pl_Event payload = ''Start'' then []
      else
        (let prevRef = TrimSpace (lookup_default [] sinkState ''slack.thread.ref'') in
         if prevRef \<noteq> [] \<and> prevRef \<noteq> threadReference payload then []
         else TrimSpace (lookup_default [] sinkState ''slack.thread.root_ts'')))"

section \<open>Thread delivery\<close>

record threadDeliveryFlow =
  event :: string
  rootTS :: string
  rootCreated :: bool
  prevReaction :: string
  preserveTerminalRoot :: bool
  nextReaction :: string
  effectiveReaction :: string

definition newThreadDeliveryFlow :: "Payload \<Rightarrow> sink_states \<Rightarrow> threadDeliveryFlow" where
  "newThreadDeliveryFlow payload sinkState =
     (let ts = resolveRootThreadTimestamp payload sinkState;
          prev = TrimSpace (lookup_default [] sinkState ''slack.thread.last_reaction'') in
      \<lparr>event = pl_Event payload, rootTS = ts, rootCreated = False, prevReaction = prev,
       preserveTerminalRoot = (ts \<noteq> [] \<and> shouldPreserveTerminalRoot prev (pl_Event payload)),
       nextReaction = reactionForEvent (pl_Event payload), effectiveReaction = prev\<rparr>)"

definition syncThreadRoot :: "slack_api \<Rightarrow> Payload \<Rightarrow> threadDeliveryFlow \<Rightarrow> slack_log \<Rightarrow> threadDeliveryFlow res \<times> slack_log" where
  "syncThreadRoot api payload flow log =
     (if rootTS flow = [] then
        (case sendViaChatAPI api (PostRoot payload) log of
           (Inl err, log1) \<Rightarrow> (Inl err, log1)
         | (Inr createdTS, log1) \<Rightarrow> (Inr (flow\<lparr>rootTS := createdTS, rootCreated := True\<rparr>), log1))
      else if preserveTerminalRoot flow then (Inr flow, log)
      else (case updateViaChatAPI api (rootTS flow) payload log of (_, log1) \<Rightarrow> (Inr flow, log1)))"

definition sendThreadReply :: "slack_api \<Rightarrow> Payload \<Rightarrow> string \<Rightarrow> slack_log \<Rightarrow> go_error option \<times> slack_log" where
  "sendThreadReply api payload ts log =
     (case sendViaChatAPI api (PostReply ts payload) log of
        (Inl err, log1) \<Rightarrow> (Some err, log1)
      | (Inr _, log1) \<Rightarrow> (None, log1))"

definition syncThreadRootReaction :: "slack_api \<Rightarrow> threadDeliveryFlow \<Rightarrow> slack_log \<Rightarrow> threadDeliveryFlow \<times> slack_log" where
  "syncThreadRootReaction api flow log =
     (if preserveTerminalRoot flow then (flow, log)
      else
        (let shouldBump = (shouldBumpReaction (prevReaction flow) (event flow) (rootTS flow) (nextReaction flow) \<or>
                (rootCreated flow \<and> rootTS flow \<noteq> [] \<and> nextReaction flow \<noteq> [])) in
         if \<not> shouldBump then (flow, log)
         else
           (let prev = (if event flow = ''Start'' \<or> rootCreated flow then [] else prevReaction flow) in
            case overrideRootThreadReaction api (rootTS flow) prev (nextReaction flow) log of
              (Some err, log1) \<Rightarrow> (flow, log1)
            | (None, log1) \<Rightarrow> (flow\<lparr>effectiveReaction := nextReaction flow\<rparr>, log1))))"

definition buildThreadStates :: "Payload \<Rightarrow> threadDeliveryFlow \<Rightarrow> sink_states" where
  "buildThreadStates payload flow =
     [(''slack.thread.ref'', threadReference payload), (''slack.thread.root_ts'', rootTS flow),
      (''slack.thread.state'', if rootCreated flow then ''root_sent'' else ''reply_sent'')] @
     (if effectiveReaction flow \<noteq> [] then [(''slack.thread.last_reaction'', effectiveReaction flow)] else [])"

definition thread_deliver :: "slack_api \<Rightarrow> slack_config \<Rightarrow> sink_states \<Rightarrow> Payload \<Rightarrow> slack_log \<Rightarrow> sink_states res \<times> slack_log" where
  "thread_deliver api cfg sinkState payload log =
     (if shouldSuppressExecutionProgress payload cfg then (Inr [], log)
      else
        (case syncThreadRoot api payload (newThreadDeliveryFlow payload sinkState) log of
           (Inl err, log1) \<Rightarrow> (Inl err, log1)
         | (Inr flow, log1) \<Rightarrow>
             (case sendThreadReply api payload (rootTS flow) log1 of
                (Some err, log2) \<Rightarrow> (Inl err, log2)
              | (None, log2) \<Rightarrow>
                  (case syncThreadRootReaction api flow log2 of
                     (flow', log3) \<Rightarrow> (Inr (buildThreadStates payload flow'), log3)))))"

definition channel_deliver :: "slack_api \<Rightarrow> slack_config \<Rightarrow> Payload \<Rightarrow> slack_log \<Rightarrow> sink_states res \<times> slack_log" where
  "channel_deliver api cfg payload log =
     (if shouldSuppressExecutionProgress payload cfg then (Inr [], log)
      else
        ((case onWebhook api (length log) of
            Some err \<Rightarrow> Inl (Wrap ''send slack notification: '' err)
          | None \<Rightarrow> Inr []), log @ [PostWebhook payload]))"

definition Send :: "(string \<Rightarrow> slack_config res) \<Rightarrow> (string \<Rightarrow> go_error option) \<Rightarrow> slack_api \<Rightarrow> string \<Rightarrow> sink_states \<Rightarrow>
    Payload \<Rightarrow> slack_log \<Rightarrow> sink_states res \<times> slack_log" where
  "Send unmarshal LoadLocation api config sinkState payload log =
     (case unmarshal config of
        Inl err \<Rightarrow> (Inl (Wrap ''parse slack sink config: '' err), log)
      | Inr raw \<Rightarrow>
          (let cfg = useDefaults raw in
           case validate LoadLocation cfg of
             Some err \<Rightarrow> (Inl err, log)
           | None \<Rightarrow>
               if DeliveryMode cfg = ''channel'' then channel_deliver api cfg payload log
               else if DeliveryMode cfg = ''thread'' then thread_deliver api cfg sinkState payload log
               else (Inl (ErrMsg ''slack sink config: delivery_mode must be one of \"channel\", \"thread\"''), log)))"

section \<open>One thread for a stream\<close>

text \<open>A call that stays in the thread of root \<open>R\<close>.\<close>

fun inThread :: "string \<Rightarrow> slack_call \<Rightarrow> bool" where
  "inThread R (PostReply ts _) = (ts = R)"
| "inThread R (UpdateRoot ts _) = (ts = R)"
| "inThread R (AddReaction ts _) = (ts = R)"
| "inThread R (RemoveReaction ts _) = (ts = R)"
| "inThread R (PostRoot _) = False"
| "inThread R (PostWebhook _) = False"

text \<open>States that lead to root \<open>R\<close>, for the thread reference \<open>ref\<close>.\<close>

definition leadsTo :: "string \<Rightarrow> string \<Rightarrow> sink_states \<Rightarrow> bool" where
  "leadsTo R ref s \<longleftrightarrow> lookup_default [] s ''slack.thread.root_ts'' = R \<and> lookup_default [] s ''slack.thread.ref'' = ref"

lemma leadsTo_resolve:
  assumes "leadsTo R (threadReference payload) s" "TrimSpace R = R" "TrimSpace (threadReference payload) = threadReference payload"
    and "pl_Event payload \<noteq> ''Start''"
  shows "resolveRootThreadTimestamp payload s = R"
  using assms by (simp add: resolveRootThreadTimestamp_def leadsTo_def)

lemma buildThreadStates_leads: "leadsTo (rootTS flow) (threadReference payload) (buildThreadStates payload flow)"
  by (simp add: leadsTo_def buildThreadStates_def lookup_default_def)

lemma syncThreadRootReaction_thread:
  assumes "syncThreadRootReaction api flow log = (flow', log')"
  shows "\<exists>new. log' = log @ new \<and> list_all (inThread (rootTS flow)) new \<and> rootTS flow' = rootTS flow"
  using assms
  by (auto simp: syncThreadRootReaction_def overrideRootThreadReaction_def removeRootThreadEmoji_def bumpRootThreadEmoji_def
      Let_def split: if_splits option.splits prod.splits)

lemma syncThreadRoot_existing:
  assumes "rootTS flow = R" "R \<noteq> []"
  obtains log1 new where "syncThreadRoot api payload flow log = (Inr flow, log1)" "log1 = log @ new" "list_all (inThread R) new"
proof (cases "preserveTerminalRoot flow \<or> TrimSpace R = []")
  case True
  then show ?thesis using assms that [of log "[]"] by (auto simp: syncThreadRoot_def updateViaChatAPI_def)
next
  case False
  then show ?thesis using assms that [of "log @ [UpdateRoot R payload]" "[UpdateRoot R payload]"]
    by (simp add: syncThreadRoot_def updateViaChatAPI_def)
qed

lemma thread_deliver_continues:
  assumes "resolveRootThreadTimestamp payload s = R" "R \<noteq> []" "thread_deliver api cfg s payload log = (res, log')"
  shows "\<exists>new. log' = log @ new \<and> list_all (inThread R) new"
    and "res = Inr s' \<Longrightarrow> s' \<noteq> [] \<Longrightarrow> leadsTo R (threadReference payload) s'"
proof -
  have f: "rootTS (newThreadDeliveryFlow payload s) = R"
    using assms(1) by (simp add: newThreadDeliveryFlow_def Let_def)
  define flow where "flow = newThreadDeliveryFlow payload s"
  obtain log1 where root: "syncThreadRoot api payload (newThreadDeliveryFlow payload s) log = (Inr flow, log1)"
    "rootTS flow = R" "\<exists>new. log1 = log @ new \<and> list_all (inThread R) new"
    using syncThreadRoot_existing [OF f assms(2), of api payload log] f unfolding flow_def by metis
  obtain e log2 where reply: "sendThreadReply api payload (rootTS flow) log1 = (e, log2)" by fastforce
  have log2: "log2 = log1 @ [PostReply R payload]"
    using reply root(2) by (auto simp: sendThreadReply_def sendViaChatAPI_def split: sum.splits)
  obtain flow' log3 where react: "syncThreadRootReaction api flow log2 = (flow', log3)" by fastforce
  have log3: "\<exists>new. log3 = log2 @ new \<and> list_all (inThread R) new" "rootTS flow' = R"
    using syncThreadRootReaction_thread [OF react] root(2) by auto
  have d: "(res, log') = (if shouldSuppressExecutionProgress payload cfg then (Inr [], log)
      else case e of Some err \<Rightarrow> (Inl err, log2) | None \<Rightarrow> (Inr (buildThreadStates payload flow'), log3))"
    using assms(3) root(1) reply react by (auto simp: thread_deliver_def split: option.splits)
  show "\<exists>new. log' = log @ new \<and> list_all (inThread R) new"
    using d root(3) log2 log3(1) by (auto split: if_splits option.splits)
  show "res = Inr s' \<Longrightarrow> s' \<noteq> [] \<Longrightarrow> leadsTo R (threadReference payload) s'"
    using d buildThreadStates_leads [of flow' payload] log3(2) by (auto split: if_splits option.splits)
qed

lemma thread_deliver_distinct: "thread_deliver api cfg s payload log = (Inr s', log') \<Longrightarrow> distinct (map fst s')"
  by (auto simp: thread_deliver_def buildThreadStates_def split: if_splits prod.splits sum.splits option.splits)

text \<open>A thread begins with its root, and the states lead to it.\<close>

lemma thread_deliver_starts:
  assumes "resolveRootThreadTimestamp payload s = []" "\<not> shouldSuppressExecutionProgress payload cfg"
    and "thread_deliver api cfg s payload log = (Inr s', log')"
  obtains R new where "log' = log @ PostRoot payload # new" "list_all (inThread R) new" "R \<noteq> []"
    "leadsTo R (threadReference payload) s'" "\<exists>ch. onPost api (length log) = Inr (ch, R)"
proof -
  have f: "rootTS (newThreadDeliveryFlow payload s) = []"
    using assms(1) by (simp add: newThreadDeliveryFlow_def Let_def)
  obtain flow log1 where root: "syncThreadRoot api payload (newThreadDeliveryFlow payload s) log = (Inr flow, log1)"
    using assms(2,3) by (auto simp: thread_deliver_def split: prod.splits sum.splits)
  have log1: "log1 = log @ [PostRoot payload]" "rootTS flow \<noteq> []" "\<exists>ch. onPost api (length log) = Inr (ch, rootTS flow)"
    using root f by (auto simp: syncThreadRoot_def sendViaChatAPI_def split: sum.splits if_splits)
  obtain log2 where reply: "sendThreadReply api payload (rootTS flow) log1 = (None, log2)"
    using assms(2,3) root by (auto simp: thread_deliver_def split: prod.splits option.splits)
  have log2: "log2 = log1 @ [PostReply (rootTS flow) payload]"
    using reply by (auto simp: sendThreadReply_def sendViaChatAPI_def split: sum.splits)
  obtain flow' log3 where react: "syncThreadRootReaction api flow log2 = (flow', log3)" by fastforce
  obtain new where "log3 = log2 @ new" "list_all (inThread (rootTS flow)) new" "rootTS flow' = rootTS flow"
    using syncThreadRootReaction_thread [OF react] by auto
  moreover have "s' = buildThreadStates payload flow'" "log' = log3"
    using assms(2,3) root reply react by (simp_all add: thread_deliver_def)
  ultimately show thesis using log1 log2 buildThreadStates_leads [of flow' payload]
    by (intro that [of "PostReply (rootTS flow) payload # new" "rootTS flow"]) simp_all
qed

text \<open>
  Once the reaction on the root is terminal, an event that is not terminal is only a reply: the
  root message, its reaction and the recorded reaction stay.
\<close>

lemma terminal_root_preserved:
  assumes "resolveRootThreadTimestamp payload s = R" "R \<noteq> []" "isNonTerminalEvent (pl_Event payload)"
    and "isTerminalReaction (lookup_default [] s ''slack.thread.last_reaction'')"
    and "\<not> shouldSuppressExecutionProgress payload cfg" "thread_deliver api cfg s payload log = (res, log')"
  shows "log' = log @ [PostReply R payload]"
    and "res = Inr s' \<Longrightarrow> isTerminalReaction (lookup_default [] s' ''slack.thread.last_reaction'')"
proof -
  let ?f = "newThreadDeliveryFlow payload s"
  have f: "rootTS ?f = R" "preserveTerminalRoot ?f" "effectiveReaction ?f = TrimSpace (lookup_default [] s ''slack.thread.last_reaction'')"
    using assms(1-4) by (simp_all add: newThreadDeliveryFlow_def Let_def shouldPreserveTerminalRoot_def isTerminalReaction_def)
  have "syncThreadRoot api payload ?f log = (Inr ?f, log)" "\<And>l. syncThreadRootReaction api ?f l = (?f, l)"
    using f assms(2) by (simp_all add: syncThreadRoot_def syncThreadRootReaction_def)
  then have d: "(res, log') = (case sendThreadReply api payload R log of
      (Some err, l) \<Rightarrow> (Inl err, l) | (None, l) \<Rightarrow> (Inr (buildThreadStates payload ?f), l))"
    using assms(5,6) f(1) by (auto simp: thread_deliver_def split: prod.splits option.splits)
  then show "log' = log @ [PostReply R payload]"
    by (auto simp: sendThreadReply_def sendViaChatAPI_def split: sum.splits)
  have "effectiveReaction ?f \<noteq> []" "isTerminalReaction (effectiveReaction ?f)"
    using f(3) assms(4) by (auto simp: isTerminalReaction_def)
  then have "isTerminalReaction (lookup_default [] (buildThreadStates payload ?f) ''slack.thread.last_reaction'')"
    by (simp add: buildThreadStates_def lookup_default_def)
  then show "res = Inr s' \<Longrightarrow> isTerminalReaction (lookup_default [] s' ''slack.thread.last_reaction'')"
    using d by (auto split: prod.splits option.splits)
qed

text \<open>
  A root whose first reply fails is forgotten: no state is reported, so the next event posts
  another root.
\<close>

lemma root_lost_when_reply_fails:
  assumes "resolveRootThreadTimestamp payload s = []" "\<not> shouldSuppressExecutionProgress payload cfg"
    and "onPost api (length log) = Inr (channel, ts)" "channel \<noteq> []" "ts \<noteq> []" "onPost api (Suc (length log)) = Inl err"
  shows "thread_deliver api cfg s payload log =
    (Inl (Wrap ''send slack notification: '' err), log @ [PostRoot payload, PostReply ts payload])"
  using assms
  by (simp add: thread_deliver_def syncThreadRoot_def newThreadDeliveryFlow_def Let_def sendThreadReply_def sendViaChatAPI_def)

text \<open>A Start event posts a new root even in a thread whose root is terminal.\<close>

lemma start_opens_new_root:
  assumes "pl_Event payload = ''Start''" "onPost api (length log) = Inr (channel, ts)" "channel \<noteq> []" "ts \<noteq> []"
  shows "\<exists>calls. snd (thread_deliver api cfg s payload log) = log @ PostRoot payload # PostReply ts payload # calls"
proof -
  have e: "resolveRootThreadTimestamp payload s = []" "\<not> shouldSuppressExecutionProgress payload cfg"
    using assms(1) by (simp_all add: resolveRootThreadTimestamp_def shouldSuppressExecutionProgress_def)
  let ?flow = "(newThreadDeliveryFlow payload s)\<lparr>rootTS := ts, rootCreated := True\<rparr>"
  have "syncThreadRoot api payload (newThreadDeliveryFlow payload s) log = (Inr ?flow, log @ [PostRoot payload])"
    using e assms by (simp add: syncThreadRoot_def newThreadDeliveryFlow_def Let_def sendViaChatAPI_def)
  moreover obtain flow' log3 where r: "syncThreadRootReaction api ?flow (log @ [PostRoot payload, PostReply ts payload]) = (flow', log3)"
    by fastforce
  moreover obtain new where "log3 = log @ [PostRoot payload, PostReply ts payload] @ new"
    using syncThreadRootReaction_thread [OF r] by auto
  ultimately show ?thesis using e
    by (auto simp: thread_deliver_def sendThreadReply_def sendViaChatAPI_def split: sum.splits)
qed

section \<open>Configuration\<close>

lemma validate_thread:
  assumes "validate LoadLocation c = None"
  shows "DeliveryMode c \<in> {''channel'', ''thread''}" "DeliveryMode c = ''thread'' \<Longrightarrow> BotToken c \<noteq> [] \<and> ChannelID c \<noteq> []"
    "DeliveryMode c = ''channel'' \<Longrightarrow> WebhookURL c \<noteq> []"
  using assms by (auto simp: validate_def cfgErr_def split: if_splits)

lemma normalizeLoop_distinct: "distinct (normalizeLoop seen xs) \<and> set (normalizeLoop seen xs) \<inter> set seen = {} \<and> [] \<notin> set (normalizeLoop seen xs)"
  by (induction seen xs rule: normalizeLoop.induct) (auto simp: Let_def)

end
