(* ===== verification/Cache.thy ===== *)
theory Cache
  imports GoTime
begin

text \<open>
  The cache of \<^verbatim>\<open>pkg/cache/cache.go\<close>: a size-bounded LRU with an optional time to live.  The
  LRU itself is third-party: its operations are the fields of \<open>lru_ops\<close>, and what the cache
  relies on is \<open>lru_laws\<close>.  An operation reads the clock once; the callback on expiry is the list
  of the entries it would be called with.
\<close>

record ('l, 'k, 'v) lru_ops =
  lru_Add :: "'k \<Rightarrow> 'v \<Rightarrow> 'l \<Rightarrow> 'l"
  lru_Get :: "'k \<Rightarrow> 'l \<Rightarrow> 'v option \<times> 'l"
  lru_Peek :: "'k \<Rightarrow> 'l \<Rightarrow> 'v option"
  lru_Remove :: "'k \<Rightarrow> 'l \<Rightarrow> bool \<times> 'l"
  lru_Contains :: "'k \<Rightarrow> 'l \<Rightarrow> bool"
  lru_Len :: "'l \<Rightarrow> nat"
  lru_New :: "nat \<Rightarrow> 'l"

text \<open>
  What the library documents: \<open>Peek\<close> reads without effect, \<open>Get\<close> changes recency only,
  \<open>Add\<close> stores and may evict other keys, \<open>Remove\<close> removes that key.
\<close>

definition lru_laws :: "('l, 'k, 'v) lru_ops \<Rightarrow> bool" where
  "lru_laws L \<longleftrightarrow>
     (\<forall>k l. lru_Contains L k l \<longleftrightarrow> lru_Peek L k l \<noteq> None) \<and>
     (\<forall>k l. fst (lru_Get L k l) = lru_Peek L k l) \<and>
     (\<forall>k k' l. lru_Peek L k' (snd (lru_Get L k l)) = lru_Peek L k' l) \<and>
     (\<forall>k v l. lru_Peek L k (lru_Add L k v l) = Some v) \<and>
     (\<forall>k k' v l. k' \<noteq> k \<longrightarrow> lru_Peek L k' (lru_Add L k v l) \<in> {lru_Peek L k' l, None}) \<and>
     (\<forall>k l. fst (lru_Remove L k l) \<longleftrightarrow> lru_Peek L k l \<noteq> None) \<and>
     (\<forall>k k' l. lru_Peek L k' (snd (lru_Remove L k l)) = (if k' = k then None else lru_Peek L k' l)) \<and>
     (\<forall>k n. lru_Peek L k (lru_New L n) = None)"

record Config =
  MaxSize :: int
  TTL :: duration
  Active :: bool
  hasOnEvict :: bool

text \<open>\<open>lastAccessed\<close> is nil unless there is a time to live.\<close>

record ('l, 'k) Cache =
  lru :: 'l
  lastAccessed :: "('k \<times> Time) list option"

definition New :: "('l, 'k, 'v) lru_ops \<Rightarrow> Config \<Rightarrow> ('l, 'k) Cache" where
  "New L cfg =
     \<lparr>lru = lru_New L (nat (if MaxSize cfg \<le> 0 then 1000 else MaxSize cfg)),
      lastAccessed = (if TTL cfg > 0 then Some [] else None)\<rparr>"

definition Add :: "('l, 'k, 'v) lru_ops \<Rightarrow> Time \<Rightarrow> 'k \<Rightarrow> 'v \<Rightarrow> ('l, 'k) Cache \<Rightarrow> ('l, 'k) Cache" where
  "Add L now key value c =
     \<lparr>lru = lru_Add L key value (lru c), lastAccessed = map_option (AList.update key now) (lastAccessed c)\<rparr>"

definition expired :: "Config \<Rightarrow> Time \<Rightarrow> Time \<Rightarrow> bool" where
  "expired cfg now t \<longleftrightarrow> SubTime now t > TTL cfg"

definition evicted :: "Config \<Rightarrow> 'k \<Rightarrow> 'v \<Rightarrow> ('k \<times> 'v) list" where
  "evicted cfg key v = (if hasOnEvict cfg then [(key, v)] else [])"

definition Get :: "('l, 'k, 'v) lru_ops \<Rightarrow> Config \<Rightarrow> Time \<Rightarrow> 'k \<Rightarrow> ('l, 'k) Cache \<Rightarrow>
    ('v option \<times> ('k \<times> 'v) list) \<times> ('l, 'k) Cache" where
  "Get L cfg now key c =
     (case lru_Get L key (lru c) of
        (None, l) \<Rightarrow> ((None, []), c\<lparr>lru := l\<rparr>)
      | (Some v, l) \<Rightarrow>
          (case lastAccessed c of
             None \<Rightarrow> ((Some v, []), c\<lparr>lru := l\<rparr>)
           | Some acc \<Rightarrow>
               (case map_of acc key of
                  None \<Rightarrow> ((None, []), c\<lparr>lru := l\<rparr>)
                | Some t \<Rightarrow>
                    if expired cfg now t then
                      ((None, evicted cfg key v),
                       \<lparr>lru = snd (lru_Remove L key l), lastAccessed = Some (AList.delete key acc)\<rparr>)
                    else
                      ((Some v, []),
                       \<lparr>lru = l, lastAccessed = Some (if Active cfg then AList.update key now acc else acc)\<rparr>))))"

text \<open>
  \<open>GetOrFetch\<close> with no other fetch of the key in flight.  \<open>fetch\<close> yields a value, a value
  that is not to be cached (\<open>ErrDontCache\<close>), or an error.
\<close>

datatype 'v fetched = Fetched 'v | DontCache 'v | FetchError go_error

definition GetOrFetch :: "('l, 'k, 'v) lru_ops \<Rightarrow> Config \<Rightarrow> Time \<Rightarrow> 'k \<Rightarrow> 'v fetched \<Rightarrow> ('l, 'k) Cache \<Rightarrow>
    'v res \<times> ('l, 'k) Cache" where
  "GetOrFetch L cfg now key fetch c =
     (case Get L cfg now key c of
        ((Some v, _), c1) \<Rightarrow> (Inr v, c1)
      | ((None, _), c1) \<Rightarrow>
          (case Get L cfg now key c1 of
             ((Some v, _), c2) \<Rightarrow> (Inr v, c2)
           | ((None, _), c2) \<Rightarrow>
               (case fetch of
                  DontCache v \<Rightarrow> (Inr v, c2)
                | FetchError err \<Rightarrow> (Inl err, c2)
                | Fetched v \<Rightarrow> (Inr v, Add L now key v c2))))"

definition Peek :: "('l, 'k, 'v) lru_ops \<Rightarrow> 'k \<Rightarrow> ('l, 'k) Cache \<Rightarrow> 'v option" where
  "Peek L key c = lru_Peek L key (lru c)"

definition Remove :: "('l, 'k, 'v) lru_ops \<Rightarrow> 'k \<Rightarrow> ('l, 'k) Cache \<Rightarrow> bool \<times> ('l, 'k) Cache" where
  "Remove L key c =
     (case lru_Remove L key (lru c) of
        (removed, l) \<Rightarrow>
          (removed, \<lparr>lru = l, lastAccessed = (if removed then map_option (AList.delete key) (lastAccessed c) else lastAccessed c)\<rparr>))"

definition Contains :: "('l, 'k, 'v) lru_ops \<Rightarrow> Config \<Rightarrow> Time \<Rightarrow> 'k \<Rightarrow> ('l, 'k) Cache \<Rightarrow>
    (bool \<times> ('k \<times> 'v) list) \<times> ('l, 'k) Cache" where
  "Contains L cfg now key c =
     (case lastAccessed c of
        None \<Rightarrow> ((lru_Contains L key (lru c), []), c)
      | Some acc \<Rightarrow>
          if \<not> lru_Contains L key (lru c) then ((False, []), c)
          else
            (case map_of acc key of
               None \<Rightarrow> ((False, []), c)
             | Some t \<Rightarrow>
                 if expired cfg now t then
                   (case lru_Peek L key (lru c) of
                      None \<Rightarrow> ((False, []), c)
                    | Some v \<Rightarrow>
                        ((False, evicted cfg key v),
                         \<lparr>lru = snd (lru_Remove L key (lru c)), lastAccessed = Some (AList.delete key acc)\<rparr>))
                 else ((True, []), c)))"

text \<open>The loop of \<open>sweep\<close> over the entries of \<open>lastAccessed\<close>, in iteration order.\<close>

fun sweepLoop :: "('l, 'k, 'v) lru_ops \<Rightarrow> Config \<Rightarrow> Time \<Rightarrow> ('k \<times> Time) list \<Rightarrow> 'l \<times> ('k \<times> Time) list \<Rightarrow>
    ('k \<times> 'v) list \<times> 'l \<times> ('k \<times> Time) list" where
  "sweepLoop L cfg cutoff [] s = ([], s)"
| "sweepLoop L cfg cutoff ((k, t) # rest) (l, acc) =
     (if \<not> lru_Contains L k l then sweepLoop L cfg cutoff rest (l, AList.delete k acc)
      else
        (case (Before t cutoff, lru_Peek L k l) of
           (True, Some v) \<Rightarrow>
             (case sweepLoop L cfg cutoff rest (snd (lru_Remove L k l), AList.delete k acc) of
                (ev, s) \<Rightarrow> (evicted cfg k v @ ev, s))
         | _ \<Rightarrow> sweepLoop L cfg cutoff rest (l, acc)))"

definition sweep :: "('l, 'k, 'v) lru_ops \<Rightarrow> Config \<Rightarrow> Time \<Rightarrow> ('l, 'k) Cache \<Rightarrow> ('k \<times> 'v) list \<times> ('l, 'k) Cache" where
  "sweep L cfg now c =
     (case lastAccessed c of
        None \<Rightarrow> ([], c)
      | Some acc \<Rightarrow>
          (case sweepLoop L cfg (AddDur now (- TTL cfg)) acc (lru c, acc) of
             (ev, l, acc') \<Rightarrow> (ev, \<lparr>lru = l, lastAccessed = Some acc'\<rparr>)))"

section \<open>What the cache promises\<close>

text \<open>Every entry is tracked, once; \<open>live\<close> is the entry a reader may still be given.\<close>

definition cache_ok :: "('l, 'k, 'v) lru_ops \<Rightarrow> ('l, 'k) Cache \<Rightarrow> bool" where
  "cache_ok L c \<longleftrightarrow> (\<forall>acc. lastAccessed c = Some acc \<longrightarrow>
     distinct (map fst acc) \<and> (\<forall>k. lru_Peek L k (lru c) \<noteq> None \<longrightarrow> map_of acc k \<noteq> None))"

definition live :: "('l, 'k, 'v) lru_ops \<Rightarrow> Config \<Rightarrow> Time \<Rightarrow> ('l, 'k) Cache \<Rightarrow> 'k \<Rightarrow> 'v option" where
  "live L cfg now c k =
     (case lastAccessed c of
        None \<Rightarrow> lru_Peek L k (lru c)
      | Some acc \<Rightarrow> (case map_of acc k of None \<Rightarrow> None
          | Some t \<Rightarrow> if expired cfg now t then None else lru_Peek L k (lru c)))"

lemma lru_lawsD:
  assumes "lru_laws L"
  shows "lru_Contains L k l \<longleftrightarrow> lru_Peek L k l \<noteq> None" "fst (lru_Get L k l) = lru_Peek L k l"
    "lru_Peek L k' (snd (lru_Get L k l)) = lru_Peek L k' l" "lru_Peek L k (lru_Add L k v l) = Some v"
    "lru_Peek L k' (snd (lru_Remove L k l)) = (if k' = k then None else lru_Peek L k' l)"
    "fst (lru_Remove L k l) \<longleftrightarrow> lru_Peek L k l \<noteq> None" "lru_Peek L k (lru_New L n) = None"
  using assms by (simp_all add: lru_laws_def)

lemma lru_add_other:
  assumes "lru_laws L" "k' \<noteq> k"
  shows "lru_Peek L k' (lru_Add L k v l) = lru_Peek L k' l \<or> lru_Peek L k' (lru_Add L k v l) = None"
  using assms unfolding lru_laws_def by (metis empty_iff insert_iff)

lemma lru_Get_cases:
  assumes "lru_laws L"
  obtains l' where "lru_Get L k l = (lru_Peek L k l, l')" "\<And>k'. lru_Peek L k' l' = lru_Peek L k' l"
  using lru_lawsD(2,3) [OF assms] by (metis prod.collapse)

lemma Add_ok: "lru_laws L \<Longrightarrow> cache_ok L c \<Longrightarrow> cache_ok L (Add L now k v c)"
  using lru_add_other [of L _ k v "lru c"]
  by (auto simp: cache_ok_def Add_def distinct_update update_conv' split: if_splits)
    (metis option.distinct(1))

lemma Get_ok:
  assumes "lru_laws L" "cache_ok L c"
  shows "cache_ok L (snd (Get L cfg now k c))"
proof -
  obtain l' where l: "lru_Get L k (lru c) = (lru_Peek L k (lru c), l')" "\<And>k'. lru_Peek L k' l' = lru_Peek L k' (lru c)"
    using lru_Get_cases [OF assms(1)] by blast
  show ?thesis using assms(2) l lru_lawsD(5) [OF assms(1)]
    by (auto simp: cache_ok_def Get_def distinct_update update_conv' distinct_delete delete_conv' split: option.splits)
qed

text \<open>
  A read gives the live entry, and nothing else; in active mode, and only then, it extends the life
  of the entry.
\<close>

lemma Get_live:
  assumes "lru_laws L"
  shows "fst (fst (Get L cfg now k c)) = live L cfg now c k"
proof -
  obtain l' where "lru_Get L k (lru c) = (lru_Peek L k (lru c), l')" using lru_Get_cases [OF assms] by blast
  then show ?thesis by (auto simp: Get_def live_def split: option.splits)
qed

lemma Contains_live:
  assumes "lru_laws L"
  shows "fst (fst (Contains L cfg now k c)) \<longleftrightarrow> live L cfg now c k \<noteq> None"
  using lru_lawsD(1) [OF assms] by (auto simp: Contains_def live_def split: option.splits)

lemma Remove_ok:
  assumes "lru_laws L" "cache_ok L c"
  shows "cache_ok L (snd (Remove L k c))" "live L cfg now (snd (Remove L k c)) k = None"
proof -
  obtain b l where r: "lru_Remove L k (lru c) = (b, l)" by fastforce
  then have "b \<longleftrightarrow> lru_Peek L k (lru c) \<noteq> None" "\<And>k'. lru_Peek L k' l = (if k' = k then None else lru_Peek L k' (lru c))"
    using lru_lawsD(5,6) [OF assms(1)] by (metis fst_conv, metis snd_conv)
  then show "cache_ok L (snd (Remove L k c))" "live L cfg now (snd (Remove L k c)) k = None"
    using assms(2) r
    by (auto simp: cache_ok_def live_def Remove_def distinct_delete delete_conv' split: option.splits)
qed

text \<open>An entry just stored is given back for the time to live, in active mode counted from the last read.\<close>

lemma Add_live:
  assumes "lru_laws L" "\<not> expired cfg now' now"
  shows "live L cfg now' (Add L now k v c) k = Some v"
  using assms(2) lru_lawsD(4) [OF assms(1)] by (auto simp: live_def Add_def update_conv' split: option.splits)

lemma Get_extends:
  assumes "lru_laws L" "live L cfg now c k = Some v" "Active cfg" "\<not> expired cfg now' now"
  shows "live L cfg now' (snd (Get L cfg now k c)) k = Some v"
proof -
  obtain l' where "lru_Get L k (lru c) = (lru_Peek L k (lru c), l')" "\<And>k'. lru_Peek L k' l' = lru_Peek L k' (lru c)"
    using lru_Get_cases [OF assms(1)] by blast
  then show ?thesis using assms(2-) by (auto simp: Get_def live_def update_conv' split: option.splits if_splits)
qed

section \<open>Sweeping\<close>

lemma expired_iff:
  assumes "0 \<le> TTL cfg" "TTL cfg < 2 ^ 63 - 1"
  shows "expired cfg now t \<longleftrightarrow> Before t (AddDur now (- TTL cfg))"
  using assms by (auto simp: expired_def SubTime_def sat64_def Before_def AddDur_def)

lemma sweepLoop_effect:
  assumes "lru_laws L" "distinct (map fst rest)" "sweepLoop L cfg cutoff rest (l, acc) = (ev, l', acc')"
  shows "lru_Peek L k l' = (case map_of rest k of Some t \<Rightarrow> if Before t cutoff then None else lru_Peek L k l | None \<Rightarrow> lru_Peek L k l) \<and>
    map_of acc' k = (case map_of rest k of None \<Rightarrow> map_of acc k
      | Some t \<Rightarrow> if Before t cutoff \<or> lru_Peek L k l = None then None else map_of acc k) \<and>
    (distinct (map fst acc) \<longrightarrow> distinct (map fst acc'))"
  using assms(2,3)
proof (induction rest arbitrary: l acc ev)
  case (Cons x rest)
  obtain key t where x: "x = (key, t)" by fastforce
  define s where "s = (if \<not> lru_Contains L key l then (l, AList.delete key acc)
    else if Before t cutoff \<and> lru_Peek L key l \<noteq> None then (snd (lru_Remove L key l), AList.delete key acc) else (l, acc))"
  obtain l1 acc1 where s1: "s = (l1, acc1)" by fastforce
  obtain ev1 where loop: "sweepLoop L cfg cutoff rest (l1, acc1) = (ev1, l', acc')"
    using Cons.prems(2) x s1 unfolding s_def by (auto split: if_splits option.splits prod.splits bool.splits)
  have p: "lru_Peek L k l1 = (if k = key \<and> Before t cutoff then None else lru_Peek L k l)"
    and m: "map_of acc1 k = (if k = key \<and> (Before t cutoff \<or> lru_Peek L k l = None) then None else map_of acc k)"
    and d: "distinct (map fst acc) \<Longrightarrow> distinct (map fst acc1)"
    using s1 lru_lawsD(1,5) [OF assms(1)] unfolding s_def
    by (auto simp: delete_conv' distinct_delete split: if_splits)
  have nr: "key = k \<Longrightarrow> map_of rest k = None" using Cons.prems(1) x by (auto simp: map_of_eq_None_iff)
  have "distinct (map fst rest)" using Cons.prems(1) by simp
  from Cons.IH [OF this loop] show ?case using p m d nr x by (auto split: option.splits)
qed simp

text \<open>
  A sweep takes away no live entry, and afterwards the cache tracks exactly the live entries: what
  the LRU evicted and what expired is forgotten.
\<close>

lemma sweep_exact:
  assumes "lru_laws L" "cache_ok L c" "lastAccessed c \<noteq> None" "0 \<le> TTL cfg" "TTL cfg < 2 ^ 63 - 1"
  shows "cache_ok L (snd (sweep L cfg now c)) \<and> live L cfg now (snd (sweep L cfg now c)) = live L cfg now c \<and>
    fst ` set (the (lastAccessed (snd (sweep L cfg now c)))) = {k. live L cfg now c k \<noteq> None}"
proof -
  obtain acc where acc: "lastAccessed c = Some acc" using assms(3) by blast
  obtain ev l' acc' where loop: "sweepLoop L cfg (AddDur now (- TTL cfg)) acc (lru c, acc) = (ev, l', acc')"
    by (metis prod.exhaust)
  have ok: "distinct (map fst acc)" "\<And>k. map_of acc k = None \<Longrightarrow> lru_Peek L k (lru c) = None"
    using assms(2) acc unfolding cache_ok_def by blast+
  note e = sweepLoop_effect [OF assms(1) ok(1) loop]
  have acc': "map_of acc' k = (case map_of acc k of None \<Rightarrow> None
      | Some t \<Rightarrow> if expired cfg now t \<or> lru_Peek L k (lru c) = None then None else Some t)" for k
    using conjunct1 [OF conjunct2 [OF e [of k]]] by (auto simp: expired_iff [OF assms(4,5)] split: option.splits)
  have l': "lru_Peek L k l' = (case map_of acc k of Some t \<Rightarrow> if expired cfg now t then None else lru_Peek L k (lru c)
      | None \<Rightarrow> None)" for k
    using conjunct1 [OF e [of k]] ok(2) [of k] by (auto simp: expired_iff [OF assms(4,5)] split: option.splits)
  have s: "snd (sweep L cfg now c) = \<lparr>lru = l', lastAccessed = Some acc'\<rparr>" using acc loop by (simp add: sweep_def)
  have d: "distinct (map fst acc')" using e [of undefined] ok(1) by blast
  have "lru_Peek L k l' \<noteq> None \<Longrightarrow> map_of acc' k \<noteq> None" for k
    unfolding acc' l' by (auto split: option.splits if_splits)
  then have c: "cache_ok L (snd (sweep L cfg now c))" using s d by (simp add: cache_ok_def)
  have v: "live L cfg now (snd (sweep L cfg now c)) k = live L cfg now c k" for k
    unfolding live_def s acc by (simp add: acc' l' split: option.splits)
  have "k \<in> fst ` set acc' \<longleftrightarrow> live L cfg now c k \<noteq> None" for k
  proof -
    have "k \<in> fst ` set acc' \<longleftrightarrow> map_of acc' k \<noteq> None" by (simp add: map_of_eq_None_iff)
    then show ?thesis unfolding live_def acc acc' by (simp split: option.splits)
  qed
  then have "fst ` set acc' = {k. live L cfg now c k \<noteq> None}" by blast
  then show ?thesis using c v s by (simp add: fun_eq_iff)
qed


lemma GetOrFetch_result:
  assumes "lru_laws L" "cache_ok L c"
  shows "fst (GetOrFetch L cfg now k fetch c) =
    (case live L cfg now c k of Some v \<Rightarrow> Inr v
     | None \<Rightarrow> (case fetch of Fetched v \<Rightarrow> Inr v | DontCache v \<Rightarrow> Inr v | FetchError err \<Rightarrow> Inl err))"
    and "cache_ok L (snd (GetOrFetch L cfg now k fetch c))"
proof -
  obtain v ev c1 where g1: "Get L cfg now k c = ((v, ev), c1)" by (metis prod.exhaust)
  obtain v2 ev2 c2 where g2: "Get L cfg now k c1 = ((v2, ev2), c2)" by (metis prod.exhaust)
  have v: "v = live L cfg now c k" "v2 = live L cfg now c1 k"
    using Get_live [OF assms(1), of cfg now k c] Get_live [OF assms(1), of cfg now k c1] g1 g2 by simp_all
  have ok: "cache_ok L c1" "cache_ok L c2"
    using Get_ok [OF assms, of cfg now k] Get_ok [OF assms(1), of c1 cfg now k] g1 g2 by simp_all
  have "live L cfg now c1 k = None" if "live L cfg now c k = None"
  proof -
    obtain l' where "lru_Get L k (lru c) = (lru_Peek L k (lru c), l')" "\<And>k'. lru_Peek L k' l' = lru_Peek L k' (lru c)"
      using lru_Get_cases [OF assms(1)] by blast
    then show ?thesis using that g1 lru_lawsD(5) [OF assms(1)]
      by (auto simp: Get_def live_def delete_conv' split: option.splits if_splits)
  qed
  then show "fst (GetOrFetch L cfg now k fetch c) =
    (case live L cfg now c k of Some v \<Rightarrow> Inr v
     | None \<Rightarrow> (case fetch of Fetched v \<Rightarrow> Inr v | DontCache v \<Rightarrow> Inr v | FetchError err \<Rightarrow> Inl err))"
    using g1 g2 v by (auto simp: GetOrFetch_def split: option.splits fetched.splits)
  show "cache_ok L (snd (GetOrFetch L cfg now k fetch c))"
    using g1 g2 ok Add_ok [OF assms(1) ok(2)] by (auto simp: GetOrFetch_def split: option.splits fetched.splits)
qed

section \<open>A list as the LRU\<close>

text \<open>The laws can hold: an association list, most recent first, cut to its capacity.\<close>

definition listLru :: "(nat \<times> ('k \<times> 'v) list, 'k, 'v) lru_ops" where
  "listLru = \<lparr>lru_Add = \<lambda>k v l. (fst l, take (max 1 (fst l)) ((k, v) # AList.delete k (snd l))),
     lru_Get = \<lambda>k l. (case map_of (snd l) k of None \<Rightarrow> (None, l) | Some v \<Rightarrow> (Some v, (fst l, (k, v) # AList.delete k (snd l)))),
     lru_Peek = \<lambda>k l. map_of (snd l) k,
     lru_Remove = \<lambda>k l. (map_of (snd l) k \<noteq> None, (fst l, AList.delete k (snd l))),
     lru_Contains = \<lambda>k l. map_of (snd l) k \<noteq> None, lru_Len = \<lambda>l. length (snd l), lru_New = \<lambda>n. (n, [])\<rparr>"

lemma map_of_take: "map_of (take n xs) k \<in> {map_of xs k, None}"
  by (induction xs arbitrary: n) (auto simp: take_Cons split: nat.splits)

lemma listLru_laws: "lru_laws listLru"
proof -
  have "map_of (take (max 1 n) ((k, v) # AList.delete k xs)) k = Some v" for n :: nat and k v and xs :: "('a \<times> 'b) list"
    by (cases "max 1 n") auto
  moreover have "map_of (take (max 1 n) ((k, v) # AList.delete k xs)) k' \<in> {map_of xs k', None}" if "k' \<noteq> k"
    for n :: nat and k k' v and xs :: "('a \<times> 'b) list"
    using map_of_take [of "max 1 n" "(k, v) # AList.delete k xs" k'] that by (simp add: delete_conv')
  ultimately show ?thesis
    unfolding lru_laws_def listLru_def by (simp add: delete_conv' split: option.splits)
qed

end
