(* ===== verification/Dispatcher.thy ===== *)
theory Dispatcher
  imports Slack NotifLifecycle Cache
begin

text \<open>
  The notification dispatcher (\<^verbatim>\<open>internal/notification/dispatcher.go\<close>, \<^verbatim>\<open>types.go\<close>): the
  identity of a request, the resolution of its secret, template and sink state, the call of the
  sink, and the report of the delivery.  A sink acts on a world \<open>'w\<close>; the Slack sink of
  \<open>Slack\<close> is one, and its world is the log of calls.  The objects read from the cluster are
  fields of the environment.  Metrics, logging and the timeout of a send are not modelled.
\<close>

section \<open>Requests\<close>

record streamKey =
  sk_Plan :: "string \<times> string"
  sk_CycleID :: string
  sk_NotificationRef :: "string \<times> string"
  sk_SinkName :: string
  sk_SinkType :: string
  sk_Operation :: string

definition streamKeyFromRequest :: "Request \<Rightarrow> streamKey" where
  "streamKeyFromRequest req =
     \<lparr>sk_Plan = (pl_Namespace (rq_Payload req), pl_Name (rq_Payload req)), sk_CycleID = pl_CycleID (rq_Payload req),
      sk_NotificationRef = NotificationRef req, sk_SinkName = SinkName req, sk_SinkType = SinkType req,
      sk_Operation = pl_Operation (rq_Payload req)\<rparr>"

definition ShortName :: "Request \<Rightarrow> string" where
  "ShortName r = SinkName r @ ''|'' @ pl_Namespace (rq_Payload r) @ ''/'' @ pl_Name (rq_Payload r) @ ''|'' @
     pl_CycleID (rq_Payload r) @ ''|'' @ pl_Operation (rq_Payload r)"

definition requestString :: "Request \<Rightarrow> string" where
  "requestString r = fst (NotificationRef r) @ ''/'' @ snd (NotificationRef r) @ ''|'' @ ShortName r"

definition FromRequest :: "Request \<Rightarrow> Time \<Rightarrow> bool \<Rightarrow> go_error option \<Rightarrow> states \<Rightarrow> DeliveryResult" where
  "FromRequest req t success err sts =
     \<lparr>dr_ID = ShortName req, dr_NotificationRef = NotificationRef req, dr_SinkName = SinkName req,
      dr_PlanNamespace = pl_Namespace (rq_Payload req), dr_PlanName = pl_Name (rq_Payload req),
      dr_CycleID = pl_CycleID (rq_Payload req), dr_Operation = pl_Operation (rq_Payload req),
      dr_Timestamp = t, dr_Success = success, dr_Error = err, dr_States = sts\<rparr>"

text \<open>After shutdown has begun a request is discarded; before, it is delivered to the slot of its stream.\<close>

definition Submit :: "bool \<Rightarrow> Request \<Rightarrow> (streamKey \<times> Request) option" where
  "Submit stopped req = (if stopped then None else Some (streamKeyFromRequest req, req))"

section \<open>States\<close>

definition mergeStates :: "states \<Rightarrow> states \<Rightarrow> states" where
  "mergeStates base override =
     (if base = [] \<and> override = [] then []
      else fold (\<lambda>(k, v) out. if v = [] then AList.delete k out else AList.update k v out) override base)"

section \<open>The dispatcher\<close>

record SendOptions =
  so_Config :: string
  CustomTemplate :: "(string \<times> (string \<times> string)) option"
  SinkState :: states

type_synonym 'w sink = "Payload \<Rightarrow> SendOptions \<Rightarrow> 'w \<Rightarrow> states res \<times> 'w"

record 'w dispatcher_env =
  registry :: "string \<Rightarrow> 'w sink option"
  getSecret :: "string \<Rightarrow> string \<Rightarrow> (string \<times> string) list res"
  getConfigMap :: "string \<Rightarrow> string \<Rightarrow> (string \<times> string) list res"
  getNotification :: "string \<times> string \<Rightarrow> HibernateNotificationStatus res"
  deliveryCallback :: bool

record ('l, 'w) dispatcher =
  stateCache :: "('l, string) Cache"
  world :: 'w
  reported :: "DeliveryResult list"

definition defaultStateCacheTTL :: duration where "defaultStateCacheTTL = 10 * Minute"

definition stateCacheConfig :: Config where
  "stateCacheConfig = \<lparr>MaxSize = 1000, TTL = defaultStateCacheTTL, Active = True, hasOnEvict = False\<rparr>"

definition lookupKey :: "string \<Rightarrow> string \<Rightarrow> string \<Rightarrow> string \<Rightarrow> (string \<times> string) list res \<Rightarrow> string res" where
  "lookupKey what ns name key data =
     (case data of
        Inl err \<Rightarrow> Inl err
      | Inr kvs \<Rightarrow> (case map_of kvs key of
           None \<Rightarrow> Inl (ErrMsg (what @ '' '' @ ns @ ''/'' @ name @ '' missing key '' @ key))
         | Some v \<Rightarrow> Inr v))"

definition resolveSecret :: "'w dispatcher_env \<Rightarrow> string \<Rightarrow> ObjectKeyReference \<Rightarrow> string res" where
  "resolveSecret env ns ref =
     lookupKey ''secret'' ns (okr_Name ref) (case okr_Key ref of None \<Rightarrow> ''config'' | Some k \<Rightarrow> k)
       (getSecret env ns (okr_Name ref))"

definition resolveCustomTemplate :: "'w dispatcher_env \<Rightarrow> string \<Rightarrow> ObjectKeyReference \<Rightarrow> string res" where
  "resolveCustomTemplate env ns ref =
     lookupKey ''configmap'' ns (okr_Name ref) (case okr_Key ref of None \<Rightarrow> ''template.gotpl'' | Some k \<Rightarrow> k)
       (getConfigMap env ns (okr_Name ref))"

text \<open>What the fetch function of \<open>resolveSinkState\<close> yields: the states in the status of the notification.\<close>

definition fetchState :: "'w dispatcher_env \<Rightarrow> Request \<Rightarrow> states fetched" where
  "fetchState env req =
     (case getNotification env (NotificationRef req) of
        Inl err \<Rightarrow> FetchError err
      | Inr st \<Rightarrow>
          (case map_of (SinkStatuses st) (ShortName req) of
             None \<Rightarrow> DontCache []
           | Some ss \<Rightarrow> if ss_States ss = [] then DontCache [] else Fetched (ss_States ss)))"

definition resolveSinkState :: "('l, string, states) lru_ops \<Rightarrow> 'w dispatcher_env \<Rightarrow> Time \<Rightarrow> Request \<Rightarrow>
    ('l, string) Cache \<Rightarrow> states \<times> ('l, string) Cache" where
  "resolveSinkState L env t req c =
     (if snd (NotificationRef req) = [] then ([], c)
      else
        (case GetOrFetch L stateCacheConfig t (requestString req) (fetchState env req) c of
           (Inl err, c') \<Rightarrow> ([], c')
         | (Inr s, c') \<Rightarrow> (s, c')))"

definition reportDelivery :: "('l, string, states) lru_ops \<Rightarrow> 'w dispatcher_env \<Rightarrow> Time \<Rightarrow> Request \<Rightarrow> bool \<Rightarrow>
    go_error option \<Rightarrow> states \<Rightarrow> ('l, 'w) dispatcher \<Rightarrow> ('l, 'w) dispatcher" where
  "reportDelivery L env t req success err sts d =
     (let d1 = (if sts \<noteq> [] then d\<lparr>stateCache := Add L t (requestString req) sts (stateCache d)\<rparr> else d) in
      if \<not> deliveryCallback env then d1
      else d1\<lparr>reported := reported d1 @ [FromRequest req t success err sts]\<rparr>)"

text \<open>\<open>t0\<close> is the instant the sink state is resolved, \<open>t1\<close> the one the delivery is reported.\<close>

definition dispatch :: "('l, string, states) lru_ops \<Rightarrow> 'w dispatcher_env \<Rightarrow> Time \<Rightarrow> Time \<Rightarrow> Request \<Rightarrow>
    ('l, 'w) dispatcher \<Rightarrow> ('l, 'w) dispatcher" where
  "dispatch L env t0 t1 req d =
     (case registry env (SinkType req) of
        None \<Rightarrow> d
      | Some provider \<Rightarrow>
          (case resolveSecret env (pl_Namespace (rq_Payload req)) (rq_SecretRef req) of
             Inl err \<Rightarrow> d
           | Inr config \<Rightarrow>
               (let customTmpl = (case rq_TemplateRef req of
                       None \<Rightarrow> None
                     | Some ref \<Rightarrow> (case resolveCustomTemplate env (pl_Namespace (rq_Payload req)) ref of
                         Inl err \<Rightarrow> None
                       | Inr content \<Rightarrow> Some (content, (pl_Namespace (rq_Payload req), okr_Name ref)))) in
                case resolveSinkState L env t0 req (stateCache d) of
                  (sinkState, c) \<Rightarrow>
                    (case provider (rq_Payload req)
                            \<lparr>so_Config = config, CustomTemplate = customTmpl, SinkState = sinkState\<rparr> (world d) of
                       (Inl err, w) \<Rightarrow>
                         reportDelivery L env t1 req False (Some err) (mergeStates sinkState [])
                           (d\<lparr>stateCache := c, world := w\<rparr>)
                     | (Inr sts, w) \<Rightarrow>
                         reportDelivery L env t1 req True None (mergeStates sinkState sts)
                           (d\<lparr>stateCache := c, world := w\<rparr>)))))"

text \<open>The worker of a stream dispatches its requests in the order of the slot.\<close>

fun dispatchAll :: "('l, string, states) lru_ops \<Rightarrow> 'w dispatcher_env \<Rightarrow> (Time \<times> Time \<times> Request) list \<Rightarrow>
    ('l, 'w) dispatcher \<Rightarrow> ('l, 'w) dispatcher" where
  "dispatchAll L env [] d = d"
| "dispatchAll L env ((t0, t1, req) # rest) d = dispatchAll L env rest (dispatch L env t0 t1 req d)"

text \<open>The Slack sink as a sink of the registry.\<close>

definition slackSink :: "(string \<Rightarrow> slack_config res) \<Rightarrow> (string \<Rightarrow> go_error option) \<Rightarrow> slack_api \<Rightarrow> slack_log sink" where
  "slackSink unmarshal LoadLocation api payload opts log =
     Send unmarshal LoadLocation api (so_Config opts) (SinkState opts) payload log"

section \<open>The overflow queue\<close>

text \<open>
  \<open>Consume\<close> takes all items and hands them to \<open>fn\<close> until it declines or the deadline
  passes; \<open>appended\<close> is what other goroutines append meanwhile.  The first component is what was
  consumed, the second the queue afterwards.
\<close>

fun consumeLoop :: "('a \<Rightarrow> bool) \<Rightarrow> (nat \<Rightarrow> bool) \<Rightarrow> nat \<Rightarrow> 'a list \<Rightarrow> 'a list \<times> 'a list" where
  "consumeLoop fn deadline i [] = ([], [])"
| "consumeLoop fn deadline i (x # xs) =
     (if deadline i then ([], x # xs)
      else if \<not> fn x then ([], x # xs)
      else (case consumeLoop fn deadline (Suc i) xs of (done, rest) \<Rightarrow> (x # done, rest)))"

definition Consume :: "('a \<Rightarrow> bool) \<Rightarrow> (nat \<Rightarrow> bool) \<Rightarrow> 'a list \<Rightarrow> 'a list \<Rightarrow> 'a list \<times> 'a list" where
  "Consume fn deadline items appended =
     (case consumeLoop fn deadline 0 items of (consumed, remainder) \<Rightarrow> (consumed, remainder @ appended))"

lemma Consume_keeps_order: "fst (Consume fn deadline items appended) @ snd (Consume fn deadline items appended) = items @ appended"
proof -
  have "fst (consumeLoop fn deadline i xs) @ snd (consumeLoop fn deadline i xs) = xs" for i xs
    by (induction fn deadline i xs rule: consumeLoop.induct) (auto split: prod.splits)
  then show ?thesis by (simp add: Consume_def split: prod.splits) (metis append.assoc fst_conv snd_conv)
qed

section \<open>Merging states\<close>

lemma mergeStates_lookup:
  assumes "distinct (map fst override)"
  shows "lookup_default [] (mergeStates base override) k =
    (case map_of override k of Some v \<Rightarrow> v | None \<Rightarrow> lookup_default [] base k)"
proof -
  have "lookup_default [] (fold (\<lambda>(k, v) out. if v = [] then AList.delete k out else AList.update k v out) override base) k =
      (case map_of override k of Some v \<Rightarrow> v | None \<Rightarrow> lookup_default [] base k)"
    using assms
  proof (induction override arbitrary: base)
    case (Cons x xs)
    obtain a v where x: "x = (a, v)" by fastforce
    have n: "a = k \<Longrightarrow> map_of xs k = None" using Cons.prems x by (auto simp: map_of_eq_None_iff)
    have del: "lookup_default [] (AList.delete a base) k = (if k = a then [] else lookup_default [] base k)"
      by (simp add: lookup_default_def delete_conv')
    show ?case using Cons n x del by (auto split: option.splits)
  qed simp
  then show ?thesis by (simp add: mergeStates_def lookup_default_def)
qed

lemma mergeStates_leads:
  assumes "leadsTo R ref s" "s' = [] \<or> leadsTo R ref s' \<and> map_of s' ''slack.thread.root_ts'' \<noteq> None \<and> map_of s' ''slack.thread.ref'' \<noteq> None"
    and "distinct (map fst s')"
  shows "leadsTo R ref (mergeStates s s')"
proof -
  have "lookup_default [] (mergeStates s s') k = (if map_of s' k = None then lookup_default [] s k else lookup_default [] s' k)" for k
    unfolding mergeStates_lookup [OF assms(3)] by (cases "map_of s' k") (simp_all add: lookup_default_def)
  then show ?thesis using assms(1,2) unfolding leadsTo_def by (metis map_of.simps(1))
qed

section \<open>Thread continuity\<close>

text \<open>What does not change along a stream: the Slack sink, in thread mode.\<close>

definition threaded :: "(string \<Rightarrow> slack_config res) \<Rightarrow> (string \<Rightarrow> go_error option) \<Rightarrow> slack_api \<Rightarrow>
    slack_log dispatcher_env \<Rightarrow> Request \<Rightarrow> bool" where
  "threaded unmarshal LoadLocation api env req \<longleftrightarrow>
     registry env (SinkType req) = Some (slackSink unmarshal LoadLocation api) \<and> snd (NotificationRef req) \<noteq> [] \<and>
     (\<exists>config raw. resolveSecret env (pl_Namespace (rq_Payload req)) (rq_SecretRef req) = Inr config \<and>
        unmarshal config = Inr raw \<and> validate LoadLocation (useDefaults raw) = None \<and>
        DeliveryMode (useDefaults raw) = ''thread'')"

text \<open>Two requests of one stream: the same key and the same thread reference.\<close>

definition sameThread :: "string \<Rightarrow> string \<Rightarrow> Request \<Rightarrow> bool" where
  "sameThread key ref req \<longleftrightarrow> requestString req = key \<and> threadReference (rq_Payload req) = ref"

text \<open>The cache holds states that lead to root \<open>R\<close>, stored at \<open>t\<close>.\<close>

definition rooted :: "('l, string, states) lru_ops \<Rightarrow> ('l, string) Cache \<Rightarrow> Time \<Rightarrow> string \<Rightarrow> string \<Rightarrow> string \<Rightarrow> bool" where
  "rooted L c t key R ref \<longleftrightarrow>
     (\<exists>s acc. lru_Peek L key (lru c) = Some s \<and> lastAccessed c = Some acc \<and> map_of acc key = Some t \<and> leadsTo R ref s)"

fun closeTogether :: "Time \<Rightarrow> (Time \<times> Time \<times> Request) list \<Rightarrow> bool" where
  "closeTogether t [] = True"
| "closeTogether t ((t0, t1, req) # rest) = (\<not> expired stateCacheConfig t0 t \<and> closeTogether t1 rest)"

lemma dispatch_threaded:
  assumes "threaded unmarshal LoadLocation api env req"
  obtains cfg where "dispatch L env t0 t1 req d =
    (case resolveSinkState L env t0 req (stateCache d) of
       (s, c) \<Rightarrow> (case thread_deliver api cfg s (rq_Payload req) (world d) of
          (Inl err, w) \<Rightarrow> reportDelivery L env t1 req False (Some err) (mergeStates s []) (d\<lparr>stateCache := c, world := w\<rparr>)
        | (Inr sts, w) \<Rightarrow> reportDelivery L env t1 req True None (mergeStates s sts) (d\<lparr>stateCache := c, world := w\<rparr>)))"
proof -
  obtain config raw where r: "resolveSecret env (pl_Namespace (rq_Payload req)) (rq_SecretRef req) = Inr config"
    "unmarshal config = Inr raw" "validate LoadLocation (useDefaults raw) = None" "DeliveryMode (useDefaults raw) = ''thread''"
    using assms by (auto simp: threaded_def)
  have "slackSink unmarshal LoadLocation api payload \<lparr>so_Config = config, CustomTemplate = ct, SinkState = s\<rparr> w =
      thread_deliver api (useDefaults raw) s payload w" for payload ct s w
    using r by (simp add: slackSink_def Send_def Let_def)
  then show thesis using assms r by (intro that [of "useDefaults raw"]) (simp add: dispatch_def threaded_def Let_def)
qed

lemma report_fields [simp]:
  "world (reportDelivery L env t req ok err sts d) = world d"
  "stateCache (reportDelivery L env t req ok err sts d) =
     (if sts \<noteq> [] then Add L t (requestString req) sts (stateCache d) else stateCache d)"
  by (simp_all add: reportDelivery_def Let_def)

lemma leadsTo_nonempty: "leadsTo R ref s \<Longrightarrow> R \<noteq> [] \<Longrightarrow> s \<noteq> []"
  by (auto simp: leadsTo_def lookup_default_def)

lemma resolve_rooted:
  assumes "lru_laws L" "rooted L c t (requestString req) R ref" "\<not> expired stateCacheConfig t0 t" "snd (NotificationRef req) \<noteq> []"
  shows "\<exists>s c'. resolveSinkState L env t0 req c = (s, c') \<and> leadsTo R ref s \<and> lastAccessed c' \<noteq> None"
proof -
  obtain s acc where s: "lru_Peek L (requestString req) (lru c) = Some s" "lastAccessed c = Some acc"
    "map_of acc (requestString req) = Some t" "leadsTo R ref s" using assms(2) by (auto simp: rooted_def)
  obtain l' where l: "lru_Get L (requestString req) (lru c) = (Some s, l')"
    using lru_Get_cases [OF assms(1), of "requestString req" "lru c"] s(1) by metis
  then show ?thesis using assms(3,4) s by (simp add: resolveSinkState_def GetOrFetch_def Get_def)
qed

lemma rooted_Add:
  assumes "lru_laws L" "lastAccessed c \<noteq> None" "leadsTo R ref s"
  shows "rooted L (Add L t key s c) t key R ref"
  using assms lru_lawsD(4) [OF assms(1)] by (auto simp: rooted_def Add_def update_conv')

lemma buildThreadStates_has:
  assumes "thread_deliver api cfg s payload log = (Inr s', log')"
  shows "s' = [] \<or> map_of s' ''slack.thread.root_ts'' \<noteq> None \<and> map_of s' ''slack.thread.ref'' \<noteq> None"
  using assms
  by (auto simp: thread_deliver_def buildThreadStates_def split: if_splits prod.splits sum.splits option.splits)

lemma dispatch_continues:
  assumes "lru_laws L" "threaded unmarshal LoadLocation api env req" "sameThread key ref req" "pl_Event (rq_Payload req) \<noteq> ''Start''"
    and "R \<noteq> []" "TrimSpace R = R" "TrimSpace ref = ref"
    and "rooted L (stateCache d) t key R ref" "\<not> expired stateCacheConfig t0 t"
  shows "(\<exists>new. world (dispatch L env t0 t1 req d) = world d @ new \<and> list_all (inThread R) new) \<and>
    rooted L (stateCache (dispatch L env t0 t1 req d)) t1 key R ref"
proof -
  have key: "requestString req = key" and ref: "threadReference (rq_Payload req) = ref"
    using assms(3) by (simp_all add: sameThread_def)
  have name: "snd (NotificationRef req) \<noteq> []" using assms(2) by (simp add: threaded_def)
  obtain s c' where s: "resolveSinkState L env t0 req (stateCache d) = (s, c')" "leadsTo R ref s" "lastAccessed c' \<noteq> None"
    using resolve_rooted [OF assms(1) _ assms(9) name] assms(8) key by metis
  obtain cfg where cfg: "dispatch L env t0 t1 req d =
    (case thread_deliver api cfg s (rq_Payload req) (world d) of
       (Inl err, w) \<Rightarrow> reportDelivery L env t1 req False (Some err) (mergeStates s []) (d\<lparr>stateCache := c', world := w\<rparr>)
     | (Inr sts, w) \<Rightarrow> reportDelivery L env t1 req True None (mergeStates s sts) (d\<lparr>stateCache := c', world := w\<rparr>))"
    using dispatch_threaded [OF assms(2), of L t0 t1 d] s(1) by auto
  obtain res w where del: "thread_deliver api cfg s (rq_Payload req) (world d) = (res, w)" by fastforce
  have root: "resolveRootThreadTimestamp (rq_Payload req) s = R"
    using leadsTo_resolve [of R "rq_Payload req" s] s(2) assms(4,6,7) ref by simp
  have new: "\<exists>new. w = world d @ new \<and> list_all (inThread R) new"
    using thread_deliver_continues(1) [OF root assms(5) del] .
  define sts where "sts = (case res of Inl _ \<Rightarrow> [] | Inr x \<Rightarrow> x)"
  have "sts = [] \<or> leadsTo R ref sts \<and> map_of sts ''slack.thread.root_ts'' \<noteq> None \<and> map_of sts ''slack.thread.ref'' \<noteq> None"
    using thread_deliver_continues(2) [OF root assms(5) del] buildThreadStates_has [of api cfg s "rq_Payload req" "world d"] del ref
    by (auto simp: sts_def split: sum.splits)
  moreover have "distinct (map fst sts)"
    using thread_deliver_distinct del by (auto simp: sts_def split: sum.splits)
  ultimately have m: "leadsTo R ref (mergeStates s sts)" using mergeStates_leads s(2) by blast
  have "world (dispatch L env t0 t1 req d) = w"
    "stateCache (dispatch L env t0 t1 req d) = Add L t1 key (mergeStates s sts) c'"
    using cfg del key leadsTo_nonempty [OF m assms(5)] by (auto simp: sts_def split: sum.splits)
  then show ?thesis using new rooted_Add [OF assms(1) s(3) m, of t1 key] by simp
qed

lemma dispatchAll_continues:
  assumes "lru_laws L" "R \<noteq> []" "TrimSpace R = R" "TrimSpace ref = ref"
    and "\<forall>(t0, t1, req) \<in> set steps. threaded unmarshal LoadLocation api env req \<and> sameThread key ref req \<and>
      pl_Event (rq_Payload req) \<noteq> ''Start''"
    and "rooted L (stateCache d) t key R ref" "closeTogether t steps"
  shows "\<exists>new. world (dispatchAll L env steps d) = world d @ new \<and> list_all (inThread R) new"
  using assms(5-)
proof (induction steps arbitrary: d t)
  case (Cons x steps)
  obtain t0 t1 req where x: "x = (t0, t1, req)" by (metis prod.exhaust)
  obtain new where new: "world (dispatch L env t0 t1 req d) = world d @ new" "list_all (inThread R) new"
    "rooted L (stateCache (dispatch L env t0 t1 req d)) t1 key R ref"
    using dispatch_continues [OF assms(1), of unmarshal LoadLocation api env req key ref R d t t0 t1] assms(2-4) Cons.prems x by auto
  have "\<exists>new'. world (dispatchAll L env steps (dispatch L env t0 t1 req d)) = world (dispatch L env t0 t1 req d) @ new' \<and>
      list_all (inThread R) new'"
    using Cons.IH [OF _ new(3)] Cons.prems x by simp
  then show ?case using new(1,2) x by auto
qed simp


lemma Get_tracked: "lastAccessed c \<noteq> None \<Longrightarrow> Get L cfg t k c = (r, c') \<Longrightarrow> lastAccessed c' \<noteq> None"
  by (auto simp: Get_def split: option.splits prod.splits if_splits)

lemma resolve_tracked:
  assumes "lastAccessed c \<noteq> None" "resolveSinkState L env t0 req c = (s, c')"
  shows "lastAccessed c' \<noteq> None"
proof (cases "snd (NotificationRef req) = []")
  case False
  let ?cfg = stateCacheConfig and ?k = "requestString req"
  obtain v1 e1 c1 where g1: "Get L ?cfg t0 ?k c = ((v1, e1), c1)" by (metis prod.exhaust)
  obtain v2 e2 c2 where g2: "Get L ?cfg t0 ?k c1 = ((v2, e2), c2)" by (metis prod.exhaust)
  have "lastAccessed c1 \<noteq> None" "lastAccessed c2 \<noteq> None" using Get_tracked g1 g2 assms(1) by metis+
  then show ?thesis using assms(2) False g1 g2
    by (auto simp: resolveSinkState_def GetOrFetch_def Add_def split: option.splits fetched.splits)
qed (use assms in \<open>simp add: resolveSinkState_def\<close>)

text \<open>
  C31.  A stream that begins with a Start event whose two posts succeed has one thread until its
  next Start.  The first call posts its root; every later call for an event other than Start, whether
  or not Slack answers it, is a reply in that thread or changes that root, and no second root is
  posted.  The requests are those of the stream alone, no further apart than the time to live of the
  state cache: other streams do not push its entry out of the shared cache in between.  A later Start
  is excluded because it does post a second root (\<open>start_opens_new_root\<close> in Slack), where the
  documentation of \<open>thread\<close> delivery in \<open>config.go\<close> promises a reply.
\<close>

theorem one_thread_per_stream:
  assumes "lru_laws L" "lastAccessed (stateCache d) \<noteq> None" "TrimSpace ref = ref"
    and "\<forall>n ch ts. onPost api n = Inr (ch, ts) \<longrightarrow> TrimSpace ts = ts"
    and "threaded unmarshal LoadLocation api env req" "sameThread key ref req" "pl_Event (rq_Payload req) = ''Start''"
    and "onPost api (length (world d)) = Inr (ch1, R)" "ch1 \<noteq> []" "R \<noteq> []"
    and "onPost api (Suc (length (world d))) = Inr (ch2, ts2)" "ch2 \<noteq> []" "ts2 \<noteq> []"
    and "\<forall>(t0, t1, r) \<in> set steps. threaded unmarshal LoadLocation api env r \<and> sameThread key ref r \<and>
      pl_Event (rq_Payload r) \<noteq> ''Start''"
    and "closeTogether t1 steps"
  shows "\<exists>new. world (dispatchAll L env ((t0, t1, req) # steps) d) = world d @ PostRoot (rq_Payload req) # new \<and>
    list_all (inThread R) new"
proof -
  let ?p = "rq_Payload req"
  have key: "requestString req = key" and ref: "threadReference ?p = ref" using assms(6) by (simp_all add: sameThread_def)
  obtain s c' where s: "resolveSinkState L env t0 req (stateCache d) = (s, c')" by fastforce
  have acc: "lastAccessed c' \<noteq> None" using resolve_tracked [OF assms(2) s] .
  obtain cfg where cfg: "dispatch L env t0 t1 req d =
    (case thread_deliver api cfg s ?p (world d) of
       (Inl err, w) \<Rightarrow> reportDelivery L env t1 req False (Some err) (mergeStates s []) (d\<lparr>stateCache := c', world := w\<rparr>)
     | (Inr sts, w) \<Rightarrow> reportDelivery L env t1 req True None (mergeStates s sts) (d\<lparr>stateCache := c', world := w\<rparr>))"
    using dispatch_threaded [OF assms(5), of L t0 t1 d] s by auto
  have start: "resolveRootThreadTimestamp ?p s = []" "\<not> shouldSuppressExecutionProgress ?p cfg"
    using assms(7) by (simp_all add: resolveRootThreadTimestamp_def shouldSuppressExecutionProgress_def)
  have "\<exists>sts w. thread_deliver api cfg s ?p (world d) = (Inr sts, w)"
    using start assms(8-13)
    by (auto simp: thread_deliver_def syncThreadRoot_def newThreadDeliveryFlow_def Let_def sendThreadReply_def sendViaChatAPI_def
        split: prod.splits)
  then obtain sts w where del: "thread_deliver api cfg s ?p (world d) = (Inr sts, w)" by blast
  obtain R' new where n: "w = world d @ PostRoot ?p # new" "list_all (inThread R') new" "leadsTo R' (threadReference ?p) sts"
    "\<exists>ch. onPost api (length (world d)) = Inr (ch, R')"
    by (rule thread_deliver_starts [OF start del])
  have R': "R' = R" using n(4) assms(8) by auto
  have has: "map_of sts ''slack.thread.root_ts'' \<noteq> None \<and> map_of sts ''slack.thread.ref'' \<noteq> None"
    using buildThreadStates_has [OF del] n(3) R' assms(10) leadsTo_nonempty by blast
  have "lookup_default [] (mergeStates s sts) k = lookup_default [] sts k" if "map_of sts k \<noteq> None" for k
    unfolding mergeStates_lookup [OF thread_deliver_distinct [OF del]] using that by (auto simp: lookup_default_def)
  then have m: "leadsTo R ref (mergeStates s sts)" using n(3) R' ref has by (simp add: leadsTo_def)
  have d1: "world (dispatch L env t0 t1 req d) = w" "rooted L (stateCache (dispatch L env t0 t1 req d)) t1 key R ref"
    using cfg del key leadsTo_nonempty [OF m assms(10)] rooted_Add [OF assms(1) acc m, of t1 key] by simp_all
  have "TrimSpace R = R" using assms(4,8) by blast
  from dispatchAll_continues [OF assms(1,10) this assms(3,14) d1(2) assms(15)] obtain new' where
    "world (dispatchAll L env steps (dispatch L env t0 t1 req d)) = world (dispatch L env t0 t1 req d) @ new'"
    "list_all (inThread R) new'" by blast
  then show ?thesis using d1(1) n(1,2) R' by simp
qed


section \<open>States outlive the cache\<close>

text \<open>
  C32.  The states of a delivery outlive the process: once the report of the newest delivery is
  recorded in the status of the notification, a dispatcher with nothing in its cache resolves the
  same states for the next request of the stream.
\<close>

theorem states_survive_restart:
  assumes "lru_laws L" "cache_ok L c" "live L stateCacheConfig t0 c (requestString req) = None"
    and "visits_all rangeMap" "distinct (map fst (SinkStatuses (no_Status n)))"
    and "\<forall>kv \<in> set (SinkStatuses (no_Status n)). fst kv \<noteq> ShortName req \<longrightarrow> stamp kv < t_ns t"
    and "sts \<noteq> []" "snd (NotificationRef req) \<noteq> []"
    and "getNotification env (NotificationRef req) =
      Inr (no_Status (Mutate rangeMap (RecordDelivery (FromRequest req t ok err sts)) n))"
  shows "fst (resolveSinkState L env t0 req c) = sts"
proof -
  let ?r = "FromRequest req t ok err sts"
  have r: "dr_ID ?r = ShortName req" "dr_Timestamp ?r = t" "dr_States ?r = sts" by (simp_all add: FromRequest_def)
  have "map_of (SinkStatuses (no_Status (Mutate rangeMap (RecordDelivery ?r) n))) (ShortName req) = Some (recordedFor ?r n)"
    using recorded_kept [OF assms(4,5), of ?r] assms(6) r by simp
  moreover have "ss_States (recordedFor ?r n) = sts" using r by (simp add: recordedEntry_def Let_def)
  ultimately have "fetchState env req = Fetched sts" using assms(7,9) by (simp add: fetchState_def del: Mutate.simps)
  then have "fst (GetOrFetch L stateCacheConfig t0 (requestString req) (fetchState env req) c) = Inr sts"
    using GetOrFetch_result(1) [OF assms(1,2)] assms(3) by simp
  then show ?thesis using assms(8) by (auto simp: resolveSinkState_def split: prod.splits sum.splits)
qed

text \<open>
  Clearing every state does not reach the cache: an empty result is reported to the status, but the
  old states stay in the cache and are what the next request is given.
\<close>

lemma cleared_states_stay_cached:
  "stateCache (reportDelivery L env t req ok err (mergeStates [(k, v)] [(k, [])]) d) = stateCache d"
  by (simp add: mergeStates_def)


section \<open>Examples\<close>

definition exampleRequest :: "string \<Rightarrow> Request" where
  "exampleRequest ev = \<lparr>rq_Payload = \<lparr>pl_Name = ''p'', pl_Namespace = ''ns'', pl_Labels = Map.empty, pl_Annotations = Map.empty,
       pl_Event = ev, Timestamp = zeroTime, pl_Phase = [], PreviousPhase = [], pl_Operation = ''shutdown'', pl_CycleID = ''c1'',
       pl_ErrorMessage = [], pl_RetryCount = 0, pl_Targets = [], TargetExecution = None\<rparr>,
     SinkName = ''s'', SinkType = ''slack'', rq_SecretRef = \<lparr>okr_Name = ''sec'', okr_Key = None\<rparr>, rq_TemplateRef = None,
     NotificationRef = (''ns'', ''n'')\<rparr>"

definition threadConfig :: slack_config where
  "threadConfig = \<lparr>WebhookURL = [], BotToken = ''xoxb'', ChannelID = ''C1'', Format = [], BlockLayout = [], MaxTargets = 0,
     AdditionalScopes = [], TimeDisplay = [], sl_Timezone = [], TimeLayout = [], DeliveryMode = ''thread'', RateLimit = None\<rparr>"

definition slackUp :: slack_api where
  "slackUp = \<lparr>onWebhook = \<lambda>_. None, onPost = \<lambda>_. Inr (''C1'', ''17.1''), onUpdateMessage = \<lambda>_. Inr (''C1'', ''17.1''),
     onAddReaction = \<lambda>_. None, onRemoveReaction = \<lambda>_. None\<rparr>"

definition exampleDispatch :: "slack_log dispatcher_env" where
  "exampleDispatch = \<lparr>registry = \<lambda>typ. if typ = ''slack'' then Some (slackSink (\<lambda>_. Inr threadConfig) (\<lambda>_. None) slackUp) else None,
     getSecret = \<lambda>_ _. Inr [(''config'', ''{}'')], getConfigMap = \<lambda>_ _. Inl (ApiError NotFound),
     getNotification = \<lambda>_. Inr (no_Status (Mutate rev (RecordDelivery
       (FromRequest (exampleRequest ''Start'') (zeroTime\<lparr>t_ns := 5\<rparr>) True None [(''k'', ''v'')])) (exampleObject [''p'']))),
     deliveryCallback = True\<rparr>"

definition exampleDispatcher :: "(nat \<times> (string \<times> states) list, slack_log) dispatcher" where
  "exampleDispatcher = \<lparr>stateCache = New listLru stateCacheConfig, world = [], reported = []\<rparr>"

abbreviation at_ns :: "int \<Rightarrow> Time" where "at_ns n \<equiv> \<lparr>t_ns = n, t_loc = UTC\<rparr>"

lemma example_threaded:
  "threaded (\<lambda>_. Inr threadConfig) (\<lambda>_. None) slackUp exampleDispatch (exampleRequest ev)"
proof -
  have "useDefaults threadConfig = threadConfig\<lparr>Format := ''text'', BlockLayout := ''default'', MaxTargets := 8,
      TimeDisplay := ''slack_dynamic'', TimeLayout := ''Mon, 02 Jan 2006 15:04:05 MST'',
      RateLimit := Some \<lparr>rl_Rate = ''50.0'', rl_Unit = ''minute'', rl_Burst = 75\<rparr>\<rparr>"
    by code_simp
  then show ?thesis
    by (simp add: threaded_def exampleDispatch_def exampleRequest_def resolveSecret_def lookupKey_def threadConfig_def validate_def)
qed

theorem one_thread_per_stream_witness:
  "\<exists>new. world (dispatchAll listLru exampleDispatch [(at_ns 1, at_ns 2, exampleRequest ''Start''),
       (at_ns 3, at_ns 4, exampleRequest ''Success'')] exampleDispatcher) =
     PostRoot (rq_Payload (exampleRequest ''Start'')) # new \<and> list_all (inThread ''17.1'') new"
proof -
  let ?key = "''ns/n|s|ns/p|c1|shutdown''" and ?ref = "''ns/p/c1/shutdown''"
  have same: "sameThread ?key ?ref (exampleRequest ev)" for ev
    by (simp add: sameThread_def requestString_def ShortName_def threadReference_def exampleRequest_def)
  have trim: "TrimSpace ?ref = ?ref" "TrimSpace ''17.1'' = ''17.1''" by code_simp+
  have post: "onPost slackUp n = Inr (''C1'', ''17.1'')" for n by (simp add: slackUp_def)
  have init: "lastAccessed (stateCache exampleDispatcher) \<noteq> None" "world exampleDispatcher = []"
    by (simp_all add: exampleDispatcher_def New_def stateCacheConfig_def defaultStateCacheTTL_def)
  have close: "closeTogether (at_ns 2) [(at_ns 3, at_ns 4, exampleRequest ''Success'')]"
    by (simp add: expired_def SubTime_def sat64_def stateCacheConfig_def defaultStateCacheTTL_def)
  have ev: "pl_Event (rq_Payload (exampleRequest ev)) = ev" for ev by (simp add: exampleRequest_def)
  have "\<exists>new. world (dispatchAll listLru exampleDispatch ((at_ns 1, at_ns 2, exampleRequest ''Start'') #
       [(at_ns 3, at_ns 4, exampleRequest ''Success'')]) exampleDispatcher) =
     world exampleDispatcher @ PostRoot (rq_Payload (exampleRequest ''Start'')) # new \<and> list_all (inThread ''17.1'') new"
    by (rule one_thread_per_stream [where api = slackUp and key = ?key and ref = ?ref and ?ch1.0 = "''C1''" and
          ?ch2.0 = "''C1''" and ?ts2.0 = "''17.1''", OF listLru_laws init(1) trim(1) _ example_threaded same ev _ _ _ _ _ _ _ close])
      (use post trim example_threaded same ev in auto)
  then show ?thesis using init(2) by simp
qed

theorem states_survive_restart_witness:
  "fst (resolveSinkState listLru exampleDispatch (at_ns 9) (exampleRequest ''Success'') (New listLru stateCacheConfig)) = [(''k'', ''v'')]"
proof (rule states_survive_restart [OF listLru_laws, where rangeMap = rev and n = "exampleObject [''p'']" and t = "zeroTime\<lparr>t_ns := 5\<rparr>"
      and ok = True and err = None])
  show "cache_ok listLru (New listLru stateCacheConfig)"
    by (simp add: cache_ok_def New_def lru_lawsD(7) [OF listLru_laws])
  show "live listLru stateCacheConfig (at_ns 9) (New listLru stateCacheConfig) (requestString (exampleRequest ''Success'')) = None"
    by (simp add: live_def New_def lru_lawsD(7) [OF listLru_laws])
  have "FromRequest (exampleRequest ''Success'') = FromRequest (exampleRequest ''Start'')"
    by (simp add: fun_eq_iff FromRequest_def exampleRequest_def ShortName_def)
  then show "getNotification exampleDispatch (NotificationRef (exampleRequest ''Success'')) =
      Inr (no_Status (Mutate rev (RecordDelivery (FromRequest (exampleRequest ''Success'') (zeroTime\<lparr>t_ns := 5\<rparr>) True None [(''k'', ''v'')]))
        (exampleObject [''p''])))"
    by (simp add: exampleDispatch_def)
qed (simp_all add: visits_all_def exampleObject_def exampleRequest_def)

end
