(* ===== verification/TimeParse.thy ===== *)
theory TimeParse
  imports GoParse GoSpace
begin

text \<open>
  Deadlines as a user writes them (\<^verbatim>\<open>cmd/runner/timeparse/timeparse.go\<close>): relative expressions,
  simple date formats and RFC 3339, tried in this order.  Error texts are cut where the code appends
  times or lists of formats.
\<close>

section \<open>Parameters\<close>

text \<open>
  \<open>naturaldate\<close> is the third-party parser.  \<open>ParseLayout\<close> is \<open>time.ParseInLocation\<close> with its layout
  language, \<open>None\<close> on an error; \<open>scaleFloat s unit\<close> is the product of a parsed decimal number and a
  unit in floating point, \<open>None\<close> when the number is out of range.
\<close>

record TimeLib =
  naturaldate :: "string \<Rightarrow> Time \<Rightarrow> Time option"
  ParseLayout :: "location \<Rightarrow> string \<Rightarrow> string \<Rightarrow> Time option"
  scaleFloat :: "string \<Rightarrow> duration \<Rightarrow> duration option"
  LocalZone :: location

definition firstSome :: "('a \<Rightarrow> 'b option) \<Rightarrow> 'a list \<Rightarrow> 'b option" where
  "firstSome f xs = (case List.find (\<lambda>x. f x \<noteq> None) xs of None \<Rightarrow> None | Some x \<Rightarrow> f x)"

abbreviation inUTC :: "Time \<Rightarrow> Time" where "inUTC t \<equiv> InLoc t UTC"

section \<open>Relative expressions\<close>

text \<open>
  The pattern \<^verbatim>\<open>^in\s+(\d+(?:\.\d+)?)\s*(minute|...|weeks)?s?$\<close>.  After the number neither a shorter
  number nor fewer spaces can match, so it needs no backtracking; of the units the first one that
  leaves nothing or one letter \<open>s\<close> is taken.
\<close>

definition reSpace :: "char \<Rightarrow> bool" where
  "reSpace c \<longleftrightarrow> c = CHR '' '' \<or> c \<in> {CHR 0x09, CHR 0x0A, CHR 0x0C, CHR 0x0D}"

definition isDigit :: "char \<Rightarrow> bool" where
  "isDigit c \<longleftrightarrow> digit_val c \<noteq> None"

definition numberPart :: "string \<Rightarrow> (string \<times> string) option" where
  "numberPart s =
     (let ds = takeWhile isDigit s; rest = dropWhile isDigit s in
      if ds = [] then None
      else (case rest of
              c # r \<Rightarrow>
                if c = CHR ''.'' \<and> takeWhile isDigit r \<noteq> []
                then Some (ds @ c # takeWhile isDigit r, dropWhile isDigit r)
                else Some (ds, rest)
            | [] \<Rightarrow> Some (ds, rest)))"

definition inUnits :: "string list" where
  "inUnits = [''minute'', ''minutes'', ''min'', ''mins'', ''hour'', ''hours'', ''hr'', ''hrs'', ''day'', ''days'', ''week'', ''weeks'']"

definition unitPart :: "string \<Rightarrow> string option" where
  "unitPart s =
     (case List.find (\<lambda>u. s = u \<or> s = u @ ''s'') inUnits of
        Some u \<Rightarrow> Some u
      | None \<Rightarrow> if s = '''' \<or> s = ''s'' then Some '''' else None)"

definition unitDuration :: "string \<Rightarrow> duration option" where
  "unitDuration u =
     (if take 6 u = ''minute'' \<or> u = ''min'' \<or> u = ''mins'' then Some Minute
      else if take 4 u = ''hour'' \<or> u = ''hr'' \<or> u = ''hrs'' then Some Hour
      else if take 3 u = ''day'' then Some (24 * Hour)
      else if take 4 u = ''week'' then Some (7 * 24 * Hour)
      else None)"

definition parseInDuration :: "TimeLib \<Rightarrow> string \<Rightarrow> Time \<Rightarrow> Time option" where
  "parseInDuration lib input now =
     (let s = drop 2 input; t = dropWhile reSpace s in
      if take 2 input \<noteq> ''in'' \<or> t = s then None
      else (case numberPart t of
              None \<Rightarrow> None
            | Some (number, rest) \<Rightarrow>
                (case unitPart (dropWhile reSpace rest) of
                   None \<Rightarrow> None
                 | Some unit \<Rightarrow>
                     (case unitDuration (if unit = '''' then ''minute'' else unit) of
                        None \<Rightarrow> None
                      | Some u \<Rightarrow>
                          (case scaleFloat lib number u of
                             None \<Rightarrow> None
                           | Some d \<Rightarrow> Some (inUTC (AddDur now d)))))))"

abbreviation refDate :: string where "refDate \<equiv> ''2006-01-02 ''"

definition parseTimeOfDay :: "TimeLib \<Rightarrow> string \<Rightarrow> Time option" where
  "parseTimeOfDay lib input0 =
     (let input = TrimSpace input0;
          parse = (\<lambda>text layout. ParseLayout lib UTC (refDate @ layout) (refDate @ text))
      in case firstSome (parse input) [''15:04:05'', ''15:04''] of
           Some t \<Rightarrow> Some t
         | None \<Rightarrow>
             (let lower = ToLower (TrimSpace input) in
              if \<not> str_contains lower ''am'' \<and> \<not> str_contains lower ''pm'' then None
              else firstSome (parse (ToUpper input)) [''3:04:05PM'', ''3:04PM'', ''3PM'']))"

definition parseTomorrow :: "TimeLib \<Rightarrow> string \<Rightarrow> Time \<Rightarrow> Time option" where
  "parseTomorrow lib input now =
     (let tomorrow = AddDur now (24 * Hour) in
      if input = ''tomorrow'' then Some (inUTC tomorrow)
      else
        (let part1 = TrimPrefix input ''tomorrow at '';
             part2 = (if part1 = input then TrimPrefix input ''tomorrow '' else part1);
             timePart = TrimSpace part2
         in if timePart = '''' then Some (inUTC tomorrow)
            else map_option
              (\<lambda>t. inUTC (DateOn (t_loc now) (day_no tomorrow) (hour_of t) (minute_of t) (second_of t) 0))
              (parseTimeOfDay lib timePart)))"

definition weekdayNames :: "(string \<times> int) list" where
  "weekdayNames = [(''sunday'', 0), (''monday'', 1), (''tuesday'', 2), (''wednesday'', 3), (''thursday'', 4), (''friday'', 5),
     (''saturday'', 6)]"

definition parseNext :: "string \<Rightarrow> Time \<Rightarrow> Time option" where
  "parseNext input now =
     (let day = TrimSpace (TrimPrefix input ''next '') in
      if day = ''week'' then Some (inUTC (AddDur now (7 * 24 * Hour)))
      else map_option
        (\<lambda>targetDay.
           let d = targetDay - Weekday now; daysUntil = (if d \<le> 0 then d + 7 else d)
           in inUTC (AddDur now (daysUntil * 24 * Hour)))
        (map_of weekdayNames day))"

definition parseNaturalLanguage :: "TimeLib \<Rightarrow> string \<Rightarrow> Time \<Rightarrow> Time option" where
  "parseNaturalLanguage lib input0 now =
     (let input = ToLower (TrimSpace input0) in
      if take 3 input = ''in '' then parseInDuration lib input now
      else if take 8 input = ''tomorrow'' then parseTomorrow lib input now
      else if take 5 input = ''next '' then parseNext input now
      else naturaldate lib input now)"

section \<open>Dates\<close>

definition simpleLayouts :: "string list" where
  "simpleLayouts =
     [''2006-01-02 15:04:05'', ''2006-01-02 15:04'', ''2006-01-02'',
      ''Jan 2, 2006 15:04:05'', ''Jan 2, 2006 15:04'', ''Jan 2, 2006'',
      ''January 2, 2006 15:04:05'', ''January 2, 2006 15:04'', ''January 2, 2006'',
      ''Jan 2 15:04:05'', ''Jan 2 15:04'', ''Jan 2'',
      ''01/02/2006 15:04:05'', ''01/02/2006 15:04'', ''01/02/2006'']"

definition parseSimpleFormats :: "TimeLib \<Rightarrow> string \<Rightarrow> Time \<Rightarrow> Time option" where
  "parseSimpleFormats lib input0 now =
     (let input = TrimSpace input0 in
      case firstSome (\<lambda>layout. ParseLayout lib (LocalZone lib) layout input) simpleLayouts of
        Some t \<Rightarrow> Some (inUTC t)
      | None \<Rightarrow>
          map_option
            (\<lambda>t. inUTC (DateOn (LocalZone lib) (day_no now) (hour_of t) (minute_of t) (second_of t) 0))
            (parseTimeOfDay lib input))"

definition parseRFC3339 :: "TimeLib \<Rightarrow> string \<Rightarrow> Time option" where
  "parseRFC3339 lib input =
     (case ParseRFC3339 input of
        Inr t \<Rightarrow> Some (inUTC t)
      | Inl _ \<Rightarrow> map_option inUTC (ParseLayout lib UTC ''2006-01-02T15:04:05'' input))"

section \<open>The parser\<close>

definition validateDeadline :: "Time \<Rightarrow> Time \<Rightarrow> Time res" where
  "validateDeadline t now =
     (if IsZero t then Inl (ErrMsg ''parsed time is zero'')
      else if Before (inUTC t) (inUTC now) then Inl (ErrMsg ''deadline is in the past'')
      else Inr (inUTC t))"

definition ParseDeadline :: "TimeLib \<Rightarrow> string \<Rightarrow> Time \<Rightarrow> Time res" where
  "ParseDeadline lib input0 now =
     (if input0 = '''' then Inl (ErrMsg ''empty input'')
      else
        (let input = TrimSpace input0 in
         case parseNaturalLanguage lib input now of
           Some t \<Rightarrow> validateDeadline t now
         | None \<Rightarrow>
             (case parseSimpleFormats lib input now of
                Some t \<Rightarrow> validateDeadline t now
              | None \<Rightarrow>
                  (case parseRFC3339 lib input of
                     Some t \<Rightarrow> validateDeadline t now
                   | None \<Rightarrow> Inl (ErrMsg (''unrecognized time format: '' @ quote input))))))"

section \<open>Facts\<close>

text \<open>A deadline is a real instant, in UTC and not in the past.\<close>

lemma ParseDeadline_future:
  "ParseDeadline lib input now = Inr t \<Longrightarrow> \<not> IsZero t \<and> \<not> Before t now \<and> t_loc t = UTC"
  by (auto simp: ParseDeadline_def validateDeadline_def InLoc_def IsZero_def Before_def Let_def split: if_splits option.splits)

text \<open>An offset of seconds, as in \<^verbatim>\<open>in 30s\<close>, is read as minutes: the letter is taken for a plural.\<close>

lemma seconds_read_as_minutes:
  "scaleFloat lib ''30'' Minute = Some d \<Longrightarrow> parseNaturalLanguage lib ''in 30s'' now = Some (inUTC (AddDur now d))"
  by (simp add: parseNaturalLanguage_def parseInDuration_def numberPart_def unitPart_def inUnits_def unitDuration_def
      isDigit_def digit_val_def reSpace_def isSpaceChar_def TrimSpace_def ToLower_def to_lower_def Let_def)

text \<open>\<^verbatim>\<open>next <weekday>\<close> is one to seven days ahead and falls on that day, in a zone without shifts.\<close>

lemma parseNext_weekday:
  assumes "t_loc now = UTC" "map_of weekdayNames day = Some n" "parseNext (''next '' @ day) now = Some t"
  shows "Weekday t = n \<and> t_ns now < t_ns t \<and> t_ns t \<le> t_ns now + 7 * 24 * Hour"
proof -
  define k where "k = (let d = n - Weekday now in if d \<le> 0 then d + 7 else d)"
  have n: "0 \<le> n \<and> n \<le> 6" "TrimSpace day = day" "day \<noteq> ''week''"
    using assms(2) by (auto simp: weekdayNames_def TrimSpace_def isSpaceChar_def split: if_splits)
  have "0 \<le> Weekday now \<and> Weekday now \<le> 6" by (simp add: Weekday_def)
  with n have k: "1 \<le> k" "k \<le> 7" "(Weekday now + k) mod 7 = n" by (auto simp: k_def Let_def mod_pos_pos_trivial)
  have t: "t = inUTC (AddDur now (k * 24 * Hour))"
    using assms(2,3) n by (auto simp: parseNext_def TrimPrefix_def k_def Let_def)
  have "day_no t = day_no now + k"
  proof -
    have "(t_ns now + k * (86400 * Second)) div Second = t_ns now div Second + k * 86400" by simp
    then show ?thesis using assms(1)
      by (simp add: t day_no_def local_sec_def unix_sec_def UTC_def InLoc_def AddDur_def)
  qed
  then have "Weekday t = (Weekday now + k) mod 7" by (simp add: Weekday_def mod_simps algebra_simps)
  then show ?thesis using k by (simp add: t InLoc_def AddDur_def)
qed

end
