(* ===== verification/Cli.thy ===== *)
theory Cli
  imports Complex_Main Worker TimeParse
begin

text \<open>
  The commands of the kubectl plugin that steer a plan (\<^verbatim>\<open>cmd/kubectl-hibernator/cli\<close>: suspend,
  resume, override, restart, retry) and what the worker makes of them.  A command reads the plan,
  changes annotations and \<open>spec.suspend\<close>, and sends the difference as a merge patch; its result is the plan
  on the server afterwards.  What it prints, and the hint that ends the error of retry, are left out.
\<close>

section \<open>Commands\<close>

text \<open>
  \<open>secondsDuration\<close> is the conversion of floating-point seconds, \<open>FormatRFC3339\<close> is \<open>Time.Format\<close> with
  that layout; \<open>ce_namespace\<close> is the resolved namespace, \<open>gotPlan\<close> is the answer to the read and \<open>storedPlan\<close> the plan on the server when
  the patch arrives.
\<close>

record CliEnv =
  ce_now :: Time
  ce_lib :: TimeLib
  secondsDuration :: "rat \<Rightarrow> duration"
  FormatRFC3339 :: "Time \<Rightarrow> string"
  ce_namespace :: string
  clientErr :: "go_error option"
  gotPlan :: "HibernatePlan res"
  storedPlan :: HibernatePlan
  patchErr :: "go_error option"

definition mergePatch :: "HibernatePlan \<Rightarrow> HibernatePlan \<Rightarrow> HibernatePlan \<Rightarrow> HibernatePlan" where
  "mergePatch orig plan stored =
     stored\<lparr>Spec := (Spec stored)\<lparr>Suspend := if Suspend (Spec orig) \<noteq> Suspend (Spec plan) then Suspend (Spec plan) else Suspend (Spec stored)\<rparr>,
       Annotations := (\<lambda>k. if Annotations orig k \<noteq> Annotations plan k then Annotations plan k else Annotations stored k)\<rparr>"

definition fetchPlan :: "CliEnv \<Rightarrow> string \<Rightarrow> HibernatePlan res" where
  "fetchPlan e planName =
     (case clientErr e of
        Some err \<Rightarrow> Inl err
      | None \<Rightarrow>
          (case gotPlan e of Inl err \<Rightarrow> Inl (Wrap (''failed to get HibernatePlan '' @ quote planName @ '' in namespace '' @ quote (ce_namespace e) @ '': '') err) | Inr plan \<Rightarrow> Inr plan))"

definition cliPatch :: "CliEnv \<Rightarrow> string \<Rightarrow> HibernatePlan \<Rightarrow> HibernatePlan \<Rightarrow> HibernatePlan res" where
  "cliPatch e planName orig plan =
     (case patchErr e of
        Some err \<Rightarrow> Inl (Wrap (''failed to patch HibernatePlan '' @ quote planName @ '': '') err)
      | None \<Rightarrow> Inr (mergePatch orig plan (storedPlan e)))"

definition annotate :: "string \<Rightarrow> string \<Rightarrow> HibernatePlan \<Rightarrow> HibernatePlan" where
  "annotate k v plan = plan\<lparr>Annotations := (Annotations plan)(k \<mapsto> v)\<rparr>"



text \<open>The zero time stands for no deadline.\<close>

definition cliDeadline :: "CliEnv \<Rightarrow> rat \<Rightarrow> string \<Rightarrow> Time res" where
  "cliDeadline e seconds until =
     (if seconds < 0 then Inl (ErrMsg ''--seconds must be positive'')
      else if seconds > 0 \<and> until \<noteq> '''' then Inl (ErrMsg ''only one of --seconds or --until can be specified'')
      else if seconds > 0 then Inr (AddDur (ce_now e) (secondsDuration e seconds))
      else if until \<noteq> '''' then
        (case ParseDeadline (ce_lib e) until (ce_now e) of
           Inl err \<Rightarrow> Inl (Wrap ''invalid --until value: '' err)
         | Inr t \<Rightarrow> Inr t)
      else Inr zeroTime)"

record suspendOptions =
  so_seconds :: rat
  so_until :: string
  so_reason :: string
  so_dryRun :: bool

definition suspendPlan :: "CliEnv \<Rightarrow> suspendOptions \<Rightarrow> Time \<Rightarrow> HibernatePlan \<Rightarrow> HibernatePlan" where
  "suspendPlan e opts deadline plan =
     (let p1 = plan\<lparr>Spec := (Spec plan)\<lparr>Suspend := True\<rparr>\<rparr>;
          p2 = (if \<not> IsZero deadline then annotate AnnotationSuspendUntil (FormatRFC3339 e deadline) p1 else p1)
      in if so_reason opts \<noteq> '''' then annotate AnnotationSuspendReason (so_reason opts) p2 else p2)"

definition runSuspend :: "CliEnv \<Rightarrow> suspendOptions \<Rightarrow> string \<Rightarrow> HibernatePlan res" where
  "runSuspend e opts planName =
     (case cliDeadline e (so_seconds opts) (so_until opts) of
        Inl err \<Rightarrow> Inl err
      | Inr deadline \<Rightarrow>
          (case fetchPlan e planName of
             Inl err \<Rightarrow> Inl err
           | Inr plan \<Rightarrow>
               if so_dryRun opts then Inr (storedPlan e)
               else cliPatch e planName plan (suspendPlan e opts deadline plan)))"








section \<open>What the worker makes of a command\<close>

text \<open>The command read the plan that is on the server, and the worker sees what it wrote.\<close>

definition undisturbed :: "CliEnv \<Rightarrow> bool" where
  "undisturbed e \<longleftrightarrow> gotPlan e = Inr (storedPlan e) \<and> ptrIsZero (DeletionTimestamp (storedPlan e))"

lemma mergePatch_self: "mergePatch p q p = p\<lparr>Spec := (Spec p)\<lparr>Suspend := Suspend (Spec q)\<rparr>, Annotations := Annotations q\<rparr>"
proof -
  have "(\<lambda>k. if Annotations p k \<noteq> Annotations q k then Annotations q k else Annotations p k) = Annotations q" by auto
  moreover have "(if Suspend (Spec p) \<noteq> Suspend (Spec q) then Suspend (Spec q) else Suspend (Spec p)) = Suspend (Spec q)" by auto
  ultimately show ?thesis by (simp only: mergePatch_def)
qed

lemma fetch_stored: "undisturbed e \<Longrightarrow> fetchPlan e n = Inr p \<Longrightarrow> p = storedPlan e"
  by (auto simp: undisturbed_def fetchPlan_def split: option.splits)

lemma cliPatch_stored: "cliPatch e n (storedPlan e) q = Inr p \<Longrightarrow> p = (storedPlan e)\<lparr>Spec := (Spec (storedPlan e))\<lparr>Suspend := Suspend (Spec q)\<rparr>, Annotations := Annotations q\<rparr>"
  by (auto simp: cliPatch_def mergePatch_self split: option.splits)

lemma annotate_simps [simp]:
  "Annotations (annotate k v p) = (Annotations p)(k \<mapsto> v)" "Spec (annotate k v p) = Spec p" "Status (annotate k v p) = Status p"
  by (simp_all add: annotate_def)



lemma runSuspend_plan:
  assumes "undisturbed e" "runSuspend e opts n = Inr p" "\<not> so_dryRun opts"
  shows "\<exists>deadline. p = suspendPlan e opts deadline (storedPlan e) \<and> cliDeadline e (so_seconds opts) (so_until opts) = Inr deadline"
proof -
  obtain deadline where d: "cliDeadline e (so_seconds opts) (so_until opts) = Inr deadline"
    using assms(2) by (auto simp: runSuspend_def split: sum.splits)
  then have "p = suspendPlan e opts deadline (storedPlan e)"
    using assms fetch_stored [OF assms(1), of n]
    by (auto simp: runSuspend_def suspendPlan_def annotate_def Let_def dest!: cliPatch_stored split: sum.splits)
  then show ?thesis using d by blast
qed


lemma resume_leaves_suspended: "Phase (status w) = PhaseSuspended \<Longrightarrow> Phase (status (snd (resume e w))) \<noteq> PhaseSuspended"
  by (auto simp: resume_def resumeFromError_def resumeFromExecution_def forceWakeUpOnResume_def cleanup_status Let_def
      Send_def status_update_def status_mutator_def split: option.splits)


















section \<open>Deadlines that are not kept\<close>

text \<open>
  A suspension without a deadline keeps the deadline of an earlier one: the plan that the command
  announces as suspended indefinitely resumes when the old deadline has passed.
\<close>

lemma indefinite_suspension_ends:
  assumes "undisturbed c" "runSuspend c opts n = Inr p" "\<not> so_dryRun opts" "so_seconds opts = 0" "so_until opts = []"
    and "Annotations (storedPlan c) AnnotationSuspendUntil = Some s" "ParseRFC3339 s = Inr deadline"
    and "livePlan w = p" "Phase (status w) = PhaseSuspended" "After (now e) deadline" "PatchPlan e = (\<lambda>_ q. Inr q)"
  shows "Phase (status (snd (suspended_Handle e w))) \<noteq> PhaseSuspended"
proof -
  have "Annotations (livePlan w) AnnotationSuspendUntil = Some s"
    using runSuspend_plan [OF assms(1-3)] assms(4-6,8)
    by (auto simp: suspendPlan_def cliDeadline_def Let_def)
  then have "snd (suspended_Handle e w) = snd (resume e (w\<lparr>livePlan := revokeSuspension (livePlan w)\<rparr>))"
    using assms(7,10,11)
    by (simp add: suspended_Handle_def patchAndPreserveStatus_def resumeUnlessSuspended_def revokeSuspension_def del_annotations_def Let_def)
  then show ?thesis
    using resume_leaves_suspended [of "w\<lparr>livePlan := revokeSuspension (livePlan w)\<rparr>" e] assms(9)
    by (simp add: revokeSuspension_def del_annotations_def)
qed

text \<open>
  The deadline of an override that passes while the override handler does not hold the timer, during
  an operation or while the operator is down, is never enforced: the handler asks for a negative
  delay, which stops the timer, and changes nothing, now and on every later event.
\<close>

lemma expired_override_persists:
  assumes "selectHandler (es 0) w = Some OverrideActionState" "Phase (status w) = PhaseHibernated"
    and "annotation w AnnotationOverridePhaseTarget = OverridePhaseTargetHibernate" "annotation w AnnotationRestart \<noteq> ''true''"
    and "Annotations (livePlan w) AnnotationOverrideUntil = Some s" "ParseRFC3339 s = Inr deadline" "\<not> Before (now (es 0)) deadline"
  shows "\<exists>ts'. handle es False (w, ts) = (w, ts') \<and> Deadline_t ts' = None \<and> Requeue_t ts' = None \<and> Timeout_t ts' = None"
proof -
  have d: "DeadlineAfter (initStateResult (es 0) w) \<le> 0"
    using assms(5-7) by (simp add: initStateResult_def SubTime_def sat64_def Before_def)
  have r: "Requeue (initStateResult (es 0) w) = False" "RequeueAfter (initStateResult (es 0) w) = 0"
    "TimeoutAfter (initStateResult (es 0) w) = 0"
    by (simp_all add: initStateResult_def noResult_def split: option.splits sum.splits)
  have "turn (es 0) False w = (Some (initStateResult (es 0) w), w)"
    using assms(1-4) by (simp add: turn_def override_Handle_def consumeRestart_def consume_def Let_def)
  then have "handle es False (w, ts) = (w, ApplyTimers (initStateResult (es 0) w) ts)"
    using r by (simp add: handle_def handleWithDepth.simps)
  then show ?thesis using d r by (simp add: ApplyTimers_def Let_def)
qed

text \<open>
  A manual retry of a permanent error is consumed without a retry: it resets the retry count, but the
  classification still forbids one, and the plan stays in error.
\<close>

lemma manual_retry_of_permanent_error:
  assumes "ClassifyError (apiErrorCode e) (lastError w) = ErrorPermanent" "PatchPlan e = (\<lambda>_ q. Inr q)"
    and "recovery_Handle e w = ((r, err), w')" "Annotations (livePlan w) AnnotationRetryNow = Some ''true''"
  shows "Phase (status w') = Phase (status w) \<and> Annotations (livePlan w') AnnotationRetryNow = None \<and>
    recovery_Handle e w' = ((noResult, None), w')"
proof -
  have no: "\<not> ShouldRetry (DetermineRecoveryStrategy code plan t le)" if "ClassifyError code le = ErrorPermanent" for code plan t le
    using that by (simp add: DetermineRecoveryStrategy_def Let_def)
  have "w' = snd (the (handleManualRetry e w))"
    using assms no [OF assms(1)] by (auto simp: recovery_Handle_def handleManualRetry_def Let_def)
  then have w': "livePlan w' = with_status (\<lambda>st. st\<lparr>RetryCount := 0, LastRetryTime := None\<rparr>) (del_annotations [AnnotationRetryNow] (livePlan w))"
    using assms(2,4)
    by (simp add: handleManualRetry_def patchAndPreserveStatus_def Send_def status_update_def status_mutator_def Let_def del_annotations_def)
  then have "lastError w' = lastError w" by (simp add: lastError_def del_annotations_def)
  moreover have "handleManualRetry e w' = None" using w' by (simp add: handleManualRetry_def del_annotations_def)
  ultimately show ?thesis using w' assms(1) no by (simp add: recovery_Handle_def Let_def del_annotations_def)
qed

text \<open>
  While attempts are left the recovery handler does not look at the annotation: the retry waits for its
  backoff, and the annotation stays until the attempts are used up and then resets them.
\<close>

lemma manual_retry_waits_for_backoff:
  assumes "RetryCount (status w) < maxRetriesOf (livePlan w)" "ClassifyError (apiErrorCode e) (lastError w) \<noteq> ErrorPermanent"
    and "LastRetryTime (status w) = Some t" "SubTime (now e) t < CalculateBackoff (RetryCount (status w))"
    and "0 < wrap64 (CalculateBackoff (RetryCount (status w)) - SubTime (now e) t)"
  shows "\<exists>d. recovery_Handle e w = ((requeueAfter d, None), w) \<and> 0 < d"
  using assms by (auto simp: recovery_Handle_def DetermineRecoveryStrategy_def Let_def)

end
