(* ===== verification/Streaming.thy ===== *)
theory Streaming
  imports Effects "HOL-Library.AList"
begin

text \<open>
  The streaming service of the control plane (\<^verbatim>\<open>internal/streaming/server\<close>, \<^verbatim>\<open>internal/streaming/auth\<close>):
  runners report logs, progress, heartbeats and completion over gRPC, HTTP or websockets; the
  service checks their token, keeps a state per execution and the metadata of its Job.  What is
  logged and recorded as an event is kept as a list, the newest last.
\<close>

section \<open>Reports\<close>

record LogEntry =
  le_ExecutionId :: string
  le_Timestamp :: string
  le_Level :: string
  le_Message :: string
  le_Fields :: "(string \<times> string) list"

record ProgressReport =
  pr_ExecutionId :: string
  pr_Phase :: string
  pr_ProgressPercent :: int
  pr_Message :: string

record CompletionReport =
  co_ExecutionId :: string
  co_Success :: bool
  co_ErrorMessage :: string

datatype report = Log LogEntry | Progress ProgressReport | Completion CompletionReport | Heartbeat string

fun report_id :: "report \<Rightarrow> string" where
  "report_id (Log e) = le_ExecutionId e"
| "report_id (Progress p) = pr_ExecutionId p"
| "report_id (Completion c) = co_ExecutionId c"
| "report_id (Heartbeat i) = i"

section \<open>The execution service\<close>

record ExecutionMetadata =
  em_Namespace :: string
  em_PlanName :: string
  em_TargetName :: string
  em_ExecutionID :: string

record StreamState =
  ss_ExecutionID :: string
  ss_Phase :: string
  ss_ProgressPercent :: int
  ss_Message :: string
  ss_LastUpdate :: Time
  ss_Completed :: bool
  ss_Success :: bool
  ss_Error :: string

datatype emission =
    RunnerLog ExecutionMetadata LogEntry "go_error option"
  | PlanEvent ExecutionMetadata string string

record ExecService =
  executionStatus :: "(string \<times> StreamState) list"
  metadataCache :: "(string \<times> ExecutionMetadata) list"
  emitted :: "emission list"

definition NewExecutionServiceServer :: ExecService where
  "NewExecutionServiceServer = \<lparr>executionStatus = [], metadataCache = [], emitted = []\<rparr>"

text \<open>
  The cluster as one call sees it: whether a client is configured, the Jobs with the execution's
  label, and the outcome of reading a plan (\<open>Inr ()\<close> when it is found).
\<close>

record StreamEnv =
  sn_now :: Time
  k8sClient :: bool
  jobsOf :: "string \<Rightarrow> (Job list) res"
  readPlan :: "string \<Rightarrow> string \<Rightarrow> unit res"

definition unknownMetadata :: "string \<Rightarrow> ExecutionMetadata" where
  "unknownMetadata i = \<lparr>em_Namespace = ''unknown'', em_PlanName = ''unknown'', em_TargetName = ''unknown'', em_ExecutionID = i\<rparr>"

definition getExecutionMetadata :: "StreamEnv \<Rightarrow> string \<Rightarrow> ExecutionMetadata res" where
  "getExecutionMetadata e i =
     (if \<not> k8sClient e then Inr (unknownMetadata i)
      else (case jobsOf e i of
              Inl err \<Rightarrow> Inl (Wrap (''failed to list jobs for execution '' @ i @ '': '') err)
            | Inr [] \<Rightarrow> Inl (ErrMsg (''no job found for execution '' @ i))
            | Inr (job # _) \<Rightarrow>
                (let meta = \<lparr>em_Namespace = j_Namespace job, em_PlanName = get_str (j_Labels job) LabelPlan,
                       em_TargetName = get_str (j_Labels job) LabelTarget, em_ExecutionID = i\<rparr>
                 in if em_PlanName meta = ''''
                    then Inl (ErrMsg (''job '' @ j_Namespace job @ ''/'' @ j_Name job @ '' missing plan label''))
                    else Inr meta)))"

definition getOrCacheExecutionMetadata :: "StreamEnv \<Rightarrow> string \<Rightarrow> ExecService \<Rightarrow> ExecutionMetadata res \<times> ExecService" where
  "getOrCacheExecutionMetadata e i s =
     (case map_of (metadataCache s) i of
        Some meta \<Rightarrow> (Inr meta, s)
      | None \<Rightarrow>
          (case getExecutionMetadata e i of
             Inl err \<Rightarrow> (Inl err, s)
           | Inr meta \<Rightarrow> (Inr meta, s\<lparr>metadataCache := AList.update i meta (metadataCache s)\<rparr>)))"

definition emit :: "emission \<Rightarrow> ExecService \<Rightarrow> ExecService" where
  "emit x s = s\<lparr>emitted := emitted s @ [x]\<rparr>"

definition EmitLog :: "StreamEnv \<Rightarrow> LogEntry option \<Rightarrow> ExecService \<Rightarrow> go_error option \<times> ExecService" where
  "EmitLog e entry s =
     (case entry of
        None \<Rightarrow> (Some (ErrMsg ''log entry is nil''), s)
      | Some x \<Rightarrow>
          (case getOrCacheExecutionMetadata e (le_ExecutionId x) s of
             (Inl err, s1) \<Rightarrow> (None, emit (RunnerLog (unknownMetadata (le_ExecutionId x)) x (Some err)) s1)
           | (Inr meta, s1) \<Rightarrow> (None, emit (RunnerLog meta x None) s1)))"

definition newState :: "string \<Rightarrow> StreamState" where
  "newState i = \<lparr>ss_ExecutionID = i, ss_Phase = '''', ss_ProgressPercent = 0, ss_Message = '''', ss_LastUpdate = zeroTime,
     ss_Completed = False, ss_Success = False, ss_Error = ''''\<rparr>"

definition updateState :: "string \<Rightarrow> (StreamState \<Rightarrow> StreamState) \<Rightarrow> ExecService \<Rightarrow> ExecService" where
  "updateState i f s =
     (let state = (case map_of (executionStatus s) i of None \<Rightarrow> newState i | Some x \<Rightarrow> x)
      in s\<lparr>executionStatus := AList.update i (f state) (executionStatus s)\<rparr>)"

text \<open>A plan is read only with a client; a read that fails is logged and no event is recorded.\<close>

definition recordEvent :: "StreamEnv \<Rightarrow> ExecutionMetadata \<Rightarrow> string \<Rightarrow> string \<Rightarrow> ExecService \<Rightarrow> ExecService" where
  "recordEvent e meta reason message s =
     (if k8sClient e \<and> \<not> isl (readPlan e (em_Namespace meta) (em_PlanName meta)) then emit (PlanEvent meta reason message) s else s)"

definition ReportProgress :: "StreamEnv \<Rightarrow> ProgressReport \<Rightarrow> ExecService \<Rightarrow> ExecService" where
  "ReportProgress e req s =
     (let s1 = updateState (pr_ExecutionId req) (\<lambda>x. x\<lparr>ss_Phase := pr_Phase req, ss_ProgressPercent := pr_ProgressPercent req,
                 ss_Message := pr_Message req, ss_LastUpdate := sn_now e\<rparr>) s
      in case getOrCacheExecutionMetadata e (pr_ExecutionId req) s1 of
           (Inl _, s2) \<Rightarrow> s2
         | (Inr meta, s2) \<Rightarrow> recordEvent e meta ''ExecutionProgress'' (show_int (pr_ProgressPercent req) @ ''% - '' @ pr_Message req) s2)"

definition cleanupExecution :: "string \<Rightarrow> ExecService \<Rightarrow> ExecService" where
  "cleanupExecution i s =
     s\<lparr>metadataCache := AList.delete i (metadataCache s), executionStatus := AList.delete i (executionStatus s)\<rparr>"

definition ReportCompletion :: "StreamEnv \<Rightarrow> CompletionReport \<Rightarrow> ExecService \<Rightarrow> ExecService" where
  "ReportCompletion e req s =
     (let i = co_ExecutionId req;
          s1 = updateState i (\<lambda>x. x\<lparr>ss_Completed := True, ss_Success := co_Success req, ss_Error := co_ErrorMessage req,
                 ss_LastUpdate := sn_now e\<rparr>) s;
          message = (if co_ErrorMessage req \<noteq> '''' then co_ErrorMessage req else ''Completed successfully'');
          s2 = (case getOrCacheExecutionMetadata e i s1 of
                  (Inl _, s2) \<Rightarrow> s2
                | (Inr meta, s2) \<Rightarrow>
                    recordEvent e meta (if co_Success req then ''ExecutionCompleted'' else ''ExecutionFailed'') message s2)
      in cleanupExecution i s2)"

definition HeartbeatRequest :: "StreamEnv \<Rightarrow> string \<Rightarrow> ExecService \<Rightarrow> ExecService" where
  "HeartbeatRequest e i s = updateState i (\<lambda>x. x\<lparr>ss_LastUpdate := sn_now e\<rparr>) s"

definition cleanupStaleExecutions :: "StreamEnv \<Rightarrow> duration \<Rightarrow> ExecService \<Rightarrow> ExecService" where
  "cleanupStaleExecutions e staleDuration s =
     fold cleanupExecution (map fst (filter (\<lambda>(i, x). SubTime (sn_now e) (ss_LastUpdate x) > staleDuration) (executionStatus s))) s"

text \<open>The service method of each report; the error is that of \<open>EmitLog\<close> on a nil entry, which is not a report.\<close>

fun serviceCall :: "StreamEnv \<Rightarrow> report \<Rightarrow> ExecService \<Rightarrow> ExecService" where
  "serviceCall e (Log x) s = snd (EmitLog e (Some x) s)"
| "serviceCall e (Progress p) s = ReportProgress e p s"
| "serviceCall e (Completion c) s = ReportCompletion e c s"
| "serviceCall e (Heartbeat i) s = HeartbeatRequest e i s"

section \<open>Tokens\<close>

record TokenReviewStatus =
  Authenticated :: bool
  tr_Error :: string
  tr_Audiences :: "string list"
  tr_Username :: string
  tr_Groups :: "string list"

text \<open>\<open>reviewToken\<close> is the API server's answer to a TokenReview for the audience.\<close>

record TokenValidator =
  reviewToken :: "string \<Rightarrow> string \<Rightarrow> TokenReviewStatus res"
  tv_audience :: string
  expectedServiceAccount :: string
  expectedNamespace :: string

record ValidationResult =
  Valid :: bool
  vr_Username :: string
  vr_Groups :: "string list"
  vr_Namespace :: string
  ServiceAccount :: string
  vr_Error :: "go_error option"

abbreviation BearerPrefix :: string where "BearerPrefix \<equiv> ''Bearer ''"

definition rejected :: "go_error \<Rightarrow> ValidationResult" where
  "rejected err = \<lparr>Valid = False, vr_Username = '''', vr_Groups = [], vr_Namespace = '''', ServiceAccount = '''', vr_Error = Some err\<rparr>"

definition accountOf :: "string \<Rightarrow> string \<times> string" where
  "accountOf username =
     (case split_on CHR '':'' username of
        [a, b, ns, name] \<Rightarrow> if a = ''system'' \<and> b = ''serviceaccount'' then (ns, name) else ('''', '''')
      | _ \<Rightarrow> ('''', ''''))"

definition ValidateToken :: "TokenValidator \<Rightarrow> string \<Rightarrow> ValidationResult" where
  "ValidateToken v token0 =
     (let token = TrimPrefix token0 BearerPrefix in
      if token = '''' then rejected (ErrMsg ''empty token'')
      else
        (case reviewToken v token (tv_audience v) of
           Inl err \<Rightarrow> rejected (Wrap ''token review failed: '' err)
         | Inr st \<Rightarrow>
             if \<not> Authenticated st then rejected (ErrMsg (''token not authenticated: '' @ tr_Error st))
             else if tr_Audiences st = [] then rejected (ErrMsg ''no audiences in token'')
             else if tv_audience v \<notin> set (tr_Audiences st) then rejected (ErrMsg (''audience mismatch: expected '' @ tv_audience v))
             else
               (case accountOf (tr_Username st) of (ns, sa) \<Rightarrow>
                  let r = \<lparr>Valid = False, vr_Username = '''', vr_Groups = [], vr_Namespace = ns, ServiceAccount = sa, vr_Error = None\<rparr> in
                  if ns \<noteq> expectedNamespace v
                  then r\<lparr>vr_Error := Some (ErrMsg (''namespace mismatch: expected '' @ expectedNamespace v @ '', got '' @ ns))\<rparr>
                  else if sa \<noteq> expectedServiceAccount v
                  then r\<lparr>vr_Error := Some (ErrMsg (''service account mismatch: expected '' @ expectedServiceAccount v @ '', got '' @ sa))\<rparr>
                  else r\<lparr>Valid := True, vr_Username := tr_Username st, vr_Groups := tr_Groups st\<rparr>)))"

definition ExtractTokenFromHeader :: "string \<Rightarrow> string res" where
  "ExtractTokenFromHeader h =
     (if take (length BearerPrefix) h \<noteq> BearerPrefix then Inl (ErrMsg ''invalid authorization header format'')
      else (let token = TrimPrefix h BearerPrefix
            in if token = '''' then Inl (ErrMsg ''invalid authorization header value'') else Inr token))"

section \<open>Transports\<close>

text \<open>
  A gRPC call: the values of the authorization header, \<open>None\<close> without metadata.  The two
  interceptors make the same checks before they call the handler.
\<close>

definition grpcAuthenticate :: "TokenValidator \<Rightarrow> string list option \<Rightarrow> ValidationResult res" where
  "grpcAuthenticate v md =
     (case md of
        None \<Rightarrow> Inl (ErrMsg ''missing metadata'')
      | Some [] \<Rightarrow> Inl (ErrMsg ''missing authorization header'')
      | Some (h # _) \<Rightarrow>
          (case ExtractTokenFromHeader h of
             Inl err \<Rightarrow> Inl err
           | Inr token \<Rightarrow>
               (let result = ValidateToken v token
                in if Valid result then Inr result else Inl (ErrMsg ''invalid token''))))"

definition grpcUnary :: "TokenValidator \<Rightarrow> StreamEnv \<Rightarrow> string list option \<Rightarrow> report \<Rightarrow> ExecService \<Rightarrow> go_error option \<times> ExecService" where
  "grpcUnary v e md r s =
     (case grpcAuthenticate v md of Inl err \<Rightarrow> (Some err, s) | Inr _ \<Rightarrow> (None, serviceCall e r s))"

datatype stream_end = StreamEOF | StatusCode string | ContextCanceled | ContextDeadline | OtherEnd

definition isGracefulStreamClosure :: "stream_end \<Rightarrow> bool" where
  "isGracefulStreamClosure x \<longleftrightarrow>
     (case x of
        StreamEOF \<Rightarrow> True
      | StatusCode c \<Rightarrow> c = ''Canceled'' \<or> c = ''DeadlineExceeded''
      | ContextCanceled \<Rightarrow> True
      | ContextDeadline \<Rightarrow> True
      | OtherEnd \<Rightarrow> False)"

datatype stream_result = ReceivedCount nat | StreamClosed | StreamFailed

text \<open>\<open>StreamLogs\<close>: the entries that arrive, each with the cluster as it is then, and the error that ends the stream.\<close>

fun StreamLogs :: "(StreamEnv \<times> LogEntry) list \<Rightarrow> stream_end \<Rightarrow> nat \<Rightarrow> ExecService \<Rightarrow> stream_result \<times> ExecService" where
  "StreamLogs [] x n s =
     (if x = StreamEOF then ReceivedCount n else if isGracefulStreamClosure x then StreamClosed else StreamFailed, s)"
| "StreamLogs ((e, entry) # es) x n s =
     (case EmitLog e (Some entry) s of
        (None, s1) \<Rightarrow> StreamLogs es x (Suc n) s1
      | (Some _, s1) \<Rightarrow> (StreamFailed, s1))"

definition grpcStream :: "TokenValidator \<Rightarrow> string list option \<Rightarrow> (StreamEnv \<times> LogEntry) list \<Rightarrow> stream_end \<Rightarrow> ExecService \<Rightarrow>
    stream_result res \<times> ExecService" where
  "grpcStream v md es x s =
     (case grpcAuthenticate v md of
        Inl err \<Rightarrow> (Inl err, s)
      | Inr _ \<Rightarrow> (case StreamLogs es x 0 s of (r, s1) \<Rightarrow> (Inr r, s1)))"

text \<open>HTTP: the scheme of the header is compared without regard to case, and cut at the first blank.\<close>

definition validateRequest :: "TokenValidator \<Rightarrow> string \<Rightarrow> ValidationResult res" where
  "validateRequest v h =
     (if h = '''' then Inl (ErrMsg ''missing authorization header'')
      else (let scheme = takeWhile (\<lambda>c. c \<noteq> CHR '' '') h; rest = dropWhile (\<lambda>c. c \<noteq> CHR '' '') h in
            if rest = [] \<or> ToLower scheme \<noteq> ''bearer'' then Inl (ErrMsg ''invalid authorization header format'')
            else (let result = ValidateToken v (tl rest)
                  in case vr_Error result of Some err \<Rightarrow> Inl err | None \<Rightarrow> Inr result)))"

definition validateExecutionAccess :: "StreamEnv \<Rightarrow> ValidationResult \<Rightarrow> string \<Rightarrow> ExecService \<Rightarrow> go_error option \<times> ExecService" where
  "validateExecutionAccess e result i s =
     (if \<not> Valid result then (Some (ErrMsg ''invalid token''), s)
      else (case getOrCacheExecutionMetadata e i s of
              (Inl _, s1) \<Rightarrow> (None, s1)
            | (Inr meta, s1) \<Rightarrow>
                if em_Namespace meta = ''unknown'' then (None, s1)
                else if vr_Namespace result \<noteq> em_Namespace meta
                then (Some (ErrMsg (''namespace mismatch: SA namespace '' @ quote (vr_Namespace result) @
                        '' does not match execution namespace '' @ quote (em_Namespace meta))), s1)
                else (None, s1)))"

record WebhookPayload =
  wp_Type :: string
  wp_Log :: "LogEntry option"
  wp_Progress :: "ProgressReport option"
  wp_Completion :: "CompletionReport option"
  wp_Heartbeat :: "string option"

definition payloadReport :: "WebhookPayload \<Rightarrow> report option" where
  "payloadReport p =
     (if wp_Type p = ''log'' then map_option Log (wp_Log p)
      else if wp_Type p = ''progress'' then map_option Progress (wp_Progress p)
      else if wp_Type p = ''completion'' then map_option Completion (wp_Completion p)
      else if wp_Type p = ''heartbeat'' then map_option Heartbeat (wp_Heartbeat p)
      else None)"

text \<open>
  The unified callback.  A payload of an unknown type, or without the part its type names, has no execution
  ID and is refused before the second switch of the code.
\<close>

definition handleCallback :: "TokenValidator \<Rightarrow> StreamEnv \<Rightarrow> string \<Rightarrow> string \<Rightarrow> WebhookPayload option \<Rightarrow> ExecService \<Rightarrow> nat \<times> ExecService" where
  "handleCallback v e httpMethod header payload s =
     (if httpMethod \<noteq> ''POST'' then (405, s)
      else (case validateRequest v header of
              Inl _ \<Rightarrow> (401, s)
            | Inr result \<Rightarrow>
                (case payload of
                   None \<Rightarrow> (400, s)
                 | Some p \<Rightarrow>
                     (case payloadReport p of
                        None \<Rightarrow> (400, s)
                      | Some r \<Rightarrow>
                          if report_id r = '''' then (400, s)
                          else (case validateExecutionAccess e result (report_id r) s of
                                  (Some _, s1) \<Rightarrow> (403, s1)
                                | (None, s1) \<Rightarrow> (200, serviceCall e r s1))))))"

text \<open>The endpoints of one kind of report; \<open>None\<close> is a body that does not decode.\<close>

definition handleReport :: "TokenValidator \<Rightarrow> StreamEnv \<Rightarrow> string \<Rightarrow> string \<Rightarrow> report option \<Rightarrow> ExecService \<Rightarrow> nat \<times> ExecService" where
  "handleReport v e httpMethod header body s =
     (if httpMethod \<noteq> ''POST'' then (405, s)
      else (case validateRequest v header of
              Inl _ \<Rightarrow> (401, s)
            | Inr _ \<Rightarrow> (case body of None \<Rightarrow> (400, s) | Some r \<Rightarrow> (200, serviceCall e r s))))"

definition handleLogs :: "TokenValidator \<Rightarrow> StreamEnv \<Rightarrow> string \<Rightarrow> string \<Rightarrow> (LogEntry option) list option \<Rightarrow> ExecService \<Rightarrow> nat \<times> ExecService" where
  "handleLogs v e httpMethod header body s =
     (if httpMethod \<noteq> ''POST'' then (405, s)
      else (case validateRequest v header of
              Inl _ \<Rightarrow> (401, s)
            | Inr _ \<Rightarrow>
                (case body of None \<Rightarrow> (400, s) | Some entries \<Rightarrow> (200, fold (\<lambda>x s. snd (EmitLog e x s)) entries s))))"

text \<open>A websocket message: not a text or not decodable (ignored), or a report.\<close>

definition handleWebSocket :: "TokenValidator \<Rightarrow> string \<Rightarrow> string \<Rightarrow> (StreamEnv \<times> report option) list \<Rightarrow> ExecService \<Rightarrow> nat \<times> ExecService" where
  "handleWebSocket v executionID header msgs s =
     (if executionID = '''' then (400, s)
      else if header = '''' then (401, s)
      else (case ExtractTokenFromHeader header of
              Inl _ \<Rightarrow> (401, s)
            | Inr token \<Rightarrow>
                if vr_Error (ValidateToken v token) \<noteq> None then (401, s)
                else (101, fold (\<lambda>(e, m) s. case m of None \<Rightarrow> s | Some r \<Rightarrow> serviceCall e r s) msgs s)))"

text \<open>The requests of all transports.\<close>

datatype request =
    GrpcUnary StreamEnv "string list option" report
  | GrpcStream "string list option" "(StreamEnv \<times> LogEntry) list" stream_end
  | HttpCallback StreamEnv string string "WebhookPayload option"
  | HttpReport StreamEnv string string "report option"
  | HttpLogs StreamEnv string string "(LogEntry option) list option"
  | WebSocket string string "(StreamEnv \<times> report option) list"

fun serve :: "TokenValidator \<Rightarrow> request \<Rightarrow> ExecService \<Rightarrow> ExecService" where
  "serve v (GrpcUnary e md r) s = snd (grpcUnary v e md r s)"
| "serve v (GrpcStream md es x) s = snd (grpcStream v md es x s)"
| "serve v (HttpCallback e m h p) s = snd (handleCallback v e m h p s)"
| "serve v (HttpReport e m h b) s = snd (handleReport v e m h b s)"
| "serve v (HttpLogs e m h b) s = snd (handleLogs v e m h b s)"
| "serve v (WebSocket i h msgs) s = snd (handleWebSocket v i h msgs s)"

section \<open>Authentication\<close>

text \<open>A token that the API server vouches for: the right audience, and the runner's service account.\<close>

definition runnerToken :: "TokenValidator \<Rightarrow> string \<Rightarrow> bool" where
  "runnerToken v token \<longleftrightarrow>
     (case reviewToken v token (tv_audience v) of
        Inl _ \<Rightarrow> False
      | Inr st \<Rightarrow> Authenticated st \<and> tv_audience v \<in> set (tr_Audiences st) \<and>
          tr_Username st = ''system:serviceaccount:'' @ expectedNamespace v @ '':'' @ expectedServiceAccount v)"

lemma accountOf_iff:
  assumes "ns \<noteq> ''''"
  shows "accountOf u = (ns, sa) \<Longrightarrow> u = ''system:serviceaccount:'' @ ns @ '':'' @ sa"
proof -
  assume a: "accountOf u = (ns, sa)"
  then have "split_on CHR '':'' u = [''system'', ''serviceaccount'', ns, sa]"
    using assms by (auto simp: accountOf_def split: list.splits if_splits)
  then have "u = join [CHR '':''] [''system'', ''serviceaccount'', ns, sa]" using join_split_on by metis
  then show ?thesis by simp
qed

lemma TrimPrefix_cases: "s = TrimPrefix s p \<or> s = p @ TrimPrefix s p"
  using append_take_drop_id [of "length p" s] by (simp only: TrimPrefix_def split: if_split) metis

lemma ValidateToken_valid: "Valid (ValidateToken v t) \<longleftrightarrow> vr_Error (ValidateToken v t) = None"
  by (auto simp: ValidateToken_def rejected_def Let_def split: sum.splits prod.splits)

lemma ValidateToken_runner:
  assumes "expectedNamespace v \<noteq> ''''" "Valid (ValidateToken v t)"
  shows "\<exists>token. token \<noteq> '''' \<and> runnerToken v token \<and> (t = token \<or> t = BearerPrefix @ token)"
proof -
  let ?token = "TrimPrefix t BearerPrefix"
  have "runnerToken v ?token \<and> ?token \<noteq> ''''"
    using assms by (auto simp: ValidateToken_def rejected_def runnerToken_def Let_def dest!: accountOf_iff
        split: sum.splits prod.splits if_splits)
  moreover have "t = ?token \<or> t = BearerPrefix @ ?token" by (rule TrimPrefix_cases)
  ultimately show ?thesis by blast
qed

fun headerOf :: "request \<Rightarrow> string" where
  "headerOf (GrpcUnary _ md _) = (case md of Some (h # _) \<Rightarrow> h | _ \<Rightarrow> '''')"
| "headerOf (GrpcStream md _ _) = (case md of Some (h # _) \<Rightarrow> h | _ \<Rightarrow> '''')"
| "headerOf (HttpCallback _ _ h _) = h"
| "headerOf (HttpReport _ _ h _) = h"
| "headerOf (HttpLogs _ _ h _) = h"
| "headerOf (WebSocket _ h _) = h"

text \<open>The header of a request carries a token that the validator accepts.\<close>

definition carries :: "TokenValidator \<Rightarrow> string \<Rightarrow> bool" where
  "carries v h \<longleftrightarrow> (\<exists>pre token. h = pre @ token \<and> Valid (ValidateToken v token))"

lemma Extract_suffix:
  assumes "ExtractTokenFromHeader h = Inr token"
  shows "\<exists>pre. h = pre @ token"
proof -
  have "token = TrimPrefix h BearerPrefix" using assms by (simp add: ExtractTokenFromHeader_def Let_def split: if_splits)
  then show ?thesis using TrimPrefix_cases [of h BearerPrefix] append_Nil by metis
qed

lemma grpcAuthenticate_carries:
  "grpcAuthenticate v md = Inr r \<Longrightarrow> carries v (case md of Some (h # _) \<Rightarrow> h | _ \<Rightarrow> '''')"
  using Extract_suffix by (fastforce simp: grpcAuthenticate_def carries_def Let_def split: option.splits list.splits sum.splits if_splits)

lemma validateRequest_carries:
  assumes "validateRequest v h = Inr r"
  shows "carries v h" "Valid r"
proof -
  let ?t = "tl (dropWhile (\<lambda>c. c \<noteq> CHR '' '') h)"
  have r: "r = ValidateToken v ?t" "vr_Error r = None" "dropWhile (\<lambda>c. c \<noteq> CHR '' '') h \<noteq> []"
    using assms by (auto simp: validateRequest_def Let_def split: if_splits option.splits)
  then show "Valid r" by (simp add: ValidateToken_valid)
  have "h = (takeWhile (\<lambda>c. c \<noteq> CHR '' '') h @ [hd (dropWhile (\<lambda>c. c \<noteq> CHR '' '') h)]) @ ?t" using r(3) by simp
  then show "carries v h" using r \<open>Valid r\<close> unfolding carries_def by metis
qed

lemma serve_authenticated: "serve v req s \<noteq> s \<Longrightarrow> carries v (headerOf req)"
proof (induction v req s rule: serve.induct)
  case (1 v e md r s)
  then show ?case using grpcAuthenticate_carries [of v md] by (auto simp: grpcUnary_def split: sum.splits)
next
  case (2 v md es x s)
  then show ?case using grpcAuthenticate_carries [of v md] by (auto simp: grpcStream_def split: sum.splits)
next
  case (3 v e m h p s)
  then show ?case using validateRequest_carries(1) [of v h] by (auto simp: handleCallback_def split: sum.splits if_splits)
next
  case (4 v e m h b s)
  then show ?case using validateRequest_carries(1) [of v h] by (auto simp: handleReport_def split: sum.splits if_splits)
next
  case (5 v e m h b s)
  then show ?case using validateRequest_carries(1) [of v h] by (auto simp: handleLogs_def split: sum.splits if_splits)
next
  case (6 v i h msgs s)
  then show ?case using Extract_suffix [of h]
    by (auto simp: handleWebSocket_def carries_def ValidateToken_valid split: sum.splits if_splits)
qed

text \<open>
  C27.  Over every transport the state of the service changes, and anything is logged or recorded, only on a
  request whose header carries a token that the API server has authenticated, for the audience of
  the control plane and as the runner's service account.  The expected namespace of the
  validator is not empty: a user name that is not one of a service account has the empty namespace and name.
\<close>

theorem only_runner_reports:
  assumes "expectedNamespace v \<noteq> ''''" "serve v req s \<noteq> s"
  shows "\<exists>pre token. headerOf req = pre @ token \<and> token \<noteq> '''' \<and> runnerToken v token"
proof -
  obtain pre t where t: "headerOf req = pre @ t" "Valid (ValidateToken v t)"
    using serve_authenticated [OF assms(2)] by (auto simp: carries_def)
  then obtain token where "token \<noteq> ''''" "runnerToken v token" "t = token \<or> t = BearerPrefix @ token"
    using ValidateToken_runner [OF assms(1)] by blast
  then show ?thesis using t(1) by (metis append.assoc)
qed

definition sampleValidator :: TokenValidator where
  "sampleValidator = \<lparr>reviewToken = (\<lambda>t a. Inr \<lparr>Authenticated = (t = ''abc''), tr_Error = '''', tr_Audiences = [a],
       tr_Username = ''system:serviceaccount:ops:runner'', tr_Groups = []\<rparr>),
     tv_audience = ''hibernator-control-plane'', expectedServiceAccount = ''runner'', expectedNamespace = ''ops''\<rparr>"

definition sampleStream :: StreamEnv where
  "sampleStream = \<lparr>sn_now = \<lparr>t_ns = 0, t_loc = UTC\<rparr>, k8sClient = False, jobsOf = (\<lambda>_. Inr []), readPlan = (\<lambda>_ _. Inr ())\<rparr>"

theorem only_runner_reports_witness:
  "serve sampleValidator (HttpReport sampleStream ''POST'' ''Bearer abc'' (Some (Heartbeat ''e1''))) NewExecutionServiceServer \<noteq>
     NewExecutionServiceServer \<and> (\<exists>pre token. ''Bearer abc'' = pre @ token \<and> token \<noteq> '''' \<and> runnerToken sampleValidator token)"
proof -
  let ?req = "HttpReport sampleStream ''POST'' ''Bearer abc'' (Some (Heartbeat ''e1''))"
  have "split_on CHR '':'' ''system:serviceaccount:ops:runner'' = [''system'', ''serviceaccount'', ''ops'', ''runner'']" by simp
  moreover have "ToLower ''Bearer'' = ''bearer''" by code_simp
  ultimately have "serve sampleValidator ?req NewExecutionServiceServer \<noteq> NewExecutionServiceServer"
    by (simp add: handleReport_def validateRequest_def ValidateToken_def TrimPrefix_def accountOf_def
        sampleValidator_def NewExecutionServiceServer_def HeartbeatRequest_def updateState_def Let_def)
  then show ?thesis using only_runner_reports [of sampleValidator ?req NewExecutionServiceServer]
    by (simp add: sampleValidator_def)
qed

section \<open>State and metadata of an execution\<close>

text \<open>
  Completion leaves nothing behind, and a sweep removes exactly the executions that have not
  been heard of for longer than the given time.
\<close>

lemma completion_forgets:
  "map_of (executionStatus (ReportCompletion e req s)) (co_ExecutionId req) = None \<and>
   map_of (metadataCache (ReportCompletion e req s)) (co_ExecutionId req) = None"
  by (simp add: ReportCompletion_def cleanupExecution_def Let_def delete_conv)

lemma cleanup_fold:
  "executionStatus (fold cleanupExecution is s) = fold AList.delete is (executionStatus s)"
  "metadataCache (fold cleanupExecution is s) = fold AList.delete is (metadataCache s)"
  by (induction "is" arbitrary: s) (simp_all add: cleanupExecution_def)

lemma map_of_fold_delete: "map_of (fold AList.delete is xs) i = (if i \<in> set is then None else map_of xs i)"
  by (induction "is" arbitrary: xs) (simp_all add: delete_conv')

lemma keys_filter:
  assumes "distinct (map fst xs)"
  shows "i \<in> set (map fst (filter P xs)) \<longleftrightarrow> (\<exists>x. map_of xs i = Some x \<and> P (i, x))"
  using map_of_eq_Some_iff [OF assms] by (auto simp: image_iff)

lemma stale_swept_exactly:
  assumes "distinct (map fst (executionStatus s))"
  shows "map_of (executionStatus (cleanupStaleExecutions e d s)) i =
    (case map_of (executionStatus s) i of
       None \<Rightarrow> None
     | Some x \<Rightarrow> if SubTime (sn_now e) (ss_LastUpdate x) > d then None else Some x)"
  unfolding cleanupStaleExecutions_def cleanup_fold map_of_fold_delete keys_filter [OF assms]
  by (auto split: option.splits)

text \<open>
  The cache of metadata is swept only through the states: an entry without a state, which a log
  entry that arrives after the completion makes, survives every sweep.
\<close>

lemma late_log_leaks:
  assumes "getExecutionMetadata e (le_ExecutionId x) = Inr meta" "co_ExecutionId req = le_ExecutionId x"
  shows "map_of (metadataCache (cleanupStaleExecutions e' d (snd (EmitLog e (Some x) (ReportCompletion e0 req s))))) (le_ExecutionId x) = Some meta"
proof -
  let ?s = "ReportCompletion e0 req s" and ?i = "le_ExecutionId x"
  let ?t = "snd (EmitLog e (Some x) ?s)"
  have t: "executionStatus ?t = executionStatus ?s" "map_of (metadataCache ?t) ?i = Some meta"
    using completion_forgets [of e0 req s] assms
    by (simp_all add: EmitLog_def getOrCacheExecutionMetadata_def emit_def update_conv')
  moreover have "?i \<notin> fst ` set (executionStatus ?s)"
    using completion_forgets [of e0 req s] assms(2) by (simp add: map_of_eq_None_iff)
  ultimately show ?thesis
    by (auto simp: cleanupStaleExecutions_def cleanup_fold map_of_fold_delete)
qed

text \<open>
  Only the unified callback compares the namespace of the runner with that of the execution; the endpoints
  of single reports accept a report that the callback forbids.
\<close>

lemma endpoints_skip_access_check:
  assumes "validateRequest v h = Inr r" "getExecutionMetadata e (report_id x) = Inr meta" "map_of (metadataCache s) (report_id x) = None"
    and "em_Namespace meta \<noteq> ''unknown''" "em_Namespace meta \<noteq> vr_Namespace r" "payloadReport p = Some x" "report_id x \<noteq> ''''"
  shows "fst (handleCallback v e ''POST'' h (Some p) s) = 403 \<and> handleReport v e ''POST'' h (Some x) s = (200, serviceCall e x s)"
  using assms validateRequest_carries(2) [OF assms(1)]
  by (simp add: handleCallback_def handleReport_def validateExecutionAccess_def getOrCacheExecutionMetadata_def)

text \<open>
  The HTTP client of the runner posts its heartbeats, without the envelope of a payload, to the unified
  callback: decoded there they have no type, so they are refused and the execution is not kept alive.
\<close>

definition bareBody :: WebhookPayload where
  "bareBody = \<lparr>wp_Type = '''', wp_Log = None, wp_Progress = None, wp_Completion = None, wp_Heartbeat = None\<rparr>"

lemma bare_heartbeat_refused: "validateRequest v h = Inr r \<Longrightarrow> handleCallback v e ''POST'' h (Some bareBody) s = (400, s)"
  by (simp add: handleCallback_def payloadReport_def bareBody_def)

end
